(* ===== verification/Prelude.thy ===== *)
theory Prelude
  imports Main "HOL-Library.Char_ord" "HOL-Library.List_Lexorder" "HOL-Library.Product_Lexorder"
    "HOL-Library.Option_ord"
begin

text \<open>
  What every component of the development shares.

  \<^item> Strings are \<^typ>\<open>string\<close>, that is lists of bytes: the \<open>ArcStr\<close> values of the
    code are UTF-8, and \<open>len\<close>, \<open>Ord\<close> and \<open>starts_with\<close> of Rust work on
    the bytes, as the lexicographic order of \<^theory_text>\<open>List_Lexorder\<close> does here.
  \<^item> Fallible operations on a state are functions \<open>'s \<Rightarrow> ('e + 'a) \<times> 's\<close>: \<open>Inl\<close> is
    the \<open>Err\<close> of the code, and the state is returned in both cases, because \<open>?\<close>
    leaves behind what was already written.
  \<^item> \<open>BTreeMap\<close> is a list of pairs kept sorted by key, \<open>BTreeSet\<close> a sorted list.
\<close>

named_theorems run_simps \<open>inversion rules for the operations of the state-and-error monad\<close>
named_theorems keeps_intros \<open>what an operation leaves alone\<close>
named_theorems preserves_intros \<open>operations that keep an invariant\<close>
named_theorems normal_intros \<open>operations that end with a value or an ordinary error\<close>
named_theorems tree_intros \<open>well-formedness of the case tree is kept\<close>

section \<open>Operations with a state and an error\<close>

type_synonym ('s, 'e, 'a) action = "'s \<Rightarrow> ('e + 'a) \<times> 's"

definition ret :: "'a \<Rightarrow> ('s, 'e, 'a) action" where
  "ret x s = (Inr x, s)"

definition fail :: "'e \<Rightarrow> ('s, 'e, 'a) action" where
  "fail e s = (Inl e, s)"

definition bind_act :: "('s, 'e, 'a) action \<Rightarrow> ('a \<Rightarrow> ('s, 'e, 'b) action) \<Rightarrow> ('s, 'e, 'b) action" where
  "bind_act m f s = (case m s of (Inl e, s') \<Rightarrow> (Inl e, s') | (Inr x, s') \<Rightarrow> f x s')"

definition read_st :: "('s \<Rightarrow> 'a) \<Rightarrow> ('s, 'e, 'a) action" where
  "read_st g s = (Inr (g s), s)"

definition modify_st :: "('s \<Rightarrow> 's) \<Rightarrow> ('s, 'e, unit) action" where
  "modify_st g s = (Inr (), g s)"

definition of_result :: "'e + 'a \<Rightarrow> ('s, 'e, 'a) action" where
  "of_result r s = (r, s)"

text \<open>A \<open>for\<close> loop whose body may return early with an error.\<close>

primrec for_each :: "'x list \<Rightarrow> ('x \<Rightarrow> ('s, 'e, unit) action) \<Rightarrow> ('s, 'e, unit) action" where
  "for_each [] f = ret ()"
| "for_each (x # xs) f = bind_act (f x) (\<lambda>_. for_each xs f)"

text \<open>A \<open>for\<close> loop that threads an accumulator.\<close>

primrec fold_act :: "('x \<Rightarrow> 'c \<Rightarrow> ('s, 'e, 'c) action) \<Rightarrow> 'x list \<Rightarrow> 'c \<Rightarrow> ('s, 'e, 'c) action" where
  "fold_act f [] c = ret c"
| "fold_act f (x # xs) c = bind_act (f x c) (\<lambda>c'. fold_act f xs c')"

lemma ret_conv [run_simps, simp]: "ret x s = (r, s') \<longleftrightarrow> r = Inr x \<and> s' = s"
  by (auto simp: ret_def)

lemma fail_conv [run_simps, simp]: "fail e s = (r, s') \<longleftrightarrow> r = Inl e \<and> s' = s"
  by (auto simp: fail_def)

lemma read_st_conv [run_simps, simp]: "read_st g s = (r, s') \<longleftrightarrow> r = Inr (g s) \<and> s' = s"
  by (auto simp: read_st_def)

lemma modify_st_conv [run_simps, simp]: "modify_st g s = (r, s') \<longleftrightarrow> r = Inr () \<and> s' = g s"
  by (auto simp: modify_st_def)

lemma of_result_conv [run_simps, simp]: "of_result q s = (r, s') \<longleftrightarrow> r = q \<and> s' = s"
  by (auto simp: of_result_def)

lemma bind_Inr_conv [run_simps]:
  "bind_act m f s = (Inr y, s') \<longleftrightarrow> (\<exists>x s1. m s = (Inr x, s1) \<and> f x s1 = (Inr y, s'))"
  by (auto simp: bind_act_def split: prod.splits sum.splits)

lemma bind_Inl_conv [run_simps]:
  "bind_act m f s = (Inl e, s') \<longleftrightarrow>
     m s = (Inl e, s') \<or> (\<exists>x s1. m s = (Inr x, s1) \<and> f x s1 = (Inl e, s'))"
  by (auto simp: bind_act_def split: prod.splits sum.splits)

lemma fold_act_ConsE:
  assumes "fold_act f (x # xs) c s = (Inr c', s')"
  obtains c1 s1 where "f x c s = (Inr c1, s1)" and "fold_act f xs c1 s1 = (Inr c', s')"
proof -
  from assms have "bind_act (f x c) (\<lambda>c'. fold_act f xs c') s = (Inr c', s')" by (simp only: fold_act.simps)
  then show thesis using that unfolding bind_Inr_conv by blast
qed

lemma bind_ret [simp]: "bind_act (ret x) f = f x"
  by (rule ext) (simp add: bind_act_def ret_def)

lemma bind_read: "bind_act (read_st g) f s = f (g s) s"
  by (simp add: bind_act_def read_st_def)

lemma bind_modify: "bind_act (modify_st g) f s = f () (g s)"
  by (simp add: bind_act_def modify_st_def)

lemma bind_assoc: "bind_act (bind_act m f) g = bind_act m (\<lambda>x. bind_act (f x) g)"
  by (rule ext) (auto simp: bind_act_def split: prod.splits sum.splits)

text \<open>
  Hoare triples: \<open>P\<close> before, \<open>Q\<close> of the result after a normal return, \<open>E\<close> of the
  error after an early one. Both outcomes keep the state.
\<close>

definition triple :: "('s \<Rightarrow> bool) \<Rightarrow> ('s, 'e, 'a) action \<Rightarrow> ('a \<Rightarrow> 's \<Rightarrow> bool) \<Rightarrow> ('e \<Rightarrow> 's \<Rightarrow> bool) \<Rightarrow> bool" where
  "triple P m Q E \<longleftrightarrow> (\<forall>s. P s \<longrightarrow> (case m s of (Inr x, s') \<Rightarrow> Q x s' | (Inl e, s') \<Rightarrow> E e s'))"

lemma tripleI:
  assumes "\<And>s x s'. P s \<Longrightarrow> m s = (Inr x, s') \<Longrightarrow> Q x s'"
    and "\<And>s e s'. P s \<Longrightarrow> m s = (Inl e, s') \<Longrightarrow> E e s'"
  shows "triple P m Q E"
  using assms by (auto simp: triple_def split: prod.splits sum.splits)

lemma triple_Inr: "triple P m Q E \<Longrightarrow> P s \<Longrightarrow> m s = (Inr x, s') \<Longrightarrow> Q x s'"
  by (fastforce simp: triple_def)

lemma triple_Inl: "triple P m Q E \<Longrightarrow> P s \<Longrightarrow> m s = (Inl e, s') \<Longrightarrow> E e s'"
  by (fastforce simp: triple_def)

lemma triple_ret: "(\<And>s. P s \<Longrightarrow> Q x s) \<Longrightarrow> triple P (ret x) Q E"
  by (simp add: triple_def ret_def)

lemma triple_fail: "(\<And>s. P s \<Longrightarrow> E e s) \<Longrightarrow> triple P (fail e) Q E"
  by (simp add: triple_def fail_def)

lemma triple_bind:
  assumes "triple P m R E" and "\<And>x. triple (R x) (f x) Q E"
  shows "triple P (bind_act m f) Q E"
proof (rule tripleI)
  fix s y s' assume P: "P s" and run: "bind_act m f s = (Inr y, s')"
  from run obtain x s1 where 1: "m s = (Inr x, s1)" and 2: "f x s1 = (Inr y, s')"
    by (auto simp: bind_Inr_conv)
  from triple_Inr [OF assms(1) P 1] have "R x s1" .
  from triple_Inr [OF assms(2) this 2] show "Q y s'" .
next
  fix s e s' assume P: "P s" and run: "bind_act m f s = (Inl e, s')"
  show "E e s'"
  proof (cases "m s = (Inl e, s')")
    case True
    with assms(1) P show ?thesis by (rule triple_Inl)
  next
    case False
    with run obtain x s1 where 1: "m s = (Inr x, s1)" and 2: "f x s1 = (Inl e, s')"
      by (auto simp: bind_Inl_conv)
    from triple_Inr [OF assms(1) P 1] have "R x s1" .
    from triple_Inl [OF assms(2) this 2] show ?thesis .
  qed
qed

lemma triple_conseq:
  assumes "triple P m Q E"
    and "\<And>s. P' s \<Longrightarrow> P s" and "\<And>x s. Q x s \<Longrightarrow> Q' x s" and "\<And>e s. E e s \<Longrightarrow> E' e s"
  shows "triple P' m Q' E'"
proof (rule tripleI)
  fix s x s' assume "P' s" and run: "m s = (Inr x, s')"
  with assms(2) have "P s" by blast
  from assms(3) [OF triple_Inr [OF assms(1) this run]] show "Q' x s'" .
next
  fix s e s' assume "P' s" and run: "m s = (Inl e, s')"
  with assms(2) have "P s" by blast
  from assms(4) [OF triple_Inl [OF assms(1) this run]] show "E' e s'" .
qed

lemma triple_for_each:
  assumes "\<And>x. x \<in> set xs \<Longrightarrow> triple I (f x) (\<lambda>_. I) E"
  shows "triple I (for_each xs f) (\<lambda>_. I) E"
  using assms
proof (induction xs)
  case Nil
  show ?case by (simp add: triple_ret)
next
  case (Cons x xs)
  have "triple I (f x) (\<lambda>_. I) E" using Cons.prems by simp
  moreover have "triple I (for_each xs f) (\<lambda>_. I) E" using Cons by simp
  ultimately show ?case by (auto intro: triple_bind)
qed

lemma triple_fold_act:
  assumes "\<And>x c. x \<in> set xs \<Longrightarrow> triple (I c) (f x c) I E"
  shows "triple (I c) (fold_act f xs c) I E"
  using assms
proof (induction xs arbitrary: c)
  case Nil
  show ?case by (simp add: triple_ret)
next
  case (Cons x xs)
  have "triple (I c) (f x c) I E" using Cons.prems by simp
  moreover have "\<And>c'. triple (I c') (fold_act f xs c') I E" using Cons by simp
  ultimately show ?case by (auto intro: triple_bind)
qed

lemma map_zip_fst: "length xs = length ys \<Longrightarrow> map (\<lambda>x. f (fst x)) (zip xs ys) = map f xs"
  by (induction xs ys rule: list_induct2) auto

lemma map_zip_snd: "length xs = length ys \<Longrightarrow> map (\<lambda>x. f (snd x)) (zip xs ys) = map f ys"
  by (induction xs ys rule: list_induct2) auto

text \<open>A part \<open>f\<close> of the state that an operation leaves alone, however it ends.\<close>

definition keeps :: "('s \<Rightarrow> 'f) \<Rightarrow> ('s, 'e, 'a) action \<Rightarrow> bool" where
  "keeps f m \<longleftrightarrow> (\<forall>s. f (snd (m s)) = f s)"

lemma keepsD: "keeps f m \<Longrightarrow> m s = (r, s') \<Longrightarrow> f s' = f s"
  by (metis keeps_def snd_conv)

lemma keepsI: "(\<And>s r s'. m s = (r, s') \<Longrightarrow> f s' = f s) \<Longrightarrow> keeps f m"
  by (metis keeps_def surjective_pairing)

lemma keeps_ret [keeps_intros]: "keeps f (ret x)"
  by (simp add: keeps_def ret_def)

lemma keeps_fail [keeps_intros]: "keeps f (fail e)"
  by (simp add: keeps_def fail_def)

lemma keeps_read_st [keeps_intros]: "keeps f (read_st g)"
  by (simp add: keeps_def read_st_def)

lemma keeps_of_result [keeps_intros]: "keeps f (of_result r)"
  by (simp add: keeps_def of_result_def)

lemma keeps_modify_st: "(\<And>s. f (g s) = f s) \<Longrightarrow> keeps f (modify_st g)"
  by (simp add: keeps_def modify_st_def)

lemma keeps_bind [keeps_intros]:
  "keeps f m \<Longrightarrow> (\<And>x. keeps f (g x)) \<Longrightarrow> keeps f (bind_act m g)"
  by (auto simp: keeps_def bind_act_def split: prod.splits sum.splits) (metis snd_conv)+

lemma keeps_if [keeps_intros]: "(b \<Longrightarrow> keeps f m) \<Longrightarrow> (\<not> b \<Longrightarrow> keeps f n) \<Longrightarrow> keeps f (if b then m else n)"
  by simp

lemma keeps_case_option [keeps_intros]:
  "keeps f m \<Longrightarrow> (\<And>x. keeps f (n x)) \<Longrightarrow> keeps f (case o' of None \<Rightarrow> m | Some x \<Rightarrow> n x)"
  by (cases o') simp_all

lemma keeps_case_prod [keeps_intros]: "(\<And>x y. keeps f (m x y)) \<Longrightarrow> keeps f (case p of (x, y) \<Rightarrow> m x y)"
  by (cases p) simp

lemma keeps_case_prod_arg [keeps_intros]:
  "(\<And>x y. keeps f (m x y c)) \<Longrightarrow> keeps f ((case p of (x, y) \<Rightarrow> m x y) c)"
  by (cases p) simp

lemma keeps_for_each [keeps_intros]: "(\<And>x. keeps f (m x)) \<Longrightarrow> keeps f (for_each xs m)"
  by (induction xs) (auto intro: keeps_intros)

lemma keeps_fold_act [keeps_intros]: "(\<And>x c. keeps f (m x c)) \<Longrightarrow> keeps f (fold_act m xs c)"
  by (induction xs arbitrary: c) (auto intro: keeps_intros)

lemma triple_keeps: "keeps f m \<Longrightarrow> triple (\<lambda>s. P (f s)) m (\<lambda>_ s. P (f s)) (\<lambda>_ s. P (f s))"
  by (auto simp: triple_def keeps_def split: prod.splits sum.splits) (metis snd_conv)+

text \<open>An operation that keeps an invariant, however it ends.\<close>

definition preserves :: "('s \<Rightarrow> bool) \<Rightarrow> ('s, 'e, 'a) action \<Rightarrow> bool" where
  "preserves I m \<longleftrightarrow> (\<forall>s. I s \<longrightarrow> I (snd (m s)))"

lemma preservesI: "(\<And>s r s'. I s \<Longrightarrow> m s = (r, s') \<Longrightarrow> I s') \<Longrightarrow> preserves I m"
  by (metis preserves_def surjective_pairing)

lemma preservesD: "preserves I m \<Longrightarrow> I s \<Longrightarrow> m s = (r, s') \<Longrightarrow> I s'"
  by (metis preserves_def snd_conv)

lemma preserves_keeps: "keeps f m \<Longrightarrow> (\<And>s s'. f s' = f s \<Longrightarrow> I s \<Longrightarrow> I s') \<Longrightarrow> preserves I m"
  by (auto simp: preserves_def keeps_def)

lemma preserves_ret [preserves_intros]: "preserves I (ret x)"
  by (simp add: preserves_def ret_def)

lemma preserves_fail [preserves_intros]: "preserves I (fail e)"
  by (simp add: preserves_def fail_def)

lemma preserves_read_st [preserves_intros]: "preserves I (read_st g)"
  by (simp add: preserves_def read_st_def)

lemma preserves_of_result [preserves_intros]: "preserves I (of_result r)"
  by (simp add: preserves_def of_result_def)

lemma preserves_modify_st: "(\<And>s. I s \<Longrightarrow> I (g s)) \<Longrightarrow> preserves I (modify_st g)"
  by (simp add: preserves_def modify_st_def)

lemma preserves_bind [preserves_intros]:
  "preserves I m \<Longrightarrow> (\<And>x. preserves I (g x)) \<Longrightarrow> preserves I (bind_act m g)"
  by (auto simp: preserves_def bind_act_def split: prod.splits sum.splits)

lemma preserves_if [preserves_intros]:
  "(b \<Longrightarrow> preserves I m) \<Longrightarrow> (\<not> b \<Longrightarrow> preserves I n) \<Longrightarrow> preserves I (if b then m else n)"
  by simp

lemma preserves_case_option [preserves_intros]:
  "preserves I m \<Longrightarrow> (\<And>x. preserves I (n x)) \<Longrightarrow> preserves I (case o' of None \<Rightarrow> m | Some x \<Rightarrow> n x)"
  by (cases o') simp_all

lemma preserves_case_prod [preserves_intros]:
  "(\<And>x y. preserves I (m x y)) \<Longrightarrow> preserves I (case p of (x, y) \<Rightarrow> m x y)"
  by (cases p) simp

lemma preserves_case_prod_arg [preserves_intros]:
  "(\<And>x y. preserves I (m x y c)) \<Longrightarrow> preserves I ((case p of (x, y) \<Rightarrow> m x y) c)"
  by (cases p) simp

lemma preserves_for_each [preserves_intros]: "(\<And>x. preserves I (m x)) \<Longrightarrow> preserves I (for_each xs m)"
  by (induction xs) (auto intro: preserves_intros)

lemma preserves_fold_act [preserves_intros]:
  "(\<And>x c. preserves I (m x c)) \<Longrightarrow> preserves I (fold_act m xs c)"
  by (induction xs arbitrary: c) (auto intro: preserves_intros)

end
