(* ===== verification/Containers.thy ===== *)
theory Containers
  imports Prelude
begin

text \<open>
  The containers of Rust's standard library the code keeps its state in.
  A \<open>BTreeMap\<close> is an association list sorted by key, so that iterating over it is
  traversing the list; a \<open>BTreeSet\<close> is a sorted list without duplicates; a \<open>HashMap\<close>
  (or \<open>DashMap\<close>), whose iteration order nothing may depend on, is an association list in
  insertion order. The interface they share is the locale \<open>key_value\<close>, interpreted on both maps.
\<close>

section \<open>Maps as an interface\<close>

locale key_value =
  fixes vempty :: 'm
    and vget :: "'m \<Rightarrow> 'k \<Rightarrow> 'v option"
    and vput :: "'k \<Rightarrow> 'v \<Rightarrow> 'm \<Rightarrow> 'm"
    and vdel :: "'k \<Rightarrow> 'm \<Rightarrow> 'm"
    and vok :: "'m \<Rightarrow> bool"
  assumes get_empty: "vget vempty k = None"
    and get_put: "vok m \<Longrightarrow> vget (vput k v m) = (vget m)(k \<mapsto> v)"
    and get_del: "vok m \<Longrightarrow> vget (vdel k m) = (vget m)(k := None)"
    and ok_empty: "vok vempty"
    and ok_put: "vok m \<Longrightarrow> vok (vput k v m)"
    and ok_del: "vok m \<Longrightarrow> vok (vdel k m)"
begin

lemma get_put_same: "vok m \<Longrightarrow> vget (vput k v m) k = Some v"
  by (simp add: get_put)

lemma get_put_other: "vok m \<Longrightarrow> k' \<noteq> k \<Longrightarrow> vget (vput k v m) k' = vget m k'"
  by (simp add: get_put)

lemma dom_put: "vok m \<Longrightarrow> dom (vget (vput k v m)) = insert k (dom (vget m))"
  by (simp add: get_put)

lemma dom_del: "vok m \<Longrightarrow> dom (vget (vdel k m)) = dom (vget m) - {k}"
  by (simp add: get_del)

text \<open>\<open>entry(k).or_insert(v)\<close>: the value that is there, or \<open>v\<close> stored now.\<close>

lemma or_insert:
  assumes "vok m" and "m' = (case vget m k of None \<Rightarrow> vput k v m | Some _ \<Rightarrow> m)"
  shows "vok m' \<and> (\<exists>v'. vget m' k = Some v') \<and> (\<forall>k'. k' \<noteq> k \<longrightarrow> vget m' k' = vget m k')"
  using assms by (auto simp: ok_put get_put split: option.splits)

text \<open>A run of insertions: the last value stored under a key is the one found.\<close>

lemma puts_ok: "vok m \<Longrightarrow> vok (fold (\<lambda>(k, v). vput k v) kvs m)"
  by (induction kvs arbitrary: m) (auto simp: ok_put)

lemma get_puts: "vok m \<Longrightarrow> vget (fold (\<lambda>(k, v). vput k v) kvs m) = vget m ++ map_of (rev kvs)"
proof (induction kvs arbitrary: m)
  case Nil
  then show ?case by simp
next
  case (Cons kv kvs)
  obtain k v where kv: "kv = (k, v)" by (cases kv)
  have "vget (fold (\<lambda>(k, v). vput k v) kvs (vput k v m)) = vget (vput k v m) ++ map_of (rev kvs)"
    by (rule Cons.IH [OF ok_put [OF Cons.prems]])
  also have "\<dots> = (vget m)(k \<mapsto> v) ++ map_of (rev kvs)"
    by (simp only: get_put [OF Cons.prems])
  also have "\<dots> = vget m ++ ([k \<mapsto> v] ++ map_of (rev kvs))" by simp
  also have "[k \<mapsto> v] ++ map_of (rev kvs) = map_of (rev kvs @ [(k, v)])"
    by (simp add: map_of_append)
  finally show ?case by (simp add: kv)
qed

end

section \<open>BTreeMap\<close>

type_synonym ('k, 'v) bmap = "('k \<times> 'v) list"

abbreviation bm_ok :: "('k :: linorder, 'v) bmap \<Rightarrow> bool" where
  "bm_ok m \<equiv> sorted_wrt (<) (map fst m)"

abbreviation bm_get :: "('k, 'v) bmap \<Rightarrow> 'k \<Rightarrow> 'v option" where
  "bm_get \<equiv> map_of"

fun bm_insert :: "'k :: linorder \<Rightarrow> 'v \<Rightarrow> ('k, 'v) bmap \<Rightarrow> ('k, 'v) bmap" where
  "bm_insert k v [] = [(k, v)]"
| "bm_insert k v ((k', v') # m) =
     (if k < k' then (k, v) # (k', v') # m
      else if k = k' then (k, v) # m
      else (k', v') # bm_insert k v m)"

definition bm_retain :: "('k \<Rightarrow> 'v \<Rightarrow> bool) \<Rightarrow> ('k, 'v) bmap \<Rightarrow> ('k, 'v) bmap" where
  "bm_retain P m = filter (\<lambda>(k, v). P k v) m"

definition bm_remove :: "'k \<Rightarrow> ('k, 'v) bmap \<Rightarrow> ('k, 'v) bmap" where
  "bm_remove k m = bm_retain (\<lambda>k' _. k' \<noteq> k) m"

definition bm_map_values :: "('v \<Rightarrow> 'w) \<Rightarrow> ('k, 'v) bmap \<Rightarrow> ('k, 'w) bmap" where
  "bm_map_values f m = map (\<lambda>(k, v). (k, f v)) m"

text \<open>\<open>get_mut\<close>: the update runs on the value, when there is one.\<close>

definition bm_modify :: "'k :: linorder \<Rightarrow> ('v \<Rightarrow> 'v) \<Rightarrow> ('k, 'v) bmap \<Rightarrow> ('k, 'v) bmap" where
  "bm_modify k f m = (case bm_get m k of None \<Rightarrow> m | Some v \<Rightarrow> bm_insert k (f v) m)"

text \<open>Building a map from pairs (\<open>collect\<close>): a later pair replaces an earlier one.\<close>

definition bm_collect :: "('k :: linorder \<times> 'v) list \<Rightarrow> ('k, 'v) bmap" where
  "bm_collect kvs = fold (\<lambda>(k, v). bm_insert k v) kvs []"

lemma bm_get_insert [simp]: "bm_get (bm_insert k v m) = (bm_get m)(k \<mapsto> v)"
  by (induction k v m rule: bm_insert.induct) (auto simp: fun_eq_iff)

lemma fst_set_bm_insert [simp]: "fst ` set (bm_insert k v m) = insert k (fst ` set m)"
  by (induction k v m rule: bm_insert.induct) (auto simp: image_iff)

lemma bm_ok_insert [simp, intro]: "bm_ok m \<Longrightarrow> bm_ok (bm_insert k v m)"
proof (induction k v m rule: bm_insert.induct)
  case (1 k v)
  show ?case by simp
next
  case (2 k v k' v' m)
  have "\<forall>x\<in>fst ` set (bm_insert k v m). x = k \<or> x \<in> fst ` set m"
    by (simp only: fst_set_bm_insert) blast
  with 2 show ?case by (auto dest: less_trans)
qed

lemma bm_ok_retain [simp, intro]: "bm_ok m \<Longrightarrow> bm_ok (bm_retain P m)"
  unfolding bm_retain_def by (induction m) auto

lemma bm_ok_remove [simp, intro]: "bm_ok m \<Longrightarrow> bm_ok (bm_remove k m)"
  by (simp add: bm_remove_def)

lemma map_fst_bm_map_values [simp]: "map fst (bm_map_values f m) = map fst m"
  unfolding bm_map_values_def by (induction m) auto

lemma bm_get_map_values [simp]: "bm_get (bm_map_values f m) k = map_option f (bm_get m k)"
  unfolding bm_map_values_def by (induction m) auto

lemma distinct_bm: "bm_ok m \<Longrightarrow> distinct (map fst m)"
  by (simp add: strict_sorted_iff)

lemma bm_get_retain:
  "bm_ok m \<Longrightarrow> bm_get (bm_retain P m) k =
     (case bm_get m k of Some v \<Rightarrow> if P k v then Some v else None | None \<Rightarrow> None)"
proof (induction m)
  case Nil
  show ?case by (simp add: bm_retain_def)
next
  case (Cons kv m)
  obtain k' v' where kv: "kv = (k', v')" by (cases kv)
  from Cons.prems have "k' \<notin> fst ` set m" by (auto simp: kv)
  then have none: "bm_get m k' = None" by (simp add: map_of_eq_None_iff)
  from Cons show ?case by (auto simp: kv bm_retain_def none split: option.splits)
qed

lemma bm_get_remove [simp]: "bm_get (bm_remove k m) = (bm_get m)(k := None)"
  unfolding bm_remove_def bm_retain_def by (induction m) (auto simp: fun_eq_iff)

lemma bm_get_modify: "bm_get (bm_modify k f m) k' =
    (if k' = k then map_option f (bm_get m k) else bm_get m k')"
  by (auto simp: bm_modify_def split: option.splits)

lemma bm_ok_modify [simp, intro]: "bm_ok m \<Longrightarrow> bm_ok (bm_modify k f m)"
  by (auto simp: bm_modify_def split: option.splits)

lemma fst_set_bm_modify [simp]: "fst ` set (bm_modify k f m) = fst ` set m"
proof (cases "bm_get m k")
  case None
  then show ?thesis by (simp add: bm_modify_def)
next
  case (Some v)
  then have "k \<in> fst ` set m" by (force dest: map_of_SomeD)
  with Some show ?thesis by (simp add: bm_modify_def insert_absorb)
qed

lemma bm_get_in: "bm_ok m \<Longrightarrow> (k, v) \<in> set m \<longleftrightarrow> bm_get m k = Some v"
  using distinct_bm map_of_eq_Some_iff by metis

interpretation btree: key_value "[] :: ('k :: linorder, 'v) bmap" bm_get bm_insert bm_remove bm_ok
  by unfold_locales auto

lemma bm_ok_collect [simp]: "bm_ok (bm_collect kvs)"
  unfolding bm_collect_def by (rule btree.puts_ok) simp

lemma bm_get_collect: "bm_get (bm_collect kvs) = map_of (rev kvs)"
  unfolding bm_collect_def by (subst btree.get_puts) auto

lemma bm_insert_last: "\<forall>x\<in>fst ` set m. x < k \<Longrightarrow> bm_insert k v m = m @ [(k, v)]"
  by (induction k v m rule: bm_insert.induct) auto

lemma bm_inserts_sorted: "bm_ok (acc @ m) \<Longrightarrow> fold (\<lambda>(k, v). bm_insert k v) m acc = acc @ m"
proof (induction m arbitrary: acc)
  case (Cons kv m)
  obtain k v where kv: "kv = (k, v)" by (cases kv)
  have "\<forall>x\<in>fst ` set acc. x < k" using Cons.prems kv by (auto simp: sorted_wrt_append)
  then show ?case using Cons.IH [of "acc @ [kv]"] Cons.prems kv by (simp add: bm_insert_last)
qed simp

lemma bm_collect_sorted: "bm_ok m \<Longrightarrow> bm_collect m = m"
  using bm_inserts_sorted [of "[]" m] by (simp add: bm_collect_def)

lemma bm_ext:
  assumes "bm_ok m" and "bm_ok m'" and "\<And>k. bm_get m k = bm_get m' k"
  shows "m = m'"
proof (rule map_sorted_distinct_set_unique)
  show "set m = set m'" using assms by (auto simp: bm_get_in)
  then show "inj_on fst (set m \<union> set m')" using distinct_bm [OF assms(1)] by (simp add: distinct_map)
qed (use assms(1,2) in \<open>simp_all add: strict_sorted_iff\<close>)

section \<open>BTreeSet\<close>

type_synonym 'k bset = "'k list"

abbreviation bs_ok :: "('k :: linorder) bset \<Rightarrow> bool" where
  "bs_ok s \<equiv> sorted_wrt (<) s"

fun bs_insert :: "'k :: linorder \<Rightarrow> 'k bset \<Rightarrow> 'k bset" where
  "bs_insert k [] = [k]"
| "bs_insert k (k' # s) =
     (if k < k' then k # k' # s else if k = k' then k' # s else k' # bs_insert k s)"

definition bs_collect :: "('k :: linorder) list \<Rightarrow> 'k bset" where
  "bs_collect ks = fold bs_insert ks []"

lemma set_bs_insert [simp]: "set (bs_insert k s) = insert k (set s)"
  by (induction k s rule: bs_insert.induct) auto

lemma bs_ok_insert [simp, intro]: "bs_ok s \<Longrightarrow> bs_ok (bs_insert k s)"
  by (induction k s rule: bs_insert.induct) auto

lemma bs_ok_filter [simp, intro]: "bs_ok s \<Longrightarrow> bs_ok (filter P s)"
  by (induction s) auto

lemma bs_distinct: "bs_ok s \<Longrightarrow> distinct s"
  by (simp add: strict_sorted_iff)

lemma set_bs_inserts: "set (fold bs_insert ks s) = set ks \<union> set s"
  by (induction ks arbitrary: s) auto

lemma bs_ok_inserts: "bs_ok s \<Longrightarrow> bs_ok (fold bs_insert ks s)"
  by (induction ks arbitrary: s) auto

lemma set_bs_collect [simp]: "set (bs_collect ks) = set ks"
  by (simp add: bs_collect_def set_bs_inserts)

lemma bs_ok_collect [simp]: "bs_ok (bs_collect ks)"
  by (simp add: bs_collect_def bs_ok_inserts)

section \<open>HashMap and DashMap\<close>

type_synonym ('k, 'v) hmap = "('k \<times> 'v) list"

abbreviation hm_get :: "('k, 'v) hmap \<Rightarrow> 'k \<Rightarrow> 'v option" where
  "hm_get \<equiv> map_of"

abbreviation hm_ok :: "('k, 'v) hmap \<Rightarrow> bool" where
  "hm_ok m \<equiv> distinct (map fst m)"

fun hm_insert :: "'k \<Rightarrow> 'v \<Rightarrow> ('k, 'v) hmap \<Rightarrow> ('k, 'v) hmap" where
  "hm_insert k v [] = [(k, v)]"
| "hm_insert k v ((k', v') # m) = (if k = k' then (k, v) # m else (k', v') # hm_insert k v m)"

definition hm_remove :: "'k \<Rightarrow> ('k, 'v) hmap \<Rightarrow> ('k, 'v) hmap" where
  "hm_remove k m = filter (\<lambda>(k', _). k' \<noteq> k) m"

text \<open>\<open>entry(k).or_default().extend(vs)\<close> on a map of vectors.\<close>

definition hm_extend :: "'k \<Rightarrow> 'v list \<Rightarrow> ('k, 'v list) hmap \<Rightarrow> ('k, 'v list) hmap" where
  "hm_extend k vs m = hm_insert k (case hm_get m k of None \<Rightarrow> vs | Some ws \<Rightarrow> ws @ vs) m"

lemma hm_get_insert [simp]: "hm_get (hm_insert k v m) = (hm_get m)(k \<mapsto> v)"
  by (induction k v m rule: hm_insert.induct) (auto simp: fun_eq_iff)

lemma set_hm_insert: "set (hm_insert k v m) \<subseteq> insert (k, v) (set m)"
  by (induction k v m rule: hm_insert.induct) auto

lemma fst_set_hm_insert [simp]: "fst ` set (hm_insert k v m) = insert k (fst ` set m)"
  by (induction k v m rule: hm_insert.induct) (auto simp: image_iff)

lemma hm_ok_insert [simp, intro]: "hm_ok m \<Longrightarrow> hm_ok (hm_insert k v m)"
proof (induction k v m rule: hm_insert.induct)
  case (1 k v)
  show ?case by simp
next
  case (2 k v k' v' m)
  have "k' \<notin> insert k (fst ` set m)" if "k \<noteq> k'" using 2 that by auto
  then have "k' \<notin> fst ` set (hm_insert k v m)" if "k \<noteq> k'" using that by simp
  with 2 show ?case by auto
qed

lemma hm_get_remove [simp]: "hm_get (hm_remove k m) = (hm_get m)(k := None)"
  unfolding hm_remove_def by (induction m) (auto simp: fun_eq_iff)

lemma hm_ok_remove [simp, intro]: "hm_ok m \<Longrightarrow> hm_ok (hm_remove k m)"
  unfolding hm_remove_def by (induction m) auto

interpretation hash: key_value "[] :: ('k, 'v) hmap" hm_get hm_insert hm_remove hm_ok
  by unfold_locales auto

lemma hm_get_extend: "hm_get (hm_extend k vs m) k' =
    (if k' = k then Some ((case hm_get m k of None \<Rightarrow> [] | Some ws \<Rightarrow> ws) @ vs) else hm_get m k')"
  by (auto simp: hm_extend_def split: option.splits)

lemma hm_ok_extend [simp, intro]: "hm_ok m \<Longrightarrow> hm_ok (hm_extend k vs m)"
  by (simp add: hm_extend_def)

end
