(* ===== verification/Memory_Types.thy ===== *)
theory Memory_Types
  imports Containers "HOL-Library.Word"
begin

text \<open>
  The data the components exchange: \<open>kissbot-api/src/message.rs\<close> (message contents),
  \<open>kissbot-api/src/tool.rs\<close> (content blocks of tool results), \<open>kissbot-api/src/memory.rs\<close>
  (memory suffixes, the four kinds of records, channel keys, notifications) and
  \<open>kissbot-memory/src/data.rs\<close> (the suffix as a string). Structs that the code uses as keys
  of ordered maps are datatypes with selectors, so that they can be instances of linorder
  with the field order of \<open>derive(Ord)\<close>; the other structs are records.
  Counters of type \<open>u64\<close> that only count (sequence numbers, record counts) are \<^typ>\<open>nat\<close>.
\<close>

section \<open>JSON values\<close>

text \<open>
  \<open>serde_json::Value\<close>. A number is an integer or, uninterpreted, the text of any other number.
\<close>

datatype json =
    JNull
  | JBool bool
  | JInt int
  | JFloat string
  | JStr string
  | JArr "json list"
  | JObj "(string \<times> json) list"

fun json_get :: "string \<Rightarrow> json \<Rightarrow> json option" where
  "json_get k (JObj kvs) = map_of kvs k"
| "json_get k _ = None"

fun as_str :: "json \<Rightarrow> string option" where
  "as_str (JStr s) = Some s"
| "as_str _ = None"

fun as_array :: "json \<Rightarrow> json list option" where
  "as_array (JArr xs) = Some xs"
| "as_array _ = None"

fun as_bool :: "json \<Rightarrow> bool option" where
  "as_bool (JBool b) = Some b"
| "as_bool _ = None"

fun as_u64 :: "json \<Rightarrow> nat option" where
  "as_u64 (JInt i) = (if 0 \<le> i \<and> i < 2 ^ 64 then Some (nat i) else None)"
| "as_u64 _ = None"

section \<open>Message contents\<close>

record group_change_notification =
  gcn_messenger_id :: string
  gcn_group_id :: string
  gcn_user_id :: string
  gcn_messenger_name :: string
  gcn_user_name :: string
  gcn_group_name :: string

record user_remove_notification =
  urn_messenger_id :: string
  urn_user_id :: string
  urn_messenger_name :: string
  urn_user_name :: string

record attachment_info =
  file_name :: string
  mime_type :: string
  size_bytes :: nat

record attachment_info_response =
  att_key :: string
  att_info :: attachment_info
  transfer_id :: "32 word"

datatype content =
    Content_Text string
  | Content_Multi "content list"
  | Content_AttachmentInfo attachment_info
  | Content_AttachmentInfoResponse attachment_info_response
  | Content_GroupJoin group_change_notification
  | Content_GroupLeave group_change_notification
  | Content_UserRemove user_remove_notification
  | Content_Think string
  | Content_ToolCall string
  | Content_ToolResult string

section \<open>Content blocks of tool results\<close>

datatype audience = Audience_User | Audience_Assistant

text \<open>A \<open>f64\<close> is kept as its 64 bits.\<close>

record annotations =
  ann_audience :: "audience list option"
  ann_priority :: "64 word option"
  ann_last_modified :: "string option"

datatype icon_theme = Theme_Light | Theme_Dark

record icon =
  icon_src :: string
  icon_mime_type :: "string option"
  icon_sizes :: "string list option"
  icon_theme :: "icon_theme option"

datatype resource_contents =
    RC_Text string "string option" string json
  | RC_Blob string "string option" string json

datatype content_block =
    CB_Text string "annotations option" json
  | CB_Image string string "annotations option" json
  | CB_Audio string string "annotations option" json
  | CB_ResourceLink string string "string option" "string option" "string option"
      "icon list option" "annotations option" json
  | CB_Resource resource_contents "annotations option" json

definition content_block_text :: "string \<Rightarrow> content_block" where
  "content_block_text text = CB_Text text None JNull"

section \<open>Memory suffix and channel key\<close>

datatype role_event = RoleEvent (role_name: string) (event_id: "string option")

datatype channel_key = ChannelKey (ck_messenger_id: string) (ck_self_user_id: string) (ck_group_id: string)

instantiation role_event :: linorder
begin

definition less_eq_role_event :: "role_event \<Rightarrow> role_event \<Rightarrow> bool" where
  "less_eq_role_event a b \<longleftrightarrow> (role_name a, event_id a) \<le> (role_name b, event_id b)"

definition less_role_event :: "role_event \<Rightarrow> role_event \<Rightarrow> bool" where
  "less_role_event a b \<longleftrightarrow> (role_name a, event_id a) < (role_name b, event_id b)"

instance
proof
  fix x y z :: role_event
  show "(x < y) = (x \<le> y \<and> \<not> y \<le> x)"
    by (simp only: less_eq_role_event_def less_role_event_def less_le_not_le)
  show "x \<le> x" by (simp only: less_eq_role_event_def order_refl)
  show "x \<le> y \<Longrightarrow> y \<le> z \<Longrightarrow> x \<le> z"
    unfolding less_eq_role_event_def by (rule order_trans)
  show "x = y" if "x \<le> y" "y \<le> x"
  proof -
    from that have "(role_name x, event_id x) = (role_name y, event_id y)"
      unfolding less_eq_role_event_def by (rule antisym)
    then show ?thesis by (cases x; cases y) simp
  qed
  show "x \<le> y \<or> y \<le> x" unfolding less_eq_role_event_def by (rule linear)
qed

end

instantiation channel_key :: linorder
begin

definition less_eq_channel_key :: "channel_key \<Rightarrow> channel_key \<Rightarrow> bool" where
  "less_eq_channel_key a b \<longleftrightarrow>
     (ck_messenger_id a, ck_self_user_id a, ck_group_id a) \<le> (ck_messenger_id b, ck_self_user_id b, ck_group_id b)"

definition less_channel_key :: "channel_key \<Rightarrow> channel_key \<Rightarrow> bool" where
  "less_channel_key a b \<longleftrightarrow>
     (ck_messenger_id a, ck_self_user_id a, ck_group_id a) < (ck_messenger_id b, ck_self_user_id b, ck_group_id b)"

instance
proof
  fix x y z :: channel_key
  show "(x < y) = (x \<le> y \<and> \<not> y \<le> x)"
    by (simp only: less_eq_channel_key_def less_channel_key_def less_le_not_le)
  show "x \<le> x" by (simp only: less_eq_channel_key_def order_refl)
  show "x \<le> y \<Longrightarrow> y \<le> z \<Longrightarrow> x \<le> z"
    unfolding less_eq_channel_key_def by (rule order_trans)
  show "x = y" if "x \<le> y" "y \<le> x"
  proof -
    from that have "(ck_messenger_id x, ck_self_user_id x, ck_group_id x) =
        (ck_messenger_id y, ck_self_user_id y, ck_group_id y)"
      unfolding less_eq_channel_key_def by (rule antisym)
    then show ?thesis by (cases x; cases y) simp
  qed
  show "x \<le> y \<or> y \<le> x" unfolding less_eq_channel_key_def by (rule linear)
qed

end

text \<open>\<open>role_event_suffix\<close>: the role name, or \<open>role-event\<close>.\<close>

definition role_event_suffix :: "role_event \<Rightarrow> string" where
  "role_event_suffix re =
     (case event_id re of Some e \<Rightarrow> role_name re @ ''-'' @ e | None \<Rightarrow> role_name re)"

section \<open>The four kinds of records\<close>

datatype record_kind = Kind_Channel | Kind_Think | Kind_ToolCall | Kind_ToolResult

instantiation record_kind :: linorder
begin

fun kind_rank :: "record_kind \<Rightarrow> nat" where
  "kind_rank Kind_Channel = 0"
| "kind_rank Kind_Think = 1"
| "kind_rank Kind_ToolCall = 2"
| "kind_rank Kind_ToolResult = 3"

definition less_eq_record_kind :: "record_kind \<Rightarrow> record_kind \<Rightarrow> bool" where
  "less_eq_record_kind a b \<longleftrightarrow> kind_rank a \<le> kind_rank b"

definition less_record_kind :: "record_kind \<Rightarrow> record_kind \<Rightarrow> bool" where
  "less_record_kind a b \<longleftrightarrow> kind_rank a < kind_rank b"

instance
proof
  fix x y z :: record_kind
  show "(x < y) = (x \<le> y \<and> \<not> y \<le> x)"
    by (auto simp: less_eq_record_kind_def less_record_kind_def)
  show "x \<le> x" by (simp add: less_eq_record_kind_def)
  show "x \<le> y \<Longrightarrow> y \<le> z \<Longrightarrow> x \<le> z" by (simp add: less_eq_record_kind_def)
  show "x \<le> y \<Longrightarrow> y \<le> x \<Longrightarrow> x = y" by (cases x; cases y) (auto simp: less_eq_record_kind_def)
  show "x \<le> y \<or> y \<le> x" by (auto simp: less_eq_record_kind_def)
qed

end

definition all_kinds :: "record_kind list" where
  "all_kinds = [Kind_Channel, Kind_Think, Kind_ToolCall, Kind_ToolResult]"

fun file_stem :: "record_kind \<Rightarrow> string" where
  "file_stem Kind_Channel = ''channel''"
| "file_stem Kind_Think = ''think''"
| "file_stem Kind_ToolCall = ''tool-call''"
| "file_stem Kind_ToolResult = ''tool-result''"

fun payload_type :: "record_kind \<Rightarrow> 32 word" where
  "payload_type Kind_Channel = 0x30010001"
| "payload_type Kind_Think = 0x30010002"
| "payload_type Kind_ToolCall = 0x30010003"
| "payload_type Kind_ToolResult = 0x30010004"

definition from_payload_type :: "32 word \<Rightarrow> record_kind option" where
  "from_payload_type p =
     (if p = 0x30010001 then Some Kind_Channel
      else if p = 0x30010002 then Some Kind_Think
      else if p = 0x30010003 then Some Kind_ToolCall
      else if p = 0x30010004 then Some Kind_ToolResult
      else None)"

lemma all_kinds_set [simp]: "k \<in> set all_kinds"
  by (cases k) (simp_all add: all_kinds_def)

lemma distinct_all_kinds [simp]: "distinct all_kinds"
  by (simp add: all_kinds_def)

record channel_record =
  cr_msg_id :: string
  cr_user_id :: string
  cr_self_user_id :: string
  cr_messenger_id :: string
  cr_group_id :: string
  cr_is_self :: nat
  cr_messenger_name :: string
  cr_user_name :: string
  cr_group_name :: string
  cr_content :: content
  cr_time :: string
  cr_sn :: nat

record think_record =
  tk_reasoning_content :: "string option"
  tk_thinking :: "string option"
  tk_key :: string
  tk_time :: string
  tk_sn :: nat

record tool_call_record =
  tc_tool_name :: string
  tc_tool_params :: json
  tc_key :: string
  tc_time :: string
  tc_sn :: nat

record tool_result_record =
  tr_tool_result :: "content_block list option"
  tr_key :: string
  tr_time :: string
  tr_sn :: nat

definition channel_key_of :: "channel_record \<Rightarrow> channel_key" where
  "channel_key_of r = ChannelKey (cr_messenger_id r) (cr_self_user_id r) (cr_group_id r)"

section \<open>The trait MemoryRecord\<close>

text \<open>
  \<open>trait MemoryRecord\<close>: what the writer of the record files needs of a record type. The
  operations are a record (the trait's method table), the laws of the four implementations
  the locale \<open>memory_record\<close>.
\<close>

record 'r record_ops =
  time_of :: "'r \<Rightarrow> string"
  sn_of :: "'r \<Rightarrow> nat"
  set_sn :: "nat \<Rightarrow> 'r \<Rightarrow> 'r"

text \<open>\<open>MemoryRecord::cmp\<close>: by time, then by sequence number. Sorting with it is sorting by this key.\<close>

definition record_key :: "'r record_ops \<Rightarrow> 'r \<Rightarrow> string \<times> nat" where
  "record_key ops r = (time_of ops r, sn_of ops r)"

definition channel_ops :: "channel_record record_ops" where
  "channel_ops = \<lparr>time_of = cr_time, sn_of = cr_sn, set_sn = (\<lambda>n r. r\<lparr>cr_sn := n\<rparr>)\<rparr>"

definition think_ops :: "think_record record_ops" where
  "think_ops = \<lparr>time_of = tk_time, sn_of = tk_sn, set_sn = (\<lambda>n r. r\<lparr>tk_sn := n\<rparr>)\<rparr>"

definition tool_call_ops :: "tool_call_record record_ops" where
  "tool_call_ops = \<lparr>time_of = tc_time, sn_of = tc_sn, set_sn = (\<lambda>n r. r\<lparr>tc_sn := n\<rparr>)\<rparr>"

definition tool_result_ops :: "tool_result_record record_ops" where
  "tool_result_ops = \<lparr>time_of = tr_time, sn_of = tr_sn, set_sn = (\<lambda>n r. r\<lparr>tr_sn := n\<rparr>)\<rparr>"

section \<open>Record file key and notification\<close>

datatype record_file_key = RecordKey (rk_agent_id: string) (rk_role_event: role_event) (rk_date: string)

record record_notification =
  rn_agent_id :: string
  rn_role_event :: role_event
  rn_time :: string
  rn_is_self :: "nat option"
  rn_channel :: "channel_key option"

section \<open>Lemmas\<close>

lemma from_payload_type_payload_type [simp]: "from_payload_type (payload_type k) = Some k"
  by (cases k) (simp_all add: from_payload_type_def)

lemma payload_type_from: "from_payload_type p = Some k \<Longrightarrow> payload_type k = p"
  by (auto simp: from_payload_type_def split: if_splits)

lemma suffix_role_mode: "event_id re = None \<Longrightarrow> role_event_suffix re = role_name re"
  by (simp add: role_event_suffix_def)

text \<open>
  The suffix is read back by its first dash: role names have none, event ids may have some.
\<close>

lemma split_first_dash:
  "CHR ''-'' \<notin> set r \<Longrightarrow> takeWhile (\<lambda>c. c \<noteq> CHR ''-'') (r @ CHR ''-'' # e) = r"
  by (induction r) auto

lemma role_event_suffix_inj:
  assumes "CHR ''-'' \<notin> set (role_name a)" and "CHR ''-'' \<notin> set (role_name b)"
    and eq: "role_event_suffix a = role_event_suffix b"
  shows "a = b"
proof -
  let ?first = "takeWhile (\<lambda>c. c \<noteq> CHR ''-'')"
  have first: "?first (role_event_suffix x) = role_name x" if "CHR ''-'' \<notin> set (role_name x)" for x
    using that by (auto simp: role_event_suffix_def split_first_dash takeWhile_eq_all_conv split: option.splits)
  have name: "role_name a = role_name b"
    using first [OF assms(1)] first [OF assms(2)] eq by simp
  with eq have "event_id a = event_id b"
    by (auto simp: role_event_suffix_def split: option.splits)
  with name show ?thesis by (cases a; cases b) simp
qed

end
