(* ===== verification/Record_Writer.thy ===== *)
theory Record_Writer
  imports Memory_Types "HOL-Library.Multiset"
begin

text \<open>
  The writer of the raw record files: \<open>kissbot-memory-store/src/record.rs\<close>, with the request
  parsers of \<open>kissbot-memory/src/data.rs\<close>. One file holds the records of one kind, agent,
  memory suffix and day. A file is modelled as its list of lines, a line by what the JSON
  parser makes of it. The date of a time (\<open>kai_date::as_date\<close>) and the batching of the
  appender (\<open>kai_file::FileObjectAppender\<close>) are third-party: the first is a parameter, the
  second a step of the relation \<open>store_step\<close> that may hand over any non-empty run of
  waiting batches at any moment. File system errors of the writer are not modelled, except the
  opening of a file that is not there.
\<close>

section \<open>Requests\<close>

record channel_request =
  cq_msg_id :: string
  cq_agent_id :: string
  cq_role_event :: role_event
  cq_messenger_id :: string
  cq_user_id :: string
  cq_self_user_id :: string
  cq_group_id :: string
  cq_is_self :: nat
  cq_messenger_name :: string
  cq_user_name :: string
  cq_group_name :: string
  cq_content :: content
  cq_time :: string

record think_request =
  tkq_agent_id :: string
  tkq_role_event :: role_event
  tkq_reasoning_content :: "string option"
  tkq_thinking :: "string option"
  tkq_key :: string
  tkq_time :: string

record tool_call_request =
  tcq_agent_id :: string
  tcq_role_event :: role_event
  tcq_tool_name :: string
  tcq_tool_params :: json
  tcq_key :: string
  tcq_time :: string

record tool_result_request =
  trq_agent_id :: string
  trq_role_event :: role_event
  trq_tool_result :: "content_block list option"
  trq_key :: string
  trq_time :: string

definition parse_channel_request ::
  "(string \<Rightarrow> string) \<Rightarrow> channel_request \<Rightarrow> record_file_key \<times> channel_record" where
  "parse_channel_request as_date q =
     (RecordKey (cq_agent_id q) (cq_role_event q) (as_date (cq_time q)),
      \<lparr>cr_msg_id = cq_msg_id q, cr_user_id = cq_user_id q, cr_self_user_id = cq_self_user_id q,
       cr_messenger_id = cq_messenger_id q, cr_group_id = cq_group_id q, cr_is_self = cq_is_self q,
       cr_messenger_name = cq_messenger_name q, cr_user_name = cq_user_name q,
       cr_group_name = cq_group_name q, cr_content = cq_content q, cr_time = cq_time q, cr_sn = 0\<rparr>)"

definition parse_think_request ::
  "(string \<Rightarrow> string) \<Rightarrow> think_request \<Rightarrow> record_file_key \<times> think_record" where
  "parse_think_request as_date q =
     (RecordKey (tkq_agent_id q) (tkq_role_event q) (as_date (tkq_time q)),
      \<lparr>tk_reasoning_content = tkq_reasoning_content q, tk_thinking = tkq_thinking q,
       tk_key = tkq_key q, tk_time = tkq_time q, tk_sn = 0\<rparr>)"

definition parse_tool_call_request ::
  "(string \<Rightarrow> string) \<Rightarrow> tool_call_request \<Rightarrow> record_file_key \<times> tool_call_record" where
  "parse_tool_call_request as_date q =
     (RecordKey (tcq_agent_id q) (tcq_role_event q) (as_date (tcq_time q)),
      \<lparr>tc_tool_name = tcq_tool_name q, tc_tool_params = tcq_tool_params q,
       tc_key = tcq_key q, tc_time = tcq_time q, tc_sn = 0\<rparr>)"

definition parse_tool_result_request ::
  "(string \<Rightarrow> string) \<Rightarrow> tool_result_request \<Rightarrow> record_file_key \<times> tool_result_record" where
  "parse_tool_result_request as_date q =
     (RecordKey (trq_agent_id q) (trq_role_event q) (as_date (trq_time q)),
      \<lparr>tr_tool_result = trq_tool_result q, tr_key = trq_key q, tr_time = trq_time q, tr_sn = 0\<rparr>)"

section \<open>The state of a file\<close>

text \<open>
  A line of a record file: empty, not JSON, a JSON object that is not a record of this kind
  (with the \<open>sn\<close> and \<open>time\<close> it has), or a record.
\<close>

datatype 'r file_line = Blank | Junk | Other "nat option" "string option" | Rec 'r

record file_state =
  fs_sn :: nat
  fs_time :: string

definition zero_time :: string where
  "zero_time = ''2000-01-01 00:00:00''"

definition initial_file_state :: file_state where
  "initial_file_state = \<lparr>fs_sn = 0, fs_time = zero_time\<rparr>"

definition load_existing_file_state :: "'r record_ops \<Rightarrow> 'r file_line list option \<Rightarrow> file_state" where
  "load_existing_file_state ops file =
     (case file of
        None \<Rightarrow> initial_file_state
      | Some lines \<Rightarrow>
          (case dropWhile (\<lambda>l. case l of Blank \<Rightarrow> True | _ \<Rightarrow> False) (rev lines) of
             Rec r # _ \<Rightarrow> \<lparr>fs_sn = sn_of ops r, fs_time = time_of ops r\<rparr>
           | Other (Some n) (Some t) # _ \<Rightarrow> \<lparr>fs_sn = n, fs_time = t\<rparr>
           | _ \<Rightarrow> initial_file_state))"

section \<open>One write\<close>

datatype store_error =
    Store_Io
  | Store_Json
  | Record_Not_In_Order record_file_key string string
  | Store_Panic

datatype 'r hook_event = On_Append "'r list" | On_Force_Append "'r list"

record 'r writer =
  wr_file :: "'r file_line list option"
  wr_state :: "file_state option"

text \<open>The records get the numbers after \<open>n\<close>, in their order.\<close>

primrec assign_sns :: "'r record_ops \<Rightarrow> nat \<Rightarrow> 'r list \<Rightarrow> 'r list" where
  "assign_sns ops n [] = []"
| "assign_sns ops n (r # rs) = set_sn ops (Suc n) r # assign_sns ops (Suc n) rs"

text \<open>Reading a file back for the rewrite: any line that is not a record is an error.\<close>

fun parse_lines :: "'r file_line list \<Rightarrow> 'r list option" where
  "parse_lines [] = Some []"
| "parse_lines (Rec r # ls) = map_option ((#) r) (parse_lines ls)"
| "parse_lines (_ # ls) = None"

text \<open>
  \<open>RecordWriterContext::write\<close>. The rewrite opens the file without truncating it; the new
  contents hold every old record and at least one more, and are taken to replace the old ones.
\<close>

definition writer_write ::
  "'r record_ops \<Rightarrow> 'r list \<Rightarrow> ('r writer, store_error, 'r hook_event) action" where
  "writer_write ops records w =
     (let st = (case wr_state w of Some s \<Rightarrow> s | None \<Rightarrow> load_existing_file_state ops (wr_file w));
          w1 = w\<lparr>wr_state := Some st\<rparr>;
          batch = sort_key (record_key ops) (assign_sns ops (fs_sn st) records)
      in case batch of
           [] \<Rightarrow> (Inl Store_Panic, w1)
         | r0 # _ \<Rightarrow>
             if time_of ops r0 < fs_time st then
               (case wr_file w of
                  None \<Rightarrow> (Inl Store_Io, w1)
                | Some lines \<Rightarrow>
                    (case parse_lines lines of
                       None \<Rightarrow> (Inl Store_Json, w1)
                     | Some old \<Rightarrow>
                         let all = assign_sns ops 0 (sort_key (record_key ops) (old @ batch))
                         in (Inr (On_Force_Append all),
                             \<lparr>wr_file = Some (map Rec all),
                              wr_state = Some \<lparr>fs_sn = length all, fs_time = time_of ops (last all)\<rparr>\<rparr>)))
             else
               (let new = assign_sns ops (fs_sn st) batch;
                    lines = (case wr_file w of None \<Rightarrow> [] | Some ls \<Rightarrow> ls)
                in (Inr (On_Append new),
                    \<lparr>wr_file = Some (lines @ map Rec new),
                     wr_state = Some \<lparr>fs_sn = fs_sn st + length new, fs_time = time_of ops (last new)\<rparr>\<rparr>)))"

section \<open>Appending requests\<close>

record 'r store =
  st_writers :: "(record_file_key, 'r writer) hmap"
  st_pending :: "(record_file_key \<times> 'r list) list"

definition new_writer :: "'r writer" where
  "new_writer = \<lparr>wr_file = None, wr_state = None\<rparr>"

text \<open>\<open>get_lock\<close>: the context of a key, made when there is none.\<close>

definition get_writer :: "record_file_key \<Rightarrow> 'r store \<Rightarrow> 'r writer" where
  "get_writer key s = (case hm_get (st_writers s) key of Some w \<Rightarrow> w | None \<Rightarrow> new_writer)"

definition set_writer :: "record_file_key \<Rightarrow> 'r writer \<Rightarrow> 'r store \<Rightarrow> 'r store" where
  "set_writer key w s = s\<lparr>st_writers := hm_insert key w (st_writers s)\<rparr>"

definition group_requests :: "('q \<Rightarrow> record_file_key \<times> 'r) \<Rightarrow> 'q list \<Rightarrow> (record_file_key, 'r list) hmap" where
  "group_requests parse qs = fold (\<lambda>q m. let (k, r) = parse q in hm_extend k [r] m) qs []"

fun min_time_loop :: "'r record_ops \<Rightarrow> string \<Rightarrow> 'r list \<Rightarrow> string" where
  "min_time_loop ops t [] = t"
| "min_time_loop ops t (r # rs) = min_time_loop ops (if time_of ops r < t then time_of ops r else t) rs"

definition check_order ::
  "'r record_ops \<Rightarrow> bool \<Rightarrow> record_file_key \<times> 'r list \<Rightarrow> ('r store, store_error, unit) action" where
  "check_order ops force kr s =
     (case kr of (key, records) \<Rightarrow>
        let w = get_writer key s;
            st = (case wr_state w of Some old \<Rightarrow> old | None \<Rightarrow> load_existing_file_state ops (wr_file w));
            s' = set_writer key (w\<lparr>wr_state := Some st\<rparr>) s
        in case records of
             [] \<Rightarrow> (Inl Store_Panic, s')
           | r0 # _ \<Rightarrow>
               if min_time_loop ops (time_of ops r0) records < fs_time st \<and> \<not> force
               then (Inl (Record_Not_In_Order key (fs_time st) (time_of ops r0)), s')
               else (Inr (), s'))"

definition append_record ::
  "'r record_ops \<Rightarrow> ('q \<Rightarrow> record_file_key \<times> 'r) \<Rightarrow> 'q list \<Rightarrow> bool \<Rightarrow> ('r store, store_error, unit) action" where
  "append_record ops parse requests force =
     (let records_map = group_requests parse requests
      in bind_act (for_each records_map (check_order ops force))
           (\<lambda>_. modify_st (\<lambda>s. s\<lparr>st_pending := st_pending s @ records_map\<rparr>)))"

text \<open>The appender hands the first \<open>n\<close> waiting batches of a key to the writer, as one batch.\<close>

fun take_batches :: "record_file_key \<Rightarrow> nat \<Rightarrow> (record_file_key \<times> 'r list) list \<Rightarrow>
    'r list \<times> (record_file_key \<times> 'r list) list" where
  "take_batches key n [] = ([], [])"
| "take_batches key 0 bs = ([], bs)"
| "take_batches key (Suc n) ((k, rs) # bs) =
     (if k = key then (let (xs, rest) = take_batches key n bs in (rs @ xs, rest))
      else (let (xs, rest) = take_batches key (Suc n) bs in (xs, (k, rs) # rest)))"

definition flush :: "'r record_ops \<Rightarrow> record_file_key \<Rightarrow> nat \<Rightarrow> 'r store \<Rightarrow> 'r store" where
  "flush ops key n s =
     (let (records, rest) = take_batches key n (st_pending s);
          (r, w) = writer_write ops records (get_writer key s)
      in set_writer key w (s\<lparr>st_pending := rest\<rparr>))"

text \<open>A restart of the process keeps the files and loses the states and the waiting batches.\<close>

definition restart :: "'r store \<Rightarrow> 'r store" where
  "restart s = \<lparr>st_writers = map (\<lambda>(k, w). (k, w\<lparr>wr_state := None\<rparr>)) (st_writers s), st_pending = []\<rparr>"

inductive store_step ::
  "'r record_ops \<Rightarrow> ('q \<Rightarrow> record_file_key \<times> 'r) \<Rightarrow> 'r store \<Rightarrow> 'r store \<Rightarrow> bool"
  for ops parse where
  submit: "snd (append_record ops parse requests force s) = s' \<Longrightarrow> store_step ops parse s s'"
| flushed: "take_batches key n (st_pending s) = (records, rest) \<Longrightarrow> records \<noteq> [] \<Longrightarrow>
     store_step ops parse s (flush ops key n s)"
| restarted: "store_step ops parse s (restart s)"

definition empty_store :: "'r store" where
  "empty_store = \<lparr>st_writers = [], st_pending = []\<rparr>"

inductive store_reachable :: "'r record_ops \<Rightarrow> ('q \<Rightarrow> record_file_key \<times> 'r) \<Rightarrow> 'r store \<Rightarrow> bool"
  for ops parse where
  start: "store_reachable ops parse empty_store"
| step: "store_reachable ops parse s \<Longrightarrow> store_step ops parse s s' \<Longrightarrow> store_reachable ops parse s'"

inductive_cases store_step_cases: "store_step ops parse s s'"


section \<open>What a well-formed file is\<close>

text \<open>
  The file holds the records \<open>rs\<close>; they are numbered from 1 without gaps, their times ascend;
  and the cached state, when there is one, is the number and time of the last record.
\<close>

definition file_holds :: "'r file_line list option \<Rightarrow> 'r list \<Rightarrow> bool" where
  "file_holds file rs \<longleftrightarrow> file = Some (map Rec rs) \<or> (file = None \<and> rs = [])"

definition file_sequence :: "'r record_ops \<Rightarrow> 'r list \<Rightarrow> bool" where
  "file_sequence ops rs \<longleftrightarrow> map (sn_of ops) rs = [1..<Suc (length rs)] \<and> sorted (map (time_of ops) rs)"

definition state_of :: "'r record_ops \<Rightarrow> 'r list \<Rightarrow> file_state" where
  "state_of ops rs =
     (if rs = [] then initial_file_state else \<lparr>fs_sn = length rs, fs_time = time_of ops (last rs)\<rparr>)"

definition writer_ok :: "'r record_ops \<Rightarrow> 'r writer \<Rightarrow> bool" where
  "writer_ok ops w \<longleftrightarrow>
     (\<exists>rs. file_holds (wr_file w) rs \<and> file_sequence ops rs \<and>
        (\<forall>st. wr_state w = Some st \<longrightarrow> st = state_of ops rs))"

definition store_ok :: "'r record_ops \<Rightarrow> 'r store \<Rightarrow> bool" where
  "store_ok ops s \<longleftrightarrow> (\<forall>(k, w) \<in> set (st_writers s). writer_ok ops w)"

lemma parse_lines_Rec [simp]: "parse_lines (map Rec rs) = Some rs"
  by (induction rs) auto

lemma parse_lines_Some: "parse_lines ls = Some rs \<Longrightarrow> ls = map Rec rs"
  by (induction ls arbitrary: rs rule: parse_lines.induct) auto

lemma map_Rec_eq [simp]: "map Rec xs = map Rec ys \<longleftrightarrow> xs = ys"
  by (metis option.sel parse_lines_Rec)

lemma writer_ok_new [simp]: "writer_ok ops new_writer"
  by (auto simp: writer_ok_def new_writer_def file_holds_def file_sequence_def intro!: exI [of _ "[]"])

lemma sorted_by_time:
  "sorted (map (record_key ops) rs) \<Longrightarrow> sorted (map (time_of ops) rs)"
  by (induction rs) (auto simp: record_key_def less_eq_prod_def)

lemma sorted_le_last: "sorted (map f xs) \<Longrightarrow> x \<in> set xs \<Longrightarrow> f x \<le> f (last xs)"
  by (cases xs rule: rev_cases) (auto simp: sorted_append)

lemma load_Rec:
  assumes "file_holds file rs" and "file_sequence ops rs"
  shows "load_existing_file_state ops file = state_of ops rs"
proof (cases rs rule: rev_cases)
  case Nil
  with assms(1) show ?thesis
    by (auto simp: file_holds_def load_existing_file_state_def state_of_def)
next
  case (snoc xs x)
  from assms(2) have "map (sn_of ops) (xs @ [x]) = [1..<Suc (length (xs @ [x]))]"
    by (simp only: file_sequence_def snoc)
  then have "sn_of ops x = Suc (length xs)" by simp
  with assms(1) snoc show ?thesis
    by (simp add: file_holds_def load_existing_file_state_def state_of_def)
qed

lemma state_or_load:
  assumes "file_holds (wr_file w) rs" and "file_sequence ops rs"
    and "\<forall>st. wr_state w = Some st \<longrightarrow> st = state_of ops rs"
  shows "(case wr_state w of Some s \<Rightarrow> s | None \<Rightarrow> load_existing_file_state ops (wr_file w)) = state_of ops rs"
  using assms by (auto simp: load_Rec split: option.splits)

section \<open>The laws of MemoryRecord and what they give\<close>

locale memory_record =
  fixes ops :: "'r record_ops"
  assumes time_set_sn [simp]: "time_of ops (set_sn ops n r) = time_of ops r"
    and sn_set_sn [simp]: "sn_of ops (set_sn ops n r) = n"
    and set_sn_twice [simp]: "set_sn ops n (set_sn ops m r) = set_sn ops n r"
begin

lemma length_assign_sns [simp]: "length (assign_sns ops n rs) = length rs"
  by (induction rs arbitrary: n) auto

lemma assign_sns_Nil_iff [simp]: "assign_sns ops n rs = [] \<longleftrightarrow> rs = []"
  by (cases rs) auto

lemma times_assign_sns [simp]: "map (time_of ops) (assign_sns ops n rs) = map (time_of ops) rs"
  by (induction rs arbitrary: n) auto

lemma sns_assign_sns: "map (sn_of ops) (assign_sns ops n rs) = [Suc n..<Suc n + length rs]"
proof (induction rs arbitrary: n)
  case Nil
  show ?case by simp
next
  case (Cons r rs)
  have "[Suc n..<Suc n + length (r # rs)] = Suc n # [Suc (Suc n)..<Suc (Suc n) + length rs]"
    by (subst upt_conv_Cons) auto
  with Cons show ?case by simp
qed

lemma unnumbered_assign_sns [simp]:
  "map (set_sn ops m) (assign_sns ops n rs) = map (set_sn ops m) rs"
  by (induction rs arbitrary: n) auto

lemma time_last_assign_sns:
  assumes "rs \<noteq> []"
  shows "time_of ops (last (assign_sns ops n rs)) = time_of ops (last rs)"
proof -
  have "last (map (time_of ops) (assign_sns ops n rs)) = last (map (time_of ops) rs)" by simp
  then show ?thesis using assms by (simp only: last_map assign_sns_Nil_iff not_False_eq_True)
qed

lemma file_sequence_assign:
  "sorted (map (time_of ops) rs) \<Longrightarrow> file_sequence ops (assign_sns ops 0 rs)"
  by (simp add: file_sequence_def sns_assign_sns)

lemma file_sequence_append:
  assumes "file_sequence ops old" and "sorted (map (time_of ops) new)"
    and "old \<noteq> [] \<Longrightarrow> \<forall>r\<in>set new. time_of ops (last old) \<le> time_of ops r"
  shows "file_sequence ops (old @ assign_sns ops (length old) new)"
proof -
  have "\<forall>x\<in>set old. \<forall>y\<in>set new. time_of ops x \<le> time_of ops y"
  proof (cases "old = []")
    case False
    have "\<forall>x\<in>set old. time_of ops x \<le> time_of ops (last old)"
      using assms(1) by (auto simp: file_sequence_def intro: sorted_le_last)
    with assms(3) [OF False] show ?thesis using order_trans by blast
  qed simp
  moreover have "set (map (time_of ops) (assign_sns ops (length old) new)) = set (map (time_of ops) new)"
    by (simp only: times_assign_sns)
  ultimately have "sorted (map (time_of ops) (old @ assign_sns ops (length old) new))"
    using assms(1,2) by (auto simp: file_sequence_def sorted_append)
  moreover have "map (sn_of ops) (old @ assign_sns ops (length old) new) =
      [1..<Suc (length old)] @ [Suc (length old)..<Suc (length old) + length new]"
    using assms(1) by (simp add: file_sequence_def sns_assign_sns)
  moreover have "\<dots> = [1..<Suc (length old + length new)]"
    using upt_add_eq_append [of 1 "Suc (length old)" "length new"] by simp
  ultimately show ?thesis by (simp add: file_sequence_def)
qed

lemma sort_key_Nil_iff [simp]: "sort_key f xs = [] \<longleftrightarrow> xs = []"
  by (metis length_0_conv length_sort)

lemma times_batch:
  "time_of ops ` set (sort_key (record_key ops) (assign_sns ops n records)) = time_of ops ` set records"
  by (metis times_assign_sns set_map set_sort)

text \<open>The first record of the sorted batch is the earliest.\<close>

lemma batch_head:
  assumes early: "\<exists>r\<in>set records. time_of ops r < T"
  obtains r0 bs where "sort_key (record_key ops) (assign_sns ops n records) = r0 # bs"
    and "time_of ops r0 < T"
proof -
  let ?b = "sort_key (record_key ops) (assign_sns ops n records)"
  from early have "records \<noteq> []" by auto
  then obtain r0 bs where b: "?b = r0 # bs" by (cases ?b) auto
  have "sorted (map (time_of ops) ?b)" by (rule sorted_by_time) simp
  with b have least: "\<forall>r\<in>set ?b. time_of ops r0 \<le> time_of ops r" by simp
  from early obtain r where "r \<in> set ?b" and "time_of ops r < T"
    using times_batch [of n records] by (metis imageE imageI)
  with least have "time_of ops r0 < T" by (meson le_less_trans)
  with b show thesis by (rule that)
qed

text \<open>One write, on a well-formed file: the two branches.\<close>

lemma write_append:
  assumes ok: "file_holds (wr_file w) old" "file_sequence ops old"
      "\<forall>st. wr_state w = Some st \<longrightarrow> st = state_of ops old"
    and ne: "records \<noteq> []"
    and late: "\<forall>r\<in>set records. fs_time (state_of ops old) \<le> time_of ops r"
  shows "\<exists>new. writer_write ops records w =
      (Inr (On_Append new), \<lparr>wr_file = Some (map Rec (old @ new)), wr_state = Some (state_of ops (old @ new))\<rparr>) \<and>
      file_sequence ops (old @ new) \<and>
      mset (map (set_sn ops 0) new) = mset (map (set_sn ops 0) records)"
proof -
  let ?n = "fs_sn (state_of ops old)"
  let ?b = "sort_key (record_key ops) (assign_sns ops ?n records)"
  let ?new = "assign_sns ops ?n ?b"
  have n: "?n = length old" by (simp add: state_of_def initial_file_state_def)
  have times: "set (map (time_of ops) ?b) = set (map (time_of ops) records)"
    by (metis times_assign_sns set_map set_sort)
  obtain r0 bs where b: "?b = r0 # bs" using ne by (cases ?b) auto
  have "time_of ops r0 \<in> set (map (time_of ops) records)" using times b by auto
  with late have not_less: "\<not> time_of ops r0 < fs_time (state_of ops old)" by (auto simp: not_less)
  have lines: "(case wr_file w of None \<Rightarrow> [] | Some ls \<Rightarrow> ls) = map Rec old"
    using ok(1) by (auto simp: file_holds_def)
  have st: "(case wr_state w of Some s \<Rightarrow> s | None \<Rightarrow> load_existing_file_state ops (wr_file w)) = state_of ops old"
    by (rule state_or_load [OF ok])
  have fin: "state_of ops (old @ ?new) =
      \<lparr>fs_sn = ?n + length ?new, fs_time = time_of ops (last ?new)\<rparr>"
    using ne by (simp add: state_of_def initial_file_state_def)
  have run: "writer_write ops records w =
      (Inr (On_Append ?new), \<lparr>wr_file = Some (map Rec (old @ ?new)), wr_state = Some (state_of ops (old @ ?new))\<rparr>)"
    unfolding writer_write_def Let_def st fin lines by (simp add: b not_less)
  have seq: "file_sequence ops (old @ ?new)"
    unfolding n
  proof (rule file_sequence_append [OF ok(2)])
    show "sorted (map (time_of ops) (sort_key (record_key ops) (assign_sns ops (length old) records)))"
      by (rule sorted_by_time) simp
    assume "old \<noteq> []"
    then have "fs_time (state_of ops old) = time_of ops (last old)" by (simp add: state_of_def)
    with late times show "\<forall>r\<in>set (sort_key (record_key ops) (assign_sns ops (length old) records)).
        time_of ops (last old) \<le> time_of ops r"
      unfolding n by (metis imageE imageI set_map)
  qed
  have "mset (map (set_sn ops 0) ?new) = mset (map (set_sn ops 0) ?b)" by simp
  also have "\<dots> = image_mset (set_sn ops 0) (mset (assign_sns ops ?n records))" by simp
  also have "\<dots> = mset (map (set_sn ops 0) (assign_sns ops ?n records))" by (simp only: mset_map)
  finally have "mset (map (set_sn ops 0) ?new) = mset (map (set_sn ops 0) records)" by simp
  with run seq show ?thesis by blast
qed

lemma write_rewrite:
  assumes ok: "file_holds (wr_file w) old" "file_sequence ops old"
      "\<forall>st. wr_state w = Some st \<longrightarrow> st = state_of ops old"
    and there: "wr_file w \<noteq> None"
    and early: "\<exists>r\<in>set records. time_of ops r < fs_time (state_of ops old)"
  shows "\<exists>all. writer_write ops records w =
      (Inr (On_Force_Append all), \<lparr>wr_file = Some (map Rec all), wr_state = Some (state_of ops all)\<rparr>) \<and>
      file_sequence ops all \<and>
      mset (map (set_sn ops 0) all) = mset (map (set_sn ops 0) (old @ records))"
proof -
  let ?n = "fs_sn (state_of ops old)"
  let ?b = "sort_key (record_key ops) (assign_sns ops ?n records)"
  let ?s = "sort_key (record_key ops) (old @ ?b)"
  let ?all = "assign_sns ops 0 ?s"
  from early have ne: "records \<noteq> []" by auto
  from early obtain r0 bs where b: "?b = r0 # bs" and less: "time_of ops r0 < fs_time (state_of ops old)"
    by (rule batch_head)
  have held: "wr_file w = Some (map Rec old)" using ok(1) there by (auto simp: file_holds_def)
  have st: "(case wr_state w of Some s \<Rightarrow> s | None \<Rightarrow> load_existing_file_state ops (wr_file w)) = state_of ops old"
    by (rule state_or_load [OF ok])
  have fin: "state_of ops ?all = \<lparr>fs_sn = length ?all, fs_time = time_of ops (last ?all)\<rparr>"
    using ne by (simp add: state_of_def)
  have run: "writer_write ops records w =
      (Inr (On_Force_Append ?all), \<lparr>wr_file = Some (map Rec ?all), wr_state = Some (state_of ops ?all)\<rparr>)"
    unfolding writer_write_def Let_def st fin by (simp add: b less held)
  have seq: "file_sequence ops ?all"
    by (rule file_sequence_assign, rule sorted_by_time) simp
  have "mset (map (set_sn ops 0) ?all) = mset (map (set_sn ops 0) ?s)" by simp
  also have "\<dots> = image_mset (set_sn ops 0) (mset old + mset (assign_sns ops ?n records))"
    by (simp only: mset_map mset_sort mset_append)
  also have "\<dots> = mset (map (set_sn ops 0) old) + mset (map (set_sn ops 0) (assign_sns ops ?n records))"
    by (simp only: mset_map image_mset_union)
  finally have "mset (map (set_sn ops 0) ?all) = mset (map (set_sn ops 0) (old @ records))" by simp
  with run seq show ?thesis by blast
qed

lemma writer_ok_state:
  assumes "file_holds (wr_file w) old" "file_sequence ops old"
    "\<forall>st. wr_state w = Some st \<longrightarrow> st = state_of ops old"
  shows "writer_ok ops (w\<lparr>wr_state := Some (state_of ops old)\<rparr>)"
  using assms by (auto simp: writer_ok_def)

lemma write_ok: "writer_ok ops w \<Longrightarrow> writer_ok ops (snd (writer_write ops records w))"
proof -
  assume "writer_ok ops w"
  then obtain old where ok: "file_holds (wr_file w) old" "file_sequence ops old"
      "\<forall>st. wr_state w = Some st \<longrightarrow> st = state_of ops old"
    by (auto simp: writer_ok_def)
  note st = state_or_load [OF ok]
  show ?thesis
  proof (cases "records = []")
    case True
    then have "snd (writer_write ops records w) = w\<lparr>wr_state := Some (state_of ops old)\<rparr>"
      unfolding writer_write_def Let_def st by simp
    with writer_ok_state [OF ok] show ?thesis by simp
  next
    case ne: False
    show ?thesis
    proof (cases "\<forall>r\<in>set records. fs_time (state_of ops old) \<le> time_of ops r")
      case True
      from write_append [OF ok ne True] show ?thesis
        by (auto simp: writer_ok_def file_holds_def simp del: map_append)
    next
      case False
      then have early: "\<exists>r\<in>set records. time_of ops r < fs_time (state_of ops old)"
        by (auto simp: not_le)
      show ?thesis
      proof (cases "wr_file w")
        case (Some ls)
        then have "wr_file w \<noteq> None" by simp
        from write_rewrite [OF ok this early] show ?thesis
          by (auto simp: writer_ok_def file_holds_def)
      next
        case None
        from early obtain r0 bs
          where "sort_key (record_key ops) (assign_sns ops (fs_sn (state_of ops old)) records) = r0 # bs"
            and "time_of ops r0 < fs_time (state_of ops old)" by (rule batch_head)
        with None have "snd (writer_write ops records w) = w\<lparr>wr_state := Some (state_of ops old)\<rparr>"
          unfolding writer_write_def Let_def st by simp
        with writer_ok_state [OF ok] show ?thesis by simp
      qed
    qed
  qed
qed

end

end
