(* ===== verification/Record_Store.thy ===== *)
theory Record_Store
  imports Record_Writer
begin

text \<open>
  The store as a state machine: whatever requests are submitted, in whatever portions the
  appender flushes them and whenever the process restarts, every record file stays numbered
  from 1 without gaps and ordered by time. The laws of \<open>MemoryRecord\<close> are discharged here
  for the four record types.
\<close>

interpretation channel_records: memory_record channel_ops
  by unfold_locales (simp_all add: channel_ops_def)

interpretation think_records: memory_record think_ops
  by unfold_locales (simp_all add: think_ops_def)

interpretation tool_call_records: memory_record tool_call_ops
  by unfold_locales (simp_all add: tool_call_ops_def)

interpretation tool_result_records: memory_record tool_result_ops
  by unfold_locales (simp_all add: tool_result_ops_def)

section \<open>The invariant of the store\<close>

lemma store_ok_get: "store_ok ops s \<Longrightarrow> writer_ok ops (get_writer key s)"
  by (auto simp: store_ok_def get_writer_def split: option.splits dest!: map_of_SomeD)

lemma store_ok_set: "store_ok ops s \<Longrightarrow> writer_ok ops w \<Longrightarrow> store_ok ops (set_writer key w s)"
  using set_hm_insert [of key w "st_writers s"]
  by (auto simp: store_ok_def set_writer_def)

lemma store_ok_pending [simp]: "store_ok ops (s\<lparr>st_pending := p\<rparr>) = store_ok ops s"
  by (simp add: store_ok_def)

lemma store_ok_restart: "store_ok ops s \<Longrightarrow> store_ok ops (restart s)"
  by (fastforce simp: store_ok_def restart_def writer_ok_def)

lemma store_ok_empty: "store_ok ops empty_store"
  by (simp add: store_ok_def empty_store_def)

text \<open>Loading the state of a well-formed file keeps the writer well-formed.\<close>

lemma writer_ok_load:
  assumes "writer_ok ops w"
  shows "writer_ok ops (w\<lparr>wr_state := Some
    (case wr_state w of Some old \<Rightarrow> old | None \<Rightarrow> load_existing_file_state ops (wr_file w))\<rparr>)"
proof -
  from assms obtain rs where ok: "file_holds (wr_file w) rs" "file_sequence ops rs"
      "\<forall>st. wr_state w = Some st \<longrightarrow> st = state_of ops rs"
    by (auto simp: writer_ok_def)
  then show ?thesis unfolding state_or_load [OF ok] by (auto simp: writer_ok_def)
qed

lemma check_order_ok:
  "triple (store_ok ops) (check_order ops force kr) (\<lambda>_. store_ok ops) (\<lambda>_. store_ok ops)"
  by (cases kr)
    (auto simp: triple_def check_order_def Let_def split: list.splits
       intro!: store_ok_set writer_ok_load store_ok_get)

lemma append_record_ok:
  "triple (store_ok ops) (append_record ops parse requests force) (\<lambda>_. store_ok ops) (\<lambda>_. store_ok ops)"
  unfolding append_record_def Let_def
  by (rule triple_bind, rule triple_for_each, rule check_order_ok)
    (simp add: triple_def modify_st_def)

context memory_record
begin

lemma flush_ok: "store_ok ops s \<Longrightarrow> store_ok ops (flush ops key n s)"
  unfolding flush_def
  by (auto simp: split_beta Let_def intro!: store_ok_set write_ok store_ok_get)

lemma step_ok:
  assumes "store_step ops parse s s'" and ok: "store_ok ops s"
  shows "store_ok ops s'"
  using assms(1)
proof (cases rule: store_step.cases)
  case (submit requests force)
  obtain r t where run: "append_record ops parse requests force s = (r, t)" by fastforce
  have "store_ok ops t"
  proof (cases r)
    case (Inl e)
    with run triple_Inl [OF append_record_ok ok] show ?thesis by blast
  next
    case (Inr x)
    with run triple_Inr [OF append_record_ok ok] show ?thesis by blast
  qed
  with submit run show ?thesis by simp
next
  case (flushed key n records rest)
  with ok show ?thesis by (simp add: flush_ok)
next
  case restarted
  with ok show ?thesis by (simp add: store_ok_restart)
qed

lemma reachable_ok: "store_reachable ops parse s \<Longrightarrow> store_ok ops s"
proof (induction rule: store_reachable.induct)
  case start
  show ?case by (rule store_ok_empty)
next
  case (step s s')
  then show ?case by (blast intro: step_ok)
qed

text \<open>In a well-formed file sequence numbers identify records.\<close>

lemma file_sequence_nth:
  assumes "file_sequence ops rs" and "i < length rs"
  shows "sn_of ops (rs ! i) = Suc i"
proof -
  from assms(1) have "map (sn_of ops) rs ! i = [1..<Suc (length rs)] ! i"
    by (simp only: file_sequence_def)
  with assms(2) show ?thesis by (simp del: upt_Suc)
qed

text \<open>What a check of order decides.\<close>

lemma min_time_loop_less:
  "min_time_loop ops t rs < T \<longleftrightarrow> t < T \<or> (\<exists>r\<in>set rs. time_of ops r < T)"
  by (induction rs arbitrary: t) (auto simp: not_less dest: order.strict_trans1 less_trans)

end

lemma check_order_error:
  "fst (check_order ops force (key, records) s) = Inl (Record_Not_In_Order key T t) \<longleftrightarrow>
     \<not> force \<and> (\<exists>r0 rs. records = r0 # rs \<and> t = time_of ops r0 \<and>
       T = fs_time (case wr_state (get_writer key s) of Some st \<Rightarrow> st
             | None \<Rightarrow> load_existing_file_state ops (wr_file (get_writer key s))) \<and>
       min_time_loop ops t records < T)"
  by (auto simp: check_order_def Let_def split: list.splits)

section \<open>Notifications\<close>

text \<open>
  \<open>kissbot-memory-store/src/notify.rs\<close>: a batch of channel records gives one notification per
  channel, with the time and sender of the channel's last record; a batch of the other kinds
  gives one notification without a channel.
\<close>

definition channel_notifications :: "record_file_key \<Rightarrow> channel_record list \<Rightarrow> record_notification list" where
  "channel_notifications key records =
     map (\<lambda>(channel, last_record).
            \<lparr>rn_agent_id = rk_agent_id key, rn_role_event = rk_role_event key,
             rn_time = cr_time last_record, rn_is_self = Some (cr_is_self last_record),
             rn_channel = Some channel\<rparr>)
       (bm_collect (map (\<lambda>r. (channel_key_of r, r)) records))"

definition kind_notification :: "'r record_ops \<Rightarrow> record_file_key \<Rightarrow> 'r list \<Rightarrow> record_notification list" where
  "kind_notification ops key records =
     (if records = [] then []
      else [\<lparr>rn_agent_id = rk_agent_id key, rn_role_event = rk_role_event key,
             rn_time = time_of ops (last records), rn_is_self = None, rn_channel = None\<rparr>])"

text \<open>The hooks publish the records of either branch of a write.\<close>

fun hook_records :: "'r hook_event \<Rightarrow> 'r list" where
  "hook_records (On_Append rs) = rs"
| "hook_records (On_Force_Append rs) = rs"

definition publish_channel :: "record_file_key \<Rightarrow> channel_record hook_event \<Rightarrow> (record_kind \<times> record_notification) list" where
  "publish_channel key ev = map (Pair Kind_Channel) (channel_notifications key (hook_records ev))"

definition publish_think :: "record_file_key \<Rightarrow> think_record hook_event \<Rightarrow> (record_kind \<times> record_notification) list" where
  "publish_think key ev = map (Pair Kind_Think) (kind_notification think_ops key (hook_records ev))"

definition publish_tool_call :: "record_file_key \<Rightarrow> tool_call_record hook_event \<Rightarrow> (record_kind \<times> record_notification) list" where
  "publish_tool_call key ev = map (Pair Kind_ToolCall) (kind_notification tool_call_ops key (hook_records ev))"

definition publish_tool_result :: "record_file_key \<Rightarrow> tool_result_record hook_event \<Rightarrow> (record_kind \<times> record_notification) list" where
  "publish_tool_result key ev = map (Pair Kind_ToolResult) (kind_notification tool_result_ops key (hook_records ev))"

lemma channels_notified:
  "map rn_channel (channel_notifications key records) =
     map Some (map fst (bm_collect (map (\<lambda>r. (channel_key_of r, r)) records)))"
  by (auto simp: channel_notifications_def)

lemma set_fst_collect: "fst ` set (bm_collect kvs) = fst ` set kvs"
proof -
  have "fst ` set (bm_collect kvs) = dom (bm_get (bm_collect kvs))"
    by (simp add: dom_map_of_conv_image_fst)
  also have "\<dots> = fst ` set kvs"
    by (simp add: bm_get_collect dom_map_of_conv_image_fst)
  finally show ?thesis .
qed

lemma map_of_rev_split:
  "map_of (rev (map (\<lambda>r. (f r, r)) rs)) k = Some x \<Longrightarrow>
     \<exists>ys zs. rs = ys @ x # zs \<and> f x = k \<and> (\<forall>z\<in>set zs. f z \<noteq> k)"
proof (induction rs)
  case Nil
  then show ?case by simp
next
  case (Cons r rs)
  show ?case
  proof (cases "map_of (rev (map (\<lambda>r. (f r, r)) rs)) k")
    case None
    with Cons.prems have "x = r" "f r = k" by (auto simp: map_add_def split: if_splits)
    moreover from None have "\<forall>z\<in>set rs. f z \<noteq> k"
      by (auto simp: map_of_eq_None_iff image_iff)
    ultimately show ?thesis by (intro exI [of _ "[]"] exI [of _ rs]) auto
  next
    case (Some y)
    with Cons.prems have "y = x" by (auto simp: map_add_def)
    with Some Cons.IH obtain ys zs where "rs = ys @ x # zs" "f x = k" "\<forall>z\<in>set zs. f z \<noteq> k"
      by blast
    then show ?thesis by (intro exI [of _ "r # ys"] exI [of _ zs]) auto
  qed
qed

section \<open>Appending, all or nothing\<close>

text \<open>The records of the requests for one file, in the order of the requests.\<close>

definition requests_for :: "('q \<Rightarrow> record_file_key \<times> 'r) \<Rightarrow> 'q list \<Rightarrow> record_file_key \<Rightarrow> 'r list" where
  "requests_for parse qs key = map snd (filter (\<lambda>p. fst p = key) (map parse qs))"

lemma group_requests_fold:
  "hm_ok m \<Longrightarrow> hm_ok (fold (\<lambda>q m. let (k, r) = parse q in hm_extend k [r] m) qs m) \<and>
     hm_get (fold (\<lambda>q m. let (k, r) = parse q in hm_extend k [r] m) qs m) key =
       (if requests_for parse qs key = [] then hm_get m key
        else Some ((case hm_get m key of None \<Rightarrow> [] | Some rs \<Rightarrow> rs) @ requests_for parse qs key))"
proof (induction qs arbitrary: m)
  case (Cons q qs)
  obtain k r where q: "parse q = (k, r)" by fastforce
  have "hm_ok (hm_extend k [r] m)" using Cons.prems by (simp add: hm_extend_def)
  note IH = Cons.IH [OF this]
  with q show ?case by (auto simp: requests_for_def hm_extend_def split: option.splits)
qed (simp add: requests_for_def)

lemma group_requests_get:
  "hm_get (group_requests parse qs) key =
     (if requests_for parse qs key = [] then None else Some (requests_for parse qs key))"
  using group_requests_fold [of "[]" parse qs key] by (simp add: group_requests_def)

lemma group_requests_set:
  "(key, rs) \<in> set (group_requests parse qs) \<longleftrightarrow> rs = requests_for parse qs key \<and> rs \<noteq> []"
proof -
  have "hm_ok (group_requests parse qs)"
    using group_requests_fold [of "[]" parse qs] by (simp add: group_requests_def)
  then have "(key, rs) \<in> set (group_requests parse qs) \<longleftrightarrow> hm_get (group_requests parse qs) key = Some rs"
    using map_of_eq_Some_iff by metis
  then show ?thesis by (auto simp: group_requests_get)
qed

lemma get_set_writer [simp]: "get_writer k (set_writer key w s) = (if k = key then w else get_writer k s)"
  by (simp add: get_writer_def set_writer_def)

lemma get_writer_pending [simp]: "get_writer k (s\<lparr>st_pending := p\<rparr>) = get_writer k s"
  by (simp add: get_writer_def)

lemma pending_set_writer [simp]: "st_pending (set_writer key w s) = st_pending s"
  by (simp add: set_writer_def)

text \<open>What is on disk and what waits for the appender.\<close>

definition store_contents ::
  "'r store \<Rightarrow> (record_file_key \<Rightarrow> 'r file_line list option) \<times> (record_file_key \<times> 'r list) list" where
  "store_contents s = (\<lambda>key. wr_file (get_writer key s), st_pending s)"

text \<open>A batch with a record earlier than the end of its file.\<close>

definition too_early :: "'r record_ops \<Rightarrow> 'r store \<Rightarrow> record_file_key \<Rightarrow> 'r list \<Rightarrow> bool" where
  "too_early ops s key rs \<longleftrightarrow>
     (\<exists>r\<in>set rs. time_of ops r < fs_time (load_existing_file_state ops (wr_file (get_writer key s))))"

lemma store_ok_state:
  assumes "store_ok ops s"
  shows "(case wr_state (get_writer key s) of Some st \<Rightarrow> st
      | None \<Rightarrow> load_existing_file_state ops (wr_file (get_writer key s))) =
    load_existing_file_state ops (wr_file (get_writer key s))"
proof -
  from store_ok_get [OF assms, of key] obtain rs
    where rs: "file_holds (wr_file (get_writer key s)) rs" "file_sequence ops rs"
      "\<forall>st. wr_state (get_writer key s) = Some st \<longrightarrow> st = state_of ops rs"
    by (auto simp: writer_ok_def)
  show ?thesis using state_or_load [OF rs] load_Rec [OF rs(1,2)] by simp
qed

context memory_record
begin

lemma check_order_run:
  assumes ok: "store_ok ops s" and "rs \<noteq> []" and run: "check_order ops force (key, rs) s = (r, s')"
  shows "store_ok ops s' \<and> store_contents s' = store_contents s \<and>
    (if \<not> force \<and> too_early ops s key rs
     then r = Inl (Record_Not_In_Order key
            (fs_time (load_existing_file_state ops (wr_file (get_writer key s)))) (time_of ops (hd rs)))
     else r = Inr ())"
proof -
  from \<open>rs \<noteq> []\<close> obtain r0 rs' where rs: "rs = r0 # rs'" by (cases rs) auto
  have "store_ok ops s'"
    using run triple_Inr [OF check_order_ok ok] triple_Inl [OF check_order_ok ok] by (cases r) blast+
  with run show ?thesis
    by (auto simp: rs check_order_def Let_def store_ok_state [OF ok] store_contents_def too_early_def
        min_time_loop_less fun_eq_iff split: if_splits)
qed

lemma check_orders_run:
  "for_each krs (check_order ops force) s = (r, s') \<Longrightarrow> store_ok ops s \<Longrightarrow> \<forall>(key, rs)\<in>set krs. rs \<noteq> [] \<Longrightarrow>
     store_contents s' = store_contents s \<and>
     (case r of
        Inr _ \<Rightarrow> force \<or> (\<forall>(key, rs)\<in>set krs. \<not> too_early ops s key rs)
      | Inl e \<Rightarrow> \<not> force \<and> (\<exists>(key, rs)\<in>set krs. too_early ops s key rs \<and>
          e = Record_Not_In_Order key
            (fs_time (load_existing_file_state ops (wr_file (get_writer key s)))) (time_of ops (hd rs))))"
proof (induction krs arbitrary: s)
  case (Cons kr krs)
  obtain key rs where kr: "kr = (key, rs)" by fastforce
  obtain r1 s1 where 1: "check_order ops force (key, rs) s = (r1, s1)" by fastforce
  from Cons.prems(3) kr have "rs \<noteq> []" by auto
  note first = check_order_run [OF Cons.prems(2) this 1]
  show ?case
  proof (cases r1)
    case (Inl e)
    with Cons.prems(1) 1 kr have "r = Inl e" "s' = s1" by (auto simp: bind_act_def)
    with first Inl show ?thesis by (auto simp: kr split: if_splits)
  next
    case (Inr x)
    with Cons.prems(1) 1 kr have "for_each krs (check_order ops force) s1 = (r, s')" by (simp add: bind_act_def)
    from Cons.IH [OF this] first Cons.prems(3)
    have IH: "store_contents s' = store_contents s1 \<and>
     (case r of
        Inr _ \<Rightarrow> force \<or> (\<forall>(key, rs)\<in>set krs. \<not> too_early ops s1 key rs)
      | Inl e \<Rightarrow> \<not> force \<and> (\<exists>(key, rs)\<in>set krs. too_early ops s1 key rs \<and>
          e = Record_Not_In_Order key
            (fs_time (load_existing_file_state ops (wr_file (get_writer key s1)))) (time_of ops (hd rs))))"
      by simp
    have "wr_file (get_writer k s1) = wr_file (get_writer k s)" for k
      using first by (simp add: store_contents_def fun_eq_iff)
    with IH first Inr show ?thesis
      by (auto simp: kr too_early_def split: sum.splits if_splits)
  qed
qed simp

lemma append_record_run:
  assumes "store_ok ops s" and "append_record ops parse qs force s = (r, s')"
  shows "case r of
      Inr _ \<Rightarrow> store_contents s' = (fst (store_contents s), st_pending s @ group_requests parse qs) \<and>
        (force \<or> (\<forall>key. \<not> too_early ops s key (requests_for parse qs key)))
    | Inl e \<Rightarrow> store_contents s' = store_contents s \<and> \<not> force \<and>
        (\<exists>key. too_early ops s key (requests_for parse qs key) \<and>
          e = Record_Not_In_Order key (fs_time (load_existing_file_state ops (wr_file (get_writer key s))))
            (time_of ops (hd (requests_for parse qs key))))"
proof -
  obtain r1 s1 where 1: "for_each (group_requests parse qs) (check_order ops force) s = (r1, s1)" by fastforce
  have groups: "\<forall>(key, rs)\<in>set (group_requests parse qs). rs \<noteq> []" by (auto simp: group_requests_set)
  note checks = check_orders_run [OF 1 assms(1) groups]
  show ?thesis
  proof (cases r1)
    case (Inl e)
    with assms(2) 1 have "r = Inl e" "s' = s1" by (auto simp: append_record_def bind_act_def Let_def)
    with checks Inl show ?thesis by (auto simp: group_requests_set)
  next
    case (Inr x)
    with assms(2) 1 have "r = Inr ()" "s' = s1\<lparr>st_pending := st_pending s1 @ group_requests parse qs\<rparr>"
      by (auto simp: append_record_def bind_act_def Let_def modify_st_def)
    moreover have "force \<or> (\<forall>key. \<not> too_early ops s key (requests_for parse qs key))"
    proof -
      have "\<not> too_early ops s key (requests_for parse qs key)" if "\<not> force" for key
      proof (cases "requests_for parse qs key = []")
        case False
        then have "(key, requests_for parse qs key) \<in> set (group_requests parse qs)"
          by (simp add: group_requests_set)
        with checks Inr that show ?thesis by auto
      qed (simp add: too_early_def)
      then show ?thesis by blast
    qed
    ultimately show ?thesis using checks Inr by (auto simp: store_contents_def fun_eq_iff)
  qed
qed

end

end
