(* ===== verification/Store_Spec.thy ===== *)
theory Store_Spec
  imports Record_Store
begin

text \<open>
  What the record store promises, over every history of submitted requests, flushed batches
  and restarts, with concrete runs of it as witnesses.
\<close>

section \<open>A store to look at\<close>

definition store_sample_request :: "string \<Rightarrow> string \<Rightarrow> channel_request" where
  "store_sample_request user t = \<lparr>cq_msg_id = t, cq_agent_id = ''a'', cq_role_event = RoleEvent ''dev'' None,
     cq_messenger_id = ''web'', cq_user_id = user, cq_self_user_id = ''bot'', cq_group_id = ''g'',
     cq_is_self = 0, cq_messenger_name = ''Web'', cq_user_name = user, cq_group_name = ''G'',
     cq_content = Content_Text ''hi'', cq_time = t\<rparr>"

definition store_sample_record :: "string \<Rightarrow> string \<Rightarrow> nat \<Rightarrow> channel_record" where
  "store_sample_record user t n = (snd (parse_channel_request (\<lambda>_. ''day'') (store_sample_request user t)))\<lparr>cr_sn := n\<rparr>"

definition store_sample_key :: record_file_key where
  "store_sample_key = RecordKey ''a'' (RoleEvent ''dev'' None) ''day''"

definition store_sample :: "channel_record store" where
  "store_sample = flush channel_ops store_sample_key 1 (snd (append_record channel_ops
     (parse_channel_request (\<lambda>_. ''day'')) [store_sample_request ''u'' ''2026-01-02'', store_sample_request ''v'' ''2026-01-01''] False empty_store))"

lemmas sample_defs = store_sample_def store_sample_key_def store_sample_request_def parse_channel_request_def

lemma store_sample_pending:
  "st_pending (snd (append_record channel_ops (parse_channel_request (\<lambda>_. ''day''))
     [store_sample_request ''u'' ''2026-01-02'', store_sample_request ''v'' ''2026-01-01''] False empty_store)) =
   [(store_sample_key, [store_sample_record ''u'' ''2026-01-02'' 0, store_sample_record ''v'' ''2026-01-01'' 0])]"
  by code_simp

lemma store_sample_reachable: "store_reachable channel_ops (parse_channel_request (\<lambda>_. ''day'')) store_sample"
  unfolding store_sample_def
  by (intro store_reachable.step [OF store_reachable.step [OF store_reachable.start submit [OF refl]] flushed])
    (auto simp: store_sample_pending numeral_2_eq_2)

lemma store_sample_writer:
  "hm_get (st_writers store_sample) store_sample_key =
     Some \<lparr>wr_file = Some [Rec (store_sample_record ''v'' ''2026-01-01'' 1), Rec (store_sample_record ''u'' ''2026-01-02'' 2)],
           wr_state = Some \<lparr>fs_sn = 2, fs_time = ''2026-01-02''\<rparr>\<rparr>"
  by code_simp

section \<open>Record files\<close>



text \<open>C35: one write of a non-empty batch to a well-formed file whose records are \<open>old\<close> loses and
  invents nothing: up to sequence numbers the new file holds the old records and the batch.
  When no record of the batch is earlier than the last one of the file, the old part is left
  untouched and the batch follows it; otherwise the file is rewritten in order of time. The
  write fails only when the file is not there and a record is earlier than the zero time.\<close>

theorem write_keeps_records:
  assumes "memory_record ops" and "writer_ok ops w" and "file_holds (wr_file w) old" and "records \<noteq> []"
    and there: "wr_file w = None \<Longrightarrow> \<forall>r\<in>set records. zero_time \<le> time_of ops r"
  shows "\<exists>new. wr_file (snd (writer_write ops records w)) = Some (map Rec new) \<and>
     mset (map (set_sn ops 0) new) = mset (map (set_sn ops 0) (old @ records)) \<and>
     file_sequence ops new \<and>
     (if \<forall>r\<in>set records. fs_time (load_existing_file_state ops (wr_file w)) \<le> time_of ops r
      then \<exists>appended. new = old @ appended \<and> fst (writer_write ops records w) = Inr (On_Append appended)
      else fst (writer_write ops records w) = Inr (On_Force_Append new))"
proof -
  from assms(2,3) have ok: "file_holds (wr_file w) old" "file_sequence ops old"
      "\<forall>st. wr_state w = Some st \<longrightarrow> st = state_of ops old"
    by (auto simp: writer_ok_def file_holds_def)
  note st = load_Rec [OF ok(1,2)]
  show ?thesis
  proof (cases "\<forall>r\<in>set records. fs_time (state_of ops old) \<le> time_of ops r")
    case True
    from memory_record.write_append [OF assms(1) ok \<open>records \<noteq> []\<close> True] True
    show ?thesis by (auto simp: st simp del: map_append)
  next
    case False
    then have early: "\<exists>r\<in>set records. time_of ops r < fs_time (state_of ops old)" by (auto simp: not_le)
    have "wr_file w \<noteq> None"
      using early there ok(1) by (auto simp: file_holds_def state_of_def initial_file_state_def not_less [symmetric])
    from memory_record.write_rewrite [OF assms(1) ok this early] False
    show ?thesis by (auto simp: st)
  qed
qed

theorem write_keeps_records_witness:
  "\<exists>new. wr_file (snd (writer_write channel_ops [store_sample_record ''w'' ''2025-12-31'' 0]
       \<lparr>wr_file = Some [Rec (store_sample_record ''u'' ''2026-01-02'' 1)], wr_state = None\<rparr>)) = Some (map Rec new) \<and>
     mset (map (set_sn channel_ops 0) new) =
       {#store_sample_record ''u'' ''2026-01-02'' 0, store_sample_record ''w'' ''2025-12-31'' 0#}"
proof -
  have one: "[Suc 0..<2] = [1 :: nat]" by (simp add: upt_rec)
  have "writer_ok channel_ops \<lparr>wr_file = Some [Rec (store_sample_record ''u'' ''2026-01-02'' 1)], wr_state = None\<rparr>"
    by (auto simp: writer_ok_def file_holds_def file_sequence_def channel_ops_def store_sample_record_def one
        intro!: exI [of _ "[store_sample_record ''u'' ''2026-01-02'' 1]"])
  from write_keeps_records [OF channel_records.memory_record_axioms this,
      of "[store_sample_record ''u'' ''2026-01-02'' 1]" "[store_sample_record ''w'' ''2025-12-31'' 0]"]
  show ?thesis
    by (auto simp: file_holds_def channel_ops_def store_sample_record_def split: if_splits)
qed

section \<open>Requests\<close>

text \<open>C36: submitting requests either queues all of them or none. It fails only without
  \<open>force\<close> and only because some file already ends later than a record meant for it; then no
  file and no queue has changed, and the error names the file, its last time and the first
  record meant for it. Otherwise every record is queued, grouped by its file in the order of
  the requests, and unless forced none of them is earlier than the end of its file.\<close>

theorem append_all_or_nothing:
  assumes "store_reachable channel_ops (parse_channel_request as_date) s"
    and "append_record channel_ops (parse_channel_request as_date) qs force s = (r, s')"
  shows "(\<forall>key. wr_file (get_writer key s') = wr_file (get_writer key s)) \<and>
    (case r of
       Inr _ \<Rightarrow> st_pending s' = st_pending s @ group_requests (parse_channel_request as_date) qs \<and>
         (force \<or> (\<forall>key. \<not> too_early channel_ops s key (requests_for (parse_channel_request as_date) qs key)))
     | Inl e \<Rightarrow> st_pending s' = st_pending s \<and> \<not> force \<and>
         (\<exists>key. let rs = requests_for (parse_channel_request as_date) qs key
            in too_early channel_ops s key rs \<and>
               e = Record_Not_In_Order key
                 (fs_time (load_existing_file_state channel_ops (wr_file (get_writer key s)))) (cr_time (hd rs))))"
  using channel_records.append_record_run [OF channel_records.reachable_ok [OF assms(1)] assms(2)]
  by (auto simp: store_contents_def fun_eq_iff Let_def channel_ops_def split: sum.splits)

theorem append_all_or_nothing_witness:
  "\<exists>s'. append_record channel_ops (parse_channel_request (\<lambda>_. ''day'')) [store_sample_request ''u'' ''2025''] False store_sample =
       (Inl (Record_Not_In_Order store_sample_key ''2026-01-02'' ''2025''), s') \<and>
     st_pending s' = [] \<and> wr_file (get_writer store_sample_key s') = wr_file (get_writer store_sample_key store_sample)"
proof -
  obtain r s' where run: "append_record channel_ops (parse_channel_request (\<lambda>_. ''day''))
      [store_sample_request ''u'' ''2025''] False store_sample = (r, s')" by fastforce
  have "fst (append_record channel_ops (parse_channel_request (\<lambda>_. ''day''))
      [store_sample_request ''u'' ''2025''] False store_sample) = Inl (Record_Not_In_Order store_sample_key ''2026-01-02'' ''2025'')"
    by code_simp
  with run have "r = Inl (Record_Not_In_Order store_sample_key ''2026-01-02'' ''2025'')" by simp
  moreover have "st_pending store_sample = []" by code_simp
  ultimately show ?thesis using append_all_or_nothing [OF store_sample_reachable run] run by simp
qed

section \<open>Notifications\<close>

text \<open>A written batch of channel records is announced once for each channel that occurs in it
  and for no other, in the order of the channel keys; every notification carries the agent and
  the memory suffix of the file and the time and sender flag of the last record of its channel.\<close>

theorem one_notification_per_channel:
  "\<exists>channels. map rn_channel (channel_notifications key records) = map Some channels \<and>
     sorted_wrt (<) channels \<and> set channels = channel_key_of ` set records \<and>
     (\<forall>n\<in>set (channel_notifications key records). \<exists>before r after.
        records = before @ r # after \<and> channel_key_of r \<notin> channel_key_of ` set after \<and>
        n = \<lparr>rn_agent_id = rk_agent_id key, rn_role_event = rk_role_event key, rn_time = cr_time r,
             rn_is_self = Some (cr_is_self r), rn_channel = Some (channel_key_of r)\<rparr>)"
proof (rule exI, intro conjI ballI)
  let ?m = "bm_collect (map (\<lambda>r. (channel_key_of r, r)) records)"
  show "map rn_channel (channel_notifications key records) = map Some (map fst ?m)"
    by (rule channels_notified)
  show "sorted_wrt (<) (map fst ?m)" by simp
  show "set (map fst ?m) = channel_key_of ` set records"
    by (simp add: set_fst_collect image_image)
  fix n assume "n \<in> set (channel_notifications key records)"
  then obtain c r where m: "(c, r) \<in> set ?m"
      and n: "n = \<lparr>rn_agent_id = rk_agent_id key, rn_role_event = rk_role_event key, rn_time = cr_time r,
             rn_is_self = Some (cr_is_self r), rn_channel = Some c\<rparr>"
    by (auto simp: channel_notifications_def)
  from m have "bm_get ?m c = Some r" by (simp only: bm_get_in [OF bm_ok_collect])
  then have "map_of (rev (map (\<lambda>r. (channel_key_of r, r)) records)) c = Some r"
    by (simp add: bm_get_collect rev_map)
  from map_of_rev_split [OF this] obtain ys zs where "records = ys @ r # zs"
      and c: "channel_key_of r = c" and "\<forall>z\<in>set zs. channel_key_of z \<noteq> c"
    by blast
  then have "records = ys @ r # zs \<and> channel_key_of r \<notin> channel_key_of ` set zs \<and>
      n = \<lparr>rn_agent_id = rk_agent_id key, rn_role_event = rk_role_event key, rn_time = cr_time r,
           rn_is_self = Some (cr_is_self r), rn_channel = Some (channel_key_of r)\<rparr>"
    unfolding n c by (intro conjI refl) auto
  then show "\<exists>before r after. records = before @ r # after \<and> channel_key_of r \<notin> channel_key_of ` set after \<and>
        n = \<lparr>rn_agent_id = rk_agent_id key, rn_role_event = rk_role_event key, rn_time = cr_time r,
             rn_is_self = Some (cr_is_self r), rn_channel = Some (channel_key_of r)\<rparr>"
    by (intro exI)
qed

theorem one_notification_per_channel_witness:
  "channel_notifications store_sample_key [store_sample_record ''u'' ''t1'' 1, store_sample_record ''v'' ''t2'' 2] =
     [\<lparr>rn_agent_id = ''a'', rn_role_event = RoleEvent ''dev'' None, rn_time = ''t2'',
       rn_is_self = Some 0, rn_channel = Some (ChannelKey ''web'' ''bot'' ''g'')\<rparr>] \<and>
   (\<exists>channels. map rn_channel (channel_notifications store_sample_key
       [store_sample_record ''u'' ''t1'' 1, store_sample_record ''v'' ''t2'' 2]) = map Some channels \<and>
     set channels = {ChannelKey ''web'' ''bot'' ''g''})"
proof
  show "channel_notifications store_sample_key [store_sample_record ''u'' ''t1'' 1, store_sample_record ''v'' ''t2'' 2] =
     [\<lparr>rn_agent_id = ''a'', rn_role_event = RoleEvent ''dev'' None, rn_time = ''t2'',
       rn_is_self = Some 0, rn_channel = Some (ChannelKey ''web'' ''bot'' ''g'')\<rparr>]"
    by code_simp
  have "channel_key_of (store_sample_record u t n) = ChannelKey ''web'' ''bot'' ''g''" for u t n
    by (simp add: channel_key_of_def store_sample_record_def parse_channel_request_def store_sample_request_def)
  then have "channel_key_of ` set [store_sample_record ''u'' ''t1'' 1, store_sample_record ''v'' ''t2'' 2] =
      {ChannelKey ''web'' ''bot'' ''g''}" by simp
  with one_notification_per_channel [of store_sample_key "[store_sample_record ''u'' ''t1'' 1, store_sample_record ''v'' ''t2'' 2]"]
  show "\<exists>channels. map rn_channel (channel_notifications store_sample_key
       [store_sample_record ''u'' ''t1'' 1, store_sample_record ''v'' ''t2'' 2]) = map Some channels \<and>
     set channels = {ChannelKey ''web'' ''bot'' ''g''}" by metis
qed

text \<open>The payload types of notification frames and the record kinds determine each other: a
  frame decodes to a kind exactly when the kind encodes to its payload type.\<close>

theorem payload_type_roundtrip: "from_payload_type p = Some k \<longleftrightarrow> payload_type k = p"
  using payload_type_from by auto

end
