(* ===== verification/Abstract_Types.thy ===== *)
theory Abstract_Types
  imports Record_Writer
begin

text \<open>
  The data of the summary memory (\<open>kissbot-memory-struct-abstract\<close>): the request and
  response types of \<open>kissbot-api/src/abstract.rs\<close>, the errors of
  \<open>kissbot-memory-struct-abstract/src/error.rs\<close>, and the world its operations run in: the
  files under the memory root, the clock, the decision model and the roles held in memory.
\<close>

section \<open>Records as the component reads them\<close>

text \<open>\<open>RecordBody\<close> and \<open>CaseRecord\<close> have the same four cases; one datatype serves both.\<close>

datatype record_body =
    Body_Channel channel_record
  | Body_Think think_record
  | Body_ToolCall tool_call_record
  | Body_ToolResult tool_result_record

type_synonym case_record = record_body

fun body_kind :: "record_body \<Rightarrow> record_kind" where
  "body_kind (Body_Channel r) = Kind_Channel"
| "body_kind (Body_Think r) = Kind_Think"
| "body_kind (Body_ToolCall r) = Kind_ToolCall"
| "body_kind (Body_ToolResult r) = Kind_ToolResult"

fun body_time :: "record_body \<Rightarrow> string" where
  "body_time (Body_Channel r) = cr_time r"
| "body_time (Body_Think r) = tk_time r"
| "body_time (Body_ToolCall r) = tc_time r"
| "body_time (Body_ToolResult r) = tr_time r"

fun body_sn :: "record_body \<Rightarrow> nat" where
  "body_sn (Body_Channel r) = cr_sn r"
| "body_sn (Body_Think r) = tk_sn r"
| "body_sn (Body_ToolCall r) = tc_sn r"
| "body_sn (Body_ToolResult r) = tr_sn r"

text \<open>\<open>CaseRecord::sort_key\<close>.\<close>

definition body_sort_key :: "record_body \<Rightarrow> string \<times> nat" where
  "body_sort_key r = (body_time r, body_sn r)"

record record_entry =
  re_kind :: record_kind
  re_time :: string
  re_sn :: nat
  re_body :: record_body

text \<open>The order of \<open>impl Ord for RecordEntry\<close>.\<close>

definition entry_key :: "record_entry \<Rightarrow> string \<times> nat" where
  "entry_key e = (re_time e, re_sn e)"

section \<open>Case nodes\<close>

record case_node =
  cn_case_name :: string
  cn_parent_id :: "string option"
  cn_children :: "string list"
  cn_summary :: string
  cn_record_count :: nat
  cn_start_time :: string
  cn_end_time :: string
  cn_created_at :: string
  cn_updated_at :: string

definition node_is_leaf :: "case_node \<Rightarrow> bool" where
  "node_is_leaf n \<longleftrightarrow> cn_children n = []"

record case_brief =
  cb_case_name :: string
  cb_summary :: string

definition brief_of_node :: "case_node \<Rightarrow> case_brief" where
  "brief_of_node n = \<lparr>cb_case_name = cn_case_name n, cb_summary = cn_summary n\<rparr>"

section \<open>Locating\<close>

record locate_message =
  lm_msg_id :: string
  lm_time :: string
  lm_user_name :: string
  lm_is_self :: nat
  lm_messenger_id :: string
  lm_self_user_id :: string
  lm_group_id :: string
  lm_content :: content

definition message_channel :: "locate_message \<Rightarrow> channel_key" where
  "message_channel m = ChannelKey (lm_messenger_id m) (lm_self_user_id m) (lm_group_id m)"

record locate_request =
  lq_agent_id :: string
  lq_role_event :: role_event
  lq_messages :: "locate_message list"

record located_case_ref =
  lc_case_name :: string
  lc_is_current :: bool

record located_group =
  lg_messages :: "nat list"
  lg_case_name :: string
  lg_is_current :: bool

record locate_response =
  lr_cases :: "located_case_ref list"
  lr_groups :: "located_group list"

section \<open>Cursor and watermark\<close>

record case_cursor =
  cc_time :: string
  cc_sn :: nat
  cc_record_type :: record_kind

definition cursor_of :: "case_record \<Rightarrow> case_cursor" where
  "cursor_of r = \<lparr>cc_time = body_time r, cc_sn = body_sn r, cc_record_type = body_kind r\<rparr>"

type_synonym watermark_point = "string \<times> nat"

definition watermark_zero_time :: string where
  "watermark_zero_time = ''2000-01-01 00:00:00''"

definition default_point :: watermark_point where
  "default_point = (watermark_zero_time, 0)"

record watermark =
  wm_channel :: watermark_point
  wm_think :: watermark_point
  wm_tool_call :: watermark_point
  wm_tool_result :: watermark_point

definition default_watermark :: watermark where
  "default_watermark = \<lparr>wm_channel = default_point, wm_think = default_point,
     wm_tool_call = default_point, wm_tool_result = default_point\<rparr>"

fun wm_point :: "watermark \<Rightarrow> record_kind \<Rightarrow> watermark_point" where
  "wm_point w Kind_Channel = wm_channel w"
| "wm_point w Kind_Think = wm_think w"
| "wm_point w Kind_ToolCall = wm_tool_call w"
| "wm_point w Kind_ToolResult = wm_tool_result w"

text \<open>Writing through \<open>point_mut\<close>.\<close>

fun set_point :: "record_kind \<Rightarrow> watermark_point \<Rightarrow> watermark \<Rightarrow> watermark" where
  "set_point Kind_Channel p w = w\<lparr>wm_channel := p\<rparr>"
| "set_point Kind_Think p w = w\<lparr>wm_think := p\<rparr>"
| "set_point Kind_ToolCall p w = w\<lparr>wm_tool_call := p\<rparr>"
| "set_point Kind_ToolResult p w = w\<lparr>wm_tool_result := p\<rparr>"

lemma wm_point_set_point [simp]:
  "wm_point (set_point k p w) k' = (if k' = k then p else wm_point w k')"
  by (cases k; cases k') auto

lemma wm_point_default [simp]: "wm_point default_watermark k = default_point"
  by (cases k) (simp_all add: default_watermark_def)

record rebuild_response =
  rr_archived :: nat
  rr_case_count :: nat

section \<open>Errors\<close>

text \<open>
  The texts of the messages are not modelled, only a tag for the check that failed.
  \<open>Panic\<close> stands for an unwinding thread and \<open>Diverges\<close> for a loop that never
  returns; neither is a value of the code's error type, and nothing runs after them.
\<close>

datatype abs_error =
    NotifyError
  | StoreReadError
  | ModelApiError string
  | StateError string
  | IoError
  | JsonError
  | FileError
  | InternalError string
  | Panic
  | Diverges

definition abnormal :: "abs_error \<Rightarrow> bool" where
  "abnormal e \<longleftrightarrow> e = Panic \<or> e = Diverges"

section \<open>Roles and their state\<close>

datatype agent_role = AgentRole (ar_agent_id: string) (ar_role: string)

text \<open>The order in which handles are listed (\<open>role_order\<close>).\<close>

definition role_order :: "agent_role \<Rightarrow> string \<times> string" where
  "role_order h = (ar_agent_id h, ar_role h)"

definition role_event_of :: "agent_role \<Rightarrow> string option \<Rightarrow> role_event" where
  "role_event_of h e = RoleEvent (ar_role h) e"

type_synonym case_tree = "(string, case_node) bmap"

type_synonym role_event_channel = "role_event \<times> channel_key"

text \<open>
  \<open>AgentRoleState\<close>. The dirty marks and the loaded suffixes are only tested for membership,
  never traversed in order, and are sets.
\<close>

record role_state =
  rs_tree :: case_tree
  rs_current_cases :: "(role_event_channel, string) bmap"
  rs_watermarks :: "(role_event_channel, watermark) bmap"
  rs_loaded :: "role_event set"
  rs_dirty_suffixes :: "string set"
  rs_dirty_channels :: "role_event_channel set"

definition empty_role_state :: role_state where
  "empty_role_state = \<lparr>rs_tree = [], rs_current_cases = [], rs_watermarks = [],
     rs_loaded = {}, rs_dirty_suffixes = {}, rs_dirty_channels = {}\<rparr>"

section \<open>The world\<close>

text \<open>
  A state file that exists either parses or is damaged. A directory listing is in the order
  the file system gives.
\<close>

datatype 'a json_file = Json_File 'a | Damaged

type_synonym store_dir = "string \<times> (string \<times> record_body file_line list) list"

text \<open>
  \<open>w_store\<close>: the year directories of an agent's \<open>memory-store\<close>;
  \<open>w_trees\<close>, \<open>w_currents\<close>, \<open>w_marks\<close>: the files \<open>tree.json\<close>,
  \<open>current.json\<close> and \<open>watermark.json\<close>, the last two by agent and suffix;
  \<open>w_cases\<close>: the record copies of a case, one file per kind;
  \<open>w_faults\<close>: the outcomes of the coming file operations, \<open>True\<close> for an I/O
  error, and success when the list is used up;
  \<open>w_clock\<close> and \<open>w_ticks\<close>: the readings of the clock and how many were taken;
  \<open>w_model\<close>: the state of the decision model; \<open>w_roles\<close>: the roles opened, except
  that the state of the role whose mutex is held is \<open>w_state\<close>.
\<close>

record 'm world =
  w_store :: "string \<Rightarrow> store_dir list option"
  w_trees :: "(agent_role, case_node list json_file) hmap"
  w_currents :: "string \<times> string \<Rightarrow> (channel_key \<times> string) list json_file option"
  w_marks :: "string \<times> string \<Rightarrow> (channel_key \<times> watermark) list json_file option"
  w_cases :: "agent_role \<Rightarrow> string \<Rightarrow> record_kind \<Rightarrow> record_body file_line list option"
  w_faults :: "bool list"
  w_clock :: "nat \<Rightarrow> string"
  w_ticks :: nat
  w_model :: 'm
  w_roles :: "(agent_role, role_state) hmap"
  w_state :: role_state

type_synonym ('m, 'a) op = "('m world, abs_error, 'a) action"

text \<open>One file operation: it succeeds or fails as the script of faults says.\<close>

definition io_step :: "('m, unit) op" where
  "io_step w = (case w_faults w of
      [] \<Rightarrow> (Inr (), w)
    | f # fs \<Rightarrow> (if f then Inl IoError else Inr (), w\<lparr>w_faults := fs\<rparr>))"

text \<open>\<open>now_string\<close>.\<close>

definition now_string :: "('m, string) op" where
  "now_string w = (Inr (w_clock w (w_ticks w)), w\<lparr>w_ticks := Suc (w_ticks w)\<rparr>)"

definition get_state :: "('m, role_state) op" where
  "get_state = read_st w_state"

definition put_state :: "role_state \<Rightarrow> ('m, unit) op" where
  "put_state st = modify_st (\<lambda>w. w\<lparr>w_state := st\<rparr>)"

definition modify_tree :: "(case_tree \<Rightarrow> case_tree) \<Rightarrow> ('m, unit) op" where
  "modify_tree f = modify_st (\<lambda>w. w\<lparr>w_state := (w_state w)\<lparr>rs_tree := f (rs_tree (w_state w))\<rparr>\<rparr>)"

lemma io_step_Inr [run_simps]:
  "io_step w = (Inr u, w') \<longleftrightarrow>
     (w_faults w = [] \<and> w' = w) \<or> (\<exists>fs. w_faults w = False # fs \<and> w' = w\<lparr>w_faults := fs\<rparr>)"
  by (auto simp: io_step_def split: list.splits if_splits)

lemma io_step_Inl [run_simps]:
  "io_step w = (Inl e, w') \<longleftrightarrow>
     (\<exists>fs. w_faults w = True # fs \<and> e = IoError \<and> w' = w\<lparr>w_faults := fs\<rparr>)"
  by (auto simp: io_step_def split: list.splits if_splits)

lemma now_string_conv [run_simps, simp]:
  "now_string w = (r, w') \<longleftrightarrow> r = Inr (w_clock w (w_ticks w)) \<and> w' = w\<lparr>w_ticks := Suc (w_ticks w)\<rparr>"
  by (auto simp: now_string_def)

lemma get_state_conv [run_simps, simp]: "get_state w = (r, w') \<longleftrightarrow> r = Inr (w_state w) \<and> w' = w"
  by (auto simp: get_state_def)

lemma put_state_conv [run_simps, simp]: "put_state st w = (r, w') \<longleftrightarrow> r = Inr () \<and> w' = w\<lparr>w_state := st\<rparr>"
  by (auto simp: put_state_def)

lemma modify_tree_conv [run_simps, simp]:
  "modify_tree f w = (r, w') \<longleftrightarrow>
     r = Inr () \<and> w' = w\<lparr>w_state := (w_state w)\<lparr>rs_tree := f (rs_tree (w_state w))\<rparr>\<rparr>"
  by (auto simp: modify_tree_def)

end
