(* ===== verification/Case_Tree.thy ===== *)
theory Case_Tree
  imports Abstract_Types
begin

text \<open>
  \<open>kissbot-memory-struct-abstract/src/tree.rs\<close>: the case tree of a role, a \<open>BTreeMap\<close>
  from case names to nodes. A node names its parent and its children, so the tree is kept in
  two redundant ways; \<open>tree_ok\<close> says that they agree, that the links stay in the map and
  that they have no cycle. Every operation keeps it, and under it the loops over the tree end.
\<close>

section \<open>Names\<close>

definition role_case_prefix :: string where
  "role_case_prefix = ''role-''"

definition event_case_prefix :: string where
  "event_case_prefix = ''event-''"

definition event_case_name :: "string \<Rightarrow> string" where
  "event_case_name e = event_case_prefix @ e"

definition starts_with :: "string \<Rightarrow> string \<Rightarrow> bool" where
  "starts_with s p \<longleftrightarrow> take (length p) s = p"

definition is_role_case :: "string \<Rightarrow> bool" where
  "is_role_case name \<longleftrightarrow> starts_with name role_case_prefix"

section \<open>Reading the tree\<close>

definition tree_from_nodes :: "case_node list \<Rightarrow> case_tree" where
  "tree_from_nodes ns = bm_collect (map (\<lambda>n. (cn_case_name n, n)) ns)"

definition tree_get :: "case_tree \<Rightarrow> string \<Rightarrow> case_node option" where
  "tree_get t c = bm_get t c"

text \<open>All nodes, by creation time and name.\<close>

definition tree_nodes :: "case_tree \<Rightarrow> case_node list" where
  "tree_nodes t = sort_key (\<lambda>n. (cn_created_at n, cn_case_name n)) (map snd t)"

definition tree_contains :: "case_tree \<Rightarrow> string \<Rightarrow> bool" where
  "tree_contains t c \<longleftrightarrow> bm_get t c \<noteq> None"

definition event_case :: "case_tree \<Rightarrow> string \<Rightarrow> case_node option" where
  "event_case t e = bm_get t (event_case_name e)"

definition role_case_ids :: "case_tree \<Rightarrow> string bset" where
  "role_case_ids t = bs_collect (filter is_role_case (map fst t))"

definition ids_of :: "bool \<Rightarrow> case_tree \<Rightarrow> string list" where
  "ids_of role_only t =
     map cn_case_name
       (filter (\<lambda>n. \<not> role_only \<or> is_role_case (cn_case_name n))
         (filter (\<lambda>n. cn_parent_id n = None) (tree_nodes t)))"

definition top_level_ids :: "case_tree \<Rightarrow> string list" where
  "top_level_ids t = ids_of False t"

definition role_top_level_ids :: "case_tree \<Rightarrow> string list" where
  "role_top_level_ids t = ids_of True t"

definition created_at_or_empty :: "case_tree \<Rightarrow> string \<Rightarrow> string" where
  "created_at_or_empty t c = (case bm_get t c of Some n \<Rightarrow> cn_created_at n | None \<Rightarrow> '''')"

definition children_ids :: "case_tree \<Rightarrow> string \<Rightarrow> string list" where
  "children_ids t c =
     (case bm_get t c of
        None \<Rightarrow> []
      | Some n \<Rightarrow> sort_key (\<lambda>a. (created_at_or_empty t a, a)) (cn_children n))"

definition role_children_ids :: "case_tree \<Rightarrow> string \<Rightarrow> string list" where
  "role_children_ids t c = filter is_role_case (children_ids t c)"

definition tree_is_leaf :: "case_tree \<Rightarrow> string \<Rightarrow> bool" where
  "tree_is_leaf t c = (case bm_get t c of Some n \<Rightarrow> node_is_leaf n | None \<Rightarrow> False)"

definition tree_brief :: "case_tree \<Rightarrow> string \<Rightarrow> case_brief option" where
  "tree_brief t c = map_option brief_of_node (bm_get t c)"

definition tree_briefs :: "case_tree \<Rightarrow> string list \<Rightarrow> case_brief list" where
  "tree_briefs t cs = List.map_filter (tree_brief t) cs"

definition parent_of :: "case_tree \<Rightarrow> string \<Rightarrow> string option" where
  "parent_of t c = (case bm_get t c of Some n \<Rightarrow> cn_parent_id n | None \<Rightarrow> None)"

text \<open>
  The loop of \<open>ancestors\<close>. A chain that visits more names than the tree has nodes plus
  one repeats a name, and then the loop of the code never ends: \<open>None\<close>.
\<close>

fun ancestors_loop :: "nat \<Rightarrow> case_tree \<Rightarrow> string option \<Rightarrow> string list option" where
  "ancestors_loop _ t None = Some []"
| "ancestors_loop 0 t (Some p) = None"
| "ancestors_loop (Suc n) t (Some p) = map_option ((#) p) (ancestors_loop n t (parent_of t p))"

definition ancestors :: "case_tree \<Rightarrow> string \<Rightarrow> string list option" where
  "ancestors t c = ancestors_loop (Suc (length t)) t (parent_of t c)"

section \<open>Changing the tree\<close>

definition new_node :: "string \<Rightarrow> string option \<Rightarrow> string \<Rightarrow> case_node" where
  "new_node c parent now =
     \<lparr>cn_case_name = c, cn_parent_id = parent, cn_children = [], cn_summary = '''',
      cn_record_count = 0, cn_start_time = now, cn_end_time = now,
      cn_created_at = now, cn_updated_at = now\<rparr>"

definition push_child :: "string \<Rightarrow> case_node \<Rightarrow> case_node" where
  "push_child c n = n\<lparr>cn_children := cn_children n @ [c]\<rparr>"

definition create_node :: "string \<Rightarrow> string option \<Rightarrow> string \<Rightarrow> case_tree \<Rightarrow> case_tree" where
  "create_node c parent now t =
     bm_insert c (new_node c parent now)
       (case parent of None \<Rightarrow> t | Some p \<Rightarrow> bm_modify p (push_child c) t)"

definition drop_children :: "string bset \<Rightarrow> case_node \<Rightarrow> case_node" where
  "drop_children cs n = n\<lparr>cn_children := filter (\<lambda>c. c \<notin> set cs) (cn_children n)\<rparr>"

definition remove_nodes :: "string bset \<Rightarrow> case_tree \<Rightarrow> case_tree" where
  "remove_nodes cs t = bm_map_values (drop_children cs) (fold bm_remove cs t)"

definition min_time :: "record_entry list \<Rightarrow> string" where
  "min_time es = (case es of [] \<Rightarrow> '''' | _ \<Rightarrow> Min (set (map re_time es)))"

definition max_time :: "record_entry list \<Rightarrow> string" where
  "max_time es = (case es of [] \<Rightarrow> '''' | _ \<Rightarrow> Max (set (map re_time es)))"

definition node_apply_records :: "record_entry list \<Rightarrow> string \<Rightarrow> case_node \<Rightarrow> case_node" where
  "node_apply_records es now n =
     (let n1 = (if es = [] then n
                else n\<lparr>cn_start_time := (if cn_record_count n = 0 \<or> min_time es < cn_start_time n
                                          then min_time es else cn_start_time n),
                       cn_end_time := (if cn_record_count n = 0 \<or> cn_end_time n < max_time es
                                        then max_time es else cn_end_time n),
                       cn_record_count := cn_record_count n + length es\<rparr>)
      in n1\<lparr>cn_updated_at := now\<rparr>)"

definition apply_records :: "string \<Rightarrow> record_entry list \<Rightarrow> string \<Rightarrow> case_tree \<Rightarrow> case_tree" where
  "apply_records c es now = bm_modify c (node_apply_records es now)"

definition node_set_summary :: "string \<Rightarrow> string \<Rightarrow> case_node \<Rightarrow> case_node" where
  "node_set_summary summary now n = n\<lparr>cn_summary := summary, cn_updated_at := now\<rparr>"

definition set_summary :: "string \<Rightarrow> string \<Rightarrow> string \<Rightarrow> case_tree \<Rightarrow> case_tree" where
  "set_summary c summary now = bm_modify c (node_set_summary summary now)"

text \<open>Decimal digits of a number, as \<open>format!\<close> prints it.\<close>

fun nat_digits :: "nat \<Rightarrow> string" where
  "nat_digits n = (if n < 10 then [char_of (48 + n)] else nat_digits (n div 10) @ [char_of (48 + n mod 10)])"

declare nat_digits.simps [simp del]

text \<open>
  The loop over the suffixes 2, 3, \<dots>: among more candidates than the tree has nodes one is
  free, so it ends within \<open>Suc (length t)\<close> rounds.
\<close>

fun free_suffix_loop :: "nat \<Rightarrow> case_tree \<Rightarrow> string \<Rightarrow> nat \<Rightarrow> string option" where
  "free_suffix_loop 0 t base suffix = None"
| "free_suffix_loop (Suc n) t base suffix =
     (let candidate = base @ ''-'' @ nat_digits suffix
      in if tree_contains t candidate then free_suffix_loop n t base (Suc suffix) else Some candidate)"

definition unique_role_case_name :: "case_tree \<Rightarrow> string \<Rightarrow> string option" where
  "unique_role_case_name t name =
     (let base = role_case_prefix @ name
      in if \<not> tree_contains t base then Some base
         else free_suffix_loop (Suc (length t)) t base 2)"

section \<open>Well-formed trees\<close>

definition links_agree :: "case_tree \<Rightarrow> bool" where
  "links_agree t \<longleftrightarrow>
     (\<forall>(c, n) \<in> set t.
        cn_case_name n = c \<and> distinct (cn_children n) \<and>
        (\<forall>d \<in> set (cn_children n). parent_of t d = Some c \<and> tree_contains t d) \<and>
        (\<forall>p. cn_parent_id n = Some p \<longrightarrow> (\<exists>q. bm_get t p = Some q \<and> c \<in> set (cn_children q))))"

definition no_cycle :: "case_tree \<Rightarrow> bool" where
  "no_cycle t \<longleftrightarrow> (\<forall>c \<in> fst ` set t. ancestors t c \<noteq> None)"

text \<open>Role cases hang below role cases; the other cases are leaves at the top.\<close>

definition modes_apart :: "case_tree \<Rightarrow> bool" where
  "modes_apart t \<longleftrightarrow>
     (\<forall>(c, n) \<in> set t.
        (is_role_case c \<longrightarrow> (\<forall>p. cn_parent_id n = Some p \<longrightarrow> is_role_case p)) \<and>
        (\<not> is_role_case c \<longrightarrow> cn_parent_id n = None \<and> cn_children n = []))"

definition tree_ok :: "case_tree \<Rightarrow> bool" where
  "tree_ok t \<longleftrightarrow> bm_ok t \<and> links_agree t \<and> no_cycle t \<and> modes_apart t"

end
