(* ===== verification/Struct_Records.thy ===== *)
theory Struct_Records
  imports Case_Tree
begin

text \<open>
  \<open>kissbot-memory-struct-abstract/src/records.rs\<close>: reading the shared record files of a
  memory suffix, deciding which channel a record belongs to, and the record copies a case
  keeps. The texts shown to the model use the JSON printer of \<open>serde_json\<close>, which is a
  parameter (\<open>printer\<close>); the Chinese literals are given by their UTF-8 bytes.
\<close>

section \<open>What an entry says of its channel\<close>

fun placeholder_key :: "content \<Rightarrow> string option" where
  "placeholder_key (Content_Think key) = Some key"
| "placeholder_key (Content_ToolCall key) = Some key"
| "placeholder_key (Content_ToolResult key) = Some key"
| "placeholder_key _ = None"

fun body_linked_key :: "record_body \<Rightarrow> string option" where
  "body_linked_key (Body_Channel r) = placeholder_key (cr_content r)"
| "body_linked_key (Body_Think r) = Some (tk_key r)"
| "body_linked_key (Body_ToolCall r) = Some (tc_key r)"
| "body_linked_key (Body_ToolResult r) = Some (tr_key r)"

definition linked_key :: "record_entry \<Rightarrow> string option" where
  "linked_key e = body_linked_key (re_body e)"

fun body_channel :: "record_body \<Rightarrow> channel_key option" where
  "body_channel (Body_Channel r) = Some (channel_key_of r)"
| "body_channel _ = None"

definition entry_channel :: "record_entry \<Rightarrow> channel_key option" where
  "entry_channel e = body_channel (re_body e)"

section \<open>Names of directories and files\<close>

definition strip_prefix :: "string \<Rightarrow> string \<Rightarrow> string option" where
  "strip_prefix p s = (if starts_with s p then Some (drop (length p) s) else None)"

definition strip_suffix :: "string \<Rightarrow> string \<Rightarrow> string option" where
  "strip_suffix p s = map_option rev (strip_prefix (rev p) (rev s))"

definition is_ascii_digit :: "char \<Rightarrow> bool" where
  "is_ascii_digit c \<longleftrightarrow> 48 \<le> (of_char c :: nat) \<and> (of_char c :: nat) \<le> 57"

text \<open>Slicing at a byte inside a character panics: such a byte is a continuation byte.\<close>

definition is_char_boundary :: "string \<Rightarrow> nat \<Rightarrow> bool" where
  "is_char_boundary s i \<longleftrightarrow>
     i = length s \<or> (i < length s \<and> \<not> (128 \<le> (of_char (s ! i) :: nat) \<and> (of_char (s ! i) :: nat) < 192))"

text \<open>The suffix of a year directory \<open>YYYY-suffix\<close>; any other directory is skipped.\<close>

definition year_dir_suffix :: "string \<Rightarrow> abs_error + string option" where
  "year_dir_suffix dir =
     (if length dir < 5 \<or> \<not> list_all is_ascii_digit (take 4 dir) then Inr None
      else if \<not> is_char_boundary dir 5 then Inl Panic
      else if take 1 (drop 4 dir) \<noteq> ''-'' then Inr None
      else Inr (Some (drop 5 dir)))"

definition file_date :: "record_kind \<Rightarrow> string \<Rightarrow> string option" where
  "file_date kind name =
     Option.bind (strip_prefix (file_stem kind @ ''-records-'') name) (strip_suffix ''.jsonl'')"

definition dir_files ::
  "record_kind \<Rightarrow> string \<Rightarrow> (string \<times> 'l) list \<Rightarrow> (string \<times> 'l) list" where
  "dir_files kind from_date files =
     List.map_filter (\<lambda>(name, ls).
       case file_date kind name of
         None \<Rightarrow> None
       | Some date \<Rightarrow> if date < from_date then None else Some (date, ls)) files"

fun collect_store_files ::
  "string \<Rightarrow> record_kind \<Rightarrow> string \<Rightarrow> (string \<times> (string \<times> 'l) list) list \<Rightarrow> abs_error + (string \<times> 'l) list" where
  "collect_store_files suffix kind from_date [] = Inr []"
| "collect_store_files suffix kind from_date ((dir, files) # dirs) =
     (case year_dir_suffix dir of
        Inl e \<Rightarrow> Inl e
      | Inr s \<Rightarrow>
          (case collect_store_files suffix kind from_date dirs of
             Inl e \<Rightarrow> Inl e
           | Inr rest \<Rightarrow> Inr ((if s = Some suffix then dir_files kind from_date files else []) @ rest)))"

definition list_store_files ::
  "string \<Rightarrow> string \<Rightarrow> record_kind \<Rightarrow> string \<Rightarrow> ('m, (string \<times> record_body file_line list) list) op" where
  "list_store_files agent suffix kind from_date =
     bind_act (read_st (\<lambda>w. w_store w agent)) (\<lambda>found.
       case found of
         None \<Rightarrow> ret []
       | Some dirs \<Rightarrow>
           bind_act io_step (\<lambda>_.
           bind_act (of_result (collect_store_files suffix kind from_date dirs)) (\<lambda>files.
           ret (sort_key fst files))))"

definition suffix_of_role :: "string \<Rightarrow> string \<Rightarrow> bool" where
  "suffix_of_role role suffix \<longleftrightarrow>
     suffix = role \<or>
     (case strip_prefix role suffix of Some rest \<Rightarrow> starts_with rest ''-'' | None \<Rightarrow> False)"

fun collect_suffixes :: "string \<Rightarrow> (string \<times> 'f) list \<Rightarrow> abs_error + string set" where
  "collect_suffixes role [] = Inr {}"
| "collect_suffixes role ((dir, files) # dirs) =
     (case year_dir_suffix dir of
        Inl e \<Rightarrow> Inl e
      | Inr s \<Rightarrow>
          (case collect_suffixes role dirs of
             Inl e \<Rightarrow> Inl e
           | Inr rest \<Rightarrow>
               Inr (case s of
                      Some suffix \<Rightarrow> if suffix_of_role role suffix then insert suffix rest else rest
                    | None \<Rightarrow> rest)))"

definition list_store_suffixes :: "string \<Rightarrow> string \<Rightarrow> ('m, string set) op" where
  "list_store_suffixes agent role =
     bind_act (read_st (\<lambda>w. w_store w agent)) (\<lambda>found.
       case found of
         None \<Rightarrow> ret {}
       | Some dirs \<Rightarrow> bind_act io_step (\<lambda>_. of_result (collect_suffixes role dirs)))"

section \<open>The view of the shared record files\<close>

record store_view =
  sv_records :: "record_entry list"
  sv_channels :: "channel_key option list"

definition entry_of_body :: "record_body \<Rightarrow> record_entry" where
  "entry_of_body b = \<lparr>re_kind = body_kind b, re_time = body_time b, re_sn = body_sn b, re_body = b\<rparr>"

text \<open>A line of a file of the given kind: lines that do not parse as such a record are skipped.\<close>

fun parse_entry :: "record_kind \<Rightarrow> record_body file_line \<Rightarrow> record_entry option" where
  "parse_entry kind (Rec b) = (if body_kind b = kind then Some (entry_of_body b) else None)"
| "parse_entry kind _ = None"

definition record_owners :: "record_entry list \<Rightarrow> (string, channel_key) hmap" where
  "record_owners records =
     fold (\<lambda>e m. case (linked_key e, entry_channel e) of
             (Some key, Some channel) \<Rightarrow> (if hm_get m key = None then hm_insert key channel m else m)
           | _ \<Rightarrow> m) records []"

definition attribute_entry :: "(string, channel_key) hmap \<Rightarrow> record_entry \<Rightarrow> channel_key option" where
  "attribute_entry owners e =
     (case re_kind e of
        Kind_Channel \<Rightarrow> entry_channel e
      | _ \<Rightarrow> Option.bind (linked_key e) (hm_get owners))"

definition attribute_channels :: "record_entry list \<Rightarrow> channel_key option list" where
  "attribute_channels records = map (attribute_entry (record_owners records)) records"

definition known_channels :: "store_view \<Rightarrow> channel_key bset" where
  "known_channels v = bs_collect (List.map_filter (\<lambda>c. c) (sv_channels v))"

definition after_watermark :: "watermark \<Rightarrow> record_entry \<Rightarrow> bool" where
  "after_watermark wm e \<longleftrightarrow> wm_point wm (re_kind e) < entry_key e"

definition pending_for :: "store_view \<Rightarrow> channel_key \<Rightarrow> watermark \<Rightarrow> record_entry list" where
  "pending_for v channel wm =
     map fst (filter (\<lambda>(e, of_channel). after_watermark wm e)
       (filter (\<lambda>(e, of_channel). of_channel = Some channel) (zip (sv_records v) (sv_channels v))))"

definition read_store_files ::
  "record_kind \<Rightarrow> (string \<times> record_body file_line list) list \<Rightarrow> ('m, record_entry list) op" where
  "read_store_files kind files =
     fold_act (\<lambda>(date, ls) es. bind_act io_step (\<lambda>_. ret (es @ List.map_filter (parse_entry kind) ls))) files []"

definition read_store_records :: "string \<Rightarrow> string \<Rightarrow> ('m, store_view) op" where
  "read_store_records agent suffix =
     bind_act
       (fold_act (\<lambda>kind es.
          bind_act (list_store_files agent suffix kind (take 10 watermark_zero_time)) (\<lambda>files.
          bind_act (read_store_files kind files) (\<lambda>new. ret (es @ new)))) all_kinds [])
       (\<lambda>es. let sorted_es = sort_key entry_key es
             in ret \<lparr>sv_records = sorted_es, sv_channels = attribute_channels sorted_es\<rparr>)"

section \<open>The record copies of a case\<close>

definition set_case_file ::
  "agent_role \<Rightarrow> string \<Rightarrow> record_kind \<Rightarrow> record_body file_line list option \<Rightarrow> 'm world \<Rightarrow> 'm world" where
  "set_case_file h c kind f w =
     w\<lparr>w_cases := (w_cases w)(h := (w_cases w h)(c := (w_cases w h c)(kind := f)))\<rparr>"

definition case_file_lines :: "'m world \<Rightarrow> agent_role \<Rightarrow> string \<Rightarrow> record_kind \<Rightarrow> record_body file_line list" where
  "case_file_lines w h c kind = (case w_cases w h c kind of Some ls \<Rightarrow> ls | None \<Rightarrow> [])"

definition append_kind ::
  "agent_role \<Rightarrow> string \<Rightarrow> record_entry list \<Rightarrow> record_kind \<Rightarrow> ('m, unit) op" where
  "append_kind h c entries kind =
     (let buffer = map (\<lambda>e. Rec (re_body e)) (filter (\<lambda>e. re_kind e = kind) entries)
      in if buffer = [] then ret ()
         else bind_act io_step (\<lambda>_.
              modify_st (\<lambda>w. set_case_file h c kind (Some (case_file_lines w h c kind @ buffer)) w)))"

definition append_case_records :: "agent_role \<Rightarrow> string \<Rightarrow> record_entry list \<Rightarrow> ('m, unit) op" where
  "append_case_records h c entries =
     (if entries = [] then ret ()
      else bind_act io_step (\<lambda>_. for_each all_kinds (append_kind h c entries)))"

text \<open>Cursor and tail.\<close>

definition is_after :: "case_cursor \<Rightarrow> case_record \<Rightarrow> bool" where
  "is_after after r \<longleftrightarrow>
     (if cc_time after < body_time r then True
      else if body_time r < cc_time after then False
      else body_kind r \<noteq> cc_record_type after \<or> cc_sn after < body_sn r)"

definition records_after :: "case_record list \<Rightarrow> case_cursor \<Rightarrow> case_record list" where
  "records_after records after = filter (is_after after) records"

definition records_tail :: "case_record list \<Rightarrow> nat \<Rightarrow> case_record list" where
  "records_tail records cnt = (let n = min cnt (length records) in drop (length records - n) records)"

fun parse_case_record :: "record_kind \<Rightarrow> record_body file_line \<Rightarrow> case_record option" where
  "parse_case_record kind (Rec b) = (if body_kind b = kind then Some b else None)"
| "parse_case_record kind _ = None"

definition read_case_kind :: "agent_role \<Rightarrow> string \<Rightarrow> record_kind \<Rightarrow> case_record list \<Rightarrow> ('m, case_record list) op" where
  "read_case_kind h c kind rs =
     bind_act (read_st (\<lambda>w. w_cases w h c kind)) (\<lambda>file.
       case file of
         None \<Rightarrow> ret rs
       | Some ls \<Rightarrow> bind_act io_step (\<lambda>_. ret (rs @ List.map_filter (parse_case_record kind) ls)))"

definition read_case_records :: "agent_role \<Rightarrow> string \<Rightarrow> ('m, case_record list) op" where
  "read_case_records h c =
     bind_act (fold_act (read_case_kind h c) all_kinds []) (\<lambda>rs. ret (sort_key body_sort_key rs))"

definition clear_case_records :: "agent_role \<Rightarrow> string \<Rightarrow> ('m, unit) op" where
  "clear_case_records h c =
     bind_act io_step (\<lambda>_. modify_st (\<lambda>w. w\<lparr>w_cases := (w_cases w)(h := (w_cases w h)(c := (\<lambda>_. None)))\<rparr>))"

section \<open>Texts for the model\<close>

record printer =
  pr_content :: "content \<Rightarrow> string option"
  pr_blocks :: "content_block list option \<Rightarrow> string option"
  pr_value :: "json \<Rightarrow> string"

definition utf8 :: "nat list \<Rightarrow> string" where
  "utf8 bs = map char_of bs"

definition newline :: string where
  "newline = [char_of (10 :: nat)]"

fun join :: "string \<Rightarrow> string list \<Rightarrow> string" where
  "join sep [] = []"
| "join sep [s] = s"
| "join sep (s # ss) = s @ sep @ join sep ss"

definition think_text :: "think_record \<Rightarrow> string" where
  "think_text r = (case tk_reasoning_content r of
      Some s \<Rightarrow> s
    | None \<Rightarrow> (case tk_thinking r of Some s \<Rightarrow> s | None \<Rightarrow> ''''))"

definition attachment_label :: string where
  "attachment_label = ''['' @ utf8 [233, 153, 132, 228, 187, 182] @ '' ''"

fun render_content :: "printer \<Rightarrow> content \<Rightarrow> string" where
  "render_content pr (Content_Text s) = s"
| "render_content pr (Content_Multi cs) = join newline (map (render_content pr) cs)"
| "render_content pr (Content_AttachmentInfo i) = attachment_label @ file_name i @ '']''"
| "render_content pr (Content_AttachmentInfoResponse r) =
     attachment_label @ file_name (att_info r) @ '' key='' @ att_key r @ '']''"
| "render_content pr other =
     (case pr_content pr other of
        Some s \<Rightarrow> s
      | None \<Rightarrow> ''['' @ utf8 [230, 156, 170, 231, 159, 165, 229, 134, 133, 229, 174, 185] @ '']'')"

definition think_label :: string where
  "think_label = ''('' @ utf8 [230, 128, 157, 232, 128, 131] @ '') ''"

definition tool_call_label :: string where
  "tool_call_label = ''('' @ utf8 [229, 183, 165, 229, 133, 183, 232, 176, 131, 231, 148, 168] @ '') ''"

definition tool_result_label :: string where
  "tool_result_label = ''('' @ utf8 [229, 183, 165, 229, 133, 183, 231, 187, 147, 230, 158, 156] @ '') ''"

definition time_label :: "string \<Rightarrow> string" where
  "time_label t = ''['' @ t @ ''] ''"

fun render_body :: "printer \<Rightarrow> record_body \<Rightarrow> string" where
  "render_body pr (Body_Channel r) = cr_user_name r @ '': '' @ render_content pr (cr_content r)"
| "render_body pr (Body_Think r) = think_label @ think_text r"
| "render_body pr (Body_ToolCall r) = tool_call_label @ tc_tool_name r @ '' '' @ pr_value pr (tc_tool_params r)"
| "render_body pr (Body_ToolResult r) =
     tool_result_label @ (case pr_blocks pr (tr_tool_result r) of Some s \<Rightarrow> s | None \<Rightarrow> '''')"

definition render_entry :: "printer \<Rightarrow> record_entry \<Rightarrow> string" where
  "render_entry pr e = time_label (re_time e) @ render_body pr (re_body e)"

definition render_case_record :: "printer \<Rightarrow> case_record \<Rightarrow> string" where
  "render_case_record pr r = time_label (body_time r) @ render_body pr r"

definition self_mark :: "nat \<Rightarrow> string" where
  "self_mark n = (if 0 < n then '' ('' @ utf8 [230, 156, 172, 228, 186, 186] @ '')'' else '''')"

text \<open>\<open>render_message\<close> of \<open>locate.rs\<close>.\<close>

definition render_message :: "printer \<Rightarrow> locate_message \<Rightarrow> string" where
  "render_message pr m =
     time_label (lm_time m) @ lm_user_name m @ '': '' @ render_content pr (lm_content m) @ self_mark (lm_is_self m)"

end
