(* ===== verification/Decision_Model.thy ===== *)
theory Decision_Model
  imports Struct_Records
begin

text \<open>
  \<open>kissbot-memory-struct-abstract/src/model.rs\<close> and \<open>stub_model.rs\<close>: the interface of
  the decision model, the parsing of its structured answers and the deterministic stub. The
  JSON parser of \<open>serde_json\<close> is a parameter. The interface is the record
  \<open>decision_model\<close>; what the archiver relies on is the locale \<open>grouping_model\<close>.
\<close>

section \<open>Answers of the model\<close>

record message_group =
  mg_messages :: "nat list"
  mg_is_current :: bool

datatype level_decision = LD_New string string | LD_Merge string

definition max_case_name_len :: nat where
  "max_case_name_len = 64"

definition is_ascii_alphanumeric :: "char \<Rightarrow> bool" where
  "is_ascii_alphanumeric c \<longleftrightarrow>
     (let n = (of_char c :: nat) in 48 \<le> n \<and> n \<le> 57 \<or> 65 \<le> n \<and> n \<le> 90 \<or> 97 \<le> n \<and> n \<le> 122)"

definition valid_case_name :: "string \<Rightarrow> bool" where
  "valid_case_name name \<longleftrightarrow>
     name \<noteq> [] \<and> length name \<le> max_case_name_len \<and>
     list_all (\<lambda>c. is_ascii_alphanumeric c \<or> c = CHR ''-'') name"

text \<open>The methods of the trait \<open>DecisionModel\<close>; \<open>'m\<close> is the state behind \<open>&self\<close>.\<close>

record 'm decision_model =
  dm_group :: "agent_role \<Rightarrow> string option \<Rightarrow> string \<Rightarrow> nat \<Rightarrow> case_brief option \<Rightarrow>
     ('m, abs_error, message_group list) action"
  dm_decide_level :: "agent_role \<Rightarrow> string option \<Rightarrow> string \<Rightarrow> case_brief list \<Rightarrow>
     ('m, abs_error, level_decision) action"
  dm_summarize :: "agent_role \<Rightarrow> string option \<Rightarrow> string \<Rightarrow> ('m, abs_error, string) action"

section \<open>White space and slices\<close>

text \<open>The UTF-8 bytes of the characters with the Unicode property \<open>White_Space\<close>.\<close>

definition white_space :: "string list" where
  "white_space = map utf8
     [[9], [10], [11], [12], [13], [32], [194, 133], [194, 160], [225, 154, 128],
      [226, 128, 128], [226, 128, 129], [226, 128, 130], [226, 128, 131], [226, 128, 132],
      [226, 128, 133], [226, 128, 134], [226, 128, 135], [226, 128, 136], [226, 128, 137],
      [226, 128, 138], [226, 128, 168], [226, 128, 169], [226, 128, 175], [226, 129, 159],
      [227, 128, 128]]"

fun strip_any :: "string list \<Rightarrow> string \<Rightarrow> string option" where
  "strip_any [] s = None"
| "strip_any (p # ps) s = (case strip_prefix p s of Some rest \<Rightarrow> Some rest | None \<Rightarrow> strip_any ps s)"

function strip_all :: "string list \<Rightarrow> string \<Rightarrow> string" where
  "strip_all ps s =
     (case strip_any ps s of
        None \<Rightarrow> s
      | Some rest \<Rightarrow> if length rest < length s then strip_all ps rest else s)"
  by pat_completeness auto

termination by (relation "measure (\<lambda>(ps, s). length s)") auto

declare strip_all.simps [simp del]

definition trim_start :: "string \<Rightarrow> string" where
  "trim_start s = strip_all white_space s"

definition trim_end :: "string \<Rightarrow> string" where
  "trim_end s = rev (strip_all (map rev white_space) (rev s))"

definition trim :: "string \<Rightarrow> string" where
  "trim s = trim_end (trim_start s)"

fun split_once :: "char \<Rightarrow> string \<Rightarrow> (string \<times> string) option" where
  "split_once c [] = None"
| "split_once c (d # s) = (if d = c then Some ([], s)
     else map_option (\<lambda>(a, b). (d # a, b)) (split_once c s))"

definition find_char :: "char \<Rightarrow> string \<Rightarrow> nat option" where
  "find_char c s = (if c \<in> set s then Some (length (takeWhile (\<lambda>d. d \<noteq> c) s)) else None)"

definition rfind_char :: "char \<Rightarrow> string \<Rightarrow> nat option" where
  "rfind_char c s = map_option (\<lambda>i. length s - Suc i) (find_char c (rev s))"

section \<open>Parsing the answers\<close>

definition extract_json :: "(string \<Rightarrow> json option) \<Rightarrow> string \<Rightarrow> abs_error + json" where
  "extract_json from_str text =
     (let trimmed = trim text;
          body = (case strip_prefix ''```'' trimmed of
                    Some rest0 \<Rightarrow>
                      (let rest = (case split_once (CHR 0x0A) rest0 of Some (_, b) \<Rightarrow> b | None \<Rightarrow> rest0)
                       in trim (case strip_suffix ''```'' (trim_end rest) of Some r \<Rightarrow> r | None \<Rightarrow> rest))
                  | None \<Rightarrow> trimmed)
      in case find_char (CHR ''{'') body of
           None \<Rightarrow> Inl (ModelApiError ''no JSON object'')
         | Some start \<Rightarrow>
             (case rfind_char (CHR ''}'') body of
                None \<Rightarrow> Inl (ModelApiError ''incomplete JSON'')
              | Some stop \<Rightarrow>
                  if stop < start then Inl (ModelApiError ''incomplete JSON'')
                  else (case from_str (take (Suc stop - start) (drop start body)) of
                          None \<Rightarrow> Inl (ModelApiError ''JSON does not parse'')
                        | Some v \<Rightarrow> Inr v)))"

text \<open>The indices of one group: integers below \<open>total\<close>, strictly ascending.\<close>

fun parse_indices :: "nat \<Rightarrow> json list \<Rightarrow> nat list \<Rightarrow> abs_error + nat list" where
  "parse_indices tot [] indices = Inr indices"
| "parse_indices tot (m # ms) indices =
     (case as_u64 m of
        None \<Rightarrow> Inl (ModelApiError ''not an integer index'')
      | Some v \<Rightarrow>
          if tot \<le> v then Inl (ModelApiError ''index out of range'')
          else if indices \<noteq> [] \<and> v \<le> last indices then Inl (ModelApiError ''not ascending'')
          else parse_indices tot ms (indices @ [v]))"

fun parse_group_list :: "nat \<Rightarrow> json list \<Rightarrow> nat \<Rightarrow> message_group list \<Rightarrow> abs_error + (message_group list \<times> nat)" where
  "parse_group_list tot [] next_expected parsed = Inr (parsed, next_expected)"
| "parse_group_list tot (grp # groups) next_expected parsed =
     (case Option.bind (json_get ''messages'' grp) as_array of
        None \<Rightarrow> Inl (ModelApiError ''messages missing'')
      | Some messages \<Rightarrow>
          (case parse_indices tot messages [] of
             Inl e \<Rightarrow> Inl e
           | Inr indices \<Rightarrow>
               if indices = [] then Inl (ModelApiError ''empty group'')
               else if hd indices \<noteq> next_expected then Inl (ModelApiError ''not covered'')
               else parse_group_list tot groups (last indices + 1)
                      (parsed @ [\<lparr>mg_messages = indices,
                        mg_is_current = (case Option.bind (json_get ''current'' grp) as_bool of
                           Some b \<Rightarrow> b | None \<Rightarrow> False)\<rparr>])))"

definition parse_groups :: "json \<Rightarrow> nat \<Rightarrow> abs_error + message_group list" where
  "parse_groups v tot =
     (case Option.bind (json_get ''groups'' v) as_array of
        None \<Rightarrow> Inl (ModelApiError ''groups missing'')
      | Some groups \<Rightarrow>
          if groups = [] then Inl (ModelApiError ''no groups'')
          else (case parse_group_list tot groups 0 [] of
                  Inl e \<Rightarrow> Inl e
                | Inr (parsed, next_expected) \<Rightarrow>
                    if next_expected \<noteq> tot then Inl (ModelApiError ''not covered'') else Inr parsed))"

definition parse_summary :: "json \<Rightarrow> abs_error + string" where
  "parse_summary v =
     (case Option.bind (json_get ''summary'' v) as_str of
        None \<Rightarrow> Inl (ModelApiError ''summary missing'')
      | Some s \<Rightarrow> if trim s = [] then Inl (ModelApiError ''summary missing'') else Inr (trim s))"

definition parse_level_decision :: "json \<Rightarrow> abs_error + level_decision" where
  "parse_level_decision v =
     (case Option.bind (json_get ''target'' v) as_str of
        None \<Rightarrow> Inl (ModelApiError ''bad target'')
      | Some target \<Rightarrow>
          if target = ''new'' then
            (case map_option trim (Option.bind (json_get ''name'' v) as_str) of
               None \<Rightarrow> Inl (ModelApiError ''bad name'')
             | Some name \<Rightarrow>
                 if \<not> valid_case_name name then Inl (ModelApiError ''bad name'')
                 else (case parse_summary v of Inl e \<Rightarrow> Inl e | Inr s \<Rightarrow> Inr (LD_New name s)))
          else if target = [] then Inl (ModelApiError ''bad target'')
          else Inr (LD_Merge target))"

section \<open>What a grouping promises\<close>

text \<open>
  The groups follow one another: each starts right after the last index of the one before, the
  first at 0, the last ends at the last item, and the indices of a group ascend. This is what
  the parser checks, and it is weaker than a partition of the items: nothing is said of the
  indices between the first and the last of a group.
\<close>

fun groups_chain :: "nat \<Rightarrow> message_group list \<Rightarrow> nat \<Rightarrow> bool" where
  "groups_chain start [] tot \<longleftrightarrow> start = tot"
| "groups_chain start (g # gs) tot \<longleftrightarrow>
     mg_messages g \<noteq> [] \<and> hd (mg_messages g) = start \<and> sorted_wrt (<) (mg_messages g) \<and>
     groups_chain (last (mg_messages g) + 1) gs tot"

text \<open>What the comment on \<open>parse_groups\<close> asks for: no index is left out.\<close>

definition covers_all :: "message_group list \<Rightarrow> nat \<Rightarrow> bool" where
  "covers_all gs tot \<longleftrightarrow> concat (map mg_messages gs) = [0..<tot]"

lemma ascending_le_last: "sorted_wrt (<) (xs :: nat list) \<Longrightarrow> x \<in> set xs \<Longrightarrow> x \<le> last xs"
  by (induction xs) (auto dest: less_imp_le)

lemma ascending_hd_le: "sorted_wrt (<) (xs :: nat list) \<Longrightarrow> x \<in> set xs \<Longrightarrow> hd xs \<le> x"
  by (cases xs) auto

lemma groups_chain_le: "groups_chain start gs tot \<Longrightarrow> start \<le> tot"
proof (induction gs arbitrary: start)
  case Nil
  then show ?case by simp
next
  case (Cons g gs)
  then have "hd (mg_messages g) \<le> last (mg_messages g)"
    by (intro ascending_hd_le) auto
  with Cons show ?case by fastforce
qed

lemma groups_chain_index:
  "groups_chain start gs tot \<Longrightarrow> g \<in> set gs \<Longrightarrow> i \<in> set (mg_messages g) \<Longrightarrow> start \<le> i \<and> i < tot"
proof (induction gs arbitrary: start)
  case Nil
  then show ?case by simp
next
  case (Cons g' gs)
  from Cons.prems(1) have asc: "sorted_wrt (<) (mg_messages g')" and hd: "hd (mg_messages g') = start"
    and rest: "groups_chain (last (mg_messages g') + 1) gs tot" and ne: "mg_messages g' \<noteq> []" by auto
  have "last (mg_messages g') \<in> set (mg_messages g')" using ne by simp
  from ascending_hd_le [OF asc this] hd have first: "start \<le> last (mg_messages g')" by simp
  show ?case
  proof (cases "g = g'")
    case True
    with Cons.prems(3) asc hd groups_chain_le [OF rest] ascending_le_last [OF asc, of i]
      ascending_hd_le [OF asc, of i] show ?thesis by auto
  next
    case False
    with Cons.prems have "g \<in> set gs" by simp
    from Cons.IH [OF rest this Cons.prems(3)] first show ?thesis by auto
  qed
qed

lemma groups_chain_distinct:
  "groups_chain start gs tot \<Longrightarrow>
   sorted_wrt (<) (concat (map mg_messages gs)) \<and> set (concat (map mg_messages gs)) \<subseteq> {start..<tot}"
proof (induction gs arbitrary: start)
  case Nil
  then show ?case by simp
next
  case (Cons g gs)
  let ?rest = "concat (map mg_messages gs)"
  from Cons.prems have asc: "sorted_wrt (<) (mg_messages g)" and hd: "hd (mg_messages g) = start"
    and chain: "groups_chain (last (mg_messages g) + 1) gs tot" by auto
  have rest: "sorted_wrt (<) ?rest \<and> set ?rest \<subseteq> {last (mg_messages g) + 1..<tot}"
    by (rule Cons.IH [OF chain])
  have "x \<in> {start..<tot}" if "x \<in> set (mg_messages g)" for x
    using groups_chain_index [OF Cons.prems, of g x] that by simp
  moreover have "x < y" if "x \<in> set (mg_messages g)" "y \<in> set ?rest" for x y
    using ascending_le_last [OF asc that(1)] rest that(2) by fastforce
  moreover have "start \<le> last (mg_messages g) + 1"
    using Cons.prems ascending_hd_le [OF asc, of "last (mg_messages g)"] hd by auto
  ultimately show ?case using asc rest by (auto simp: sorted_wrt_append)
qed

locale grouping_model =
  fixes ask :: "agent_role \<Rightarrow> string option \<Rightarrow> string \<Rightarrow> nat \<Rightarrow> case_brief option \<Rightarrow>
     ('m, abs_error, message_group list) action"
  assumes group_chain: "ask h e batch tot current m = (Inr gs, m') \<Longrightarrow> 0 < tot \<Longrightarrow> groups_chain 0 gs tot"
begin

lemma group_index:
  assumes "ask h e batch tot current m = (Inr gs, m')" and "0 < tot" and "g \<in> set gs" and "i \<in> set (mg_messages g)"
  shows "i < tot"
  using groups_chain_index [OF group_chain [OF assms(1,2)] assms(3,4)] by simp

lemma group_disjoint:
  assumes "ask h e batch tot current m = (Inr gs, m')" and "0 < tot"
  shows "distinct (concat (map mg_messages gs))"
  using groups_chain_distinct [OF group_chain [OF assms]] by (simp add: strict_sorted_iff)

lemma group_nonempty:
  assumes "ask h e batch tot current m = (Inr gs, m')" and "0 < tot"
  shows "gs \<noteq> [] \<and> (\<forall>g\<in>set gs. mg_messages g \<noteq> [])"
proof -
  have "groups_chain s gs tot \<Longrightarrow> \<forall>g\<in>set gs. mg_messages g \<noteq> []" for s
    by (induction gs arbitrary: s) auto
  with group_chain [OF assms] assms(2) show ?thesis by (cases gs) auto
qed

end

text \<open>The whole interface: besides, no method panics or runs forever.\<close>

definition errs_normally :: "('s, abs_error, 'a) action \<Rightarrow> bool" where
  "errs_normally m \<longleftrightarrow> (\<forall>s e s'. m s = (Inl e, s') \<longrightarrow> \<not> abnormal e)"

locale decision_interface = grouping_model "dm_group dm" for dm :: "'m decision_model" +
  assumes group_normal: "errs_normally (dm_group dm h e batch tot current)"
    and level_normal: "errs_normally (dm_decide_level dm h e text level)"
    and summarize_normal: "errs_normally (dm_summarize dm h e text)"

section \<open>The stub\<close>

record stub_model = sm_summary_count :: nat

definition stub_summary_prefix :: string where
  "stub_summary_prefix = utf8 [230, 161, 169, 230, 145, 152, 232, 166, 129]"

definition stub_group ::
  "agent_role \<Rightarrow> string option \<Rightarrow> string \<Rightarrow> nat \<Rightarrow> case_brief option \<Rightarrow> (stub_model, abs_error, message_group list) action" where
  "stub_group h e batch tot current = ret [\<lparr>mg_messages = [0..<tot], mg_is_current = (current \<noteq> None)\<rparr>]"

definition stub_decide_level ::
  "agent_role \<Rightarrow> string option \<Rightarrow> string \<Rightarrow> case_brief list \<Rightarrow> (stub_model, abs_error, level_decision) action" where
  "stub_decide_level h e batch level = ret (LD_New ''case'' stub_summary_prefix)"

definition stub_summarize :: "agent_role \<Rightarrow> string option \<Rightarrow> string \<Rightarrow> (stub_model, abs_error, string) action" where
  "stub_summarize h e content m =
     (let n = sm_summary_count m + 1
      in (Inr (stub_summary_prefix @ nat_digits n), m\<lparr>sm_summary_count := n\<rparr>))"

definition stub_decision_model :: "stub_model decision_model" where
  "stub_decision_model =
     \<lparr>dm_group = stub_group, dm_decide_level = stub_decide_level, dm_summarize = stub_summarize\<rparr>"

section \<open>The parser keeps the promise\<close>

lemma parse_indices_Inr:
  "parse_indices tot ms indices = Inr out \<Longrightarrow> sorted_wrt (<) indices \<Longrightarrow> \<forall>i\<in>set indices. i < tot \<Longrightarrow>
   sorted_wrt (<) out \<and> (\<forall>i\<in>set out. i < tot) \<and> length out = length indices + length ms"
proof (induction tot ms indices rule: parse_indices.induct)
  case (1 tot indices)
  then show ?case by simp
next
  case (2 tot m ms indices)
  from "2.prems"(1) obtain v where v: "as_u64 m = Some v" "v < tot"
      "indices = [] \<or> last indices < v" "parse_indices tot ms (indices @ [v]) = Inr out"
    by (auto split: option.splits if_splits)
  have "sorted_wrt (<) (indices @ [v])"
    using "2.prems"(2) v(3) ascending_le_last by (fastforce simp: sorted_wrt_append)
  moreover have "\<forall>i\<in>set (indices @ [v]). i < tot" using "2.prems"(3) v(2) by auto
  ultimately show ?case using "2.IH" [OF v(1)] v by auto
qed

lemma parse_group_list_Inr:
  "parse_group_list tot groups start acc = Inr (parsed, stop) \<Longrightarrow>
   \<exists>gs. parsed = acc @ gs \<and> groups_chain start gs stop \<and> length gs = length groups"
proof (induction tot groups start acc rule: parse_group_list.induct)
  case (1 tot start acc)
  then show ?case by simp
next
  case (2 tot grp groups start acc)
  from "2.prems" obtain messages indices where
      m: "Option.bind (json_get ''messages'' grp) as_array = Some messages"
      and i: "parse_indices tot messages [] = Inr indices" "indices \<noteq> []" "hd indices = start"
      and rest: "parse_group_list tot groups (last indices + 1)
                      (acc @ [\<lparr>mg_messages = indices,
                        mg_is_current = (case Option.bind (json_get ''current'' grp) as_bool of
                           Some b \<Rightarrow> b | None \<Rightarrow> False)\<rparr>]) = Inr (parsed, stop)"
    by (auto split: option.splits sum.splits if_splits)
  from "2.IH" [OF m i(1) i(2)] i(3) rest obtain gs where
    "parsed = (acc @ [\<lparr>mg_messages = indices,
                        mg_is_current = (case Option.bind (json_get ''current'' grp) as_bool of
                           Some b \<Rightarrow> b | None \<Rightarrow> False)\<rparr>]) @ gs"
    "groups_chain (last indices + 1) gs stop" "length gs = length groups" by blast
  with i parse_indices_Inr [OF i(1)] show ?case by auto
qed

lemma parse_groups_chain: "parse_groups v tot = Inr gs \<Longrightarrow> groups_chain 0 gs tot \<and> gs \<noteq> []"
  by (auto simp: parse_groups_def split: option.splits if_splits sum.splits dest!: parse_group_list_Inr)

lemma groups_chain_Cons_le: "groups_chain start (g # gs) tot \<Longrightarrow> start \<le> last (mg_messages g) \<and> last (mg_messages g) < tot"
  using groups_chain_index [of start "g # gs" tot g "last (mg_messages g)"] by auto

lemma groups_chain_covers:
  assumes "groups_chain start gs tot"
    and "\<forall>g\<in>set gs. mg_messages g = [hd (mg_messages g)..<Suc (last (mg_messages g))]"
  shows "concat (map mg_messages gs) = [start..<tot]"
  using assms
proof (induction gs arbitrary: start)
  case Nil
  then show ?case by simp
next
  case (Cons g gs)
  let ?l = "last (mg_messages g)"
  from Cons.prems have "groups_chain (Suc ?l) gs tot" and "hd (mg_messages g) = start" by auto
  then have "concat (map mg_messages gs) = [Suc ?l..<tot]" and "mg_messages g = [start..<Suc ?l]"
    using Cons.IH Cons.prems(2) by (simp, metis list.set_intros(1))
  moreover have "[start..<tot] = [start..<Suc ?l] @ [Suc ?l..<tot]"
    using groups_chain_Cons_le [OF Cons.prems(1)]
    by (metis Suc_leI le_SucI upt_add_eq_append le_add_diff_inverse)
  ultimately show ?case by (metis concat.simps(2) list.simps(9))
qed

text \<open>The stub answers one group with every index; its promise is the full one.\<close>

lemma stub_group_run: "stub_group h e batch tot current m = (Inr gs, m') \<longleftrightarrow>
    gs = [\<lparr>mg_messages = [0..<tot], mg_is_current = (current \<noteq> None)\<rparr>] \<and> m' = m"
  by (auto simp: stub_group_def)

interpretation stub: decision_interface stub_decision_model
proof unfold_locales
  fix h e batch and tot :: nat and current m gs m'
  assume "dm_group stub_decision_model h e batch tot current m = (Inr gs, m')" and "0 < tot"
  then show "groups_chain 0 gs tot" by (auto simp: stub_decision_model_def stub_group_run)
qed (auto simp: errs_normally_def stub_decision_model_def stub_group_def stub_decide_level_def stub_summarize_def Let_def)

end
