(* ===== verification/Agent_Role.thy ===== *)
theory Agent_Role
  imports Struct_Records
begin

text \<open>
  \<open>kissbot-memory-struct-abstract/src/agent_role.rs\<close>: the state a role keeps in memory, the
  three state files it is saved to and loaded from, and the table of opened roles. The state of
  the role that is being worked on is \<open>w_state\<close>; \<open>locked\<close> brings it there and back,
  as the mutex of the handle does.
\<close>

section \<open>The state of a role\<close>

definition mark_channel :: "role_event \<Rightarrow> channel_key \<Rightarrow> role_state \<Rightarrow> role_state" where
  "mark_channel e c st = st\<lparr>rs_dirty_channels := insert (e, c) (rs_dirty_channels st)\<rparr>"

definition mark_role_event :: "role_event \<Rightarrow> role_state \<Rightarrow> role_state" where
  "mark_role_event e st = st\<lparr>rs_dirty_suffixes := insert (role_event_suffix e) (rs_dirty_suffixes st)\<rparr>"

definition is_dirty :: "role_event \<Rightarrow> role_state \<Rightarrow> bool" where
  "is_dirty e st \<longleftrightarrow> role_event_suffix e \<in> rs_dirty_suffixes st \<or> e \<in> fst ` rs_dirty_channels st"

definition dirty_channels_of :: "role_event \<Rightarrow> role_state \<Rightarrow> channel_key set" where
  "dirty_channels_of e st = snd ` Set.filter (\<lambda>(e', c). e' = e) (rs_dirty_channels st)"

definition clear_dirty :: "role_event \<Rightarrow> channel_key set \<Rightarrow> role_state \<Rightarrow> role_state" where
  "clear_dirty e processed st =
     st\<lparr>rs_dirty_suffixes := rs_dirty_suffixes st - {role_event_suffix e},
        rs_dirty_channels := Set.filter (\<lambda>(e', c). e' \<noteq> e \<or> c \<notin> processed) (rs_dirty_channels st)\<rparr>"

text \<open>The flag says that this call is the first one for the suffix.\<close>

definition take_unloaded :: "role_event \<Rightarrow> role_state \<Rightarrow> bool \<times> role_state" where
  "take_unloaded e st = (e \<notin> rs_loaded st, st\<lparr>rs_loaded := insert e (rs_loaded st)\<rparr>)"

definition current_of :: "role_event \<Rightarrow> role_state \<Rightarrow> (channel_key, string) bmap" where
  "current_of e st =
     bm_collect (map (\<lambda>((e', c), name). (c, name)) (filter (\<lambda>((e', c), name). e' = e) (rs_current_cases st)))"

definition watermarks_of :: "role_event \<Rightarrow> role_state \<Rightarrow> (channel_key, watermark) bmap" where
  "watermarks_of e st =
     bm_collect (map (\<lambda>((e', c), wm). (c, wm)) (filter (\<lambda>((e', c), wm). e' = e) (rs_watermarks st)))"

definition current_case :: "role_event \<Rightarrow> channel_key \<Rightarrow> role_state \<Rightarrow> string option" where
  "current_case e c st = bm_get (rs_current_cases st) (e, c)"

definition watermark_of :: "role_event \<Rightarrow> channel_key \<Rightarrow> role_state \<Rightarrow> watermark" where
  "watermark_of e c st = (case bm_get (rs_watermarks st) (e, c) of Some wm \<Rightarrow> wm | None \<Rightarrow> default_watermark)"

definition clear_role_event :: "role_event \<Rightarrow> role_state \<Rightarrow> role_state" where
  "clear_role_event e st =
     st\<lparr>rs_current_cases := bm_retain (\<lambda>(e', c) _. e' \<noteq> e) (rs_current_cases st),
        rs_watermarks := bm_retain (\<lambda>(e', c) _. e' \<noteq> e) (rs_watermarks st)\<rparr>"

section \<open>Session identifiers\<close>

text \<open>
  One character of the result for one character of the suffix: continuation bytes of UTF-8 are
  dropped, so that each character beyond ASCII becomes one underscore.
\<close>

definition session_char :: "char \<Rightarrow> char" where
  "session_char c =
     (if is_ascii_digit c \<or> (65 \<le> (of_char c :: nat) \<and> (of_char c :: nat) \<le> 90) \<or>
         (97 \<le> (of_char c :: nat) \<and> (of_char c :: nat) \<le> 122) \<or>
         c = CHR ''-'' \<or> c = CHR ''_'' \<or> c = CHR ''.''
      then c else CHR ''_'')"

definition is_continuation :: "char \<Rightarrow> bool" where
  "is_continuation c \<longleftrightarrow> 128 \<le> (of_char c :: nat) \<and> (of_char c :: nat) < 192"

definition session_id :: "role_event \<Rightarrow> string" where
  "session_id e =
     (let sid = map session_char (filter (\<lambda>c. \<not> is_continuation c) (role_event_suffix e))
      in if sid = [] then ''_default'' else sid)"

section \<open>State files\<close>

text \<open>\<open>write_json\<close>: create the directory, write a temporary file, rename it.\<close>

definition write_json :: "('m world \<Rightarrow> 'm world) \<Rightarrow> ('m, unit) op" where
  "write_json f =
     bind_act io_step (\<lambda>_. bind_act io_step (\<lambda>_. bind_act io_step (\<lambda>_. modify_st f)))"

definition remove_file :: "('m world \<Rightarrow> 'm world) \<Rightarrow> ('m, unit) op" where
  "remove_file f = bind_act io_step (\<lambda>_. modify_st f)"

definition read_json :: "('m world \<Rightarrow> 'a json_file option) \<Rightarrow> ('m, 'a option) op" where
  "read_json f =
     bind_act io_step (\<lambda>_.
     bind_act (read_st f) (\<lambda>found.
       case found of
         None \<Rightarrow> ret None
       | Some Damaged \<Rightarrow> fail (StateError ''damaged state file'')
       | Some (Json_File v) \<Rightarrow> ret (Some v)))"

definition tree_file :: "case_tree \<Rightarrow> case_node list" where
  "tree_file t = map snd (bm_collect (map (\<lambda>n. (cn_case_name n, n)) (tree_nodes t)))"

definition save_tree :: "agent_role \<Rightarrow> case_tree \<Rightarrow> ('m, unit) op" where
  "save_tree h t = write_json (\<lambda>w. w\<lparr>w_trees := hm_insert h (Json_File (tree_file t)) (w_trees w)\<rparr>)"

definition event_dir :: "agent_role \<Rightarrow> role_event \<Rightarrow> string \<times> string" where
  "event_dir h e = (ar_agent_id h, role_event_suffix e)"

definition save_current :: "agent_role \<Rightarrow> role_event \<Rightarrow> (channel_key, string) bmap \<Rightarrow> ('m, unit) op" where
  "save_current h e current =
     (if current = [] then remove_file (\<lambda>w. w\<lparr>w_currents := (w_currents w)(event_dir h e := None)\<rparr>)
      else write_json (\<lambda>w. w\<lparr>w_currents := (w_currents w)(event_dir h e := Some (Json_File current))\<rparr>))"

definition save_watermark :: "agent_role \<Rightarrow> role_event \<Rightarrow> (channel_key, watermark) bmap \<Rightarrow> ('m, unit) op" where
  "save_watermark h e wms =
     write_json (\<lambda>w. w\<lparr>w_marks := (w_marks w)(event_dir h e := Some (Json_File wms))\<rparr>)"

definition save_state :: "agent_role \<Rightarrow> role_event \<Rightarrow> ('m, unit) op" where
  "save_state h e =
     bind_act get_state (\<lambda>st.
     bind_act (save_tree h (rs_tree st)) (\<lambda>_.
     bind_act (save_current h e (current_of e st)) (\<lambda>_.
     save_watermark h e (watermarks_of e st))))"

definition load_pointers :: "role_event \<Rightarrow> (channel_key \<times> 'v) list \<Rightarrow> (role_event_channel, 'v) bmap \<Rightarrow> (role_event_channel, 'v) bmap" where
  "load_pointers e entries m = fold (\<lambda>(c, v). bm_insert (e, c) v) entries m"

definition modify_state :: "(role_state \<Rightarrow> role_state) \<Rightarrow> ('m, unit) op" where
  "modify_state f = modify_st (\<lambda>w. w\<lparr>w_state := f (w_state w)\<rparr>)"

definition or_empty :: "'a list option \<Rightarrow> 'a list" where
  "or_empty found = (case found of Some xs \<Rightarrow> xs | None \<Rightarrow> [])"

definition ensure_role_event :: "agent_role \<Rightarrow> role_event \<Rightarrow> ('m, unit) op" where
  "ensure_role_event h e =
     bind_act get_state (\<lambda>st.
     bind_act (put_state (snd (take_unloaded e st))) (\<lambda>_.
       if \<not> fst (take_unloaded e st) then ret ()
       else
         bind_act (read_json (\<lambda>w. w_currents w (event_dir h e))) (\<lambda>current.
         bind_act (modify_state (\<lambda>st. st\<lparr>rs_current_cases := load_pointers e (or_empty current) (rs_current_cases st)\<rparr>)) (\<lambda>_.
         bind_act (read_json (\<lambda>w. w_marks w (event_dir h e))) (\<lambda>wms.
         modify_state (\<lambda>st. st\<lparr>rs_watermarks := load_pointers e (or_empty wms) (rs_watermarks st)\<rparr>))))))"

definition reset_role_event_state :: "agent_role \<Rightarrow> role_event \<Rightarrow> ('m, unit) op" where
  "reset_role_event_state h e =
     bind_act (remove_file (\<lambda>w. w\<lparr>w_currents := (w_currents w)(event_dir h e := None)\<rparr>)) (\<lambda>_.
     remove_file (\<lambda>w. w\<lparr>w_marks := (w_marks w)(event_dir h e := None)\<rparr>))"

definition reset_case_records :: "agent_role \<Rightarrow> string \<Rightarrow> ('m, unit) op" where
  "reset_case_records h c = clear_case_records h c"

section \<open>The table of roles\<close>

definition load_role :: "agent_role \<Rightarrow> ('m, role_state) op" where
  "load_role h =
     bind_act (read_json (\<lambda>w. hm_get (w_trees w) h)) (\<lambda>nodes.
     bind_act (list_store_suffixes (ar_agent_id h) (ar_role h)) (\<lambda>suffixes.
     ret (empty_role_state\<lparr>rs_tree := (case nodes of Some ns \<Rightarrow> tree_from_nodes ns | None \<Rightarrow> []),
                           rs_dirty_suffixes := suffixes\<rparr>)))"

definition open_role :: "agent_role \<Rightarrow> ('m, unit) op" where
  "open_role h =
     bind_act (read_st (\<lambda>w. hm_get (w_roles w) h)) (\<lambda>found.
       case found of
         Some st \<Rightarrow> ret ()
       | None \<Rightarrow>
           bind_act (load_role h) (\<lambda>st.
           modify_st (\<lambda>w. w\<lparr>w_roles := hm_insert h st (w_roles w)\<rparr>)))"

definition locked :: "agent_role \<Rightarrow> ('m, 'a) op \<Rightarrow> ('m, 'a) op" where
  "locked h m w =
     (let st = (case hm_get (w_roles w) h of Some st \<Rightarrow> st | None \<Rightarrow> empty_role_state)
      in case m (w\<lparr>w_state := st\<rparr>) of
           (r, w') \<Rightarrow> (r, w'\<lparr>w_roles := hm_insert h (w_state w') (w_roles w'), w_state := w_state w\<rparr>))"

text \<open>
  \<open>load_all\<close>: a directory that cannot be listed below an agent is skipped; the roles of an
  agent are those with a \<open>tree.json\<close>.
\<close>

definition agent_roles :: "'m world \<Rightarrow> string \<Rightarrow> agent_role list" where
  "agent_roles w agent = filter (\<lambda>h. ar_agent_id h = agent) (map fst (w_trees w))"

definition io_skip :: "('m, bool) op" where
  "io_skip w = (case io_step w of (Inl _, w') \<Rightarrow> (Inr False, w') | (Inr _, w') \<Rightarrow> (Inr True, w'))"

definition load_agent :: "string \<Rightarrow> agent_role list \<Rightarrow> ('m, agent_role list) op" where
  "load_agent agent handles =
     bind_act io_skip (\<lambda>listed.
       if \<not> listed then ret handles
       else bind_act (read_st (\<lambda>w. agent_roles w agent)) (\<lambda>hs.
            fold_act (\<lambda>h acc. bind_act (open_role h) (\<lambda>_. ret (if h \<in> set acc then acc else acc @ [h]))) hs handles))"

definition load_all :: "('m, agent_role list) op" where
  "load_all =
     bind_act io_step (\<lambda>_.
     bind_act (read_st (\<lambda>w. remdups (map (\<lambda>(h, _). ar_agent_id h) (w_trees w)))) (\<lambda>agents.
     bind_act (fold_act load_agent agents []) (\<lambda>handles.
     ret (sort_key role_order handles))))"

definition loaded_roles :: "'m world \<Rightarrow> agent_role list" where
  "loaded_roles w = sort_key role_order (map fst (w_roles w))"

end
