(* ===== verification/Case_Tree_Inv.thy ===== *)
theory Case_Tree_Inv
  imports Case_Tree
begin

text \<open>
  The case tree keeps its invariant. The chain of ancestors of a node is characterised first:
  it is unique, repeats no name and fits in the fuel of \<open>ancestors\<close>, so running out of fuel
  means that the loop of the code does not end.
\<close>

section \<open>Lookups after the operations\<close>

lemma parent_of_simps:
  "parent_of t c = Some p \<longleftrightarrow> (\<exists>n. bm_get t c = Some n \<and> cn_parent_id n = Some p)"
  by (auto simp: parent_of_def split: option.splits)

lemma tree_contains_set: "tree_contains t c \<longleftrightarrow> c \<in> fst ` set t"
  by (simp add: tree_contains_def map_of_eq_None_iff)

lemma get_create_node:
  "bm_get (create_node c parent now t) d =
     (if d = c then Some (new_node c parent now)
      else if parent = Some d then map_option (push_child c) (bm_get t d) else bm_get t d)"
  by (cases parent) (auto simp: create_node_def bm_get_modify)

lemma contains_create_node [simp]:
  "tree_contains (create_node c parent now t) d \<longleftrightarrow> d = c \<or> tree_contains t d"
  by (auto simp: tree_contains_def get_create_node)

lemma parent_of_create_node [simp]:
  "parent_of (create_node c parent now t) d = (if d = c then parent else parent_of t d)"
  by (auto simp: parent_of_def get_create_node new_node_def push_child_def split: option.splits)

lemma get_set_summary:
  "bm_get (set_summary c s now t) d =
     (if d = c then map_option (node_set_summary s now) (bm_get t c) else bm_get t d)"
  by (simp add: set_summary_def bm_get_modify)

lemma get_apply_records:
  "bm_get (apply_records c es now t) d =
     (if d = c then map_option (node_apply_records es now) (bm_get t c) else bm_get t d)"
  by (simp add: apply_records_def bm_get_modify)

lemma bm_get_fold_remove: "bm_get (fold bm_remove cs t) d = (if d \<in> set cs then None else bm_get t d)"
  by (induction cs arbitrary: t) auto

lemma get_remove_nodes:
  "bm_get (remove_nodes cs t) d =
     (if d \<in> set cs then None else map_option (drop_children cs) (bm_get t d))"
  by (simp add: remove_nodes_def bm_get_fold_remove)

lemma contains_remove_nodes [simp]:
  "tree_contains (remove_nodes cs t) d \<longleftrightarrow> d \<notin> set cs \<and> tree_contains t d"
  by (simp add: tree_contains_def get_remove_nodes)

lemma parent_of_remove_nodes [simp]:
  "parent_of (remove_nodes cs t) d = (if d \<in> set cs then None else parent_of t d)"
  by (auto simp: parent_of_def get_remove_nodes drop_children_def split: option.splits)

lemma node_apply_records_links [simp]:
  "cn_case_name (node_apply_records es now n) = cn_case_name n"
  "cn_parent_id (node_apply_records es now n) = cn_parent_id n"
  "cn_children (node_apply_records es now n) = cn_children n"
  "cn_summary (node_apply_records es now n) = cn_summary n"
  "cn_record_count (node_apply_records es now n) = cn_record_count n + length es"
  by (auto simp: node_apply_records_def Let_def)

lemma node_set_summary_links [simp]:
  "cn_case_name (node_set_summary s now n) = cn_case_name n"
  "cn_parent_id (node_set_summary s now n) = cn_parent_id n"
  "cn_children (node_set_summary s now n) = cn_children n"
  "cn_summary (node_set_summary s now n) = s"
  "cn_record_count (node_set_summary s now n) = cn_record_count n"
  by (auto simp: node_set_summary_def)

section \<open>Chains of ancestors\<close>

lemma ancestors_loop_Some_iff:
  "ancestors_loop n t (Some p) = Some xs \<longleftrightarrow>
     (\<exists>m ys. n = Suc m \<and> xs = p # ys \<and> ancestors_loop m t (parent_of t p) = Some ys)"
  by (cases n) auto

lemma ancestors_loop_Cons:
  "ancestors_loop n t x = Some (y # ys) \<Longrightarrow>
     x = Some y \<and> (\<exists>m. n = Suc m \<and> ancestors_loop m t (parent_of t y) = Some ys)"
  by (cases x) (auto simp: ancestors_loop_Some_iff)

lemma ancestors_loop_Nil: "ancestors_loop n t x = Some [] \<longleftrightarrow> x = None"
  by (cases x) (auto simp: ancestors_loop_Some_iff)

lemma ancestors_loop_det:
  "ancestors_loop n t x = Some xs \<Longrightarrow> ancestors_loop m t x = Some ys \<Longrightarrow> xs = ys"
proof (induction xs arbitrary: n m x ys)
  case Nil
  then show ?case by (auto simp: ancestors_loop_Nil)
next
  case (Cons p xs)
  from ancestors_loop_Cons [OF Cons.prems(1)] obtain n'
    where x: "x = Some p" and 1: "ancestors_loop n' t (parent_of t p) = Some xs" by blast
  from Cons.prems(2) x obtain m' zs where "ys = p # zs" "ancestors_loop m' t (parent_of t p) = Some zs"
    by (auto simp: ancestors_loop_Some_iff)
  with Cons.IH [OF 1] show ?case by simp
qed

lemma ancestors_loop_enough:
  "ancestors_loop n t x = Some xs \<Longrightarrow> length xs \<le> m \<Longrightarrow> ancestors_loop m t x = Some xs"
proof (induction xs arbitrary: n m x)
  case Nil
  then show ?case by (simp add: ancestors_loop_Nil)
next
  case (Cons p xs)
  from ancestors_loop_Cons [OF Cons.prems(1)] obtain n'
    where x: "x = Some p" and 1: "ancestors_loop n' t (parent_of t p) = Some xs" by blast
  from Cons.prems(2) obtain m' where "m = Suc m'" "length xs \<le> m'" by (cases m) auto
  with Cons.IH [OF 1] x show ?case by simp
qed

lemma ancestors_loop_length: "ancestors_loop n t x = Some xs \<Longrightarrow> length xs \<le> n"
  by (induction n t x arbitrary: xs rule: ancestors_loop.induct) auto

lemma ancestors_loop_suffix:
  "ancestors_loop n t x = Some (as @ c # bs) \<Longrightarrow> \<exists>m. ancestors_loop m t (parent_of t c) = Some bs"
proof (induction as arbitrary: n x)
  case Nil
  then show ?case by (auto dest: ancestors_loop_Cons)
next
  case (Cons a as)
  from ancestors_loop_Cons [OF Cons.prems [simplified]] Cons.IH show ?case by blast
qed

lemma ancestors_loop_distinct:
  assumes "ancestors_loop n t x = Some xs"
  shows "distinct xs"
proof (rule ccontr)
  assume "\<not> distinct xs"
  then obtain as c bs cs where xs: "xs = as @ [c] @ bs @ [c] @ cs"
    using not_distinct_decomp by blast
  with assms have 1: "ancestors_loop n t x = Some (as @ c # (bs @ c # cs))"
    and 2: "ancestors_loop n t x = Some ((as @ c # bs) @ c # cs)" by simp_all
  from ancestors_loop_suffix [OF 1] ancestors_loop_suffix [OF 2] ancestors_loop_det
  have "bs @ c # cs = cs" by blast
  then have "length (bs @ c # cs) = length cs" by (rule arg_cong)
  then show False by simp
qed

lemma ancestors_loop_members:
  "ancestors_loop n t x = Some xs \<Longrightarrow> \<forall>c \<in> set (butlast xs). tree_contains t c"
proof (induction xs arbitrary: n x)
  case Nil
  then show ?case by simp
next
  case (Cons p ys)
  from ancestors_loop_Cons [OF Cons.prems] obtain m
    where m: "ancestors_loop m t (parent_of t p) = Some ys" by blast
  show ?case
  proof (cases "ys = []")
    case False
    with m have "parent_of t p \<noteq> None" by (metis ancestors_loop.simps(1) option.inject)
    then have "tree_contains t p" by (auto simp: parent_of_def tree_contains_def split: option.splits)
    with Cons.IH [OF m] False show ?thesis by simp
  qed simp
qed

lemma ancestors_loop_short:
  assumes "ancestors_loop n t x = Some xs"
  shows "length xs \<le> Suc (length t)"
proof -
  have "distinct (butlast xs)"
    using ancestors_loop_distinct [OF assms] by (rule distinct_butlast)
  moreover have "set (butlast xs) \<subseteq> fst ` set t"
    using ancestors_loop_members [OF assms] by (auto simp: tree_contains_set)
  ultimately have "length (butlast xs) \<le> card (fst ` set t)"
    by (metis card_mono distinct_card finite_imageI List.finite_set)
  also have "\<dots> \<le> length t"
    by (metis card_length length_map list.set_map)
  finally show ?thesis by simp
qed

text \<open>When \<open>ancestors\<close> gives nothing, no amount of fuel gives anything.\<close>

lemma ancestors_None_diverges:
  "ancestors t c = None \<Longrightarrow> ancestors_loop n t (parent_of t c) = None"
  unfolding ancestors_def
  by (metis ancestors_loop_enough ancestors_loop_short option.exhaust)

lemma ancestors_SomeI: "ancestors_loop n t (parent_of t c) = Some xs \<Longrightarrow> ancestors t c = Some xs"
  unfolding ancestors_def
  by (rule ancestors_loop_enough) (auto dest: ancestors_loop_short)

lemma ancestors_parent:
  "parent_of t c = Some p \<Longrightarrow> ancestors t p = Some xs \<Longrightarrow> ancestors t c = Some (p # xs)"
proof -
  assume p: "parent_of t c = Some p" and xs: "ancestors t p = Some xs"
  then have "ancestors_loop (Suc (Suc (length t))) t (parent_of t c) = Some (p # xs)"
    by (simp add: ancestors_def)
  then show ?thesis by (rule ancestors_SomeI)
qed

lemma ancestors_parentD:
  assumes "ancestors t c = Some xs" and "parent_of t c = Some p"
  shows "\<exists>ys. xs = p # ys \<and> ancestors t p = Some ys"
proof -
  from assms obtain ys where "xs = p # ys" "ancestors_loop (length t) t (parent_of t p) = Some ys"
    by (auto simp: ancestors_def)
  then show ?thesis by (auto intro: ancestors_SomeI)
qed

text \<open>Trees with the same parents have the same chains.\<close>

lemma ancestors_loop_cong:
  assumes "\<And>d. d \<in> S \<Longrightarrow> parent_of t' d = parent_of t d"
    and "\<And>d p. d \<in> S \<Longrightarrow> parent_of t d = Some p \<Longrightarrow> p \<in> S"
  shows "(\<And>p. x = Some p \<Longrightarrow> p \<in> S) \<Longrightarrow> ancestors_loop n t' x = ancestors_loop n t x"
proof (induction n arbitrary: x)
  case 0
  show ?case by (cases x) auto
next
  case (Suc n)
  show ?case
  proof (cases x)
    case None
    then show ?thesis by simp
  next
    case (Some p)
    with Suc.prems have "p \<in> S" by simp
    with assms(1) have "parent_of t' p = parent_of t p" by simp
    moreover have "ancestors_loop n t' (parent_of t p) = ancestors_loop n t (parent_of t p)"
      by (rule Suc.IH) (use \<open>p \<in> S\<close> assms(2) in blast)
    ultimately show ?thesis using Some by simp
  qed
qed

text \<open>A tree in which some links were cut has no more cycles than before.\<close>

lemma ancestors_loop_cut:
  assumes "\<And>d. parent_of t' d = None \<or> parent_of t' d = parent_of t d"
  shows "ancestors_loop n t x = Some xs \<Longrightarrow> \<exists>ys. ancestors_loop n t' x = Some ys"
proof (induction n arbitrary: x xs)
  case 0
  then show ?case by (cases x) auto
next
  case (Suc n)
  show ?case
  proof (cases x)
    case None
    then show ?thesis by simp
  next
    case (Some p)
    with Suc.prems obtain zs where zs: "ancestors_loop n t (parent_of t p) = Some zs" by auto
    from assms [of p] show ?thesis
    proof
      assume "parent_of t' p = None"
      then show ?thesis using Some by simp
    next
      assume "parent_of t' p = parent_of t p"
      with Suc.IH [OF zs] Some show ?thesis by auto
    qed
  qed
qed

lemma ancestors_cut:
  assumes "\<And>d. parent_of t' d = None \<or> parent_of t' d = parent_of t d" and "ancestors t c \<noteq> None"
  shows "ancestors t' c \<noteq> None"
proof (cases "parent_of t' c = None")
  case True
  then show ?thesis by (simp add: ancestors_def)
next
  case False
  with assms(1) [of c] have same: "parent_of t' c = parent_of t c" by auto
  from assms(2) obtain xs where "ancestors_loop (Suc (length t)) t (parent_of t c) = Some xs"
    by (auto simp: ancestors_def)
  from ancestors_loop_cut [OF assms(1) this] obtain ys
    where "ancestors_loop (Suc (length t)) t' (parent_of t c) = Some ys" by blast
  then have "ancestors t' c = Some ys" by (intro ancestors_SomeI) (simp only: same)
  then show ?thesis by simp
qed

section \<open>The invariant is kept\<close>

lemma tree_okD:
  assumes "tree_ok t"
  shows "bm_ok t" and "links_agree t" and "no_cycle t" and "modes_apart t"
  using assms by (auto simp: tree_ok_def)

text \<open>The parts of the invariant, in terms of lookups.\<close>

lemma bm_ball:
  assumes "bm_ok t"
  shows "(\<forall>(c, n) \<in> set t. P c n) \<longleftrightarrow> (\<forall>c n. bm_get t c = Some n \<longrightarrow> P c n)"
  by (auto simp flip: bm_get_in [OF assms])

lemma links_agree_iff:
  assumes "bm_ok t"
  shows "links_agree t \<longleftrightarrow>
     (\<forall>c n. bm_get t c = Some n \<longrightarrow>
        cn_case_name n = c \<and> distinct (cn_children n) \<and>
        (\<forall>d \<in> set (cn_children n). parent_of t d = Some c \<and> tree_contains t d) \<and>
        (\<forall>p. cn_parent_id n = Some p \<longrightarrow> (\<exists>q. bm_get t p = Some q \<and> c \<in> set (cn_children q))))"
  unfolding links_agree_def by (rule bm_ball [OF assms])

lemma modes_apart_iff:
  assumes "bm_ok t"
  shows "modes_apart t \<longleftrightarrow>
     (\<forall>c n. bm_get t c = Some n \<longrightarrow>
        (is_role_case c \<longrightarrow> (\<forall>p. cn_parent_id n = Some p \<longrightarrow> is_role_case p)) \<and>
        (\<not> is_role_case c \<longrightarrow> cn_parent_id n = None \<and> cn_children n = []))"
  unfolding modes_apart_def by (rule bm_ball [OF assms])

lemma no_cycle_iff: "no_cycle t \<longleftrightarrow> (\<forall>c. tree_contains t c \<longrightarrow> ancestors t c \<noteq> None)"
  unfolding no_cycle_def tree_contains_set by blast

lemma tree_ok_links:
  assumes "tree_ok t" and "bm_get t c = Some n"
  shows "cn_case_name n = c \<and> distinct (cn_children n) \<and>
        (\<forall>d \<in> set (cn_children n). parent_of t d = Some c \<and> tree_contains t d) \<and>
        (\<forall>p. cn_parent_id n = Some p \<longrightarrow> (\<exists>q. bm_get t p = Some q \<and> c \<in> set (cn_children q)))"
  by (rule tree_okD(2) [OF assms(1), unfolded links_agree_iff [OF tree_okD(1) [OF assms(1)]],
      THEN spec, THEN spec, THEN mp, OF assms(2)])

lemma tree_ok_modes:
  assumes "tree_ok t" and "bm_get t c = Some n"
  shows "(is_role_case c \<longrightarrow> (\<forall>p. cn_parent_id n = Some p \<longrightarrow> is_role_case p)) \<and>
        (\<not> is_role_case c \<longrightarrow> cn_parent_id n = None \<and> cn_children n = [])"
  by (rule tree_okD(4) [OF assms(1), unfolded modes_apart_iff [OF tree_okD(1) [OF assms(1)]],
      THEN spec, THEN spec, THEN mp, OF assms(2)])

lemma tree_ok_name: "tree_ok t \<Longrightarrow> bm_get t c = Some n \<Longrightarrow> cn_case_name n = c"
  using tree_okD links_agree_iff by blast

lemma tree_ok_child:
  "tree_ok t \<Longrightarrow> bm_get t c = Some n \<Longrightarrow> d \<in> set (cn_children n) \<Longrightarrow> parent_of t d = Some c \<and> tree_contains t d"
  using tree_okD links_agree_iff by blast

lemma tree_ok_parent:
  "tree_ok t \<Longrightarrow> parent_of t c = Some p \<Longrightarrow> tree_contains t p"
proof -
  assume "tree_ok t" and "parent_of t c = Some p"
  moreover from this obtain n where "bm_get t c = Some n" "cn_parent_id n = Some p"
    by (auto simp: parent_of_simps)
  ultimately obtain q where "bm_get t p = Some q"
    using tree_okD links_agree_iff by metis
  then show ?thesis by (simp add: tree_contains_def)
qed

lemma tree_ok_ancestors: "tree_ok t \<Longrightarrow> tree_contains t c \<Longrightarrow> \<exists>xs. ancestors t c = Some xs"
  using tree_okD(3) no_cycle_iff by (metis not_None_eq)

lemma tree_ok_ancestors_total: "tree_ok t \<Longrightarrow> \<exists>xs. ancestors t c = Some xs"
proof (cases "tree_contains t c")
  case False
  then have "parent_of t c = None" by (simp add: parent_of_def tree_contains_def)
  then show ?thesis by (simp add: ancestors_def)
qed (rule tree_ok_ancestors)

lemma tree_ok_empty [tree_intros]: "tree_ok []"
  by (simp add: tree_ok_def links_agree_def no_cycle_def modes_apart_def)

lemma is_role_case_prefix [simp]: "is_role_case (role_case_prefix @ s)"
  by (simp add: is_role_case_def starts_with_def)

lemma not_role_event [simp]: "\<not> is_role_case (event_case_name e)"
  by (simp add: is_role_case_def starts_with_def event_case_name_def event_case_prefix_def role_case_prefix_def)

text \<open>Changing fields of a node other than its links.\<close>

lemma tree_ok_same_links:
  assumes ok: "tree_ok t" and "bm_ok t'"
    and same: "\<And>c. map_option (\<lambda>n. (cn_case_name n, cn_parent_id n, cn_children n)) (bm_get t' c) =
                 map_option (\<lambda>n. (cn_case_name n, cn_parent_id n, cn_children n)) (bm_get t c)"
  shows "tree_ok t'"
proof -
  have get: "\<exists>m. bm_get t c = Some m \<and> cn_case_name m = cn_case_name n \<and> cn_parent_id m = cn_parent_id n \<and>
      cn_children m = cn_children n" if "bm_get t' c = Some n" for c n
    using same [of c] that by (cases "bm_get t c") auto
  have get': "\<exists>m. bm_get t' c = Some m \<and> cn_case_name m = cn_case_name n \<and> cn_parent_id m = cn_parent_id n \<and>
      cn_children m = cn_children n" if "bm_get t c = Some n" for c n
    using same [of c] that by (cases "bm_get t' c") auto
  have par: "parent_of t' c = parent_of t c" for c
    using same [of c] by (cases "bm_get t c") (auto simp: parent_of_def)
  have cont: "tree_contains t' c \<longleftrightarrow> tree_contains t c" for c
    using same [of c] by (cases "bm_get t c") (auto simp: tree_contains_def)
  have "links_agree t'"
    unfolding links_agree_iff [OF assms(2)] par cont
  proof (intro allI impI)
    fix c n assume "bm_get t' c = Some n"
    from get [OF this] obtain m where m: "bm_get t c = Some m" "cn_case_name m = cn_case_name n"
        "cn_parent_id m = cn_parent_id n" "cn_children m = cn_children n" by blast
    have up: "\<exists>q'. bm_get t' p = Some q' \<and> c \<in> set (cn_children q')"
      if "bm_get t p = Some q" "c \<in> set (cn_children q)" for p q
      using get' [OF that(1)] that(2) by auto
    from tree_ok_links [OF ok m(1)] up
    show "cn_case_name n = c \<and> distinct (cn_children n) \<and>
        (\<forall>d \<in> set (cn_children n). parent_of t d = Some c \<and> tree_contains t d) \<and>
        (\<forall>p. cn_parent_id n = Some p \<longrightarrow> (\<exists>q. bm_get t' p = Some q \<and> c \<in> set (cn_children q)))"
      unfolding m by blast
  qed
  moreover have "modes_apart t'"
    unfolding modes_apart_iff [OF assms(2)]
  proof (intro allI impI)
    fix c n assume "bm_get t' c = Some n"
    from get [OF this] obtain m where m: "bm_get t c = Some m"
        "cn_parent_id m = cn_parent_id n" "cn_children m = cn_children n" by blast
    from tree_ok_modes [OF ok m(1)]
    show "(is_role_case c \<longrightarrow> (\<forall>p. cn_parent_id n = Some p \<longrightarrow> is_role_case p)) \<and>
        (\<not> is_role_case c \<longrightarrow> cn_parent_id n = None \<and> cn_children n = [])"
      unfolding m .
  qed
  moreover have "no_cycle t'"
    unfolding no_cycle_iff cont
  proof (intro allI impI)
    fix c assume "tree_contains t c"
    with tree_ok_ancestors [OF ok] have "ancestors t c \<noteq> None" by auto
    then show "ancestors t' c \<noteq> None" by (rule ancestors_cut [rotated]) (simp add: par)
  qed
  ultimately show ?thesis using assms(2) by (simp add: tree_ok_def)
qed

lemma tree_ok_set_summary [tree_intros]: "tree_ok t \<Longrightarrow> tree_ok (set_summary c s now t)"
proof (rule tree_ok_same_links)
  assume "tree_ok t"
  then show "bm_ok (set_summary c s now t)" by (auto simp: set_summary_def dest: tree_okD(1))
qed (auto simp: get_set_summary option.map_comp comp_def)

lemma tree_ok_apply_records [tree_intros]: "tree_ok t \<Longrightarrow> tree_ok (apply_records c es now t)"
proof (rule tree_ok_same_links)
  assume "tree_ok t"
  then show "bm_ok (apply_records c es now t)" by (auto simp: apply_records_def dest: tree_okD(1))
qed (auto simp: get_apply_records option.map_comp comp_def)

lemma bm_ok_create_node: "bm_ok t \<Longrightarrow> bm_ok (create_node c parent now t)"
  by (cases parent) (auto simp: create_node_def)

text \<open>
  A new node under a fresh name: at the top, or below a node of the tree. The new node must
  fit the modes: a role case below a role case, any other case at the top.
\<close>

lemma tree_ok_create_node [tree_intros]:
  assumes ok: "tree_ok t" and fresh: "\<not> tree_contains t c"
    and parent: "\<And>p. parent = Some p \<Longrightarrow> tree_contains t p \<and> is_role_case p \<and> is_role_case c"
  shows "tree_ok (create_node c parent now t)"
proof -
  let ?t' = "create_node c parent now t"
  note bm = bm_ok_create_node [OF tree_okD(1) [OF ok], of c parent now]
  have pc: "parent \<noteq> Some c" using parent fresh by auto
  have no_child: "c \<notin> set (cn_children n)" if "bm_get t d = Some n" for d n
    using tree_ok_child [OF ok that] fresh by auto
  have links: "links_agree ?t'"
    unfolding links_agree_iff [OF bm]
  proof (intro allI impI)
    fix d n assume n: "bm_get ?t' d = Some n"
    show "cn_case_name n = d \<and> distinct (cn_children n) \<and>
        (\<forall>e \<in> set (cn_children n). parent_of ?t' e = Some d \<and> tree_contains ?t' e) \<and>
        (\<forall>p. cn_parent_id n = Some p \<longrightarrow> (\<exists>q. bm_get ?t' p = Some q \<and> d \<in> set (cn_children q)))"
    proof (cases "d = c")
      case True
      with n have "n = new_node c parent now" by (simp add: get_create_node)
      moreover have "\<exists>q. bm_get ?t' p = Some q \<and> c \<in> set (cn_children q)" if "parent = Some p" for p
        using parent [OF that] pc that fresh
        by (auto simp: get_create_node tree_contains_def push_child_def)
      ultimately show ?thesis using True by (auto simp: new_node_def)
    next
      case False
      with n obtain m where m: "bm_get t d = Some m"
        and nm: "n = (if parent = Some d then push_child c m else m)"
        by (auto simp: get_create_node split: if_splits)
      from tree_ok_links [OF ok m]
      have old: "cn_case_name m = d \<and> distinct (cn_children m) \<and>
        (\<forall>e \<in> set (cn_children m). parent_of t e = Some d \<and> tree_contains t e) \<and>
        (\<forall>p. cn_parent_id m = Some p \<longrightarrow> (\<exists>q. bm_get t p = Some q \<and> d \<in> set (cn_children q)))" by blast
      have up: "\<exists>q'. bm_get ?t' p = Some q' \<and> d \<in> set (cn_children q')"
        if "bm_get t p = Some q" "d \<in> set (cn_children q)" for p q
      proof -
        have "p \<noteq> c" using that(1) fresh by (auto simp: tree_contains_def)
        with that show ?thesis by (auto simp: get_create_node push_child_def)
      qed
      have kids: "\<forall>e \<in> set (cn_children m). e \<noteq> c" using no_child [OF m] by auto
      show ?thesis
        using old up kids no_child [OF m] False unfolding nm
        by (auto simp: push_child_def)
    qed
  qed
  have modes: "modes_apart ?t'"
    unfolding modes_apart_iff [OF bm]
  proof (intro allI impI)
    fix d n assume n: "bm_get ?t' d = Some n"
    show "(is_role_case d \<longrightarrow> (\<forall>p. cn_parent_id n = Some p \<longrightarrow> is_role_case p)) \<and>
        (\<not> is_role_case d \<longrightarrow> cn_parent_id n = None \<and> cn_children n = [])"
      using tree_ok_modes [OF ok, of d] n parent
      by (cases parent) (auto simp: get_create_node new_node_def push_child_def split: if_splits)
  qed
  have chain: "ancestors_loop n ?t' x = ancestors_loop n t x"
    if "\<And>p. x = Some p \<Longrightarrow> tree_contains t p" for n x
    by (rule ancestors_loop_cong [where S = "Collect (tree_contains t)"])
      (use that fresh tree_ok_parent [OF ok] in auto)
  have "no_cycle ?t'"
    unfolding no_cycle_iff
  proof (intro allI impI)
    fix d assume "tree_contains ?t' d"
    have old: "\<exists>xs. ancestors ?t' d = Some xs" if d: "tree_contains t d" for d
    proof -
      from tree_ok_ancestors [OF ok d] obtain xs where xs: "ancestors t d = Some xs" by blast
      have "parent_of ?t' d = parent_of t d" using d fresh by auto
      with xs have "ancestors_loop (Suc (length t)) ?t' (parent_of ?t' d) = Some xs"
        unfolding ancestors_def using chain tree_ok_parent [OF ok] by metis
      then show ?thesis by (blast intro: ancestors_SomeI)
    qed
    show "ancestors ?t' d \<noteq> None"
    proof (cases "tree_contains t d")
      case True
      with old show ?thesis by auto
    next
      case False
      with \<open>tree_contains ?t' d\<close> have "d = c" by simp
      show ?thesis
      proof (cases parent)
        case None
        then show ?thesis by (simp add: ancestors_def \<open>d = c\<close>)
      next
        case (Some p)
        with parent old obtain xs where "ancestors ?t' p = Some xs" by blast
        then have "ancestors ?t' c = Some (p # xs)" using Some by (intro ancestors_parent) simp_all
        then show ?thesis by (simp add: \<open>d = c\<close>)
      qed
    qed
  qed
  with bm links modes show ?thesis by (simp add: tree_ok_def)
qed

text \<open>Removing a set of nodes that holds the children of its members.\<close>

lemma bm_ok_fold_remove: "bm_ok t \<Longrightarrow> bm_ok (fold bm_remove cs t)"
  by (induction cs arbitrary: t) auto

lemma tree_ok_remove_nodes [tree_intros]:
  assumes ok: "tree_ok t"
    and closed: "\<And>c d. c \<in> set cs \<Longrightarrow> parent_of t d = Some c \<Longrightarrow> d \<in> set cs"
  shows "tree_ok (remove_nodes cs t)"
proof -
  let ?t' = "remove_nodes cs t"
  have bm: "bm_ok ?t'"
    using tree_okD(1) [OF ok] by (simp add: remove_nodes_def bm_ok_fold_remove)
  have get: "\<exists>m. bm_get t c = Some m \<and> n = drop_children cs m \<and> c \<notin> set cs"
    if "bm_get ?t' c = Some n" for c n
    using that by (auto simp: get_remove_nodes split: if_splits)
  have links: "links_agree ?t'"
    unfolding links_agree_iff [OF bm]
  proof (intro allI impI)
    fix c n assume "bm_get ?t' c = Some n"
    from get [OF this] obtain m where m: "bm_get t c = Some m" "n = drop_children cs m" "c \<notin> set cs"
      by blast
    from tree_ok_links [OF ok m(1)]
    have old: "cn_case_name m = c \<and> distinct (cn_children m) \<and>
        (\<forall>e \<in> set (cn_children m). parent_of t e = Some c \<and> tree_contains t e) \<and>
        (\<forall>p. cn_parent_id m = Some p \<longrightarrow> (\<exists>q. bm_get t p = Some q \<and> c \<in> set (cn_children q)))" by blast
    have up: "p \<notin> set cs" if "cn_parent_id m = Some p" for p
      using closed [of p c] m that by (auto simp: parent_of_simps)
    have "\<exists>q'. bm_get ?t' p = Some q' \<and> c \<in> set (cn_children q')"
      if p: "cn_parent_id m = Some p" for p
    proof -
      from old p obtain q where q: "bm_get t p = Some q" "c \<in> set (cn_children q)" by blast
      with up [OF p] m(3) show ?thesis by (auto simp: get_remove_nodes drop_children_def)
    qed
    with old m show "cn_case_name n = c \<and> distinct (cn_children n) \<and>
        (\<forall>e \<in> set (cn_children n). parent_of ?t' e = Some c \<and> tree_contains ?t' e) \<and>
        (\<forall>p. cn_parent_id n = Some p \<longrightarrow> (\<exists>q. bm_get ?t' p = Some q \<and> c \<in> set (cn_children q)))"
      by (auto simp: drop_children_def)
  qed
  have modes: "modes_apart ?t'"
    unfolding modes_apart_iff [OF bm]
  proof (intro allI impI)
    fix c n assume "bm_get ?t' c = Some n"
    from get [OF this] obtain m where m: "bm_get t c = Some m" "n = drop_children cs m" by blast
    from tree_ok_modes [OF ok m(1)]
    show "(is_role_case c \<longrightarrow> (\<forall>p. cn_parent_id n = Some p \<longrightarrow> is_role_case p)) \<and>
        (\<not> is_role_case c \<longrightarrow> cn_parent_id n = None \<and> cn_children n = [])"
      by (auto simp: m(2) drop_children_def)
  qed
  have "no_cycle ?t'"
    unfolding no_cycle_iff
  proof (intro allI impI)
    fix c assume "tree_contains ?t' c"
    then have "ancestors t c \<noteq> None" using tree_ok_ancestors [OF ok, of c] by auto
    then show "ancestors ?t' c \<noteq> None" by (rule ancestors_cut [rotated]) simp
  qed
  with bm links modes show ?thesis by (simp add: tree_ok_def)
qed

section \<open>Fresh names\<close>

definition digits_value :: "string \<Rightarrow> nat" where
  "digits_value s = foldl (\<lambda>a c. 10 * a + (of_char c - 48)) 0 s"

lemma digits_value_nat_digits [simp]: "digits_value (nat_digits n) = n"
proof (induction n rule: nat_digits.induct)
  case (1 n)
  show ?case
  proof (cases "n < 10")
    case True
    then show ?thesis by (subst nat_digits.simps) (simp add: digits_value_def)
  next
    case False
    with 1 have IH: "foldl (\<lambda>a c. 10 * a + (of_char c - 48)) 0 (nat_digits (n div 10)) = n div 10"
      by (simp add: digits_value_def)
    have "n mod 10 < 10" by simp
    then have "48 + n mod 10 < 256" by linarith
    then have "of_char (char_of (48 + n mod 10) :: char) = 48 + n mod 10" by simp
    with False IH show ?thesis by (subst nat_digits.simps) (simp add: digits_value_def)
  qed
qed

lemma nat_digits_inj: "nat_digits a = nat_digits b \<Longrightarrow> a = b"
  by (metis digits_value_nat_digits)

lemma free_suffix_loop_Some:
  "free_suffix_loop n t base s = Some c \<Longrightarrow>
     \<not> tree_contains t c \<and> (\<exists>k \<ge> s. c = base @ ''-'' @ nat_digits k)"
proof (induction n arbitrary: s)
  case 0
  then show ?case by simp
next
  case (Suc n)
  show ?case
  proof (cases "tree_contains t (base @ ''-'' @ nat_digits s)")
    case True
    with Suc.prems have "free_suffix_loop n t base (Suc s) = Some c" by (simp add: Let_def)
    from Suc.IH [OF this] show ?thesis by (metis Suc_leD)
  next
    case False
    with Suc.prems show ?thesis by (auto simp: Let_def)
  qed
qed

lemma free_suffix_loop_None:
  "free_suffix_loop n t base s = None \<Longrightarrow>
     \<forall>k \<in> {s..<s + n}. tree_contains t (base @ ''-'' @ nat_digits k)"
proof (induction n arbitrary: s)
  case 0
  then show ?case by simp
next
  case (Suc n)
  then have here: "tree_contains t (base @ ''-'' @ nat_digits s)"
    and "free_suffix_loop n t base (Suc s) = None" by (auto simp: Let_def split: if_splits)
  from Suc.IH [OF this(2)] have "\<forall>k \<in> {Suc s..<s + Suc n}. tree_contains t (base @ ''-'' @ nat_digits k)"
    by simp
  with here show ?case
    by (metis Suc_leI atLeastLessThan_iff order_le_imp_less_or_eq)
qed

lemma free_suffix_loop_total: "\<exists>c. free_suffix_loop (Suc (length t)) t base s = Some c"
proof (rule ccontr)
  let ?name = "\<lambda>k. base @ ''-'' @ nat_digits k"
  let ?ks = "{s..<s + Suc (length t)}"
  assume "\<nexists>c. free_suffix_loop (Suc (length t)) t base s = Some c"
  then have "free_suffix_loop (Suc (length t)) t base s = None" by simp
  from free_suffix_loop_None [OF this] have "?name ` ?ks \<subseteq> fst ` set t"
    unfolding tree_contains_set by blast
  then have "card (?name ` ?ks) \<le> card (fst ` set t)" by (intro card_mono) auto
  also have "\<dots> \<le> length t" by (metis card_length length_map list.set_map)
  finally have "card (?name ` ?ks) \<le> length t" .
  moreover have "inj_on ?name ?ks" by (auto simp: inj_on_def dest: nat_digits_inj)
  ultimately show False by (simp add: card_image)
qed

text \<open>A name is always found, is not in the tree and is the name of a role case.\<close>

lemma unique_role_case_name_total: "\<exists>c. unique_role_case_name t name = Some c"
  using free_suffix_loop_total [of t "role_case_prefix @ name" 2]
  by (simp only: unique_role_case_name_def Let_def) simp

lemma unique_role_case_name_fresh:
  assumes "unique_role_case_name t name = Some c"
  shows "\<not> tree_contains t c" and "is_role_case c"
proof -
  show "\<not> tree_contains t c"
    using assms by (auto simp: unique_role_case_name_def Let_def split: if_splits dest: free_suffix_loop_Some)
  have "\<exists>s. c = role_case_prefix @ s"
    using assms by (auto simp: unique_role_case_name_def Let_def split: if_splits dest!: free_suffix_loop_Some)
  then show "is_role_case c" by auto
qed

section \<open>Levels\<close>

lemma set_tree_nodes: "bm_ok t \<Longrightarrow> n \<in> set (tree_nodes t) \<longleftrightarrow> (\<exists>c. bm_get t c = Some n)"
  by (auto simp: tree_nodes_def simp flip: bm_get_in) force

lemma mset_tree_nodes: "mset (tree_nodes t) = mset (map snd t)"
  by (simp add: tree_nodes_def)

lemma role_top_level_ids_iff:
  assumes "tree_ok t"
  shows "c \<in> set (role_top_level_ids t) \<longleftrightarrow> tree_contains t c \<and> is_role_case c \<and> parent_of t c = None"
proof -
  note bm = tree_okD(1) [OF assms]
  have "c \<in> set (role_top_level_ids t) \<longleftrightarrow>
      (\<exists>n d. bm_get t d = Some n \<and> cn_parent_id n = None \<and> is_role_case (cn_case_name n) \<and> c = cn_case_name n)"
    by (auto simp: role_top_level_ids_def ids_of_def set_tree_nodes [OF bm])
  also have "\<dots> \<longleftrightarrow> (\<exists>n. bm_get t c = Some n \<and> cn_parent_id n = None \<and> is_role_case c)"
    using tree_ok_name [OF assms] by metis
  also have "\<dots> \<longleftrightarrow> tree_contains t c \<and> is_role_case c \<and> parent_of t c = None"
    by (auto simp: tree_contains_def parent_of_def)
  finally show ?thesis .
qed

lemma role_children_ids_iff:
  assumes "tree_ok t"
  shows "c \<in> set (role_children_ids t p) \<longleftrightarrow> tree_contains t c \<and> is_role_case c \<and> parent_of t c = Some p"
proof
  assume "c \<in> set (role_children_ids t p)"
  then obtain n where "bm_get t p = Some n" "c \<in> set (cn_children n)" "is_role_case c"
    by (cases "bm_get t p") (auto simp: role_children_ids_def children_ids_def)
  with tree_ok_child [OF assms] show "tree_contains t c \<and> is_role_case c \<and> parent_of t c = Some p" by blast
next
  assume c: "tree_contains t c \<and> is_role_case c \<and> parent_of t c = Some p"
  then obtain n where "bm_get t c = Some n" "cn_parent_id n = Some p" by (auto simp: parent_of_simps)
  with tree_ok_links [OF assms] obtain q where "bm_get t p = Some q" "c \<in> set (cn_children q)" by blast
  with c show "c \<in> set (role_children_ids t p)"
    by (simp add: role_children_ids_def children_ids_def)
qed

text \<open>The depth of a node: going down a level makes it larger, and it fits in the tree.\<close>

definition depth :: "case_tree \<Rightarrow> string \<Rightarrow> nat" where
  "depth t c = (case ancestors t c of Some xs \<Rightarrow> length xs | None \<Rightarrow> 0)"

lemma depth_child: "tree_ok t \<Longrightarrow> parent_of t c = Some p \<Longrightarrow> depth t c = Suc (depth t p)"
  using tree_ok_ancestors_total [of t p] ancestors_parent [of t c p] by (auto simp: depth_def)

lemma depth_bound: "depth t c \<le> Suc (length t)"
  by (auto simp: depth_def ancestors_def dest: ancestors_loop_short split: option.splits)

lemma tree_is_leaf_iff: "tree_is_leaf t c \<longleftrightarrow> (\<exists>n. bm_get t c = Some n \<and> cn_children n = [])"
  by (auto simp: tree_is_leaf_def node_is_leaf_def split: option.splits)

end
