(* ===== verification/Archive.thy ===== *)
theory Archive
  imports Decision_Model Agent_Role Case_Tree_Inv
begin

text \<open>
  \<open>kissbot-memory-struct-abstract/src/archive.rs\<close>: merging pending records and new messages
  into a batch, asking the model for groups and for the place of each group, landing the groups
  in the tree, summaries from the leaves up, and the watermark. The \<open>debug_assert!\<close> lines
  of \<open>merge_batch\<close>, which release builds leave out, are not part of the model.
\<close>

section \<open>The batch\<close>

datatype batch_item = Stored record_entry "nat list" | NewItem nat locate_message

fun item_time :: "batch_item \<Rightarrow> string" where
  "item_time (Stored r aliases) = re_time r"
| "item_time (NewItem i m) = lm_time m"

fun item_render :: "printer \<Rightarrow> batch_item \<Rightarrow> string" where
  "item_render pr (Stored r aliases) = render_entry pr r"
| "item_render pr (NewItem i m) = render_message pr m"

fun item_record :: "batch_item \<Rightarrow> record_entry option" where
  "item_record (Stored r aliases) = Some r"
| "item_record (NewItem i m) = None"

fun is_stored :: "batch_item \<Rightarrow> bool" where
  "is_stored (Stored r aliases) \<longleftrightarrow> True"
| "is_stored (NewItem i m) \<longleftrightarrow> False"

fun item_messages :: "batch_item \<Rightarrow> nat list" where
  "item_messages (Stored r aliases) = aliases"
| "item_messages (NewItem i m) = [i]"

fun add_alias :: "nat \<Rightarrow> batch_item \<Rightarrow> batch_item" where
  "add_alias i (Stored r aliases) = Stored r (aliases @ [i])"
| "add_alias i (NewItem j m) = NewItem j m"

definition duplicates :: "record_entry \<Rightarrow> locate_message \<Rightarrow> bool" where
  "duplicates r m \<longleftrightarrow>
     (case re_body r of
        Body_Channel c \<Rightarrow> lm_msg_id m \<noteq> [] \<and> cr_msg_id c \<noteq> [] \<and> cr_msg_id c = lm_msg_id m
      | _ \<Rightarrow> False)"

text \<open>The first record that is not taken and has the same message identifier.\<close>

fun find_duplicate :: "nat \<Rightarrow> record_entry list \<Rightarrow> bool list \<Rightarrow> locate_message \<Rightarrow> nat option" where
  "find_duplicate i (r # rs) (t # ts) m =
     (if \<not> t \<and> duplicates r m then Some i else find_duplicate (Suc i) rs ts m)"
| "find_duplicate i _ _ m = None"

fun merge_messages ::
  "record_entry list \<Rightarrow> nat \<Rightarrow> locate_message list \<Rightarrow> bool list \<Rightarrow> batch_item list \<Rightarrow> batch_item list" where
  "merge_messages records i [] taken items = items"
| "merge_messages records i (m # ms) taken items =
     (case find_duplicate 0 records taken m of
        Some r \<Rightarrow> merge_messages records (Suc i) ms (taken[r := True]) (items[r := add_alias i (items ! r)])
      | None \<Rightarrow> merge_messages records (Suc i) ms taken (items @ [NewItem i m]))"

definition merge_batch :: "record_entry list \<Rightarrow> locate_message list \<Rightarrow> batch_item list" where
  "merge_batch records messages =
     sort_key item_time
       (merge_messages records 0 messages (replicate (length records) False) (map (\<lambda>r. Stored r []) records))"

function chunks_of :: "nat \<Rightarrow> 'a list \<Rightarrow> 'a list list" where
  "chunks_of n xs = (if xs = [] \<or> n = 0 then [] else take n xs # chunks_of n (drop n xs))"
  by pat_completeness auto

termination by (relation "measure (\<lambda>(n, xs). length xs)") auto

declare chunks_of.simps [simp del]

section \<open>The archiver\<close>

record 'm archiver =
  av_model :: "'m decision_model"
  av_max_batch :: nat
  av_printer :: printer

definition new_archiver :: "'m decision_model \<Rightarrow> nat \<Rightarrow> printer \<Rightarrow> 'm archiver" where
  "new_archiver model n pr = \<lparr>av_model = model, av_max_batch = max n 1, av_printer = pr\<rparr>"

definition ask :: "('m, abs_error, 'a) action \<Rightarrow> ('m, 'a) op" where
  "ask m w = (case m (w_model w) of (r, s) \<Rightarrow> (r, w\<lparr>w_model := s\<rparr>))"

record archive_outcome =
  ao_archived :: nat
  ao_case_names :: "string list"

record place_group =
  pg_messages :: "nat list"
  pg_case_name :: string

record archive_result =
  ar_outcomes :: "archive_outcome list"
  ar_groups :: "place_group list"
  ar_new_messages :: nat

datatype group_verdict =
    V_Case string
  | V_NewRole "string option" string string
  | V_NewEvent

record placement =
  pl_verdict :: group_verdict
  pl_items :: "nat list"
  pl_records :: "record_entry list"

definition render_group :: "printer \<Rightarrow> batch_item list \<Rightarrow> nat list \<Rightarrow> string" where
  "render_group pr items indices =
     join newline (map (\<lambda>(number, i). ''['' @ nat_digits number @ ''] '' @ item_render pr (items ! i))
       (zip [0..<length indices] indices))"

definition render_batch :: "printer \<Rightarrow> batch_item list \<Rightarrow> string" where
  "render_batch pr items = render_group pr items [0..<length items]"

definition stored_records :: "batch_item list \<Rightarrow> nat list \<Rightarrow> record_entry list" where
  "stored_records items indices = List.map_filter (\<lambda>i. item_record (items ! i)) indices"

section \<open>Where a group belongs\<close>

text \<open>
  The loop of \<open>decide_placement\<close>. Each round goes one level down, so a tree without cycles
  never uses up more rounds than it has nodes plus one; with a cycle the loop of the code need
  not end, and running out of rounds is \<open>Diverges\<close>.
\<close>

primrec decide_loop ::
  "nat \<Rightarrow> 'm archiver \<Rightarrow> agent_role \<Rightarrow> string option \<Rightarrow> case_tree \<Rightarrow> string \<Rightarrow> string option \<Rightarrow> string list \<Rightarrow>
   ('m, group_verdict) op" where
  "decide_loop 0 av h e t text parent level = fail Diverges"
| "decide_loop (Suc n) av h e t text parent level =
     bind_act (ask (dm_decide_level (av_model av) h e text (tree_briefs t level))) (\<lambda>decision.
       case decision of
         LD_New name summary \<Rightarrow> ret (V_NewRole parent name summary)
       | LD_Merge c \<Rightarrow>
           if c \<notin> set level then fail (ModelApiError ''not a candidate'')
           else if tree_is_leaf t c then ret (V_Case c)
           else decide_loop n av h e t text (Some c) (role_children_ids t c))"

definition decide_placement ::
  "'m archiver \<Rightarrow> agent_role \<Rightarrow> string option \<Rightarrow> case_tree \<Rightarrow> string \<Rightarrow> string option \<Rightarrow> ('m, group_verdict) op" where
  "decide_placement av h e t text parent =
     decide_loop (Suc (Suc (length t))) av h e t text parent
       (case parent of Some c \<Rightarrow> role_children_ids t c | None \<Rightarrow> role_top_level_ids t)"

definition place_one ::
  "'m archiver \<Rightarrow> agent_role \<Rightarrow> role_event \<Rightarrow> case_tree \<Rightarrow> string option \<Rightarrow> batch_item list \<Rightarrow> message_group \<Rightarrow>
   ('m, placement) op" where
  "place_one av h re t current items g =
     (if \<not> list_all (\<lambda>i. i < length items) (mg_messages g) then fail Panic
      else
        let records = stored_records items (mg_messages g);
            text = render_group (av_printer av) items (mg_messages g);
            descend = decide_placement av h (event_id re) t text None
        in bind_act
             (if mg_is_current g then
                (case current of
                   Some c \<Rightarrow> ret (V_Case c)
                 | None \<Rightarrow> if records = [] then descend else fail (ModelApiError ''no current case''))
              else descend)
             (\<lambda>verdict. ret \<lparr>pl_verdict = verdict, pl_items = mg_messages g, pl_records = records\<rparr>))"

definition group_and_place ::
  "'m archiver \<Rightarrow> agent_role \<Rightarrow> role_event \<Rightarrow> channel_key \<Rightarrow> batch_item list \<Rightarrow> ('m, placement list) op" where
  "group_and_place av h re channel items =
     bind_act get_state (\<lambda>st.
     let current = current_case re channel st;
         current_brief = Option.bind current (tree_brief (rs_tree st))
     in bind_act (ask (dm_group (av_model av) h (event_id re) (render_batch (av_printer av) items)
                         (length items) current_brief)) (\<lambda>groups.
        fold_act (\<lambda>g acc.
          bind_act (place_one av h re (rs_tree st) current items g) (\<lambda>p. ret (acc @ [p]))) groups []))"

section \<open>Summaries\<close>

fun with_ancestors :: "case_tree \<Rightarrow> string list \<Rightarrow> string list option" where
  "with_ancestors t [] = Some []"
| "with_ancestors t (c # cs) =
     (case ancestors t c of
        None \<Rightarrow> None
      | Some ancs \<Rightarrow> map_option (\<lambda>rest. c # ancs @ rest) (with_ancestors t cs))"

fun depths :: "case_tree \<Rightarrow> string list \<Rightarrow> (nat \<times> string) list option" where
  "depths t [] = Some []"
| "depths t (c # cs) =
     (case ancestors t c of
        None \<Rightarrow> None
      | Some ancs \<Rightarrow> map_option (\<lambda>rest. (length ancs, c) # rest) (depths t cs))"

text \<open>Deeper cases first, then by name.\<close>

definition recompute_order :: "case_tree \<Rightarrow> string bset \<Rightarrow> string list option" where
  "recompute_order t touched =
     Option.bind (with_ancestors t touched) (\<lambda>every.
     map_option (\<lambda>ordered. map snd (sort_key (\<lambda>(d, c). (- int d, c)) ordered))
       (depths t (filter (tree_contains t) (bs_collect every))))"

definition records_label :: string where
  "records_label = utf8 [232, 174, 176, 229, 189, 149, 239, 188, 154] @ newline"

definition children_label :: string where
  "children_label =
     newline @ utf8 [229, 173, 144] @ '' case '' @ utf8 [230, 145, 152, 232, 166, 129, 239, 188, 154] @ newline"

definition child_line :: "case_tree \<Rightarrow> (string, string) hmap \<Rightarrow> string \<Rightarrow> string" where
  "child_line t computed child =
     ''- '' @ child @ '': '' @
       (case hm_get computed child of
          Some s \<Rightarrow> s
        | None \<Rightarrow> (case tree_brief t child of Some b \<Rightarrow> cb_summary b | None \<Rightarrow> '''')) @ newline"

definition summary_content ::
  "printer \<Rightarrow> case_tree \<Rightarrow> string \<Rightarrow> case_record list \<Rightarrow> record_entry list \<Rightarrow> (string, string) hmap \<Rightarrow> string" where
  "summary_content pr t c records extra computed =
     (if records \<noteq> [] \<or> extra \<noteq> [] then
        records_label @
        concat (map (\<lambda>r. render_case_record pr r @ newline) records) @
        concat (map (\<lambda>e. render_entry pr e @ newline) extra)
      else '''') @
     (if children_ids t c \<noteq> [] then
        children_label @ concat (map (child_line t computed) (children_ids t c))
      else '''')"

definition compute_summary ::
  "'m archiver \<Rightarrow> agent_role \<Rightarrow> string option \<Rightarrow> string \<Rightarrow> (string, record_entry list) hmap \<Rightarrow>
   (string, string) hmap \<Rightarrow> ('m, string option) op" where
  "compute_summary av h e c new_records computed =
     bind_act get_state (\<lambda>st.
       case tree_get (rs_tree st) c of
         None \<Rightarrow> ret None
       | Some node \<Rightarrow>
           bind_act (read_case_records h c) (\<lambda>records.
           let extra = (case hm_get new_records c of Some es \<Rightarrow> es | None \<Rightarrow> [])
           in if records = [] \<and> extra = [] \<and> cn_children node = [] then ret None
              else bind_act (ask (dm_summarize (av_model av) h e
                     (summary_content (av_printer av) (rs_tree st) c records extra computed)))
                   (\<lambda>s. ret (Some s))))"

definition recompute_summaries ::
  "'m archiver \<Rightarrow> agent_role \<Rightarrow> string option \<Rightarrow> (string, record_entry list) hmap \<Rightarrow> string bset \<Rightarrow> string list \<Rightarrow>
   ('m, (string, string) hmap) op" where
  "recompute_summaries av h e new_records created order =
     fold_act (\<lambda>c summaries.
       if c \<in> set created then ret summaries
       else bind_act (compute_summary av h e c new_records summaries) (\<lambda>s.
            ret (case s of Some text \<Rightarrow> hm_insert c text summaries | None \<Rightarrow> summaries))) order []"

section \<open>Landing the groups\<close>

record landing =
  la_new_records :: "(string, record_entry list) hmap"
  la_touched :: "string bset"
  la_created :: "string bset"
  la_case_names :: "string list"
  la_groups :: "place_group list"

definition no_landing :: landing where
  "no_landing = \<lparr>la_new_records = [], la_touched = [], la_created = [], la_case_names = [], la_groups = []\<rparr>"

definition land_created :: "string \<Rightarrow> landing \<Rightarrow> landing" where
  "land_created c la = la\<lparr>la_created := bs_insert c (la_created la), la_touched := bs_insert c (la_touched la)\<rparr>"

definition land_new_role ::
  "string \<Rightarrow> string option \<Rightarrow> string \<Rightarrow> string \<Rightarrow> landing \<Rightarrow> ('m, string \<times> landing) op" where
  "land_new_role now parent name summary la =
     bind_act get_state (\<lambda>st.
       case unique_role_case_name (rs_tree st) name of
         None \<Rightarrow> fail Diverges
       | Some c \<Rightarrow>
           bind_act (modify_tree (create_node c parent now)) (\<lambda>_.
           bind_act (modify_tree (set_summary c summary now)) (\<lambda>_.
           ret (c, land_created c la))))"

definition land_new_event ::
  "'m archiver \<Rightarrow> agent_role \<Rightarrow> string \<Rightarrow> string option \<Rightarrow> batch_item list \<Rightarrow> placement \<Rightarrow> landing \<Rightarrow>
   ('m, string \<times> landing) op" where
  "land_new_event av h now e items p la =
     (case e of
        None \<Rightarrow> fail (StateError ''no event'')
      | Some ev \<Rightarrow>
          bind_act get_state (\<lambda>st.
            if event_case (rs_tree st) ev \<noteq> None then ret (event_case_name ev, la)
            else
              bind_act (modify_tree (create_node (event_case_name ev) None now)) (\<lambda>_.
                if pl_records p \<noteq> [] then ret (event_case_name ev, la)
                else
                  bind_act (ask (dm_summarize (av_model av) h (Some ev)
                                   (render_group (av_printer av) items (pl_items p)))) (\<lambda>summary.
                  bind_act (modify_tree (set_summary (event_case_name ev) summary now)) (\<lambda>_.
                  ret (event_case_name ev, land_created (event_case_name ev) la))))))"

definition land_records :: "string \<Rightarrow> nat list \<Rightarrow> record_entry list \<Rightarrow> landing \<Rightarrow> landing" where
  "land_records c messages records la =
     (let la1 = la\<lparr>la_groups := la_groups la @ [\<lparr>pg_messages = messages, pg_case_name = c\<rparr>]\<rparr>
      in if records = [] then la1
         else la1\<lparr>la_new_records := hm_extend c records (la_new_records la1),
                  la_touched := bs_insert c (la_touched la1),
                  la_case_names := (if c \<in> set (la_case_names la1) then la_case_names la1
                                    else la_case_names la1 @ [c])\<rparr>)"

definition placement_messages :: "batch_item list \<Rightarrow> placement \<Rightarrow> nat list" where
  "placement_messages items p = sort (concat (map (\<lambda>i. item_messages (items ! i)) (pl_items p)))"

definition land_one ::
  "'m archiver \<Rightarrow> agent_role \<Rightarrow> string \<Rightarrow> string option \<Rightarrow> batch_item list \<Rightarrow> placement \<Rightarrow> landing \<Rightarrow> ('m, landing) op" where
  "land_one av h now e items p la =
     bind_act
       (case pl_verdict p of
          V_Case c \<Rightarrow> ret (c, la)
        | V_NewRole parent name summary \<Rightarrow> land_new_role now parent name summary la
        | V_NewEvent \<Rightarrow> land_new_event av h now e items p la)
       (\<lambda>(c, la1). ret (land_records c (placement_messages items p) (pl_records p) la1))"

section \<open>One chunk\<close>

fun later_point :: "record_entry \<Rightarrow> watermark_point \<Rightarrow> watermark_point" where
  "later_point e p = (if p < entry_key e then entry_key e else p)"

definition advance_watermark :: "record_entry list \<Rightarrow> watermark \<Rightarrow> watermark" where
  "advance_watermark batch wm =
     fold (\<lambda>kind wm. fold (\<lambda>e wm. set_point kind (later_point e (wm_point wm kind)) wm)
       (filter (\<lambda>e. re_kind e = kind) batch) wm) all_kinds wm"

definition locate_items ::
  "'m archiver \<Rightarrow> agent_role \<Rightarrow> string option \<Rightarrow> channel_key \<Rightarrow> batch_item list \<Rightarrow> ('m, placement list) op" where
  "locate_items av h e channel items =
     (case e of
        Some ev \<Rightarrow>
          if \<not> valid_case_name ev then fail (StateError ''event is not a case name'')
          else bind_act get_state (\<lambda>st.
                 ret [\<lparr>pl_verdict = (if event_case (rs_tree st) ev \<noteq> None then V_Case (event_case_name ev)
                                     else V_NewEvent),
                       pl_items = [0..<length items],
                       pl_records = stored_records items [0..<length items]\<rparr>])
      | None \<Rightarrow> group_and_place av h (role_event_of h e) channel items)"

definition apply_results ::
  "agent_role \<Rightarrow> string option \<Rightarrow> channel_key \<Rightarrow> string \<Rightarrow> record_entry list \<Rightarrow> landing \<Rightarrow> (string, string) hmap \<Rightarrow>
   role_state \<Rightarrow> role_state" where
  "apply_results h e channel now records la summaries st =
     (let key = (role_event_of h e, channel);
          t1 = fold (\<lambda>(c, es). apply_records c es now) (la_new_records la) (rs_tree st);
          t2 = fold (\<lambda>(c, s). set_summary c s now) summaries t1
      in st\<lparr>rs_tree := t2,
            rs_current_cases :=
              (if la_groups la = [] then rs_current_cases st
               else bm_insert key (pg_case_name (last (la_groups la))) (rs_current_cases st)),
            rs_watermarks :=
              bm_insert key
                (advance_watermark records
                  (case bm_get (rs_watermarks st) key of Some wm \<Rightarrow> wm | None \<Rightarrow> default_watermark))
                (rs_watermarks st)\<rparr>)"

definition archive_chunk_inner ::
  "'m archiver \<Rightarrow> agent_role \<Rightarrow> string option \<Rightarrow> channel_key \<Rightarrow> batch_item list \<Rightarrow>
   ('m, archive_outcome \<times> place_group list) op" where
  "archive_chunk_inner av h e channel items =
     bind_act now_string (\<lambda>now.
     bind_act (locate_items av h e channel items) (\<lambda>placements.
     bind_act (fold_act (land_one av h now e items) placements no_landing) (\<lambda>la.
     bind_act get_state (\<lambda>st.
       case recompute_order (rs_tree st) (la_touched la) of
         None \<Rightarrow> fail Diverges
       | Some order \<Rightarrow>
           bind_act (recompute_summaries av h e (la_new_records la) (la_created la) order) (\<lambda>summaries.
           bind_act (for_each (la_new_records la) (\<lambda>(c, es). append_case_records h c es)) (\<lambda>_.
           let records = List.map_filter item_record items
           in bind_act (modify_state (apply_results h e channel now records la summaries)) (\<lambda>_.
              ret (\<lparr>ao_archived = length records, ao_case_names = la_case_names la\<rparr>, la_groups la))))))))"

text \<open>On an error the state before the call is put back; a panic runs no such code.\<close>

definition archive_chunk ::
  "'m archiver \<Rightarrow> agent_role \<Rightarrow> string option \<Rightarrow> channel_key \<Rightarrow> batch_item list \<Rightarrow>
   ('m, archive_outcome \<times> place_group list) op" where
  "archive_chunk av h e channel items w =
     (if items = [] then (Inr (\<lparr>ao_archived = 0, ao_case_names = []\<rparr>, []), w)
      else case archive_chunk_inner av h e channel items w of
             (Inr x, w') \<Rightarrow> (Inr x, w')
           | (Inl err, w') \<Rightarrow> (Inl err, if abnormal err then w' else w'\<lparr>w_state := w_state w\<rparr>))"

definition archive_step ::
  "'m archiver \<Rightarrow> agent_role \<Rightarrow> string option \<Rightarrow> channel_key \<Rightarrow> batch_item list \<Rightarrow>
   archive_outcome list \<times> place_group list \<Rightarrow> ('m, archive_outcome list \<times> place_group list) op" where
  "archive_step av h e channel chunk acc =
     bind_act (archive_chunk av h e channel chunk) (\<lambda>(outcome, chunk_groups).
     bind_act (if 0 < ao_archived outcome then save_state h (role_event_of h e) else ret ()) (\<lambda>_.
     ret (fst acc @ [outcome], snd acc @ chunk_groups)))"

definition archive ::
  "'m archiver \<Rightarrow> agent_role \<Rightarrow> string option \<Rightarrow> channel_key \<Rightarrow> record_entry list \<Rightarrow> locate_message list \<Rightarrow>
   ('m, archive_result) op" where
  "archive av h e channel records messages =
     (if records = [] \<and> messages = [] then ret \<lparr>ar_outcomes = [], ar_groups = [], ar_new_messages = 0\<rparr>
      else
        let items = merge_batch records messages
        in bind_act (fold_act (archive_step av h e channel) (chunks_of (av_max_batch av) items) ([], [])) (\<lambda>(outcomes, groups).
           ret \<lparr>ar_outcomes = outcomes, ar_groups = groups,
                ar_new_messages = length (filter (\<lambda>i. \<not> is_stored i) items)\<rparr>))"

end
