(* ===== verification/Abstract_Service.thy ===== *)
theory Abstract_Service
  imports Archive
begin

text \<open>
  \<open>kissbot-memory-struct-abstract/src/service.rs\<close> and the part of \<open>locate.rs\<close> that
  puts an answer together: notifications only leave marks, queries only read, and the pending
  records of a memory suffix are worked off channel by channel by \<open>process_pending\<close>.
\<close>

section \<open>Marks\<close>

definition on_notification :: "record_kind \<Rightarrow> record_notification \<Rightarrow> ('m, unit) op" where
  "on_notification kind n =
     (let h = AgentRole (rn_agent_id n) (role_name (rn_role_event n))
      in bind_act (open_role h) (\<lambda>_.
         locked h (modify_state
           (case rn_channel n of
              Some channel \<Rightarrow>
                if kind = Kind_Channel then mark_channel (rn_role_event n) channel
                else mark_role_event (rn_role_event n)
            | None \<Rightarrow> mark_role_event (rn_role_event n)))))"

definition mark_suffixes :: "string set \<Rightarrow> role_state \<Rightarrow> role_state" where
  "mark_suffixes suffixes st = st\<lparr>rs_dirty_suffixes := rs_dirty_suffixes st \<union> suffixes\<rparr>"

text \<open>A role whose suffixes cannot be listed is skipped with a warning.\<close>

definition mark_role_dirty :: "agent_role \<Rightarrow> ('m, unit) op" where
  "mark_role_dirty h w =
     (case list_store_suffixes (ar_agent_id h) (ar_role h) w of
        (Inl e, w') \<Rightarrow> if abnormal e then (Inl e, w') else (Inr (), w')
      | (Inr suffixes, w') \<Rightarrow> locked h (modify_state (mark_suffixes suffixes)) w')"

definition mark_all_dirty :: "('m, unit) op" where
  "mark_all_dirty = bind_act (read_st loaded_roles) (\<lambda>hs. for_each hs mark_role_dirty)"

section \<open>Working off the pending records\<close>

type_synonym located = "nat \<times> channel_key \<times> located_group"

fun group_indices_from :: "nat \<Rightarrow> locate_message list \<Rightarrow> (channel_key, nat list) bmap \<Rightarrow> (channel_key, nat list) bmap" where
  "group_indices_from i [] m = m"
| "group_indices_from i (msg # msgs) m =
     (let c = message_channel msg
      in group_indices_from (Suc i) msgs
           (bm_insert c ((case bm_get m c of Some is \<Rightarrow> is | None \<Rightarrow> []) @ [i]) m))"

definition group_indices_by_channel :: "locate_message list \<Rightarrow> (channel_key, nat list) bmap" where
  "group_indices_by_channel messages = group_indices_from 0 messages []"

text \<open>Groups without a message of the request are left out.\<close>

definition place_groups :: "channel_key \<Rightarrow> nat list \<Rightarrow> place_group list \<Rightarrow> located list" where
  "place_groups channel indices groups =
     List.map_filter (\<lambda>g.
       case map (\<lambda>i. indices ! i) (pg_messages g) of
         [] \<Rightarrow> None
       | first # rest \<Rightarrow> Some (first, channel,
           \<lparr>lg_messages = first # rest, lg_case_name = pg_case_name g, lg_is_current = False\<rparr>)) groups"

definition archive_located ::
  "'m archiver \<Rightarrow> agent_role \<Rightarrow> string option \<Rightarrow> channel_key \<Rightarrow> record_entry list \<Rightarrow> locate_message list \<Rightarrow> nat list \<Rightarrow>
   ('m, archive_outcome list \<times> located list) op" where
  "archive_located av h e channel records messages indices =
     bind_act (archive av h e channel records (map (\<lambda>i. messages ! i) indices)) (\<lambda>result.
     ret (ar_outcomes result, place_groups channel indices (ar_groups result)))"

definition read_view :: "agent_role \<Rightarrow> string option \<Rightarrow> ('m, store_view) op" where
  "read_view h e = read_store_records (ar_agent_id h) (role_event_suffix (role_event_of h e))"

definition grouped_channels :: "store_view \<Rightarrow> locate_message list \<Rightarrow> (channel_key, nat list) bmap" where
  "grouped_channels view messages =
     fold (\<lambda>c m. case bm_get m c of None \<Rightarrow> bm_insert c [] m | Some _ \<Rightarrow> m)
       (known_channels view) (group_indices_by_channel messages)"

definition process_channel ::
  "'m archiver \<Rightarrow> agent_role \<Rightarrow> string option \<Rightarrow> store_view \<Rightarrow> locate_message list \<Rightarrow> channel_key \<times> nat list \<Rightarrow>
   archive_outcome list \<times> located list \<Rightarrow> ('m, archive_outcome list \<times> located list) op" where
  "process_channel av h e view messages ci acc =
     bind_act get_state (\<lambda>st.
     let channel = fst ci;
         indices = snd ci;
         pending = pending_for view channel (watermark_of (role_event_of h e) channel st)
     in if pending = [] \<and> indices = [] then ret acc
        else bind_act (archive_located av h e channel pending messages indices) (\<lambda>(outcomes, located).
             ret (fst acc @ outcomes, snd acc @ located)))"

definition process_pending ::
  "'m archiver \<Rightarrow> agent_role \<Rightarrow> string option \<Rightarrow> bool \<Rightarrow> locate_message list \<Rightarrow>
   ('m, archive_outcome list \<times> located list) op" where
  "process_pending av h e force messages =
     (let re = role_event_of h e
      in bind_act get_state (\<lambda>st.
         if \<not> force \<and> \<not> is_dirty re st \<and> messages = [] then ret ([], [])
         else
           bind_act (ensure_role_event h re) (\<lambda>_.
           bind_act (read_view h e) (\<lambda>view.
           bind_act get_state (\<lambda>st1.
           let grouped = grouped_channels view messages;
               processed = dirty_channels_of re st1 \<union> fst ` set grouped
           in bind_act (fold_act (process_channel av h e view messages) grouped ([], [])) (\<lambda>result.
              bind_act (modify_state (clear_dirty re processed)) (\<lambda>_.
              ret result)))))))"

definition sum_outcomes :: "archive_outcome list \<Rightarrow> archive_outcome" where
  "sum_outcomes outcomes =
     \<lparr>ao_archived = sum_list (map ao_archived outcomes), ao_case_names = concat (map ao_case_names outcomes)\<rparr>"

definition manual_trigger :: "'m archiver \<Rightarrow> agent_role \<Rightarrow> string option \<Rightarrow> ('m, archive_outcome) op" where
  "manual_trigger av h e =
     bind_act (open_role h) (\<lambda>_.
     locked h (bind_act (process_pending av h e True []) (\<lambda>(outcomes, _).
       ret (sum_outcomes outcomes))))"

definition cleared_cases :: "string option \<Rightarrow> case_tree \<Rightarrow> string bset" where
  "cleared_cases e t =
     (case e of
        Some ev \<Rightarrow> (case event_case t ev of Some n \<Rightarrow> [cn_case_name n] | None \<Rightarrow> [])
      | None \<Rightarrow> role_case_ids t)"

definition rebuild :: "'m archiver \<Rightarrow> agent_role \<Rightarrow> string option \<Rightarrow> ('m, rebuild_response) op" where
  "rebuild av h e =
     (let re = role_event_of h e
      in bind_act (open_role h) (\<lambda>_.
         locked h
           (bind_act (ensure_role_event h re) (\<lambda>_.
            bind_act get_state (\<lambda>st.
            let cleared = cleared_cases e (rs_tree st)
            in bind_act (for_each cleared (reset_case_records h)) (\<lambda>_.
               bind_act (modify_tree (remove_nodes cleared)) (\<lambda>_.
               bind_act (modify_state (clear_role_event re)) (\<lambda>_.
               bind_act (reset_role_event_state h re) (\<lambda>_.
               bind_act (modify_state (mark_role_event re)) (\<lambda>_.
               bind_act (process_pending av h e True []) (\<lambda>(outcomes, _).
               bind_act get_state (\<lambda>st1.
               ret \<lparr>rr_archived = sum_list (map ao_archived outcomes),
                    rr_case_count = length (rs_tree st1)\<rparr>))))))))))))"

section \<open>Locating\<close>

definition located_current :: "(channel_key, string) bmap \<Rightarrow> channel_key \<Rightarrow> string \<Rightarrow> bool" where
  "located_current current channel c \<longleftrightarrow> bm_get current channel = Some c"

fun add_case_ref :: "string \<Rightarrow> bool \<Rightarrow> located_case_ref list \<Rightarrow> located_case_ref list" where
  "add_case_ref c is_current [] = [\<lparr>lc_case_name = c, lc_is_current = is_current\<rparr>]"
| "add_case_ref c is_current (r # rs) =
     (if lc_case_name r = c then (if is_current then \<lparr>lc_case_name = c, lc_is_current = True\<rparr> else r) # rs
      else r # add_case_ref c is_current rs)"

definition merge_step ::
  "(channel_key, string) bmap \<Rightarrow> located \<Rightarrow> locate_response \<Rightarrow> locate_response" where
  "merge_step current l resp =
     (case l of (first, channel, g) \<Rightarrow>
        let cur = located_current current channel (lg_case_name g)
        in \<lparr>lr_cases = add_case_ref (lg_case_name g) cur (lr_cases resp),
            lr_groups = lr_groups resp @ [g\<lparr>lg_is_current := cur\<rparr>]\<rparr>)"

definition merge_located :: "located list \<Rightarrow> (channel_key, string) bmap \<Rightarrow> locate_response" where
  "merge_located located current =
     fold (merge_step current) (sort_key fst located) \<lparr>lr_cases = [], lr_groups = []\<rparr>"

definition locate :: "'m archiver \<Rightarrow> locate_request \<Rightarrow> ('m, locate_response) op" where
  "locate av rq =
     (let h = AgentRole (lq_agent_id rq) (role_name (lq_role_event rq));
          e = event_id (lq_role_event rq)
      in bind_act (open_role h) (\<lambda>_.
         locked h
           (bind_act (process_pending av h e False (lq_messages rq)) (\<lambda>(_, located).
            bind_act get_state (\<lambda>st.
            ret (merge_located located (current_of (role_event_of h e) st)))))))"

section \<open>Queries\<close>

definition case_list :: "agent_role \<Rightarrow> string option \<Rightarrow> ('m, case_node list) op" where
  "case_list h parent =
     bind_act (open_role h) (\<lambda>_.
     locked h (bind_act get_state (\<lambda>st.
       ret (filter (\<lambda>n. cn_parent_id n = parent) (tree_nodes (rs_tree st))))))"

definition case_summary :: "agent_role \<Rightarrow> string \<Rightarrow> ('m, case_node) op" where
  "case_summary h c =
     bind_act (open_role h) (\<lambda>_.
     locked h (bind_act get_state (\<lambda>st.
       case tree_get (rs_tree st) c of
         None \<Rightarrow> fail (StateError ''no such case'')
       | Some n \<Rightarrow> ret n)))"

definition read_case :: "agent_role \<Rightarrow> string \<Rightarrow> ('m, case_record list) op" where
  "read_case h c =
     bind_act (open_role h) (\<lambda>_.
     bind_act (locked h (bind_act get_state (\<lambda>st.
       if tree_contains (rs_tree st) c then ret () else fail (StateError ''no such case'')))) (\<lambda>_.
     read_case_records h c))"

definition case_records :: "agent_role \<Rightarrow> string \<Rightarrow> ('m, case_record list) op" where
  "case_records h c = read_case h c"

definition case_records_after :: "agent_role \<Rightarrow> string \<Rightarrow> case_cursor \<Rightarrow> ('m, case_record list) op" where
  "case_records_after h c after = bind_act (read_case h c) (\<lambda>rs. ret (records_after rs after))"

definition case_records_tail :: "agent_role \<Rightarrow> string \<Rightarrow> nat \<Rightarrow> ('m, case_record list) op" where
  "case_records_tail h c n = bind_act (read_case h c) (\<lambda>rs. ret (records_tail rs n))"

definition tree_get_all :: "agent_role \<Rightarrow> string option \<Rightarrow> ('m, (channel_key \<times> string) list \<times> case_node list) op" where
  "tree_get_all h e =
     bind_act (open_role h) (\<lambda>_.
     locked h
       (bind_act (ensure_role_event h (role_event_of h e)) (\<lambda>_.
        bind_act get_state (\<lambda>st.
        ret (current_of (role_event_of h e) st, tree_nodes (rs_tree st))))))"

definition case_count :: "agent_role \<Rightarrow> ('m, nat) op" where
  "case_count h =
     bind_act (open_role h) (\<lambda>_. locked h (bind_act get_state (\<lambda>st. ret (length (rs_tree st)))))"

end
