(* ===== verification/Archive_Batch.thy ===== *)
theory Archive_Batch
  imports Archive "HOL-Library.Multiset"
begin

text \<open>
  What \<open>merge_batch\<close>, the chunks and the watermark promise: every record and every message
  is in exactly one item of the batch, the chunks are the batch, and the watermark moves to the
  largest key of each kind and never back.
\<close>

section \<open>Merging\<close>

lemma find_duplicate_bounds:
  "find_duplicate i rs ts m = Some r \<Longrightarrow> i \<le> r \<and> r < i + length rs \<and> \<not> ts ! (r - i) \<and> duplicates (rs ! (r - i)) m"
proof (induction i rs ts m rule: find_duplicate.induct)
  case (1 i r' rs t ts m)
  show ?case
  proof (cases "\<not> t \<and> duplicates r' m")
    case False
    with 1 have "Suc i \<le> r \<and> r < Suc i + length rs \<and> \<not> ts ! (r - Suc i) \<and> duplicates (rs ! (r - Suc i)) m"
      by (simp split: if_splits)
    then show ?thesis by (simp add: nth_Cons' Suc_le_eq)
  qed (use 1 in auto)
qed auto

abbreviation batch_messages :: "batch_item list \<Rightarrow> nat list" where
  "batch_messages items \<equiv> concat (map item_messages items)"

abbreviation batch_records :: "batch_item list \<Rightarrow> record_entry list" where
  "batch_records items \<equiv> List.map_filter item_record items"

lemma item_record_add_alias [simp]: "item_record (add_alias i x) = item_record x"
  by (cases x) auto

lemma batch_records_update:
  "r < length items \<Longrightarrow> batch_records (items[r := add_alias i (items ! r)]) = batch_records items"
proof (induction items arbitrary: r)
  case (Cons x items)
  then show ?case by (cases r) (auto simp: map_filter_simps split: option.splits)
qed simp

lemma batch_messages_update:
  "r < length items \<Longrightarrow> is_stored (items ! r) \<Longrightarrow>
   mset (batch_messages (items[r := add_alias i (items ! r)])) = add_mset i (mset (batch_messages items))"
proof (induction items arbitrary: r)
  case (Cons x items)
  show ?case
  proof (cases r)
    case 0
    with Cons.prems show ?thesis by (cases x) auto
  next
    case (Suc r')
    with Cons show ?thesis by simp
  qed
qed simp

lemma is_stored_add_alias [simp]: "is_stored (add_alias i x) = is_stored x"
  by (cases x) auto

lemma merge_messages_contents:
  "length taken = length records \<Longrightarrow> length records \<le> length items \<Longrightarrow> \<forall>r < length records. is_stored (items ! r) \<Longrightarrow>
   batch_records (merge_messages records i ms taken items) = batch_records items \<and>
   mset (batch_messages (merge_messages records i ms taken items)) =
     mset (batch_messages items) + mset [i..<i + length ms]"
proof (induction records i ms taken items rule: merge_messages.induct)
  case (1 records i taken items)
  then show ?case by simp
next
  case (2 records i m ms taken items)
  show ?case
  proof (cases "find_duplicate 0 records taken m")
    case None
    let ?items = "items @ [NewItem i m]"
    have "\<forall>r < length records. is_stored (?items ! r)" using "2.prems" by (simp add: nth_append)
    with "2.IH"(1) [OF None] "2.prems" None show ?thesis
      by (simp add: map_filter_def upt_conv_Cons del: upt_Suc)
  next
    case (Some r)
    with find_duplicate_bounds have r: "r < length records" by fastforce
    let ?items = "items[r := add_alias i (items ! r)]"
    have "\<forall>k < length records. is_stored (?items ! k)" using "2.prems" r by (auto simp: nth_list_update)
    with "2.IH"(2) [OF Some] "2.prems" Some r batch_records_update [of r items i] batch_messages_update [of r items i]
    show ?thesis by (simp add: upt_conv_Cons del: upt_Suc)
  qed
qed

lemma mset_map_filter: "mset xs = mset ys \<Longrightarrow> mset (List.map_filter f xs) = mset (List.map_filter f ys)"
  by (simp add: map_filter_def mset_filter)

lemma mset_concat_map: "mset xs = mset ys \<Longrightarrow> mset (concat (map f xs)) = mset (concat (map f ys))"
proof -
  have "mset (concat (map f zs)) = (\<Sum>x \<in># mset zs. mset (f x))" for zs by (induction zs) auto
  then show "mset xs = mset ys \<Longrightarrow> mset (concat (map f xs)) = mset (concat (map f ys))" by simp
qed

lemma merge_batch_records: "mset (batch_records (merge_batch records messages)) = mset records"
proof -
  have "batch_records (map (\<lambda>r. Stored r []) records) = records"
    by (induction records) (simp_all add: map_filter_simps)
  then show ?thesis
    using merge_messages_contents [of "replicate (length records) False" records "map (\<lambda>r. Stored r []) records" 0 messages]
    by (simp add: merge_batch_def mset_map_filter [OF mset_sort])
qed

lemma merge_batch_messages: "mset (batch_messages (merge_batch records messages)) = mset [0..<length messages]"
proof -
  have "batch_messages (map (\<lambda>r. Stored r []) records) = []" by simp
  then show ?thesis
    using merge_messages_contents [of "replicate (length records) False" records "map (\<lambda>r. Stored r []) records" 0 messages]
    by (simp add: merge_batch_def mset_concat_map [OF mset_sort])
qed

lemma merge_batch_sorted: "sorted (map item_time (merge_batch records messages))"
  by (simp add: merge_batch_def)

section \<open>Chunks\<close>

lemma concat_chunks_of: "0 < n \<Longrightarrow> concat (chunks_of n xs) = xs"
  by (induction n xs rule: chunks_of.induct) (subst chunks_of.simps, auto)

lemma chunk_sizes: "c \<in> set (chunks_of n xs) \<Longrightarrow> c \<noteq> [] \<and> length c \<le> n"
proof (induction n xs rule: chunks_of.induct)
  case (1 n xs)
  show ?case
  proof (cases "xs = [] \<or> n = 0")
    case True
    with 1 show ?thesis by (simp add: chunks_of.simps)
  next
    case False
    with "1.prems" have "c = take n xs \<or> c \<in> set (chunks_of n (drop n xs))" by (subst (asm) chunks_of.simps) auto
    with 1 False show ?thesis by auto
  qed
qed

section \<open>The watermark\<close>

declare later_point.simps [simp del]

lemma later_point_ge: "p \<le> later_point e p" "entry_key e \<le> later_point e p"
  by (auto simp: later_point.simps)

definition latest :: "watermark_point \<Rightarrow> record_entry list \<Rightarrow> watermark_point" where
  "latest p es = fold later_point es p"

lemma wm_point_fold_set:
  "wm_point (fold (\<lambda>e wm. set_point k (later_point e (wm_point wm k)) wm) es wm) k' =
     (if k' = k then latest (wm_point wm k) es else wm_point wm k')"
  by (induction es arbitrary: wm) (auto simp: latest_def)

lemma wm_point_advance:
  "wm_point (advance_watermark batch wm) k = latest (wm_point wm k) (filter (\<lambda>e. re_kind e = k) batch)"
  by (cases k; simp add: advance_watermark_def all_kinds_def wm_point_fold_set
      del: wm_point.simps set_point.simps)

lemma latest_ge: "p \<le> latest p es"
proof (induction es arbitrary: p)
  case (Cons x es)
  have "p \<le> later_point x p" by (rule later_point_ge)
  also have "\<dots> \<le> latest (later_point x p) es" by (rule Cons.IH)
  finally show ?case by (simp add: latest_def)
qed (simp add: latest_def)

lemma latest_upper: "e \<in> set es \<Longrightarrow> entry_key e \<le> latest p es"
proof (induction es arbitrary: p)
  case (Cons x es)
  show ?case
  proof (cases "e = x")
    case True
    have "entry_key x \<le> later_point x p" by (rule later_point_ge)
    also have "\<dots> \<le> latest (later_point x p) es" by (rule latest_ge)
    finally show ?thesis by (simp add: True latest_def)
  next
    case False
    with Cons show ?thesis by (simp add: latest_def)
  qed
qed simp

lemma latest_attained: "latest p es = p \<or> latest p es \<in> entry_key ` set es"
proof (induction es arbitrary: p)
  case (Cons x es)
  from Cons [of "later_point x p"] show ?case by (auto simp: latest_def later_point.simps split: if_splits)
qed (simp add: latest_def)

lemma advance_watermark_covers: "e \<in> set batch \<Longrightarrow> \<not> after_watermark (advance_watermark batch wm) e"
proof -
  assume "e \<in> set batch"
  then have "entry_key e \<le> wm_point (advance_watermark batch wm) (re_kind e)"
    unfolding wm_point_advance by (intro latest_upper) simp
  then show ?thesis by (simp add: after_watermark_def not_less)
qed

end
