(* ===== verification/Archive_Inv.thy ===== *)
theory Archive_Inv
  imports Archive_Batch
begin

text \<open>
  The archiver keeps the trees well formed, its loops end, and a chunk that fails leaves no
  trace. What it needs of the model is the locale \<open>decision_interface\<close>.
\<close>

section \<open>Frames\<close>

lemma keeps_ask [keeps_intros]: "(\<And>w m. f (w\<lparr>w_model := m\<rparr>) = f w) \<Longrightarrow> keeps f (ask q)"
  by (rule keepsI) (auto simp: ask_def split: prod.splits)

lemma keeps_io_step: "(\<And>w fs. f (w\<lparr>w_faults := fs\<rparr>) = f w) \<Longrightarrow> keeps f io_step"
  by (rule keepsI) (auto simp: io_step_def split: list.splits if_splits)

lemma keeps_get_state [keeps_intros]: "keeps f get_state"
  by (simp add: get_state_def keeps_read_st)

lemma ask_run: "ask q w = (r, w') \<longleftrightarrow> (\<exists>m. q (w_model w) = (r, m) \<and> w' = w\<lparr>w_model := m\<rparr>)"
  by (auto simp: ask_def split: prod.splits)

lemma ask_err: "errs_normally q \<Longrightarrow> ask q w = (Inl e, w') \<Longrightarrow> \<not> abnormal e"
  by (auto simp: ask_run errs_normally_def)

lemma keeps_decide_loop:
  "(\<And>w m. f (w\<lparr>w_model := m\<rparr>) = f w) \<Longrightarrow> keeps f (decide_loop n av h e t text parent level)"
proof (induction n arbitrary: parent level)
  case (Suc n)
  then show ?case
    by (auto intro!: keeps_intros split: level_decision.splits)
qed (simp add: keeps_fail)

section \<open>The place of a group\<close>

definition verdict_ok :: "case_tree \<Rightarrow> group_verdict \<Rightarrow> bool" where
  "verdict_ok t v \<longleftrightarrow>
     (\<forall>p name summary. v = V_NewRole (Some p) name summary \<longrightarrow> tree_contains t p \<and> is_role_case p)"

definition decided_ok :: "case_tree \<Rightarrow> group_verdict \<Rightarrow> bool" where
  "decided_ok t v \<longleftrightarrow>
     v \<noteq> V_NewEvent \<and> (\<forall>c. v = V_Case c \<longrightarrow> is_role_case c \<and> tree_is_leaf t c) \<and> verdict_ok t v"

lemma decide_loop_Inr:
  assumes "tree_ok t"
  shows "decide_loop n av h e t text parent level w = (Inr v, w') \<Longrightarrow>
    (\<And>p. parent = Some p \<Longrightarrow> tree_contains t p \<and> is_role_case p) \<Longrightarrow>
    (\<And>c. c \<in> set level \<Longrightarrow> tree_contains t c \<and> is_role_case c) \<Longrightarrow> decided_ok t v"
proof (induction n arbitrary: parent level w)
  case 0
  then show ?case by simp
next
  case (Suc n)
  from Suc.prems(1) obtain d w1 where d: "ask (dm_decide_level (av_model av) h e text (tree_briefs t level)) w = (Inr d, w1)"
    and rest: "(case d of LD_New name summary \<Rightarrow> ret (V_NewRole parent name summary)
       | LD_Merge c \<Rightarrow>
           if c \<notin> set level then fail (ModelApiError ''not a candidate'')
           else if tree_is_leaf t c then ret (V_Case c)
           else decide_loop n av h e t text (Some c) (role_children_ids t c)) w1 = (Inr v, w')"
    by (auto simp: bind_Inr_conv)
  show ?case
  proof (cases d)
    case (LD_New name summary)
    with rest Suc.prems(2) show ?thesis by (auto simp: decided_ok_def verdict_ok_def)
  next
    case (LD_Merge c)
    with rest have c: "c \<in> set level" by (auto split: if_splits)
    show ?thesis
    proof (cases "tree_is_leaf t c")
      case True
      with rest LD_Merge c Suc.prems(3) show ?thesis by (auto simp: decided_ok_def verdict_ok_def)
    next
      case False
      with rest LD_Merge c have "decide_loop n av h e t text (Some c) (role_children_ids t c) w1 = (Inr v, w')" by simp
      then show ?thesis
      proof (rule Suc.IH)
        show "tree_contains t p \<and> is_role_case p" if "Some c = Some p" for p
          using that c Suc.prems(3) by simp
        show "tree_contains t d \<and> is_role_case d" if "d \<in> set (role_children_ids t c)" for d
          using that by (simp add: role_children_ids_iff [OF assms])
      qed
    qed
  qed
qed

lemma decide_placement_Inr:
  assumes "tree_ok t" and "decide_placement av h e t text None w = (Inr v, w')"
  shows "decided_ok t v"
  using assms(2) unfolding decide_placement_def option.case
  by (rule decide_loop_Inr [OF assms(1)]) (auto simp: role_top_level_ids_iff [OF assms(1)])

text \<open>Going down a level makes the depth larger, so the rounds suffice.\<close>

lemma nonleaf_depth:
  assumes "tree_ok t" and "tree_contains t c" and "\<not> tree_is_leaf t c"
  shows "depth t c \<le> length t"
proof -
  from assms(2,3) obtain n d where n: "bm_get t c = Some n" "d \<in> set (cn_children n)"
    by (auto simp: tree_contains_def tree_is_leaf_iff) (metis list.set_intros(1) neq_Nil_conv)
  with tree_ok_child [OF assms(1) n] have "depth t d = Suc (depth t c)" by (simp add: depth_child [OF assms(1)])
  with depth_bound [of t d] show ?thesis by simp
qed

lemma decide_loop_ends:
  assumes ok: "tree_ok t" and model: "\<And>h e text level. errs_normally (dm_decide_level (av_model av) h e text level)"
  shows "decide_loop n av h e t text parent level w = (Inl err, w') \<Longrightarrow> 0 < n \<Longrightarrow>
    (\<And>c. c \<in> set level \<Longrightarrow> tree_contains t c \<and> Suc (Suc (length t)) \<le> n + depth t c) \<Longrightarrow> \<not> abnormal err"
proof (induction n arbitrary: parent level w)
  case 0
  then show ?case by simp
next
  case (Suc n)
  let ?ask = "ask (dm_decide_level (av_model av) h e text (tree_briefs t level))"
  obtain r w1 where ask: "?ask w = (r, w1)" by fastforce
  show ?case
  proof (cases r)
    case (Inl e')
    with Suc.prems(1) ask have "err = e'" by (auto simp: bind_act_def)
    with ask_err [OF model] ask Inl show ?thesis by blast
  next
    case (Inr d)
    show ?thesis
    proof (cases d)
      case (LD_New name summary)
      with Suc.prems(1) ask Inr show ?thesis by (simp add: bind_act_def)
    next
      case (LD_Merge c)
      show ?thesis
      proof (cases "c \<in> set level \<and> \<not> tree_is_leaf t c")
        case False
        with Suc.prems(1) ask Inr LD_Merge show ?thesis by (auto simp: bind_act_def abnormal_def split: if_splits)
      next
        case True
        with Suc.prems(3) have c: "tree_contains t c" "Suc (Suc (length t)) \<le> Suc n + depth t c" by auto
        with True nonleaf_depth [OF ok c(1)] have "0 < n" by simp
        moreover have "decide_loop n av h e t text (Some c) (role_children_ids t c) w1 = (Inl err, w')"
          using Suc.prems(1) ask Inr LD_Merge True by (simp add: bind_act_def)
        moreover have "tree_contains t d \<and> Suc (Suc (length t)) \<le> n + depth t d"
          if "d \<in> set (role_children_ids t c)" for d
          using that c(2) by (simp add: role_children_ids_iff [OF ok] depth_child [OF ok, of d c])
        ultimately show ?thesis using Suc.IH by blast
      qed
    qed
  qed
qed

lemma decide_placement_ends:
  assumes "tree_ok t" and "\<And>h e text level. errs_normally (dm_decide_level (av_model av) h e text level)"
    and "decide_placement av h e t text None w = (Inl err, w')"
  shows "\<not> abnormal err"
  using assms(3) unfolding decide_placement_def option.case
  by (rule decide_loop_ends [OF assms(1,2)]) (auto simp: role_top_level_ids_iff [OF assms(1)])

section \<open>What each step may change\<close>

definition disk :: "'m world \<Rightarrow> _" where
  "disk w = (w_store w, w_trees w, w_currents w, w_marks w, w_cases w)"

lemma disk_simps [simp]:
  "disk (w\<lparr>w_model := m\<rparr>) = disk w" "disk (w\<lparr>w_state := st\<rparr>) = disk w" "disk (w\<lparr>w_faults := fs\<rparr>) = disk w"
  "disk (w\<lparr>w_ticks := n\<rparr>) = disk w" "disk (w\<lparr>w_roles := rs\<rparr>) = disk w"
  by (simp_all add: disk_def)

lemma keeps_modify_tree: "(\<And>w t. f (w\<lparr>w_state := (w_state w)\<lparr>rs_tree := t\<rparr>\<rparr>) = f w) \<Longrightarrow> keeps f (modify_tree g)"
  by (simp add: modify_tree_def keeps_modify_st)

lemma keeps_case_verdict [keeps_intros]:
  "(\<And>c. keeps f (a c)) \<Longrightarrow> (\<And>p n s. keeps f (b p n s)) \<Longrightarrow> keeps f d \<Longrightarrow>
   keeps f (case v of V_Case c \<Rightarrow> a c | V_NewRole p n s \<Rightarrow> b p n s | V_NewEvent \<Rightarrow> d)"
  by (cases v) simp_all

lemma keeps_locate_items:
  assumes "\<And>w m. f (w\<lparr>w_model := m\<rparr>) = f w"
  shows "keeps f (locate_items av h e channel items)"
  unfolding locate_items_def group_and_place_def place_one_def decide_placement_def Let_def
  by (intro keeps_intros keeps_decide_loop assms)

lemma keeps_land_one:
  assumes "\<And>w m. f (w\<lparr>w_model := m\<rparr>) = f w"
    and "\<And>w t. f (w\<lparr>w_state := (w_state w)\<lparr>rs_tree := t\<rparr>\<rparr>) = f w"
  shows "keeps f (land_one av h now e items p la)"
  unfolding land_one_def land_new_role_def land_new_event_def
  by (intro keeps_intros keeps_modify_tree assms)

lemma keeps_read_case_records:
  assumes "\<And>w fs. f (w\<lparr>w_faults := fs\<rparr>) = f w"
  shows "keeps f (read_case_records h c)"
  unfolding read_case_records_def read_case_kind_def
  by (intro keeps_intros keeps_io_step assms)

lemma keeps_recompute_summaries:
  assumes "\<And>w m. f (w\<lparr>w_model := m\<rparr>) = f w" and "\<And>w fs. f (w\<lparr>w_faults := fs\<rparr>) = f w"
  shows "keeps f (recompute_summaries av h e new_records created order)"
  unfolding recompute_summaries_def compute_summary_def Let_def
  by (intro keeps_intros keeps_read_case_records assms)

lemma keeps_append_case_records:
  assumes "\<And>w fs. f (w\<lparr>w_faults := fs\<rparr>) = f w" and "\<And>c k ls w. f (set_case_file h c k ls w) = f w"
  shows "keeps f (append_case_records h c es)"
  unfolding append_case_records_def append_kind_def Let_def
  by (intro keeps_intros keeps_io_step keeps_modify_st assms)

section \<open>The steps of a chunk\<close>

lemma archive_chunk_inner_Inr:
  assumes "archive_chunk_inner av h e channel items w = (Inr (oc, gs), w')"
  obtains now placements w1 la w2 order summaries w3 w4 where
    "now = w_clock w (w_ticks w)"
    "locate_items av h e channel items (w\<lparr>w_ticks := Suc (w_ticks w)\<rparr>) = (Inr placements, w1)"
    "fold_act (land_one av h now e items) placements no_landing w1 = (Inr la, w2)"
    "recompute_order (rs_tree (w_state w2)) (la_touched la) = Some order"
    "recompute_summaries av h e (la_new_records la) (la_created la) order w2 = (Inr summaries, w3)"
    "for_each (la_new_records la) (\<lambda>(c, es). append_case_records h c es) w3 = (Inr (), w4)"
    "w' = w4\<lparr>w_state := apply_results h e channel now (batch_records items) la summaries (w_state w4)\<rparr>"
    "oc = \<lparr>ao_archived = length (batch_records items), ao_case_names = la_case_names la\<rparr>"
    "gs = la_groups la"
  using assms
  by (auto simp: archive_chunk_inner_def modify_state_def run_simps Let_def split: option.splits)

lemma append_kind_err: "append_kind h c es k w = (Inl e, w') \<Longrightarrow> e = IoError"
  by (auto simp: append_kind_def Let_def run_simps split: if_splits)

lemma for_each_err:
  "(\<And>x s s'. f x s = (Inl e, s') \<Longrightarrow> P e) \<Longrightarrow> for_each xs f s = (Inl e, s') \<Longrightarrow> P e"
  by (induction xs arbitrary: s) (auto simp: run_simps)

lemma append_case_records_err: "append_case_records h c es w = (Inl e, w') \<Longrightarrow> e = IoError"
  by (auto simp: append_case_records_def run_simps split: if_splits dest!: for_each_err [rotated] append_kind_err)

lemma append_cases_err:
  "for_each new (\<lambda>(c, es). append_case_records h c es) w = (Inl e, w') \<Longrightarrow> e = IoError"
  by (erule for_each_err [rotated]) (auto dest: append_case_records_err)

text \<open>An error that no file operation caused comes before anything is written.\<close>

lemma archive_chunk_inner_err:
  assumes run: "archive_chunk_inner av h e channel items w = (Inl err, w')" and "err \<noteq> IoError"
  shows "disk w' = disk w \<and> w_roles w' = w_roles w"
proof -
  let ?f = "\<lambda>w. (disk w, w_roles w)"
  have land: "keeps ?f (fold_act (land_one av h now e items) placements la)" for now placements la
    by (intro keeps_intros keeps_land_one) simp_all
  have locate: "keeps ?f (locate_items av h e channel items)" by (rule keeps_locate_items) simp
  have summaries: "keeps ?f (recompute_summaries av h e new created order)" for new created order
    by (rule keeps_recompute_summaries) simp_all
  from run assms(2) have "?f w' = ?f w"
    by (auto simp: archive_chunk_inner_def modify_state_def run_simps Let_def split: option.splits
        dest!: append_cases_err keepsD [OF land] keepsD [OF locate] keepsD [OF summaries])
  then show ?thesis by simp
qed

lemma archive_chunk_err:
  assumes "archive_chunk av h e channel items w = (Inl err, w')" and "err \<noteq> IoError" and "\<not> abnormal err"
  shows "disk w' = disk w \<and> w_roles w' = w_roles w \<and> w_state w' = w_state w"
proof -
  from assms(1,3) obtain w1 where "archive_chunk_inner av h e channel items w = (Inl err, w1)"
    and "w' = w1\<lparr>w_state := w_state w\<rparr>"
    by (auto simp: archive_chunk_def split: if_splits prod.splits sum.splits)
  with archive_chunk_inner_err assms(2) show ?thesis by fastforce
qed

section \<open>Placements\<close>

lemma place_one_Inr:
  assumes "tree_ok t" and "place_one av h re t current items g w = (Inr p, w')"
  shows "verdict_ok t (pl_verdict p) \<and> pl_items p = mg_messages g \<and>
    pl_records p = stored_records items (mg_messages g) \<and> (\<forall>i\<in>set (mg_messages g). i < length items) \<and>
    (pl_verdict p = V_Case c \<longrightarrow> current = Some c \<or> is_role_case c \<and> tree_is_leaf t c) \<and>
    pl_verdict p \<noteq> V_NewEvent"
  using assms(2)
  by (auto simp: place_one_def Let_def run_simps list_all_iff verdict_ok_def decided_ok_def split: if_splits option.splits
      dest!: decide_placement_Inr [OF assms(1)])

definition placement_of :: "batch_item list \<Rightarrow> message_group \<Rightarrow> placement \<Rightarrow> bool" where
  "placement_of items g p \<longleftrightarrow>
     pl_items p = mg_messages g \<and> pl_records p = stored_records items (mg_messages g) \<and>
     (\<forall>i\<in>set (mg_messages g). i < length items) \<and> pl_verdict p \<noteq> V_NewEvent"

lemma place_all_Inr:
  assumes "tree_ok t"
  shows "fold_act (\<lambda>g acc. bind_act (place_one av h re t current items g) (\<lambda>p. ret (acc @ [p]))) gs acc w = (Inr ps, w') \<Longrightarrow>
    \<exists>qs. ps = acc @ qs \<and> list_all2 (placement_of items) gs qs \<and>
      (\<forall>p\<in>set qs. verdict_ok t (pl_verdict p) \<and>
        (\<forall>c. pl_verdict p = V_Case c \<longrightarrow> current = Some c \<or> is_role_case c \<and> tree_is_leaf t c))"
proof (induction gs arbitrary: acc w)
  case Nil
  then show ?case by simp
next
  case (Cons g gs)
  then obtain p w1 where p: "place_one av h re t current items g w = (Inr p, w1)"
    and rest: "fold_act (\<lambda>g acc. bind_act (place_one av h re t current items g) (\<lambda>p. ret (acc @ [p]))) gs (acc @ [p]) w1 = (Inr ps, w')"
    by (auto simp: run_simps)
  from Cons.IH [OF rest] obtain qs where qs: "ps = (acc @ [p]) @ qs" "list_all2 (placement_of items) gs qs"
    "\<forall>p\<in>set qs. verdict_ok t (pl_verdict p) \<and>
        (\<forall>c. pl_verdict p = V_Case c \<longrightarrow> current = Some c \<or> is_role_case c \<and> tree_is_leaf t c)" by blast
  have "ps = acc @ p # qs" using qs(1) by simp
  moreover have "list_all2 (placement_of items) (g # gs) (p # qs)"
    using qs(2) place_one_Inr [OF assms p] by (simp add: placement_of_def)
  moreover have "\<forall>p\<in>set (p # qs). verdict_ok t (pl_verdict p) \<and>
        (\<forall>c. pl_verdict p = V_Case c \<longrightarrow> current = Some c \<or> is_role_case c \<and> tree_is_leaf t c)"
    using qs(3) place_one_Inr [OF assms p] by auto
  ultimately show ?case by blast
qed

lemma locate_items_role:
  assumes "tree_ok (rs_tree (w_state w))" and "locate_items av h None channel items w = (Inr ps, w')"
  obtains gs m current where
    "dm_group (av_model av) h None (render_batch (av_printer av) items) (length items)
       (Option.bind current (tree_brief (rs_tree (w_state w)))) (w_model w) = (Inr gs, m)"
    "current = current_case (role_event_of h None) channel (w_state w)"
    "list_all2 (placement_of items) gs ps"
    "\<forall>p\<in>set ps. verdict_ok (rs_tree (w_state w)) (pl_verdict p) \<and>
        (\<forall>c. pl_verdict p = V_Case c \<longrightarrow> current = Some c \<or> is_role_case c \<and> tree_is_leaf (rs_tree (w_state w)) c)"
proof -
  let ?t = "rs_tree (w_state w)"
  let ?current = "current_case (role_event_of h None) channel (w_state w)"
  from assms(2) obtain gs w1 where
    ask: "ask (dm_group (av_model av) h None (render_batch (av_printer av) items) (length items)
       (Option.bind ?current (tree_brief ?t))) w = (Inr gs, w1)"
    and rest: "fold_act (\<lambda>g acc. bind_act (place_one av h (role_event_of h None) ?t ?current items g) (\<lambda>p. ret (acc @ [p]))) gs [] w1 = (Inr ps, w')"
    by (auto simp: locate_items_def group_and_place_def Let_def run_simps role_event_of_def)
  from ask obtain m where m: "dm_group (av_model av) h None (render_batch (av_printer av) items) (length items)
       (Option.bind ?current (tree_brief ?t)) (w_model w) = (Inr gs, m)" by (auto simp: ask_run)
  from place_all_Inr [OF assms(1) rest] have "list_all2 (placement_of items) gs ps \<and>
    (\<forall>p\<in>set ps. verdict_ok ?t (pl_verdict p) \<and>
        (\<forall>c. pl_verdict p = V_Case c \<longrightarrow> ?current = Some c \<or> is_role_case c \<and> tree_is_leaf ?t c))" by auto
  with that [OF m] show thesis by blast
qed

lemma locate_items_event:
  "locate_items av h (Some ev) channel items w = (Inr ps, w') \<Longrightarrow>
   w' = w \<and> valid_case_name ev \<and>
   ps = [\<lparr>pl_verdict = (if event_case (rs_tree (w_state w)) ev \<noteq> None then V_Case (event_case_name ev) else V_NewEvent),
          pl_items = [0..<length items], pl_records = stored_records items [0..<length items]\<rparr>]"
  by (auto simp: locate_items_def run_simps split: if_splits)

lemma locate_items_verdicts:
  assumes "tree_ok (rs_tree (w_state w))" and "locate_items av h e channel items w = (Inr ps, w')"
  shows "\<forall>p\<in>set ps. verdict_ok (rs_tree (w_state w)) (pl_verdict p)"
proof (cases e)
  case None
  with assms(2) have "locate_items av h None channel items w = (Inr ps, w')" by simp
  from locate_items_role [OF assms(1) this] show ?thesis by blast
next
  case (Some ev)
  with locate_items_event assms(2) show ?thesis by (fastforce simp: verdict_ok_def)
qed

section \<open>Landing keeps the tree well formed\<close>

definition grows :: "case_tree \<Rightarrow> case_tree \<Rightarrow> bool" where
  "grows t t' \<longleftrightarrow> (\<forall>c. tree_contains t c \<longrightarrow> tree_contains t' c)"

lemma grows_trans: "grows t t' \<Longrightarrow> grows t' t'' \<Longrightarrow> grows t t''"
  by (simp add: grows_def)

lemma contains_set_summary [simp]: "tree_contains (set_summary c s now t) d = tree_contains t d"
  by (auto simp: tree_contains_def get_set_summary)

lemma contains_apply_records [simp]: "tree_contains (apply_records c es now t) d = tree_contains t d"
  by (auto simp: tree_contains_def get_apply_records)

lemma event_case_contains: "event_case t ev = None \<longleftrightarrow> \<not> tree_contains t (event_case_name ev)"
  by (simp add: event_case_def tree_contains_def)

lemma land_new_role_state:
  "land_new_role now parent name summary la w = (r, w') \<Longrightarrow>
   rs_tree (w_state w') = (case unique_role_case_name (rs_tree (w_state w)) name of
       None \<Rightarrow> rs_tree (w_state w)
     | Some c \<Rightarrow> set_summary c summary now (create_node c parent now (rs_tree (w_state w))))"
  by (auto simp: land_new_role_def bind_act_def get_state_def read_st_def modify_tree_def modify_st_def ret_def fail_def
      split: option.splits)

lemma land_new_role_tree:
  assumes "land_new_role now parent name summary la w = (r, w')" and "tree_ok (rs_tree (w_state w))"
    and "\<And>p. parent = Some p \<Longrightarrow> tree_contains (rs_tree (w_state w)) p \<and> is_role_case p"
  shows "tree_ok (rs_tree (w_state w')) \<and> grows (rs_tree (w_state w)) (rs_tree (w_state w'))"
proof (cases "unique_role_case_name (rs_tree (w_state w)) name")
  case None
  with assms(1,2) show ?thesis by (simp add: land_new_role_state grows_def)
next
  case (Some c)
  have "tree_ok (create_node c parent now (rs_tree (w_state w)))"
    using assms(2,3) unique_role_case_name_fresh [OF Some] by (intro tree_ok_create_node) auto
  with Some assms(1) show ?thesis by (simp add: land_new_role_state grows_def tree_ok_set_summary)
qed

lemma land_new_event_state:
  assumes "land_new_event av h now e items p la w = (r, w')"
  shows "rs_tree (w_state w') = rs_tree (w_state w) \<or>
    (\<exists>ev t. e = Some ev \<and> event_case (rs_tree (w_state w)) ev = None \<and>
       t = create_node (event_case_name ev) None now (rs_tree (w_state w)) \<and>
       (rs_tree (w_state w') = t \<or> (\<exists>s. rs_tree (w_state w') = set_summary (event_case_name ev) s now t)))"
proof (cases "\<exists>ev. e = Some ev \<and> event_case (rs_tree (w_state w)) ev = None")
  case False
  with assms show ?thesis
    by (auto simp: land_new_event_def bind_act_def get_state_def read_st_def fail_def ret_def split: option.splits)
next
  case True
  then obtain ev where e: "e = Some ev" "event_case (rs_tree (w_state w)) ev = None" by blast
  with assms have "rs_tree (w_state w') = create_node (event_case_name ev) None now (rs_tree (w_state w)) \<or>
      (\<exists>s. rs_tree (w_state w') = set_summary (event_case_name ev) s now (create_node (event_case_name ev) None now (rs_tree (w_state w))))"
    by (auto simp: land_new_event_def bind_act_def get_state_def read_st_def modify_tree_def modify_st_def ret_def ask_def
        split: if_splits prod.splits sum.splits)
  with e show ?thesis by blast
qed

lemma land_new_event_tree:
  assumes "land_new_event av h now e items p la w = (r, w')" and "tree_ok (rs_tree (w_state w))"
  shows "tree_ok (rs_tree (w_state w')) \<and> grows (rs_tree (w_state w)) (rs_tree (w_state w'))"
  using land_new_event_state [OF assms(1)]
proof (elim disjE exE conjE)
  assume "rs_tree (w_state w') = rs_tree (w_state w)"
  with assms(2) show ?thesis by (simp add: grows_def)
next
  fix ev t
  assume none: "event_case (rs_tree (w_state w)) ev = None"
    and t: "t = create_node (event_case_name ev) None now (rs_tree (w_state w))"
  have ok: "tree_ok t" and grows: "grows (rs_tree (w_state w)) t"
    using assms(2) none unfolding t by (auto intro: tree_ok_create_node simp: event_case_contains grows_def)
  { assume "rs_tree (w_state w') = t"
    with ok grows show ?thesis by simp
  next
    fix s assume "rs_tree (w_state w') = set_summary (event_case_name ev) s now t"
    with ok grows show ?thesis by (simp add: tree_ok_set_summary grows_def) }
qed

lemma land_one_cases:
  assumes "land_one av h now e items p la w = (r, w')"
  obtains (known) c where "pl_verdict p = V_Case c" and "w' = w"
  | (role) parent name summary r1 where "pl_verdict p = V_NewRole parent name summary"
      and "land_new_role now parent name summary la w = (r1, w')"
  | (event) r1 where "pl_verdict p = V_NewEvent" and "land_new_event av h now e items p la w = (r1, w')"
proof (cases "pl_verdict p")
  case (V_Case c)
  with assms have "w' = w" by (auto simp: land_one_def)
  with V_Case show thesis by (rule known)
next
  case (V_NewRole parent name summary)
  with assms obtain r1 where "land_new_role now parent name summary la w = (r1, w')"
    by (cases "land_new_role now parent name summary la w") (auto simp: land_one_def bind_act_def ret_def split: sum.splits)
  with V_NewRole show thesis by (rule role)
next
  case V_NewEvent
  with assms obtain r1 where "land_new_event av h now e items p la w = (r1, w')"
    by (cases "land_new_event av h now e items p la w") (auto simp: land_one_def bind_act_def ret_def split: sum.splits)
  with V_NewEvent show thesis by (rule event)
qed

lemma land_one_tree:
  assumes run: "land_one av h now e items p la w = (r, w')" and ok: "tree_ok (rs_tree (w_state w))"
    and "verdict_ok t0 (pl_verdict p)" and "grows t0 (rs_tree (w_state w))"
  shows "tree_ok (rs_tree (w_state w')) \<and> grows (rs_tree (w_state w)) (rs_tree (w_state w'))"
  using run
proof (cases rule: land_one_cases)
  case (known c)
  with ok show ?thesis by (simp add: grows_def)
next
  case (role parent name summary r1)
  from role(2) show ?thesis
    using assms(3,4) role(1) by (intro land_new_role_tree ok) (auto simp: verdict_ok_def grows_def)
next
  case (event r1)
  from event(2) ok show ?thesis by (rule land_new_event_tree)
qed

lemma land_all_tree:
  "fold_act (land_one av h now e items) ps la w = (r, w') \<Longrightarrow> tree_ok (rs_tree (w_state w)) \<Longrightarrow>
   \<forall>p\<in>set ps. verdict_ok t0 (pl_verdict p) \<Longrightarrow> grows t0 (rs_tree (w_state w)) \<Longrightarrow>
   tree_ok (rs_tree (w_state w')) \<and> grows (rs_tree (w_state w)) (rs_tree (w_state w'))"
proof (induction ps arbitrary: la w)
  case Nil
  then show ?case by (auto simp: grows_def)
next
  case (Cons p ps)
  obtain r1 w1 where 1: "land_one av h now e items p la w = (r1, w1)" by fastforce
  have ok1: "tree_ok (rs_tree (w_state w1)) \<and> grows (rs_tree (w_state w)) (rs_tree (w_state w1))"
    using Cons.prems by (intro land_one_tree [OF 1, of t0]) auto
  show ?case
  proof (cases r1)
    case (Inl err)
    with Cons.prems(1) 1 ok1 show ?thesis by (simp add: bind_act_def)
  next
    case (Inr la1)
    with Cons.prems(1) 1 have "fold_act (land_one av h now e items) ps la1 w1 = (r, w')" by (simp add: bind_act_def)
    from Cons.IH [OF this] ok1 Cons.prems(3,4) grows_trans show ?thesis by (metis list.set_intros(2))
  qed
qed

lemma tree_ok_fold_apply: "tree_ok t \<Longrightarrow> tree_ok (fold (\<lambda>(c, es). apply_records c es now) new t)"
  by (induction new arbitrary: t) (auto intro: tree_ok_apply_records)

lemma tree_ok_fold_summary: "tree_ok t \<Longrightarrow> tree_ok (fold (\<lambda>(c, s). set_summary c s now) summaries t)"
  by (induction summaries arbitrary: t) (auto intro: tree_ok_set_summary)

end
