(* ===== verification/Service_Inv.thy ===== *)
theory Service_Inv
  imports Abstract_Service Archive_Inv
begin

text \<open>
  The invariant of the whole component: the tree of every role, opened or saved, is well formed
  and the ordered maps of every role are sorted. Every operation of the service keeps it, with
  any answers of the model and any pattern of failing file operations.
\<close>

section \<open>The invariant\<close>

definition role_ok :: "role_state \<Rightarrow> bool" where
  "role_ok st \<longleftrightarrow> tree_ok (rs_tree st) \<and> bm_ok (rs_current_cases st) \<and> bm_ok (rs_watermarks st)"

definition world_ok :: "'m world \<Rightarrow> bool" where
  "world_ok w \<longleftrightarrow>
     role_ok (w_state w) \<and>
     (\<forall>st \<in> snd ` set (w_roles w). role_ok st) \<and>
     (\<forall>f \<in> snd ` set (w_trees w). \<forall>ns. f = Json_File ns \<longrightarrow> tree_ok (tree_from_nodes ns))"

lemma role_ok_empty [simp]: "role_ok empty_role_state"
  by (simp add: role_ok_def empty_role_state_def tree_ok_empty)

definition checked :: "'m world \<Rightarrow> role_state \<times> (agent_role, role_state) hmap \<times> (agent_role, case_node list json_file) hmap" where
  "checked w = (w_state w, w_roles w, w_trees w)"

lemma checked_ok: "checked w' = checked w \<Longrightarrow> world_ok w \<Longrightarrow> world_ok w'"
  by (simp add: checked_def world_ok_def)

lemma preserves_checked: "keeps checked m \<Longrightarrow> preserves world_ok m"
  by (erule preserves_keeps) (erule checked_ok)

lemma world_ok_roles: "world_ok w \<Longrightarrow> role_ok st \<Longrightarrow> world_ok (w\<lparr>w_roles := hm_insert h st (w_roles w)\<rparr>)"
  using set_hm_insert [of h st "w_roles w"] by (fastforce simp: world_ok_def)

lemma world_ok_trees:
  "world_ok w \<Longrightarrow> (\<And>ns. f = Json_File ns \<Longrightarrow> tree_ok (tree_from_nodes ns)) \<Longrightarrow>
   world_ok (w\<lparr>w_trees := hm_insert h f (w_trees w)\<rparr>)"
  using set_hm_insert [of h f "w_trees w"] by (fastforce simp: world_ok_def)

lemma world_ok_state: "world_ok w \<Longrightarrow> role_ok st \<Longrightarrow> world_ok (w\<lparr>w_state := st\<rparr>)"
  by (simp add: world_ok_def)

lemma world_ok_get: "world_ok w \<Longrightarrow> hm_get (w_roles w) h = Some st \<Longrightarrow> role_ok st"
  by (force simp: world_ok_def dest: map_of_SomeD)

section \<open>Trees and their files\<close>

lemma tree_file_from_nodes:
  assumes "tree_ok t"
  shows "tree_from_nodes (tree_file t) = t"
proof -
  let ?kvs = "map (\<lambda>n. (cn_case_name n, n)) (tree_nodes t)"
  have bm: "bm_ok t" using assms by (rule tree_okD)
  have distinct_names: "distinct (map fst ?kvs)"
  proof -
    have names: "map cn_case_name (map snd t) = map fst t"
      using tree_ok_name [OF assms] bm_get_in [OF bm] by (auto simp: comp_def)
    have "mset (map cn_case_name (tree_nodes t)) = mset (map cn_case_name (map snd t))"
      by (metis mset_map mset_tree_nodes)
    with names distinct_bm [OF bm] show ?thesis by (metis (no_types, lifting) map_map comp_def fst_conv map_eq_conv mset_eq_imp_distinct_iff)
  qed
  have "bm_collect ?kvs = t"
  proof (rule bm_ext)
    show "bm_get (bm_collect ?kvs) k = bm_get t k" for k
    proof (cases "bm_get t k")
      case None
      have "k \<notin> fst ` set ?kvs"
      proof
        assume "k \<in> fst ` set ?kvs"
        then obtain n where "n \<in> set (tree_nodes t)" "k = cn_case_name n" by auto
        with set_tree_nodes [OF bm] tree_ok_name [OF assms] None show False by force
      qed
      then have "map_of (rev ?kvs) k = None" by (simp only: map_of_eq_None_iff) simp
      with None show ?thesis by (simp only: bm_get_collect)
    next
      case (Some n)
      with set_tree_nodes [OF bm] tree_ok_name [OF assms] have "(k, n) \<in> set ?kvs" by force
      then have "map_of (rev ?kvs) k = Some n"
        using distinct_names by (intro map_of_is_SomeI) (simp_all add: rev_map [symmetric])
      with Some show ?thesis by (simp add: bm_get_collect)
    qed
  qed (simp_all add: bm)
  moreover have "map (\<lambda>n. (cn_case_name n, n)) (map snd t) = t"
    unfolding map_map
  proof (rule map_idI)
    fix x assume "x \<in> set t"
    then have "bm_get t (fst x) = Some (snd x)" using bm_get_in [OF bm, of "fst x" "snd x"] by simp
    with tree_ok_name [OF assms] show "((\<lambda>n. (cn_case_name n, n)) \<circ> snd) x = x" by (simp add: prod_eq_iff)
  qed
  ultimately show ?thesis by (simp add: tree_from_nodes_def tree_file_def bm_collect_sorted [OF bm])
qed

section \<open>The archiver\<close>

lemma checked_simps [simp]:
  "checked (w\<lparr>w_model := m\<rparr>) = checked w" "checked (w\<lparr>w_faults := fs\<rparr>) = checked w"
  "checked (w\<lparr>w_ticks := n\<rparr>) = checked w" "checked (w\<lparr>w_currents := f\<rparr>) = checked w"
  "checked (w\<lparr>w_marks := g\<rparr>) = checked w" "checked (w\<lparr>w_cases := a\<rparr>) = checked w"
  "checked (set_case_file h c k ls w) = checked w"
  by (simp_all add: checked_def set_case_file_def)

lemma preserves_io_step [preserves_intros]: "preserves world_ok io_step"
  by (intro preserves_checked keeps_io_step) simp

lemma preserves_get_state [preserves_intros]: "preserves world_ok get_state"
  by (simp add: get_state_def preserves_read_st)

lemma preserves_now_string [preserves_intros]: "preserves world_ok now_string"
  by (rule preserves_checked, rule keepsI) auto

lemma preserves_ask [preserves_intros]: "preserves world_ok (ask q)"
  by (intro preserves_checked keeps_ask) simp

lemma preserves_append [preserves_intros]: "preserves world_ok (append_case_records h c es)"
  by (intro preserves_checked keeps_append_case_records) simp_all

lemma preserves_summaries: "preserves world_ok (recompute_summaries av h e new created order)"
  by (intro preserves_checked keeps_recompute_summaries) simp_all

lemma role_ok_tree: "role_ok st \<Longrightarrow> tree_ok t \<Longrightarrow> role_ok (st\<lparr>rs_tree := t\<rparr>)"
  by (simp add: role_ok_def)

lemma role_ok_apply_results: "role_ok st \<Longrightarrow> role_ok (apply_results h e channel now records la summaries st)"
  by (simp add: role_ok_def apply_results_def Let_def tree_ok_fold_apply tree_ok_fold_summary)

lemma preserves_modify_state: "(\<And>st. role_ok st \<Longrightarrow> role_ok (f st)) \<Longrightarrow> preserves world_ok (modify_state f)"
  unfolding modify_state_def by (rule preserves_modify_st) (simp add: world_ok_def)

lemma checked_state: "checked w' = checked w \<Longrightarrow> w_state w' = w_state w"
  by (simp add: checked_def)

text \<open>Locating reads, landing grows the tree; what follows a failed step is not reached.\<close>

definition other_state :: "'m world \<Rightarrow> _" where
  "other_state w = ((w_state w)\<lparr>rs_tree := []\<rparr>, w_roles w, w_trees w)"

lemma other_state_ok:
  assumes "world_ok w" and "other_state w' = other_state w" and "tree_ok (rs_tree (w_state w'))"
  shows "world_ok w'"
proof -
  have "rs_current_cases (w_state w') = rs_current_cases (w_state w)"
    and "rs_watermarks (w_state w') = rs_watermarks (w_state w)"
    using assms(2) by (simp_all add: other_state_def) (metis role_state.select_convs(2,3) role_state.surjective role_state.update_convs(1))+
  with assms show ?thesis by (simp add: world_ok_def role_ok_def other_state_def)
qed

lemma keeps_land_all: "keeps other_state (fold_act (land_one av h now e items) ps la)"
  by (intro keeps_intros keeps_land_one) (simp_all add: other_state_def)

lemma preserves_archive_chunk_inner: "preserves world_ok (archive_chunk_inner av h e channel items)"
proof (rule preservesI)
  fix w :: "'a world" and r w'
  assume ok: "world_ok w" and run: "archive_chunk_inner av h e channel items w = (r, w')"
  let ?now = "w_clock w (w_ticks w)"
  let ?w0 = "w\<lparr>w_ticks := Suc (w_ticks w)\<rparr>"
  obtain r1 w1 where 1: "locate_items av h e channel items ?w0 = (r1, w1)" by fastforce
  have "checked w1 = checked w" using keepsD [OF keeps_locate_items 1, of checked] by simp
  then have ok1: "world_ok w1" and st1: "w_state w1 = w_state w" using ok by (auto dest: checked_ok checked_state)
  show "world_ok w'"
  proof (cases r1)
    case (Inl err)
    with run 1 ok1 show ?thesis by (simp add: archive_chunk_inner_def bind_act_def now_string_def)
  next
    case (Inr ps)
    obtain r2 w2 where 2: "fold_act (land_one av h ?now e items) ps no_landing w1 = (r2, w2)" by fastforce
    have "tree_ok (rs_tree (w_state w2))"
    proof (rule land_all_tree [OF 2, THEN conjunct1])
      show "tree_ok (rs_tree (w_state w1))" using ok1 by (simp add: world_ok_def role_ok_def)
      show "\<forall>p\<in>set ps. verdict_ok (rs_tree (w_state w1)) (pl_verdict p)"
        using locate_items_verdicts [OF _ 1 [unfolded Inr]] ok st1 by (simp add: world_ok_def role_ok_def)
    qed (simp add: grows_def)
    with ok1 keepsD [OF keeps_land_all 2] have ok2: "world_ok w2" by (rule other_state_ok)
    define rest where "rest la = bind_act get_state (\<lambda>st.
       case recompute_order (rs_tree st) (la_touched la) of
         None \<Rightarrow> fail Diverges
       | Some order \<Rightarrow>
           bind_act (recompute_summaries av h e (la_new_records la) (la_created la) order) (\<lambda>summaries.
           bind_act (for_each (la_new_records la) (\<lambda>(c, es). append_case_records h c es)) (\<lambda>_.
           let records = List.map_filter item_record items
           in bind_act (modify_state (apply_results h e channel ?now records la summaries)) (\<lambda>_.
              ret (\<lparr>ao_archived = length records, ao_case_names = la_case_names la\<rparr>, la_groups la)))))"
      for la :: landing and w :: "'a world"
    have "preserves world_ok (rest la)" for la
      unfolding rest_def Let_def
      by (intro preserves_intros preserves_summaries preserves_modify_state role_ok_apply_results)
    moreover have "(case r2 of Inl err \<Rightarrow> (r, w') = (Inl err, w2) | Inr la \<Rightarrow> rest la w2 = (r, w'))"
      using run 1 2 Inr
      by (auto simp: archive_chunk_inner_def bind_act_def now_string_def rest_def split: sum.splits)
    ultimately show ?thesis using ok2 by (auto split: sum.splits dest: preservesD)
  qed
qed

lemma preserves_archive_chunk: "preserves world_ok (archive_chunk av h e channel items)"
proof (rule preservesI)
  fix w :: "'a world" and r w'
  assume ok: "world_ok w" and run: "archive_chunk av h e channel items w = (r, w')"
  obtain r1 w1 where 1: "archive_chunk_inner av h e channel items w = (r1, w1)" by fastforce
  from preservesD [OF preserves_archive_chunk_inner ok 1] have "world_ok w1" .
  moreover have "w' = w \<or> w' = w1 \<or> w' = w1\<lparr>w_state := w_state w\<rparr>"
    using run 1 by (auto simp: archive_chunk_def split: if_splits sum.splits)
  ultimately show "world_ok w'" using ok by (auto simp: world_ok_def)
qed

section \<open>State files\<close>

lemma preserves_write_json: "(\<And>w. world_ok w \<Longrightarrow> world_ok (f w)) \<Longrightarrow> preserves world_ok (write_json f)"
  unfolding write_json_def by (intro preserves_intros preserves_modify_st)

lemma preserves_remove_file: "(\<And>w. world_ok w \<Longrightarrow> world_ok (f w)) \<Longrightarrow> preserves world_ok (remove_file f)"
  unfolding remove_file_def by (intro preserves_intros preserves_modify_st)

lemma preserves_read_json: "preserves world_ok (read_json f)"
proof -
  have "keeps checked (read_json f)"
    unfolding read_json_def
    by (intro keeps_intros keeps_io_step) (auto split: option.splits json_file.splits intro: keeps_intros)
  then show ?thesis by (rule preserves_checked)
qed

lemma read_json_Inr:
  assumes "\<And>w fs. f (w\<lparr>w_faults := fs\<rparr>) = f w" and run: "read_json f w = (Inr found, w')"
  shows "f w = map_option Json_File found \<and> w' = w\<lparr>w_faults := tl (w_faults w)\<rparr>"
proof -
  from run obtain w1 where io: "io_step w = (Inr (), w1)"
    by (auto simp: read_json_def run_simps)
  then have w1: "w1 = w\<lparr>w_faults := tl (w_faults w)\<rparr>" by (auto simp: io_step_Inr)
  then have "f w1 = f w" using assms(1) by simp
  with run io w1 show ?thesis
    by (auto simp: read_json_def bind_act_def read_st_def split: option.splits json_file.splits)
qed

lemma preserves_save_tree: "tree_ok t \<Longrightarrow> preserves world_ok (save_tree h t)"
  unfolding save_tree_def
  by (rule preserves_write_json) (rule world_ok_trees, auto simp: tree_file_from_nodes)

lemma preserves_save_current: "preserves world_ok (save_current h e current)"
  unfolding save_current_def
  by (intro preserves_intros preserves_write_json preserves_remove_file) (simp_all add: world_ok_def)

lemma preserves_save_watermark: "preserves world_ok (save_watermark h e wms)"
  unfolding save_watermark_def by (rule preserves_write_json) (simp add: world_ok_def)

lemma preserves_save_state [preserves_intros]: "preserves world_ok (save_state h e)"
proof (rule preservesI)
  fix w :: "'a world" and r w'
  assume ok: "world_ok w" and run: "save_state h e w = (r, w')"
  let ?st = "w_state w"
  have "preserves world_ok (bind_act (save_tree h (rs_tree ?st)) (\<lambda>_.
     bind_act (save_current h e (current_of e ?st)) (\<lambda>_. save_watermark h e (watermarks_of e ?st))))"
    using ok by (intro preserves_intros preserves_save_tree preserves_save_current preserves_save_watermark)
      (simp add: world_ok_def role_ok_def)
  then show "world_ok w'"
    using ok run by (auto simp: save_state_def bind_act_def get_state_def read_st_def dest: preservesD)
qed

lemma bm_ok_load_pointers: "bm_ok m \<Longrightarrow> bm_ok (load_pointers e entries m)"
  unfolding load_pointers_def by (induction entries arbitrary: m) auto

lemma preserves_put_state: "role_ok st \<Longrightarrow> preserves world_ok (put_state st)"
  unfolding put_state_def by (rule preserves_modify_st) (simp add: world_ok_def)

lemma preserves_ensure_role_event [preserves_intros]: "preserves world_ok (ensure_role_event h e)"
proof (rule preservesI)
  fix w :: "'a world" and r w'
  assume ok: "world_ok w" and run: "ensure_role_event h e w = (r, w')"
  let ?st = "w_state w"
  have "preserves world_ok (bind_act (put_state (snd (take_unloaded e ?st))) (\<lambda>_.
       if \<not> fst (take_unloaded e ?st) then ret ()
       else
         bind_act (read_json (\<lambda>w. w_currents w (event_dir h e))) (\<lambda>current.
         bind_act (modify_state (\<lambda>st. st\<lparr>rs_current_cases := load_pointers e (or_empty current) (rs_current_cases st)\<rparr>)) (\<lambda>_.
         bind_act (read_json (\<lambda>w. w_marks w (event_dir h e))) (\<lambda>wms.
         modify_state (\<lambda>st. st\<lparr>rs_watermarks := load_pointers e (or_empty wms) (rs_watermarks st)\<rparr>))))))"
    using ok by (intro preserves_intros preserves_put_state preserves_read_json preserves_modify_state)
      (auto simp: role_ok_def world_ok_def take_unloaded_def bm_ok_load_pointers)
  then show "world_ok w'"
    using ok run by (auto simp: ensure_role_event_def bind_act_def get_state_def read_st_def dest: preservesD)
qed

lemma preserves_reset_role_event_state [preserves_intros]: "preserves world_ok (reset_role_event_state h e)"
  unfolding reset_role_event_state_def
  by (intro preserves_intros preserves_remove_file) (simp_all add: world_ok_def)

lemma keeps_clear_case_records:
  "(\<And>w fs. f (w\<lparr>w_faults := fs\<rparr>) = f w) \<Longrightarrow> (\<And>w a. f (w\<lparr>w_cases := a\<rparr>) = f w) \<Longrightarrow> keeps f (reset_case_records h c)"
  unfolding reset_case_records_def clear_case_records_def
  by (intro keeps_intros keeps_io_step keeps_modify_st)

section \<open>The service\<close>

lemma preserves_archive [preserves_intros]: "preserves world_ok (archive av h e channel records messages)"
  unfolding archive_def archive_step_def Let_def
  by (intro preserves_intros preserves_archive_chunk)

lemma keeps_list_store_files:
  assumes "\<And>w fs. f (w\<lparr>w_faults := fs\<rparr>) = f w"
  shows "keeps f (list_store_files agent suffix kind from_date)"
  unfolding list_store_files_def by (intro keeps_intros keeps_io_step assms)

lemma keeps_list_store_suffixes:
  assumes "\<And>w fs. f (w\<lparr>w_faults := fs\<rparr>) = f w"
  shows "keeps f (list_store_suffixes agent role)"
  unfolding list_store_suffixes_def by (intro keeps_intros keeps_io_step assms)

lemma keeps_read_store_records:
  assumes "\<And>w fs. f (w\<lparr>w_faults := fs\<rparr>) = f w"
  shows "keeps f (read_store_records agent suffix)"
  unfolding read_store_records_def read_store_files_def Let_def
  by (intro keeps_intros keeps_list_store_files keeps_io_step assms)

lemma preserves_read_view [preserves_intros]: "preserves world_ok (read_view h e)"
  unfolding read_view_def by (intro preserves_checked keeps_read_store_records) simp

lemma role_ok_clear_dirty: "role_ok st \<Longrightarrow> role_ok (clear_dirty e processed st)"
  by (simp add: role_ok_def clear_dirty_def)

lemma preserves_process_pending [preserves_intros]: "preserves world_ok (process_pending av h e force messages)"
  unfolding process_pending_def process_channel_def archive_located_def Let_def
  by (intro preserves_intros preserves_modify_state role_ok_clear_dirty)

lemma preserves_locked:
  assumes "preserves world_ok m"
  shows "preserves world_ok (locked h m)"
proof (rule preservesI)
  fix w :: "'a world" and r w'
  assume ok: "world_ok w" and run: "locked h m w = (r, w')"
  let ?st = "case hm_get (w_roles w) h of Some st \<Rightarrow> st | None \<Rightarrow> empty_role_state"
  obtain r1 w1 where 1: "m (w\<lparr>w_state := ?st\<rparr>) = (r1, w1)" by fastforce
  have "role_ok ?st" using ok by (auto split: option.splits dest: world_ok_get)
  then have "world_ok (w\<lparr>w_state := ?st\<rparr>)" using ok by (simp add: world_ok_state)
  from preservesD [OF assms this 1] have ok1: "world_ok w1" .
  then have "world_ok (w1\<lparr>w_roles := hm_insert h (w_state w1) (w_roles w1)\<rparr>)"
    by (intro world_ok_roles) (simp_all add: world_ok_def)
  then have "world_ok (w1\<lparr>w_roles := hm_insert h (w_state w1) (w_roles w1), w_state := w_state w\<rparr>)"
    using ok by (intro world_ok_state) (simp_all add: world_ok_def)
  with run 1 show "world_ok w'" by (simp add: locked_def)
qed

lemma load_role_ok:
  assumes ok: "world_ok w" and run: "load_role h w = (r, w')"
  shows "world_ok w' \<and> (\<forall>st. r = Inr st \<longrightarrow> role_ok st)"
proof -
  have suffixes: "keeps checked (list_store_suffixes a b)" for a b by (rule keeps_list_store_suffixes) simp
  have "preserves world_ok (load_role h)"
    unfolding load_role_def by (intro preserves_intros preserves_read_json preserves_checked suffixes)
  moreover have "role_ok st" if "r = Inr st" for st
  proof -
    from run that obtain nodes w1 where nodes: "read_json (\<lambda>w. hm_get (w_trees w) h) w = (Inr nodes, w1)"
      and st: "rs_tree st = (case nodes of Some ns \<Rightarrow> tree_from_nodes ns | None \<Rightarrow> [])"
        "rs_current_cases st = []" "rs_watermarks st = []"
      by (auto simp: load_role_def run_simps empty_role_state_def)
    from nodes have "nodes = Some ns \<Longrightarrow> hm_get (w_trees w) h = Some (Json_File ns)" for ns
      by (auto dest!: read_json_Inr [rotated])
    with ok have "nodes = Some ns \<Longrightarrow> tree_ok (tree_from_nodes ns)" for ns
      by (force simp: world_ok_def dest: map_of_SomeD)
    with st show ?thesis by (simp add: role_ok_def tree_ok_empty split: option.splits)
  qed
  ultimately show ?thesis using ok run by (auto dest: preservesD)
qed

lemma preserves_open_role [preserves_intros]: "preserves world_ok (open_role h)"
proof (rule preservesI)
  fix w :: "'a world" and r w'
  assume ok: "world_ok w" and run: "open_role h w = (r, w')"
  show "world_ok w'"
  proof (cases "hm_get (w_roles w) h")
    case (Some st)
    with run ok show ?thesis by (simp add: open_role_def bind_act_def read_st_def ret_def)
  next
    case None
    obtain r1 w1 where 1: "load_role h w = (r1, w1)" by fastforce
    from load_role_ok [OF ok 1] have "world_ok w1" "\<And>st. r1 = Inr st \<Longrightarrow> role_ok st" by auto
    with run None 1 show ?thesis
      by (cases r1) (auto simp: open_role_def bind_act_def read_st_def modify_st_def world_ok_roles)
  qed
qed

lemma role_ok_marks [simp]:
  "role_ok st \<Longrightarrow> role_ok (mark_channel e c st)"
  "role_ok st \<Longrightarrow> role_ok (mark_role_event e st)"
  "role_ok st \<Longrightarrow> role_ok (mark_suffixes suffixes st)"
  "role_ok st \<Longrightarrow> role_ok (clear_role_event e st)"
  by (simp_all add: role_ok_def mark_channel_def mark_role_event_def mark_suffixes_def clear_role_event_def)

lemma cleared_closed:
  assumes "tree_ok t" and "c \<in> set (cleared_cases e t)" and "parent_of t d = Some c"
  shows "d \<in> set (cleared_cases e t)"
proof (cases e)
  case None
  from assms(3) obtain n where n: "bm_get t d = Some n" "cn_parent_id n = Some c" by (auto simp: parent_of_simps)
  with tree_ok_modes [OF assms(1) n(1)] have "is_role_case d" by auto
  moreover have "d \<in> fst ` set t" using n(1) by (force dest: map_of_SomeD)
  ultimately show ?thesis using None by (simp add: cleared_cases_def role_case_ids_def)
next
  case (Some ev)
  then obtain n where n: "bm_get t (event_case_name ev) = Some n" and c: "c = event_case_name ev"
    using assms(2) tree_ok_name [OF assms(1)]
    by (cases "bm_get t (event_case_name ev)") (auto simp: cleared_cases_def event_case_def)
  from assms(3) obtain m where "bm_get t d = Some m" "cn_parent_id m = Some c" by (auto simp: parent_of_simps)
  with tree_ok_links [OF assms(1)] obtain q where "bm_get t c = Some q" "d \<in> set (cn_children q)" by blast
  moreover have "cn_children n = []" using tree_ok_modes [OF assms(1) n] by simp
  ultimately show ?thesis using n c by simp
qed

lemma preserves_rebuild: "preserves world_ok (rebuild av h e)"
proof -
  let ?re = "role_event_of h e"
  define after where "after = bind_act (modify_state (clear_role_event ?re)) (\<lambda>_.
               bind_act (reset_role_event_state h ?re) (\<lambda>_.
               bind_act (modify_state (mark_role_event ?re)) (\<lambda>_.
               bind_act (process_pending av h e True []) (\<lambda>(outcomes, _).
               bind_act get_state (\<lambda>st1.
               ret \<lparr>rr_archived = sum_list (map ao_archived outcomes),
                    rr_case_count = length (rs_tree st1)\<rparr>)))))"
  have after: "preserves world_ok after"
    unfolding after_def by (intro preserves_intros preserves_modify_state role_ok_marks)
  have clear: "keeps checked (for_each cs (reset_case_records h))" for cs
    by (intro keeps_intros keeps_clear_case_records) simp_all
  have "preserves world_ok (bind_act get_state (\<lambda>st.
            bind_act (for_each (cleared_cases e (rs_tree st)) (reset_case_records h)) (\<lambda>_.
            bind_act (modify_tree (remove_nodes (cleared_cases e (rs_tree st)))) (\<lambda>_. after))))"
  proof (rule preservesI)
    fix w :: "'a world" and r w'
    let ?cs = "cleared_cases e (rs_tree (w_state w))"
    assume ok: "world_ok w" and run: "bind_act get_state (\<lambda>st.
            bind_act (for_each (cleared_cases e (rs_tree st)) (reset_case_records h)) (\<lambda>_.
            bind_act (modify_tree (remove_nodes (cleared_cases e (rs_tree st)))) (\<lambda>_. after))) w = (r, w')"
    obtain r1 w1 where 1: "for_each ?cs (reset_case_records h) w = (r1, w1)" by fastforce
    from keepsD [OF clear 1] have same: "checked w1 = checked w" .
    with ok have ok1: "world_ok w1" by (rule checked_ok [rotated])
    have "tree_ok (remove_nodes ?cs (rs_tree (w_state w1)))"
    proof (rule tree_ok_remove_nodes)
      show ok': "tree_ok (rs_tree (w_state w1))" using ok1 by (simp add: world_ok_def role_ok_def)
      show "d \<in> set ?cs" if "c \<in> set ?cs" "parent_of (rs_tree (w_state w1)) d = Some c" for c d
        using cleared_closed ok' that checked_state [OF same] by metis
    qed
    with ok1 have "world_ok (w1\<lparr>w_state := (w_state w1)\<lparr>rs_tree := remove_nodes ?cs (rs_tree (w_state w1))\<rparr>\<rparr>)"
      by (intro world_ok_state role_ok_tree) (simp_all add: world_ok_def)
    then show "world_ok w'"
      using run 1 ok1 after
      by (cases r1) (auto simp: bind_act_def get_state_def read_st_def modify_tree_def modify_st_def dest: preservesD)
  qed
  then show ?thesis
    unfolding rebuild_def Let_def after_def [symmetric]
    by (intro preserves_bind [OF preserves_open_role] preserves_locked preserves_bind [OF preserves_ensure_role_event])
qed

lemma preserves_on_notification: "preserves world_ok (on_notification kind n)"
  unfolding on_notification_def Let_def
  by (intro preserves_intros preserves_locked preserves_modify_state) (simp split: option.splits if_splits)

lemma preserves_mark_role_dirty [preserves_intros]: "preserves world_ok (mark_role_dirty h)"
proof (rule preservesI)
  fix w :: "'a world" and r w'
  assume ok: "world_ok w" and run: "mark_role_dirty h w = (r, w')"
  obtain r1 w1 where 1: "list_store_suffixes (ar_agent_id h) (ar_role h) w = (r1, w1)" by fastforce
  have "keeps checked (list_store_suffixes a b)" for a b by (rule keeps_list_store_suffixes) simp
  from keepsD [OF this 1] ok have ok1: "world_ok w1" by (rule checked_ok)
  show "world_ok w'"
  proof (cases r1)
    case (Inl err)
    with run 1 ok1 show ?thesis by (auto simp: mark_role_dirty_def split: if_splits)
  next
    case (Inr suffixes)
    have "preserves world_ok (locked h (modify_state (mark_suffixes suffixes)))"
      by (intro preserves_locked preserves_modify_state) simp
    with run 1 ok1 Inr show ?thesis by (auto simp: mark_role_dirty_def dest: preservesD)
  qed
qed

lemma preserves_read_case_records [preserves_intros]: "preserves world_ok (read_case_records h c)"
  by (intro preserves_checked keeps_read_case_records) simp

lemma preserves_read_case [preserves_intros]: "preserves world_ok (read_case h c)"
  unfolding read_case_def by (intro preserves_intros preserves_locked)

section \<open>Reachable worlds\<close>

text \<open>
  What can happen to the component: a request, a restart that forgets the memory, and changes
  of the surroundings, which write records, damage pointer and watermark files and let coming
  file operations fail.
\<close>

inductive service_step :: "'m archiver \<Rightarrow> 'm world \<Rightarrow> 'm world \<Rightarrow> bool" for av :: "'m archiver" where
  notification: "on_notification kind n w = (r, w') \<Longrightarrow> service_step av w w'"
| all_dirty: "mark_all_dirty w = (r, w') \<Longrightarrow> service_step av w w'"
| trigger: "manual_trigger av h e w = (r, w') \<Longrightarrow> service_step av w w'"
| rebuild: "rebuild av h e w = (r, w') \<Longrightarrow> service_step av w w'"
| locate: "locate av rq w = (r, w') \<Longrightarrow> service_step av w w'"
| list: "case_list h parent w = (r, w') \<Longrightarrow> service_step av w w'"
| summary: "case_summary h c w = (r, w') \<Longrightarrow> service_step av w w'"
| records: "case_records h c w = (r, w') \<Longrightarrow> service_step av w w'"
| after: "case_records_after h c cursor w = (r, w') \<Longrightarrow> service_step av w w'"
| tail: "case_records_tail h c n w = (r, w') \<Longrightarrow> service_step av w w'"
| tree: "tree_get_all h e w = (r, w') \<Longrightarrow> service_step av w w'"
| number: "case_count h w = (r, w') \<Longrightarrow> service_step av w w'"
| restore: "load_all w = (r, w') \<Longrightarrow> service_step av w w'"
| restart: "w' = w\<lparr>w_roles := [], w_state := empty_role_state\<rparr> \<Longrightarrow> service_step av w w'"
| outside: "w' = w\<lparr>w_store := store, w_currents := currents, w_marks := marks, w_faults := faults\<rparr> \<Longrightarrow> service_step av w w'"

inductive service_reachable :: "'m archiver \<Rightarrow> 'm world \<Rightarrow> bool" for av :: "'m archiver" where
  start: "w_trees w = [] \<Longrightarrow> w_roles w = [] \<Longrightarrow> w_state w = empty_role_state \<Longrightarrow> service_reachable av w"
| step: "service_reachable av w \<Longrightarrow> service_step av w w' \<Longrightarrow> service_reachable av w'"

lemma preserves_queries:
  "preserves world_ok (manual_trigger av h e)" "preserves world_ok (locate av rq)"
  "preserves world_ok (case_list h parent)" "preserves world_ok (case_summary h c)"
  "preserves world_ok (case_records h c)" "preserves world_ok (case_records_after h c cursor)"
  "preserves world_ok (case_records_tail h c n)" "preserves world_ok (tree_get_all h e)"
  "preserves world_ok (case_count h)" "preserves world_ok mark_all_dirty"
  unfolding manual_trigger_def locate_def case_list_def case_summary_def case_records_def case_records_after_def
    case_records_tail_def tree_get_all_def case_count_def mark_all_dirty_def Let_def
  by (intro preserves_intros preserves_locked)+

lemma preserves_io_skip [preserves_intros]: "preserves world_ok io_skip"
proof (rule preservesI)
  fix w :: "'a world" and r w'
  assume ok: "world_ok w" and run: "io_skip w = (r, w')"
  obtain r1 w1 where 1: "io_step w = (r1, w1)" by fastforce
  from preservesD [OF preserves_io_step ok 1] run 1 show "world_ok w'"
    by (auto simp: io_skip_def split: sum.splits)
qed

lemma preserves_load_all: "preserves world_ok load_all"
  unfolding load_all_def load_agent_def by (intro preserves_intros)

lemma service_step_ok: "service_step av w w' \<Longrightarrow> world_ok w \<Longrightarrow> world_ok w'"
proof (induction rule: service_step.induct)
  case (restart w' w)
  then show ?case by (simp add: world_ok_def)
next
  case (outside w' w store currents marks faults)
  then show ?case by (simp add: world_ok_def)
qed (blast intro: preservesD [OF preserves_on_notification] preservesD [OF preserves_rebuild]
    preservesD [OF preserves_load_all] preserves_queries [THEN preservesD])+

lemma service_reachable_ok: "service_reachable av w \<Longrightarrow> world_ok w"
proof (induction rule: service_reachable.induct)
  case (start w)
  then show ?case by (simp add: world_ok_def)
next
  case (step w w')
  then show ?case by (blast intro: service_step_ok)
qed

end
