(* ===== verification/Samples.thy ===== *)
theory Samples
  imports Service_Inv
begin

text \<open>
  A small world to run the operations of the summary memory in: one agent with one role, a
  shared record file with a message and a thought of one channel, and the stub model.
\<close>

definition sample_handle :: agent_role where
  "sample_handle = AgentRole ''a'' ''d''"

definition sample_channel :: channel_key where
  "sample_channel = ChannelKey ''web'' ''bot'' ''g''"

definition sample_printer :: printer where
  "sample_printer = \<lparr>pr_content = (\<lambda>_. None), pr_blocks = (\<lambda>_. None), pr_value = (\<lambda>_. '''')\<rparr>"

definition sample_archiver :: "stub_model archiver" where
  "sample_archiver = new_archiver stub_decision_model 9 sample_printer"

definition sample_message :: "string \<Rightarrow> content \<Rightarrow> nat \<Rightarrow> record_body" where
  "sample_message t c n = Body_Channel \<lparr>cr_msg_id = t, cr_user_id = ''u'', cr_self_user_id = ''bot'',
     cr_messenger_id = ''web'', cr_group_id = ''g'', cr_is_self = 0, cr_messenger_name = ''Web'',
     cr_user_name = ''U'', cr_group_name = ''G'', cr_content = c, cr_time = t, cr_sn = n\<rparr>"

definition sample_thought :: "string \<Rightarrow> nat \<Rightarrow> record_body" where
  "sample_thought t n = Body_Think \<lparr>tk_reasoning_content = None, tk_thinking = Some ''hm'', tk_key = ''k'',
     tk_time = t, tk_sn = n\<rparr>"

definition sample_files :: "store_dir list" where
  "sample_files = [(''2026-d'',
     [(''channel-records-3.jsonl'',
        [Rec (sample_message ''3'' (Content_Text ''hi'') 1),
         Rec (sample_message ''4'' (Content_Think ''k'') 2)]),
      (''think-records-3.jsonl'', [Rec (sample_thought ''4'' 1)])])]"

definition sample_world :: "stub_model world" where
  "sample_world = \<lparr>w_store = (\<lambda>a. if a = ''a'' then Some sample_files else None), w_trees = [],
     w_currents = (\<lambda>_. None), w_marks = (\<lambda>_. None), w_cases = (\<lambda>_ _ _. None), w_faults = [],
     w_clock = (\<lambda>_. ''now''), w_ticks = 0, w_model = \<lparr>sm_summary_count = 0\<rparr>,
     w_roles = [], w_state = empty_role_state\<rparr>"

text \<open>The world after archiving all of it, and what is to see there.\<close>

definition sample_done :: "stub_model world" where
  "sample_done = snd (manual_trigger sample_archiver sample_handle None sample_world)"

definition sample_node :: case_node where
  "sample_node = \<lparr>cn_case_name = ''role-case'', cn_parent_id = None, cn_children = [],
     cn_summary = stub_summary_prefix, cn_record_count = 3, cn_start_time = ''3'', cn_end_time = ''4'',
     cn_created_at = ''now'', cn_updated_at = ''now''\<rparr>"

lemma sample_run:
  "(case manual_trigger sample_archiver sample_handle None sample_world of
      (r, w) \<Rightarrow> (r, map (\<lambda>(h, st). (h, rs_tree st, rs_current_cases st)) (w_roles w), w_trees w,
        w_cases w sample_handle ''role-case'' Kind_Think, w_currents w (''a'', ''d''))) =
   (Inr \<lparr>ao_archived = 3, ao_case_names = [''role-case'']\<rparr>,
    [(sample_handle, [(''role-case'', sample_node)], [((RoleEvent ''d'' None, sample_channel), ''role-case'')])],
    [(sample_handle, Json_File [sample_node])], Some [Rec (sample_thought ''4'' 1)],
    Some (Json_File [(sample_channel, ''role-case'')]))"
  by code_simp

lemma sample_results:
  "fst (manual_trigger sample_archiver sample_handle None sample_world) =
     Inr \<lparr>ao_archived = 3, ao_case_names = [''role-case'']\<rparr>"
  "map (\<lambda>(h, st). (h, rs_tree st, rs_current_cases st)) (w_roles sample_done) =
     [(sample_handle, [(''role-case'', sample_node)], [((RoleEvent ''d'' None, sample_channel), ''role-case'')])]"
  "w_trees sample_done = [(sample_handle, Json_File [sample_node])]"
  "w_cases sample_done sample_handle ''role-case'' Kind_Think = Some [Rec (sample_thought ''4'' 1)]"
  "w_currents sample_done (''a'', ''d'') = Some (Json_File [(sample_channel, ''role-case'')])"
  using sample_run by (auto simp: sample_done_def split_beta)

end
