(* ===== verification/Archive_Effect.thy ===== *)
theory Archive_Effect
  imports Archive_Inv
begin

text \<open>
  What a successful chunk leaves behind: which records went to which case, what the case files
  hold afterwards, and that the chunk always comes to an end.
\<close>

section \<open>Groups and cases\<close>

definition recs_of :: "landing \<Rightarrow> string \<Rightarrow> record_entry list" where
  "recs_of la c = or_empty (hm_get (la_new_records la) c)"

lemma recs_of_land_records:
  "recs_of (land_records c messages records la) d = recs_of la d @ (if d = c then records else [])"
  by (auto simp: recs_of_def land_records_def Let_def hm_get_extend or_empty_def split: option.splits)

lemma groups_land_records:
  "la_groups (land_records c messages records la) = la_groups la @ [\<lparr>pg_messages = messages, pg_case_name = c\<rparr>]"
  by (simp add: land_records_def Let_def)

lemma hm_ok_land_records: "hm_ok (la_new_records la) \<Longrightarrow> hm_ok (la_new_records (land_records c messages records la))"
  by (simp add: land_records_def Let_def)

lemma land_created_simps [simp]:
  "la_new_records (land_created c la) = la_new_records la" "la_groups (land_created c la) = la_groups la"
  by (simp_all add: land_created_def)

text \<open>Which case a placement lands in, as far as its verdict says.\<close>

definition lands_in :: "string option \<Rightarrow> placement \<Rightarrow> string \<Rightarrow> bool" where
  "lands_in e p c \<longleftrightarrow>
     (case pl_verdict p of
        V_Case d \<Rightarrow> c = d
      | V_NewRole parent name summary \<Rightarrow> is_role_case c
      | V_NewEvent \<Rightarrow> (\<exists>ev. e = Some ev \<and> c = event_case_name ev))"

lemma land_one_effect:
  assumes "land_one av h now e items p la w = (Inr la', w')"
  obtains c la1 where "la' = land_records c (placement_messages items p) (pl_records p) la1"
    and "la_new_records la1 = la_new_records la" and "la_groups la1 = la_groups la" and "lands_in e p c"
proof -
  from assms obtain c la1 where step: "(case pl_verdict p of
          V_Case c \<Rightarrow> ret (c, la)
        | V_NewRole parent name summary \<Rightarrow> land_new_role now parent name summary la
        | V_NewEvent \<Rightarrow> land_new_event av h now e items p la) w = (Inr (c, la1), w')"
    and la': "la' = land_records c (placement_messages items p) (pl_records p) la1"
    by (auto simp: land_one_def run_simps)
  have "la_new_records la1 = la_new_records la \<and> la_groups la1 = la_groups la \<and> lands_in e p c"
    using step unique_role_case_name_fresh(2)
    by (auto simp: lands_in_def land_new_role_def land_new_event_def run_simps
        split: group_verdict.splits option.splits if_splits)
  with la' that show thesis by blast
qed

lemma land_all_effect:
  "fold_act (land_one av h now e items) ps la w = (Inr la', w') \<Longrightarrow>
   \<exists>cs. list_all2 (lands_in e) ps cs \<and>
     la_groups la' = la_groups la @ map2 (\<lambda>p c. \<lparr>pg_messages = placement_messages items p, pg_case_name = c\<rparr>) ps cs \<and>
     (\<forall>d. recs_of la' d = recs_of la d @ concat (map2 (\<lambda>p c. if d = c then pl_records p else []) ps cs)) \<and>
     (hm_ok (la_new_records la) \<longrightarrow> hm_ok (la_new_records la'))"
proof (induction ps arbitrary: la w)
  case Nil
  then show ?case by simp
next
  case (Cons p ps)
  then obtain la0 w1 where 1: "land_one av h now e items p la w = (Inr la0, w1)"
    and 2: "fold_act (land_one av h now e items) ps la0 w1 = (Inr la', w')" by (auto simp: run_simps)
  from land_one_effect [OF 1] obtain c la1 where c: "la0 = land_records c (placement_messages items p) (pl_records p) la1"
    "la_new_records la1 = la_new_records la" "la_groups la1 = la_groups la" "lands_in e p c" by metis
  have la1: "recs_of la1 d = recs_of la d" for d using c(2) by (simp add: recs_of_def)
  from Cons.IH [OF 2] obtain cs where cs: "list_all2 (lands_in e) ps cs"
    "la_groups la' = la_groups la0 @ map2 (\<lambda>p c. \<lparr>pg_messages = placement_messages items p, pg_case_name = c\<rparr>) ps cs"
    "\<forall>d. recs_of la' d = recs_of la0 d @ concat (map2 (\<lambda>p c. if d = c then pl_records p else []) ps cs)"
    "hm_ok (la_new_records la0) \<longrightarrow> hm_ok (la_new_records la')" by blast
  show ?case
    using cs c la1
    by (intro exI [of _ "c # cs"]) (auto simp: groups_land_records recs_of_land_records hm_ok_land_records)
qed

section \<open>The files of the cases\<close>

definition case_bodies :: "'m world \<Rightarrow> agent_role \<Rightarrow> string \<Rightarrow> record_kind \<Rightarrow> case_record list" where
  "case_bodies w h c k = List.map_filter (parse_case_record k) (case_file_lines w h c k)"

definition entry_ok :: "record_entry \<Rightarrow> bool" where
  "entry_ok e \<longleftrightarrow> e = entry_of_body (re_body e)"

lemma entry_ok_kind: "entry_ok e \<Longrightarrow> body_kind (re_body e) = re_kind e"
  unfolding entry_ok_def entry_of_body_def by (metis record_entry.select_convs(1))

definition bodies_of :: "record_kind \<Rightarrow> record_entry list \<Rightarrow> case_record list" where
  "bodies_of k es = map re_body (filter (\<lambda>e. re_kind e = k) es)"

lemma bodies_of_append [simp]: "bodies_of k (es @ fs) = bodies_of k es @ bodies_of k fs"
  by (simp add: bodies_of_def)

lemma bodies_of_Nil [simp]: "bodies_of k [] = []"
  by (simp add: bodies_of_def)

lemma parse_new_lines:
  "\<forall>e\<in>set es. entry_ok e \<Longrightarrow>
   List.map_filter (parse_case_record k) (map (\<lambda>e. Rec (re_body e)) (filter (\<lambda>e. re_kind e = k) es)) = bodies_of k es"
  by (induction es) (auto simp: bodies_of_def map_filter_simps entry_ok_kind)

lemma map_filter_append: "List.map_filter f (xs @ ys) = List.map_filter f xs @ List.map_filter f ys"
  by (simp add: map_filter_def)

lemma case_bodies_faults [simp]: "case_bodies (w\<lparr>w_faults := fs\<rparr>) = case_bodies w"
  by (simp add: fun_eq_iff case_bodies_def case_file_lines_def)

lemma case_bodies_other [simp]:
  "case_bodies (w\<lparr>w_state := st\<rparr>) = case_bodies w" "case_bodies (w\<lparr>w_model := m\<rparr>) = case_bodies w"
  "case_bodies (w\<lparr>w_ticks := n\<rparr>) = case_bodies w" "case_bodies (w\<lparr>w_roles := rs\<rparr>) = case_bodies w"
  "case_bodies (w\<lparr>w_trees := ts\<rparr>) = case_bodies w" "case_bodies (w\<lparr>w_currents := cs\<rparr>) = case_bodies w"
  "case_bodies (w\<lparr>w_marks := ms\<rparr>) = case_bodies w"
  by (simp_all add: fun_eq_iff case_bodies_def case_file_lines_def)

lemma disk_bodies: "disk w' = disk w \<Longrightarrow> case_bodies w' = case_bodies w"
  by (simp add: fun_eq_iff disk_def case_bodies_def case_file_lines_def)

lemma append_kind_effect:
  assumes "\<forall>e\<in>set es. entry_ok e" and "append_kind h c es k w = (Inr (), w')"
  shows "case_bodies w' h' c' k' = case_bodies w h' c' k' @ (if h' = h \<and> c' = c \<and> k' = k then bodies_of k es else [])"
proof (cases "filter (\<lambda>e. re_kind e = k) es = []")
  case True
  with assms(2) show ?thesis by (auto simp: append_kind_def bodies_of_def filter_empty_conv)
next
  case False
  let ?new = "map (\<lambda>e. Rec (re_body e)) (filter (\<lambda>e. re_kind e = k) es)"
  from False assms(2) obtain fs where "w' = set_case_file h c k (Some (case_file_lines w h c k @ ?new)) (w\<lparr>w_faults := fs\<rparr>)"
    by (auto simp: append_kind_def Let_def run_simps case_file_lines_def) (metis world.surjective world.update_convs(6))+
  then have "case_file_lines w' h' c' k' = case_file_lines w h' c' k' @ (if h' = h \<and> c' = c \<and> k' = k then ?new else [])"
    by (auto simp: case_file_lines_def set_case_file_def)
  then show ?thesis by (simp add: case_bodies_def map_filter_append parse_new_lines [OF assms(1)])
qed

lemma append_kinds_effect:
  assumes "\<forall>e\<in>set es. entry_ok e"
  shows "for_each ks (append_kind h c es) w = (Inr (), w') \<Longrightarrow> distinct ks \<Longrightarrow>
   case_bodies w' h' c' k = case_bodies w h' c' k @ (if h' = h \<and> c' = c \<and> k \<in> set ks then bodies_of k es else [])"
proof (induction ks arbitrary: w)
  case Nil
  then show ?case by simp
next
  case (Cons k0 ks)
  then obtain w1 where 1: "append_kind h c es k0 w = (Inr (), w1)" and 2: "for_each ks (append_kind h c es) w1 = (Inr (), w')"
    by (auto simp: run_simps)
  from Cons.IH [OF 2] append_kind_effect [OF assms 1, of h' c' k] Cons.prems(2) show ?case by auto
qed

lemma append_case_records_effect:
  assumes "\<forall>e\<in>set es. entry_ok e" and "append_case_records h c es w = (Inr (), w')"
  shows "case_bodies w' h' c' k = case_bodies w h' c' k @ (if h' = h \<and> c' = c then bodies_of k es else [])"
proof (cases "es = []")
  case True
  with assms(2) show ?thesis by (simp add: append_case_records_def)
next
  case False
  with assms(2) obtain w1 where io: "io_step w = (Inr (), w1)"
    and "for_each all_kinds (append_kind h c es) w1 = (Inr (), w')"
    by (auto simp: append_case_records_def bind_Inr_conv)
  moreover from io have "case_bodies w1 = case_bodies w" by (auto simp: io_step_Inr)
  moreover have "k \<in> set all_kinds" "distinct all_kinds" by (cases k; simp add: all_kinds_def)+
  ultimately show ?thesis using append_kinds_effect [OF assms(1), of all_kinds h c w1 w' h' c' k] by simp
qed

lemma append_cases_effect:
  "for_each new (\<lambda>(c, es). append_case_records h c es) w = (Inr (), w') \<Longrightarrow> hm_ok new \<Longrightarrow>
   \<forall>es\<in>snd ` set new. \<forall>e\<in>set es. entry_ok e \<Longrightarrow>
   case_bodies w' h' c k = case_bodies w h' c k @ (if h' = h then bodies_of k (or_empty (hm_get new c)) else [])"
proof (induction new arbitrary: w)
  case Nil
  then show ?case by (simp add: or_empty_def)
next
  case (Cons ce new)
  obtain c0 es where ce: "ce = (c0, es)" by (cases ce)
  with Cons.prems obtain w1 where 1: "append_case_records h c0 es w = (Inr (), w1)"
    and 2: "for_each new (\<lambda>(c, es). append_case_records h c es) w1 = (Inr (), w')"
    by (auto simp: run_simps)
  from Cons.prems(2) ce have "hm_get new c0 = None" by (simp add: map_of_eq_None_iff)
  with Cons.IH [OF 2] append_case_records_effect [OF _ 1, of h' c k] Cons.prems ce show ?case
    by (auto simp: or_empty_def)
qed

section \<open>A chunk that succeeds\<close>

lemma stored_records_append: "stored_records items (is @ js) = stored_records items is @ stored_records items js"
  by (simp add: stored_records_def map_filter_append)

lemma stored_records_concat: "stored_records items (concat iss) = concat (map (stored_records items) iss)"
  by (induction iss) (simp_all add: stored_records_append, simp add: stored_records_def map_filter_simps)

lemma stored_records_all: "stored_records items [0..<length items] = batch_records items"
proof -
  have "batch_records (map ((!) items) is) = stored_records items is" for "is"
    by (induction "is") (simp_all add: stored_records_def map_filter_simps split: option.splits)
  from this [of "[0..<length items]"] show ?thesis by (simp add: map_nth)
qed

lemma stored_records_set: "\<forall>i\<in>set is. i < length items \<Longrightarrow> set (stored_records items is) \<subseteq> set (batch_records items)"
proof (induction "is")
  case (Cons i "is")
  have "set (stored_records items [i]) \<subseteq> set (batch_records items)"
  proof (cases "item_record (items ! i)")
    case (Some r)
    have "items ! i \<in> set items" using Cons.prems by simp
    with Some have "r \<in> set (batch_records items)"
      by (force simp: map_filter_def)
    with Some show ?thesis by (simp add: stored_records_def map_filter_simps)
  qed (simp add: stored_records_def map_filter_simps)
  with Cons show ?case using stored_records_append [of items "[i]" "is"] by simp
qed (simp add: stored_records_def map_filter_simps)

text \<open>The indices the groups of a chunk cover, and the case of each group.\<close>

record chunk_plan =
  cp_groups :: "nat list list"
  cp_cases :: "string list"

definition planned :: "batch_item list \<Rightarrow> chunk_plan \<Rightarrow> string \<Rightarrow> record_entry list" where
  "planned items pn c = concat (map2 (\<lambda>g d. if c = d then stored_records items g else []) (cp_groups pn) (cp_cases pn))"

lemma land_plan:
  assumes run: "fold_act (land_one av h now e items) ps no_landing w = (Inr la, w')"
    and shape: "\<forall>p\<in>set ps. pl_records p = stored_records items (pl_items p) \<and> (\<forall>i\<in>set (pl_items p). i < length items)"
    and entries: "\<forall>r\<in>set (batch_records items). entry_ok r"
  obtains pn where "cp_groups pn = map pl_items ps" and "length (cp_cases pn) = length ps"
    and "list_all2 (lands_in e) ps (cp_cases pn)"
    and "\<And>d. or_empty (hm_get (la_new_records la) d) = planned items pn d"
    and "hm_ok (la_new_records la)"
    and "\<forall>es\<in>snd ` set (la_new_records la). \<forall>r\<in>set es. entry_ok r"
    and "map pg_case_name (la_groups la) = cp_cases pn"
    and "map pg_messages (la_groups la) = map (placement_messages items) ps"
proof -
  from land_all_effect [OF run] obtain cs where cs: "list_all2 (lands_in e) ps cs"
    "la_groups la = map2 (\<lambda>p c. \<lparr>pg_messages = placement_messages items p, pg_case_name = c\<rparr>) ps cs"
    "\<And>d. recs_of la d = concat (map2 (\<lambda>p c. if d = c then pl_records p else []) ps cs)"
    "hm_ok (la_new_records la)"
    by (auto simp: no_landing_def recs_of_def or_empty_def)
  let ?pn = "\<lparr>cp_groups = map pl_items ps, cp_cases = cs\<rparr>"
  have len: "length cs = length ps" using cs(1) by (simp add: list_all2_lengthD)
  have recs: "recs_of la d = planned items ?pn d" for d
  proof -
    have "map2 (\<lambda>p c. if d = c then pl_records p else []) ps cs =
      map2 (\<lambda>g c. if d = c then stored_records items g else []) (map pl_items ps) cs"
      using shape by (auto simp: zip_map1 set_zip_leftD split: prod.splits dest: set_zip_leftD)
    then show ?thesis by (simp add: cs(3) planned_def)
  qed
  have "entry_ok r" if "es \<in> snd ` set (la_new_records la)" "r \<in> set es" for es r
  proof -
    from that(1) obtain d where "hm_get (la_new_records la) d = Some es"
      using cs(4) by (auto simp: image_iff)
    then have "r \<in> set (recs_of la d)" using that(2) by (simp add: recs_of_def or_empty_def)
    then obtain p c where "(p, c) \<in> set (zip ps cs)" "r \<in> set (pl_records p)"
      by (auto simp: cs(3) split: if_splits)
    then have "p \<in> set ps" "r \<in> set (pl_records p)" by (auto dest: set_zip_leftD)
    with shape stored_records_set entries show ?thesis by (metis subsetD)
  qed
  moreover have "map pg_case_name (la_groups la) = cs" "map pg_messages (la_groups la) = map (placement_messages items) ps"
    using len by (simp_all add: cs(2) comp_def split_def map_zip_fst map_zip_snd)
  ultimately show thesis
    using that [of ?pn] recs len cs(1,4) by (simp add: recs_of_def)
qed

text \<open>How the plan of a chunk comes about.\<close>

definition plan_of :: "'m archiver \<Rightarrow> agent_role \<Rightarrow> string option \<Rightarrow> batch_item list \<Rightarrow> chunk_plan \<Rightarrow> bool" where
  "plan_of av h e items pn \<longleftrightarrow>
     length (cp_cases pn) = length (cp_groups pn) \<and> (\<forall>g\<in>set (cp_groups pn). \<forall>i\<in>set g. i < length items) \<and>
     (case e of
        None \<Rightarrow> \<exists>text current m gs m'.
          dm_group (av_model av) h None text (length items) current m = (Inr gs, m') \<and>
          cp_groups pn = map mg_messages gs
      | Some ev \<Rightarrow> cp_groups pn = [[0..<length items]] \<and> cp_cases pn = [event_case_name ev])"

lemma locate_items_shape:
  assumes "tree_ok (rs_tree (w_state w))" and "locate_items av h e channel items w = (Inr ps, w')"
  shows "(\<forall>p\<in>set ps. pl_records p = stored_records items (pl_items p) \<and> (\<forall>i\<in>set (pl_items p). i < length items)) \<and>
    (case e of
       None \<Rightarrow> (\<exists>text current m gs m'. dm_group (av_model av) h None text (length items) current m = (Inr gs, m') \<and>
                map pl_items ps = map mg_messages gs)
     | Some ev \<Rightarrow> map pl_items ps = [[0..<length items]] \<and> (\<forall>cs. list_all2 (lands_in e) ps cs \<longrightarrow> cs = [event_case_name ev]))"
proof (cases e)
  case (Some ev)
  with locate_items_event [of av h ev channel items w ps w'] assms(2) show ?thesis
    by (auto simp: lands_in_def list_all2_Cons1)
next
  case None
  with assms(2) have "locate_items av h None channel items w = (Inr ps, w')" by simp
  from locate_items_role [OF assms(1) this] obtain gs tx current m m' where
    g: "dm_group (av_model av) h None tx (length items) current m = (Inr gs, m')"
    and all2: "list_all2 (placement_of items) gs ps" by metis
  from all2 have "map pl_items ps = map mg_messages gs"
    by (induction rule: list_all2_induct) (auto simp: placement_of_def)
  moreover from all2 have "\<forall>p\<in>set ps. pl_records p = stored_records items (pl_items p) \<and> (\<forall>i\<in>set (pl_items p). i < length items)"
    by (induction rule: list_all2_induct) (auto simp: placement_of_def)
  ultimately show ?thesis unfolding None option.case using g by blast
qed

definition group_messages :: "batch_item list \<Rightarrow> nat list \<Rightarrow> nat list" where
  "group_messages items g = sort (concat (map (\<lambda>i. item_messages (items ! i)) g))"

text \<open>The number of records a node says it has.\<close>

definition counted :: "case_tree \<Rightarrow> string \<Rightarrow> nat" where
  "counted t c = (case bm_get t c of Some n \<Rightarrow> cn_record_count n | None \<Rightarrow> 0)"

lemma counted_create: "\<not> tree_contains t c \<Longrightarrow> counted (create_node c parent now t) d = counted t d"
  by (auto simp: counted_def get_create_node new_node_def push_child_def tree_contains_def split: option.splits)

lemma counted_set_summary [simp]: "counted (set_summary c s now t) d = counted t d"
  by (auto simp: counted_def get_set_summary split: option.splits)

lemma counted_apply:
  "counted (apply_records c es now t) d = counted t d + (if d = c \<and> tree_contains t c then length es else 0)"
  by (auto simp: counted_def get_apply_records tree_contains_def split: option.splits)

lemma counted_fold_apply:
  "hm_ok new \<Longrightarrow> counted (fold (\<lambda>(c, es). apply_records c es now) new t) d =
     counted t d + (if tree_contains t d then length (or_empty (hm_get new d)) else 0)"
proof (induction new arbitrary: t)
  case Nil
  then show ?case by (simp add: or_empty_def)
next
  case (Cons ce new)
  obtain c es where ce: "ce = (c, es)" by (cases ce)
  with Cons.prems have "hm_get new c = None" by (simp add: map_of_eq_None_iff)
  with Cons ce show ?case by (auto simp: counted_apply or_empty_def)
qed

lemma fold_set_summary_same:
  "counted (fold (\<lambda>(c, s). set_summary c s now) summaries t) d = counted t d"
  "tree_contains (fold (\<lambda>(c, s). set_summary c s now) summaries t) d = tree_contains t d"
  by (induction summaries arbitrary: t) auto

lemma contains_fold_apply:
  "tree_contains (fold (\<lambda>(c, es). apply_records c es now) new t) d = tree_contains t d"
proof (induction new arbitrary: t)
  case (Cons ce new)
  then show ?case by (cases ce) simp
qed simp

lemma land_one_counted:
  assumes "land_one av h now e items p la w = (r, w')"
  shows "counted (rs_tree (w_state w')) d = counted (rs_tree (w_state w)) d"
  using assms
proof (cases rule: land_one_cases)
  case (known c)
  then show ?thesis by simp
next
  case (role parent name summary r1)
  then show ?thesis
    using unique_role_case_name_fresh(1)
    by (auto simp: land_new_role_state counted_create split: option.splits)
next
  case (event r1)
  from land_new_event_state [OF event(2)] show ?thesis
    by (auto simp: counted_create event_case_contains)
qed

lemma land_all_counted:
  "fold_act (land_one av h now e items) ps la w = (r, w') \<Longrightarrow>
   counted (rs_tree (w_state w')) d = counted (rs_tree (w_state w)) d"
proof (induction ps arbitrary: la w)
  case (Cons p ps)
  obtain r1 w1 where 1: "land_one av h now e items p la w = (r1, w1)" by fastforce
  with Cons land_one_counted [OF 1, of d] show ?case by (cases r1) (auto simp: bind_act_def)
qed simp

section \<open>The effect of a chunk\<close>

lemma archive_chunk_Inr:
  "items \<noteq> [] \<Longrightarrow> archive_chunk av h e channel items w = (Inr x, w') \<longleftrightarrow>
     archive_chunk_inner av h e channel items w = (Inr x, w')"
  by (auto simp: archive_chunk_def split: prod.splits sum.splits)

definition saved_files :: "'m world \<Rightarrow> _" where
  "saved_files w = (w_store w, w_trees w, w_currents w, w_marks w)"

lemma saved_files_simps [simp]:
  "saved_files (w\<lparr>w_model := m\<rparr>) = saved_files w" "saved_files (w\<lparr>w_state := st\<rparr>) = saved_files w"
  "saved_files (w\<lparr>w_faults := fs\<rparr>) = saved_files w" "saved_files (w\<lparr>w_ticks := n\<rparr>) = saved_files w"
  "saved_files (set_case_file h c k ls w) = saved_files w"
  "w_roles (set_case_file h c k ls w) = w_roles w" "w_state (set_case_file h c k ls w) = w_state w"
  by (simp_all add: saved_files_def set_case_file_def)

lemma keeps_append_cases:
  assumes "\<And>w fs. f (w\<lparr>w_faults := fs\<rparr>) = f w" and "\<And>c k ls w. f (set_case_file h c k ls w) = f w"
  shows "keeps f (for_each new (\<lambda>(c, es). append_case_records h c es))"
  by (intro keeps_intros keeps_append_case_records assms)

lemma keeps_land_all_f:
  assumes "\<And>w m. f (w\<lparr>w_model := m\<rparr>) = f w"
    and "\<And>w t. f (w\<lparr>w_state := (w_state w)\<lparr>rs_tree := t\<rparr>\<rparr>) = f w"
  shows "keeps f (fold_act (land_one av h now e items) ps la)"
  by (intro keeps_intros keeps_land_one assms)

text \<open>The parts of the role's state a chunk changes only under its own key.\<close>

definition state_but_tree :: "'m world \<Rightarrow> role_state" where
  "state_but_tree w = (w_state w)\<lparr>rs_tree := []\<rparr>"

lemma state_but_tree_simps [simp]:
  "state_but_tree (w\<lparr>w_model := m\<rparr>) = state_but_tree w" "state_but_tree (w\<lparr>w_faults := fs\<rparr>) = state_but_tree w"
  "state_but_tree (w\<lparr>w_ticks := n\<rparr>) = state_but_tree w" "state_but_tree (set_case_file h c k ls w) = state_but_tree w"
  "state_but_tree (w\<lparr>w_state := (w_state w)\<lparr>rs_tree := t\<rparr>\<rparr>) = state_but_tree w"
  by (simp_all add: state_but_tree_def set_case_file_def)

lemma state_but_tree_eq:
  assumes "state_but_tree w' = state_but_tree w"
  shows "rs_current_cases (w_state w') = rs_current_cases (w_state w)" "rs_watermarks (w_state w') = rs_watermarks (w_state w)"
    "rs_loaded (w_state w') = rs_loaded (w_state w)" "rs_dirty_suffixes (w_state w') = rs_dirty_suffixes (w_state w)"
    "rs_dirty_channels (w_state w') = rs_dirty_channels (w_state w)"
  using assms unfolding state_but_tree_def
  by (metis role_state.select_convs role_state.surjective role_state.update_convs(1))+

text \<open>Everything a successful chunk does, with the plan it followed.\<close>

definition chunk_done ::
  "'m archiver \<Rightarrow> agent_role \<Rightarrow> string option \<Rightarrow> channel_key \<Rightarrow> batch_item list \<Rightarrow> 'm world \<Rightarrow> 'm world \<Rightarrow>
   archive_outcome \<Rightarrow> place_group list \<Rightarrow> chunk_plan \<Rightarrow> bool" where
  "chunk_done av h e channel items w w' oc gs pn \<longleftrightarrow>
     plan_of av h e items pn \<and>
     (\<forall>h' c k. case_bodies w' h' c k = case_bodies w h' c k @ (if h' = h then bodies_of k (planned items pn c) else [])) \<and>
     map pg_case_name gs = cp_cases pn \<and>
     map pg_messages gs = map (group_messages items) (cp_groups pn) \<and>
     ao_archived oc = length (batch_records items) \<and>
     saved_files w' = saved_files w \<and> w_roles w' = w_roles w \<and>
     rs_watermarks (w_state w') = bm_insert (role_event_of h e, channel)
       (advance_watermark (batch_records items) (watermark_of (role_event_of h e) channel (w_state w))) (rs_watermarks (w_state w)) \<and>
     rs_current_cases (w_state w') = (if gs = [] then rs_current_cases (w_state w)
       else bm_insert (role_event_of h e, channel) (pg_case_name (last gs)) (rs_current_cases (w_state w))) \<and>
     rs_loaded (w_state w') = rs_loaded (w_state w) \<and> rs_dirty_suffixes (w_state w') = rs_dirty_suffixes (w_state w) \<and>
     rs_dirty_channels (w_state w') = rs_dirty_channels (w_state w) \<and>
     (\<forall>c. counted (rs_tree (w_state w')) c = counted (rs_tree (w_state w)) c +
       (if tree_contains (rs_tree (w_state w')) c then length (planned items pn c) else 0)) \<and>
     grows (rs_tree (w_state w)) (rs_tree (w_state w')) \<and>
     tree_ok (rs_tree (w_state w'))"

lemma chunk_run:
  assumes ne: "items \<noteq> []" and run: "archive_chunk av h e channel items w = (Inr (oc, gs), w')"
    and ok: "tree_ok (rs_tree (w_state w))" and entries: "\<forall>r\<in>set (batch_records items). entry_ok r"
  shows "\<exists>pn. chunk_done av h e channel items w w' oc gs pn"
proof -
  let ?t = "rs_tree (w_state w)"
  from run ne have "archive_chunk_inner av h e channel items w = (Inr (oc, gs), w')" by (simp add: archive_chunk_Inr)
  then obtain now ps w1 la w2 order summaries w3 w4 where
    locate: "locate_items av h e channel items (w\<lparr>w_ticks := Suc (w_ticks w)\<rparr>) = (Inr ps, w1)" and
    land: "fold_act (land_one av h now e items) ps no_landing w1 = (Inr la, w2)" and
    sums: "recompute_summaries av h e (la_new_records la) (la_created la) order w2 = (Inr summaries, w3)" and
    app: "for_each (la_new_records la) (\<lambda>(c, es). append_case_records h c es) w3 = (Inr (), w4)" and
    w': "w' = w4\<lparr>w_state := apply_results h e channel now (batch_records items) la summaries (w_state w4)\<rparr>" and
    oc: "oc = \<lparr>ao_archived = length (batch_records items), ao_case_names = la_case_names la\<rparr>" and gs: "gs = la_groups la"
    by (rule archive_chunk_inner_Inr)
  let ?w0 = "w\<lparr>w_ticks := Suc (w_ticks w)\<rparr>"
  have st1: "w_state w1 = w_state w"
    using keepsD [OF keeps_locate_items locate, of w_state] by simp
  have tree3: "rs_tree (w_state w3) = rs_tree (w_state w2)"
    using keepsD [OF keeps_recompute_summaries sums, of "\<lambda>w. rs_tree (w_state w)"] by simp
  have tree4: "rs_tree (w_state w4) = rs_tree (w_state w2)"
    using keepsD [OF keeps_append_cases app, of "\<lambda>w. rs_tree (w_state w)"] tree3 by simp
  let ?f = "\<lambda>w. (saved_files w, w_roles w, state_but_tree w)"
  have frames: "?f w4 = ?f w"
  proof -
    have "?f w1 = ?f w" using keepsD [OF keeps_locate_items locate, of ?f] by simp
    moreover have "?f w2 = ?f w1" using keepsD [OF keeps_land_all_f land, of ?f] by simp
    moreover have "?f w3 = ?f w2" using keepsD [OF keeps_recompute_summaries sums, of ?f] by simp
    moreover have "?f w4 = ?f w3" using keepsD [OF keeps_append_cases app, of ?f] by simp
    ultimately show ?thesis by simp
  qed
  have bodies3: "case_bodies w3 = case_bodies w"
  proof -
    have "disk w1 = disk w" using keepsD [OF keeps_locate_items locate, of disk] by simp
    moreover have "disk w2 = disk w1" using keepsD [OF keeps_land_all_f land, of disk] by simp
    moreover have "disk w3 = disk w2" using keepsD [OF keeps_recompute_summaries sums, of disk] by simp
    ultimately show ?thesis by (intro disk_bodies) simp
  qed
  have "tree_ok (rs_tree (w_state ?w0))" using ok by simp
  note shape = locate_items_shape [OF this locate]
  obtain pn where pn: "cp_groups pn = map pl_items ps" "length (cp_cases pn) = length ps" "list_all2 (lands_in e) ps (cp_cases pn)"
    "\<And>d. or_empty (hm_get (la_new_records la) d) = planned items pn d" "hm_ok (la_new_records la)"
    "\<forall>es\<in>snd ` set (la_new_records la). \<forall>r\<in>set es. entry_ok r"
    "map pg_case_name (la_groups la) = cp_cases pn" "map pg_messages (la_groups la) = map (placement_messages items) ps"
    using land_plan [OF land _ entries] shape by blast
  have plan: "plan_of av h e items pn"
  proof -
    have "\<forall>g\<in>set (cp_groups pn). \<forall>i\<in>set g. i < length items" using shape pn(1) by auto
    then show ?thesis using shape pn(1-3) by (cases e) (auto simp: plan_of_def)
  qed
  have sbt: "state_but_tree w4 = state_but_tree w" using frames by simp
  note same = state_but_tree_eq [OF sbt]
  have "\<forall>p\<in>set ps. verdict_ok ?t (pl_verdict p)" using locate_items_verdicts [of ?w0] ok locate by simp
  then have tree2: "tree_ok (rs_tree (w_state w2)) \<and> grows ?t (rs_tree (w_state w2))"
    using land_all_tree [OF land, of ?t] ok st1 by (simp add: grows_def)
  have bodies: "case_bodies w' h' c k = case_bodies w h' c k @ (if h' = h then bodies_of k (planned items pn c) else [])" for h' c k
    using append_cases_effect [OF app pn(5,6), of h' c k] pn(4) w' bodies3 by simp
  have messages: "map pg_messages gs = map (group_messages items) (cp_groups pn)"
    using pn(1,8) gs by (simp add: placement_messages_def [abs_def] group_messages_def [abs_def])
  have counts: "counted (rs_tree (w_state w')) c = counted ?t c +
     (if tree_contains (rs_tree (w_state w')) c then length (planned items pn c) else 0)" for c
    using land_all_counted [OF land, of c] w' tree4 st1 pn(4,5)
    by (simp add: apply_results_def Let_def fold_set_summary_same counted_fold_apply contains_fold_apply)
  have tree: "grows ?t (rs_tree (w_state w')) \<and> tree_ok (rs_tree (w_state w'))"
    using tree2 w' tree4
    by (simp add: apply_results_def Let_def fold_set_summary_same contains_fold_apply grows_def
        tree_ok_fold_apply tree_ok_fold_summary)
  have keys: "rs_watermarks (w_state w') = bm_insert (role_event_of h e, channel)
       (advance_watermark (batch_records items) (watermark_of (role_event_of h e) channel (w_state w))) (rs_watermarks (w_state w)) \<and>
     rs_current_cases (w_state w') = (if gs = [] then rs_current_cases (w_state w)
       else bm_insert (role_event_of h e, channel) (pg_case_name (last gs)) (rs_current_cases (w_state w))) \<and>
     rs_loaded (w_state w') = rs_loaded (w_state w) \<and> rs_dirty_suffixes (w_state w') = rs_dirty_suffixes (w_state w) \<and>
     rs_dirty_channels (w_state w') = rs_dirty_channels (w_state w)"
    using same w' gs by (simp add: apply_results_def Let_def watermark_of_def)
  have "chunk_done av h e channel items w w' oc gs pn"
    unfolding chunk_done_def
    using plan bodies messages counts tree keys pn(7) gs oc frames w' by simp
  then show ?thesis by blast
qed

section \<open>A chunk always comes to an end\<close>

lemma errs_normallyD: "errs_normally m \<Longrightarrow> m s = (Inl e, s') \<Longrightarrow> \<not> abnormal e"
  unfolding errs_normally_def by blast

lemma errs_ret [normal_intros]: "errs_normally (ret x)"
  by (simp add: errs_normally_def)

lemma errs_fail [normal_intros]: "\<not> abnormal e \<Longrightarrow> errs_normally (fail e)"
  by (simp add: errs_normally_def)

lemma errs_read_st [normal_intros]: "errs_normally (read_st g)"
  by (simp add: errs_normally_def)

lemma errs_modify_st [normal_intros]: "errs_normally (modify_st g)"
  by (simp add: errs_normally_def)

lemma errs_get_state [normal_intros]: "errs_normally get_state"
  by (simp add: errs_normally_def)

lemma errs_now_string [normal_intros]: "errs_normally now_string"
  by (simp add: errs_normally_def)

lemma errs_modify_tree [normal_intros]: "errs_normally (modify_tree g)"
  by (simp add: errs_normally_def)

lemma errs_modify_state [normal_intros]: "errs_normally (modify_state g)"
  by (simp add: errs_normally_def modify_state_def)

lemma errs_io_step [normal_intros]: "errs_normally io_step"
  by (auto simp: errs_normally_def io_step_Inl abnormal_def)

lemma errs_bind [normal_intros]: "errs_normally m \<Longrightarrow> (\<And>x. errs_normally (f x)) \<Longrightarrow> errs_normally (bind_act m f)"
  unfolding errs_normally_def bind_Inl_conv by blast

lemma errs_if [normal_intros]: "(b \<Longrightarrow> errs_normally m) \<Longrightarrow> (\<not> b \<Longrightarrow> errs_normally n) \<Longrightarrow> errs_normally (if b then m else n)"
  by simp

lemma errs_case_option [normal_intros]:
  "errs_normally m \<Longrightarrow> (\<And>x. errs_normally (n x)) \<Longrightarrow> errs_normally (case o' of None \<Rightarrow> m | Some x \<Rightarrow> n x)"
  by (cases o') simp_all

lemma errs_case_prod [normal_intros]: "(\<And>x y. errs_normally (m x y)) \<Longrightarrow> errs_normally (case p of (x, y) \<Rightarrow> m x y)"
  by (cases p) simp

lemma errs_for_each [normal_intros]: "(\<And>x. errs_normally (m x)) \<Longrightarrow> errs_normally (for_each xs m)"
  by (induction xs) (auto intro: normal_intros)

lemma errs_fold_act [normal_intros]: "(\<And>x c. errs_normally (m x c)) \<Longrightarrow> errs_normally (fold_act m xs c)"
  by (induction xs arbitrary: c) (auto intro: normal_intros)

lemma errs_ask [normal_intros]: "errs_normally q \<Longrightarrow> errs_normally (ask q)"
  by (auto simp: errs_normally_def ask_run)

lemma errs_append [normal_intros]: "errs_normally (append_case_records h c es)"
  unfolding append_case_records_def append_kind_def Let_def by (intro normal_intros)

lemma errs_read_case_records [normal_intros]: "errs_normally (read_case_records h c)"
  unfolding read_case_records_def read_case_kind_def by (intro normal_intros)

lemma with_ancestors_total: "tree_ok t \<Longrightarrow> \<exists>ys. with_ancestors t cs = Some ys"
proof (induction cs)
  case (Cons c cs)
  with tree_ok_ancestors_total [of t c] show ?case by (auto split: option.splits)
qed simp

lemma depths_total: "tree_ok t \<Longrightarrow> \<exists>ys. depths t cs = Some ys"
proof (induction cs)
  case (Cons c cs)
  with tree_ok_ancestors_total [of t c] show ?case by (auto split: option.splits)
qed simp

lemma recompute_order_total: "tree_ok t \<Longrightarrow> \<exists>order. recompute_order t touched = Some order"
  using with_ancestors_total [of t touched] depths_total [of t] by (fastforce simp: recompute_order_def)

context decision_interface
begin

lemma place_one_ends:
  assumes av: "av_model av = dm" and ok: "tree_ok t" and ranges: "\<forall>i\<in>set (mg_messages g). i < length items"
  shows "errs_normally (place_one av h re t current items g)"
proof -
  have place: "errs_normally (decide_placement av h e t tx None)" for e tx
    using decide_placement_ends [OF ok, of av h e tx] level_normal unfolding av errs_normally_def by blast
  show ?thesis
    unfolding place_one_def Let_def
    using ranges by (auto simp: list_all_iff abnormal_def intro!: normal_intros place)
qed

lemma place_all_ends:
  assumes "av_model av = dm" and "tree_ok t"
  shows "\<forall>g\<in>set gs. \<forall>i\<in>set (mg_messages g). i < length items \<Longrightarrow>
    errs_normally (fold_act (\<lambda>g acc. bind_act (place_one av h re t current items g) (\<lambda>p. ret (acc @ [p]))) gs acc)"
proof (induction gs arbitrary: acc)
  case (Cons g gs)
  then show ?case using place_one_ends [OF assms, of g items] by (auto intro!: errs_bind errs_ret)
qed (auto intro: normal_intros)

lemma locate_items_ends:
  assumes av: "av_model av = dm" and ok: "tree_ok (rs_tree (w_state w))" and "items \<noteq> []"
    and run: "locate_items av h e channel items w = (Inl err, w')"
  shows "\<not> abnormal err"
proof (cases e)
  case (Some ev)
  with run show ?thesis by (auto simp: locate_items_def run_simps abnormal_def split: if_splits)
next
  case None
  let ?current = "current_case (role_event_of h None) channel (w_state w)"
  let ?ask = "ask (dm_group dm h None (render_batch (av_printer av) items) (length items)
     (Option.bind ?current (tree_brief (rs_tree (w_state w)))))"
  obtain r1 w1 where ask: "?ask w = (r1, w1)" by fastforce
  show ?thesis
  proof (cases r1)
    case (Inl err')
    with run ask None have "err = err'"
      by (simp add: locate_items_def group_and_place_def bind_act_def get_state_def read_st_def av role_event_of_def Let_def)
    with ask Inl errs_ask [OF group_normal] show ?thesis by (metis errs_normallyD)
  next
    case (Inr gs)
    with ask obtain m where g: "dm_group dm h None (render_batch (av_printer av) items) (length items)
        (Option.bind ?current (tree_brief (rs_tree (w_state w)))) (w_model w) = (Inr gs, m)" by (auto simp: ask_run)
    have "\<forall>g\<in>set gs. \<forall>i\<in>set (mg_messages g). i < length items"
      using group_index [OF g] \<open>items \<noteq> []\<close> by simp
    note place_all_ends [OF av ok this]
    moreover have "fold_act (\<lambda>g acc. bind_act (place_one av h (role_event_of h None) (rs_tree (w_state w)) ?current items g)
        (\<lambda>p. ret (acc @ [p]))) gs [] w1 = (Inl err, w')"
      using run ask None Inr
      by (simp add: locate_items_def group_and_place_def bind_act_def get_state_def read_st_def av role_event_of_def Let_def)
    ultimately show ?thesis by (metis errs_normallyD)
  qed
qed

lemma land_one_ends: "av_model av = dm \<Longrightarrow> errs_normally (land_one av h now e items p la)"
proof -
  assume av: "av_model av = dm"
  have "land_new_role now parent name summary la s \<noteq> (Inl err, s')" for parent name summary s err s'
  proof -
    obtain c where "unique_role_case_name (rs_tree (w_state s)) name = Some c"
      using unique_role_case_name_total by blast
    then show ?thesis
      by (simp add: land_new_role_def bind_act_def get_state_def read_st_def modify_tree_def modify_st_def ret_def)
  qed
  then have role: "errs_normally (land_new_role now parent name summary la)" for parent name summary
    unfolding errs_normally_def by blast
  have event: "errs_normally (land_new_event av h now e items p la)"
    unfolding land_new_event_def av
    by (intro normal_intros summarize_normal) (simp add: abnormal_def)
  show ?thesis
    unfolding land_one_def by (intro normal_intros) (auto split: group_verdict.splits intro: normal_intros role event)
qed

lemma archive_chunk_ends:
  assumes av: "av_model av = dm" and ok: "tree_ok (rs_tree (w_state w))"
    and run: "archive_chunk av h e channel items w = (Inl err, w')"
  shows "\<not> abnormal err"
proof -
  from run have ne: "items \<noteq> []" by (auto simp: archive_chunk_def)
  from run obtain w2 where inner: "archive_chunk_inner av h e channel items w = (Inl err, w2)"
    by (auto simp: archive_chunk_def split: if_splits prod.splits sum.splits)
  let ?now = "w_clock w (w_ticks w)"
  let ?w0 = "w\<lparr>w_ticks := Suc (w_ticks w)\<rparr>"
  obtain r1 w1 where 1: "locate_items av h e channel items ?w0 = (r1, w1)" by fastforce
  show ?thesis
  proof (cases r1)
    case (Inl err')
    with inner 1 have "err = err'" by (simp add: archive_chunk_inner_def bind_act_def now_string_def)
    with locate_items_ends [OF av _ ne 1 [unfolded Inl]] ok show ?thesis by simp
  next
    case (Inr ps)
    obtain r2 w3 where 2: "fold_act (land_one av h ?now e items) ps no_landing w1 = (r2, w3)" by fastforce
    have land: "errs_normally (fold_act (land_one av h ?now e items) ps no_landing)"
      by (intro normal_intros land_one_ends av)
    have "w_state w1 = w_state w" using keepsD [OF keeps_locate_items 1, of w_state] by simp
    then have ok3: "tree_ok (rs_tree (w_state w3))"
      using land_all_tree [OF 2] locate_items_verdicts [OF _ 1 [unfolded Inr]] ok by (simp add: grows_def)
    show ?thesis
    proof (cases r2)
      case (Inl err')
      with inner 1 2 Inr have "err = err'" by (simp add: archive_chunk_inner_def bind_act_def now_string_def)
      with errs_normallyD [OF land] 2 Inl show ?thesis by blast
    next
      case (Inr la)
      obtain order where order: "recompute_order (rs_tree (w_state w3)) (la_touched la) = Some order"
        using recompute_order_total [OF ok3] by blast
      define rest where "rest = bind_act (recompute_summaries av h e (la_new_records la) (la_created la) order) (\<lambda>summaries.
           bind_act (for_each (la_new_records la) (\<lambda>(c, es). append_case_records h c es)) (\<lambda>_.
           let records = batch_records items
           in bind_act (modify_state (apply_results h e channel ?now records la summaries)) (\<lambda>_.
              ret (\<lparr>ao_archived = length records, ao_case_names = la_case_names la\<rparr>, la_groups la))))"
      have "errs_normally rest"
        unfolding rest_def recompute_summaries_def compute_summary_def av Let_def
        by (intro normal_intros summarize_normal)
      moreover have "rest w3 = (Inl err, w2)"
        using inner 1 2 \<open>r1 = Inr ps\<close> Inr order unfolding archive_chunk_inner_def rest_def [symmetric]
        by (simp add: bind_act_def [of now_string] bind_act_def [of "locate_items av h e channel items"]
            bind_act_def [of "fold_act _ _ _"] bind_act_def [of get_state] bind_act_def [of "read_st w_state"] now_string_def get_state_def read_st_def rest_def)
      ultimately show ?thesis by (rule errs_normallyD)
    qed
  qed
qed

end

end
