(* ===== verification/Records_Spec.thy ===== *)
theory Records_Spec
  imports Samples Archive_Effect
begin

text \<open>
  What reading promises: the copies of a case come back as they were written, in order; the
  records after a cursor are the ones behind it and those of other kinds at the same time; a
  record without a channel of its own belongs to the channel of the first channel record that
  carries its key.
\<close>

section \<open>Copies of a case\<close>

lemma read_case_kind_Inr:
  "read_case_kind h c k rs w = (Inr rs', w') \<Longrightarrow> rs' = rs @ case_bodies w h c k \<and> case_bodies w' = case_bodies w"
  by (auto simp: read_case_kind_def bind_Inr_conv case_bodies_def case_file_lines_def map_filter_simps io_step_Inr
      split: option.splits)

lemma read_case_records_Inr:
  assumes "read_case_records h c w = (Inr rs, w')"
  shows "rs = sort_key body_sort_key (concat (map (case_bodies w h c) all_kinds))"
proof -
  have "fold_act (read_case_kind h c) ks rs0 w = (Inr rs', w'') \<Longrightarrow> rs' = rs0 @ concat (map (case_bodies w h c) ks)"
    for ks rs0 rs' w w''
    by (induction ks arbitrary: rs0 w) (force simp: bind_Inr_conv dest!: read_case_kind_Inr)+
  with assms show ?thesis by (fastforce simp: read_case_records_def bind_Inr_conv)
qed

lemma all_kinds_bodies: "mset (concat (map (\<lambda>k. bodies_of k es) all_kinds)) = mset (map re_body es)"
proof (induction es)
  case (Cons e es)
  then show ?case by (cases "re_kind e") (simp_all add: all_kinds_def bodies_of_def)
qed (simp add: all_kinds_def bodies_of_def)

text \<open>C38: what is filed into a case is read back: after records have been appended to the copies
  of a case without an error, reading the case gives, in the order of time and number, exactly
  what was there before together with the new records, each once.\<close>

theorem case_records_roundtrip:
  assumes "list_all (\<lambda>e. e = entry_of_body (re_body e)) es" and "append_case_records h c es w = (Inr (), w1)"
    and "read_case_records h c w = (Inr old, w2)" and "read_case_records h c w1 = (Inr new, w3)"
  shows "mset new = mset old + mset (map re_body es) \<and> sorted (map body_sort_key new)"
proof -
  have "\<forall>e\<in>set es. entry_ok e" using assms(1) by (simp add: entry_ok_def list_all_iff)
  from append_case_records_effect [OF this assms(2)]
  have "case_bodies w1 h c k = case_bodies w h c k @ bodies_of k es" for k by simp
  then have "mset (concat (map (case_bodies w1 h c) ks)) =
      mset (concat (map (case_bodies w h c) ks)) + mset (concat (map (\<lambda>k. bodies_of k es) ks))" for ks
    by (induction ks) simp_all
  with read_case_records_Inr [OF assms(3)] read_case_records_Inr [OF assms(4)] all_kinds_bodies [of es]
  show ?thesis by simp
qed

theorem case_records_roundtrip_witness:
  "\<exists>new. mset new = mset [sample_thought ''4'' 1, sample_message ''3'' (Content_Text ''hi'') 1] \<and> sorted (map body_sort_key new)"
proof -
  let ?es = "[entry_of_body (sample_thought ''4'' 1), entry_of_body (sample_message ''3'' (Content_Text ''hi'') 1)]"
  let ?app = "append_case_records sample_handle ''c'' ?es sample_world"
  have "fst ?app = Inr ()" by code_simp
  then have app: "?app = (Inr (), snd ?app)" by (simp add: prod_eq_iff)
  have "fst (read_case_records sample_handle ''c'' sample_world) = Inr []" by code_simp
  then have old: "read_case_records sample_handle ''c'' sample_world =
      (Inr [], snd (read_case_records sample_handle ''c'' sample_world))" by (simp add: prod_eq_iff)
  have "fst (read_case_records sample_handle ''c'' (snd ?app)) =
      Inr [sample_message ''3'' (Content_Text ''hi'') 1, sample_thought ''4'' 1]" by code_simp
  then have new: "read_case_records sample_handle ''c'' (snd ?app) =
      (Inr [sample_message ''3'' (Content_Text ''hi'') 1, sample_thought ''4'' 1],
       snd (read_case_records sample_handle ''c'' (snd ?app)))" by (simp add: prod_eq_iff)
  have "list_all (\<lambda>e. e = entry_of_body (re_body e)) ?es" by (simp add: entry_of_body_def)
  from case_records_roundtrip [OF this app old new]
  show ?thesis by (intro exI [of _ "[sample_message ''3'' (Content_Text ''hi'') 1, sample_thought ''4'' 1]"]) (simp add: entry_of_body_def)
qed

section \<open>Records after a cursor\<close>

text \<open>With the records of a case in order, and no two of one kind with the same time and number,
  the records after the cursor of one of them are all that follow it, preceded by those before it
  that have the same time but another kind. A tail of \<open>n\<close> records is the last \<open>n\<close> of them, or
  all when there are fewer.\<close>

theorem records_after_exact:
  assumes "sorted (map body_sort_key (xs @ r # ys))" and "distinct (map (\<lambda>s. (body_kind s, body_sort_key s)) (xs @ r # ys))"
  shows "records_after (xs @ r # ys) (cursor_of r) =
      filter (\<lambda>s. body_time s = body_time r \<and> body_kind s \<noteq> body_kind r) xs @ ys \<and>
    records_tail (xs @ r # ys) n = (if n \<le> length (xs @ r # ys) then drop (length (xs @ r # ys) - n) (xs @ r # ys) else xs @ r # ys)"
proof -
  have before: "is_after (cursor_of r) s \<longleftrightarrow> body_time s = body_time r \<and> body_kind s \<noteq> body_kind r" if "s \<in> set xs" for s
  proof -
    have "body_sort_key s \<le> body_sort_key r" using assms(1) that by (auto simp: sorted_append)
    then show ?thesis by (auto simp: is_after_def cursor_of_def body_sort_key_def)
  qed
  have behind: "is_after (cursor_of r) s" if "s \<in> set ys" for s
  proof -
    have "body_sort_key r \<le> body_sort_key s" using assms(1) that by (auto simp: sorted_append)
    moreover have "(body_kind s, body_sort_key s) \<noteq> (body_kind r, body_sort_key r)"
      using assms(2) that by (auto simp: image_iff)
    ultimately show ?thesis by (auto simp: is_after_def cursor_of_def body_sort_key_def)
  qed
  have "\<not> is_after (cursor_of r) r" by (simp add: is_after_def cursor_of_def)
  moreover have "filter (is_after (cursor_of r)) xs = filter (\<lambda>s. body_time s = body_time r \<and> body_kind s \<noteq> body_kind r) xs"
    using before by (intro filter_cong) auto
  moreover have "filter (is_after (cursor_of r)) ys = ys" using behind by simp
  ultimately show ?thesis by (auto simp: records_after_def records_tail_def min_def)
qed

theorem records_after_exact_witness:
  "records_after [sample_message ''3'' (Content_Text ''a'') 1, sample_message ''4'' (Content_Text ''b'') 2]
     (cursor_of (sample_message ''3'' (Content_Text ''a'') 1)) = [sample_message ''4'' (Content_Text ''b'') 2]"
  using records_after_exact [of "[]" "sample_message ''3'' (Content_Text ''a'') 1" "[sample_message ''4'' (Content_Text ''b'') 2]" 1]
  by (simp add: sample_message_def body_sort_key_def)

text \<open>Reading on from the last record of an answer need not come to an end: a message and a
  thought of the same time are each after the cursor of the other, so a reader that always
  returns the cursor of the last record it got is given the two in turn for ever.\<close>

theorem paging_alternates:
  "records_after [sample_message ''4'' (Content_Think ''k'') 1, sample_thought ''4'' 1] (cursor_of (sample_thought ''4'' 1)) =
     [sample_message ''4'' (Content_Think ''k'') 1] \<and>
   records_after [sample_message ''4'' (Content_Think ''k'') 1, sample_thought ''4'' 1]
       (cursor_of (sample_message ''4'' (Content_Think ''k'') 1)) =
     [sample_thought ''4'' 1]"
  by (simp add: records_after_def is_after_def cursor_of_def sample_message_def sample_thought_def)

section \<open>Whose record it is\<close>

lemma record_owners_get:
  "hm_get (record_owners rs) k =
     Option.bind (find (\<lambda>e. linked_key e = Some k \<and> entry_channel e \<noteq> None) rs) entry_channel"
proof -
  let ?step = "\<lambda>e m. case (linked_key e, entry_channel e) of
             (Some key, Some channel) \<Rightarrow> (if hm_get m key = None then hm_insert key channel m else m)
           | _ \<Rightarrow> m"
  have "hm_get (fold ?step rs m) k =
      (case hm_get m k of Some c \<Rightarrow> Some c
       | None \<Rightarrow> Option.bind (find (\<lambda>e. linked_key e = Some k \<and> entry_channel e \<noteq> None) rs) entry_channel)" for m
    by (induction rs arbitrary: m) (auto split: option.split)
  then show ?thesis by (simp add: record_owners_def)
qed

text \<open>A channel record belongs to its own channel; a thought, a tool call or a tool result
  belongs to the channel of the first channel record, in the order of time and number, that
  carries its key as a placeholder, and to no channel when there is none.\<close>

theorem attribution_by_first_placeholder:
  "attribute_channels rs = map (\<lambda>r. if re_kind r = Kind_Channel then entry_channel r
     else Option.bind (linked_key r) (\<lambda>k.
       Option.bind (find (\<lambda>e. linked_key e = Some k \<and> entry_channel e \<noteq> None) rs) entry_channel)) rs"
proof -
  have "Option.bind (linked_key e) (hm_get (record_owners rs)) = Option.bind (linked_key e) (\<lambda>k.
       Option.bind (find (\<lambda>e. linked_key e = Some k \<and> entry_channel e \<noteq> None) rs) entry_channel)" for e
    by (cases "linked_key e") (simp_all add: record_owners_get)
  then have "attribute_entry (record_owners rs) r = (if re_kind r = Kind_Channel then entry_channel r
     else Option.bind (linked_key r) (\<lambda>k.
       Option.bind (find (\<lambda>e. linked_key e = Some k \<and> entry_channel e \<noteq> None) rs) entry_channel))" for r
    by (cases "re_kind r") (simp_all add: attribute_entry_def)
  then show ?thesis by (simp add: attribute_channels_def)
qed

end
