(* ===== verification/Llm_Session.thy ===== *)
theory Llm_Session
  imports Agent_Role
begin

text \<open>
  \<open>kissbot-llm/src/session.rs\<close> with the message type of \<open>types.rs\<close>: the context of a
  model session, kept in memory, in a cache file that is read back after a restart, and in
  history files. A line of a file is written whole or not at all; a history file is named
  after the session and the second it was written in.
\<close>

section \<open>Messages\<close>

datatype chat_message =
    Msg_System string
  | Msg_User string
  | Msg_Assistant json json json
  | Msg_Tool string string

fun is_system :: "chat_message \<Rightarrow> bool" where
  "is_system (Msg_System s) \<longleftrightarrow> True"
| "is_system _ \<longleftrightarrow> False"

section \<open>The context and its files\<close>

record session_ctx =
  sc_messages :: "chat_message list"
  sc_system :: "string option"
  sc_pending :: "string option"
  sc_data_dir :: string
  sc_session_id :: string

text \<open>The files of all sessions, by data directory and name; faults and clock as in \<open>world\<close>.\<close>

record chat_files =
  cf_cache :: "string \<times> string \<Rightarrow> chat_message file_line list option"
  cf_history :: "string \<times> string \<Rightarrow> chat_message list option"
  cf_faults :: "bool list"
  cf_clock :: "nat \<Rightarrow> string"
  cf_ticks :: nat

record chat =
  ch_ctx :: session_ctx
  ch_files :: chat_files

type_synonym 'a chat_op = "(chat, abs_error, 'a) action"

definition new_context :: "string \<Rightarrow> string \<Rightarrow> session_ctx" where
  "new_context dir sid =
     \<lparr>sc_messages = [], sc_system = None, sc_pending = None, sc_data_dir = dir, sc_session_id = sid\<rparr>"

definition cache_key :: "session_ctx \<Rightarrow> string \<times> string" where
  "cache_key ctx = (sc_data_dir ctx, sc_session_id ctx)"

definition history_key :: "session_ctx \<Rightarrow> string \<Rightarrow> string \<times> string" where
  "history_key ctx ts = (sc_data_dir ctx, sc_session_id ctx @ ''-'' @ ts)"

definition modify_ctx :: "(session_ctx \<Rightarrow> session_ctx) \<Rightarrow> unit chat_op" where
  "modify_ctx f = modify_st (\<lambda>c. c\<lparr>ch_ctx := f (ch_ctx c)\<rparr>)"

definition modify_files :: "(chat_files \<Rightarrow> chat_files) \<Rightarrow> unit chat_op" where
  "modify_files f = modify_st (\<lambda>c. c\<lparr>ch_files := f (ch_files c)\<rparr>)"

definition chat_io :: "unit chat_op" where
  "chat_io c = (case cf_faults (ch_files c) of
      [] \<Rightarrow> (Inr (), c)
    | f # fs \<Rightarrow> (if f then Inl IoError else Inr (), c\<lparr>ch_files := (ch_files c)\<lparr>cf_faults := fs\<rparr>\<rparr>))"

definition chat_now :: "string chat_op" where
  "chat_now c =
     (Inr (cf_clock (ch_files c) (cf_ticks (ch_files c))),
      c\<lparr>ch_files := (ch_files c)\<lparr>cf_ticks := Suc (cf_ticks (ch_files c))\<rparr>\<rparr>)"

definition cache_of :: "chat \<Rightarrow> chat_message file_line list option" where
  "cache_of c = cf_cache (ch_files c) (cache_key (ch_ctx c))"

definition set_cache :: "chat_message file_line list option \<Rightarrow> unit chat_op" where
  "set_cache ls = modify_st (\<lambda>c. c\<lparr>ch_files := (ch_files c)\<lparr>cf_cache :=
     (cf_cache (ch_files c))(cache_key (ch_ctx c) := ls)\<rparr>\<rparr>)"

definition write_cache_line :: "chat_message \<Rightarrow> unit chat_op" where
  "write_cache_line m =
     bind_act chat_io (\<lambda>_.
     bind_act (read_st cache_of) (\<lambda>ls. set_cache (Some (or_empty ls @ [Rec m]))))"

definition write_cache_lines :: "chat_message list \<Rightarrow> unit chat_op" where
  "write_cache_lines ms = for_each ms write_cache_line"

definition write_history_line :: "string \<times> string \<Rightarrow> chat_message \<Rightarrow> unit chat_op" where
  "write_history_line dest m =
     bind_act chat_io (\<lambda>_.
     modify_files (\<lambda>f. f\<lparr>cf_history := (cf_history f)(dest := Some (or_empty (cf_history f dest) @ [m]))\<rparr>))"

definition system_line :: "session_ctx \<Rightarrow> chat_message list" where
  "system_line ctx = (case sc_system ctx of Some s \<Rightarrow> [Msg_System s] | None \<Rightarrow> [])"

definition build :: "session_ctx \<Rightarrow> chat_message list" where
  "build ctx = system_line ctx @ sc_messages ctx"

definition open_cache_and_write_system_line :: "unit chat_op" where
  "open_cache_and_write_system_line =
     bind_act (read_st cache_of) (\<lambda>found.
     bind_act chat_io (\<lambda>_.
     bind_act chat_io (\<lambda>_.
       if found \<noteq> None then ret ()
       else bind_act (set_cache (Some [])) (\<lambda>_.
            bind_act (read_st ch_ctx) (\<lambda>ctx. write_cache_lines (system_line ctx))))))"

section \<open>Operations\<close>

definition set_system_message :: "string \<Rightarrow> unit chat_op" where
  "set_system_message s = modify_ctx (\<lambda>ctx. ctx\<lparr>sc_pending := Some s\<rparr>)"

definition write_current_cache :: "unit chat_op" where
  "write_current_cache =
     bind_act open_cache_and_write_system_line (\<lambda>_.
     bind_act (read_st ch_ctx) (\<lambda>ctx. write_cache_lines (sc_messages ctx)))"

definition context_append :: "chat_message list \<Rightarrow> unit chat_op" where
  "context_append ms =
     (if ms = [] then ret ()
      else bind_act open_cache_and_write_system_line (\<lambda>_.
           bind_act (write_cache_lines ms) (\<lambda>_.
           modify_ctx (\<lambda>ctx. ctx\<lparr>sc_messages := sc_messages ctx @ ms\<rparr>))))"

definition write_history :: "unit chat_op" where
  "write_history =
     bind_act chat_io (\<lambda>_.
     bind_act chat_now (\<lambda>ts.
     bind_act (read_st ch_ctx) (\<lambda>ctx.
     bind_act chat_io (\<lambda>_.
     bind_act (modify_files (\<lambda>f. f\<lparr>cf_history := (cf_history f)(history_key ctx ts := Some [])\<rparr>)) (\<lambda>_.
     for_each (build ctx) (write_history_line (history_key ctx ts)))))))"

definition archive_and_clear_cache_and_reset_messages :: "chat_message list option \<Rightarrow> unit chat_op" where
  "archive_and_clear_cache_and_reset_messages messages =
     bind_act (read_st ch_ctx) (\<lambda>ctx.
     bind_act (if sc_messages ctx = [] then ret () else write_history) (\<lambda>_.
     bind_act chat_io (\<lambda>_.
     bind_act (set_cache None) (\<lambda>_.
       case messages of
         None \<Rightarrow> ret ()
       | Some ms \<Rightarrow>
           bind_act (modify_ctx (\<lambda>ctx. ctx\<lparr>sc_messages := []\<rparr>)) (\<lambda>_. context_append ms)))))"

definition apply_pending_system :: "unit chat_op" where
  "apply_pending_system =
     bind_act (read_st ch_ctx) (\<lambda>ctx.
       case sc_pending ctx of
         None \<Rightarrow> ret ()
       | Some pending \<Rightarrow>
           bind_act (modify_ctx (\<lambda>ctx. ctx\<lparr>sc_pending := None\<rparr>)) (\<lambda>_.
             if sc_system ctx = Some pending then ret ()
             else
               bind_act (archive_and_clear_cache_and_reset_messages None) (\<lambda>_.
               bind_act (modify_ctx (\<lambda>ctx. ctx\<lparr>sc_system := Some pending\<rparr>)) (\<lambda>_.
                 if sc_messages ctx = [] then ret () else write_current_cache))))"

text \<open>The condition may keep a state of its own (\<open>FnMut\<close>); messages come from the back.\<close>

fun revert_loop ::
  "('s \<Rightarrow> chat_message \<Rightarrow> bool \<times> 's) \<Rightarrow> chat_message list \<Rightarrow> 's \<Rightarrow> bool \<Rightarrow> chat_message list \<Rightarrow>
   (bool \<times> chat_message list) chat_op" where
  "revert_loop condition [] s backup results = ret (backup, results)"
| "revert_loop condition (m # ms) s backup results =
     (case condition s m of
        (True, s') \<Rightarrow> ret (backup, results)
      | (False, s') \<Rightarrow>
          bind_act (if backup then ret () else archive_and_clear_cache_and_reset_messages None) (\<lambda>_.
          bind_act (modify_ctx (\<lambda>ctx. ctx\<lparr>sc_messages := rev ms\<rparr>)) (\<lambda>_.
          revert_loop condition ms s' True (m # results))))"

definition revert_until :: "('s \<Rightarrow> chat_message \<Rightarrow> bool \<times> 's) \<Rightarrow> 's \<Rightarrow> chat_message list chat_op" where
  "revert_until condition s =
     bind_act (read_st ch_ctx) (\<lambda>ctx.
     bind_act (revert_loop condition (rev (sc_messages ctx)) s False []) (\<lambda>(backup, results).
     bind_act (if backup then write_current_cache else ret ()) (\<lambda>_.
     ret results)))"

definition revert :: "nat \<Rightarrow> chat_message list chat_op" where
  "revert n = revert_until (\<lambda>k m. if 0 < k then (False, k - 1) else (True, k)) n"

fun cached_messages :: "chat_message file_line list \<Rightarrow> chat_message list" where
  "cached_messages [] = []"
| "cached_messages (Rec m # ls) = m # cached_messages ls"
| "cached_messages (_ # ls) = cached_messages ls"

fun adopt_messages :: "chat_message list \<Rightarrow> session_ctx \<Rightarrow> session_ctx" where
  "adopt_messages (Msg_System s # ms) ctx = ctx\<lparr>sc_system := Some s, sc_messages := ms\<rparr>"
| "adopt_messages ms ctx = ctx\<lparr>sc_messages := ms\<rparr>"

definition recover_from_cache :: "unit chat_op" where
  "recover_from_cache =
     bind_act (read_st cache_of) (\<lambda>found.
       case found of
         None \<Rightarrow> modify_ctx (\<lambda>ctx. ctx\<lparr>sc_messages := [], sc_system := None\<rparr>)
       | Some ls \<Rightarrow> bind_act chat_io (\<lambda>_. modify_ctx (adopt_messages (cached_messages ls))))"

text \<open>\<open>Session::build_context\<close> drops the error of applying the system message.\<close>

definition build_context :: "chat_message list chat_op" where
  "build_context c = (case apply_pending_system c of (_, c') \<Rightarrow> (Inr (build (ch_ctx c')), c'))"

section \<open>The cache mirrors the memory\<close>

definition mirrored :: "chat \<Rightarrow> bool" where
  "mirrored c \<longleftrightarrow>
     (case cache_of c of
        None \<Rightarrow> sc_messages (ch_ctx c) = []
      | Some ls \<Rightarrow> ls = map Rec (build (ch_ctx c)))"

definition quiet :: "chat \<Rightarrow> bool" where
  "quiet c \<longleftrightarrow> cf_faults (ch_files c) = []"

inductive chat_step :: "chat \<Rightarrow> chat \<Rightarrow> bool" where
  append: "context_append ms c = (r, c') \<Longrightarrow> chat_step c c'"
| set_system: "set_system_message s c = (r, c') \<Longrightarrow> chat_step c c'"
| send: "build_context c = (r, c') \<Longrightarrow> chat_step c c'"
| revert: "revert n c = (r, c') \<Longrightarrow> chat_step c c'"
| reset: "archive_and_clear_cache_and_reset_messages (Some ms) c = (r, c') \<Longrightarrow> chat_step c c'"
| recover: "recover_from_cache c = (r, c') \<Longrightarrow> chat_step c c'"

section \<open>What the operations do when no file operation fails\<close>

definition put_cache :: "chat_message file_line list option \<Rightarrow> chat \<Rightarrow> chat" where
  "put_cache ls c = c\<lparr>ch_files := (ch_files c)\<lparr>cf_cache :=
     (cf_cache (ch_files c))(cache_key (ch_ctx c) := ls)\<rparr>\<rparr>"

lemma put_cache_simps [simp]:
  "ch_ctx (put_cache ls c) = ch_ctx c"
  "cache_of (put_cache ls c) = ls"
  "quiet (put_cache ls c) = quiet c"
  "cf_history (ch_files (put_cache ls c)) = cf_history (ch_files c)"
  "put_cache ls (put_cache ls' c) = put_cache ls c"
  by (simp_all add: put_cache_def cache_of_def quiet_def)

lemma put_cache_same: "cache_of c = ls \<Longrightarrow> put_cache ls c = c"
  by (simp add: put_cache_def cache_of_def fun_upd_idem)

lemma quiet_io [simp]: "quiet c \<Longrightarrow> chat_io c = (Inr (), c)"
  by (simp add: chat_io_def quiet_def)

lemma set_cache_run: "set_cache ls c = (Inr (), put_cache ls c)"
  by (simp add: set_cache_def put_cache_def modify_st_def)

lemmas chat_runs = bind_act_def read_st_def modify_ctx_def modify_files_def modify_st_def ret_def set_cache_run

lemma quiet_write_lines:
  "quiet c \<Longrightarrow> cache_of c = Some ls \<Longrightarrow>
   write_cache_lines ms c = (Inr (), put_cache (Some (ls @ map Rec ms)) c)"
proof (induction ms arbitrary: c ls)
  case Nil
  then show ?case by (simp add: write_cache_lines_def ret_def put_cache_same)
next
  case (Cons m ms)
  let ?c1 = "put_cache (Some (ls @ [Rec m])) c"
  have "write_cache_line m c = (Inr (), ?c1)"
    using Cons.prems by (simp add: write_cache_line_def chat_runs or_empty_def)
  moreover have "write_cache_lines ms ?c1 = (Inr (), put_cache (Some ((ls @ [Rec m]) @ map Rec ms)) ?c1)"
    using Cons.prems by (intro Cons.IH) simp_all
  ultimately show ?case by (simp add: write_cache_lines_def bind_act_def)
qed

definition opened :: "chat \<Rightarrow> chat_message file_line list" where
  "opened c = (case cache_of c of None \<Rightarrow> map Rec (system_line (ch_ctx c)) | Some ls \<Rightarrow> ls)"

lemma quiet_open:
  assumes "quiet c"
  shows "open_cache_and_write_system_line c = (Inr (), put_cache (Some (opened c)) c)"
proof (cases "cache_of c")
  case None
  have "write_cache_lines (system_line (ch_ctx c)) (put_cache (Some []) c) =
      (Inr (), put_cache (Some (map Rec (system_line (ch_ctx c)))) c)"
    by (subst quiet_write_lines [of _ "[]"]) (simp_all add: assms)
  with None assms show ?thesis
    by (simp add: open_cache_and_write_system_line_def chat_runs opened_def)
next
  case (Some ls)
  with assms show ?thesis
    by (simp add: open_cache_and_write_system_line_def chat_runs opened_def put_cache_same)
qed

definition with_messages :: "chat_message list \<Rightarrow> chat \<Rightarrow> chat" where
  "with_messages ms c = c\<lparr>ch_ctx := (ch_ctx c)\<lparr>sc_messages := ms\<rparr>\<rparr>"

lemma with_messages_simps [simp]:
  "ch_ctx (with_messages ms c) = (ch_ctx c)\<lparr>sc_messages := ms\<rparr>"
  "ch_files (with_messages ms c) = ch_files c"
  "cache_of (with_messages ms c) = cache_of c"
  "quiet (with_messages ms c) = quiet c"
  by (simp_all add: with_messages_def cache_of_def cache_key_def quiet_def)

lemma quiet_append:
  assumes "quiet c" and "ms \<noteq> []"
  shows "context_append ms c =
    (Inr (), with_messages (sc_messages (ch_ctx c) @ ms) (put_cache (Some (opened c @ map Rec ms)) c))"
proof -
  have "write_cache_lines ms (put_cache (Some (opened c)) c) = (Inr (), put_cache (Some (opened c @ map Rec ms)) c)"
    by (subst quiet_write_lines [of _ "opened c"]) (simp_all add: assms)
  with assms show ?thesis
    by (simp add: context_append_def quiet_open chat_runs with_messages_def)
qed

lemma system_line_messages [simp]: "system_line (ctx\<lparr>sc_messages := ms\<rparr>) = system_line ctx"
  by (simp add: system_line_def)

lemma system_line_pending [simp]: "system_line (ctx\<lparr>sc_pending := p\<rparr>) = system_line ctx"
  by (simp add: system_line_def)

lemma mirrored_opened: "mirrored c \<Longrightarrow> opened c = map Rec (build (ch_ctx c))"
  by (auto simp: mirrored_def opened_def build_def split: option.splits)

lemma append_mirrored:
  assumes "quiet c" and "mirrored c" and "context_append ms c = (r, c')"
  shows "quiet c' \<and> mirrored c' \<and> r = Inr ()"
proof (cases "ms = []")
  case True
  with assms show ?thesis by (simp add: context_append_def)
next
  case False
  with assms have "c' = with_messages (sc_messages (ch_ctx c) @ ms) (put_cache (Some (opened c @ map Rec ms)) c)"
    and "r = Inr ()" by (simp_all add: quiet_append)
  with assms(1) mirrored_opened [OF assms(2)] show ?thesis
    by (simp add: mirrored_def build_def)
qed

lemma quiet_history_lines:
  "quiet c \<Longrightarrow> cf_history (ch_files c) dest = Some hs \<Longrightarrow>
   for_each ms (write_history_line dest) c =
     (Inr (), c\<lparr>ch_files := (ch_files c)\<lparr>cf_history := (cf_history (ch_files c))(dest := Some (hs @ ms))\<rparr>\<rparr>)"
proof (induction ms arbitrary: c hs)
  case Nil
  then show ?case by (simp add: ret_def fun_upd_idem)
next
  case (Cons m ms)
  let ?c1 = "c\<lparr>ch_files := (ch_files c)\<lparr>cf_history := (cf_history (ch_files c))(dest := Some (hs @ [m]))\<rparr>\<rparr>"
  have "write_history_line dest m c = (Inr (), ?c1)"
    using Cons.prems by (simp add: write_history_line_def chat_runs or_empty_def)
  moreover have "for_each ms (write_history_line dest) ?c1 = (Inr (), ?c1\<lparr>ch_files := (ch_files ?c1)\<lparr>cf_history :=
      (cf_history (ch_files ?c1))(dest := Some ((hs @ [m]) @ ms))\<rparr>\<rparr>)"
    using Cons.prems(1) by (intro Cons.IH) (simp_all add: quiet_def)
  ultimately show ?case by (simp add: bind_act_def fun_upd_def cong: if_cong)
qed

lemma quiet_write_history:
  assumes "quiet c"
  shows "write_history c = (Inr (), c\<lparr>ch_files := (ch_files c)\<lparr>
      cf_ticks := Suc (cf_ticks (ch_files c)),
      cf_history := (cf_history (ch_files c))
        (history_key (ch_ctx c) (cf_clock (ch_files c) (cf_ticks (ch_files c))) := Some (build (ch_ctx c)))\<rparr>\<rparr>)"
proof -
  let ?dest = "history_key (ch_ctx c) (cf_clock (ch_files c) (cf_ticks (ch_files c)))"
  let ?c1 = "c\<lparr>ch_files := (ch_files c)\<lparr>cf_ticks := Suc (cf_ticks (ch_files c)),
      cf_history := (cf_history (ch_files c))(?dest := Some [])\<rparr>\<rparr>"
  have q: "quiet (c\<lparr>ch_files := (ch_files c)\<lparr>cf_ticks := n\<rparr>\<rparr>)" for n using assms by (simp add: quiet_def)
  have "for_each (build (ch_ctx c)) (write_history_line ?dest) ?c1 =
     (Inr (), ?c1\<lparr>ch_files := (ch_files ?c1)\<lparr>cf_history :=
        (cf_history (ch_files ?c1))(?dest := Some ([] @ build (ch_ctx c)))\<rparr>\<rparr>)"
    using assms by (intro quiet_history_lines) (simp_all add: quiet_def)
  with assms q show ?thesis
    by (simp add: write_history_def chat_now_def chat_runs)
qed

text \<open>After the first two steps of an archive: the memory is as before and the cache is gone.\<close>

lemma quiet_archive_None:
  assumes "quiet c"
  obtains c' where "archive_and_clear_cache_and_reset_messages None c = (Inr (), c')"
    and "ch_ctx c' = ch_ctx c" and "cache_of c' = None" and "quiet c'"
    and "cf_history (ch_files c') =
      (if sc_messages (ch_ctx c) = [] then cf_history (ch_files c)
       else (cf_history (ch_files c))
         (history_key (ch_ctx c) (cf_clock (ch_files c) (cf_ticks (ch_files c))) := Some (build (ch_ctx c))))"
proof -
  let ?dest = "history_key (ch_ctx c) (cf_clock (ch_files c) (cf_ticks (ch_files c)))"
  let ?h = "if sc_messages (ch_ctx c) = [] then c else c\<lparr>ch_files := (ch_files c)\<lparr>
      cf_ticks := Suc (cf_ticks (ch_files c)),
      cf_history := (cf_history (ch_files c))(?dest := Some (build (ch_ctx c)))\<rparr>\<rparr>"
  have q: "quiet ?h" using assms by (simp add: quiet_def)
  have "archive_and_clear_cache_and_reset_messages None c = (Inr (), put_cache None ?h)"
    using assms q
    by (cases "sc_messages (ch_ctx c) = []")
      (simp_all add: archive_and_clear_cache_and_reset_messages_def chat_runs quiet_write_history)
  then show thesis using q that [of "put_cache None ?h"] by simp
qed

lemma archive_Some_split:
  "archive_and_clear_cache_and_reset_messages (Some ms) =
   bind_act (archive_and_clear_cache_and_reset_messages None) (\<lambda>_.
   bind_act (modify_ctx (\<lambda>ctx. ctx\<lparr>sc_messages := []\<rparr>)) (\<lambda>_. context_append ms))"
  unfolding archive_and_clear_cache_and_reset_messages_def
  by (rule ext) (auto simp: bind_act_def ret_def split: prod.splits sum.splits)

lemma reset_mirrored:
  assumes "quiet c" and run: "archive_and_clear_cache_and_reset_messages (Some ms) c = (r, c')"
  shows "quiet c' \<and> mirrored c' \<and> r = Inr () \<and> sc_messages (ch_ctx c') = ms"
proof -
  obtain c1 where 1: "archive_and_clear_cache_and_reset_messages None c = (Inr (), c1)"
    "ch_ctx c1 = ch_ctx c" "cache_of c1 = None" "quiet c1"
    using quiet_archive_None [OF assms(1)] by metis
  let ?c2 = "with_messages [] c1"
  from run have 2: "context_append ms ?c2 = (r, c')"
    by (simp add: archive_Some_split bind_act_def 1 modify_ctx_def modify_st_def with_messages_def)
  have q: "quiet ?c2" and m: "mirrored ?c2" using 1 by (simp_all add: mirrored_def)
  have "sc_messages (ch_ctx c') = ms"
  proof (cases "ms = []")
    case True
    with 2 show ?thesis by (simp add: context_append_def)
  next
    case False
    with 2 q show ?thesis by (auto simp: quiet_append)
  qed
  with append_mirrored [OF q m 2] show ?thesis by simp
qed

lemma quiet_write_current_cache:
  assumes "quiet c" and "cache_of c = None"
  shows "write_current_cache c = (Inr (), put_cache (Some (map Rec (build (ch_ctx c)))) c)"
proof -
  have "opened c = map Rec (system_line (ch_ctx c))" using assms(2) by (simp add: opened_def)
  moreover have "write_cache_lines (sc_messages (ch_ctx c)) (put_cache (Some (map Rec (system_line (ch_ctx c)))) c) =
      (Inr (), put_cache (Some (map Rec (system_line (ch_ctx c)) @ map Rec (sc_messages (ch_ctx c)))) c)"
    by (subst quiet_write_lines [of _ "map Rec (system_line (ch_ctx c))"]) (simp_all add: assms)
  ultimately show ?thesis
    using assms(1) by (simp add: write_current_cache_def quiet_open chat_runs build_def)
qed

lemma apply_pending_mirrored:
  assumes "quiet c" and "mirrored c" and run: "apply_pending_system c = (r, c')"
  shows "quiet c' \<and> mirrored c' \<and> r = Inr () \<and> sc_messages (ch_ctx c') = sc_messages (ch_ctx c) \<and>
    sc_system (ch_ctx c') = (case sc_pending (ch_ctx c) of Some s \<Rightarrow> Some s | None \<Rightarrow> sc_system (ch_ctx c))"
proof (cases "sc_pending (ch_ctx c)")
  case None
  with assms show ?thesis by (auto simp: apply_pending_system_def chat_runs)
next
  case (Some p)
  let ?c0 = "c\<lparr>ch_ctx := (ch_ctx c)\<lparr>sc_pending := None\<rparr>\<rparr>"
  have c0: "quiet ?c0" "mirrored ?c0"
    using assms(1,2)
    by (simp_all add: quiet_def mirrored_def build_def cache_of_def cache_key_def split: option.splits)
  show ?thesis
  proof (cases "sc_system (ch_ctx c) = Some p")
    case True
    with Some run have "r = Inr ()" "c' = ?c0" by (simp_all add: apply_pending_system_def chat_runs)
    with c0 Some True show ?thesis by simp
  next
    case False
    obtain c1 where 1: "archive_and_clear_cache_and_reset_messages None ?c0 = (Inr (), c1)"
      "ch_ctx c1 = ch_ctx ?c0" "cache_of c1 = None" "quiet c1"
      using quiet_archive_None [OF c0(1)] by metis
    let ?c2 = "c1\<lparr>ch_ctx := (ch_ctx c1)\<lparr>sc_system := Some p\<rparr>\<rparr>"
    have c2: "quiet ?c2" "cache_of ?c2 = None"
      using 1 by (simp_all add: quiet_def cache_of_def cache_key_def)
    from run Some False 1(1) have 3: "(if sc_messages (ch_ctx c) = [] then ret () else write_current_cache) ?c2 = (r, c')"
      by (simp add: apply_pending_system_def chat_runs)
    then show ?thesis
      using c2 1(2) Some
      by (cases "sc_messages (ch_ctx c) = []") (auto simp: quiet_write_current_cache mirrored_def)
  qed
qed

lemma revert_loop_archived:
  "quiet c \<Longrightarrow> cache_of c = None \<Longrightarrow> rev (sc_messages (ch_ctx c)) = ms \<Longrightarrow>
   revert_loop condition ms s True results c = (r, c') \<Longrightarrow>
   \<exists>results'. r = Inr (True, results') \<and> quiet c' \<and> cache_of c' = None \<and>
     sc_messages (ch_ctx c') @ results' = sc_messages (ch_ctx c) @ results"
proof (induction condition ms s "True" results arbitrary: c rule: revert_loop.induct)
  case (1 condition s results)
  then show ?case by auto
next
  case (2 condition m ms s results)
  obtain stop s' where cond: "condition s m = (stop, s')" by (cases "condition s m")
  show ?case
  proof (cases stop)
    case True
    with 2 cond show ?thesis by auto
  next
    case False
    let ?c1 = "with_messages (rev ms) c"
    have "sc_messages (ch_ctx c) = rev ms @ [m]" using 2(4) by (simp flip: rev_rev_ident)
    moreover have "revert_loop condition ms s' True (m # results) ?c1 = (r, c')"
      using 2(5) cond False by (simp add: chat_runs with_messages_def)
    moreover have "quiet ?c1" "cache_of ?c1 = None" "rev (sc_messages (ch_ctx ?c1)) = ms" using 2 by simp_all
    ultimately show ?thesis using 2(1) [OF cond [symmetric]] False by fastforce
  qed
qed

lemma revert_until_mirrored:
  assumes "quiet c" and "mirrored c" and run: "revert_until condition s c = (r, c')"
  shows "quiet c' \<and> mirrored c' \<and> (\<exists>reverted. r = Inr reverted \<and>
    sc_messages (ch_ctx c') @ reverted = sc_messages (ch_ctx c))"
proof (cases "rev (sc_messages (ch_ctx c))")
  case Nil
  with assms show ?thesis by (auto simp: revert_until_def chat_runs)
next
  case (Cons m ms)
  then have msgs: "sc_messages (ch_ctx c) = rev ms @ [m]" by (simp flip: rev_rev_ident)
  obtain stop s' where cond: "condition s m = (stop, s')" by (cases "condition s m")
  show ?thesis
  proof (cases stop)
    case True
    with assms Cons cond show ?thesis by (auto simp: revert_until_def chat_runs)
  next
    case False
    obtain c1 where 1: "archive_and_clear_cache_and_reset_messages None c = (Inr (), c1)"
      "ch_ctx c1 = ch_ctx c" "cache_of c1 = None" "quiet c1"
      using quiet_archive_None [OF assms(1)] by metis
    let ?c2 = "with_messages (rev ms) c1"
    obtain r2 c2 where 2: "revert_loop condition ms s' True [m] ?c2 = (r2, c2)"
      by (cases "revert_loop condition ms s' True [m] ?c2")
    have "quiet ?c2" "cache_of ?c2 = None" "rev (sc_messages (ch_ctx ?c2)) = ms" using 1 by simp_all
    from revert_loop_archived [OF this 2] obtain results where
      3: "r2 = Inr (True, results)" "quiet c2" "cache_of c2 = None"
        "sc_messages (ch_ctx c2) @ results = rev ms @ [m]" by auto
    have "revert_loop condition (m # ms) s False [] c = (r2, c2)"
      using 1(1) 2 cond False by (simp add: chat_runs with_messages_def)
    with run Cons 3 have "r = Inr results" "c' = put_cache (Some (map Rec (build (ch_ctx c2)))) c2"
      by (simp_all add: revert_until_def chat_runs quiet_write_current_cache)
    with 3 msgs show ?thesis by (simp add: mirrored_def)
  qed
qed

lemma cached_messages_Rec [simp]: "cached_messages (map Rec ms) = ms"
  by (induction ms) auto

lemma build_adopt:
  "ms = [] \<or> \<not> is_system (hd ms) \<Longrightarrow> sc_system ctx = None \<Longrightarrow> build (adopt_messages ms ctx) = ms"
  "is_system (hd ms) \<Longrightarrow> ms \<noteq> [] \<Longrightarrow> build (adopt_messages ms ctx) = ms"
  by (cases "(ms, ctx)" rule: adopt_messages.cases; simp add: build_def system_line_def)+

lemma build_adopt_own: "build (adopt_messages (build ctx) ctx) = build ctx"
proof (cases "sc_system ctx")
  case None
  show ?thesis
    by (cases "build ctx = [] \<or> \<not> is_system (hd (build ctx))") (auto intro: build_adopt None)
next
  case (Some s)
  then show ?thesis by (simp add: build_def system_line_def)
qed

lemma key_adopt [simp]:
  "sc_data_dir (adopt_messages ms ctx) = sc_data_dir ctx"
  "sc_session_id (adopt_messages ms ctx) = sc_session_id ctx"
  by (cases "(ms, ctx)" rule: adopt_messages.cases; simp)+

lemma recover_mirrored:
  assumes "quiet c" and "mirrored c" and run: "recover_from_cache c = (r, c')"
  shows "quiet c' \<and> mirrored c'"
proof (cases "cache_of c")
  case None
  with run have "c' = c\<lparr>ch_ctx := (ch_ctx c)\<lparr>sc_messages := [], sc_system := None\<rparr>\<rparr>"
    by (simp add: recover_from_cache_def chat_runs)
  with assms(1) None show ?thesis
    by (simp add: mirrored_def quiet_def cache_of_def cache_key_def)
next
  case (Some ls)
  with assms(2) have ls: "ls = map Rec (build (ch_ctx c))" by (simp add: mirrored_def)
  with run Some assms(1) have c': "c' = c\<lparr>ch_ctx := adopt_messages (build (ch_ctx c)) (ch_ctx c)\<rparr>"
    by (simp add: recover_from_cache_def chat_runs)
  have "cache_of c' = Some ls" using c' Some by (simp add: cache_of_def cache_key_def)
  with c' ls assms(1) show ?thesis by (simp add: mirrored_def quiet_def build_adopt_own)
qed

lemma chat_step_mirrored: "chat_step c c' \<Longrightarrow> quiet c \<Longrightarrow> mirrored c \<Longrightarrow> quiet c' \<and> mirrored c'"
proof (induction rule: chat_step.induct)
  case (append ms c r c')
  then show ?case using append_mirrored by blast
next
  case (set_system s c r c')
  then have "c' = c\<lparr>ch_ctx := (ch_ctx c)\<lparr>sc_pending := Some s\<rparr>\<rparr>"
    by (simp add: set_system_message_def chat_runs)
  with set_system show ?case
    by (simp add: mirrored_def quiet_def cache_of_def cache_key_def build_def split: option.splits)
next
  case (send c r c')
  obtain r1 c1 where run: "apply_pending_system c = (r1, c1)" by (cases "apply_pending_system c")
  with send have "c' = c1" by (simp add: build_context_def)
  with apply_pending_mirrored [OF send(2,3) run] show ?case by simp
next
  case (revert n c r c')
  from revert_until_mirrored [OF revert(2,3) revert(1) [unfolded revert_def]] show ?case by simp
next
  case (reset ms c r c')
  then show ?case using reset_mirrored by blast
next
  case (recover c r c')
  then show ?case using recover_mirrored by blast
qed

text \<open>A new context of the same session, as after a restart of the process.\<close>

definition restarted :: "chat \<Rightarrow> chat" where
  "restarted c = c\<lparr>ch_ctx := new_context (sc_data_dir (ch_ctx c)) (sc_session_id (ch_ctx c))\<rparr>"

lemma restarted_simps:
  "cache_of (restarted c) = cache_of c" "quiet (restarted c) = quiet c"
  "ch_ctx (restarted c) = new_context (sc_data_dir (ch_ctx c)) (sc_session_id (ch_ctx c))"
  by (simp_all add: restarted_def cache_of_def cache_key_def new_context_def quiet_def)

lemma restart_recovers:
  assumes "quiet c" and "mirrored c" and "sc_messages (ch_ctx c) \<noteq> []"
    and run: "recover_from_cache (restarted c) = (r, c')"
  shows "r = Inr () \<and> build (ch_ctx c') = build (ch_ctx c)"
proof -
  from assms(2,3) have "cache_of c = Some (map Rec (build (ch_ctx c)))"
    by (cases "cache_of c") (simp_all add: mirrored_def)
  with run assms(1) have "r = Inr ()"
    and c': "ch_ctx c' = adopt_messages (build (ch_ctx c)) (new_context (sc_data_dir (ch_ctx c)) (sc_session_id (ch_ctx c)))"
    by (auto simp: recover_from_cache_def chat_runs restarted_simps)
  then show ?thesis
    by (cases "build (ch_ctx c) = [] \<or> \<not> is_system (hd (build (ch_ctx c)))")
      (auto simp: new_context_def intro: build_adopt)
qed

end
