(* ===== verification/Llm_Model.thy ===== *)
theory Llm_Model
  imports Llm_Session Archive_Effect Decision_Model
begin

text \<open>
  The model of \<open>kissbot-memory-struct-abstract/src/model.rs\<close> that asks a language model:
  the prompts, one session per role and event, and the three questions. The provider behind
  \<open>call_with_retry\<close> and the JSON parser are parameters.
\<close>

section \<open>Prompts\<close>

definition system_prompt :: \<open>string\<close> where
  \<open>system_prompt =
     utf8 [228, 189, 160, 230, 152, 175, 232, 174, 176, 229, 191, 134] @ '' case '' @ utf8 [229,
       189, 146, 230, 161, 163, 228, 184, 142, 229, 174, 154, 228, 189, 141, 231, 154, 132, 229,
       136, 164, 229, 174, 154, 229, 153, 168, 227, 128, 130, 232, 190, 147, 229, 133, 165, 230,
       152, 175, 232, 174, 176, 229, 191, 134, 232, 174, 176, 229, 189, 149, 230, 150, 135, 230,
       156, 172, 228, 184, 142, 229, 128, 153, 233, 128, 137] @ '' case '' @ utf8 [230, 145, 152,
       232, 166, 129, 227, 128, 130, 228, 189, 160, 229, 143, 170, 232, 190, 147, 229, 135, 186,
       228, 184, 128, 228, 184, 170] @ '' JSON '' @ utf8 [229, 175, 185, 232, 177, 161, 239, 188,
       140, 228, 184, 141, 232, 190, 147, 229, 135, 186, 232, 167, 163, 233, 135, 138, 227, 128,
       129] @ ''markdown '' @ utf8 [228, 187, 163, 231, 160, 129, 229, 157, 151, 230, 136, 150,
       229, 133, 182, 228, 187, 150, 228, 187, 187, 228, 189, 149, 229, 134, 133, 229, 174, 185,
       227, 128, 130]\<close>

definition brief_line :: \<open>case_brief \<Rightarrow> string\<close> where
  \<open>brief_line b =
     ''- '' @ cb_case_name b @ '': '' @ cb_summary b\<close>

definition no_case_label :: \<open>string\<close> where
  \<open>no_case_label =
     utf8 [239, 188, 136, 229, 189, 147, 229, 177, 130, 230, 178, 161, 230, 156, 137] @
     '' case'' @ utf8 [239, 188, 137]\<close>

definition render_level :: \<open>case_brief list \<Rightarrow> string\<close> where
  \<open>render_level level = (if level = [] then no_case_label else join newline (map brief_line level))\<close>

definition no_current_label :: \<open>string\<close> where
  \<open>no_current_label =
     utf8 [239, 188, 136, 232, 175, 165, 233, 128, 154, 233, 129, 147, 232, 191, 152, 230, 178,
       161, 230, 156, 137, 229, 189, 147, 229, 137, 141] @ '' case'' @ utf8 [239, 188, 137]\<close>

definition no_current_rule :: \<open>string\<close> where
  \<open>no_current_rule =
     utf8 [232, 175, 165, 233, 128, 154, 233, 129, 147, 232, 191, 152, 230, 178, 161, 230, 156,
       137, 229, 189, 147, 229, 137, 141] @ '' case'' @ utf8 [239, 188, 154, 230, 137, 128, 230,
       156, 137, 231, 187, 132, 233, 131, 189, 228, 184, 141, 229, 190, 151, 230, 160, 135, 232,
       174, 176] @ '' current''\<close>

definition current_rule :: \<open>string\<close> where
  \<open>current_rule =
     utf8 [228, 184, 142, 229, 189, 147, 229, 137, 141] @ '' case '' @ utf8 [229, 177, 158, 228,
       186, 142, 229, 144, 140, 228, 184, 128, 232, 175, 157, 233, 162, 152, 239, 188, 136, 229,
       189, 147, 229, 137, 141] @ '' case '' @ utf8 [231, 154, 132, 229, 187, 182, 231, 187, 173,
       239, 188, 137, 231, 154, 132, 231, 187, 132, 230, 160, 135, 232, 174, 176] @
     '' "current": true'' @ utf8 [239, 188, 140, 229, 133, 182, 228, 189, 153, 231, 187, 132,
       230, 160, 135, 232, 174, 176] @ '' false''\<close>

text \<open>The rule is chosen by the first character of the text of the current case.\<close>

definition open_parenthesis :: string where
  "open_parenthesis = utf8 [239, 188, 136]"

definition grouping_prompt :: \<open>string \<Rightarrow> case_brief option \<Rightarrow> string\<close> where
  \<open>grouping_prompt batch current =
    (let cur = (case current of Some b \<Rightarrow> brief_line b | None \<Rightarrow> no_current_label);
         rule = (if starts_with cur open_parenthesis then no_current_rule else current_rule)
     in
     utf8 [229, 189, 147, 229, 137, 141] @ '' case'' @ utf8 [239, 188, 154] @ newline @ cur @
     newline @ newline @ utf8 [229, 190, 133, 229, 164, 132, 231, 144, 134, 230, 182, 136, 230,
       129, 175, 239, 188, 136, 230, 175, 143, 232, 161, 140, 230, 160, 188, 229, 188, 143] @
     '' `['' @ utf8 [228, 184, 139, 230, 160, 135] @ ''] '' @ utf8 [230, 151, 182, 233, 151, 180]
       @ '' '' @ utf8 [229, 134, 133, 229, 174, 185] @ ''`'' @ utf8 [239, 188, 140, 228, 184,
       139, 230, 160, 135, 228, 187, 142] @ '' 0 '' @ utf8 [229, 188, 128, 229, 167, 139, 239,
       188, 137, 239, 188, 154] @ newline @ batch @ newline @ newline @ utf8 [232, 175, 183, 230,
       138, 138, 232, 191, 153, 228, 186, 155, 230, 182, 136, 230, 129, 175, 230, 140, 137] @
     '' case '' @ utf8 [229, 136, 134, 231, 187, 132, 239, 188, 136, 228, 184, 128, 231, 187,
       132] @ '' = '' @ utf8 [228, 184, 128, 228, 184, 170, 231, 139, 172, 231, 171, 139, 232,
       175, 157, 233, 162, 152] @ ''/case'' @ utf8 [239, 188, 137, 239, 188, 154] @ newline @
     ''- `messages` '' @ utf8 [230, 152, 175, 232, 175, 165, 231, 187, 132, 230, 182, 136, 230,
       129, 175, 231, 154, 132, 228, 184, 139, 230, 160, 135, 230, 149, 176, 231, 187, 132, 239,
       188, 140, 229, 141, 135, 229, 186, 143, 227, 128, 129, 228, 184, 141, 233, 135, 141, 229,
       164, 141, 227, 128, 129, 228, 184, 141, 233, 129, 151, 230, 188, 143] @ newline @ ''- '' @
     utf8 [229, 144, 132, 231, 187, 132, 230, 140, 137, 233, 166, 150, 228, 184, 170, 228, 184,
       139, 230, 160, 135, 229, 141, 135, 229, 186, 143, 230, 142, 146, 229, 136, 151, 239, 188,
       140, 228, 184, 148, 229, 144, 136, 232, 181, 183, 230, 157, 165, 230, 173, 163, 229, 165,
       189, 232, 166, 134, 231, 155, 150, 229, 133, 168, 233, 131, 168, 228, 184, 139, 230, 160,
       135] @ newline @ ''- '' @ rule @ newline @ utf8 [229, 143, 170, 232, 190, 147, 229, 135,
       186] @ '' JSON'' @ utf8 [239, 188, 140, 228, 190, 139, 229, 166, 130] @
     '' {"groups":[{"messages":[0,1],"current":true},{"messages":[2,3],"current":false}]}'')\<close>

definition level_prompt :: \<open>string \<Rightarrow> case_brief list \<Rightarrow> string\<close> where
  \<open>level_prompt batch level =
     utf8 [229, 189, 147, 229, 177, 130] @ '' case'' @ utf8 [239, 188, 136] @ ''id + '' @
     utf8 [230, 145, 152, 232, 166, 129, 239, 188, 137, 239, 188, 154] @ newline @ render_level
       level @ newline @ newline @ utf8 [229, 190, 133, 229, 189, 146, 229, 185, 182, 229, 134,
       133, 229, 174, 185, 239, 188, 136, 230, 175, 143, 232, 161, 140, 230, 160, 188, 229, 188,
       143] @ '' `['' @ utf8 [229, 186, 143, 229, 143, 183] @ ''] '' @ utf8 [230, 151, 182, 233,
       151, 180] @ '' '' @ utf8 [229, 134, 133, 229, 174, 185] @ ''`'' @ utf8 [239, 188, 137,
       239, 188, 154] @ newline @ batch @ newline @ newline @ utf8 [232, 175, 183, 229, 136, 164,
       230, 150, 173, 239, 188, 154] @ newline @ ''- '' @ utf8 [232, 139, 165, 229, 186, 148,
       229, 185, 182, 229, 133, 165, 230, 159, 144, 228, 184, 170, 229, 183, 178, 230, 156, 137]
       @ '' case'' @ utf8 [239, 188, 140, 232, 190, 147, 229, 135, 186] @
     '' {"target":"<case_name>"}'' @ newline @ ''- '' @ utf8 [232, 139, 165, 229, 186, 148, 229,
       156, 168, 230, 156, 172, 229, 177, 130, 230, 150, 176, 229, 162, 158] @ '' case'' @
     utf8 [239, 188, 140, 232, 190, 147, 229, 135, 186] @ '' {"target":"new","name":"<'' @
     utf8 [229, 144, 141, 231, 167, 176] @ ''>","summary":"<'' @ utf8 [230, 145, 152, 232, 166,
       129] @ ''>"}'' @ utf8 [239, 188, 154, 229, 144, 141, 231, 167, 176, 229, 143, 170, 232,
       131, 189, 231, 148, 177, 232, 139, 177, 230, 150, 135, 229, 173, 151, 230, 175, 141, 227,
       128, 129, 230, 149, 176, 229, 173, 151, 228, 184, 142] @ '' "-" '' @ utf8 [231, 187, 132,
       230, 136, 144, 239, 188, 136, 229, 166, 130] @ '' topic-weather-chat'' @ utf8 [239, 188,
       137, 239, 188, 140, 228, 184, 141, 232, 131, 189, 231, 148, 168, 228, 184, 173, 230, 150,
       135, 227, 128, 129, 231, 169, 186, 230, 160, 188, 230, 136, 150, 229, 133, 182, 228, 187,
       150, 229, 173, 151, 231, 172, 166, 239, 188, 140, 228, 184, 148, 232, 166, 129, 232, 131,
       189, 230, 166, 130, 230, 139, 172, 229, 134, 133, 229, 174, 185, 239, 188, 155, 230, 145,
       152, 232, 166, 129, 231, 148, 168, 231, 174, 128, 230, 180, 129, 228, 184, 173, 230, 150,
       135, 230, 166, 130, 230, 139, 172, 232, 191, 153, 228, 184, 170, 230, 150, 176] @
     '' case'' @ utf8 [239, 188, 136, 228, 191, 157, 231, 149, 153, 229, 133, 179, 233, 148, 174,
       228, 186, 186, 231, 137, 169, 227, 128, 129, 232, 175, 157, 233, 162, 152, 227, 128, 129,
       231, 187, 147, 232, 174, 186, 228, 184, 142, 230, 151, 182, 233, 151, 180, 231, 186, 191,
       231, 180, 162, 239, 188, 137] @ newline @ utf8 [229, 143, 170, 232, 190, 147, 229, 135,
       186] @ '' JSON'' @ utf8 [227, 128, 130]\<close>

definition summary_prompt :: \<open>string \<Rightarrow> string\<close> where
  \<open>summary_prompt text =
     ''case '' @ utf8 [229, 134, 133, 229, 174, 185, 239, 188, 136, 231, 155, 180, 230, 142, 165,
       232, 174, 176, 229, 189, 149] @ '' + '' @ utf8 [229, 173, 144] @ '' case '' @ utf8 [230,
       145, 152, 232, 166, 129, 239, 188, 137, 239, 188, 154] @ newline @ text @ newline @
     newline @ utf8 [232, 175, 183, 231, 148, 168, 231, 174, 128, 230, 180, 129, 228, 184, 173,
       230, 150, 135, 230, 128, 187, 231, 187, 147, 232, 191, 153, 228, 184, 170] @ '' case'' @
     utf8 [239, 188, 140, 228, 191, 157, 231, 149, 153, 229, 133, 179, 233, 148, 174, 228, 186,
       186, 231, 137, 169, 227, 128, 129, 232, 175, 157, 233, 162, 152, 227, 128, 129, 231, 187,
       147, 232, 174, 186, 228, 184, 142, 230, 151, 182, 233, 151, 180, 231, 186, 191, 231, 180,
       162, 239, 188, 140, 232, 190, 147, 229, 135, 186] @ '' {"summary":"..."}''\<close>

section \<open>The sessions\<close>

record model_response =
  mr_raw_content :: json
  mr_content :: "string option"
  mr_raw_reasoning_content :: json

type_synonym session_key = "agent_role \<times> string option"

record 'p llm_state =
  ls_sessions :: "(session_key, session_ctx) hmap"
  ls_files :: chat_files
  ls_provider :: 'p

text \<open>The errors of \<open>kissbot-llm/src/error.rs\<close>; all of them become \<open>ModelApiError\<close> here.\<close>

datatype llm_error =
    Llm_ModelApiError
  | Llm_ModelProviderNotFound
  | Llm_ModelProviderNotSupported
  | Llm_IoError
  | Llm_ReqwestError
  | Llm_JsonError
  | Llm_FileError
  | Llm_InternalError

record 'p llm_config =
  lc_root :: string
  lc_max_messages :: nat
  lc_retry_count :: nat
  lc_send_request :: "chat_message list \<Rightarrow> ('p, llm_error, model_response) action"
  lc_from_str :: "string \<Rightarrow> json option"

type_synonym ('p, 'a) llm_op = "('p llm_state, abs_error, 'a) action"

text \<open>The directory of the sessions of an agent, as path components joined with slashes.\<close>

definition llm_data_dir :: "'p llm_config \<Rightarrow> agent_role \<Rightarrow> string" where
  "llm_data_dir cfg h = lc_root cfg @ ''/'' @ ar_agent_id h @ ''/memory-struct-abstract/llm''"

text \<open>An operation of a session that is in the table; its context is stored back.\<close>

definition on_session :: "session_key \<Rightarrow> session_ctx \<Rightarrow> 'a chat_op \<Rightarrow> ('p, 'a) llm_op" where
  "on_session key ctx m s =
     (case m \<lparr>ch_ctx = ctx, ch_files = ls_files s\<rparr> of
        (r, c) \<Rightarrow> (r, s\<lparr>ls_sessions := hm_insert key (ch_ctx c) (ls_sessions s), ls_files := ch_files c\<rparr>))"

definition with_session :: "session_key \<Rightarrow> 'a chat_op \<Rightarrow> ('p, 'a) llm_op" where
  "with_session key m =
     bind_act (read_st (\<lambda>s. hm_get (ls_sessions s) key)) (\<lambda>found.
       case found of None \<Rightarrow> fail Panic | Some ctx \<Rightarrow> on_session key ctx m)"

text \<open>A session whose cache cannot be read is not put in the table.\<close>

definition open_session :: "'p llm_config \<Rightarrow> agent_role \<Rightarrow> string option \<Rightarrow> ('p, unit) llm_op" where
  "open_session cfg h e s =
     (case hm_get (ls_sessions s) (h, e) of
        Some ctx \<Rightarrow> (Inr (), s)
      | None \<Rightarrow>
          (case bind_act recover_from_cache (\<lambda>_. set_system_message system_prompt)
                  \<lparr>ch_ctx = new_context (llm_data_dir cfg h) (session_id (role_event_of h e)), ch_files = ls_files s\<rparr> of
             (Inl err, c) \<Rightarrow> (Inl (ModelApiError ''session''), s\<lparr>ls_files := ch_files c\<rparr>)
           | (Inr _, c) \<Rightarrow>
               (Inr (), s\<lparr>ls_sessions := hm_insert (h, e) (ch_ctx c) (ls_sessions s), ls_files := ch_files c\<rparr>)))"

text \<open>
  \<open>call_with_retry\<close> of \<open>kissbot-llm/src/provider.rs\<close>: the first number is how many
  attempts are left. An unsupported provider is a permanent error. The pauses between the
  attempts are left out.
\<close>

primrec retry_loop ::
  "nat \<Rightarrow> ('p, llm_error, 'a) action \<Rightarrow> llm_error \<Rightarrow> ('p, llm_error, 'a) action" where
  "retry_loop 0 send last_error = fail last_error"
| "retry_loop (Suc n) send last_error = (\<lambda>p.
     case send p of
       (Inr resp, p') \<Rightarrow> (Inr resp, p')
     | (Inl e, p') \<Rightarrow>
         if e = Llm_ModelProviderNotSupported then (Inl e, p') else retry_loop n send e p')"

definition call_with_retry :: "nat \<Rightarrow> ('p, llm_error, 'a) action \<Rightarrow> ('p, llm_error, 'a) action" where
  "call_with_retry retry_count send = retry_loop (Suc retry_count) send Llm_ModelApiError"

definition ask_provider :: "'p llm_config \<Rightarrow> chat_message list \<Rightarrow> ('p, model_response) llm_op" where
  "ask_provider cfg ms s =
     (case call_with_retry (lc_retry_count cfg) (lc_send_request cfg ms) (ls_provider s) of
        (Inl e, p) \<Rightarrow> (Inl (ModelApiError ''provider''), s\<lparr>ls_provider := p\<rparr>)
      | (Inr resp, p) \<Rightarrow> (Inr resp, s\<lparr>ls_provider := p\<rparr>))"

definition response_text :: "model_response \<Rightarrow> abs_error + string" where
  "response_text resp =
     (case mr_content resp of
        Some text \<Rightarrow> if trim text \<noteq> [] then Inr text else
          (case as_str (mr_raw_content resp) of
             Some raw \<Rightarrow> if trim raw \<noteq> [] then Inr raw else Inl (ModelApiError ''empty'')
           | None \<Rightarrow> Inl (ModelApiError ''empty''))
      | None \<Rightarrow>
          (case as_str (mr_raw_content resp) of
             Some raw \<Rightarrow> if trim raw \<noteq> [] then Inr raw else Inl (ModelApiError ''empty'')
           | None \<Rightarrow> Inl (ModelApiError ''empty'')))"

text \<open>The result of an operation whose error the code drops.\<close>

definition attempt :: "('s, 'e, unit) action \<Rightarrow> ('s, 'e, unit) action" where
  "attempt m s = (case m s of (_, s') \<Rightarrow> (Inr (), s'))"

definition trim_session :: "nat \<Rightarrow> session_key \<Rightarrow> ('p, unit) llm_op" where
  "trim_session limit key =
     bind_act (with_session key build_context) (\<lambda>context.
     let non_system = filter (\<lambda>m. \<not> is_system m) context
     in if length non_system \<le> limit then ret ()
        else with_session key (attempt (archive_and_clear_cache_and_reset_messages
               (Some (drop (length non_system - limit) non_system)))))"

definition llm_call :: "'p llm_config \<Rightarrow> agent_role \<Rightarrow> string option \<Rightarrow> string \<Rightarrow> ('p, json) llm_op" where
  "llm_call cfg h e prompt =
     bind_act (open_session cfg h e) (\<lambda>_.
     bind_act (with_session (h, e) build_context) (\<lambda>context.
     bind_act (ask_provider cfg (context @ [Msg_User prompt])) (\<lambda>resp.
     bind_act (of_result (response_text resp)) (\<lambda>text.
     bind_act (with_session (h, e) (attempt (context_append
        [Msg_User prompt, Msg_Assistant (mr_raw_content resp) (mr_raw_reasoning_content resp) JNull]))) (\<lambda>_.
     bind_act (trim_session (lc_max_messages cfg) (h, e)) (\<lambda>_.
     of_result (extract_json (lc_from_str cfg) text)))))))"

definition llm_group ::
  "'p llm_config \<Rightarrow> agent_role \<Rightarrow> string option \<Rightarrow> string \<Rightarrow> nat \<Rightarrow> case_brief option \<Rightarrow> ('p, message_group list) llm_op" where
  "llm_group cfg h e batch tot current =
     bind_act (llm_call cfg h e (grouping_prompt batch current)) (\<lambda>v. of_result (parse_groups v tot))"

definition llm_decide_level ::
  "'p llm_config \<Rightarrow> agent_role \<Rightarrow> string option \<Rightarrow> string \<Rightarrow> case_brief list \<Rightarrow> ('p, level_decision) llm_op" where
  "llm_decide_level cfg h e batch level =
     bind_act (llm_call cfg h e (level_prompt batch level)) (\<lambda>v. of_result (parse_level_decision v))"

definition llm_summarize :: "'p llm_config \<Rightarrow> agent_role \<Rightarrow> string option \<Rightarrow> string \<Rightarrow> ('p, string) llm_op" where
  "llm_summarize cfg h e content =
     bind_act (llm_call cfg h e (summary_prompt content)) (\<lambda>v. of_result (parse_summary v))"

definition llm_decision_model :: "'p llm_config \<Rightarrow> 'p llm_state decision_model" where
  "llm_decision_model cfg =
     \<lparr>dm_group = llm_group cfg, dm_decide_level = llm_decide_level cfg, dm_summarize = llm_summarize cfg\<rparr>"

text \<open>Every question ends with an answer or an ordinary error.\<close>

lemma open_session_run:
  "open_session cfg h e s = (r, s') \<Longrightarrow>
     (r = Inr () \<and> hm_get (ls_sessions s') (h, e) \<noteq> None) \<or> r = Inl (ModelApiError ''session'')"
  by (auto simp: open_session_def split: option.splits prod.splits sum.splits)

lemma with_session_run:
  assumes "hm_get (ls_sessions s) key \<noteq> None" and "\<And>c. \<exists>x c'. m c = (Inr x, c')"
    and "with_session key m s = (r, s')"
  shows "(\<exists>x. r = Inr x) \<and> hm_get (ls_sessions s') key \<noteq> None"
proof -
  from assms(1) obtain ctx where ctx: "hm_get (ls_sessions s) key = Some ctx" by auto
  obtain x c' where m: "m \<lparr>ch_ctx = ctx, ch_files = ls_files s\<rparr> = (Inr x, c')" using assms(2) by blast
  from assms(3) ctx m have "r = Inr x" "s' = s\<lparr>ls_sessions := hm_insert key (ch_ctx c') (ls_sessions s), ls_files := ch_files c'\<rparr>"
    by (simp_all add: with_session_def bind_act_def read_st_def on_session_def)
  then show ?thesis by simp
qed

lemma build_context_run: "\<exists>x c'. build_context c = (Inr x, c')"
  by (simp add: build_context_def split: prod.splits)

lemma attempt_run: "\<exists>x c'. attempt m c = (Inr x, c')"
  by (simp add: attempt_def split: prod.splits)

lemma trim_session_run:
  assumes "hm_get (ls_sessions s) key \<noteq> None" and "trim_session limit key s = (r, s')"
  shows "r = Inr ()"
proof -
  obtain r1 s1 where 1: "with_session key build_context s = (r1, s1)" by fastforce
  from with_session_run [OF assms(1) build_context_run 1] obtain con where
    r1: "r1 = Inr con" and s1: "hm_get (ls_sessions s1) key \<noteq> None" by auto
  let ?keep = "filter (\<lambda>m. \<not> is_system m) con"
  obtain r2 s2 where 2: "with_session key (attempt (archive_and_clear_cache_and_reset_messages
      (Some (drop (length ?keep - limit) ?keep)))) s1 = (r2, s2)" by fastforce
  from with_session_run [OF s1 attempt_run 2] have "r2 = Inr ()" by auto
  with assms(2) 1 2 r1 show ?thesis
    by (auto simp: trim_session_def bind_act_def ret_def Let_def split: if_splits)
qed

lemma response_text_err: "response_text resp = Inl e \<Longrightarrow> \<exists>tag. e = ModelApiError tag"
  by (auto simp: response_text_def split: option.splits if_splits)

lemma extract_json_err: "extract_json parse text = Inl e \<Longrightarrow> \<exists>tag. e = ModelApiError tag"
  by (auto simp: extract_json_def Let_def split: option.splits if_splits)

lemma ask_provider_run:
  "ask_provider cfg ms s = (r, s') \<Longrightarrow> ls_sessions s' = ls_sessions s \<and> (\<forall>e. r = Inl e \<longrightarrow> (\<exists>tag. e = ModelApiError tag))"
  by (auto simp: ask_provider_def split: prod.splits sum.splits)

text \<open>A question ends with an answer or with \<open>ModelApiError\<close>.\<close>

lemma llm_call_err:
  assumes run: "llm_call cfg h e prompt s = (Inl err, s')"
  shows "\<exists>tag. err = ModelApiError tag"
proof (rule ccontr)
  assume neg: "\<nexists>tag. err = ModelApiError tag"
  obtain r1 s1 where 1: "open_session cfg h e s = (r1, s1)" by fastforce
  from run 1 neg open_session_run [OF 1] have r1: "r1 = Inr ()" and k1: "hm_get (ls_sessions s1) (h, e) \<noteq> None"
    by (auto simp: llm_call_def bind_act_def)
  obtain r2 s2 where 2: "with_session (h, e) build_context s1 = (r2, s2)" by fastforce
  from with_session_run [OF k1 build_context_run 2] obtain con where
    r2: "r2 = Inr con" and k2: "hm_get (ls_sessions s2) (h, e) \<noteq> None" by auto
  obtain r3 s3 where 3: "ask_provider cfg (con @ [Msg_User prompt]) s2 = (r3, s3)" by fastforce
  from run 1 2 3 r1 r2 neg ask_provider_run [OF 3] obtain resp where
    r3: "r3 = Inr resp" and k3: "hm_get (ls_sessions s3) (h, e) \<noteq> None"
    using k2 by (cases r3) (auto simp: llm_call_def bind_act_def)
  obtain answer where ans: "response_text resp = Inr answer"
    using run 1 2 3 r1 r2 r3 neg response_text_err [of resp]
    by (cases "response_text resp") (auto simp: llm_call_def bind_act_def of_result_def)
  let ?append = "attempt (context_append
        [Msg_User prompt, Msg_Assistant (mr_raw_content resp) (mr_raw_reasoning_content resp) JNull])"
  obtain r4 s4 where 4: "with_session (h, e) ?append s3 = (r4, s4)" by fastforce
  from with_session_run [OF k3 attempt_run 4] have r4: "r4 = Inr ()" and k4: "hm_get (ls_sessions s4) (h, e) \<noteq> None"
    by auto
  obtain r5 s5 where 5: "trim_session (lc_max_messages cfg) (h, e) s4 = (r5, s5)" by fastforce
  from trim_session_run [OF k4 5] have r5: "r5 = Inr ()" .
  from run 1 2 3 4 5 r1 r2 r3 r4 r5 ans have "extract_json (lc_from_str cfg) answer = Inl err"
    by (simp add: llm_call_def bind_act_def of_result_def)
  with extract_json_err neg show False by blast
qed

lemma parse_indices_err: "parse_indices tot ms indices = Inl err \<Longrightarrow> \<exists>tag. err = ModelApiError tag"
  by (induction tot ms indices rule: parse_indices.induct) (auto split: option.splits if_splits)

lemma parse_group_list_err: "parse_group_list tot gs n acc = Inl err \<Longrightarrow> \<exists>tag. err = ModelApiError tag"
  by (induction tot gs n acc rule: parse_group_list.induct)
    (auto split: option.splits if_splits sum.splits dest: parse_indices_err)

lemma parse_groups_err: "parse_groups v tot = Inl err \<Longrightarrow> \<exists>tag. err = ModelApiError tag"
  by (auto simp: parse_groups_def split: option.splits if_splits sum.splits dest: parse_group_list_err)

lemma parse_summary_err: "parse_summary v = Inl err \<Longrightarrow> \<exists>tag. err = ModelApiError tag"
  by (auto simp: parse_summary_def split: option.splits if_splits)

lemma parse_level_err: "parse_level_decision v = Inl err \<Longrightarrow> \<exists>tag. err = ModelApiError tag"
  by (auto simp: parse_level_decision_def split: option.splits if_splits sum.splits dest: parse_summary_err)

lemmas parse_errs = parse_groups_err [OF sym] parse_summary_err [OF sym] parse_level_err [OF sym]

interpretation llm: decision_interface "llm_decision_model cfg" for cfg :: "'p llm_config"
proof unfold_locales
  fix h e batch and tot :: nat and current m gs m'
  assume "dm_group (llm_decision_model cfg) h e batch tot current m = (Inr gs, m')"
  then obtain v where "parse_groups v tot = Inr gs" by (auto simp: llm_decision_model_def llm_group_def run_simps)
  then show "groups_chain 0 gs tot" by (simp add: parse_groups_chain)
qed (auto simp: errs_normally_def abnormal_def llm_decision_model_def llm_group_def llm_decide_level_def
    llm_summarize_def bind_Inl_conv dest!: llm_call_err parse_errs)

end
