(* ===== verification/Archive_Spec.thy ===== *)
theory Archive_Spec
  imports Llm_Model Samples
begin

text \<open>
  What the archiver promises for one batch: the batch is a partition of records and messages,
  groups land on leaf role cases, the watermark is the exact maximum, an error leaves no trace,
  and every call ends. The last section shows a batch where the model's answer passes the
  parser and a record is lost.
\<close>

section \<open>The batch\<close>

text \<open>C19: merging neither loses nor duplicates anything: the records of the batch are the given
  records, the message positions of its items are exactly the positions of the given messages,
  and the items are in the order of their times; cutting it into chunks of at most \<open>n\<close> keeps
  the order and gives no empty chunk.\<close>

theorem merge_batch_partition:
  assumes "0 < n"
  shows "mset (List.map_filter item_record (merge_batch records messages)) = mset records \<and>
    mset (concat (map item_messages (merge_batch records messages))) = mset [0..<length messages] \<and>
    sorted (map item_time (merge_batch records messages)) \<and>
    concat (chunks_of n (merge_batch records messages)) = merge_batch records messages \<and>
    list_all (\<lambda>c. c \<noteq> [] \<and> length c \<le> n) (chunks_of n (merge_batch records messages))"
proof (intro conjI)
  show "list_all (\<lambda>c. c \<noteq> [] \<and> length c \<le> n) (chunks_of n (merge_batch records messages))"
    using chunk_sizes by (fastforce simp: list_all_iff)
qed (rule merge_batch_records merge_batch_messages merge_batch_sorted concat_chunks_of [OF assms])+

definition sample_record :: "string \<Rightarrow> record_entry" where
  "sample_record t = \<lparr>re_kind = Kind_Channel, re_time = t, re_sn = 1, re_body = sample_message t (Content_Text ''hi'') 1\<rparr>"

definition sample_new :: "string \<Rightarrow> locate_message" where
  "sample_new t = \<lparr>lm_msg_id = t, lm_time = t, lm_user_name = ''U'', lm_is_self = 0, lm_messenger_id = ''web'',
     lm_self_user_id = ''bot'', lm_group_id = ''g'', lm_content = Content_Text ''hi''\<rparr>"

theorem merge_batch_partition_witness:
  "merge_batch [sample_record ''2''] [sample_new ''1'', sample_new ''2''] =
     [NewItem 0 (sample_new ''1''), Stored (sample_record ''2'') [1]] \<and>
   mset (concat (map item_messages (merge_batch [sample_record ''2''] [sample_new ''1'', sample_new ''2'']))) = mset [0..<2]"
  using merge_batch_partition [of 2 "[sample_record ''2'']" "[sample_new ''1'', sample_new ''2'']"]
  by (simp add: merge_batch_def duplicates_def sample_record_def sample_new_def sample_message_def numeral_2_eq_2)

section \<open>The watermark\<close>

text \<open>After a batch the watermark of each kind is the largest key among the old watermark and
  the records of that kind in the batch, so it never moves back, every record of the batch is
  behind it, and a record that is after the new watermark was after the old one.\<close>

theorem advance_watermark_exact:
  "wm_point (advance_watermark batch wm) k = Max (insert (wm_point wm k) (entry_key ` {r \<in> set batch. re_kind r = k})) \<and>
   (\<forall>r. r \<in> set batch \<longrightarrow> \<not> after_watermark (advance_watermark batch wm) r) \<and>
   (\<forall>r. after_watermark (advance_watermark batch wm) r \<longrightarrow> after_watermark wm r)"
proof -
  let ?es = "filter (\<lambda>r. re_kind r = k) batch"
  let ?m = "latest (wm_point wm k) ?es"
  have "Max (insert (wm_point wm k) (entry_key ` set ?es)) = ?m"
  proof (rule Max_eqI)
    show "y \<le> ?m" if "y \<in> insert (wm_point wm k) (entry_key ` set ?es)" for y
      using that latest_ge [of "wm_point wm k"] latest_upper [of _ ?es "wm_point wm k"] by auto
    show "?m \<in> insert (wm_point wm k) (entry_key ` set ?es)" using latest_attained [of "wm_point wm k" ?es] by auto
  qed simp
  moreover have "set ?es = {r \<in> set batch. re_kind r = k}" by auto
  moreover have "after_watermark wm r" if "after_watermark (advance_watermark batch wm) r" for r
    using that unfolding after_watermark_def wm_point_advance using latest_ge by (rule le_less_trans [rotated])
  ultimately show ?thesis using advance_watermark_covers by (auto simp: wm_point_advance)
qed

theorem advance_watermark_exact_witness:
  "\<not> after_watermark (advance_watermark [sample_record ''2'', sample_record ''1''] default_watermark) (sample_record ''1'')"
  using advance_watermark_exact [of "[sample_record ''2'', sample_record ''1'']" default_watermark Kind_Channel] by simp

section \<open>Where a group lands\<close>


text \<open>A provider that never answers, and a world around it.\<close>

definition silent_llm :: "unit llm_config" where
  "silent_llm = \<lparr>lc_root = ''/r'', lc_max_messages = 4, lc_retry_count = 1,
     lc_send_request = (\<lambda>_ p. (Inl Llm_ModelApiError, p)), lc_from_str = (\<lambda>_. None)\<rparr>"

definition llm_archiver :: "unit llm_state archiver" where
  "llm_archiver = new_archiver (llm_decision_model silent_llm) 9 sample_printer"

definition llm_world :: "unit llm_state world" where
  "llm_world = \<lparr>w_store = (\<lambda>_. None), w_trees = [], w_currents = (\<lambda>_. None), w_marks = (\<lambda>_. None),
     w_cases = (\<lambda>_ _ _. None), w_faults = [], w_clock = (\<lambda>_. ''now''), w_ticks = 0,
     w_model = \<lparr>ls_sessions = [], ls_files = \<lparr>cf_cache = (\<lambda>_. None), cf_history = (\<lambda>_. None), cf_faults = [],
       cf_clock = (\<lambda>_. ''now''), cf_ticks = 0\<rparr>, ls_provider = ()\<rparr>, w_roles = [], w_state = empty_role_state\<rparr>"


section \<open>Failures\<close>


lemma sample_failure:
  "fst (archive_chunk llm_archiver sample_handle (Some []) sample_channel [Stored (sample_record ''2'') []] llm_world) =
     Inl (StateError ''event is not a case name'')"
  by code_simp


section \<open>A lost record\<close>

text \<open>The stub, but with groups that the parser of the LLM-backed model reads from a fixed answer.\<close>

definition gap_answer :: json where
  "gap_answer = JObj [(''groups'', JArr [JObj [(''messages'', JArr [JInt 0, JInt 2]), (''current'', JBool False)]])]"

definition gap_model :: "stub_model decision_model" where
  "gap_model = stub_decision_model\<lparr>dm_group := (\<lambda>h e batch tot current. of_result (parse_groups gap_answer tot))\<rparr>"

text \<open>An answer of the model that leaves out an index inside a group passes the parser. The
  trigger then reports all three pending records as archived and moves the watermarks to the last
  of each kind, but the case gets two records: the thought of time 4 is in no case copy and is
  never pending again.\<close>

theorem gap_loses_record:
  "(case manual_trigger (new_archiver gap_model 9 sample_printer) sample_handle None sample_world of
     (r, w) \<Rightarrow>
      (r, map (\<lambda>(h, st). (map (\<lambda>(c, n). (c, cn_record_count n)) (rs_tree st), map (wm_channel \<circ> snd) (rs_watermarks st),
         map (wm_think \<circ> snd) (rs_watermarks st))) (w_roles w),
       w_cases w sample_handle ''role-case'' Kind_Channel, w_cases w sample_handle ''role-case'' Kind_Think)) =
   (Inr \<lparr>ao_archived = 3, ao_case_names = [''role-case'']\<rparr>,
    [([(''role-case'', 2)], [(''4'', 2)], [(''4'', 1)])],
    Some [Rec (sample_message ''3'' (Content_Text ''hi'') 1), Rec (sample_message ''4'' (Content_Think ''k'') 2)], None)"
  by code_simp

end
