(* ===== verification/Archive_Run.thy ===== *)
theory Archive_Run
  imports Archive_Effect
begin

text \<open>
  A whole call of \<open>archive\<close>: the chunks one after the other. When the model leaves no index
  out, every record goes to exactly one case; whatever the model answers, the watermark passes
  all of them.
\<close>

section \<open>Who gets which record\<close>

type_synonym assignment = "(record_entry \<times> string) list"

definition assigned :: "assignment \<Rightarrow> string \<Rightarrow> record_entry list" where
  "assigned asg c = map fst (filter (\<lambda>(r, d). d = c) asg)"

lemma assigned_append [simp]: "assigned (a @ b) c = assigned a c @ assigned b c"
  by (simp add: assigned_def)

definition plan_assignment :: "batch_item list \<Rightarrow> chunk_plan \<Rightarrow> assignment" where
  "plan_assignment items pn =
     concat (map2 (\<lambda>g d. map (\<lambda>r. (r, d)) (stored_records items g)) (cp_groups pn) (cp_cases pn))"

lemma assigned_const: "assigned (map (\<lambda>r. (r, d)) rs) c = (if c = d then rs else [])"
  by (induction rs) (auto simp: assigned_def)

lemma assigned_concat: "assigned (concat xss) c = concat (map (\<lambda>xs. assigned xs c) xss)"
  by (induction xss) (simp_all add: assigned_def)

lemma assigned_plan: "assigned (plan_assignment items pn) c = planned items pn c"
  by (simp add: plan_assignment_def planned_def assigned_concat assigned_const comp_def split_def)

lemma fst_plan:
  assumes "length (cp_cases pn) = length (cp_groups pn)"
  shows "map fst (plan_assignment items pn) = stored_records items (concat (cp_groups pn))"
proof -
  have "map fst (plan_assignment items pn) = concat (map (\<lambda>x. stored_records items (fst x)) (zip (cp_groups pn) (cp_cases pn)))"
    by (simp add: plan_assignment_def map_concat comp_def split_def)
  then show ?thesis using assms by (simp add: map_zip_fst stored_records_concat)
qed

text \<open>A model that never leaves out an index.\<close>

definition covering :: "'m decision_model \<Rightarrow> bool" where
  "covering dm \<longleftrightarrow>
     (\<forall>h e text tot current m gs m'. dm_group dm h e text tot current m = (Inr gs, m') \<longrightarrow> covers_all gs tot)"

lemma covering_plan:
  assumes "covering (av_model av)" and "plan_of av h e items pn"
  shows "concat (cp_groups pn) = [0..<length items]"
proof (cases e)
  case None
  with assms(2) obtain tx current m gs m' where "dm_group (av_model av) h None tx (length items) current m = (Inr gs, m')"
    and "cp_groups pn = map mg_messages gs" by (auto simp: plan_of_def)
  with assms(1) show ?thesis unfolding covering_def covers_all_def by metis
next
  case (Some ev)
  with assms(2) show ?thesis by (simp add: plan_of_def)
qed

section \<open>Saving\<close>

lemma keeps_write_json:
  "(\<And>w fs. f (w\<lparr>w_faults := fs\<rparr>) = f w) \<Longrightarrow> (\<And>w. f (g w) = f w) \<Longrightarrow> keeps f (write_json g)"
  unfolding write_json_def by (intro keeps_intros keeps_modify_st keeps_io_step)

lemma keeps_remove_file:
  "(\<And>w fs. f (w\<lparr>w_faults := fs\<rparr>) = f w) \<Longrightarrow> (\<And>w. f (g w) = f w) \<Longrightarrow> keeps f (remove_file g)"
  unfolding remove_file_def by (intro keeps_intros keeps_modify_st keeps_io_step)

lemma save_state_frame:
  "keeps (\<lambda>w. (w_state w, w_roles w, w_model w, w_store w, w_cases w)) (save_state h e)"
  unfolding save_state_def save_tree_def save_current_def save_watermark_def
  by (intro keeps_intros keeps_get_state keeps_write_json keeps_remove_file) simp_all

lemma save_state_keeps:
  assumes "save_state h e w = (r, w')"
  shows "w_state w' = w_state w" "w_roles w' = w_roles w" "w_model w' = w_model w" "w_store w' = w_store w"
    "case_bodies w' = case_bodies w"
  using keepsD [OF save_state_frame assms] by (simp_all add: fun_eq_iff case_bodies_def case_file_lines_def)

section \<open>The chunks of a call\<close>

lemma archive_step_Inr:
  assumes "archive_step av h e channel chunk acc w = (Inr acc', w')"
  obtains oc gs w1 where "archive_chunk av h e channel chunk w = (Inr (oc, gs), w1)"
    and "(if 0 < ao_archived oc then save_state h (role_event_of h e) else ret ()) w1 = (Inr (), w')"
    and "acc' = (fst acc @ [oc], snd acc @ gs)"
  using assms by (auto simp: archive_step_def run_simps)

lemma watermark_of_insert:
  "watermark_of re channel (st\<lparr>rs_watermarks := bm_insert (re', channel') wm m\<rparr>) =
     (if re = re' \<and> channel = channel' then wm else watermark_of re channel (st\<lparr>rs_watermarks := m\<rparr>))"
  by (simp add: watermark_of_def)

lemma watermark_of_cong: "rs_watermarks st = rs_watermarks st' \<Longrightarrow> watermark_of re channel st = watermark_of re channel st'"
  by (simp add: watermark_of_def)

lemma advance_watermark_append: "advance_watermark (a @ b) wm = advance_watermark b (advance_watermark a wm)"
proof -
  have "wm_point (advance_watermark (a @ b) wm) k = wm_point (advance_watermark b (advance_watermark a wm)) k" for k
    by (simp add: wm_point_advance latest_def)
  from this [of Kind_Channel] this [of Kind_Think] this [of Kind_ToolCall] this [of Kind_ToolResult]
  show ?thesis by (simp add: watermark.equality)
qed

lemma advance_watermark_Nil [simp]: "advance_watermark [] wm = wm"
  by (simp add: advance_watermark_def all_kinds_def)

text \<open>
  The effect of a run of chunks: the assignment of their records, the watermark and what stays
  as it was.
\<close>

definition run_effect ::
  "'m archiver \<Rightarrow> agent_role \<Rightarrow> string option \<Rightarrow> channel_key \<Rightarrow> batch_item list list \<Rightarrow> 'm world \<Rightarrow> 'm world \<Rightarrow> assignment \<Rightarrow> bool" where
  "run_effect av h e channel chunks w w' asg \<longleftrightarrow>
     (\<forall>h' c k. case_bodies w' h' c k = case_bodies w h' c k @ (if h' = h then bodies_of k (assigned asg c) else [])) \<and>
     (\<forall>re ch. watermark_of re ch (w_state w') =
        (if re = role_event_of h e \<and> ch = channel
         then advance_watermark (concat (map batch_records chunks)) (watermark_of re ch (w_state w))
         else watermark_of re ch (w_state w))) \<and>
     w_store w' = w_store w \<and> w_roles w' = w_roles w \<and>
     rs_loaded (w_state w') = rs_loaded (w_state w) \<and>
     rs_dirty_suffixes (w_state w') = rs_dirty_suffixes (w_state w) \<and>
     rs_dirty_channels (w_state w') = rs_dirty_channels (w_state w) \<and>
     grows (rs_tree (w_state w)) (rs_tree (w_state w')) \<and>
     (\<forall>c. tree_contains (rs_tree (w_state w)) c \<longrightarrow>
        counted (rs_tree (w_state w')) c = counted (rs_tree (w_state w)) c + length (assigned asg c)) \<and>
     (covering (av_model av) \<longrightarrow> mset (map fst asg) = mset (concat (map batch_records chunks)))"

lemma archive_step_effect:
  assumes run: "archive_step av h e channel chunk acc w = (Inr acc', w')" and ne: "chunk \<noteq> []"
    and ok: "tree_ok (rs_tree (w_state w))" and entries: "\<forall>r\<in>set (batch_records chunk). entry_ok r"
  shows "tree_ok (rs_tree (w_state w')) \<and> (\<exists>asg. run_effect av h e channel [chunk] w w' asg)"
proof -
  from run obtain oc gs w1 where chunk: "archive_chunk av h e channel chunk w = (Inr (oc, gs), w1)"
    and save: "(if 0 < ao_archived oc then save_state h (role_event_of h e) else ret ()) w1 = (Inr (), w')"
    by (rule archive_step_Inr)
  from chunk_run [OF ne chunk ok entries] obtain pn where fin: "chunk_done av h e channel chunk w w1 oc gs pn" by blast
  have same: "w_state w' = w_state w1 \<and> w_roles w' = w_roles w1 \<and> w_store w' = w_store w1 \<and> case_bodies w' = case_bodies w1"
    using save by (cases "0 < ao_archived oc") (auto dest: save_state_keeps)
  from fin have plan: "plan_of av h e chunk pn" and "w_store w1 = w_store w"
    by (simp_all add: chunk_done_def saved_files_def)
  moreover have "mset (map fst (plan_assignment chunk pn)) = mset (batch_records chunk)" if "covering (av_model av)"
    using covering_plan [OF that plan] fst_plan [of pn chunk] plan
    by (simp add: stored_records_all plan_of_def)
  ultimately have "run_effect av h e channel [chunk] w w' (plan_assignment chunk pn)"
    using fin same by (auto simp: run_effect_def chunk_done_def assigned_plan watermark_of_def grows_def)
  then show ?thesis using fin same by (auto simp: chunk_done_def)
qed

lemma run_effect_Nil: "run_effect av h e channel [] w w []"
  by (simp add: run_effect_def assigned_def grows_def)

lemma run_effect_Cons:
  assumes "run_effect av h e channel [chunk] w w1 a" and "run_effect av h e channel chunks w1 w2 b"
  shows "run_effect av h e channel (chunk # chunks) w w2 (a @ b)"
  using assms by (auto simp: run_effect_def advance_watermark_append grows_def)

lemma archive_steps_effect:
  "fold_act (archive_step av h e channel) chunks acc w = (Inr acc', w') \<Longrightarrow> \<forall>c\<in>set chunks. c \<noteq> [] \<Longrightarrow>
   tree_ok (rs_tree (w_state w)) \<Longrightarrow> \<forall>r\<in>set (concat (map batch_records chunks)). entry_ok r \<Longrightarrow>
   tree_ok (rs_tree (w_state w')) \<and> (\<exists>asg. run_effect av h e channel chunks w w' asg)"
proof (induction chunks arbitrary: acc w)
  case Nil
  then show ?case using run_effect_Nil by fastforce
next
  case (Cons chunk chunks)
  then obtain acc1 w1 where 1: "archive_step av h e channel chunk acc w = (Inr acc1, w1)"
    and 2: "fold_act (archive_step av h e channel) chunks acc1 w1 = (Inr acc', w')" by (auto simp: run_simps)
  from archive_step_effect [OF 1] Cons.prems obtain a where a: "tree_ok (rs_tree (w_state w1))"
    "run_effect av h e channel [chunk] w w1 a" by auto
  from Cons.IH [OF 2] a(1) Cons.prems obtain b where "tree_ok (rs_tree (w_state w'))" "run_effect av h e channel chunks w1 w' b"
    by auto
  with a(2) run_effect_Cons show ?case by blast
qed

lemma batch_records_concat: "batch_records (concat xss) = concat (map batch_records xss)"
  by (induction xss) (simp_all add: map_filter_append map_filter_simps)

text \<open>The call: what \<open>run_effect\<close> says of the batch, in terms of the records.\<close>

lemma archive_effect:
  assumes run: "archive av h e channel records messages w = (Inr result, w')" and size: "0 < av_max_batch av"
    and ok: "tree_ok (rs_tree (w_state w))" and entries: "\<forall>r\<in>set records. entry_ok r"
  obtains asg batch where "tree_ok (rs_tree (w_state w'))" and "mset batch = mset records"
    and "run_effect av h e channel (chunks_of (av_max_batch av) (merge_batch records messages)) w w' asg"
    and "concat (map batch_records (chunks_of (av_max_batch av) (merge_batch records messages))) = batch"
proof (cases "records = [] \<and> messages = []")
  case True
  with run have "w' = w" by (simp add: archive_def)
  moreover have "merge_batch records messages = []" using True by (simp add: merge_batch_def)
  ultimately show thesis
    using that [of "[]" "[]"] True ok run_effect_Nil [of av h e channel w] by (simp add: chunks_of.simps)
next
  case False
  let ?chunks = "chunks_of (av_max_batch av) (merge_batch records messages)"
  from run False obtain acc where steps: "fold_act (archive_step av h e channel) ?chunks ([], []) w = (Inr acc, w')"
    by (auto simp: archive_def Let_def run_simps)
  have batch: "concat (map batch_records ?chunks) = batch_records (merge_batch records messages)"
    using concat_chunks_of [OF size, of "merge_batch records messages"] by (simp flip: batch_records_concat)
  have "mset (batch_records (merge_batch records messages)) = mset records" by (rule merge_batch_records)
  then have entries': "\<forall>r\<in>set (concat (map batch_records ?chunks)). entry_ok r"
    using entries unfolding batch by (metis mset_eq_setD)
  have "\<forall>c\<in>set ?chunks. c \<noteq> []" using chunk_sizes by blast
  from archive_steps_effect [OF steps this ok entries'] obtain asg where
    "tree_ok (rs_tree (w_state w'))" "run_effect av h e channel ?chunks w w' asg" by blast
  then show thesis using that batch merge_batch_records by blast
qed

end
