(* ===== verification/Service_Run.thy ===== *)
theory Service_Run
  imports Archive_Run Service_Inv
begin

text \<open>
  A whole pass over the pending records of a memory suffix: what is read from the shared files,
  what a channel's turn does to its watermark, and that nothing is pending afterwards.
\<close>

section \<open>What a view holds\<close>

lemma keeps_store_read: "keeps w_store (read_store_records agent suffix)"
  unfolding read_store_records_def read_store_files_def list_store_files_def Let_def
  by (intro keeps_intros keeps_io_step) simp_all

lemma read_store_files_entries:
  "read_store_files kind files w = (Inr es, w') \<Longrightarrow> \<forall>e\<in>set es. entry_ok e \<and> re_kind e = kind"
proof -
  have "entry_ok e \<and> re_kind e = kind" if "parse_entry kind l = Some e" for l e
    using that by (cases "(kind, l)" rule: parse_entry.cases)
      (auto simp: entry_ok_def entry_of_body_def split: if_splits)
  then have parsed: "\<forall>e\<in>set (List.map_filter (parse_entry kind) ls). entry_ok e \<and> re_kind e = kind" for ls
    by (auto simp: List.map_filter_def)
  have "fold_act (\<lambda>(date, ls) es. bind_act io_step (\<lambda>_. ret (es @ List.map_filter (parse_entry kind) ls))) files es0 w
      = (Inr es, w') \<Longrightarrow> \<forall>e\<in>set es0. entry_ok e \<and> re_kind e = kind \<Longrightarrow> \<forall>e\<in>set es. entry_ok e \<and> re_kind e = kind" for es0
  proof (induction files arbitrary: es0 w)
    case (Cons f files)
    obtain date ls where f: "f = (date, ls)" by fastforce
    let ?g = "\<lambda>(date, ls) es. bind_act io_step (\<lambda>_. ret (es @ List.map_filter (parse_entry kind) ls))"
    from Cons.prems(1) obtain es1 w1 where 1: "?g f es0 w = (Inr es1, w1)" and 2: "fold_act ?g files es1 w1 = (Inr es, w')"
      by (rule fold_act_ConsE)
    from 1 have "es1 = es0 @ List.map_filter (parse_entry kind) ls" by (simp add: f bind_Inr_conv)
    with Cons.prems(2) parsed have "\<forall>e\<in>set es1. entry_ok e \<and> re_kind e = kind" by (simp add: ball_Un)
    with Cons.IH [OF 2] show ?case .
  qed simp
  then show "read_store_files kind files w = (Inr es, w') \<Longrightarrow> \<forall>e\<in>set es. entry_ok e \<and> re_kind e = kind"
    by (simp add: read_store_files_def)
qed

lemma read_view_entries:
  assumes "read_view h e w = (Inr view, w')"
  shows "(\<forall>r\<in>set (sv_records view). entry_ok r) \<and> length (sv_channels view) = length (sv_records view) \<and>
    sorted (map entry_key (sv_records view)) \<and> sv_channels view = attribute_channels (sv_records view)"
proof -
  let ?f = "\<lambda>kind es. bind_act (list_store_files (ar_agent_id h) (role_event_suffix (role_event_of h e)) kind (take 10 watermark_zero_time)) (\<lambda>files.
          bind_act (read_store_files kind files) (\<lambda>new. ret (es @ new)))"
  have all: "fold_act ?f ks es0 w1 = (Inr es, w2) \<Longrightarrow> \<forall>r\<in>set es0. entry_ok r \<Longrightarrow> \<forall>r\<in>set es. entry_ok r" for ks es0 es w1 w2
  proof (induction ks arbitrary: es0 w1)
    case (Cons k ks)
    from Cons.prems(1) obtain es1 w5 where 1: "?f k es0 w1 = (Inr es1, w5)" and rest: "fold_act ?f ks es1 w5 = (Inr es, w2)"
      by (rule fold_act_ConsE)
    then obtain files w3 where "bind_act (read_store_files k files) (\<lambda>new. ret (es0 @ new)) w3 = (Inr es1, w5)"
      unfolding bind_Inr_conv [of "list_store_files _ _ _ _"] by blast
    then obtain new w4 where new: "read_store_files k files w3 = (Inr new, w4)" and "es1 = es0 @ new"
      by (auto simp: bind_Inr_conv)
    with Cons.prems(2) read_store_files_entries [OF new] have "\<forall>r\<in>set es1. entry_ok r" by (simp add: ball_Un)
    with Cons.IH [OF rest] show ?case .
  qed simp
  from assms obtain es w1 where es: "fold_act ?f all_kinds [] w = (Inr es, w1)"
    and view: "view = \<lparr>sv_records = sort_key entry_key es, sv_channels = attribute_channels (sort_key entry_key es)\<rparr>"
    by (auto simp: read_view_def read_store_records_def Let_def run_simps)
  from all [OF es] show ?thesis by (auto simp: view attribute_channels_def)
qed

lemma pending_for_set:
  "r \<in> set (pending_for view c wm) \<longleftrightarrow> (\<exists>i < min (length (sv_records view)) (length (sv_channels view)).
     sv_records view ! i = r \<and> sv_channels view ! i = Some c \<and> after_watermark wm r)"
  by (force simp: pending_for_def set_zip)

lemma pending_for_Nil_iff:
  "pending_for view c wm = [] \<longleftrightarrow> (\<forall>i < min (length (sv_records view)) (length (sv_channels view)).
     sv_channels view ! i = Some c \<longrightarrow> \<not> after_watermark wm (sv_records view ! i))"
proof -
  have "pending_for view c wm = [] \<longleftrightarrow> set (pending_for view c wm) = {}" by simp
  then show ?thesis by (auto simp: pending_for_set set_eq_iff)
qed

lemma pending_entries: "set (pending_for view c wm) \<subseteq> set (sv_records view)"
  by (auto simp: pending_for_set)

lemma unknown_channel: "c \<notin> set (known_channels view) \<Longrightarrow> pending_for view c wm = []"
  unfolding pending_for_Nil_iff
proof (intro allI impI)
  fix i assume "c \<notin> set (known_channels view)"
    and "i < min (length (sv_records view)) (length (sv_channels view))" and "sv_channels view ! i = Some c"
  then have "Some c \<in> set (sv_channels view)" by (metis min_less_iff_conj nth_mem)
  then have "c \<in> set (known_channels view)" by (force simp: known_channels_def List.map_filter_def)
  with \<open>c \<notin> set (known_channels view)\<close> show "\<not> after_watermark wm (sv_records view ! i)" by simp
qed

lemma after_advance: "after_watermark (advance_watermark batch wm) r \<Longrightarrow> after_watermark wm r"
  unfolding after_watermark_def wm_point_advance using latest_ge by (rule le_less_trans)

text \<open>Once the pending records of a channel are behind the watermark, none is pending.\<close>

lemma pending_after_advance:
  assumes "mset batch = mset (pending_for view c wm)"
  shows "pending_for view c (advance_watermark batch wm) = []"
proof (rule ccontr)
  assume "pending_for view c (advance_watermark batch wm) \<noteq> []"
  then obtain r where r: "r \<in> set (pending_for view c (advance_watermark batch wm))" by (meson last_in_set)
  then have "after_watermark (advance_watermark batch wm) r" by (auto simp: pending_for_set)
  moreover from r have "r \<in> set (pending_for view c wm)"
    using after_advance by (auto simp: pending_for_set)
  then have "r \<in> set batch" using assms by (metis mset_eq_setD)
  ultimately show False using advance_watermark_covers by blast
qed

section \<open>One channel\<close>

lemma grouped_channels_ok: "bm_ok (grouped_channels view messages)"
proof -
  have "bm_ok (group_indices_from i ms m)" if "bm_ok m" for i ms m
    using that by (induction i ms m rule: group_indices_from.induct) (auto simp: Let_def)
  then have "bm_ok (group_indices_by_channel messages)" by (simp add: group_indices_by_channel_def)
  moreover have "bm_ok (fold (\<lambda>c m. case bm_get m c of None \<Rightarrow> bm_insert c [] m | Some _ \<Rightarrow> m) cs m)"
    if "bm_ok m" for cs and m :: "(channel_key, nat list) bmap"
    using that by (induction cs arbitrary: m) (auto split: option.splits)
  ultimately show ?thesis by (simp add: grouped_channels_def)
qed

lemma known_grouped: "set (known_channels view) \<subseteq> fst ` set (grouped_channels view messages)"
proof -
  have "set cs \<union> fst ` set m \<subseteq> fst ` set (fold (\<lambda>c m. case bm_get m c of None \<Rightarrow> bm_insert c [] m | Some _ \<Rightarrow> m) cs m)"
    for cs and m :: "(channel_key, nat list) bmap"
  proof (induction cs arbitrary: m)
    case (Cons c cs)
    let ?m1 = "case bm_get m c of None \<Rightarrow> bm_insert c [] m | Some _ \<Rightarrow> m"
    have "fst ` set ?m1 = insert c (fst ` set m)"
      by (cases "bm_get m c") (force dest: map_of_SomeD)+
    then have "set (c # cs) \<union> fst ` set m = set cs \<union> fst ` set ?m1" by simp
    then show ?case using Cons.IH [of ?m1] by (simp only: fold.simps comp_def)
  qed simp
  then show ?thesis unfolding grouped_channels_def by blast
qed

lemma bodies_of_perm_append: "bodies_of k (assigned (a @ b) c) = bodies_of k (assigned a c) @ bodies_of k (assigned b c)"
  by simp

text \<open>
  What a pass over some channels does: the assignment of their pending records, and the
  watermarks that move.
\<close>

definition pass_effect ::
  "'m archiver \<Rightarrow> agent_role \<Rightarrow> string option \<Rightarrow> store_view \<Rightarrow> channel_key list \<Rightarrow> 'm world \<Rightarrow> 'm world \<Rightarrow> assignment \<Rightarrow> bool" where
  "pass_effect av h e view channels w w' asg \<longleftrightarrow>
     tree_ok (rs_tree (w_state w')) \<and>
     (\<forall>h' c k. case_bodies w' h' c k = case_bodies w h' c k @ (if h' = h then bodies_of k (assigned asg c) else [])) \<and>
     (\<forall>re ch. re \<noteq> role_event_of h e \<or> ch \<notin> set channels \<longrightarrow>
        watermark_of re ch (w_state w') = watermark_of re ch (w_state w)) \<and>
     (\<forall>ch\<in>set channels. pending_for view ch (watermark_of (role_event_of h e) ch (w_state w')) = []) \<and>
     w_store w' = w_store w \<and> w_roles w' = w_roles w \<and>
     rs_loaded (w_state w') = rs_loaded (w_state w) \<and>
     rs_dirty_suffixes (w_state w') = rs_dirty_suffixes (w_state w) \<and>
     rs_dirty_channels (w_state w') = rs_dirty_channels (w_state w) \<and>
     grows (rs_tree (w_state w)) (rs_tree (w_state w')) \<and>
     (\<forall>c. tree_contains (rs_tree (w_state w)) c \<longrightarrow>
        counted (rs_tree (w_state w')) c = counted (rs_tree (w_state w)) c + length (assigned asg c)) \<and>
     (covering (av_model av) \<longrightarrow> mset (map fst asg) =
        sum_list (map (\<lambda>ch. mset (pending_for view ch (watermark_of (role_event_of h e) ch (w_state w)))) channels))"

lemma pass_watermark:
  "pass_effect av h e view channels w w' asg \<Longrightarrow> ch \<notin> set channels \<Longrightarrow>
     watermark_of re ch (w_state w') = watermark_of re ch (w_state w)"
  by (simp add: pass_effect_def)

lemma pass_watermarks:
  assumes "pass_effect av h e view [c] w w' asg" and "c \<notin> set cs"
  shows "\<forall>ch\<in>set cs. watermark_of re ch (w_state w') = watermark_of re ch (w_state w)"
proof
  fix ch assume "ch \<in> set cs"
  with assms(2) have "ch \<notin> set [c]" by auto
  with assms(1) show "watermark_of re ch (w_state w') = watermark_of re ch (w_state w)" by (rule pass_watermark)
qed

lemma pass_effect_Nil: "tree_ok (rs_tree (w_state w)) \<Longrightarrow> pass_effect av h e view [] w w []"
  by (simp add: pass_effect_def assigned_def grows_def)

lemma pass_effect_Cons:
  assumes one: "pass_effect av h e view [c] w w1 a" and rest: "pass_effect av h e view cs w1 w2 b" and "c \<notin> set cs"
  shows "pass_effect av h e view (c # cs) w w2 (a @ b)"
proof -
  let ?re = "role_event_of h e"
  have "watermark_of ?re c (w_state w2) = watermark_of ?re c (w_state w1)"
    using rest \<open>c \<notin> set cs\<close> by (simp add: pass_effect_def)
  moreover have "\<forall>ch\<in>set cs. watermark_of ?re ch (w_state w1) = watermark_of ?re ch (w_state w)"
    using one \<open>c \<notin> set cs\<close> by (rule pass_watermarks)
  then have "sum_list (map (\<lambda>ch. mset (pending_for view ch (watermark_of ?re ch (w_state w1)))) cs) =
      sum_list (map (\<lambda>ch. mset (pending_for view ch (watermark_of ?re ch (w_state w)))) cs)"
    by (intro arg_cong [of _ _ sum_list] map_cong refl) simp
  ultimately show ?thesis
    using one rest unfolding pass_effect_def by (simp add: grows_def)
qed

lemma process_channel_effect:
  assumes run: "process_channel av h e view messages (channel, indices) acc w = (Inr acc', w')"
    and size: "0 < av_max_batch av" and ok: "tree_ok (rs_tree (w_state w))"
    and entries: "\<forall>r\<in>set (sv_records view). entry_ok r"
  obtains asg where "pass_effect av h e view [channel] w w' asg"
proof -
  let ?wm = "watermark_of (role_event_of h e) channel (w_state w)"
  let ?pending = "pending_for view channel ?wm"
  show thesis
  proof (cases "?pending = [] \<and> indices = []")
    case True
    with run have "w' = w" by (simp add: process_channel_def Let_def bind_act_def get_state_def read_st_def ret_def)
    with True ok have "pass_effect av h e view [channel] w w' []"
      by (simp add: pass_effect_def assigned_def grows_def)
    then show thesis by (rule that)
  next
    case False
    with run obtain x where "archive_located av h e channel ?pending messages indices w = (Inr x, w')"
      by (auto simp: process_channel_def Let_def bind_Inr_conv)
    then obtain result where arch: "archive av h e channel ?pending (map (\<lambda>i. messages ! i) indices) w = (Inr result, w')"
      by (auto simp: archive_located_def bind_Inr_conv)
    have "\<forall>r\<in>set ?pending. entry_ok r" using entries pending_entries by blast
    from archive_effect [OF arch size ok this] obtain asg batch where
      "tree_ok (rs_tree (w_state w'))" and batch: "mset batch = mset ?pending"
      and eff: "run_effect av h e channel (chunks_of (av_max_batch av) (merge_batch ?pending (map (\<lambda>i. messages ! i) indices))) w w' asg"
      and "concat (map batch_records (chunks_of (av_max_batch av) (merge_batch ?pending (map (\<lambda>i. messages ! i) indices)))) = batch"
      by metis
    then have "pass_effect av h e view [channel] w w' asg"
      using pending_after_advance [OF batch] by (simp add: run_effect_def pass_effect_def)
    then show thesis by (rule that)
  qed
qed

lemma process_channels_effect:
  assumes size: "0 < av_max_batch av" and entries: "\<forall>r\<in>set (sv_records view). entry_ok r"
  shows "fold_act (process_channel av h e view messages) grouped acc w = (Inr acc', w') \<Longrightarrow>
    tree_ok (rs_tree (w_state w)) \<Longrightarrow> distinct (map fst grouped) \<Longrightarrow>
    \<exists>asg. pass_effect av h e view (map fst grouped) w w' asg"
proof (induction grouped arbitrary: acc w)
  case Nil
  then show ?case using pass_effect_Nil by fastforce
next
  case (Cons g grouped)
  obtain channel indices where g: "g = (channel, indices)" by fastforce
  from Cons.prems(1) obtain acc1 w1 where 1: "process_channel av h e view messages g acc w = (Inr acc1, w1)"
    and 2: "fold_act (process_channel av h e view messages) grouped acc1 w1 = (Inr acc', w')" by (rule fold_act_ConsE)
  from process_channel_effect [OF 1 [unfolded g] size Cons.prems(2) entries] obtain a
    where a: "pass_effect av h e view [channel] w w1 a" .
  then have "tree_ok (rs_tree (w_state w1))" by (simp add: pass_effect_def)
  from Cons.IH [OF 2 this] Cons.prems(3) obtain b where "pass_effect av h e view (map fst grouped) w1 w' b" by auto
  from pass_effect_Cons [OF a this] Cons.prems(3) g show ?case by (intro exI [of _ "a @ b"]) simp
qed

section \<open>The whole pass\<close>

text \<open>Loading the state files of a suffix, once.\<close>

lemma take_unloaded_act:
  "bind_act get_state (\<lambda>st. bind_act (put_state (snd (take_unloaded re st))) (\<lambda>_.
       if \<not> fst (take_unloaded re st) then ret () else rest)) =
   bind_act (read_st (\<lambda>w. re \<in> rs_loaded (w_state w))) (\<lambda>seen.
       if seen then ret ()
       else bind_act (modify_state (\<lambda>st. st\<lparr>rs_loaded := insert re (rs_loaded st)\<rparr>)) (\<lambda>_. rest))"
  by (rule ext) (simp add: bind_act_def get_state_def read_st_def put_state_def modify_state_def modify_st_def
      take_unloaded_def insert_absorb ret_def)

lemmas ensure_role_event_eq = ensure_role_event_def [unfolded take_unloaded_act]

lemma keeps_case_json [keeps_intros]:
  "(\<And>v. keeps f (m v)) \<Longrightarrow> keeps f n \<Longrightarrow> keeps f (case x of Json_File v \<Rightarrow> m v | Damaged \<Rightarrow> n)"
  by (cases x) simp_all

lemma keeps_read_json: "(\<And>w fs. f (w\<lparr>w_faults := fs\<rparr>) = f w) \<Longrightarrow> keeps f (read_json g)"
  unfolding read_json_def by (intro keeps_intros keeps_io_step)

lemma ensure_keeps: "keeps (\<lambda>w. (w_store w, w_roles w, w_cases w, rs_tree (w_state w), rs_dirty_suffixes (w_state w), rs_dirty_channels (w_state w)))
    (ensure_role_event h re)"
  unfolding ensure_role_event_eq modify_state_def
  by (intro keeps_intros keeps_modify_st keeps_read_json) simp_all

lemma read_view_keeps: "keeps (\<lambda>w. (w_store w, w_roles w, w_cases w, w_state w)) (read_view h e)"
  unfolding read_view_def read_store_records_def read_store_files_def list_store_files_def Let_def
  by (intro keeps_intros keeps_io_step) simp_all

lemma not_dirty_cleared:
  assumes "dirty_channels_of re st \<subseteq> processed"
  shows "\<not> is_dirty re (clear_dirty re processed st)"
  using assms by (force simp: is_dirty_def clear_dirty_def dirty_channels_of_def)

lemma bind_get_state: "bind_act get_state f w = f (w_state w) w"
  by (simp add: bind_act_def get_state_def read_st_def)

lemma process_pending_run:
  assumes run: "process_pending av h e force messages w = (Inr (outcomes, located), w')"
    and work: "force \<or> is_dirty (role_event_of h e) (w_state w) \<or> messages \<noteq> []"
  obtains w1 view w2 w3 where "ensure_role_event h (role_event_of h e) w = (Inr (), w1)"
    and "read_view h e w1 = (Inr view, w2)"
    and "fold_act (process_channel av h e view messages) (grouped_channels view messages) ([], []) w2 =
      (Inr (outcomes, located), w3)"
    and "w' = w3\<lparr>w_state := clear_dirty (role_event_of h e)
      (dirty_channels_of (role_event_of h e) (w_state w2) \<union> fst ` set (grouped_channels view messages)) (w_state w3)\<rparr>"
proof -
  let ?re = "role_event_of h e"
  have "\<not> (\<not> force \<and> \<not> is_dirty ?re (w_state w) \<and> messages = [])" using work by blast
  with run have "bind_act (ensure_role_event h ?re) (\<lambda>_.
      bind_act (read_view h e) (\<lambda>view.
      bind_act get_state (\<lambda>st1.
        bind_act (fold_act (process_channel av h e view messages) (grouped_channels view messages) ([], [])) (\<lambda>result.
        bind_act (modify_state (clear_dirty ?re
          (dirty_channels_of ?re st1 \<union> fst ` set (grouped_channels view messages)))) (\<lambda>_. ret result))))) w =
    (Inr (outcomes, located), w')"
    unfolding process_pending_def Let_def bind_get_state by (simp only: if_False)
  then obtain u w1 where 1: "ensure_role_event h ?re w = (Inr u, w1)" and
    "bind_act (read_view h e) (\<lambda>view.
      bind_act get_state (\<lambda>st1.
        bind_act (fold_act (process_channel av h e view messages) (grouped_channels view messages) ([], [])) (\<lambda>result.
        bind_act (modify_state (clear_dirty ?re
          (dirty_channels_of ?re st1 \<union> fst ` set (grouped_channels view messages)))) (\<lambda>_. ret result)))) w1 =
    (Inr (outcomes, located), w')"
    unfolding bind_Inr_conv [of "ensure_role_event h ?re"] by blast
  then obtain view w2 where 2: "read_view h e w1 = (Inr view, w2)" and
    "bind_act get_state (\<lambda>st1.
        bind_act (fold_act (process_channel av h e view messages) (grouped_channels view messages) ([], [])) (\<lambda>result.
        bind_act (modify_state (clear_dirty ?re
          (dirty_channels_of ?re st1 \<union> fst ` set (grouped_channels view messages)))) (\<lambda>_. ret result))) w2 =
    (Inr (outcomes, located), w')"
    unfolding bind_Inr_conv [of "read_view h e"] by blast
  then have "bind_act (fold_act (process_channel av h e view messages) (grouped_channels view messages) ([], [])) (\<lambda>result.
        bind_act (modify_state (clear_dirty ?re
          (dirty_channels_of ?re (w_state w2) \<union> fst ` set (grouped_channels view messages)))) (\<lambda>_. ret result)) w2 =
    (Inr (outcomes, located), w')"
    unfolding bind_get_state by simp
  then obtain w3 where "fold_act (process_channel av h e view messages) (grouped_channels view messages) ([], []) w2 =
      (Inr (outcomes, located), w3)"
    and "w' = w3\<lparr>w_state := clear_dirty ?re
      (dirty_channels_of ?re (w_state w2) \<union> fst ` set (grouped_channels view messages)) (w_state w3)\<rparr>"
    unfolding bind_Inr_conv [of "fold_act _ _ _"] by (auto simp: bind_Inr_conv modify_state_def)
  with 1 2 show thesis using that by simp
qed

lemma watermark_clear_dirty [simp]: "watermark_of re c (clear_dirty re' p st) = watermark_of re c st"
  by (simp add: watermark_of_def clear_dirty_def)

lemma process_pending_effect:
  assumes run: "process_pending av h e force messages w = (Inr (outcomes, located), w')"
    and work: "force \<or> is_dirty (role_event_of h e) (w_state w) \<or> messages \<noteq> []"
    and size: "0 < av_max_batch av" and ok: "tree_ok (rs_tree (w_state w))"
  obtains w1 view w2 w3 asg where "ensure_role_event h (role_event_of h e) w = (Inr (), w1)"
    and "read_view h e w1 = (Inr view, w2)"
    and "pass_effect av h e view (map fst (grouped_channels view messages)) w2 w3 asg"
    and "w' = w3\<lparr>w_state := clear_dirty (role_event_of h e)
      (dirty_channels_of (role_event_of h e) (w_state w2) \<union> fst ` set (grouped_channels view messages)) (w_state w3)\<rparr>"
    and "\<And>c. pending_for view c (watermark_of (role_event_of h e) c (w_state w')) = []"
    and "\<not> is_dirty (role_event_of h e) (w_state w')"
    and "w_store w1 = w_store w" and "w_store w' = w_store w" and "w_roles w' = w_roles w"
proof -
  let ?re = "role_event_of h e"
  from run work obtain w1 view w2 w3 where 1: "ensure_role_event h ?re w = (Inr (), w1)"
    and 2: "read_view h e w1 = (Inr view, w2)"
    and 3: "fold_act (process_channel av h e view messages) (grouped_channels view messages) ([], []) w2 =
      (Inr (outcomes, located), w3)"
    and w': "w' = w3\<lparr>w_state := clear_dirty ?re
      (dirty_channels_of ?re (w_state w2) \<union> fst ` set (grouped_channels view messages)) (w_state w3)\<rparr>"
    by (rule process_pending_run)
  note frame1 = keepsD [OF ensure_keeps 1] and frame2 = keepsD [OF read_view_keeps 2]
  have ok2: "tree_ok (rs_tree (w_state w2))" using frame1 frame2 ok by simp
  from process_channels_effect [OF size _ 3 ok2] read_view_entries [OF 2] distinct_bm [OF grouped_channels_ok]
  obtain asg where eff: "pass_effect av h e view (map fst (grouped_channels view messages)) w2 w3 asg" by blast
  have none: "pending_for view c (watermark_of ?re c (w_state w')) = []" for c
  proof (cases "c \<in> fst ` set (grouped_channels view messages)")
    case True
    with eff show ?thesis by (auto simp: pass_effect_def w')
  next
    case False
    then have "c \<notin> set (known_channels view)" using known_grouped by blast
    then show ?thesis by (rule unknown_channel)
  qed
  have "rs_dirty_channels (w_state w3) = rs_dirty_channels (w_state w2)" using eff by (auto simp: pass_effect_def)
  then have "dirty_channels_of ?re (w_state w3) = dirty_channels_of ?re (w_state w2)" by (simp add: dirty_channels_of_def)
  then have clean: "\<not> is_dirty ?re (w_state w')" by (simp add: w' not_dirty_cleared)
  from eff have "w_store w3 = w_store w2" "w_roles w3 = w_roles w2" by (auto simp: pass_effect_def)
  with frame1 frame2 have "w_store w' = w_store w" "w_roles w' = w_roles w" "w_store w1 = w_store w"
    by (simp_all add: w')
  with 1 2 eff w' none clean show thesis using that by blast
qed

section \<open>Reading twice\<close>

text \<open>An operation whose value depends only on a part of the state that it leaves alone.\<close>

definition determined :: "('s \<Rightarrow> 'f) \<Rightarrow> ('s, 'e, 'a) action \<Rightarrow> bool" where
  "determined f m \<longleftrightarrow> keeps f m \<and>
     (\<forall>s1 s2 x1 x2 s1' s2'. f s1 = f s2 \<longrightarrow> m s1 = (Inr x1, s1') \<longrightarrow> m s2 = (Inr x2, s2') \<longrightarrow> x1 = x2)"

lemma determinedD: "determined f m \<Longrightarrow> m s1 = (Inr x1, s1') \<Longrightarrow> m s2 = (Inr x2, s2') \<Longrightarrow> f s1 = f s2 \<Longrightarrow> x1 = x2"
  unfolding determined_def by blast

lemma determined_ret: "determined f (ret x)"
  by (simp add: determined_def keeps_ret)

lemma determined_of_result: "determined f (of_result r)"
  by (auto simp: determined_def keeps_of_result)

lemma determined_read:
  assumes "\<And>s1 s2. f s1 = f s2 \<Longrightarrow> g s1 = g s2"
  shows "determined f (read_st g)"
  unfolding determined_def
proof (intro conjI allI impI keeps_read_st)
  fix s1 s2 x1 x2 s1' s2' assume "f s1 = f s2" "read_st g s1 = (Inr x1, s1')" "read_st g s2 = (Inr x2, s2')"
  with assms [of s1 s2] show "x1 = x2" by (simp only: read_st_conv sum.inject)
qed

lemma determined_io:
  assumes "\<And>w fs. f (w\<lparr>w_faults := fs\<rparr>) = f w"
  shows "determined f io_step"
proof -
  have same: "x1 = x2" for x1 x2 :: unit by simp
  have "keeps f io_step" using assms by (rule keeps_io_step)
  then show ?thesis unfolding determined_def by (intro conjI allI impI same)
qed

lemma determined_bind:
  assumes m: "determined f m" and g: "\<And>x. determined f (g x)"
  shows "determined f (bind_act m g)"
proof -
  have "x1 = x2" if same: "f s1 = f s2" and 1: "bind_act m g s1 = (Inr x1, s1')" and 2: "bind_act m g s2 = (Inr x2, s2')"
    for s1 s2 x1 x2 s1' s2'
  proof -
    from 1 obtain y1 t1 where y1: "m s1 = (Inr y1, t1)" and g1: "g y1 t1 = (Inr x1, s1')" by (auto simp: bind_Inr_conv)
    from 2 obtain y2 t2 where y2: "m s2 = (Inr y2, t2)" and g2: "g y2 t2 = (Inr x2, s2')" by (auto simp: bind_Inr_conv)
    from determinedD [OF m y1 y2 same] have "y1 = y2" .
    have "f t1 = f t2" using m same keepsD [of f m s1 "Inr y1" t1] keepsD [of f m s2 "Inr y2" t2] y1 y2
      by (simp add: determined_def)
    with determinedD [OF g g1] g2 \<open>y1 = y2\<close> show ?thesis by blast
  qed
  moreover have "keeps f (bind_act m g)" using m g by (auto simp: determined_def intro: keeps_bind)
  ultimately show ?thesis unfolding determined_def by blast
qed

lemma determined_fold: "(\<And>x c. determined f (m x c)) \<Longrightarrow> determined f (fold_act m xs c)"
  by (induction xs arbitrary: c) (auto intro: determined_ret determined_bind)

lemma determined_option: "determined f m \<Longrightarrow> (\<And>x. determined f (n x)) \<Longrightarrow> determined f (case o' of None \<Rightarrow> m | Some x \<Rightarrow> n x)"
  by (cases o') simp_all

lemma determined_prod: "(\<And>x y. determined f (m x y c)) \<Longrightarrow> determined f ((case p of (x, y) \<Rightarrow> m x y) c)"
  by (cases p) simp

lemma read_view_determined: "determined w_store (read_view h e)"
  unfolding read_view_def read_store_records_def read_store_files_def list_store_files_def Let_def
  by (intro determined_bind determined_fold determined_ret determined_option determined_prod determined_of_result
      determined_read determined_io) simp_all

end
