(* ===== verification/Locate_Run.thy ===== *)
theory Locate_Run
  imports Service_Run
begin

text \<open>
  What the callers get back: how many records were archived, and for every message of a locate
  request the case it belongs to.
\<close>

section \<open>Counting the archived records\<close>

lemma archive_chunk_count:
  assumes "archive_chunk av h e channel items w = (Inr (oc, gs), w')"
  shows "ao_archived oc = length (batch_records items)"
proof (cases "items = []")
  case True
  with assms show ?thesis by (auto simp: archive_chunk_def map_filter_simps)
next
  case False
  with assms have "archive_chunk_inner av h e channel items w = (Inr (oc, gs), w')" by (simp add: archive_chunk_Inr)
  then show ?thesis by (rule archive_chunk_inner_Inr) simp
qed

lemma archive_steps_count:
  "fold_act (archive_step av h e channel) chunks acc w = (Inr acc', w') \<Longrightarrow>
     sum_list (map ao_archived (fst acc')) = sum_list (map ao_archived (fst acc)) + length (batch_records (concat chunks))"
proof (induction chunks arbitrary: acc w)
  case Nil
  then show ?case by (simp add: map_filter_simps)
next
  case (Cons chunk chunks)
  from Cons.prems obtain acc1 w1 where 1: "archive_step av h e channel chunk acc w = (Inr acc1, w1)"
    and 2: "fold_act (archive_step av h e channel) chunks acc1 w1 = (Inr acc', w')" by (rule fold_act_ConsE)
  from 1 obtain oc gs w2 where "archive_chunk av h e channel chunk w = (Inr (oc, gs), w2)" and "acc1 = (fst acc @ [oc], snd acc @ gs)"
    by (rule archive_step_Inr)
  with Cons.IH [OF 2] archive_chunk_count show ?case by (fastforce simp: batch_records_concat map_filter_append)
qed

lemma archive_count:
  assumes "archive av h e channel records messages w = (Inr result, w')" and "0 < av_max_batch av"
  shows "sum_list (map ao_archived (ar_outcomes result)) = length records"
proof (cases "records = [] \<and> messages = []")
  case True
  with assms(1) show ?thesis by (auto simp: archive_def)
next
  case False
  let ?items = "merge_batch records messages"
  from assms(1) False obtain acc where "fold_act (archive_step av h e channel) (chunks_of (av_max_batch av) ?items) ([], []) w = (Inr acc, w')"
    and "ar_outcomes result = fst acc" by (auto simp: archive_def Let_def run_simps)
  with archive_steps_count have "sum_list (map ao_archived (ar_outcomes result)) = length (batch_records ?items)"
    by (fastforce simp: concat_chunks_of [OF assms(2)])
  also have "\<dots> = length records" by (metis merge_batch_records size_mset)
  finally show ?thesis .
qed

lemma process_channel_count:
  assumes run: "process_channel av h e view messages (channel, indices) acc w = (Inr acc', w')"
    and size: "0 < av_max_batch av"
  shows "sum_list (map ao_archived (fst acc')) = sum_list (map ao_archived (fst acc)) +
    length (pending_for view channel (watermark_of (role_event_of h e) channel (w_state w)))"
proof -
  let ?pending = "pending_for view channel (watermark_of (role_event_of h e) channel (w_state w))"
  show ?thesis
  proof (cases "?pending = [] \<and> indices = []")
    case True
    with run show ?thesis by (simp add: process_channel_def Let_def bind_get_state)
  next
    case False
    with run obtain outcomes located where arch: "archive_located av h e channel ?pending messages indices w = (Inr (outcomes, located), w')"
      and acc': "acc' = (fst acc @ outcomes, snd acc @ located)"
      by (auto simp: process_channel_def Let_def bind_get_state bind_Inr_conv)
    from arch obtain result where "archive av h e channel ?pending (map (\<lambda>i. messages ! i) indices) w = (Inr result, w')"
      and "outcomes = ar_outcomes result" by (auto simp: archive_located_def bind_Inr_conv)
    with archive_count [OF _ size] acc' show ?thesis by simp
  qed
qed

lemma process_channels_count:
  assumes size: "0 < av_max_batch av" and entries: "\<forall>r\<in>set (sv_records view). entry_ok r"
  shows "fold_act (process_channel av h e view messages) grouped acc w = (Inr acc', w') \<Longrightarrow>
    tree_ok (rs_tree (w_state w)) \<Longrightarrow> distinct (map fst grouped) \<Longrightarrow>
    sum_list (map ao_archived (fst acc')) = sum_list (map ao_archived (fst acc)) +
      sum_list (map (\<lambda>c. length (pending_for view c (watermark_of (role_event_of h e) c (w_state w)))) (map fst grouped))"
proof (induction grouped arbitrary: acc w)
  case (Cons g grouped)
  obtain channel indices where g: "g = (channel, indices)" by fastforce
  from Cons.prems(1) obtain acc1 w1 where 1: "process_channel av h e view messages g acc w = (Inr acc1, w1)"
    and 2: "fold_act (process_channel av h e view messages) grouped acc1 w1 = (Inr acc', w')" by (rule fold_act_ConsE)
  from process_channel_effect [OF 1 [unfolded g] size Cons.prems(2) entries] obtain a
    where a: "pass_effect av h e view [channel] w w1 a" .
  then have ok: "tree_ok (rs_tree (w_state w1))" by (simp add: pass_effect_def)
  have "\<forall>c\<in>set (map fst grouped). watermark_of (role_event_of h e) c (w_state w1) = watermark_of (role_event_of h e) c (w_state w)"
    using Cons.prems(3) g by (intro pass_watermarks [OF a]) simp
  then have "map (\<lambda>c. length (pending_for view c (watermark_of (role_event_of h e) c (w_state w1)))) (map fst grouped) =
      map (\<lambda>c. length (pending_for view c (watermark_of (role_event_of h e) c (w_state w)))) (map fst grouped)"
    by (intro map_cong refl) (simp only: )
  with Cons.IH [OF 2 ok] Cons.prems(3) process_channel_count [OF 1 [unfolded g] size] g show ?case
    by (simp del: map_map add: comp_def)
qed simp

section \<open>Every message gets a case\<close>

lemma chunk_run_messages:
  assumes "chunk_done av h e channel items w w' oc gs pn" and "covering (av_model av)"
  shows "mset (concat (map pg_messages gs)) = mset (batch_messages items)"
proof -
  have cover: "concat (cp_groups pn) = [0..<length items]"
    using assms covering_plan by (auto simp: chunk_done_def)
  have groups: "map pg_messages gs = map (group_messages items) (cp_groups pn)"
    using assms(1) by (simp add: chunk_done_def)
  have "mset (concat (map (group_messages items) gss)) = mset (concat (map (\<lambda>i. item_messages (items ! i)) (concat gss)))" for gss
    by (induction gss) (simp_all add: group_messages_def)
  then have "mset (concat (map pg_messages gs)) = mset (concat (map (\<lambda>i. item_messages (items ! i)) [0..<length items]))"
    unfolding groups cover [symmetric] .
  also have "map (\<lambda>i. item_messages (items ! i)) [0..<length items] = map item_messages items"
    by (rule nth_equalityI) simp_all
  finally show ?thesis .
qed

lemma archive_steps_messages:
  "fold_act (archive_step av h e channel) chunks acc w = (Inr acc', w') \<Longrightarrow> \<forall>c\<in>set chunks. c \<noteq> [] \<Longrightarrow>
   tree_ok (rs_tree (w_state w)) \<Longrightarrow> \<forall>r\<in>set (batch_records (concat chunks)). entry_ok r \<Longrightarrow> covering (av_model av) \<Longrightarrow>
   mset (concat (map pg_messages (snd acc'))) =
     mset (concat (map pg_messages (snd acc))) + mset (batch_messages (concat chunks))"
proof (induction chunks arbitrary: acc w)
  case (Cons chunk chunks)
  from Cons.prems(1) obtain acc1 w1 where 1: "archive_step av h e channel chunk acc w = (Inr acc1, w1)"
    and 2: "fold_act (archive_step av h e channel) chunks acc1 w1 = (Inr acc', w')" by (rule fold_act_ConsE)
  have ne: "chunk \<noteq> []" and entries: "\<forall>r\<in>set (batch_records chunk). entry_ok r"
    and entries': "\<forall>r\<in>set (batch_records (concat chunks)). entry_ok r"
    using Cons.prems(2,4) by (auto simp: map_filter_append)
  from 1 obtain oc gs w2 where chunk: "archive_chunk av h e channel chunk w = (Inr (oc, gs), w2)"
    and acc1: "acc1 = (fst acc @ [oc], snd acc @ gs)"
    by (rule archive_step_Inr)
  from chunk_run [OF ne chunk Cons.prems(3) entries] obtain pn where "chunk_done av h e channel chunk w w2 oc gs pn" by blast
  note msgs = chunk_run_messages [OF this Cons.prems(5)]
  from archive_step_effect [OF 1 ne Cons.prems(3) entries] have "tree_ok (rs_tree (w_state w1))" by blast
  from Cons.IH [OF 2 _ this entries' Cons.prems(5)] Cons.prems(2) msgs show ?case by (simp add: acc1)
qed simp

lemma archive_messages:
  assumes run: "archive av h e channel records messages w = (Inr result, w')" and size: "0 < av_max_batch av"
    and ok: "tree_ok (rs_tree (w_state w))" and entries: "\<forall>r\<in>set records. entry_ok r" and cov: "covering (av_model av)"
  shows "mset (concat (map pg_messages (ar_groups result))) = mset [0..<length messages]"
proof (cases "records = [] \<and> messages = []")
  case True
  with run show ?thesis by (auto simp: archive_def)
next
  case False
  let ?items = "merge_batch records messages"
  from run False obtain acc where steps: "fold_act (archive_step av h e channel) (chunks_of (av_max_batch av) ?items) ([], []) w = (Inr acc, w')"
    and "ar_groups result = snd acc" by (auto simp: archive_def Let_def run_simps)
  have "\<forall>r\<in>set (batch_records (concat (chunks_of (av_max_batch av) ?items))). entry_ok r"
    unfolding concat_chunks_of [OF size] using entries merge_batch_records by (metis mset_eq_setD)
  from archive_steps_messages [OF steps _ ok this cov] chunk_sizes \<open>ar_groups result = snd acc\<close>
  have "mset (concat (map pg_messages (ar_groups result))) = mset (batch_messages ?items)"
    by (simp add: concat_chunks_of [OF size]) blast
  then show ?thesis by (simp only: merge_batch_messages)
qed


section \<open>From the batches back to the request\<close>

lemma insert_index_values:
  "bm_ok m \<Longrightarrow> mset (concat (map snd (bm_insert k ((case bm_get m k of Some is \<Rightarrow> is | None \<Rightarrow> []) @ [i]) m))) =
     add_mset i (mset (concat (map snd m)))"
proof (induction m)
  case (Cons kv m)
  obtain k' v' where kv: "kv = (k', v')" by fastforce
  show ?case
  proof (cases "k < k'")
    case True
    then have "k \<notin> fst ` set m" using Cons.prems kv by (force simp del: map_map)
    then have "bm_get (kv # m) k = None" using True by (auto simp: kv map_of_eq_None_iff)
    with True show ?thesis by (simp add: kv)
  next
    case False
    with Cons kv show ?thesis by (cases "k = k'") simp_all
  qed
qed simp

lemma group_indices_values:
  "bm_ok m \<Longrightarrow> mset (concat (map snd (group_indices_from i ms m))) = mset (concat (map snd m)) + mset [i..<i + length ms]"
proof (induction i ms m rule: group_indices_from.induct)
  case (2 i msg msgs m)
  let ?c = "message_channel msg"
  let ?m = "bm_insert ?c ((case bm_get m ?c of Some is \<Rightarrow> is | None \<Rightarrow> []) @ [i]) m"
  have "mset (concat (map snd (group_indices_from (Suc i) msgs ?m))) = mset (concat (map snd ?m)) + mset [Suc i..<Suc i + length msgs]"
    using "2.IH" [OF refl bm_ok_insert [OF "2.prems"]] by (simp only:)
  also have "mset (concat (map snd ?m)) = add_mset i (mset (concat (map snd m)))" by (rule insert_index_values [OF "2.prems"])
  finally show ?case by (simp add: Let_def upt_rec [of i] del: upt_Suc)
qed simp

lemma insert_empty_values: "bm_get m k = None \<Longrightarrow> concat (map snd (bm_insert k [] m)) = concat (map snd m)"
  by (induction m) (auto split: if_splits)

lemma grouped_channels_values: "mset (concat (map snd (grouped_channels view messages))) = mset [0..<length messages]"
proof -
  have "concat (map snd (fold (\<lambda>c m. case bm_get m c of None \<Rightarrow> bm_insert c [] m | Some _ \<Rightarrow> m) cs m)) = concat (map snd m)"
    for cs and m :: "(channel_key, nat list) bmap"
    by (induction cs arbitrary: m) (auto simp: insert_empty_values split: option.splits)
  then show ?thesis
    using group_indices_values [of "[]" 0 messages] by (simp add: grouped_channels_def group_indices_by_channel_def)
qed

abbreviation located_messages :: "located list \<Rightarrow> nat list" where
  "located_messages ls \<equiv> concat (map (\<lambda>(first, c, g). lg_messages g) ls)"

lemma place_groups_messages: "located_messages (place_groups channel indices gs) = map (\<lambda>i. indices ! i) (concat (map pg_messages gs))"
proof (induction gs)
  case (Cons g gs)
  then show ?case by (cases "pg_messages g") (auto simp: place_groups_def map_filter_simps)
qed (simp add: place_groups_def map_filter_simps)

lemma mset_map_nth: "mset xs = mset [0..<length ys] \<Longrightarrow> mset (map (\<lambda>i. ys ! i) xs) = mset ys"
  by (metis map_nth mset_map)

lemma process_channel_messages:
  assumes run: "process_channel av h e view messages (channel, indices) acc w = (Inr acc', w')"
    and size: "0 < av_max_batch av" and ok: "tree_ok (rs_tree (w_state w))"
    and entries: "\<forall>r\<in>set (sv_records view). entry_ok r" and cov: "covering (av_model av)"
  shows "mset (located_messages (snd acc')) = mset (located_messages (snd acc)) + mset indices"
proof -
  let ?pending = "pending_for view channel (watermark_of (role_event_of h e) channel (w_state w))"
  show ?thesis
  proof (cases "?pending = [] \<and> indices = []")
    case True
    with run show ?thesis by (simp add: process_channel_def Let_def bind_get_state)
  next
    case False
    with run obtain outcomes located where arch: "archive_located av h e channel ?pending messages indices w = (Inr (outcomes, located), w')"
      and acc': "acc' = (fst acc @ outcomes, snd acc @ located)"
      by (auto simp: process_channel_def Let_def bind_get_state bind_Inr_conv)
    from arch obtain result where arch: "archive av h e channel ?pending (map (\<lambda>i. messages ! i) indices) w = (Inr result, w')"
      and located: "located = place_groups channel indices (ar_groups result)"
      by (auto simp: archive_located_def bind_Inr_conv)
    have "\<forall>r\<in>set ?pending. entry_ok r" using entries pending_entries by blast
    from archive_messages [OF arch size ok this cov]
    have "mset (concat (map pg_messages (ar_groups result))) = mset [0..<length indices]" by simp
    from mset_map_nth [OF this] show ?thesis by (simp add: acc' located place_groups_messages)
  qed
qed

lemma process_channels_messages:
  assumes size: "0 < av_max_batch av" and entries: "\<forall>r\<in>set (sv_records view). entry_ok r" and cov: "covering (av_model av)"
  shows "fold_act (process_channel av h e view messages) grouped acc w = (Inr acc', w') \<Longrightarrow> tree_ok (rs_tree (w_state w)) \<Longrightarrow>
    mset (located_messages (snd acc')) = mset (located_messages (snd acc)) + mset (concat (map snd grouped))"
proof (induction grouped arbitrary: acc w)
  case (Cons g grouped)
  obtain channel indices where g: "g = (channel, indices)" by fastforce
  from Cons.prems(1) obtain acc1 w1 where 1: "process_channel av h e view messages g acc w = (Inr acc1, w1)"
    and 2: "fold_act (process_channel av h e view messages) grouped acc1 w1 = (Inr acc', w')" by (rule fold_act_ConsE)
  note 1 = 1 [unfolded g]
  from process_channel_effect [OF 1 size Cons.prems(2) entries] obtain a
    where "pass_effect av h e view [channel] w w1 a" .
  then have "tree_ok (rs_tree (w_state w1))" by (simp add: pass_effect_def)
  from Cons.IH [OF 2 this] process_channel_messages [OF 1 size Cons.prems(2) entries cov] g show ?case by simp
qed simp

text \<open>Putting the answer together only sorts the groups and marks the current ones.\<close>

definition response_group :: "(channel_key, string) bmap \<Rightarrow> located \<Rightarrow> located_group" where
  "response_group current l = (case l of (first, channel, g) \<Rightarrow>
     g\<lparr>lg_is_current := located_current current channel (lg_case_name g)\<rparr>)"

lemma merge_located_groups: "lr_groups (merge_located ls current) = map (response_group current) (sort_key fst ls)"
proof -
  have "lr_groups (fold (merge_step current) ls resp) = lr_groups resp @ map (response_group current) ls" for ls resp
    by (induction ls arbitrary: resp) (auto simp: merge_step_def response_group_def Let_def)
  then show ?thesis by (simp add: merge_located_def)
qed

lemma merge_located_messages:
  "mset (concat (map lg_messages (lr_groups (merge_located ls current)))) = mset (located_messages ls)"
proof -
  have "lg_messages \<circ> response_group current = (\<lambda>(first, c, g). lg_messages g)"
    by (simp add: response_group_def split_def fun_eq_iff)
  then have "concat (map lg_messages (lr_groups (merge_located ls current))) = located_messages (sort_key fst ls)"
    by (simp add: merge_located_groups)
  then show ?thesis by (simp only:) (rule mset_concat_map, simp)
qed

lemma place_groups_first: "l \<in> set (place_groups channel indices gs) \<Longrightarrow> fst l = hd (lg_messages (snd (snd l)))"
  by (auto simp: place_groups_def List.map_filter_def split: list.splits)

lemma process_channels_first:
  "fold_act (process_channel av h e view messages) grouped acc w = (Inr acc', w') \<Longrightarrow>
     \<forall>l\<in>set (snd acc). fst l = hd (lg_messages (snd (snd l))) \<Longrightarrow> \<forall>l\<in>set (snd acc'). fst l = hd (lg_messages (snd (snd l)))"
proof (induction grouped arbitrary: acc w)
  case (Cons g grouped)
  from Cons.prems(1) obtain acc1 w1 where 1: "process_channel av h e view messages g acc w = (Inr acc1, w1)"
    and 2: "fold_act (process_channel av h e view messages) grouped acc1 w1 = (Inr acc', w')" by (rule fold_act_ConsE)
  from 1 have "acc1 = acc \<or> (\<exists>outcomes gs. acc1 = (outcomes, snd acc @ place_groups (fst g) (snd g) gs))"
    by (auto simp: process_channel_def bind_get_state Let_def archive_located_def bind_Inr_conv split: if_splits)
  with Cons.prems(2) have "\<forall>l\<in>set (snd acc1). fst l = hd (lg_messages (snd (snd l)))"
    using place_groups_first by (fastforce simp: ball_Un)
  with Cons.IH [OF 2] show ?case .
qed simp

end
