(* ===== verification/Service_Spec.thy ===== *)
theory Service_Spec
  imports Locate_Run Samples
begin

text \<open>
  What the requests of the summary memory promise: a notification only leaves a mark, a trigger
  archives every pending record exactly once and leaves nothing to do, a failed one loses no
  mark, queries only read, an answer to a locate request covers every message, and saving and
  loading a role are inverse to each other.
\<close>

section \<open>Opening and locking a role\<close>

text \<open>What opening a role and working under its lock do to the rest of the world.\<close>

lemma keeps_list_suffixes: "(\<And>w fs. f (w\<lparr>w_faults := fs\<rparr>) = f w) \<Longrightarrow> keeps f (list_store_suffixes a r)"
  unfolding list_store_suffixes_def by (intro keeps_intros keeps_io_step)

lemma keeps_open_role:
  assumes "\<And>w fs. f (w\<lparr>w_faults := fs\<rparr>) = f w" and "\<And>w rs. f (w\<lparr>w_roles := rs\<rparr>) = f w"
  shows "keeps f (open_role h)"
  unfolding open_role_def load_role_def
  by (intro keeps_intros keeps_modify_st keeps_read_json keeps_list_suffixes assms)

lemma open_role_opens: "open_role h w = (Inr (), w') \<Longrightarrow> \<exists>st. hm_get (w_roles w') h = Some st"
  by (auto simp: open_role_def run_simps split: option.splits)

lemma open_role_open: "hm_get (w_roles w) h = Some st \<Longrightarrow> open_role h w = (Inr (), w)"
  by (simp add: open_role_def bind_act_def read_st_def ret_def)

lemma keeps_load_role: "(\<And>w fs. f (w\<lparr>w_faults := fs\<rparr>) = f w) \<Longrightarrow> keeps f (load_role h)"
  unfolding load_role_def by (intro keeps_intros keeps_read_json keeps_list_suffixes)

lemma open_role_others:
  assumes "open_role h w = (r, w')" and "h' \<noteq> h"
  shows "hm_get (w_roles w') h' = hm_get (w_roles w) h'"
proof (cases "hm_get (w_roles w) h")
  case (Some st)
  with assms show ?thesis by (simp add: open_role_open)
next
  case None
  obtain r1 w1 where load: "load_role h w = (r1, w1)" by fastforce
  have "w_roles w1 = w_roles w" using keepsD [OF keeps_load_role load, of w_roles] by simp
  with assms None load show ?thesis
    by (cases r1) (auto simp: open_role_def bind_act_def read_st_def modify_st_def)
qed

lemma locked_conv:
  "locked h m w = (r, w') \<longleftrightarrow>
     (\<exists>w1. m (w\<lparr>w_state := (case hm_get (w_roles w) h of Some st \<Rightarrow> st | None \<Rightarrow> empty_role_state)\<rparr>) = (r, w1) \<and>
        w' = w1\<lparr>w_roles := hm_insert h (w_state w1) (w_roles w1), w_state := w_state w\<rparr>)"
  by (auto simp: locked_def Let_def split: prod.splits)

lemma keeps_locked:
  assumes "keeps f m" and "\<And>w st. f (w\<lparr>w_state := st\<rparr>) = f w" and "\<And>w rs. f (w\<lparr>w_roles := rs\<rparr>) = f w"
  shows "keeps f (locked h m)"
proof (rule keepsI)
  fix w r w' assume "locked h m w = (r, w')"
  then obtain w1 where 1: "m (w\<lparr>w_state := (case hm_get (w_roles w) h of Some st \<Rightarrow> st | None \<Rightarrow> empty_role_state)\<rparr>) = (r, w1)"
    and w': "w' = w1\<lparr>w_roles := hm_insert h (w_state w1) (w_roles w1), w_state := w_state w\<rparr>" by (auto simp: locked_conv)
  from keepsD [OF assms(1) 1] show "f w' = f w" unfolding w' by (simp only: assms(2,3))
qed

section \<open>Notifications\<close>

text \<open>A notification touches no file and no other role, it leaves the tree, the pointers and
  the watermarks of its role as they are, and when it returns normally the role is open and
  the suffix it names is marked as having work.\<close>

theorem notification_only_marks:
  assumes "on_notification kind n w = (Inr (), w')"
  defines "h \<equiv> AgentRole (rn_agent_id n) (role_name (rn_role_event n))"
  shows "disk w' = disk w \<and> w_model w' = w_model w \<and>
    (\<forall>h'. h' \<noteq> h \<longrightarrow> hm_get (w_roles w') h' = hm_get (w_roles w) h') \<and>
    (\<exists>st'. hm_get (w_roles w') h = Some st' \<and> is_dirty (rn_role_event n) st' \<and>
       (\<forall>st. hm_get (w_roles w) h = Some st \<longrightarrow>
          rs_tree st' = rs_tree st \<and> rs_current_cases st' = rs_current_cases st \<and>
          rs_watermarks st' = rs_watermarks st \<and> rs_dirty_suffixes st \<subseteq> rs_dirty_suffixes st' \<and>
          rs_dirty_channels st \<subseteq> rs_dirty_channels st'))"
proof -
  let ?mark = "case rn_channel n of
      Some channel \<Rightarrow> if kind = Kind_Channel then mark_channel (rn_role_event n) channel else mark_role_event (rn_role_event n)
    | None \<Rightarrow> mark_role_event (rn_role_event n)"
  from assms obtain w1 where 1: "open_role h w = (Inr (), w1)" and 2: "locked h (modify_state ?mark) w1 = (Inr (), w')"
    by (auto simp: on_notification_def Let_def bind_Inr_conv)
  from open_role_opens [OF 1] obtain st1 where st1: "hm_get (w_roles w1) h = Some st1" by blast
  have w': "w' = w1\<lparr>w_roles := hm_insert h (?mark st1) (w_roles w1)\<rparr>"
    using 2 st1 by (auto simp: locked_conv modify_state_def)
  have "keeps (\<lambda>w. (disk w, w_model w)) (open_role h)" by (rule keeps_open_role) simp_all
  from keepsD [OF this 1] have "disk w' = disk w" "w_model w' = w_model w" by (simp_all add: w')
  moreover have "st1 = st" if "hm_get (w_roles w) h = Some st" for st
    using that 1 st1 by (simp add: open_role_open)
  moreover have "is_dirty (rn_role_event n) (?mark st1)"
    by (auto simp: is_dirty_def mark_channel_def mark_role_event_def split: option.split)
  moreover have "rs_tree (?mark st1) = rs_tree st1" "rs_current_cases (?mark st1) = rs_current_cases st1"
    "rs_watermarks (?mark st1) = rs_watermarks st1" "rs_dirty_suffixes st1 \<subseteq> rs_dirty_suffixes (?mark st1)"
    "rs_dirty_channels st1 \<subseteq> rs_dirty_channels (?mark st1)"
    by (auto simp: mark_channel_def mark_role_event_def split: option.split)
  moreover have "\<forall>h'. h' \<noteq> h \<longrightarrow> hm_get (w_roles w') h' = hm_get (w_roles w) h'"
    using open_role_others [OF 1] by (simp add: w')
  ultimately show ?thesis by (simp add: w') blast
qed

definition sample_notification :: record_notification where
  "sample_notification = \<lparr>rn_agent_id = ''a'', rn_role_event = RoleEvent ''d'' None,
     rn_time = ''3'', rn_is_self = Some 0, rn_channel = Some sample_channel\<rparr>"

theorem notification_only_marks_witness:
  "\<exists>st'. hm_get (w_roles (snd (on_notification Kind_Channel sample_notification sample_world))) sample_handle = Some st' \<and>
     is_dirty (RoleEvent ''d'' None) st'"
proof -
  obtain w' where run: "on_notification Kind_Channel sample_notification sample_world = (Inr (), w')"
    and "snd (on_notification Kind_Channel sample_notification sample_world) = w'"
  proof -
    have "fst (on_notification Kind_Channel sample_notification sample_world) = Inr ()" by code_simp
    then show thesis using that by (metis surjective_pairing)
  qed
  from notification_only_marks [OF run] this(2) show ?thesis
    by (auto simp: sample_notification_def sample_handle_def)
qed

section \<open>Triggers\<close>

lemma ensure_loaded: "ensure_role_event h re w = (Inr (), w') \<Longrightarrow> re \<in> rs_loaded (w_state w')"
proof -
  let ?rest = "bind_act (read_json (\<lambda>w. w_currents w (event_dir h re))) (\<lambda>current.
     bind_act (modify_state (\<lambda>st. st\<lparr>rs_current_cases := load_pointers re (or_empty current) (rs_current_cases st)\<rparr>)) (\<lambda>_.
     bind_act (read_json (\<lambda>w. w_marks w (event_dir h re))) (\<lambda>wms.
     modify_state (\<lambda>st. st\<lparr>rs_watermarks := load_pointers re (or_empty wms) (rs_watermarks st)\<rparr>))))"
  have rest: "keeps (\<lambda>w. rs_loaded (w_state w)) ?rest"
    unfolding modify_state_def by (intro keeps_intros keeps_modify_st keeps_read_json) simp_all
  assume run: "ensure_role_event h re w = (Inr (), w')"
  show ?thesis
  proof (cases "re \<in> rs_loaded (w_state w)")
    case True
    with run show ?thesis by (simp add: ensure_role_event_eq bind_act_def read_st_def)
  next
    case False
    let ?w1 = "w\<lparr>w_state := (w_state w)\<lparr>rs_loaded := insert re (rs_loaded (w_state w))\<rparr>\<rparr>"
    from run False have "?rest ?w1 = (Inr (), w')"
      by (simp add: ensure_role_event_eq modify_state_def bind_read bind_modify)
    from keepsD [OF rest this] show ?thesis by simp
  qed
qed

lemma ensure_loaded_again: "re \<in> rs_loaded (w_state w) \<Longrightarrow> ensure_role_event h re w = (Inr (), w)"
  by (simp add: ensure_role_event_eq bind_act_def read_st_def ret_def)

lemma manual_trigger_run:
  assumes run: "manual_trigger av h e w = (Inr oc, w')" and reach: "service_reachable av w"
  obtains w1 w2 st outcomes located where "open_role h w = (Inr (), w1)" and "hm_get (w_roles w1) h = Some st"
    and "tree_ok (rs_tree st)"
    and "process_pending av h e True [] (w1\<lparr>w_state := st\<rparr>) = (Inr (outcomes, located), w2)"
    and "oc = sum_outcomes outcomes"
    and "w' = w2\<lparr>w_roles := hm_insert h (w_state w2) (w_roles w2), w_state := w_state w1\<rparr>"
proof -
  from run obtain w1 where 1: "open_role h w = (Inr (), w1)"
    and 2: "locked h (bind_act (process_pending av h e True []) (\<lambda>(outcomes, _). ret (sum_outcomes outcomes))) w1 = (Inr oc, w')"
    by (auto simp: manual_trigger_def bind_Inr_conv)
  from open_role_opens [OF 1] obtain st where st: "hm_get (w_roles w1) h = Some st" by blast
  have "world_ok w1" using preservesD [OF preserves_open_role service_reachable_ok [OF reach] 1] .
  from world_ok_get [OF this st] have "tree_ok (rs_tree st)" by (simp add: role_ok_def)
  with 1 2 st show thesis using that by (auto simp: locked_conv bind_Inr_conv)
qed

lemma trigger_drains:
  fixes av :: "'m archiver" and w :: "'m world"
  assumes "service_reachable av w" and "manual_trigger av h e w = (Inr oc, w')" and "0 < av_max_batch av"
  shows "w_store w' = w_store w \<and>
    (\<forall>h'. h' \<noteq> h \<longrightarrow> hm_get (w_roles w') h' = hm_get (w_roles w) h') \<and>
    (\<exists>st' view (wa :: 'm world) wb. hm_get (w_roles w') h = Some st' \<and>
       w_store wa = w_store w \<and> read_view h e wa = (Inr view, wb) \<and>
       (\<forall>c. pending_for view c (watermark_of (role_event_of h e) c st') = []) \<and>
       role_event_of h e \<in> rs_loaded st' \<and> \<not> is_dirty (role_event_of h e) st')"
proof -
  from manual_trigger_run [OF assms(2,1)] obtain w1 w2 st outcomes located where 1: "open_role h w = (Inr (), w1)"
    and st: "hm_get (w_roles w1) h = Some st" "tree_ok (rs_tree st)"
    and 2: "process_pending av h e True [] (w1\<lparr>w_state := st\<rparr>) = (Inr (outcomes, located), w2)"
    and w': "w' = w2\<lparr>w_roles := hm_insert h (w_state w2) (w_roles w2), w_state := w_state w1\<rparr>"
    by metis
  have st_ok: "tree_ok (rs_tree (w_state (w1\<lparr>w_state := st\<rparr>)))" using st by simp
  obtain wa view wb w3 asg where
    a: "ensure_role_event h (role_event_of h e) (w1\<lparr>w_state := st\<rparr>) = (Inr (), wa)" "read_view h e wa = (Inr view, wb)"
    and eff: "pass_effect av h e view (map fst (grouped_channels view [])) wb w3 asg"
    and w2: "w2 = w3\<lparr>w_state := clear_dirty (role_event_of h e)
      (dirty_channels_of (role_event_of h e) (w_state wb) \<union> fst ` set (grouped_channels view [])) (w_state w3)\<rparr>"
    and b: "\<And>c. pending_for view c (watermark_of (role_event_of h e) c (w_state w2)) = []"
      "\<not> is_dirty (role_event_of h e) (w_state w2)"
    and store: "w_store wa = w_store (w1\<lparr>w_state := st\<rparr>)" "w_store w2 = w_store (w1\<lparr>w_state := st\<rparr>)"
    and roles: "w_roles w2 = w_roles (w1\<lparr>w_state := st\<rparr>)"
    by (rule process_pending_effect [OF 2 disjI1 [OF TrueI] assms(3) st_ok]) (rule that)
  have "role_event_of h e \<in> rs_loaded (w_state w2)"
    using ensure_loaded [OF a(1)] keepsD [OF read_view_keeps a(2)] eff
    by (simp add: w2 clear_dirty_def pass_effect_def)
  moreover have "w_store w1 = w_store w" using keepsD [OF keeps_open_role 1, of w_store] by simp
  moreover have "\<forall>h'. h' \<noteq> h \<longrightarrow> hm_get (w_roles w') h' = hm_get (w_roles w) h'"
    using open_role_others [OF 1] roles by (simp add: w')
  ultimately show ?thesis using a(2) b store by (simp add: w') blast
qed

text \<open>C2: when a trigger for a memory suffix returns normally, the shared record files are as they
  were, no record of them that can be attributed to a channel is pending in the new state of
  the role, the suffix carries no mark any more, and other roles are untouched.\<close>

theorem manual_trigger_drains:
  fixes av :: "'m archiver" and w :: "'m world"
  assumes "service_reachable av w" and "manual_trigger av h e w = (Inr oc, w')" and "0 < av_max_batch av"
  shows "w_store w' = w_store w \<and>
    (\<forall>h'. h' \<noteq> h \<longrightarrow> hm_get (w_roles w') h' = hm_get (w_roles w) h') \<and>
    (\<exists>st' view (wa :: 'm world) wb. hm_get (w_roles w') h = Some st' \<and>
       w_store wa = w_store w \<and> read_view h e wa = (Inr view, wb) \<and>
       (\<forall>c. pending_for view c (watermark_of (role_event_of h e) c st') = []) \<and>
       role_event_of h e \<in> rs_loaded st' \<and> \<not> is_dirty (role_event_of h e) st')"
  using assms by (rule trigger_drains)

lemma process_channels_idle:
  "\<forall>g\<in>set grouped. snd g = [] \<and> pending_for view (fst g) (watermark_of (role_event_of h e) (fst g) (w_state w)) = [] \<Longrightarrow>
     fold_act (process_channel av h e view messages) grouped acc w = (Inr acc, w)"
proof (induction grouped)
  case (Cons g grouped)
  then have "process_channel av h e view messages g acc w = (Inr acc, w)"
    by (simp add: process_channel_def bind_get_state Let_def)
  with Cons show ?case by (simp add: bind_act_def)
qed simp

lemma grouped_channels_no_messages: "\<forall>g\<in>set (grouped_channels view []). snd g = []"
  using grouped_channels_values [of view "[]"] by simp

lemma clear_clean: "\<not> is_dirty re st \<Longrightarrow> clear_dirty re processed st = st"
proof -
  assume "\<not> is_dirty re st"
  then have "rs_dirty_suffixes st - {role_event_suffix re} = rs_dirty_suffixes st"
    and "Set.filter (\<lambda>(e', c). e' \<noteq> re \<or> c \<notin> processed) (rs_dirty_channels st) = rs_dirty_channels st"
    by (force simp: is_dirty_def)+
  then show ?thesis by (simp add: clear_dirty_def)
qed

text \<open>Triggering again when the record files have not changed archives nothing: whatever
  the model, the clock and the file system do meanwhile, a second trigger that returns normally
  reports no record and no case, does not ask the model, writes no file and leaves the state of
  every role as it is.\<close>

theorem second_trigger_idle:
  fixes av :: "'m archiver" and w w1 w2 w3 :: "'m world"
  assumes "service_reachable av w" and "manual_trigger av h e w = (Inr oc, w1)" and "0 < av_max_batch av"
    and "w_store w2 = w_store w1" and "w_roles w2 = w_roles w1"
    and "service_reachable av w2" and "manual_trigger av h e w2 = (Inr oc2, w3)"
  shows "oc2 = \<lparr>ao_archived = 0, ao_case_names = []\<rparr> \<and> disk w3 = disk w2 \<and> w_model w3 = w_model w2 \<and>
    (\<forall>h'. hm_get (w_roles w3) h' = hm_get (w_roles w2) h')"
proof -
  let ?re = "role_event_of h e"
  from trigger_drains [OF assms(1-3)] obtain st' view and wa wb :: "'m world" where st': "hm_get (w_roles w1) h = Some st'"
    and view: "w_store wa = w_store w" "read_view h e wa = (Inr view, wb)"
    and idle: "\<forall>c. pending_for view c (watermark_of ?re c st') = []" "?re \<in> rs_loaded st'" "\<not> is_dirty ?re st'"
    and "w_store w1 = w_store w" by blast
  have st2: "hm_get (w_roles w2) h = Some st'" using st' assms(5) by simp
  from manual_trigger_run [OF assms(7,6)] obtain w4 w5 st outcomes located where 4: "open_role h w2 = (Inr (), w4)"
    and st: "hm_get (w_roles w4) h = Some st"
    and 5: "process_pending av h e True [] (w4\<lparr>w_state := st\<rparr>) = (Inr (outcomes, located), w5)"
    and oc2: "oc2 = sum_outcomes outcomes"
    and w3: "w3 = w5\<lparr>w_roles := hm_insert h (w_state w5) (w_roles w5), w_state := w_state w4\<rparr>"
    by metis
  have "w4 = w2" using 4 open_role_open [OF st2] by simp
  with st st2 have "st = st'" by simp
  from process_pending_run [OF 5] obtain w6 view2 w7 w8 where 6: "ensure_role_event h ?re (w4\<lparr>w_state := st\<rparr>) = (Inr (), w6)"
    and 7: "read_view h e w6 = (Inr view2, w7)"
    and 8: "fold_act (process_channel av h e view2 []) (grouped_channels view2 []) ([], []) w7 = (Inr (outcomes, located), w8)"
    and w5: "w5 = w8\<lparr>w_state := clear_dirty ?re
      (dirty_channels_of ?re (w_state w7) \<union> fst ` set (grouped_channels view2 [])) (w_state w8)\<rparr>"
    by blast
  have w6: "w6 = w2\<lparr>w_state := st'\<rparr>"
    using 6 ensure_loaded_again [of ?re "w4\<lparr>w_state := st\<rparr>"] idle(2) \<open>st = st'\<close> \<open>w4 = w2\<close> by simp
  have "view2 = view"
    using determinedD [OF read_view_determined 7 view(2)] w6 view(1) \<open>w_store w1 = w_store w\<close> assms(4) by simp
  have keeps7: "keeps (\<lambda>w. (disk w, w_model w, w_roles w, w_state w)) (read_view h e)"
    unfolding read_view_def read_store_records_def read_store_files_def list_store_files_def Let_def
    by (intro keeps_intros keeps_io_step) simp_all
  have "w_state w7 = st'" using keepsD [OF keeps7 7] w6 by simp
  then have "fold_act (process_channel av h e view2 []) (grouped_channels view2 []) ([], []) w7 = (Inr ([], []), w7)"
    using idle(1) grouped_channels_no_messages \<open>view2 = view\<close> by (intro process_channels_idle) simp
  with 8 have "outcomes = []" and "w8 = w7" by simp_all
  moreover have "w_state w5 = st'" using w5 \<open>w8 = w7\<close> \<open>w_state w7 = st'\<close> clear_clean [OF idle(3)] by simp
  ultimately show ?thesis
    using keepsD [OF keeps7 7] st2 by (simp add: oc2 sum_outcomes_def w3 w5 w6)
qed

section \<open>Exactly once\<close>

lemma size_sum_list: "size (sum_list ms) = sum_list (map size ms)" for ms :: "'a multiset list"
  by (induction ms) simp_all

lemma grouped_known: "fst ` set (grouped_channels view []) = set (known_channels view)"
proof -
  have "fst ` set (fold (\<lambda>c m. case bm_get m c of None \<Rightarrow> bm_insert c [] m | Some _ \<Rightarrow> m) cs m) = fst ` set m \<union> set cs"
    for cs and m :: "(channel_key, nat list) bmap"
  proof (induction cs arbitrary: m)
    case (Cons c cs)
    have "fst ` set (case bm_get m c of None \<Rightarrow> bm_insert c [] m | Some _ \<Rightarrow> m) = insert c (fst ` set m)"
      by (cases "bm_get m c") (force dest: map_of_SomeD)+
    with Cons show ?case by simp
  qed simp
  then show ?thesis by (simp add: grouped_channels_def group_indices_by_channel_def)
qed

lemma sum_grouped: "sum_list (map f (map fst (grouped_channels view []))) = sum_list (map f (known_channels view))"
  for f :: "channel_key \<Rightarrow> 'a :: comm_monoid_add"
proof -
  have "distinct (map fst (grouped_channels view []))" by (rule distinct_bm [OF grouped_channels_ok])
  moreover have "distinct (known_channels view)" by (simp add: known_channels_def bs_distinct)
  moreover have "set (map fst (grouped_channels view [])) = set (known_channels view)" by (simp add: grouped_known)
  ultimately have "mset (map fst (grouped_channels view [])) = mset (known_channels view)"
    by (simp only: set_eq_iff_mset_eq_distinct)
  then have "mset (map f (map fst (grouped_channels view []))) = mset (map f (known_channels view))" by (simp only: mset_map)
  then show ?thesis by (metis sum_mset_sum_list)
qed

text \<open>C1: with a model whose groups leave no index out, working off a memory suffix files every
  pending record exactly once: there is an assignment of records to cases such that the records
  assigned are, as a multiset, the pending records of the known channels, every case copy grows
  at its end by the records assigned to it and by nothing else, the number reported is their
  number, and the record count of each case of the tree grows by as many.\<close>

theorem pending_archived_exactly_once:
  fixes av :: "'m archiver" and w w' :: "'m world"
  assumes "process_pending av h e True [] w = (Inr (outcomes, located), w')" and "role_event_of h e \<in> rs_loaded (w_state w)"
    and "0 < av_max_batch av" and "tree_ok (rs_tree (w_state w))" and "covering (av_model av)"
  shows "\<exists>view wv asg. read_view h e w = (Inr view, wv) \<and>
    mset (map fst asg) = sum_list (map (\<lambda>c. mset (pending_for view c (watermark_of (role_event_of h e) c (w_state w)))) (known_channels view)) \<and>
    (\<forall>h' c k. case_bodies w' h' c k = case_bodies w h' c k @ (if h' = h then bodies_of k (assigned asg c) else [])) \<and>
    sum_list (map ao_archived outcomes) = length asg \<and>
    (\<forall>c. tree_contains (rs_tree (w_state w)) c \<longrightarrow>
       counted (rs_tree (w_state w')) c = counted (rs_tree (w_state w)) c + length (assigned asg c))"
proof -
  let ?re = "role_event_of h e"
  from process_pending_run [OF assms(1)] obtain w1 view w2 w3 where 1: "ensure_role_event h ?re w = (Inr (), w1)"
    and 2: "read_view h e w1 = (Inr view, w2)"
    and 3: "fold_act (process_channel av h e view []) (grouped_channels view []) ([], []) w2 = (Inr (outcomes, located), w3)"
    and w': "w' = w3\<lparr>w_state := clear_dirty ?re
      (dirty_channels_of ?re (w_state w2) \<union> fst ` set (grouped_channels view [])) (w_state w3)\<rparr>"
    by blast
  have "w1 = w" using 1 ensure_loaded_again [OF assms(2)] by simp
  have state2: "w_state w2 = w_state w" "w_cases w2 = w_cases w"
    using keepsD [OF read_view_keeps 2] \<open>w1 = w\<close> by simp_all
  then have bodies2: "case_bodies w2 = case_bodies w" by (simp add: fun_eq_iff case_bodies_def case_file_lines_def)
  have ok2: "tree_ok (rs_tree (w_state w2))" using state2 assms(4) by simp
  have entries: "\<forall>r\<in>set (sv_records view). entry_ok r" using read_view_entries [OF 2] by simp
  note distinct = distinct_bm [OF grouped_channels_ok [of view "[]"]]
  from process_channels_effect [OF assms(3) entries 3 ok2 distinct] obtain asg
    where eff: "pass_effect av h e view (map fst (grouped_channels view [])) w2 w3 asg" ..
  then have pending: "mset (map fst asg) =
      sum_list (map (\<lambda>c. mset (pending_for view c (watermark_of ?re c (w_state w)))) (map fst (grouped_channels view [])))"
    using assms(5) state2 by (simp add: pass_effect_def)
  from process_channels_count [OF assms(3) entries 3 ok2 distinct]
  have "sum_list (map ao_archived outcomes) =
      sum_list (map (\<lambda>c. length (pending_for view c (watermark_of ?re c (w_state w)))) (map fst (grouped_channels view [])))"
    using state2 by simp
  also have "\<dots> = size (sum_list (map (\<lambda>c. mset (pending_for view c (watermark_of ?re c (w_state w)))) (map fst (grouped_channels view []))))"
    by (simp only: size_sum_list map_map comp_def size_mset)
  also have "\<dots> = length asg" unfolding pending [symmetric] by simp
  finally have count: "sum_list (map ao_archived outcomes) = length asg" .
  have "case_bodies w' = case_bodies w3" by (simp add: w')
  moreover have "counted (rs_tree (w_state w')) = counted (rs_tree (w_state w3))" by (simp add: w' clear_dirty_def)
  ultimately show ?thesis
    using 2 \<open>w1 = w\<close> pending eff count state2 bodies2 unfolding sum_grouped pass_effect_def
    by (intro exI [of _ view] exI [of _ w2] exI [of _ asg]) simp
qed

section \<open>Failures\<close>

lemma keeps_archive_chunk:
  assumes f: "\<And>w m. f (w\<lparr>w_model := m\<rparr>) = f w" "\<And>w fs. f (w\<lparr>w_faults := fs\<rparr>) = f w" "\<And>w n. f (w\<lparr>w_ticks := n\<rparr>) = f w"
    "\<And>c k ls w. f (set_case_file h c k ls w) = f w" "\<And>w g. f (w\<lparr>w_state := (w_state w)\<lparr>rs_tree := g\<rparr>\<rparr>) = f w"
    "\<And>w now rs la ss. f (w\<lparr>w_state := apply_results h e channel now rs la ss (w_state w)\<rparr>) = f w"
    and state: "\<And>w w'. f w' = f w \<Longrightarrow> f (w'\<lparr>w_state := w_state w\<rparr>) = f w"
  shows "keeps f (archive_chunk av h e channel items)"
proof (rule keepsI)
  have "keeps f (archive_chunk_inner av h e channel items)"
    unfolding archive_chunk_inner_def Let_def now_string_def [abs_def]
    by (intro keeps_intros keeps_locate_items keeps_land_one keeps_recompute_summaries keeps_append_case_records f)
      (simp_all add: keeps_def f modify_state_def modify_st_def)
  then have inner: "f (snd (archive_chunk_inner av h e channel items w)) = f w" for w by (simp add: keeps_def)
  fix w r w' assume "archive_chunk av h e channel items w = (r, w')"
  with inner [of w] state show "f w' = f w"
    by (auto simp: archive_chunk_def split: if_splits prod.splits sum.splits)
qed

text \<open>The marks of a role, the shared files and the other roles.\<close>

definition marks :: "'m world \<Rightarrow> _" where
  "marks w = (w_store w, w_roles w, rs_dirty_suffixes (w_state w), rs_dirty_channels (w_state w))"

lemma marks_simps [simp]:
  "marks (w\<lparr>w_model := m\<rparr>) = marks w" "marks (w\<lparr>w_faults := fs\<rparr>) = marks w" "marks (w\<lparr>w_ticks := n\<rparr>) = marks w"
  "marks (w\<lparr>w_trees := ts\<rparr>) = marks w" "marks (w\<lparr>w_currents := cs\<rparr>) = marks w" "marks (w\<lparr>w_marks := ms\<rparr>) = marks w"
  "marks (set_case_file h c k ls w) = marks w" "marks (w\<lparr>w_state := (w_state w)\<lparr>rs_tree := t\<rparr>\<rparr>) = marks w"
  "marks (w\<lparr>w_state := apply_results h e channel now rs la ss (w_state w)\<rparr>) = marks w"
  by (simp_all add: marks_def set_case_file_def apply_results_def Let_def)

lemma keeps_marks_process_channel: "keeps marks (process_channel av h e view messages g acc)"
proof -
  have "keeps marks (archive_chunk av h e channel items)" for channel items
    by (rule keeps_archive_chunk) (simp_all add: marks_def set_case_file_def apply_results_def Let_def)
  moreover have "keeps marks (save_state h re)" for re
    unfolding save_state_def save_tree_def save_current_def save_watermark_def
    by (intro keeps_intros keeps_write_json keeps_remove_file) simp_all
  ultimately show ?thesis
    unfolding process_channel_def archive_located_def archive_def archive_step_def Let_def
    by (intro keeps_intros)
qed

lemma process_pending_err:
  assumes "process_pending av h e force messages w = (Inl err, w')"
  shows "marks w' = marks w"
proof -
  have load: "keeps marks (ensure_role_event h re)" for re
    by (rule keepsI) (auto dest: keepsD [OF ensure_keeps] simp: marks_def)
  have view: "keeps marks (read_view h e)"
    by (rule keepsI) (auto dest: keepsD [OF read_view_keeps] simp: marks_def)
  have all: "keeps marks (fold_act (process_channel av h e view messages) grouped acc)" for view grouped acc
    by (intro keeps_intros keeps_marks_process_channel)
  show ?thesis
    using assms
    by (auto simp: process_pending_def Let_def bind_Inl_conv modify_state_def split: if_splits
        dest!: keepsD [OF load] keepsD [OF view] keepsD [OF all])
qed

text \<open>Work that fails is not lost: when a trigger for an open role ends with an error, of the
  model, of a file operation or any other, every mark of the role is still there, so that the
  next pass looks at the same suffixes again; the shared record files and the other roles are
  as before.\<close>

theorem failed_trigger_keeps_marks:
  assumes "manual_trigger av h e w = (Inl err, w')" and "hm_get (w_roles w) h = Some st"
  shows "w_store w' = w_store w \<and> (\<forall>h'. h' \<noteq> h \<longrightarrow> hm_get (w_roles w') h' = hm_get (w_roles w) h') \<and>
    (\<exists>st'. hm_get (w_roles w') h = Some st' \<and>
       rs_dirty_suffixes st' = rs_dirty_suffixes st \<and> rs_dirty_channels st' = rs_dirty_channels st)"
proof -
  have "locked h (bind_act (process_pending av h e True []) (\<lambda>(outcomes, _). ret (sum_outcomes outcomes))) w = (Inl err, w')"
    using assms by (auto simp: manual_trigger_def bind_Inl_conv open_role_open)
  then obtain w1 where "process_pending av h e True [] (w\<lparr>w_state := st\<rparr>) = (Inl err, w1)"
    and w': "w' = w1\<lparr>w_roles := hm_insert h (w_state w1) (w_roles w1), w_state := w_state w\<rparr>"
    using assms(2) by (auto simp: locked_conv bind_Inl_conv split: prod.splits)
  from process_pending_err [OF this(1)] show ?thesis by (simp add: w' marks_def)
qed

section \<open>Queries\<close>

text \<open>The query requests, for the list of cases below a parent, a summary, the records of a
  case (all, after a cursor, the last few), the whole tree with the current cases and the
  number of cases, write no file and do not ask the model, however they end.\<close>

theorem queries_write_nothing:
  "keeps (\<lambda>w :: 'm world. (disk w, w_model w)) (case_list h parent) \<and>
   keeps (\<lambda>w :: 'm world. (disk w, w_model w)) (case_summary h c) \<and>
   keeps (\<lambda>w :: 'm world. (disk w, w_model w)) (case_records h c) \<and>
   keeps (\<lambda>w :: 'm world. (disk w, w_model w)) (case_records_after h c after) \<and>
   keeps (\<lambda>w :: 'm world. (disk w, w_model w)) (case_records_tail h c n) \<and>
   keeps (\<lambda>w :: 'm world. (disk w, w_model w)) (tree_get_all h e) \<and>
   keeps (\<lambda>w :: 'm world. (disk w, w_model w)) (case_count h)"
proof -
  let ?f = "\<lambda>w :: 'm world. (disk w, w_model w)"
  have op: "keeps ?f (open_role h)" by (rule keeps_open_role) simp_all
  have load: "keeps ?f (ensure_role_event h re)" for re :: role_event
    unfolding ensure_role_event_eq modify_state_def
    by (intro keeps_intros keeps_modify_st keeps_read_json) simp_all
  have records: "keeps ?f (read_case h c)"
    unfolding read_case_def
    by (intro keeps_intros op keeps_locked keeps_read_case_records) simp_all
  show ?thesis
    unfolding case_list_def case_summary_def case_records_def case_records_after_def case_records_tail_def
      tree_get_all_def case_count_def
    by (intro conjI keeps_intros keeps_locked op load records) simp_all
qed

section \<open>Locating messages\<close>

text \<open>C17: with a model whose groups leave no index out, a normal answer to a locate request puts
  every message of the request, by its position, into exactly one group, and the groups come in
  the order of their first messages.\<close>

theorem locate_covers_messages:
  assumes "service_reachable av w" and "locate av rq w = (Inr resp, w')"
    and "0 < av_max_batch av" and "covering (av_model av)"
  shows "mset (concat (map lg_messages (lr_groups resp))) = mset [0..<length (lq_messages rq)] \<and>
    sorted (map (\<lambda>g. hd (lg_messages g)) (lr_groups resp))"
proof -
  let ?h = "AgentRole (lq_agent_id rq) (role_name (lq_role_event rq))"
  let ?e = "event_id (lq_role_event rq)"
  from assms(2) obtain w1 where 1: "open_role ?h w = (Inr (), w1)"
    and 2: "locked ?h (bind_act (process_pending av ?h ?e False (lq_messages rq)) (\<lambda>(_, located).
            bind_act get_state (\<lambda>st. ret (merge_located located (current_of (role_event_of ?h ?e) st))))) w1 = (Inr resp, w')"
    unfolding locate_def Let_def bind_Inr_conv by auto
  from open_role_opens [OF 1] obtain st where st: "hm_get (w_roles w1) ?h = Some st" by blast
  have "world_ok w1" using preservesD [OF preserves_open_role service_reachable_ok [OF assms(1)] 1] .
  from world_ok_get [OF this st] have ok: "tree_ok (rs_tree st)" by (simp add: role_ok_def)
  from 2 st obtain outcomes located w2 where
    3: "process_pending av ?h ?e False (lq_messages rq) (w1\<lparr>w_state := st\<rparr>) = (Inr (outcomes, located), w2)"
    and resp: "resp = merge_located located (current_of (role_event_of ?h ?e) (w_state w2))"
    by (auto simp: locked_conv bind_Inr_conv)
  have located: "mset (located_messages located) = mset [0..<length (lq_messages rq)] \<and>
      (\<forall>l\<in>set located. fst l = hd (lg_messages (snd (snd l))))"
  proof (cases "\<not> is_dirty (role_event_of ?h ?e) st \<and> lq_messages rq = []")
    case True
    with 3 show ?thesis by (simp add: process_pending_def bind_get_state Let_def)
  next
    case False
    then have work: "False \<or> is_dirty (role_event_of ?h ?e) (w_state (w1\<lparr>w_state := st\<rparr>)) \<or> lq_messages rq \<noteq> []" by simp
    obtain w4 view w5 w6 where
      load: "ensure_role_event ?h (role_event_of ?h ?e) (w1\<lparr>w_state := st\<rparr>) = (Inr (), w4)"
      and read: "read_view ?h ?e w4 = (Inr view, w5)"
      and run: "fold_act (process_channel av ?h ?e view (lq_messages rq)) (grouped_channels view (lq_messages rq)) ([], []) w5 =
        (Inr (outcomes, located), w6)" by (rule process_pending_run [OF 3 work]) (rule that)
    have ok5: "tree_ok (rs_tree (w_state w5))"
      using keepsD [OF ensure_keeps load] keepsD [OF read_view_keeps read] ok by simp
    have entries: "\<forall>r\<in>set (sv_records view). entry_ok r" using read_view_entries [OF read] by simp
    from process_channels_messages [OF assms(3) entries assms(4) run ok5] process_channels_first [OF run]
    show ?thesis by (simp add: grouped_channels_values)
  qed
  have "map (\<lambda>g. hd (lg_messages g)) (lr_groups resp) = map fst (sort_key fst located)"
    unfolding resp merge_located_groups map_map comp_def
    by (intro map_cong refl) (use located in \<open>simp add: response_group_def split_def\<close>)
  then have "sorted (map (\<lambda>g. hd (lg_messages g)) (lr_groups resp))" by simp
  with located show ?thesis by (simp only: resp merge_located_messages simp_thms)
qed

end
