(* ===== verification/Restart_Spec.thy ===== *)
theory Restart_Spec
  imports Service_Spec
begin

text \<open>
  The state files of a role: what a save leaves on disk, and that opening the role again after a
  restart brings back the tree, the current cases and the watermarks.
\<close>

section \<open>Pointers of one suffix\<close>

lemma map_of_rev_distinct: "distinct (map fst m) \<Longrightarrow> map_of (rev m) = map_of m"
  by (intro map_of_inject_set [THEN iffD2]) (auto simp flip: rev_map)

lemma map_of_suffix:
  "map_of (map (\<lambda>((e', c), v). (c, v)) (filter (\<lambda>((e', c), v). e' = e) m)) c = map_of m (e, c)"
  by (induction m) auto

lemma distinct_suffix:
  "distinct (map fst m) \<Longrightarrow> distinct (map fst (map (\<lambda>((e', c), v). (c, v)) (filter (\<lambda>((e', c), v). e' = e) m)))"
  by (induction m) (auto simp: image_iff split_beta)

lemma bm_get_suffix:
  assumes "bm_ok m"
  shows "bm_get (bm_collect (map (\<lambda>((e', c), v). (c, v)) (filter (\<lambda>((e', c), v). e' = e) m))) c = bm_get m (e, c)"
  unfolding bm_get_collect map_of_rev_distinct [OF distinct_suffix [OF distinct_bm [OF assms]]] by (rule map_of_suffix)

lemma get_load_pointers:
  "bm_get (load_pointers e entries m) (e', c) =
     (if e' = e then (case map_of (rev entries) c of Some v \<Rightarrow> Some v | None \<Rightarrow> bm_get m (e, c)) else bm_get m (e', c))"
  unfolding load_pointers_def by (induction entries arbitrary: m) (auto simp: map_add_def split: option.splits)

lemma bm_ok_current_of [simp]: "bm_ok (current_of e st)"
  by (simp add: current_of_def)

lemma bm_ok_watermarks_of [simp]: "bm_ok (watermarks_of e st)"
  by (simp add: watermarks_of_def)

section \<open>The files of a save\<close>

lemma io_step_tl: "io_step w = (Inr u, w') \<Longrightarrow> w' = w\<lparr>w_faults := tl (w_faults w)\<rparr>"
  by (auto simp: io_step_Inr)

lemma write_json_Inr: "write_json g w = (Inr (), w') \<Longrightarrow> \<exists>fs. w' = g (w\<lparr>w_faults := fs\<rparr>)"
  by (auto simp: write_json_def bind_Inr_conv dest!: io_step_tl)

lemma remove_file_Inr: "remove_file g w = (Inr (), w') \<Longrightarrow> \<exists>fs. w' = g (w\<lparr>w_faults := fs\<rparr>)"
  by (auto simp: remove_file_def bind_Inr_conv dest!: io_step_tl)

lemma map_json_inject [simp]: "map_option Json_File a = map_option Json_File b \<longleftrightarrow> a = b"
  by (cases a; cases b) simp_all

lemma map_json_Some [simp]: "Some (Json_File v) = map_option Json_File b \<longleftrightarrow> b = Some v"
  by (cases b) auto

lemma save_state_files:
  assumes "save_state h re w = (Inr (), w')"
  shows "hm_get (w_trees w') h = Some (Json_File (tree_file (rs_tree (w_state w))))"
    and "w_currents w' (event_dir h re) =
      (if current_of re (w_state w) = [] then None else Some (Json_File (current_of re (w_state w))))"
    and "w_marks w' (event_dir h re) = Some (Json_File (watermarks_of re (w_state w)))"
  using assms
  by (auto simp: save_state_def bind_get_state bind_Inr_conv save_tree_def save_current_def save_watermark_def
      dest!: write_json_Inr remove_file_Inr split: if_splits)

section \<open>Opening again\<close>

lemma open_role_loads:
  assumes "open_role h w = (Inr (), w')" and "hm_get (w_roles w) h = None"
    and "hm_get (w_trees w) h = Some (Json_File ns)"
  shows "\<exists>st. hm_get (w_roles w') h = Some st \<and> rs_tree st = tree_from_nodes ns \<and> rs_current_cases st = [] \<and>
    rs_watermarks st = [] \<and> rs_loaded st = {} \<and> w_currents w' = w_currents w \<and> w_marks w' = w_marks w"
proof -
  from assms(1,2) obtain st w1 where load: "load_role h w = (Inr st, w1)" and w': "w' = w1\<lparr>w_roles := hm_insert h st (w_roles w1)\<rparr>"
    by (auto simp: open_role_def run_simps)
  then obtain nodes w2 where nodes: "read_json (\<lambda>w. hm_get (w_trees w) h) w = (Inr nodes, w2)"
    and st: "rs_tree st = (case nodes of Some ns \<Rightarrow> tree_from_nodes ns | None \<Rightarrow> [])"
      "rs_current_cases st = []" "rs_watermarks st = []" "rs_loaded st = {}"
    by (auto simp: load_role_def run_simps empty_role_state_def)
  have "nodes = Some ns" using read_json_Inr [OF _ nodes] assms(3) by simp
  moreover have "w_currents w1 = w_currents w" "w_marks w1 = w_marks w"
    using keepsD [OF keeps_load_role load, of w_currents] keepsD [OF keeps_load_role load, of w_marks] by simp_all
  ultimately show ?thesis using st by (simp add: w')
qed

lemma ensure_loads:
  assumes run: "ensure_role_event h re w = (Inr (), w')" and "re \<notin> rs_loaded (w_state w)"
    and files: "w_currents w (event_dir h re) = map_option Json_File current" "w_marks w (event_dir h re) = map_option Json_File wms"
  shows "w_state w' = (w_state w)\<lparr>rs_loaded := insert re (rs_loaded (w_state w)),
    rs_current_cases := load_pointers re (or_empty current) (rs_current_cases (w_state w)),
    rs_watermarks := load_pointers re (or_empty wms) (rs_watermarks (w_state w))\<rparr>"
proof -
  let ?w1 = "w\<lparr>w_state := (w_state w)\<lparr>rs_loaded := insert re (rs_loaded (w_state w))\<rparr>\<rparr>"
  from run assms(2) obtain current' w2 wms' w3 where 2: "read_json (\<lambda>w. w_currents w (event_dir h re)) ?w1 = (Inr current', w2)"
    and 3: "read_json (\<lambda>w. w_marks w (event_dir h re))
      (w2\<lparr>w_state := (w_state w2)\<lparr>rs_current_cases := load_pointers re (or_empty current') (rs_current_cases (w_state w2))\<rparr>\<rparr>) =
      (Inr wms', w3)"
    and w': "w' = w3\<lparr>w_state := (w_state w3)\<lparr>rs_watermarks := load_pointers re (or_empty wms') (rs_watermarks (w_state w3))\<rparr>\<rparr>"
    by (auto simp: ensure_role_event_eq modify_state_def bind_read bind_modify bind_Inr_conv)
  from read_json_Inr [OF _ 2] have c: "current' = current" "w_state w2 = w_state ?w1" "w_marks w2 = w_marks w"
    using files by simp_all
  from read_json_Inr [OF _ 3] have "wms' = wms" "w_state w3 =
      (w_state w2)\<lparr>rs_current_cases := load_pointers re (or_empty current') (rs_current_cases (w_state w2))\<rparr>"
    using files c by simp_all
  with c show ?thesis by (simp add: w')
qed

text \<open>C4: a restart loses nothing that was saved. When the state of a role was saved without an
  error, and after a restart, with nothing in memory and the same files on disk, the role is
  opened and the suffix loaded without an error, then the tree, the current case of every channel
  and the watermark of every channel of that suffix are what they were.\<close>

theorem save_restart_roundtrip:
  assumes "role_ok (w_state w)" and "save_state h re w = (Inr (), w1)"
    and "w_roles w2 = []" and "disk w2 = disk w1"
    and "open_role h w2 = (Inr (), w3)" and "locked h (ensure_role_event h re) w3 = (Inr (), w4)"
  shows "\<exists>st. hm_get (w_roles w4) h = Some st \<and> rs_tree st = rs_tree (w_state w) \<and>
    (\<forall>c. current_case re c st = current_case re c (w_state w) \<and> watermark_of re c st = watermark_of re c (w_state w))"
proof -
  have ok: "tree_ok (rs_tree (w_state w))" "bm_ok (rs_current_cases (w_state w))" "bm_ok (rs_watermarks (w_state w))"
    using assms(1) by (simp_all add: role_ok_def)
  note files = save_state_files [OF assms(2)]
  have disk: "w_trees w2 = w_trees w1" "w_currents w2 = w_currents w1" "w_marks w2 = w_marks w1"
    using assms(4) by (simp_all add: disk_def)
  have "hm_get (w_roles w2) h = None" using assms(3) by simp
  from open_role_loads [OF assms(5) this] files(1) disk obtain st where st: "hm_get (w_roles w3) h = Some st"
    and loaded: "rs_tree st = tree_from_nodes (tree_file (rs_tree (w_state w)))" "rs_current_cases st = []" "rs_watermarks st = []"
      "rs_loaded st = {}" "w_currents w3 = w_currents w2" "w_marks w3 = w_marks w2" by auto
  from assms(6) st obtain w5 where load: "ensure_role_event h re (w3\<lparr>w_state := st\<rparr>) = (Inr (), w5)"
    and w4: "hm_get (w_roles w4) h = Some (w_state w5)" by (auto simp: locked_conv)
  let ?current = "if current_of re (w_state w) = [] then None else Some (current_of re (w_state w))"
  have "w_state w5 = st\<lparr>rs_loaded := {re}, rs_current_cases := load_pointers re (or_empty ?current) [],
      rs_watermarks := load_pointers re (watermarks_of re (w_state w)) []\<rparr>"
    using ensure_loads [OF load, of ?current "Some (watermarks_of re (w_state w))"] loaded disk files
    by (simp add: or_empty_def)
  moreover have "or_empty ?current = current_of re (w_state w)" by (simp add: or_empty_def)
  ultimately have st5: "w_state w5 = st\<lparr>rs_loaded := {re}, rs_current_cases := load_pointers re (current_of re (w_state w)) [],
      rs_watermarks := load_pointers re (watermarks_of re (w_state w)) []\<rparr>" by simp
  have "current_case re c (w_state w5) = current_case re c (w_state w)" for c
    using ok(2) by (simp add: st5 current_case_def get_load_pointers map_of_rev_distinct distinct_bm)
      (simp add: current_of_def bm_get_suffix split: option.split)
  moreover have "watermark_of re c (w_state w5) = watermark_of re c (w_state w)" for c
    using ok(3) by (simp add: st5 watermark_of_def get_load_pointers map_of_rev_distinct distinct_bm)
      (simp add: watermarks_of_def bm_get_suffix split: option.split)
  moreover have "rs_tree (w_state w5) = rs_tree (w_state w)"
    using tree_file_from_nodes [OF ok(1)] loaded(1) by (simp add: st5)
  ultimately show ?thesis using w4 by blast
qed

end
