(* ===== verification/Session_Spec.thy ===== *)
theory Session_Spec
  imports Llm_Model
begin

text \<open>
  What the sessions of the language model promise: the cache file mirrors the context, so a
  restart brings the same context back; reverting takes exactly the last messages; trimming
  bounds the context; the retry loop ends; and when session names and directory suffixes of
  different role events are different.
\<close>

section \<open>The cache and the context\<close>

lemma chat_steps_mirrored: "chat_step\<^sup>*\<^sup>* c c' \<Longrightarrow> quiet c \<Longrightarrow> mirrored c \<Longrightarrow> quiet c' \<and> mirrored c'"
  by (induction rule: rtranclp_induct) (auto dest: chat_step_mirrored)

text \<open>C12: as long as no file operation fails, a restart is invisible: whatever sequence of appends,
  new system messages, sends, reverts, resets and recoveries led to a context that has messages,
  the context that a fresh session recovers from the cache file sends the same messages.\<close>

theorem session_restart_invisible:
  assumes "chat_step\<^sup>*\<^sup>* c0 c" and "quiet c0" and "mirrored c0"
    and "sc_messages (ch_ctx c) \<noteq> []" and "recover_from_cache (restarted c) = (r, c')"
  shows "r = Inr () \<and> build (ch_ctx c') = build (ch_ctx c)"
  using chat_steps_mirrored [OF assms(1-3)] restart_recovers [OF _ _ assms(4,5)] by blast

definition sample_chat_files :: chat_files where
  "sample_chat_files = \<lparr>cf_cache = (\<lambda>_. None), cf_history = (\<lambda>_. None), cf_faults = [], cf_clock = (\<lambda>_. ''now''), cf_ticks = 0\<rparr>"

definition sample_chat :: chat where
  "sample_chat = \<lparr>ch_ctx = new_context ''/d'' ''s'', ch_files = sample_chat_files\<rparr>"

lemma sample_chat_ok: "quiet sample_chat" "mirrored sample_chat"
  by (simp_all add: sample_chat_def sample_chat_files_def quiet_def mirrored_def new_context_def cache_of_def)

theorem session_restart_invisible_witness:
  "\<exists>c c'. context_append [Msg_User ''hi''] sample_chat = (Inr (), c) \<and>
     recover_from_cache (restarted c) = (Inr (), c') \<and> build (ch_ctx c') = [Msg_User ''hi'']"
proof -
  obtain r c where c: "context_append [Msg_User ''hi''] sample_chat = (r, c)" by fastforce
  have messages: "r = Inr ()" "sc_messages (ch_ctx c) = [Msg_User ''hi'']" "sc_system (ch_ctx c) = None"
    using c by (simp_all add: quiet_append sample_chat_ok)
      (auto simp: sample_chat_def new_context_def)
  obtain r' c' where c': "recover_from_cache (restarted c) = (r', c')" by fastforce
  have "chat_step\<^sup>*\<^sup>* sample_chat c" using c by (blast intro: chat_step.append)
  from session_restart_invisible [OF this sample_chat_ok _ c'] messages c c' show ?thesis
    by (auto simp: build_def system_line_def)
qed

section \<open>Reverting\<close>

lemma revert_loop_count:
  "revert_loop (\<lambda>k m. if 0 < k then (False, k - 1) else (True, k)) ms n backup results c = (Inr (b, results'), c') \<Longrightarrow>
     length results' = length results + min n (length ms)"
proof (induction ms arbitrary: n backup results c)
  case (Cons m ms)
  show ?case
  proof (cases "0 < n")
    case True
    with Cons.prems obtain c1 c2 where
      "revert_loop (\<lambda>k m. if 0 < k then (False, k - 1) else (True, k)) ms (n - 1) True (m # results) c2 = (Inr (b, results'), c')"
      by (auto simp: bind_Inr_conv)
    from Cons.IH [OF this] True show ?thesis by (cases n; simp)
  qed (use Cons.prems in simp)
qed simp

text \<open>As long as no file operation fails, reverting \<open>n\<close> messages takes exactly the last
  \<open>n\<close>, or all when there are fewer, returns them in order, and leaves the cache in step.\<close>

theorem revert_takes_last:
  assumes "quiet c" and "mirrored c" and "revert n c = (r, c')"
  shows "r = Inr (drop (length (sc_messages (ch_ctx c)) - n) (sc_messages (ch_ctx c))) \<and>
    sc_messages (ch_ctx c') = take (length (sc_messages (ch_ctx c)) - n) (sc_messages (ch_ctx c)) \<and> mirrored c'"
proof -
  let ?ms = "sc_messages (ch_ctx c)"
  from revert_until_mirrored [OF assms(1,2) assms(3) [unfolded revert_def]] obtain reverted where
    r: "r = Inr reverted" and m: "mirrored c'" and all: "sc_messages (ch_ctx c') @ reverted = ?ms" by blast
  from assms(3) r obtain b c1 where
    "revert_loop (\<lambda>k m. if 0 < k then (False, k - 1) else (True, k)) (rev ?ms) n False [] c = (Inr (b, reverted), c1)"
    by (auto simp: revert_def revert_until_def bind_Inr_conv)
  from revert_loop_count [OF this] have "length reverted = min n (length ?ms)" by simp
  then have "length (sc_messages (ch_ctx c')) = length ?ms - n"
    using arg_cong [OF all, of length] by simp
  with all have "sc_messages (ch_ctx c') = take (length ?ms - n) ?ms \<and> reverted = drop (length ?ms - n) ?ms"
    by (metis append_eq_conv_conj)
  with r m show ?thesis by simp
qed

theorem revert_takes_last_witness:
  "revert 1 sample_chat = (Inr [], snd (revert 1 sample_chat))"
proof -
  obtain r c' where run: "revert 1 sample_chat = (r, c')" by fastforce
  from revert_takes_last [OF sample_chat_ok run] run show ?thesis by (simp add: sample_chat_def new_context_def)
qed

section \<open>Trimming\<close>

lemma not_system_filter: "filter (\<lambda>m. \<not> is_system m) (build ctx) = filter (\<lambda>m. \<not> is_system m) (sc_messages ctx)"
  by (simp add: build_def system_line_def split: option.split)

text \<open>As long as no file operation fails and the cache of a session is in step, trimming leaves
  at most \<open>limit\<close> messages besides the system message, and these are the last ones of the
  conversation.\<close>

theorem trim_bounds_context:
  assumes "hm_get (ls_sessions s) key = Some ctx" and "quiet \<lparr>ch_ctx = ctx, ch_files = ls_files s\<rparr>"
    and "mirrored \<lparr>ch_ctx = ctx, ch_files = ls_files s\<rparr>" and "trim_session limit key s = (r, s')"
  shows "\<exists>ctx'. hm_get (ls_sessions s') key = Some ctx' \<and>
    (let talk = filter (\<lambda>m. \<not> is_system m) (sc_messages ctx)
     in filter (\<lambda>m. \<not> is_system m) (sc_messages ctx') = drop (length talk - limit) talk)"
proof -
  let ?c = "\<lparr>ch_ctx = ctx, ch_files = ls_files s\<rparr>"
  let ?talk = "filter (\<lambda>m. \<not> is_system m) (sc_messages ctx)"
  obtain r1 c1 where 1: "apply_pending_system ?c = (r1, c1)" by fastforce
  from apply_pending_mirrored [OF assms(2,3) 1] have c1: "quiet c1" "sc_messages (ch_ctx c1) = sc_messages ctx" by simp_all
  let ?s1 = "s\<lparr>ls_sessions := hm_insert key (ch_ctx c1) (ls_sessions s), ls_files := ch_files c1\<rparr>"
  have build: "with_session key build_context s = (Inr (build (ch_ctx c1)), ?s1)"
    using assms(1) 1 by (simp add: with_session_def on_session_def bind_read build_context_def)
  have talk: "filter (\<lambda>m. \<not> is_system m) (build (ch_ctx c1)) = ?talk" by (simp add: not_system_filter c1)
  show ?thesis
  proof (cases "length ?talk \<le> limit")
    case True
    with assms(4) have "s' = ?s1" by (simp add: trim_session_def bind_act_def build talk Let_def)
    with True c1 show ?thesis by simp
  next
    case False
    let ?keep = "drop (length ?talk - limit) ?talk"
    obtain r2 c2 where 2: "archive_and_clear_cache_and_reset_messages (Some ?keep) c1 = (r2, c2)" by fastforce
    from reset_mirrored [OF c1(1) 2] have c2: "sc_messages (ch_ctx c2) = ?keep" by simp
    have c1_eq: "\<lparr>ch_ctx = ch_ctx c1, ch_files = ch_files c1\<rparr> = c1" by (cases c1) simp
    have reset: "with_session key (attempt (archive_and_clear_cache_and_reset_messages (Some ?keep))) ?s1 =
        (Inr (), ?s1\<lparr>ls_sessions := hm_insert key (ch_ctx c2) (ls_sessions ?s1), ls_files := ch_files c2\<rparr>)"
      using 2 by (simp add: with_session_def on_session_def bind_read attempt_def c1_eq)
    with assms(4) False have "s' = ?s1\<lparr>ls_sessions := hm_insert key (ch_ctx c2) (ls_sessions ?s1), ls_files := ch_files c2\<rparr>"
      by (simp add: trim_session_def bind_act_def build talk Let_def)
    moreover have "filter (\<lambda>m. \<not> is_system m) ?keep = ?keep"
      by (auto simp: filter_id_conv dest: in_set_dropD)
    ultimately show ?thesis using c2 by (simp add: Let_def)
  qed
qed

theorem trim_bounds_context_witness:
  "\<exists>ctx'. hm_get (ls_sessions (snd (trim_session 1 (AgentRole ''a'' ''d'', None)
       \<lparr>ls_sessions = [((AgentRole ''a'' ''d'', None), new_context ''/d'' ''s'')], ls_files = sample_chat_files, ls_provider = ()\<rparr>)))
     (AgentRole ''a'' ''d'', None) = Some ctx' \<and> filter (\<lambda>m. \<not> is_system m) (sc_messages ctx') = []"
proof -
  let ?s = "\<lparr>ls_sessions = [((AgentRole ''a'' ''d'', None), new_context ''/d'' ''s'')], ls_files = sample_chat_files, ls_provider = ()\<rparr>"
  let ?key = "(AgentRole ''a'' ''d'', None)"
  obtain r s' where run: "trim_session 1 ?key ?s = (r, s')" by fastforce
  have ok: "quiet \<lparr>ch_ctx = new_context ''/d'' ''s'', ch_files = ls_files ?s\<rparr>"
    "mirrored \<lparr>ch_ctx = new_context ''/d'' ''s'', ch_files = ls_files ?s\<rparr>"
    using sample_chat_ok by (simp_all add: sample_chat_def)
  have "hm_get (ls_sessions ?s) ?key = Some (new_context ''/d'' ''s'')" by simp
  from trim_bounds_context [OF this ok run] run show ?thesis by (simp add: new_context_def Let_def)
qed

section \<open>Retrying\<close>

text \<open>A provider that counts how often it is asked.\<close>

definition counting :: "('p, llm_error, 'a) action \<Rightarrow> (nat \<times> 'p, llm_error, 'a) action" where
  "counting send = (\<lambda>(k, p). case send p of (r, p') \<Rightarrow> (r, (Suc k, p')))"

lemma retry_loop_counting:
  "retry_loop n (counting send) e (k, p) = (r, (k', p')) \<Longrightarrow>
     k \<le> k' \<and> k' \<le> k + n \<and> (0 < n \<longrightarrow> k < k') \<and>
     (k' < k + n \<longrightarrow> r = Inl Llm_ModelProviderNotSupported \<or> (\<exists>x. r = Inr x))"
proof (induction n arbitrary: e k p)
  case (Suc n)
  obtain r1 p1 where 1: "send p = (r1, p1)" by fastforce
  show ?case
  proof (cases r1)
    case (Inl e1)
    show ?thesis
    proof (cases "e1 = Llm_ModelProviderNotSupported")
      case True
      with Suc.prems 1 Inl show ?thesis by (simp add: counting_def)
    next
      case False
      with Suc.prems 1 Inl have "retry_loop n (counting send) e1 (Suc k, p1) = (r, (k', p'))" by (simp add: counting_def)
      from Suc.IH [OF this] show ?thesis by auto
    qed
  next
    case (Inr x)
    with Suc.prems 1 have "k' = Suc k \<and> r = Inr x" by (simp add: counting_def)
    then show ?thesis by simp
  qed
qed simp

text \<open>C40: a request is sent at least once and at most \<open>retry_count + 1\<close> times; it stops before
  that only with an answer or because the provider is not supported, which no retry can mend.\<close>

theorem call_with_retry_bounded:
  assumes "call_with_retry retry_count (counting send) (0, p) = (r, (k, p'))"
  shows "1 \<le> k \<and> k \<le> retry_count + 1 \<and>
    (k \<le> retry_count \<longrightarrow> r = Inl Llm_ModelProviderNotSupported \<or> (\<exists>x. r = Inr x))"
  using retry_loop_counting [OF assms [unfolded call_with_retry_def]] by auto

theorem call_with_retry_bounded_witness:
  "call_with_retry 2 (counting (\<lambda>p :: nat. (if p = 1 then Inr ''ok'' else Inl Llm_ModelApiError, Suc p))) (0, 0) =
     (Inr ''ok'', (2, 2)) \<and> (2 :: nat) \<le> 2 + 1"
proof -
  have run: "call_with_retry 2 (counting (\<lambda>p :: nat. (if p = 1 then Inr ''ok'' else Inl Llm_ModelApiError, Suc p))) (0, 0) =
     (Inr ''ok'', (2, 2))"
    by (simp add: call_with_retry_def counting_def numeral_2_eq_2)
  from call_with_retry_bounded [OF this] run show ?thesis by simp
qed

section \<open>Names of role events\<close>

text \<open>The directory suffix determines the role event as long as no role name contains a dash.\<close>

theorem suffix_injective:
  assumes "role_event_suffix a = role_event_suffix b" and "CHR ''-'' \<notin> set (role_name a)" and "CHR ''-'' \<notin> set (role_name b)"
  shows "a = b"
  using assms by (simp add: role_event_suffix_inj)

theorem suffix_injective_witness:
  "role_event_suffix (RoleEvent ''dev'' (Some ''x'')) = ''dev-x'' \<and> RoleEvent ''dev'' (Some ''x'') = RoleEvent ''dev'' (Some ''x'')"
  using suffix_injective [of "RoleEvent ''dev'' (Some ''x'')" "RoleEvent ''dev'' (Some ''x'')"]
  by (simp add: role_event_suffix_def)

text \<open>With a dash in the role two role events share their directories, and two role events of
  different directories can share the session name, under which their conversations are kept.\<close>

theorem names_collide:
  "role_event_suffix (RoleEvent ''a'' (Some ''b-c'')) = role_event_suffix (RoleEvent ''a-b'' (Some ''c'')) \<and>
   role_event_suffix (RoleEvent ''a b'' None) \<noteq> role_event_suffix (RoleEvent ''a_b'' None) \<and>
   session_id (RoleEvent ''a b'' None) = session_id (RoleEvent ''a_b'' None)"
  by code_simp

end
