(* ===== verification/Sample_Runs.thy ===== *)
theory Sample_Runs
  imports Restart_Spec Tree_Spec
begin

text \<open>
  The theorems on the requests of the summary memory at work on the sample world: a first and a
  second trigger, a failing one, a locate request, a save and a restart.
\<close>

section \<open>Triggers\<close>

lemma sample_reachable: "service_reachable sample_archiver sample_world"
  by (rule service_reachable.start) (simp_all add: sample_world_def)

lemma sample_batch: "0 < av_max_batch sample_archiver"
  by (simp add: sample_archiver_def new_archiver_def)

lemma sample_covering: "covering (av_model sample_archiver)"
  by (auto simp: covering_def covers_all_def sample_archiver_def new_archiver_def stub_decision_model_def stub_group_run)

lemma sample_trigger:
  "manual_trigger sample_archiver sample_handle None sample_world = (Inr \<lparr>ao_archived = 3, ao_case_names = [''role-case'']\<rparr>, sample_done)"
  using sample_results(1) by (simp add: sample_done_def prod_eq_iff)

lemma sample_done_reachable: "service_reachable sample_archiver sample_done"
  by (rule service_reachable.step [OF sample_reachable service_step.trigger [OF sample_trigger]])

theorem manual_trigger_drains_witness:
  "\<exists>st'. hm_get (w_roles sample_done) sample_handle = Some st' \<and> \<not> is_dirty (RoleEvent ''d'' None) st'"
  using manual_trigger_drains [OF sample_reachable sample_trigger sample_batch]
  by (auto simp: role_event_of_def sample_handle_def)

lemma sample_second:
  "fst (manual_trigger sample_archiver sample_handle None sample_done) = Inr \<lparr>ao_archived = 0, ao_case_names = []\<rparr>"
  by code_simp

theorem second_trigger_idle_witness:
  "disk (snd (manual_trigger sample_archiver sample_handle None sample_done)) = disk sample_done"
proof -
  have run: "manual_trigger sample_archiver sample_handle None sample_done =
    (Inr \<lparr>ao_archived = 0, ao_case_names = []\<rparr>, snd (manual_trigger sample_archiver sample_handle None sample_done))"
    using sample_second by (simp add: prod_eq_iff)
  show ?thesis
    using second_trigger_idle [OF sample_reachable sample_trigger sample_batch refl refl sample_done_reachable run] by blast
qed

definition sample_loaded :: "stub_model world" where
  "sample_loaded = sample_world\<lparr>w_state := empty_role_state\<lparr>rs_loaded := {RoleEvent ''d'' None}\<rparr>\<rparr>"

lemma sample_pending:
  "fst (process_pending sample_archiver sample_handle None True [] sample_loaded) =
     Inr ([\<lparr>ao_archived = 3, ao_case_names = [''role-case'']\<rparr>], [])"
  by code_simp

theorem pending_archived_exactly_once_witness:
  "\<exists>asg. length asg = 3 \<and>
     (\<forall>c k. case_bodies (snd (process_pending sample_archiver sample_handle None True [] sample_loaded)) sample_handle c k =
        case_bodies sample_loaded sample_handle c k @ bodies_of k (assigned asg c))"
proof -
  have run: "process_pending sample_archiver sample_handle None True [] sample_loaded =
    (Inr ([\<lparr>ao_archived = 3, ao_case_names = [''role-case'']\<rparr>], []),
     snd (process_pending sample_archiver sample_handle None True [] sample_loaded))"
    using sample_pending by (simp add: prod_eq_iff)
  have loaded: "role_event_of sample_handle None \<in> rs_loaded (w_state sample_loaded)"
    by (simp add: sample_loaded_def role_event_of_def sample_handle_def)
  have ok: "tree_ok (rs_tree (w_state sample_loaded))"
    by (simp add: sample_loaded_def empty_role_state_def tree_ok_empty)
  show ?thesis
    using pending_archived_exactly_once [OF run loaded sample_batch ok sample_covering] by force
qed

theorem failed_trigger_keeps_marks_witness:
  "\<exists>st'. hm_get (w_roles (snd (manual_trigger sample_archiver sample_handle None
       (sample_done\<lparr>w_faults := [True]\<rparr>)))) sample_handle = Some st'"
proof -
  let ?w = "sample_done\<lparr>w_faults := [True]\<rparr>"
  obtain st where st: "hm_get (w_roles ?w) sample_handle = Some st"
    using sample_results(2) by (cases "w_roles sample_done") auto
  have "fst (manual_trigger sample_archiver sample_handle None ?w) = Inl IoError" by code_simp
  then have run: "manual_trigger sample_archiver sample_handle None ?w =
      (Inl IoError, snd (manual_trigger sample_archiver sample_handle None ?w))" by (simp add: prod_eq_iff)
  from failed_trigger_keeps_marks [OF run st] show ?thesis by blast
qed

section \<open>Locating\<close>

definition sample_request :: locate_request where
  "sample_request = \<lparr>lq_agent_id = ''a'', lq_role_event = RoleEvent ''d'' None, lq_messages =
     [\<lparr>lm_msg_id = ''5'', lm_time = ''5'', lm_user_name = ''U'', lm_is_self = 0, lm_messenger_id = ''web'',
       lm_self_user_id = ''bot'', lm_group_id = ''g'', lm_content = Content_Text ''yo''\<rparr>]\<rparr>"

definition sample_answer :: locate_response where
  "sample_answer = \<lparr>lr_cases = [\<lparr>lc_case_name = ''role-case'', lc_is_current = True\<rparr>],
     lr_groups = [\<lparr>lg_messages = [0], lg_case_name = ''role-case'', lg_is_current = True\<rparr>]\<rparr>"

lemma sample_locate: "fst (locate sample_archiver sample_request sample_world) = Inr sample_answer"
  by code_simp

theorem locate_covers_messages_witness:
  "mset (concat (map lg_messages (lr_groups sample_answer))) = {#0#}"
proof -
  have run: "locate sample_archiver sample_request sample_world =
      (Inr sample_answer, snd (locate sample_archiver sample_request sample_world))"
    using sample_locate by (simp add: prod_eq_iff)
  show ?thesis
    using locate_covers_messages [OF sample_reachable run sample_batch sample_covering] by (simp add: sample_request_def)
qed

section \<open>Trees and restarts\<close>


definition sample_saved :: "stub_model world" where
  "sample_saved = sample_world\<lparr>w_state := empty_role_state\<lparr>rs_tree := [(''role-case'', sample_node)],
     rs_current_cases := [((RoleEvent ''d'' None, sample_channel), ''role-case'')]\<rparr>\<rparr>"

theorem save_restart_roundtrip_witness:
  "\<exists>st. rs_tree st = [(''role-case'', sample_node)] \<and> current_case (RoleEvent ''d'' None) sample_channel st = Some ''role-case''"
proof -
  let ?re = "RoleEvent ''d'' None"
  let ?w1 = "snd (save_state sample_handle ?re sample_saved)"
  let ?w2 = "?w1\<lparr>w_roles := []\<rparr>"
  let ?w3 = "snd (open_role sample_handle ?w2)"
  have "role_ok (w_state sample_saved)"
  proof -
    have "role_ok (hd (map snd (w_roles sample_done)))" 
      using world_ok_get [OF service_reachable_ok [OF sample_done_reachable]] sample_results(2)
      by (cases "w_roles sample_done") auto
    then have "tree_ok [(''role-case'', sample_node)]"
      using sample_results(2) by (cases "w_roles sample_done") (auto simp: role_ok_def)
    then show ?thesis by (simp add: sample_saved_def role_ok_def empty_role_state_def)
  qed
  moreover have run1: "save_state sample_handle ?re sample_saved = (Inr (), ?w1)"
  proof -
    have "fst (save_state sample_handle ?re sample_saved) = Inr ()" by code_simp
    then show ?thesis by (simp add: prod_eq_iff)
  qed
  moreover have "open_role sample_handle ?w2 = (Inr (), ?w3)"
  proof -
    have "fst (open_role sample_handle ?w2) = Inr ()" by code_simp
    then show ?thesis by (simp add: prod_eq_iff)
  qed
  moreover have "locked sample_handle (ensure_role_event sample_handle ?re) ?w3 =
      (Inr (), snd (locked sample_handle (ensure_role_event sample_handle ?re) ?w3))"
  proof -
    have "fst (locked sample_handle (ensure_role_event sample_handle ?re) ?w3) = Inr ()" by code_simp
    then show ?thesis by (simp add: prod_eq_iff)
  qed
  ultimately obtain st where st: "rs_tree st = rs_tree (w_state sample_saved)"
    "\<forall>c. current_case ?re c st = current_case ?re c (w_state sample_saved)"
    using save_restart_roundtrip [of sample_saved sample_handle ?re ?w1 ?w2] by (auto simp: disk_def)
  then show ?thesis by (intro exI [of _ st]) (simp add: sample_saved_def current_case_def)
qed

section \<open>A damaged state file\<close>

text \<open>All three records of the sample are behind the watermark, but the pointer file is damaged.\<close>

definition sample_marks :: watermark where
  "sample_marks = default_watermark\<lparr>wm_channel := (''4'', 2), wm_think := (''4'', 1)\<rparr>"

definition sample_damaged :: "stub_model world" where
  "sample_damaged = sample_world\<lparr>w_currents := (\<lambda>_. Some Damaged),
     w_marks := (\<lambda>_. Some (Json_File [(sample_channel, sample_marks)]))\<rparr>"

text \<open>An error while the state files of a suffix are read is reported once and then forgotten:
  the suffix already counts as loaded. In a world where every record is behind the stored
  watermark and the pointer file is damaged, the first trigger fails and the second one archives
  all three records again.\<close>

theorem damaged_pointers_archive_twice:
  "fst (manual_trigger sample_archiver sample_handle None sample_damaged) = Inl (StateError ''damaged state file'') \<and>
   fst (manual_trigger sample_archiver sample_handle None
     (snd (manual_trigger sample_archiver sample_handle None sample_damaged))) =
     Inr \<lparr>ao_archived = 3, ao_case_names = [''role-case'']\<rparr>"
  by code_simp

end
