(* ===== verification/Channel_Types.thy ===== *)
theory Channel_Types
  imports Abstract_Types
begin

text \<open>
  \<open>kissbot-api/src/channel.rs\<close>: the identities and messages that travel between the channel
  server and the agent, and the binary header in front of a chunk of an attachment.
\<close>

section \<open>Identities and messages\<close>

datatype channel_user = ChannelUser (cu_messenger_id: string) (cu_user_id: string)

record outgoing_message =
  om_messenger_id :: string
  om_user_id :: string
  om_group_id :: string
  om_content :: content

record outgoing_message_response =
  or_msg_id :: string
  or_time :: string
  or_content :: content
  or_messenger_name :: string
  or_user_name :: string
  or_group_name :: string

record incoming_message =
  im_msg_id :: string
  im_messenger_id :: string
  im_user_id :: string
  im_group_id :: string
  im_messenger_name :: string
  im_user_name :: string
  im_group_name :: string
  im_content :: content
  im_time :: string

record incoming_message_event =
  ie_recipient_user_id :: string
  ie_incoming_message :: incoming_message

section \<open>Header of an attachment chunk\<close>

text \<open>
  The frame starts with the header of the WebSocket library, whose length is the argument
  \<open>base\<close>; numbers are big endian (\<open>from_be_bytes\<close>).
\<close>

type_synonym bytes = "8 word list"

record attachment_payload_header =
  ah_id :: "32 word"
  ah_size :: "32 word"
  ah_pos :: "64 word"

definition from_be_bytes :: "bytes \<Rightarrow> 'w :: len word" where
  "from_be_bytes bs = word_of_nat (foldl (\<lambda>n b. n * 256 + unat b) 0 bs)"

text \<open>\<open>data.get(from..from + n)\<close>.\<close>

definition get_range :: "bytes \<Rightarrow> nat \<Rightarrow> nat \<Rightarrow> bytes option" where
  "get_range d start n = (if start + n \<le> length d then Some (take n (drop start d)) else None)"

definition parse_attachment_payload_header :: "nat \<Rightarrow> bytes \<Rightarrow> attachment_payload_header option" where
  "parse_attachment_payload_header base d =
     (case get_range d base 4 of
        None \<Rightarrow> None
      | Some id_b \<Rightarrow>
          (case get_range d (base + 4) 4 of
             None \<Rightarrow> None
           | Some size_b \<Rightarrow>
               (case get_range d (base + 4 + 4) 8 of
                  None \<Rightarrow> None
                | Some pos_b \<Rightarrow>
                    Some \<lparr>ah_id = from_be_bytes id_b, ah_size = from_be_bytes size_b,
                      ah_pos = from_be_bytes pos_b\<rparr>)))"

text \<open>What a sender puts on the wire: \<open>to_be_bytes\<close> of an \<open>n\<close>-byte number.\<close>

fun to_be_nat :: "nat \<Rightarrow> nat \<Rightarrow> bytes" where
  "to_be_nat 0 v = []"
| "to_be_nat (Suc n) v = to_be_nat n (v div 256) @ [word_of_nat (v mod 256)]"

definition header_bytes :: "attachment_payload_header \<Rightarrow> bytes" where
  "header_bytes h = to_be_nat 4 (unat (ah_id h)) @ to_be_nat 4 (unat (ah_size h)) @ to_be_nat 8 (unat (ah_pos h))"

section \<open>Lemmas\<close>

lemma length_to_be_nat [simp]: "length (to_be_nat n v) = n"
  by (induction n arbitrary: v) simp_all

lemma be_nat_value: "foldl (\<lambda>n b. n * 256 + unat b) 0 (to_be_nat n v) = v mod 256 ^ n"
proof (induction n arbitrary: v)
  case (Suc n)
  have "v mod 256 ^ Suc n = 256 * (v div 256 mod 256 ^ n) + v mod 256"
    by (simp add: mod_mult2_eq)
  moreover have "unat (word_of_nat (v mod 256) :: 8 word) = v mod 256"
    by (simp add: unat_of_nat)
  ultimately show ?case by (simp add: Suc.IH)
qed simp

lemma be_roundtrip:
  "LENGTH('w :: len) \<le> 8 * n \<Longrightarrow> from_be_bytes (to_be_nat n (unat w)) = (w :: 'w word)"
proof -
  assume len: "LENGTH('w) \<le> 8 * n"
  have "unat w < 2 ^ LENGTH('w)" by (rule unsigned_less)
  also have "\<dots> \<le> 2 ^ (8 * n)" using len by (rule power_increasing) simp
  also have "\<dots> = 256 ^ n" by (simp add: power_mult)
  finally show ?thesis by (simp add: from_be_bytes_def be_nat_value)
qed

lemma parse_header_of_bytes:
  assumes "length front = base"
  shows "parse_attachment_payload_header base (front @ header_bytes h @ payload) = Some h"
  using assms by (simp add: parse_attachment_payload_header_def get_range_def header_bytes_def be_roundtrip)

lemma parse_header_too_short:
  "parse_attachment_payload_header base d = None \<longleftrightarrow> length d < base + 16"
  by (auto simp: parse_attachment_payload_header_def get_range_def)

end
