(* ===== verification/Agent_Message.thy ===== *)
theory Agent_Message
  imports Channel_Types Struct_Records Llm_Session
begin

text \<open>
  \<open>kissbot-agent/src/message.rs\<close>: how records and incoming events become the messages of a
  conversation with the model. \<open>conversation\<close> is the reference: it cuts the records into
  segments of one speaker and renders each segment once.
\<close>

section \<open>Text of a content\<close>

record message_content =
  mc_user_name :: string
  mc_content :: "string list"
  mc_is_self :: bool

fun collect_text_parts :: "content \<Rightarrow> string list \<Rightarrow> string list" where
  "collect_text_parts (Content_Text t) parts = parts @ [t]"
| "collect_text_parts (Content_Multi items) parts = fold collect_text_parts items parts"
| "collect_text_parts _ parts = parts"

definition extract_content :: "string \<Rightarrow> content \<Rightarrow> nat \<Rightarrow> message_content" where
  "extract_content user_name c is_self =
     \<lparr>mc_user_name = user_name, mc_content = collect_text_parts c [], mc_is_self = 0 < is_self\<rparr>"

definition user_line :: "string \<Rightarrow> string \<Rightarrow> string" where
  "user_line user_name t = (if user_name = [] then t else user_name @ '': '' @ t)"

section \<open>Packing\<close>

record packer =
  pk_out :: "chat_message list"
  pk_user_buf :: "string list"
  pk_asst_buf :: "string list"
  pk_is_asst :: bool
  pk_started :: bool

definition assistant_text :: "string \<Rightarrow> chat_message" where
  "assistant_text t = Msg_Assistant (JStr t) JNull JNull"

text \<open>The message of the segment that is being collected.\<close>

definition segment_message :: "packer \<Rightarrow> chat_message" where
  "segment_message p =
     (if pk_is_asst p then assistant_text (join newline (pk_asst_buf p))
      else Msg_User (join newline (pk_user_buf p)))"

definition switch_segment :: "bool \<Rightarrow> packer \<Rightarrow> packer" where
  "switch_segment is_self p =
     (if is_self \<noteq> pk_is_asst p
      then p\<lparr>pk_out := pk_out p @ [segment_message p], pk_user_buf := [], pk_asst_buf := [], pk_is_asst := is_self\<rparr>
      else p)"

definition push_line :: "message_content \<Rightarrow> packer \<Rightarrow> packer" where
  "push_line m p =
     (let t = join newline (mc_content m) in
      if mc_is_self m then p\<lparr>pk_asst_buf := pk_asst_buf p @ [t]\<rparr>
      else p\<lparr>pk_user_buf := pk_user_buf p @ [user_line (mc_user_name m) t]\<rparr>)"

definition pack_step :: "message_content \<Rightarrow> packer \<Rightarrow> packer" where
  "pack_step m p =
     (if mc_content m = [] then p
      else if \<not> pk_started p \<and> mc_is_self m then p
      else
        let p1 = (if pk_started p then p else p\<lparr>pk_started := True, pk_is_asst := False\<rparr>)
        in push_line m (switch_segment (mc_is_self m) p1))"

definition pack_finish :: "packer \<Rightarrow> chat_message list" where
  "pack_finish p =
     (if \<not> pk_started p then pk_out p
      else if pk_is_asst p then pk_out p @ [segment_message p]
      else pk_out p @ [segment_message p, assistant_text []])"

definition pack_memory_messages :: "message_content list \<Rightarrow> chat_message list" where
  "pack_memory_messages msgs =
     pack_finish (fold pack_step msgs
       \<lparr>pk_out = [], pk_user_buf = [], pk_asst_buf = [], pk_is_asst = False, pk_started = False\<rparr>)"

fun batch_lines :: "incoming_message_event list \<Rightarrow> string list" where
  "batch_lines [] = []"
| "batch_lines (e # es) =
     (let m = ie_incoming_message e; mc = extract_content (im_user_name m) (im_content m) 0 in
      if mc_content mc = [] then batch_lines es
      else user_line (mc_user_name mc) (join newline (mc_content mc)) # batch_lines es)"

definition pack_batch :: "incoming_message_event list \<Rightarrow> chat_message" where
  "pack_batch events = Msg_User (join newline (batch_lines events))"

section \<open>The reference\<close>

fun texts :: "content \<Rightarrow> string list" where
  "texts (Content_Text t) = [t]"
| "texts (Content_Multi items) = concat (map texts items)"
| "texts _ = []"

lemma length_dropWhile_less_Suc [termination_simp]: "length (dropWhile P xs) < Suc (length xs)"
  by (simp add: length_dropWhile_le less_Suc_eq_le)

fun segments :: "message_content list \<Rightarrow> message_content list list" where
  "segments [] = []"
| "segments (m # ms) =
     (m # takeWhile (\<lambda>x. mc_is_self x = mc_is_self m) ms) #
     segments (dropWhile (\<lambda>x. mc_is_self x = mc_is_self m) ms)"

definition line_of :: "message_content \<Rightarrow> string" where
  "line_of m = (let t = join newline (mc_content m) in
     if mc_is_self m then t else user_line (mc_user_name m) t)"

definition message_of_lines :: "bool \<Rightarrow> string list \<Rightarrow> chat_message" where
  "message_of_lines is_self ls =
     (if is_self then assistant_text (join newline ls) else Msg_User (join newline ls))"

definition spoken :: "message_content list \<Rightarrow> message_content list" where
  "spoken msgs = dropWhile mc_is_self (filter (\<lambda>m. mc_content m \<noteq> []) msgs)"

definition conversation :: "message_content list \<Rightarrow> chat_message list" where
  "conversation msgs =
     map (\<lambda>seg. message_of_lines (mc_is_self (hd seg)) (map line_of seg)) (segments (spoken msgs)) @
     (if spoken msgs \<noteq> [] \<and> \<not> mc_is_self (last (spoken msgs)) then [assistant_text []] else [])"

text \<open>A conversation the protocols accept: user and assistant in turn, the assistant last.\<close>

fun turns :: "chat_message list \<Rightarrow> bool" where
  "turns [] \<longleftrightarrow> True"
| "turns (Msg_User u # Msg_Assistant c r t # ms) \<longleftrightarrow> turns ms"
| "turns _ \<longleftrightarrow> False"

section \<open>Lemmas\<close>

lemma collect_text_parts_texts: "collect_text_parts c parts = parts @ texts c"
proof (induction c arbitrary: parts)
  case (Content_Multi items)
  have "fold collect_text_parts xs parts = parts @ concat (map texts xs)" if "set xs \<subseteq> set items" for xs parts
    using that Content_Multi.IH by (induction xs arbitrary: parts) auto
  then show ?case by simp
qed simp_all

fun tail_messages :: "bool \<Rightarrow> string list \<Rightarrow> message_content list \<Rightarrow> chat_message list" where
  "tail_messages b ls [] = (if b then [message_of_lines b ls] else [message_of_lines b ls, assistant_text []])"
| "tail_messages b ls (m # ms) =
     (if mc_is_self m = b then tail_messages b (ls @ [line_of m]) ms
      else message_of_lines b ls # tail_messages (mc_is_self m) [line_of m] ms)"

definition packing :: "chat_message list \<Rightarrow> bool \<Rightarrow> string list \<Rightarrow> packer" where
  "packing done_msgs b ls =
     \<lparr>pk_out = done_msgs, pk_user_buf = (if b then [] else ls), pk_asst_buf = (if b then ls else []),
      pk_is_asst = b, pk_started = True\<rparr>"

lemma segment_message_packing [simp]: "segment_message (packing done_msgs b ls) = message_of_lines b ls"
  by (simp add: segment_message_def packing_def message_of_lines_def)

lemma pack_step_packing:
  assumes "mc_content m \<noteq> []"
  shows "pack_step m (packing out b ls) =
    (if mc_is_self m = b then packing out b (ls @ [line_of m])
     else packing (out @ [message_of_lines b ls]) (mc_is_self m) [line_of m])"
  using assms by (cases b) (auto simp: pack_step_def packing_def switch_segment_def push_line_def
      line_of_def Let_def segment_message_def message_of_lines_def)

lemma pack_fold_packing:
  "pack_finish (fold pack_step ms (packing out b ls)) =
     out @ tail_messages b ls (filter (\<lambda>m. mc_content m \<noteq> []) ms)"
proof (induction ms arbitrary: out b ls)
  case Nil
  have "pk_is_asst (packing o' c l) = c" "pk_started (packing o' c l)" "pk_out (packing o' c l) = o'" for o' c l
    by (simp_all add: packing_def)
  then show ?case by (simp add: pack_finish_def)
next
  case (Cons m ms)
  show ?case
  proof (cases "mc_content m = []")
    case True
    with Cons.IH [of out b ls] show ?thesis by (simp add: pack_step_def)
  next
    case False
    with Cons.IH show ?thesis by (simp add: pack_step_packing)
  qed
qed

lemma tail_messages_segments:
  "tail_messages b ls ms =
     message_of_lines b (ls @ map line_of (takeWhile (\<lambda>m. mc_is_self m = b) ms)) #
     map (\<lambda>seg. message_of_lines (mc_is_self (hd seg)) (map line_of seg))
       (segments (dropWhile (\<lambda>m. mc_is_self m = b) ms)) @
     (if (if ms = [] then b else mc_is_self (last ms)) then [] else [assistant_text []])"
proof (induction b ls ms rule: tail_messages.induct)
  case (2 b ls m ms)
  then show ?case by (cases "mc_is_self m = b") auto
qed auto

lemma pack_before_start:
  "fold pack_step msgs \<lparr>pk_out = [], pk_user_buf = [], pk_asst_buf = [], pk_is_asst = False, pk_started = False\<rparr> =
     (case spoken msgs of
        [] \<Rightarrow> \<lparr>pk_out = [], pk_user_buf = [], pk_asst_buf = [], pk_is_asst = False, pk_started = False\<rparr>
      | m # ms \<Rightarrow> fold pack_step ms (packing [] False [line_of m]))"
  (is "fold pack_step msgs ?start = _")
proof (induction msgs)
  case Nil
  show ?case by (simp add: spoken_def)
next
  case (Cons m ms)
  show ?case
  proof (cases "mc_content m = [] \<or> mc_is_self m")
    case True
    then have "pack_step m ?start = ?start" by (auto simp: pack_step_def)
    moreover have "spoken (m # ms) = spoken ms" using True by (auto simp: spoken_def)
    ultimately show ?thesis using Cons.IH by simp
  next
    case False
    then have step: "pack_step m ?start = packing [] False [line_of m]"
      by (simp add: pack_step_def packing_def switch_segment_def push_line_def line_of_def Let_def)
    have skip: "fold pack_step ms p = fold pack_step (filter (\<lambda>m. mc_content m \<noteq> []) ms) p" for p
      by (induction ms arbitrary: p) (simp_all add: pack_step_def)
    from False have "spoken (m # ms) = m # filter (\<lambda>m. mc_content m \<noteq> []) ms" by (simp add: spoken_def)
    with step skip [of "packing [] False [line_of m]"] show ?thesis by simp
  qed
qed

lemma spoken_Cons: "spoken msgs = m # ms \<Longrightarrow> \<not> mc_is_self m"
  unfolding spoken_def by (metis hd_dropWhile list.distinct(1) list.sel(1))

lemma spoken_nonempty: "spoken msgs = ms \<Longrightarrow> m \<in> set ms \<Longrightarrow> mc_content m \<noteq> []"
  unfolding spoken_def by (auto dest: set_dropWhileD)

lemma pack_memory_messages_conversation: "pack_memory_messages msgs = conversation msgs"
proof (cases "spoken msgs")
  case Nil
  then show ?thesis by (simp add: pack_memory_messages_def pack_before_start conversation_def pack_finish_def)
next
  case (Cons m ms)
  have "filter (\<lambda>m. mc_content m \<noteq> []) ms = ms"
    using spoken_nonempty [OF Cons] by (intro filter_True ballI) simp
  then have "pack_memory_messages msgs = tail_messages False [line_of m] ms"
    using Cons by (simp add: pack_memory_messages_def pack_before_start pack_fold_packing)
  with spoken_Cons [OF Cons] Cons show ?thesis
    by (simp add: tail_messages_segments conversation_def)
qed

lemma turns_tail:
  "(\<not> b \<longrightarrow> turns (tail_messages b ls ms)) \<and>
   (b \<longrightarrow> turns (Msg_User u # tail_messages b ls ms))"
proof (induction b ls ms arbitrary: u rule: tail_messages.induct)
  case (1 b ls)
  then show ?case by (simp add: message_of_lines_def assistant_text_def)
next
  case (2 b ls m ms)
  then show ?case by (cases "mc_is_self m = b") (simp_all add: message_of_lines_def assistant_text_def)
qed

lemma pack_turns: "turns (pack_memory_messages msgs)"
proof (cases "spoken msgs")
  case Nil
  then show ?thesis by (simp add: pack_memory_messages_def pack_before_start pack_finish_def)
next
  case (Cons m ms)
  then have "pack_memory_messages msgs = tail_messages False [line_of m] (filter (\<lambda>m. mc_content m \<noteq> []) ms)"
    by (simp add: pack_memory_messages_def pack_before_start pack_fold_packing)
  with turns_tail [of False "[line_of m]"] show ?thesis by simp
qed

lemma pack_empty_iff: "pack_memory_messages msgs = [] \<longleftrightarrow> spoken msgs = []"
  by (cases "spoken msgs") (simp_all add: pack_memory_messages_conversation conversation_def)

lemma batch_lines_filter:
  "batch_lines events =
     map (\<lambda>e. user_line (im_user_name (ie_incoming_message e)) (join newline (texts (im_content (ie_incoming_message e)))))
       (filter (\<lambda>e. texts (im_content (ie_incoming_message e)) \<noteq> []) events)"
  by (induction events) (simp_all add: extract_content_def collect_text_parts_texts Let_def)

end
