(* ===== verification/Agent_Types.thy ===== *)
theory Agent_Types
  imports Agent_Message
begin

text \<open>
  The types of the agent (\<open>kissbot-agent/src/types/\<close>): its errors with their texts, the
  identity of a session, the requests it sends to the memory store, the tool calls and
  answers of \<open>kissbot-llm/src/types.rs\<close>, and the client of the summary memory
  (\<open>abstract_client.rs\<close>) over a parameter for the network.
\<close>

section \<open>Errors\<close>

text \<open>
  Errors of foreign crates carry their text, a \<open>PipelineNotFound\<close> the debug form of its session.
\<close>

datatype agent_error =
    AE_ConfigNotFound string
  | AE_ModelApiError string
  | AE_ModelProviderNotFound string string
  | AE_ModelProviderNotSupported string
  | AE_MemoryStoreError string
  | AE_MemoryTimeWindow string
  | AE_MemoryEgoError string
  | AE_AbstractError string
  | AE_InvalidCommand string
  | AE_IoError string
  | AE_ReqwestError string
  | AE_JsonError string
  | AE_FileError string
  | AE_WsError string
  | AE_McpError string
  | AE_InternalError string
  | AE_PipelineNotFound string string
  | AE_MultiError "agent_error list"

fun error_text :: "agent_error \<Rightarrow> string" where
  "error_text (AE_ConfigNotFound s) = ''Config not found: '' @ s"
| "error_text (AE_ModelApiError s) = ''Model API error: '' @ s"
| "error_text (AE_ModelProviderNotFound p m) = ''Model provider not found: '' @ p @ '' '' @ p"
| "error_text (AE_ModelProviderNotSupported s) = ''Model provider not supported: '' @ s"
| "error_text (AE_MemoryStoreError s) = ''Memory store error: '' @ s"
| "error_text (AE_MemoryTimeWindow s) = ''Memory time window error: '' @ s"
| "error_text (AE_MemoryEgoError s) = ''Memory ego error: '' @ s"
| "error_text (AE_AbstractError s) = ''Abstract memory error: '' @ s"
| "error_text (AE_InvalidCommand s) = ''Invalid command: '' @ s"
| "error_text (AE_IoError s) = ''IO error: '' @ s"
| "error_text (AE_ReqwestError s) = ''Reqwest error: '' @ s"
| "error_text (AE_JsonError s) = ''Serde JSON error: '' @ s"
| "error_text (AE_FileError s) = ''File error: '' @ s"
| "error_text (AE_WsError s) = ''WS error: '' @ s"
| "error_text (AE_McpError s) = ''MCP error: '' @ s"
| "error_text (AE_InternalError s) = ''Internal error: '' @ s"
| "error_text (AE_PipelineNotFound n k) = ''Pipeline '' @ n @ '' not found for session '' @ k"
| "error_text (AE_MultiError es) = ''Errors:'' @ newline @ join newline (map (\<lambda>e. ''  - '' @ error_text e) es)"

text \<open>The errors of \<open>kissbot-llm/src/error.rs\<close>, and what the agent turns them into.\<close>

datatype llm_failure =
    LF_ModelApiError string
  | LF_ModelProviderNotFound string string
  | LF_ModelProviderNotSupported string
  | LF_IoError string
  | LF_ReqwestError string
  | LF_JsonError string
  | LF_FileError string
  | LF_InternalError string

fun of_llm_failure :: "llm_failure \<Rightarrow> agent_error" where
  "of_llm_failure (LF_ModelApiError m) = AE_ModelApiError m"
| "of_llm_failure (LF_ModelProviderNotFound p m) = AE_ModelProviderNotFound p m"
| "of_llm_failure (LF_ModelProviderNotSupported m) = AE_ModelProviderNotSupported m"
| "of_llm_failure (LF_IoError e) = AE_IoError e"
| "of_llm_failure (LF_ReqwestError e) = AE_ReqwestError e"
| "of_llm_failure (LF_JsonError e) = AE_JsonError e"
| "of_llm_failure (LF_FileError e) = AE_FileError e"
| "of_llm_failure (LF_InternalError m) = AE_InternalError m"

type_synonym 'a agent_result = "agent_error + 'a"

section \<open>Sessions\<close>

datatype memory_key = MemoryKey (mk_agent_id: string) (mk_role_event: role_event)

datatype agent_session = Memory_Session memory_key | Raw_Session string

text \<open>\<open>MemoryKey::encode\<close>: the name of the files of the session.\<close>

definition encode :: "memory_key \<Rightarrow> string" where
  "encode k =
     (case event_id (mk_role_event k) of
        Some e \<Rightarrow> mk_agent_id k @ ''-'' @ role_name (mk_role_event k) @ ''-'' @ e
      | None \<Rightarrow> mk_agent_id k @ ''-'' @ role_name (mk_role_event k))"

section \<open>Tool calls and answers of the model\<close>

record tool_call =
  tl_id :: string
  tl_name :: string
  tl_arguments :: json
  tl_result_arguments :: "json option"
  tl_result :: "content_block list option"

record tool_config =
  tg_name :: string
  tg_description :: string
  tg_parameters :: json

record llm_response =
  lr_raw_content :: json
  lr_content :: "string option"
  lr_thinking :: "string option"
  lr_raw_reasoning_content :: json
  lr_reasoning_content :: "string option"
  lr_raw_tool_calls :: json
  lr_tool_calls :: "tool_call list option"
  lr_finish_reason :: "string option"
  lr_total_tokens :: "64 word"

section \<open>Requests to the memory store\<close>

text \<open>The argument \<open>time\<close> is the reading of the clock (\<open>now()\<close>).\<close>

definition build_memory_think ::
  "string \<Rightarrow> memory_key \<Rightarrow> string \<Rightarrow> string option \<Rightarrow> string option \<Rightarrow> think_request" where
  "build_memory_think time k key reasoning thinking =
     \<lparr>tkq_agent_id = mk_agent_id k, tkq_role_event = mk_role_event k, tkq_reasoning_content = reasoning,
      tkq_thinking = thinking, tkq_key = key, tkq_time = time\<rparr>"

definition build_memory_tool_call :: "string \<Rightarrow> memory_key \<Rightarrow> string \<Rightarrow> tool_call \<Rightarrow> tool_call_request" where
  "build_memory_tool_call time k key c =
     (let params = (case tl_result_arguments c of Some p \<Rightarrow> p | None \<Rightarrow> tl_arguments c) in
     \<lparr>tcq_agent_id = mk_agent_id k, tcq_role_event = mk_role_event k, tcq_tool_name = tl_name c,
      tcq_tool_params = params, tcq_key = key, tcq_time = time\<rparr>)"

definition build_memory_tool_result :: "string \<Rightarrow> memory_key \<Rightarrow> string \<Rightarrow> tool_call \<Rightarrow> tool_result_request" where
  "build_memory_tool_result time k key c =
     \<lparr>trq_agent_id = mk_agent_id k, trq_role_event = mk_role_event k, trq_tool_result = tl_result c,
      trq_key = key, trq_time = time\<rparr>"

section \<open>The client of the summary memory\<close>

record 'a api_response =
  ap_success :: bool
  ap_data :: "'a option"
  ap_error :: "string option"

definition api_success :: "'a \<Rightarrow> 'a api_response" where
  "api_success x = \<lparr>ap_success = True, ap_data = Some x, ap_error = None\<rparr>"

definition api_failure :: "string \<Rightarrow> 'a api_response" where
  "api_failure m = \<lparr>ap_success = False, ap_data = None, ap_error = Some m\<rparr>"

text \<open>What sending a request may come to: no answer, an answer that is no envelope, an envelope.\<close>

datatype 'a sent = Not_Sent string | Not_Parsed string | Envelope "'a api_response"

definition post_request :: "string \<Rightarrow> (string \<Rightarrow> 'q \<Rightarrow> 'a sent) \<Rightarrow> string \<Rightarrow> 'q \<Rightarrow> 'a agent_result" where
  "post_request base_url send path q =
     (if base_url = [] then Inl (AE_AbstractError (utf8 [230, 145, 152, 232, 166, 129, 232, 174, 176, 229, 191, 134, 230, 156, 170, 233, 133, 141, 231, 189, 174, 239, 188, 136] @ ''api.memory_struct_abstract_url '' @ utf8 [228, 184, 186, 231, 169, 186, 239, 188, 137]))
      else case send (base_url @ path) q of
        Not_Sent e \<Rightarrow> Inl (AE_AbstractError (path @ '' '' @ utf8 [232, 175, 183, 230, 177, 130, 229, 164, 177, 232, 180, 165] @ '': '' @ e))
      | Not_Parsed e \<Rightarrow> Inl (AE_AbstractError (path @ '' '' @ utf8 [229, 147, 141, 229, 186, 148, 232, 167, 163, 230, 158, 144, 229, 164, 177, 232, 180, 165] @ '': '' @ e))
      | Envelope r \<Rightarrow>
          (case ap_data r of
             Some x \<Rightarrow> Inr x
           | None \<Rightarrow> Inl (AE_AbstractError (path @ '' '' @ utf8 [232, 191, 148, 229, 155, 158, 229, 164, 177, 232, 180, 165] @ '': '' @ (case ap_error r of Some e \<Rightarrow> e | None \<Rightarrow> [])))))"

record abstract_network =
  an_locate :: "string \<Rightarrow> locate_request \<Rightarrow> locate_response sent"
  an_case_summary :: "string \<Rightarrow> string \<times> role_event \<times> string \<Rightarrow> case_node sent"
  an_records_tail :: "string \<Rightarrow> string \<times> role_event \<times> string \<times> 64 word \<Rightarrow> case_record list sent"

record abstract_client =
  ac_base_url :: string
  ac_network :: abstract_network

definition client_locate ::
  "abstract_client \<Rightarrow> string \<Rightarrow> role_event \<Rightarrow> locate_message list \<Rightarrow> locate_response agent_result" where
  "client_locate c agent_id re messages =
     post_request (ac_base_url c) (an_locate (ac_network c)) ''/abstract/locate''
       \<lparr>lq_agent_id = agent_id, lq_role_event = re, lq_messages = messages\<rparr>"

definition client_case_summary ::
  "abstract_client \<Rightarrow> string \<Rightarrow> role_event \<Rightarrow> string \<Rightarrow> case_node agent_result" where
  "client_case_summary c agent_id re case_name =
     post_request (ac_base_url c) (an_case_summary (ac_network c)) ''/abstract/case/summary'' (agent_id, re, case_name)"

definition client_case_records_tail ::
  "abstract_client \<Rightarrow> string \<Rightarrow> role_event \<Rightarrow> string \<Rightarrow> 64 word \<Rightarrow> case_record list agent_result" where
  "client_case_records_tail c agent_id re case_name n =
     post_request (ac_base_url c) (an_records_tail (ac_network c)) ''/abstract/case/records-tail''
       (agent_id, re, case_name, n)"

section \<open>Lemmas\<close>

lemma encode_inj:
  assumes "length (mk_agent_id a) = length (mk_agent_id b)"
    and "CHR ''-'' \<notin> set (role_name (mk_role_event a))" and "CHR ''-'' \<notin> set (role_name (mk_role_event b))"
    and eq: "encode a = encode b"
  shows "a = b"
proof -
  have enc: "encode k = mk_agent_id k @ ''-'' @ role_event_suffix (mk_role_event k)" for k
    by (simp add: encode_def role_event_suffix_def split: option.splits)
  from eq assms(1) have "mk_agent_id a = mk_agent_id b"
    and "role_event_suffix (mk_role_event a) = role_event_suffix (mk_role_event b)"
    by (simp_all add: enc)
  with role_event_suffix_inj [OF assms(2,3)] show ?thesis by (cases a; cases b) simp
qed

lemma encode_not_inj:
  "encode (MemoryKey a (RoleEvent (r @ ''-'' @ e) None)) = encode (MemoryKey a (RoleEvent r (Some e)))"
  by (simp add: encode_def)

end
