(* ===== verification/Session_Config.thy ===== *)
theory Session_Config
  imports Agent_Types
begin

text \<open>
  The settings of a session and how they are inherited: \<open>kissbot-llm/src/config.rs\<close>,
  \<open>kissbot-agent/src/configs/nexus_repo/\<close> (\<open>pipeline_config.rs\<close>, \<open>session_config.rs\<close>) and the merge
  traits of \<open>kissbot-api/src/common.rs\<close>. A kind of settings is a record of its operations; the
  laws of the traits are the locales \<open>mergeable\<close> and \<open>session_kind\<close>, interpreted for the seven
  kinds of the code. Floats are kept as their bits.
\<close>

section \<open>Model parameters of a provider\<close>

record provider_config =
  pc_provider_type :: string
  pc_base_url :: string
  pc_api_key :: string

record model_config =
  mc_max_tokens_usage :: "32 word"
  mc_timeout_secs :: "64 word option"
  mc_retry_count :: "32 word option"

record effective_model_config =
  em_provider_config :: provider_config
  em_max_tokens_usage :: "32 word"
  em_timeout_secs :: "64 word"
  em_retry_count :: "32 word"

record provider_model_config =
  pm_provider_config :: provider_config
  pm_default_model_config :: model_config
  pm_model_configs :: "(string, model_config) hmap"

text \<open>\<open>if let Some(x) = other\<close>: the value of the other one, when there is one.\<close>

definition over :: "'a option \<Rightarrow> 'a option \<Rightarrow> 'a option" where
  "over old new = (case new of Some x \<Rightarrow> Some x | None \<Rightarrow> old)"

definition over_value :: "'a \<Rightarrow> 'a option \<Rightarrow> 'a" where
  "over_value old new = (case new of Some x \<Rightarrow> x | None \<Rightarrow> old)"

definition merge_model :: "model_config \<Rightarrow> model_config \<Rightarrow> model_config" where
  "merge_model c d =
     \<lparr>mc_max_tokens_usage = mc_max_tokens_usage d,
      mc_timeout_secs = over (mc_timeout_secs c) (mc_timeout_secs d),
      mc_retry_count = over (mc_retry_count c) (mc_retry_count d)\<rparr>"

definition new_effective_model :: "provider_config \<Rightarrow> effective_model_config" where
  "new_effective_model pc =
     \<lparr>em_provider_config = pc, em_max_tokens_usage = 0, em_timeout_secs = 60, em_retry_count = 3\<rparr>"

definition merge_effective_model :: "effective_model_config \<Rightarrow> model_config \<Rightarrow> effective_model_config" where
  "merge_effective_model e d =
     e\<lparr>em_max_tokens_usage := mc_max_tokens_usage d,
       em_timeout_secs := over_value (em_timeout_secs e) (mc_timeout_secs d),
       em_retry_count := over_value (em_retry_count e) (mc_retry_count d)\<rparr>"

definition provider_effective_config :: "provider_model_config \<Rightarrow> string \<Rightarrow> effective_model_config" where
  "provider_effective_config p model =
     (let config = (case hm_get (pm_model_configs p) model of
                      Some mc \<Rightarrow> merge_model (pm_default_model_config p) mc
                    | None \<Rightarrow> pm_default_model_config p)
      in merge_effective_model (new_effective_model (pm_provider_config p)) config)"

section \<open>Parameters of a request\<close>

record llm_settings =
  ls_provider_name :: "string option"
  ls_model :: "string option"
  ls_max_tokens :: "32 word option"
  ls_has_max_tokens :: bool
  ls_temperature :: "32 word option"
  ls_has_temperature :: bool
  ls_thinking :: "string option"
  ls_has_thinking :: bool
  ls_reasoning_effort :: "string option"
  ls_has_reasoning_effort :: bool

definition default_llm :: llm_settings where
  "default_llm =
     \<lparr>ls_provider_name = None, ls_model = None, ls_max_tokens = None, ls_has_max_tokens = False,
      ls_temperature = None, ls_has_temperature = False, ls_thinking = None, ls_has_thinking = False,
      ls_reasoning_effort = None, ls_has_reasoning_effort = False\<rparr>"

definition set_max_tokens :: "32 word option \<Rightarrow> llm_settings \<Rightarrow> llm_settings" where
  "set_max_tokens v c = c\<lparr>ls_max_tokens := v, ls_has_max_tokens := True\<rparr>"

definition unset_max_tokens :: "llm_settings \<Rightarrow> llm_settings" where
  "unset_max_tokens c = c\<lparr>ls_max_tokens := None, ls_has_max_tokens := False\<rparr>"

definition set_temperature :: "32 word option \<Rightarrow> llm_settings \<Rightarrow> llm_settings" where
  "set_temperature v c = c\<lparr>ls_temperature := v, ls_has_temperature := True\<rparr>"

definition unset_temperature :: "llm_settings \<Rightarrow> llm_settings" where
  "unset_temperature c = c\<lparr>ls_temperature := None, ls_has_temperature := False\<rparr>"

definition set_thinking :: "string option \<Rightarrow> llm_settings \<Rightarrow> llm_settings" where
  "set_thinking v c = c\<lparr>ls_thinking := v, ls_has_thinking := True\<rparr>"

definition unset_thinking :: "llm_settings \<Rightarrow> llm_settings" where
  "unset_thinking c = c\<lparr>ls_thinking := None, ls_has_thinking := False\<rparr>"

definition set_reasoning_effort :: "string option \<Rightarrow> llm_settings \<Rightarrow> llm_settings" where
  "set_reasoning_effort v c = c\<lparr>ls_reasoning_effort := v, ls_has_reasoning_effort := True\<rparr>"

definition unset_reasoning_effort :: "llm_settings \<Rightarrow> llm_settings" where
  "unset_reasoning_effort c = c\<lparr>ls_reasoning_effort := None, ls_has_reasoning_effort := False\<rparr>"

definition merge_llm :: "llm_settings \<Rightarrow> llm_settings \<Rightarrow> llm_settings" where
  "merge_llm c d =
     (let c1 = c\<lparr>ls_provider_name := over (ls_provider_name c) (ls_provider_name d),
                 ls_model := over (ls_model c) (ls_model d)\<rparr>;
          c2 = (if ls_has_max_tokens d then set_max_tokens (ls_max_tokens d) c1 else c1);
          c3 = (if ls_has_temperature d then set_temperature (ls_temperature d) c2 else c2);
          c4 = (if ls_has_thinking d then set_thinking (ls_thinking d) c3 else c3)
      in if ls_has_reasoning_effort d then set_reasoning_effort (ls_reasoning_effort d) c4 else c4)"

record effective_llm =
  el_provider :: string
  el_model :: string
  el_max_tokens :: "32 word option"
  el_temperature :: "32 word option"
  el_thinking :: "string option"
  el_reasoning_effort :: "string option"

definition new_effective_llm :: effective_llm where
  "new_effective_llm =
     \<lparr>el_provider = [], el_model = [], el_max_tokens = None, el_temperature = None, el_thinking = None,
      el_reasoning_effort = None\<rparr>"

definition merge_effective_llm :: "effective_llm \<Rightarrow> llm_settings \<Rightarrow> effective_llm" where
  "merge_effective_llm e d =
     \<lparr>el_provider = over_value (el_provider e) (ls_provider_name d),
      el_model = over_value (el_model e) (ls_model d),
      el_max_tokens = (if ls_has_max_tokens d then ls_max_tokens d else el_max_tokens e),
      el_temperature = (if ls_has_temperature d then ls_temperature d else el_temperature e),
      el_thinking = (if ls_has_thinking d then ls_thinking d else el_thinking e),
      el_reasoning_effort = (if ls_has_reasoning_effort d then ls_reasoning_effort d else el_reasoning_effort e)\<rparr>"

definition effective_of_llm :: "llm_settings \<Rightarrow> effective_llm" where
  "effective_of_llm c = merge_effective_llm new_effective_llm c"

section \<open>The other kinds of settings\<close>

record compress_settings =
  cp_compress_prompt :: "string option"
  cp_compress_threshold :: "64 word option"

definition merge_compress :: "compress_settings \<Rightarrow> compress_settings \<Rightarrow> compress_settings" where
  "merge_compress c d =
     \<lparr>cp_compress_prompt = over (cp_compress_prompt c) (cp_compress_prompt d),
      cp_compress_threshold = over (cp_compress_threshold c) (cp_compress_threshold d)\<rparr>"

definition default_compress_prompt :: string where
  "default_compress_prompt =
     utf8 [232, 175, 183, 231, 148, 168, 231, 174, 128, 230, 180, 129, 231, 154, 132, 232, 175,
       173, 232, 168, 128, 230, 128, 187, 231, 187, 147, 228, 187, 165, 228, 184, 138, 229, 175,
       185, 232, 175, 157, 231, 154, 132, 229, 133, 179, 233, 148, 174, 228, 191, 161, 230, 129,
       175, 239, 188, 140, 228, 191, 157, 231, 149, 153, 233, 135, 141, 232, 166, 129, 231, 187,
       134, 232, 138, 130, 227, 128, 129, 231, 187, 147, 232, 174, 186, 228, 184, 142, 230, 156,
       170, 229, 174, 140, 230, 136, 144, 228, 186, 139, 233, 161, 185, 239, 188, 140, 228, 190,
       155, 229, 144, 142, 231, 187, 173, 229, 175, 185, 232, 175, 157, 229, 143, 130, 232, 128,
       131, 227, 128, 130]"

text \<open>The double \<open>0.8\<close>.\<close>

definition default_compress_threshold :: "64 word" where
  "default_compress_threshold = 0x3FE999999999999A"

record effective_compress =
  ep_compress_prompt :: string
  ep_compress_threshold :: "64 word"

definition new_effective_compress :: effective_compress where
  "new_effective_compress =
     \<lparr>ep_compress_prompt = default_compress_prompt, ep_compress_threshold = default_compress_threshold\<rparr>"

definition merge_effective_compress :: "effective_compress \<Rightarrow> compress_settings \<Rightarrow> effective_compress" where
  "merge_effective_compress e d =
     \<lparr>ep_compress_prompt = over_value (ep_compress_prompt e) (cp_compress_prompt d),
      ep_compress_threshold = over_value (ep_compress_threshold e) (cp_compress_threshold d)\<rparr>"

definition effective_of_compress :: "compress_settings \<Rightarrow> effective_compress" where
  "effective_of_compress c = merge_effective_compress new_effective_compress c"

record recover_settings =
  rs_memory_time_secs :: "64 word option"
  rs_memory_count :: "64 word option"

definition merge_recover :: "recover_settings \<Rightarrow> recover_settings \<Rightarrow> recover_settings" where
  "merge_recover c d =
     \<lparr>rs_memory_time_secs = over (rs_memory_time_secs c) (rs_memory_time_secs d),
      rs_memory_count = over (rs_memory_count c) (rs_memory_count d)\<rparr>"

record effective_recover =
  er_memory_time_secs :: "64 word"
  er_memory_count :: "64 word"

definition new_effective_recover :: effective_recover where
  "new_effective_recover = \<lparr>er_memory_time_secs = 3600, er_memory_count = 50\<rparr>"

definition merge_effective_recover :: "effective_recover \<Rightarrow> recover_settings \<Rightarrow> effective_recover" where
  "merge_effective_recover e d =
     \<lparr>er_memory_time_secs = over_value (er_memory_time_secs e) (rs_memory_time_secs d),
      er_memory_count = over_value (er_memory_count e) (rs_memory_count d)\<rparr>"

definition effective_of_recover :: "recover_settings \<Rightarrow> effective_recover" where
  "effective_of_recover c = merge_effective_recover new_effective_recover c"

text \<open>The settings that are their own effective form: the batch interval (zero is unset), the
  outgoing channel, the set of tool groups and the name of the pipeline.\<close>

datatype batch_settings = Batch_Settings (channel_batch_interval_secs: "64 word")

definition merge_batch_settings :: "batch_settings \<Rightarrow> batch_settings \<Rightarrow> batch_settings" where
  "merge_batch_settings c d = (if channel_batch_interval_secs d \<noteq> 0 then d else c)"

definition new_batch_settings :: batch_settings where
  "new_batch_settings = Batch_Settings 3"

definition effective_of_batch :: "batch_settings \<Rightarrow> batch_settings" where
  "effective_of_batch c = merge_batch_settings new_batch_settings c"

record out_channel =
  oc_channel_id :: string
  oc_user :: channel_user
  oc_group_id :: string

datatype out_settings = Out_Settings (out_channel_of: "out_channel option")

definition merge_out :: "out_settings \<Rightarrow> out_settings \<Rightarrow> out_settings" where
  "merge_out c d = d"

datatype group_settings = Group_Settings (group_set: "string set")

definition merge_groups :: "group_settings \<Rightarrow> group_settings \<Rightarrow> group_settings" where
  "merge_groups c d = Group_Settings (group_set c \<union> group_set d)"

datatype pipeline_settings = Pipeline_Settings (pipeline_name: "string option")

definition merge_pipeline :: "pipeline_settings \<Rightarrow> pipeline_settings \<Rightarrow> pipeline_settings" where
  "merge_pipeline c d = Pipeline_Settings (over (pipeline_name c) (pipeline_name d))"

section \<open>The tables of settings\<close>

record merge_map =
  mm_llm :: "llm_settings option"
  mm_compress :: "compress_settings option"
  mm_memory_recover :: "recover_settings option"
  mm_channel_batch :: "batch_settings option"
  mm_out_channel :: "out_settings option"
  mm_group_set :: "group_settings option"
  mm_pipeline :: "pipeline_settings option"

definition empty_merge_map :: merge_map where
  "empty_merge_map =
     \<lparr>mm_llm = None, mm_compress = None, mm_memory_recover = None, mm_channel_batch = None,
      mm_out_channel = None, mm_group_set = None, mm_pipeline = None\<rparr>"

record session_map =
  sm_llm :: "effective_llm option"
  sm_compress :: "effective_compress option"
  sm_memory_recover :: "effective_recover option"
  sm_channel_batch :: "batch_settings option"
  sm_out_channel :: "out_settings option"
  sm_group_set :: "group_settings option"
  sm_pipeline :: "pipeline_settings option"

definition empty_session_map :: session_map where
  "empty_session_map =
     \<lparr>sm_llm = None, sm_compress = None, sm_memory_recover = None, sm_channel_batch = None,
      sm_out_channel = None, sm_group_set = None, sm_pipeline = None\<rparr>"

text \<open>
  The method tables of the traits \<open>MergeSelf\<close>, \<open>MergeEffectiveConfig\<close> and \<open>MergeBy\<close> of a kind of
  settings, and its fields in the two tables (\<open>OptionArcField\<close>).
\<close>

record ('c, 'e) settings_kind =
  k_default :: 'c
  k_merge :: "'c \<Rightarrow> 'c \<Rightarrow> 'c"
  k_effective :: "'c \<Rightarrow> 'e"
  k_merge_effective :: "'e \<Rightarrow> 'c \<Rightarrow> 'e"
  k_get :: "merge_map \<Rightarrow> 'c option"
  k_put :: "'c option \<Rightarrow> merge_map \<Rightarrow> merge_map"
  k_session_get :: "session_map \<Rightarrow> 'e option"
  k_session_put :: "'e option \<Rightarrow> session_map \<Rightarrow> session_map"

definition llm_kind :: "(llm_settings, effective_llm) settings_kind" where
  "llm_kind =
     \<lparr>k_default = default_llm, k_merge = merge_llm, k_effective = effective_of_llm,
      k_merge_effective = merge_effective_llm,
      k_get = mm_llm, k_put = (\<lambda>v m. m\<lparr>mm_llm := v\<rparr>),
      k_session_get = sm_llm, k_session_put = (\<lambda>v m. m\<lparr>sm_llm := v\<rparr>)\<rparr>"

definition compress_kind :: "(compress_settings, effective_compress) settings_kind" where
  "compress_kind =
     \<lparr>k_default = \<lparr>cp_compress_prompt = None, cp_compress_threshold = None\<rparr>, k_merge = merge_compress,
      k_effective = effective_of_compress, k_merge_effective = merge_effective_compress,
      k_get = mm_compress, k_put = (\<lambda>v m. m\<lparr>mm_compress := v\<rparr>),
      k_session_get = sm_compress, k_session_put = (\<lambda>v m. m\<lparr>sm_compress := v\<rparr>)\<rparr>"

definition recover_kind :: "(recover_settings, effective_recover) settings_kind" where
  "recover_kind =
     \<lparr>k_default = \<lparr>rs_memory_time_secs = None, rs_memory_count = None\<rparr>, k_merge = merge_recover,
      k_effective = effective_of_recover, k_merge_effective = merge_effective_recover,
      k_get = mm_memory_recover, k_put = (\<lambda>v m. m\<lparr>mm_memory_recover := v\<rparr>),
      k_session_get = sm_memory_recover, k_session_put = (\<lambda>v m. m\<lparr>sm_memory_recover := v\<rparr>)\<rparr>"

definition batch_kind :: "(batch_settings, batch_settings) settings_kind" where
  "batch_kind =
     \<lparr>k_default = Batch_Settings 0, k_merge = merge_batch_settings, k_effective = effective_of_batch,
      k_merge_effective = merge_batch_settings,
      k_get = mm_channel_batch, k_put = (\<lambda>v m. m\<lparr>mm_channel_batch := v\<rparr>),
      k_session_get = sm_channel_batch, k_session_put = (\<lambda>v m. m\<lparr>sm_channel_batch := v\<rparr>)\<rparr>"

definition out_kind :: "(out_settings, out_settings) settings_kind" where
  "out_kind =
     \<lparr>k_default = Out_Settings None, k_merge = merge_out, k_effective = (\<lambda>c. c),
      k_merge_effective = merge_out,
      k_get = mm_out_channel, k_put = (\<lambda>v m. m\<lparr>mm_out_channel := v\<rparr>),
      k_session_get = sm_out_channel, k_session_put = (\<lambda>v m. m\<lparr>sm_out_channel := v\<rparr>)\<rparr>"

definition group_kind :: "(group_settings, group_settings) settings_kind" where
  "group_kind =
     \<lparr>k_default = Group_Settings {}, k_merge = merge_groups, k_effective = (\<lambda>c. c),
      k_merge_effective = merge_groups,
      k_get = mm_group_set, k_put = (\<lambda>v m. m\<lparr>mm_group_set := v\<rparr>),
      k_session_get = sm_group_set, k_session_put = (\<lambda>v m. m\<lparr>sm_group_set := v\<rparr>)\<rparr>"

definition pipeline_kind :: "(pipeline_settings, pipeline_settings) settings_kind" where
  "pipeline_kind =
     \<lparr>k_default = Pipeline_Settings None, k_merge = merge_pipeline, k_effective = (\<lambda>c. c),
      k_merge_effective = merge_pipeline,
      k_get = mm_pipeline, k_put = (\<lambda>v m. m\<lparr>mm_pipeline := v\<rparr>),
      k_session_get = sm_pipeline, k_session_put = (\<lambda>v m. m\<lparr>sm_pipeline := v\<rparr>)\<rparr>"

section \<open>Operations on the tables\<close>

definition merge_map_set :: "('c, 'e) settings_kind \<Rightarrow> 'c \<Rightarrow> merge_map \<Rightarrow> merge_map" where
  "merge_map_set K config m =
     (let config' = (case k_get K m of Some old \<Rightarrow> k_merge K old config | None \<Rightarrow> config)
      in k_put K (Some config') m)"

record agent_role_config =
  ac_config_map :: merge_map
  ac_roles :: "(string, merge_map) hmap"

definition empty_agent_role_config :: agent_role_config where
  "empty_agent_role_config = \<lparr>ac_config_map = empty_merge_map, ac_roles = []\<rparr>"

definition merge_field :: "('c, 'e) settings_kind \<Rightarrow> merge_map \<Rightarrow> 'c \<Rightarrow> 'c" where
  "merge_field K m config = (case k_get K m of Some c \<Rightarrow> k_merge K config c | None \<Rightarrow> config)"

definition build_config :: "('c, 'e) settings_kind \<Rightarrow> string \<Rightarrow> agent_role_config \<Rightarrow> 'c" where
  "build_config K role a =
     (let config = merge_field K (ac_config_map a) (k_default K)
      in case hm_get (ac_roles a) role of Some m \<Rightarrow> merge_field K m config | None \<Rightarrow> config)"

definition set_config :: "('c, 'e) settings_kind \<Rightarrow> string \<Rightarrow> 'c \<Rightarrow> agent_role_config \<Rightarrow> agent_role_config" where
  "set_config K role config a =
     (if role = [] then a\<lparr>ac_config_map := merge_map_set K config (ac_config_map a)\<rparr>
      else
        let m = (case hm_get (ac_roles a) role of
                   Some m \<Rightarrow> merge_map_set K config m
                 | None \<Rightarrow> k_put K (Some config) empty_merge_map)
        in a\<lparr>ac_roles := hm_insert role m (hm_remove role (ac_roles a))\<rparr>)"

definition create_by_agent_role ::
  "('c, 'e) settings_kind \<Rightarrow> (string, agent_role_config) hmap \<Rightarrow> memory_key \<Rightarrow> 'e" where
  "create_by_agent_role K agents k =
     k_effective K
       (case hm_get agents (mk_agent_id k) of
          Some a \<Rightarrow> build_config K (role_name (mk_role_event k)) a
        | None \<Rightarrow> k_default K)"

definition get_or_insert :: "('c, 'e) settings_kind \<Rightarrow> 'e \<Rightarrow> session_map \<Rightarrow> 'e \<times> session_map" where
  "get_or_insert K config m =
     (case k_session_get K m of Some c \<Rightarrow> (c, m) | None \<Rightarrow> (config, k_session_put K (Some config) m))"

definition merge_or_insert_with :: "('c, 'e) settings_kind \<Rightarrow> 'c \<Rightarrow> 'e \<Rightarrow> session_map \<Rightarrow> session_map" where
  "merge_or_insert_with K config created m =
     (let e = (case k_session_get K m of Some e \<Rightarrow> e | None \<Rightarrow> created)
      in k_session_put K (Some (k_merge_effective K e config)) m)"

section \<open>The laws of the traits\<close>

lemma over_simps [simp]:
  "over a None = a" "over a (Some x) = Some x" "over_value v None = v" "over_value v (Some x) = x"
  by (simp_all add: over_def over_value_def)

lemma over_assoc [simp]: "over (over a b) c = over a (over b c)"
  by (simp add: over_def split: option.splits)

lemma over_value_over [simp]: "over_value v (over b c) = over_value (over_value v b) c"
  by (simp add: over_def over_value_def split: option.splits)

locale mergeable =
  fixes merge :: "'c \<Rightarrow> 'c \<Rightarrow> 'c"
    and effective :: "'c \<Rightarrow> 'e"
    and merge_effective :: "'e \<Rightarrow> 'c \<Rightarrow> 'e"
  assumes merge_assoc: "merge (merge a b) c = merge a (merge b c)"
    and merge_effective_merge: "merge_effective (merge_effective e a) b = merge_effective e (merge a b)"
    and effective_merge: "effective (merge a b) = merge_effective (effective a) b"
begin

lemma effective_fold: "effective (fold (\<lambda>c a. merge a c) cs a) = fold (\<lambda>c e. merge_effective e c) cs (effective a)"
  by (induction cs arbitrary: a) (simp_all add: effective_merge)

lemma merge_effective_fold:
  "merge_effective e (fold (\<lambda>c a. merge a c) cs a) = fold (\<lambda>c e. merge_effective e c) cs (merge_effective e a)"
  by (induction cs arbitrary: a) (simp_all add: merge_effective_merge)

end

locale session_kind = mergeable "k_merge K" "k_effective K" "k_merge_effective K"
  for K :: "('c, 'e) settings_kind" +
  assumes get_put: "k_get K (k_put K v m) = v"
    and session_get_put: "k_session_get K (k_session_put K w s) = w"
    and get_empty: "k_get K empty_merge_map = None"
    and session_get_empty: "k_session_get K empty_session_map = None"
begin

lemma merge_field_set: "merge_field K (merge_map_set K c m) a = k_merge K (merge_field K m a) c"
  by (simp add: merge_field_def merge_map_set_def get_put merge_assoc split: option.splits)

lemma merge_field_new: "merge_field K (k_put K (Some c) empty_merge_map) a = k_merge K a c"
  by (simp add: merge_field_def get_put)

text \<open>Setting a role's settings overlays what the role had; another role is not touched.\<close>

lemma build_set_role:
  assumes "role \<noteq> []"
  shows "build_config K r (set_config K role c a) =
    (if r = role then k_merge K (build_config K r a) c else build_config K r a)"
  using assms
  by (simp add: build_config_def set_config_def Let_def merge_field_set merge_field_new split: option.splits)

lemma build_set_agent:
  "hm_get (ac_roles a) r = None \<Longrightarrow> build_config K r (set_config K [] c a) = k_merge K (build_config K r a) c"
  by (simp add: build_config_def set_config_def Let_def merge_field_set)

text \<open>The layers of a role: the agent's settings and the role's, each when it is there.\<close>

definition layers :: "string \<Rightarrow> agent_role_config \<Rightarrow> 'c list" where
  "layers r a =
     (case k_get K (ac_config_map a) of Some c \<Rightarrow> [c] | None \<Rightarrow> []) @
     (case hm_get (ac_roles a) r of Some m \<Rightarrow> (case k_get K m of Some c \<Rightarrow> [c] | None \<Rightarrow> []) | None \<Rightarrow> [])"

lemma build_layers: "build_config K r a = fold (\<lambda>c b. k_merge K b c) (layers r a) (k_default K)"
  by (simp add: build_config_def layers_def merge_field_def Let_def split: option.splits)

lemma effective_layers:
  "k_effective K (build_config K r a) =
     fold (\<lambda>c e. k_merge_effective K e c) (layers r a) (k_effective K (k_default K))"
  by (simp add: build_layers effective_fold)

lemma get_or_insert_get:
  "get_or_insert K c m = (x, m') \<Longrightarrow>
   k_session_get K m' = Some x \<and> x = (case k_session_get K m of Some y \<Rightarrow> y | None \<Rightarrow> c)"
  by (auto simp: get_or_insert_def session_get_put split: option.splits)

lemma merge_or_insert_get:
  "k_session_get K (merge_or_insert_with K c e m) =
     Some (k_merge_effective K (case k_session_get K m of Some y \<Rightarrow> y | None \<Rightarrow> e) c)"
  by (simp add: merge_or_insert_with_def session_get_put Let_def)

end

lemmas small_defs = compress_kind_def merge_compress_def effective_of_compress_def merge_effective_compress_def
  recover_kind_def merge_recover_def effective_of_recover_def merge_effective_recover_def
  batch_kind_def merge_batch_settings_def effective_of_batch_def out_kind_def merge_out_def
  group_kind_def merge_groups_def pipeline_kind_def merge_pipeline_def

lemmas empty_defs = empty_merge_map_def empty_session_map_def

interpretation model: mergeable merge_model "\<lambda>c. merge_effective_model (new_effective_model pc) c" merge_effective_model
  for pc by unfold_locales (simp_all add: merge_model_def merge_effective_model_def)

text \<open>Merging request parameters, field by field.\<close>

lemma merge_llm_fields:
  "ls_provider_name (merge_llm c d) = over (ls_provider_name c) (ls_provider_name d)"
  "ls_model (merge_llm c d) = over (ls_model c) (ls_model d)"
  "ls_max_tokens (merge_llm c d) = (if ls_has_max_tokens d then ls_max_tokens d else ls_max_tokens c)"
  "ls_has_max_tokens (merge_llm c d) = (ls_has_max_tokens d \<or> ls_has_max_tokens c)"
  "ls_temperature (merge_llm c d) = (if ls_has_temperature d then ls_temperature d else ls_temperature c)"
  "ls_has_temperature (merge_llm c d) = (ls_has_temperature d \<or> ls_has_temperature c)"
  "ls_thinking (merge_llm c d) = (if ls_has_thinking d then ls_thinking d else ls_thinking c)"
  "ls_has_thinking (merge_llm c d) = (ls_has_thinking d \<or> ls_has_thinking c)"
  "ls_reasoning_effort (merge_llm c d) =
     (if ls_has_reasoning_effort d then ls_reasoning_effort d else ls_reasoning_effort c)"
  "ls_has_reasoning_effort (merge_llm c d) = (ls_has_reasoning_effort d \<or> ls_has_reasoning_effort c)"
  by (simp_all add: merge_llm_def set_max_tokens_def set_temperature_def set_thinking_def set_reasoning_effort_def Let_def)

lemma llm_kind_simps [simp]:
  "k_default llm_kind = default_llm" "k_merge llm_kind = merge_llm" "k_effective llm_kind = effective_of_llm"
  "k_merge_effective llm_kind = merge_effective_llm" "k_get llm_kind = mm_llm" "k_session_get llm_kind = sm_llm"
  by (simp_all add: llm_kind_def)

lemma effective_default_llm [simp]: "effective_of_llm default_llm = new_effective_llm"
  by (simp add: effective_of_llm_def merge_effective_llm_def new_effective_llm_def default_llm_def)

lemma merge_llm_assoc: "merge_llm (merge_llm a b) c = merge_llm a (merge_llm b c)"
  by (rule llm_settings.equality) (auto simp: merge_llm_fields)

lemma merge_effective_llm_merge:
  "merge_effective_llm (merge_effective_llm e a) b = merge_effective_llm e (merge_llm a b)"
  by (rule effective_llm.equality) (auto simp: merge_llm_fields merge_effective_llm_def)

interpretation llm: session_kind llm_kind
  by unfold_locales
    (simp_all add: llm_kind_def merge_llm_assoc merge_effective_llm_merge effective_of_llm_def empty_defs)

interpretation compress: session_kind compress_kind
  by unfold_locales (simp_all add: small_defs empty_defs)

interpretation recover: session_kind recover_kind
  by unfold_locales (simp_all add: small_defs empty_defs)

interpretation batch: session_kind batch_kind
  by unfold_locales (simp_all add: small_defs empty_defs)

interpretation out: session_kind out_kind
  by unfold_locales (simp_all add: small_defs empty_defs)

interpretation group: session_kind group_kind
  by unfold_locales (simp_all add: small_defs empty_defs Un_assoc)

interpretation pipeline: session_kind pipeline_kind
  by unfold_locales (simp_all add: small_defs empty_defs)

end
