(* ===== verification/Agent_Input.thy ===== *)
theory Agent_Input
  imports Session_Config
begin

text \<open>
  \<open>kissbot-agent/src/pipelines/abstract_input_processor.rs\<close>: incoming messages are collected
  per channel; a channel that has been silent for the timeout is flushed, which rebuilds the
  context of the session from the summary memory. Instants are milliseconds (\<^typ>\<open>nat\<close>).
\<close>

section \<open>Keys and messages\<close>

definition event_channel :: "incoming_message_event \<Rightarrow> channel_key" where
  "event_channel e =
     ChannelKey (im_messenger_id (ie_incoming_message e)) (ie_recipient_user_id e)
       (im_group_id (ie_incoming_message e))"

definition locate_message_of :: "incoming_message_event \<Rightarrow> locate_message" where
  "locate_message_of e =
     (let m = ie_incoming_message e in
     \<lparr>lm_msg_id = im_msg_id m, lm_time = im_time m, lm_user_name = im_user_name m, lm_is_self = 0,
      lm_messenger_id = im_messenger_id m, lm_self_user_id = ie_recipient_user_id e,
      lm_group_id = im_group_id m, lm_content = im_content m\<rparr>)"

type_synonym message_key = "string \<times> string \<times> string \<times> string"

definition message_key :: "string \<Rightarrow> string \<Rightarrow> string \<Rightarrow> string \<Rightarrow> message_key option" where
  "message_key messenger_id self_user_id group_id msg_id =
     (if msg_id = [] then None else Some (messenger_id, self_user_id, group_id, msg_id))"

definition new_message_key :: "incoming_message_event \<Rightarrow> message_key option" where
  "new_message_key e =
     (let m = ie_incoming_message e in
      message_key (im_messenger_id m) (ie_recipient_user_id e) (im_group_id m) (im_msg_id m))"

definition record_message_key :: "channel_record \<Rightarrow> message_key option" where
  "record_message_key r = message_key (cr_messenger_id r) (cr_self_user_id r) (cr_group_id r) (cr_msg_id r)"

section \<open>History\<close>

fun tail_loop :: "case_record list \<Rightarrow> (string \<times> nat) set \<Rightarrow> channel_record list \<Rightarrow> channel_record list" where
  "tail_loop [] seen records = records"
| "tail_loop (Body_Channel r # rs) seen records =
     (if (cr_time r, cr_sn r) \<in> seen then tail_loop rs seen records
      else tail_loop rs (insert (cr_time r, cr_sn r) seen) (records @ [r]))"
| "tail_loop (_ # rs) seen records = tail_loop rs seen records"

definition merge_tail_records :: "case_record list list \<Rightarrow> channel_record list" where
  "merge_tail_records tails = fold (\<lambda>tail. tail_loop tail {}) tails []"

fun history_loop :: "string \<Rightarrow> message_key set \<Rightarrow> channel_record list \<Rightarrow> message_content list \<Rightarrow> message_content list" where
  "history_loop cutoff new_keys [] history = history"
| "history_loop cutoff new_keys (r # rs) history =
     (if cr_time r < cutoff then history_loop cutoff new_keys rs history
      else
        let mc = extract_content (cr_user_name r) (cr_content r) (cr_is_self r) in
        if mc_content mc = [] then history_loop cutoff new_keys rs history
        else if (case record_message_key r of Some key \<Rightarrow> key \<in> new_keys | None \<Rightarrow> False)
        then history_loop cutoff new_keys rs history
        else history_loop cutoff new_keys rs (history @ [mc]))"

definition record_order :: "channel_record \<Rightarrow> string \<times> nat" where
  "record_order r = (cr_time r, cr_sn r)"

definition filter_history :: "channel_record list \<Rightarrow> string \<Rightarrow> message_key set \<Rightarrow> message_content list" where
  "filter_history records cutoff new_keys =
     history_loop cutoff new_keys (sort_key record_order records) []"

definition summary_title :: string where
  "summary_title = utf8 [227, 128, 144, 231, 155, 184, 229, 133, 179, 228, 184, 147, 230, 161, 136, 230, 145, 152, 232, 166, 129, 227, 128, 145]"

definition summary_block :: "string list \<Rightarrow> string" where
  "summary_block summaries =
     summary_title @ newline @ join newline (map (\<lambda>s. ''- '' @ s) summaries)"

definition compose_context :: "string list \<Rightarrow> message_content list \<Rightarrow> chat_message list" where
  "compose_context summaries history =
     (let messages = pack_memory_messages history in
      if summaries = [] then messages
      else let block = summary_block summaries in
        case messages of
          Msg_User c # ms \<Rightarrow> Msg_User (block @ newline @ newline @ c) # ms
        | _ \<Rightarrow> Msg_User block # messages)"

section \<open>Rebuilding the context\<close>

text \<open>The summaries and the tails of the cases; a case without a summary is left out.\<close>

fun gather_cases ::
  "abstract_client \<Rightarrow> memory_key \<Rightarrow> 64 word \<Rightarrow> located_case_ref list \<Rightarrow> string list \<Rightarrow> case_record list list \<Rightarrow>
   (string list \<times> case_record list list) agent_result" where
  "gather_cases client k n [] summaries tails = Inr (summaries, tails)"
| "gather_cases client k n (c # cs) summaries tails =
     (case client_case_summary client (mk_agent_id k) (mk_role_event k) (lc_case_name c) of
        Inl e \<Rightarrow> Inl e
      | Inr node \<Rightarrow>
          if cn_summary node = [] then gather_cases client k n cs summaries tails
          else
            (case client_case_records_tail client (mk_agent_id k) (mk_role_event k) (lc_case_name c) n of
               Inl e \<Rightarrow> Inl e
             | Inr tail \<Rightarrow> gather_cases client k n cs (summaries @ [cn_summary node]) (tails @ [tail])))"

definition new_keys_of :: "incoming_message_event list \<Rightarrow> message_key set" where
  "new_keys_of events = {k. Some k \<in> set (map new_message_key events)}"

text \<open>\<open>cutoff\<close> gives the text of the time that lies the seconds before now.\<close>

definition rebuild_context ::
  "memory_key \<Rightarrow> abstract_client \<Rightarrow> effective_recover \<Rightarrow> (64 word \<Rightarrow> string) \<Rightarrow> incoming_message_event list \<Rightarrow>
   chat_message list agent_result" where
  "rebuild_context k client cfg cutoff events =
     (case client_locate client (mk_agent_id k) (mk_role_event k) (map locate_message_of events) of
        Inl e \<Rightarrow> Inl e
      | Inr located \<Rightarrow>
          (case gather_cases client k (er_memory_count cfg) (lr_cases located) [] [] of
             Inl e \<Rightarrow> Inl e
           | Inr (summaries, tails) \<Rightarrow>
               Inr (compose_context summaries
                 (filter_history (merge_tail_records tails) (cutoff (er_memory_time_secs cfg))
                   (new_keys_of events)))))"

section \<open>The batches and the tick task\<close>

record pending_batch =
  pb_cases :: "incoming_message_event list"
  pb_last_at :: nat

record input_state =
  is_batches :: "(channel_key, pending_batch) hmap"
  is_session :: chat

text \<open>An operation of the task; the error is a panic, which ends the task.\<close>

datatype panic = Panicked

type_synonym 'a task = "(input_state, panic, 'a) action"

definition due_channels :: "nat \<Rightarrow> nat \<Rightarrow> (channel_key, pending_batch) hmap \<Rightarrow> channel_key list" where
  "due_channels now timeout batches = map fst (filter (\<lambda>(_, b). timeout \<le> now - pb_last_at b) batches)"

definition enqueue :: "nat \<Rightarrow> incoming_message_event \<Rightarrow> input_state \<Rightarrow> input_state" where
  "enqueue now e s =
     (let k = event_channel e;
          cases = (case hm_get (is_batches s) k of Some b \<Rightarrow> pb_cases b | None \<Rightarrow> [])
      in s\<lparr>is_batches := hm_insert k \<lparr>pb_cases = cases @ [e], pb_last_at = now\<rparr> (is_batches s)\<rparr>)"

text \<open>\<open>let _ = session.context_archive_and_clear_cache_and_reset_messages(..)\<close>.\<close>

definition reset_session :: "chat_message list \<Rightarrow> unit task" where
  "reset_session ms s =
     (case archive_and_clear_cache_and_reset_messages (Some ms) (is_session s) of
        (_, c) \<Rightarrow> (Inr (), s\<lparr>is_session := c\<rparr>))"

text \<open>The last statement of \<open>flush_batch\<close> is \<open>todo!()\<close>.\<close>

definition flush_batch :: "(incoming_message_event list \<Rightarrow> chat_message list agent_result) \<Rightarrow> incoming_message_event list \<Rightarrow> unit task" where
  "flush_batch rebuild events =
     bind_act (case rebuild events of Inr messages \<Rightarrow> reset_session messages | Inl e \<Rightarrow> ret ()) (\<lambda>_.
     fail Panicked)"

definition take_batch :: "channel_key \<Rightarrow> incoming_message_event list option task" where
  "take_batch k s =
     (case hm_get (is_batches s) k of
        None \<Rightarrow> (Inr None, s)
      | Some b \<Rightarrow> (Inr (Some (pb_cases b)), s\<lparr>is_batches := hm_remove k (is_batches s)\<rparr>))"

definition tick :: "(incoming_message_event list \<Rightarrow> chat_message list agent_result) \<Rightarrow> nat \<Rightarrow> nat \<Rightarrow> unit task" where
  "tick rebuild timeout now =
     bind_act (read_st is_batches) (\<lambda>batches.
       if batches = [] then ret ()
       else for_each (due_channels now timeout batches) (\<lambda>k.
         bind_act (take_batch k) (\<lambda>taken.
           case taken of None \<Rightarrow> ret () | Some events \<Rightarrow> flush_batch rebuild events)))"

section \<open>Lemmas\<close>

fun channel_part :: "case_record list \<Rightarrow> channel_record list" where
  "channel_part [] = []"
| "channel_part (Body_Channel r # rs) = r # channel_part rs"
| "channel_part (_ # rs) = channel_part rs"

text \<open>The first record of each position is kept.\<close>

fun first_of_each :: "(string \<times> nat) set \<Rightarrow> channel_record list \<Rightarrow> channel_record list" where
  "first_of_each seen [] = []"
| "first_of_each seen (r # rs) =
     (if record_order r \<in> seen then first_of_each seen rs
      else r # first_of_each (insert (record_order r) seen) rs)"

lemma tail_loop_first: "tail_loop rs seen records = records @ first_of_each seen (channel_part rs)"
  by (induction rs seen records rule: tail_loop.induct) (auto simp: record_order_def)

lemma merge_tail_records_eq:
  "merge_tail_records tails = concat (map (\<lambda>tail. first_of_each {} (channel_part tail)) tails)"
proof -
  have "fold (\<lambda>tail. tail_loop tail {}) tails acc =
      acc @ concat (map (\<lambda>tail. first_of_each {} (channel_part tail)) tails)" for acc
    by (induction tails arbitrary: acc) (simp_all add: tail_loop_first)
  then show ?thesis by (simp add: merge_tail_records_def)
qed

lemma first_of_each_set: "set (first_of_each seen rs) \<subseteq> set rs"
  by (induction seen rs rule: first_of_each.induct) auto

lemma first_of_each_covers:
  "record_order ` set (first_of_each seen rs) = record_order ` set rs - seen"
  by (induction seen rs rule: first_of_each.induct) auto

lemma first_of_each_distinct: "distinct (map record_order (first_of_each seen rs))"
proof (induction seen rs rule: first_of_each.induct)
  case (2 seen r rs)
  have "record_order r \<notin> record_order ` set (first_of_each (insert (record_order r) seen) rs)"
    by (simp add: first_of_each_covers)
  with 2 show ?case by simp
qed simp

text \<open>What the history keeps of a record.\<close>

definition recalled :: "string \<Rightarrow> message_key set \<Rightarrow> channel_record \<Rightarrow> bool" where
  "recalled cutoff new_keys r \<longleftrightarrow>
     cutoff \<le> cr_time r \<and> texts (cr_content r) \<noteq> [] \<and>
     (\<forall>key. record_message_key r = Some key \<longrightarrow> key \<notin> new_keys)"

definition recall :: "channel_record \<Rightarrow> message_content" where
  "recall r = extract_content (cr_user_name r) (cr_content r) (cr_is_self r)"

lemma history_loop_eq:
  "history_loop cutoff new_keys rs history = history @ map recall (filter (recalled cutoff new_keys) rs)"
  by (induction cutoff new_keys rs history rule: history_loop.induct)
    (auto simp: recalled_def recall_def extract_content_def collect_text_parts_texts Let_def split: option.splits)

lemma filter_history_eq:
  "filter_history records cutoff new_keys =
     map recall (filter (recalled cutoff new_keys) (sort_key record_order records))"
  by (simp add: filter_history_def history_loop_eq)

lemma pack_head: "pack_memory_messages msgs = m # ms \<Longrightarrow> \<exists>u. m = Msg_User u"
  using pack_turns [of msgs] by (cases m; cases ms) auto

lemma turns_user: "turns (Msg_User u # ms) = turns (Msg_User v # ms)"
proof (cases ms)
  case (Cons m ms')
  then show ?thesis by (cases m) simp_all
qed simp

lemma compose_turns:
  assumes "pack_memory_messages history \<noteq> []"
  shows "turns (compose_context summaries history)"
proof -
  from assms obtain u ms where 1: "pack_memory_messages history = Msg_User u # ms"
    by (metis list.exhaust pack_head)
  with pack_turns [of history] have "turns (Msg_User v # ms)" for v
    using turns_user [of v ms u] by simp
  with 1 show ?thesis by (simp add: compose_context_def Let_def)
qed

lemma compose_no_history:
  "pack_memory_messages history = [] \<Longrightarrow> summaries \<noteq> [] \<Longrightarrow>
   compose_context summaries history = [Msg_User (summary_block summaries)]"
  by (simp add: compose_context_def Let_def)

lemma enqueue_batch:
  "hm_get (is_batches (enqueue now e s)) k =
     (if k = event_channel e
      then Some \<lparr>pb_cases = (case hm_get (is_batches s) k of Some b \<Rightarrow> pb_cases b | None \<Rightarrow> []) @ [e], pb_last_at = now\<rparr>
      else hm_get (is_batches s) k)"
  by (simp add: enqueue_def Let_def)

lemma flush_batch_panics: "fst (flush_batch rebuild events s) = Inl Panicked"
  by (auto simp: flush_batch_def bind_act_def fail_def ret_def reset_session_def split: sum.splits prod.splits)

lemma flush_batch_batches: "is_batches (snd (flush_batch rebuild events s)) = is_batches s"
  by (auto simp: flush_batch_def bind_act_def fail_def ret_def reset_session_def split: sum.splits prod.splits)

lemma due_channels_get:
  assumes "hm_ok batches" and "k \<in> set (due_channels now timeout batches)"
  obtains b where "hm_get batches k = Some b" and "timeout \<le> now - pb_last_at b"
  using assms by (force simp: due_channels_def)

lemma tick_loses_batch:
  assumes "hm_ok (is_batches s)" and "due_channels now timeout (is_batches s) = k # ks"
  shows "fst (tick rebuild timeout now s) = Inl Panicked"
    and "is_batches (snd (tick rebuild timeout now s)) = hm_remove k (is_batches s)"
proof -
  from assms obtain b where b: "hm_get (is_batches s) k = Some b"
    by (metis due_channels_get list.set_intros(1))
  then have "is_batches s \<noteq> []" by auto
  let ?s = "s\<lparr>is_batches := hm_remove k (is_batches s)\<rparr>"
  let ?flush = "flush_batch rebuild (pb_cases b) ?s"
  have "tick rebuild timeout now s =
      (case ?flush of (Inl e, s') \<Rightarrow> (Inl e, s')
        | (Inr _, s') \<Rightarrow> for_each ks (\<lambda>k. bind_act (take_batch k) (\<lambda>taken.
            case taken of None \<Rightarrow> ret () | Some events \<Rightarrow> flush_batch rebuild events)) s')"
    using assms(2) b \<open>is_batches s \<noteq> []\<close>
    by (simp add: tick_def bind_read take_batch_def bind_act_def split: prod.splits sum.splits)
  also have "\<dots> = (Inl Panicked, snd ?flush)"
    using flush_batch_panics [of rebuild "pb_cases b" ?s] by (cases ?flush) simp
  finally show "fst (tick rebuild timeout now s) = Inl Panicked"
    and "is_batches (snd (tick rebuild timeout now s)) = hm_remove k (is_batches s)"
    by (simp_all add: flush_batch_batches)
qed

end
