(* ===== verification/Agent_Config.thy ===== *)
theory Agent_Config
  imports Session_Config
begin

text \<open>
  \<open>kissbot-agent/src/config_manager.rs\<close> with the repositories of \<open>configs/\<close>: the settings the
  agent keeps in memory and in \<open>nexus.json\<close>, \<open>station.json\<close>. A change is made in memory and then
  written; \<open>tokio::fs::write\<close> empties the file before it writes, so a failure in between
  leaves a damaged file. The state is extended by the other parts of the agent.
\<close>

section \<open>The repositories\<close>

definition reserved_agent_id :: string where
  "reserved_agent_id = ''0''"

definition reserved_role_name :: string where
  "reserved_role_name = []"

record channel_config =
  cg_channel_id :: string
  cg_ws_url :: string
  cg_admins :: "channel_user set"
  cg_bind_users :: "channel_user set"
  cg_agent_id :: string
  cg_role_name :: string
  cg_enabled :: bool

definition deserialize_agent_id :: "string \<Rightarrow> string" where
  "deserialize_agent_id s = (if s = [] then reserved_agent_id else s)"

record memory_struct_config =
  ms_name :: string
  ms_url :: string

record nexus_repo =
  nr_channels :: "(string, channel_config) hmap"
  nr_providers :: "(string, provider_model_config) hmap"
  nr_memory_structs :: "(string, memory_struct_config) hmap"
  nr_agent_roles :: "(string, agent_role_config) hmap"
  nr_memory_sessions :: "(memory_key, session_map) hmap"
  nr_raw_sessions :: "(string, session_map) hmap"

definition default_nexus_repo :: nexus_repo where
  "default_nexus_repo =
     \<lparr>nr_channels = [], nr_providers = [], nr_memory_structs = [], nr_agent_roles = [],
      nr_memory_sessions = [], nr_raw_sessions = []\<rparr>"

text \<open>What reading the file back makes of a repository that was written to it.\<close>

definition reread_nexus :: "nexus_repo \<Rightarrow> nexus_repo" where
  "reread_nexus r =
     r\<lparr>nr_channels := map (\<lambda>(k, c). (k, c\<lparr>cg_agent_id := deserialize_agent_id (cg_agent_id c)\<rparr>)) (nr_channels r)\<rparr>"

record sub_station_config =
  sc_station_id :: string
  sc_base_url :: string
  sc_timeout_secs :: "64 word"
  sc_prefix :: "string option"

record station_repo =
  sr_station_id :: string
  sr_groups :: "string list"
  sr_sub_stations :: "(string, sub_station_config) hmap"

definition default_station_repo :: station_repo where
  "default_station_repo = \<lparr>sr_station_id = [], sr_groups = [], sr_sub_stations = []\<rparr>"

section \<open>The state\<close>

record config_state =
  cs_nexus :: nexus_repo
  cs_station :: station_repo
  cs_nexus_file :: "nexus_repo json_file option"
  cs_station_file :: "station_repo json_file option"
  cs_faults :: "bool list"

type_synonym ('z, 'a) config_op = "('z config_state_scheme, agent_error, 'a) action"

definition disk_error :: agent_error where
  "disk_error = AE_IoError ''io''"

text \<open>One file operation; the next entry of the list of faults says whether it fails.\<close>

definition disk_step :: "('z, unit) config_op" where
  "disk_step s = (case cs_faults s of
      [] \<Rightarrow> (Inr (), s)
    | f # fs \<Rightarrow> (if f then Inl disk_error else Inr (), s\<lparr>cs_faults := fs\<rparr>))"

definition disk_skip :: "('z, unit) config_op" where
  "disk_skip s = (Inr (), snd (disk_step s))"

definition store_nexus :: "nexus_repo \<Rightarrow> ('z, unit) config_op" where
  "store_nexus r =
     bind_act disk_step (\<lambda>_.
     bind_act (modify_st (\<lambda>s. s\<lparr>cs_nexus_file := Some Damaged\<rparr>)) (\<lambda>_.
     bind_act disk_step (\<lambda>_.
     modify_st (\<lambda>s. s\<lparr>cs_nexus_file := Some (Json_File r)\<rparr>))))"

definition store_station :: "station_repo \<Rightarrow> ('z, unit) config_op" where
  "store_station r =
     bind_act disk_step (\<lambda>_.
     bind_act (modify_st (\<lambda>s. s\<lparr>cs_station_file := Some Damaged\<rparr>)) (\<lambda>_.
     bind_act disk_step (\<lambda>_.
     modify_st (\<lambda>s. s\<lparr>cs_station_file := Some (Json_File r)\<rparr>))))"

definition load_or_create_nexus :: "('z, nexus_repo) config_op" where
  "load_or_create_nexus =
     bind_act (read_st cs_nexus_file) (\<lambda>found.
       case found of
         Some content \<Rightarrow>
           bind_act disk_step (\<lambda>_.
             case content of Json_File r \<Rightarrow> ret (reread_nexus r) | Damaged \<Rightarrow> fail (AE_JsonError ''json''))
       | None \<Rightarrow>
           bind_act (store_nexus default_nexus_repo) (\<lambda>_. ret default_nexus_repo))"

definition load_or_create_station :: "('z, station_repo) config_op" where
  "load_or_create_station =
     bind_act (read_st cs_station_file) (\<lambda>found.
       case found of
         Some content \<Rightarrow>
           bind_act disk_step (\<lambda>_.
             case content of Json_File r \<Rightarrow> ret r | Damaged \<Rightarrow> fail (AE_JsonError ''json''))
       | None \<Rightarrow>
           bind_act (store_station default_station_repo) (\<lambda>_. ret default_station_repo))"

text \<open>\<open>ConfigManager::new\<close>: the directory, its three subdirectories, the two files.\<close>

definition config_new :: "('z, unit) config_op" where
  "config_new =
     bind_act disk_step (\<lambda>_.
     bind_act disk_skip (\<lambda>_. bind_act disk_skip (\<lambda>_. bind_act disk_skip (\<lambda>_.
     bind_act load_or_create_nexus (\<lambda>nexus.
     bind_act load_or_create_station (\<lambda>station.
     modify_st (\<lambda>s. s\<lparr>cs_nexus := nexus, cs_station := station\<rparr>)))))))"

text \<open>The closure works on the repository in memory, whatever it returns.\<close>

definition write_nexus_config :: "(nexus_repo, agent_error, 'a) action \<Rightarrow> ('z, 'a) config_op" where
  "write_nexus_config f s =
     (case f (cs_nexus s) of
        (Inl e, r) \<Rightarrow> (Inl e, s\<lparr>cs_nexus := r\<rparr>)
      | (Inr x, r) \<Rightarrow> bind_act (store_nexus r) (\<lambda>_. ret x) (s\<lparr>cs_nexus := r\<rparr>))"

section \<open>Channels\<close>

text \<open>\<open>write_key_value\<close>: the changed value, or nothing when the key is not there.\<close>

definition write_key_value :: "'k \<Rightarrow> ('v \<Rightarrow> 'v) \<Rightarrow> ('k, 'v) hmap \<Rightarrow> 'v option \<times> ('k, 'v) hmap" where
  "write_key_value k f m =
     (case hm_get m k of
        Some v \<Rightarrow> (Some (f v), hm_insert k (f v) (hm_remove k m))
      | None \<Rightarrow> (None, m))"

definition no_channel :: "string \<Rightarrow> agent_error" where
  "no_channel channel_id = AE_ConfigNotFound (''channel '' @ utf8 [228, 184, 141, 229, 173, 152, 229, 156, 168] @ '': '' @ channel_id)"

definition channels :: "'z config_state_scheme \<Rightarrow> (string \<times> channel_config) list" where
  "channels s = nr_channels (cs_nexus s)"

definition channel :: "string \<Rightarrow> 'z config_state_scheme \<Rightarrow> channel_config option" where
  "channel channel_id s = hm_get (nr_channels (cs_nexus s)) channel_id"

definition add_channel :: "channel_config \<Rightarrow> ('z, unit) config_op" where
  "add_channel ch = write_nexus_config (\<lambda>r.
     (Inr (), r\<lparr>nr_channels := hm_insert (cg_channel_id ch) ch (nr_channels r)\<rparr>))"

definition remove_channel :: "string \<Rightarrow> ('z, unit) config_op" where
  "remove_channel channel_id = write_nexus_config (\<lambda>r.
     (Inr (), r\<lparr>nr_channels := hm_remove channel_id (nr_channels r)\<rparr>))"

definition change_channel :: "string \<Rightarrow> (channel_config \<Rightarrow> channel_config) \<Rightarrow> (nexus_repo, agent_error, channel_config) action" where
  "change_channel channel_id f r =
     (case write_key_value channel_id f (nr_channels r) of
        (Some ch, m) \<Rightarrow> (Inr ch, r\<lparr>nr_channels := m\<rparr>)
      | (None, m) \<Rightarrow> (Inl (no_channel channel_id), r\<lparr>nr_channels := m\<rparr>))"

definition update_channel :: "string \<Rightarrow> (channel_config \<Rightarrow> channel_config) \<Rightarrow> ('z, channel_config) config_op" where
  "update_channel channel_id f = write_nexus_config (change_channel channel_id f)"

definition add_admin :: "string \<Rightarrow> channel_user \<Rightarrow> ('z, unit) config_op" where
  "add_admin channel_id admin =
     write_nexus_config (bind_act (change_channel channel_id (\<lambda>ch. ch\<lparr>cg_admins := insert admin (cg_admins ch)\<rparr>))
       (\<lambda>_. ret ()))"

definition remove_admin :: "string \<Rightarrow> channel_user \<Rightarrow> ('z, unit) config_op" where
  "remove_admin channel_id target =
     write_nexus_config (bind_act (change_channel channel_id (\<lambda>ch. ch\<lparr>cg_admins := cg_admins ch - {target}\<rparr>))
       (\<lambda>_. ret ()))"

section \<open>Providers\<close>

definition effective_provider_model :: "string \<Rightarrow> string \<Rightarrow> 'z config_state_scheme \<Rightarrow> effective_model_config option" where
  "effective_provider_model provider model s =
     map_option (\<lambda>p. provider_effective_config p model) (hm_get (nr_providers (cs_nexus s)) provider)"

definition provider_config_of :: "string \<Rightarrow> 'z config_state_scheme \<Rightarrow> provider_config option" where
  "provider_config_of name s = map_option pm_provider_config (hm_get (nr_providers (cs_nexus s)) name)"

definition add_provider :: "string \<Rightarrow> provider_model_config \<Rightarrow> ('z, unit) config_op" where
  "add_provider name cfg = write_nexus_config (\<lambda>r.
     if hm_get (nr_providers r) name \<noteq> None
     then (Inl (AE_ConfigNotFound (''provider '' @ utf8 [229, 183, 178, 229, 173, 152, 229, 156, 168] @ '': '' @ name)), r)
     else (Inr (), r\<lparr>nr_providers := hm_insert name cfg (nr_providers r)\<rparr>))"

definition remove_provider :: "string \<Rightarrow> ('z, unit) config_op" where
  "remove_provider name = write_nexus_config (\<lambda>r.
     if hm_get (nr_providers r) name = None
     then (Inl (AE_ConfigNotFound (''provider '' @ utf8 [228, 184, 141, 229, 173, 152, 229, 156, 168] @ '': '' @ name)), r)
     else (Inr (), r\<lparr>nr_providers := hm_remove name (nr_providers r)\<rparr>))"

definition memory_structs :: "'z config_state_scheme \<Rightarrow> memory_struct_config list" where
  "memory_structs s = map snd (nr_memory_structs (cs_nexus s))"

section \<open>Settings of sessions\<close>

text \<open>The settings of a session, made from the agent's and kept when they are asked for first.\<close>

definition cache_settings ::
  "('c, 'e) settings_kind \<Rightarrow> 'k \<Rightarrow> 'e \<Rightarrow> ('k, session_map) hmap \<Rightarrow> 'e \<times> ('k, session_map) hmap" where
  "cache_settings K k created sessions =
     (case hm_get sessions k of
        Some m \<Rightarrow> (case get_or_insert K created m of (c, m') \<Rightarrow> (c, hm_insert k m' (hm_remove k sessions)))
      | None \<Rightarrow> (created, hm_insert k (k_session_put K (Some created) empty_session_map) sessions))"

definition cached_settings :: "('c, 'e) settings_kind \<Rightarrow> 'k \<Rightarrow> ('k, session_map) hmap \<Rightarrow> 'e option" where
  "cached_settings K k sessions = (case hm_get sessions k of Some m \<Rightarrow> k_session_get K m | None \<Rightarrow> None)"

definition overlay_settings ::
  "('c, 'e) settings_kind \<Rightarrow> 'k \<Rightarrow> 'c \<Rightarrow> 'e \<Rightarrow> ('k, session_map) hmap \<Rightarrow> ('k, session_map) hmap" where
  "overlay_settings K k config created sessions =
     (case hm_get sessions k of
        Some m \<Rightarrow> hm_insert k (merge_or_insert_with K config created m) (hm_remove k sessions)
      | None \<Rightarrow>
          hm_insert k (k_session_put K (Some (k_merge_effective K created config)) empty_session_map) sessions)"

definition memory_session_config :: "('c, 'e) settings_kind \<Rightarrow> memory_key \<Rightarrow> ('z, 'e) config_op" where
  "memory_session_config K k s =
     (case cached_settings K k (nr_memory_sessions (cs_nexus s)) of
        Some c \<Rightarrow> (Inr c, s)
      | None \<Rightarrow>
          (let r = cs_nexus s;
               (c, m) = cache_settings K k (create_by_agent_role K (nr_agent_roles r) k) (nr_memory_sessions r)
           in (Inr c, s\<lparr>cs_nexus := r\<lparr>nr_memory_sessions := m\<rparr>\<rparr>)))"

definition raw_session_config :: "('c, 'e) settings_kind \<Rightarrow> string \<Rightarrow> ('z, 'e) config_op" where
  "raw_session_config K k s =
     (case cached_settings K k (nr_raw_sessions (cs_nexus s)) of
        Some c \<Rightarrow> (Inr c, s)
      | None \<Rightarrow>
          (let r = cs_nexus s;
               (c, m) = cache_settings K k (k_effective K (k_default K)) (nr_raw_sessions r)
           in (Inr c, s\<lparr>cs_nexus := r\<lparr>nr_raw_sessions := m\<rparr>\<rparr>)))"

definition set_memory_session_config :: "('c, 'e) settings_kind \<Rightarrow> memory_key \<Rightarrow> 'c \<Rightarrow> ('z, unit) config_op" where
  "set_memory_session_config K k config = write_nexus_config (\<lambda>r.
     (Inr (), r\<lparr>nr_memory_sessions :=
        overlay_settings K k config (create_by_agent_role K (nr_agent_roles r) k) (nr_memory_sessions r)\<rparr>))"

definition set_raw_session_config :: "('c, 'e) settings_kind \<Rightarrow> string \<Rightarrow> 'c \<Rightarrow> ('z, unit) config_op" where
  "set_raw_session_config K k config = write_nexus_config (\<lambda>r.
     (Inr (), r\<lparr>nr_raw_sessions :=
        overlay_settings K k config (k_effective K (k_default K)) (nr_raw_sessions r)\<rparr>))"

definition session_config :: "('c, 'e) settings_kind \<Rightarrow> agent_session \<Rightarrow> ('z, 'e) config_op" where
  "session_config K key =
     (case key of Memory_Session k \<Rightarrow> memory_session_config K k | Raw_Session i \<Rightarrow> raw_session_config K i)"

definition set_session_config :: "('c, 'e) settings_kind \<Rightarrow> agent_session \<Rightarrow> 'c \<Rightarrow> ('z, unit) config_op" where
  "set_session_config K key config =
     (case key of
        Memory_Session k \<Rightarrow> set_memory_session_config K k config
      | Raw_Session i \<Rightarrow> set_raw_session_config K i config)"

section \<open>Settings of agents and roles\<close>

definition set_agent_role_config :: "('c, 'e) settings_kind \<Rightarrow> string \<Rightarrow> string \<Rightarrow> 'c \<Rightarrow> ('z, unit) config_op" where
  "set_agent_role_config K agent_id role config = write_nexus_config (\<lambda>r.
     let a = (case hm_get (nr_agent_roles r) agent_id of Some a \<Rightarrow> a | None \<Rightarrow> empty_agent_role_config)
     in (Inr (), r\<lparr>nr_agent_roles :=
          hm_insert agent_id (set_config K role config a) (hm_remove agent_id (nr_agent_roles r))\<rparr>))"

definition agent_role_settings :: "('c, 'e) settings_kind \<Rightarrow> string \<Rightarrow> string \<Rightarrow> 'z config_state_scheme \<Rightarrow> 'c option" where
  "agent_role_settings K agent_id role s =
     map_option (build_config K role) (hm_get (nr_agent_roles (cs_nexus s)) agent_id)"

definition set_out_channel :: "string \<Rightarrow> string \<Rightarrow> out_channel option \<Rightarrow> ('z, unit) config_op" where
  "set_out_channel agent_id role out = set_agent_role_config out_kind agent_id role (Out_Settings out)"

definition out_channel_config :: "string \<Rightarrow> string \<Rightarrow> 'z config_state_scheme \<Rightarrow> out_channel option" where
  "out_channel_config agent_id role s =
     (case agent_role_settings out_kind agent_id role s of Some c \<Rightarrow> out_channel_of c | None \<Rightarrow> None)"

section \<open>What the file operations do\<close>

lemma disk_step_cases:
  obtains "disk_step s = (Inr (), s\<lparr>cs_faults := tl (cs_faults s)\<rparr>)"
  | "disk_step s = (Inl disk_error, s\<lparr>cs_faults := tl (cs_faults s)\<rparr>)"
proof (cases "cs_faults s")
  case Nil
  then have "disk_step s = (Inr (), s\<lparr>cs_faults := tl (cs_faults s)\<rparr>)" by (simp add: disk_step_def)
  then show ?thesis by (rule that)
next
  case (Cons f fs)
  then show ?thesis using that by (cases f) (simp_all add: disk_step_def)
qed

lemma disk_step_quiet [simp]: "cs_faults s = [] \<Longrightarrow> disk_step s = (Inr (), s)"
  by (simp add: disk_step_def)

lemma disk_skip_quiet [simp]: "cs_faults s = [] \<Longrightarrow> disk_skip s = (Inr (), s)"
  by (simp add: disk_skip_def)

lemma keeps_disk_step: "(\<And>s fs. f (s\<lparr>cs_faults := fs\<rparr>) = f s) \<Longrightarrow> keeps f disk_step"
  by (rule keepsI) (metis disk_step_cases snd_conv)

lemma keeps_disk_skip: "(\<And>s fs. f (s\<lparr>cs_faults := fs\<rparr>) = f s) \<Longrightarrow> keeps f disk_skip"
  by (rule keepsI) (metis disk_skip_def disk_step_cases snd_conv)

lemma keeps_store_nexus [keeps_intros]: "keeps cs_nexus (store_nexus r)" "keeps cs_station (store_nexus r)"
    "keeps cs_station_file (store_nexus r)"
  unfolding store_nexus_def by (intro keeps_intros keeps_disk_step keeps_modify_st; simp)+

lemma store_nexus_file:
  assumes "store_nexus r s = (x, s')"
  shows "cs_nexus_file s' \<in> {cs_nexus_file s, Some Damaged, Some (Json_File r)}"
    and "x = Inr () \<Longrightarrow> cs_nexus_file s' = Some (Json_File r)"
    and "x = Inl e \<Longrightarrow> e = disk_error"
proof -
  let ?s1 = "s\<lparr>cs_faults := tl (cs_faults s)\<rparr>"
  let ?s2 = "?s1\<lparr>cs_nexus_file := Some Damaged\<rparr>"
  have "cs_nexus_file s' \<in> {cs_nexus_file s, Some Damaged, Some (Json_File r)} \<and>
      (x = Inr () \<longrightarrow> cs_nexus_file s' = Some (Json_File r)) \<and> (x = Inl e \<longrightarrow> e = disk_error)"
  proof (cases s rule: disk_step_cases)
    case 1
    with assms show ?thesis
      by (cases ?s2 rule: disk_step_cases)
        (auto simp: store_nexus_def bind_act_def modify_st_def)
  next
    case 2
    with assms show ?thesis by (auto simp: store_nexus_def bind_act_def)
  qed
  then show "cs_nexus_file s' \<in> {cs_nexus_file s, Some Damaged, Some (Json_File r)}"
    and "x = Inr () \<Longrightarrow> cs_nexus_file s' = Some (Json_File r)"
    and "x = Inl e \<Longrightarrow> e = disk_error" by simp_all
qed

lemma write_config_Inr:
  assumes "write_nexus_config f s = (Inr x, s')"
  obtains "f (cs_nexus s) = (Inr x, cs_nexus s')" and "cs_nexus_file s' = Some (Json_File (cs_nexus s'))"
    and "cs_station_file s' = cs_station_file s"
proof -
  obtain q r where f: "f (cs_nexus s) = (q, r)" by (cases "f (cs_nexus s)")
  with assms have q: "q = Inr x" and st: "store_nexus r (s\<lparr>cs_nexus := r\<rparr>) = (Inr (), s')"
    by (auto simp: write_nexus_config_def bind_Inr_conv split: sum.splits)
  from keepsD [OF keeps_store_nexus(1) st] have n: "cs_nexus s' = r" by simp
  from keepsD [OF keeps_store_nexus(3) st] have st_file: "cs_station_file s' = cs_station_file s" by simp
  from store_nexus_file(2) [OF st] n have stored: "cs_nexus_file s' = Some (Json_File (cs_nexus s'))" by simp
  show thesis using f q n by (intro that stored st_file) simp
qed

lemma write_config_Inl:
  assumes "write_nexus_config f s = (Inl e, s')"
  obtains "f (cs_nexus s) = (Inl e, cs_nexus s')" and "s' = s\<lparr>cs_nexus := cs_nexus s'\<rparr>"
  | x where "f (cs_nexus s) = (Inr x, cs_nexus s')" and "e = disk_error"
    and "cs_nexus_file s' \<in> {cs_nexus_file s, Some Damaged, Some (Json_File (cs_nexus s'))}"
proof -
  obtain q r where f: "f (cs_nexus s) = (q, r)" by (cases "f (cs_nexus s)")
  show thesis
  proof (cases q)
    case (Inl a)
    with f assms have "a = e" "s' = s\<lparr>cs_nexus := r\<rparr>" by (simp_all add: write_nexus_config_def)
    with f Inl show ?thesis by (intro that(1)) simp_all
  next
    case (Inr x)
    with f assms have st: "store_nexus r (s\<lparr>cs_nexus := r\<rparr>) = (Inl e, s')"
      by (auto simp: write_nexus_config_def bind_Inl_conv)
    from keepsD [OF keeps_store_nexus(1) st] have "cs_nexus s' = r" by simp
    with f Inr store_nexus_file(1,3) [OF st] show ?thesis by (intro that(2)) auto
  qed
qed

section \<open>Settings of sessions\<close>

text \<open>What a session runs with: the settings kept for it, or the ones made for it now.\<close>

definition settings_of :: "('c, 'e) settings_kind \<Rightarrow> agent_session \<Rightarrow> nexus_repo \<Rightarrow> 'e" where
  "settings_of K key r =
     (case key of
        Memory_Session k \<Rightarrow>
          (case cached_settings K k (nr_memory_sessions r) of
             Some c \<Rightarrow> c | None \<Rightarrow> create_by_agent_role K (nr_agent_roles r) k)
      | Raw_Session i \<Rightarrow>
          (case cached_settings K i (nr_raw_sessions r) of Some c \<Rightarrow> c | None \<Rightarrow> k_effective K (k_default K)))"

context session_kind
begin

lemma cache_settings_fst:
  "cached_settings K k sessions = None \<Longrightarrow> fst (cache_settings K k c sessions) = c"
  by (auto simp: cached_settings_def cache_settings_def get_or_insert_def split: option.splits)

lemma cached_cache:
  "cached_settings K k sessions = None \<Longrightarrow> cached_settings K k (snd (cache_settings K k c sessions)) = Some c"
  by (auto simp: cached_settings_def cache_settings_def get_or_insert_def session_get_put split: option.splits)

lemma cached_overlay:
  "cached_settings K k' (overlay_settings K k c e sessions) =
     (if k' = k then Some (k_merge_effective K (case cached_settings K k sessions of Some x \<Rightarrow> x | None \<Rightarrow> e) c)
      else cached_settings K k' sessions)"
  by (auto simp: cached_settings_def overlay_settings_def merge_or_insert_get session_get_put split: option.splits)

lemma cached_cache_other:
  "k' \<noteq> k \<Longrightarrow> cached_settings K k' (snd (cache_settings K k c sessions)) = cached_settings K k' sessions"
  by (auto simp: cached_settings_def cache_settings_def get_or_insert_def split: option.splits prod.splits)

lemma session_config_settings:
  assumes "session_config K key s = (r, s')"
  shows "r = Inr (settings_of K key (cs_nexus s))"
    and "settings_of K key' (cs_nexus s') = settings_of K key' (cs_nexus s)"
proof -
  have "fst (session_config K key s) = Inr (settings_of K key (cs_nexus s)) \<and>
      settings_of K key' (cs_nexus (snd (session_config K key s))) = settings_of K key' (cs_nexus s)"
  proof (cases key)
    case (Memory_Session k)
    show ?thesis
    proof (cases "cached_settings K k (nr_memory_sessions (cs_nexus s))")
      case None
      let ?c = "create_by_agent_role K (nr_agent_roles (cs_nexus s)) k"
      have "settings_of K key' ((cs_nexus s)\<lparr>nr_memory_sessions :=
          snd (cache_settings K k ?c (nr_memory_sessions (cs_nexus s)))\<rparr>) = settings_of K key' (cs_nexus s)"
      proof (cases "key' = key")
        case True
        with Memory_Session None show ?thesis by (simp add: settings_of_def cached_cache)
      next
        case False
        with Memory_Session show ?thesis
          by (cases key') (simp_all add: settings_of_def cached_cache_other split: option.split)
      qed
      moreover have "session_config K key s = (Inr ?c, s\<lparr>cs_nexus := (cs_nexus s)\<lparr>nr_memory_sessions :=
          snd (cache_settings K k ?c (nr_memory_sessions (cs_nexus s)))\<rparr>\<rparr>)"
        using cache_settings_fst [OF None, of ?c] Memory_Session None
        by (cases "cache_settings K k ?c (nr_memory_sessions (cs_nexus s))")
          (simp add: session_config_def memory_session_config_def Let_def)
      ultimately show ?thesis using Memory_Session None by (simp add: settings_of_def [of K "Memory_Session k"])
    qed (simp add: Memory_Session session_config_def memory_session_config_def settings_of_def)
  next
    case (Raw_Session i)
    show ?thesis
    proof (cases "cached_settings K i (nr_raw_sessions (cs_nexus s))")
      case None
      let ?c = "k_effective K (k_default K)"
      have "settings_of K key' ((cs_nexus s)\<lparr>nr_raw_sessions :=
          snd (cache_settings K i ?c (nr_raw_sessions (cs_nexus s)))\<rparr>) = settings_of K key' (cs_nexus s)"
      proof (cases "key' = key")
        case True
        with Raw_Session None show ?thesis by (simp add: settings_of_def cached_cache)
      next
        case False
        with Raw_Session show ?thesis
          by (cases key') (simp_all add: settings_of_def cached_cache_other split: option.split)
      qed
      moreover have "session_config K key s = (Inr ?c, s\<lparr>cs_nexus := (cs_nexus s)\<lparr>nr_raw_sessions :=
          snd (cache_settings K i ?c (nr_raw_sessions (cs_nexus s)))\<rparr>\<rparr>)"
        using cache_settings_fst [OF None, of ?c] Raw_Session None
        by (cases "cache_settings K i ?c (nr_raw_sessions (cs_nexus s))")
          (simp add: session_config_def raw_session_config_def Let_def)
      ultimately show ?thesis using Raw_Session None by (simp add: settings_of_def [of K "Raw_Session i"])
    qed (simp add: Raw_Session session_config_def raw_session_config_def settings_of_def)
  qed
  with assms show "r = Inr (settings_of K key (cs_nexus s))"
    and "settings_of K key' (cs_nexus s') = settings_of K key' (cs_nexus s)" by simp_all
qed

lemma set_session_config_settings:
  assumes "set_session_config K key c s = (Inr u, s')"
  shows "settings_of K key' (cs_nexus s') =
    (if key' = key then k_merge_effective K (settings_of K key (cs_nexus s)) c else settings_of K key' (cs_nexus s))"
proof (cases key)
  case (Memory_Session k)
  with assms have "write_nexus_config (\<lambda>r. (Inr (), r\<lparr>nr_memory_sessions :=
      overlay_settings K k c (create_by_agent_role K (nr_agent_roles r) k) (nr_memory_sessions r)\<rparr>)) s = (Inr u, s')"
    by (simp add: set_session_config_def set_memory_session_config_def)
  then have "cs_nexus s' = (cs_nexus s)\<lparr>nr_memory_sessions := overlay_settings K k c
      (create_by_agent_role K (nr_agent_roles (cs_nexus s)) k) (nr_memory_sessions (cs_nexus s))\<rparr>"
    by (elim write_config_Inr) simp
  with Memory_Session show ?thesis by (cases key') (auto simp: settings_of_def cached_overlay split: option.splits)
next
  case (Raw_Session i)
  with assms have "write_nexus_config (\<lambda>r. (Inr (), r\<lparr>nr_raw_sessions :=
      overlay_settings K i c (k_effective K (k_default K)) (nr_raw_sessions r)\<rparr>)) s = (Inr u, s')"
    by (simp add: set_session_config_def set_raw_session_config_def)
  then have "cs_nexus s' = (cs_nexus s)\<lparr>nr_raw_sessions := overlay_settings K i c
      (k_effective K (k_default K)) (nr_raw_sessions (cs_nexus s))\<rparr>"
    by (elim write_config_Inr) simp
  with Raw_Session show ?thesis by (cases key') (auto simp: settings_of_def cached_overlay split: option.splits)
qed

text \<open>A session with nothing kept runs with the defaults, overlaid by its agent and by its role.\<close>

lemma settings_of_new_session:
  assumes "cached_settings K k (nr_memory_sessions r) = None"
  shows "settings_of K (Memory_Session k) r =
    fold (\<lambda>c e. k_merge_effective K e c)
      (case hm_get (nr_agent_roles r) (mk_agent_id k) of
         Some a \<Rightarrow> layers (role_name (mk_role_event k)) a | None \<Rightarrow> [])
      (k_effective K (k_default K))"
  using assms by (auto simp: settings_of_def create_by_agent_role_def effective_layers split: option.splits)

end

section \<open>What every operation keeps\<close>

text \<open>
  Keys are unique, a channel is filed under its own id, and the settings of an agent itself
  are never filed as those of a role without a name.
\<close>

definition agent_roles_ok :: "agent_role_config \<Rightarrow> bool" where
  "agent_roles_ok a \<longleftrightarrow> hm_ok (ac_roles a) \<and> hm_get (ac_roles a) [] = None"

definition repo_ok :: "nexus_repo \<Rightarrow> bool" where
  "repo_ok r \<longleftrightarrow>
     hm_ok (nr_channels r) \<and> hm_ok (nr_providers r) \<and> hm_ok (nr_agent_roles r) \<and>
     hm_ok (nr_memory_sessions r) \<and> hm_ok (nr_raw_sessions r) \<and>
     (\<forall>k c. hm_get (nr_channels r) k = Some c \<longrightarrow> cg_channel_id c = k) \<and>
     (\<forall>k a. hm_get (nr_agent_roles r) k = Some a \<longrightarrow> agent_roles_ok a)"

definition config_ok :: "'z config_state_scheme \<Rightarrow> bool" where
  "config_ok s \<longleftrightarrow> repo_ok (cs_nexus s) \<and> (\<forall>r. cs_nexus_file s = Some (Json_File r) \<longrightarrow> repo_ok r)"

text \<open>The steps of the program: the queries that keep settings, the changes, a restart.\<close>

inductive config_step :: "config_state \<Rightarrow> config_state \<Rightarrow> bool" where
  read_llm: "session_config llm_kind key s = (x, s') \<Longrightarrow> config_step s s'"
| read_compress: "session_config compress_kind key s = (x, s') \<Longrightarrow> config_step s s'"
| read_recover: "session_config recover_kind key s = (x, s') \<Longrightarrow> config_step s s'"
| read_batch: "session_config batch_kind key s = (x, s') \<Longrightarrow> config_step s s'"
| read_group: "session_config group_kind key s = (x, s') \<Longrightarrow> config_step s s'"
| read_pipeline: "session_config pipeline_kind key s = (x, s') \<Longrightarrow> config_step s s'"
| set_llm: "set_session_config llm_kind key c s = (x, s') \<Longrightarrow> config_step s s'"
| set_out: "set_out_channel agent_id role out s = (x, s') \<Longrightarrow> config_step s s'"
| add_channel: "add_channel ch s = (x, s') \<Longrightarrow> config_step s s'"
| remove_channel: "remove_channel channel_id s = (x, s') \<Longrightarrow> config_step s s'"
| update_channel: "update_channel channel_id f s = (y, s') \<Longrightarrow> (\<And>c. cg_channel_id (f c) = cg_channel_id c) \<Longrightarrow>
    config_step s s'"
| add_admin: "add_admin channel_id u s = (x, s') \<Longrightarrow> config_step s s'"
| remove_admin: "remove_admin channel_id u s = (x, s') \<Longrightarrow> config_step s s'"
| add_provider: "add_provider name cfg s = (x, s') \<Longrightarrow> config_step s s'"
| remove_provider: "remove_provider name s = (x, s') \<Longrightarrow> config_step s s'"
| restart: "config_new s = (x, s') \<Longrightarrow> config_step s s'"

definition fresh_config :: "bool list \<Rightarrow> config_state" where
  "fresh_config faults =
     \<lparr>cs_nexus = default_nexus_repo, cs_station = default_station_repo, cs_nexus_file = None,
      cs_station_file = None, cs_faults = faults\<rparr>"

inductive config_reachable :: "config_state \<Rightarrow> bool" where
  start: "config_reachable (fresh_config faults)"
| step: "config_reachable s \<Longrightarrow> config_step s s' \<Longrightarrow> config_reachable s'"

lemma write_preserves:
  assumes "\<And>r x r'. repo_ok r \<Longrightarrow> f r = (x, r') \<Longrightarrow> repo_ok r'"
  shows "preserves config_ok (write_nexus_config f)"
proof (rule preservesI)
  fix s r s' assume ok: "config_ok s" and run: "write_nexus_config f s = (r, s')"
  then have repo: "repo_ok (cs_nexus s)" by (simp add: config_ok_def)
  show "config_ok s'"
  proof (cases r)
    case (Inr x)
    with run show ?thesis using assms [OF repo]
      by (auto simp: config_ok_def elim!: write_config_Inr)
  next
    case (Inl e)
    with run have "write_nexus_config f s = (Inl e, s')" by simp
    then show ?thesis
    proof (cases rule: write_config_Inl)
      case 1
      then show ?thesis using assms [OF repo 1(1)] ok
        by (metis config_ok_def config_state.select_convs(3) config_state.surjective config_state.update_convs(1))
    next
      case (2 x)
      then show ?thesis using assms [OF repo 2(1)] ok by (auto simp: config_ok_def)
    qed
  qed
qed

lemma keys_ok_cache:
  "hm_ok m \<Longrightarrow> hm_ok (snd (cache_settings K k c m))"
  by (auto simp: cache_settings_def split: option.splits prod.splits)

lemma keys_ok_overlay: "hm_ok m \<Longrightarrow> hm_ok (overlay_settings K k c e m)"
  by (auto simp: overlay_settings_def split: option.splits)

lemma session_config_preserves: "preserves config_ok (session_config K key :: ('z, 'e) config_op)"
proof (rule preservesI)
  fix s :: "'z config_state_scheme" and r s' assume ok: "config_ok s" and run: "session_config K key s = (r, s')"
  show "config_ok s'"
  proof (cases key)
    case (Memory_Session k)
    show ?thesis
    proof (cases "cached_settings K k (nr_memory_sessions (cs_nexus s))")
      case None
      with Memory_Session run have "s' = s\<lparr>cs_nexus := (cs_nexus s)\<lparr>nr_memory_sessions :=
          snd (cache_settings K k (create_by_agent_role K (nr_agent_roles (cs_nexus s)) k) (nr_memory_sessions (cs_nexus s)))\<rparr>\<rparr>"
        by (auto simp: session_config_def memory_session_config_def Let_def split: prod.splits)
      with ok show ?thesis by (simp add: config_ok_def repo_ok_def keys_ok_cache)
    next
      case (Some c)
      with ok run Memory_Session show ?thesis by (simp add: session_config_def memory_session_config_def)
    qed
  next
    case (Raw_Session i)
    show ?thesis
    proof (cases "cached_settings K i (nr_raw_sessions (cs_nexus s))")
      case None
      with Raw_Session run have "s' = s\<lparr>cs_nexus := (cs_nexus s)\<lparr>nr_raw_sessions :=
          snd (cache_settings K i (k_effective K (k_default K)) (nr_raw_sessions (cs_nexus s)))\<rparr>\<rparr>"
        by (auto simp: session_config_def raw_session_config_def Let_def split: prod.splits)
      with ok show ?thesis by (simp add: config_ok_def repo_ok_def keys_ok_cache)
    next
      case (Some c)
      with ok run Raw_Session show ?thesis by (simp add: session_config_def raw_session_config_def)
    qed
  qed
qed

lemma set_session_config_preserves: "preserves config_ok (set_session_config K key c)"
  by (cases key)
    (auto simp: set_session_config_def set_memory_session_config_def set_raw_session_config_def repo_ok_def
      keys_ok_overlay intro!: write_preserves)

lemma agent_roles_ok_set: "agent_roles_ok a \<Longrightarrow> agent_roles_ok (set_config K role c a)"
  by (auto simp: agent_roles_ok_def set_config_def Let_def split: option.splits)

lemma agent_roles_ok_empty: "agent_roles_ok empty_agent_role_config"
  by (simp add: agent_roles_ok_def empty_agent_role_config_def)

lemma set_agent_role_preserves: "preserves config_ok (set_agent_role_config K agent_id role c)"
  unfolding set_agent_role_config_def
  by (rule write_preserves)
    (auto simp: repo_ok_def Let_def agent_roles_ok_set agent_roles_ok_empty split: option.splits)

lemma change_channel_ok:
  assumes "repo_ok r" and "change_channel channel_id f r = (x, r')" and "\<And>c. cg_channel_id (f c) = cg_channel_id c"
  shows "repo_ok r'"
  using assms by (auto simp: change_channel_def write_key_value_def repo_ok_def split: option.splits if_splits)

lemma change_channel_unit_ok:
  assumes "repo_ok r" and "bind_act (change_channel channel_id f) (\<lambda>_. ret ()) r = (x, r')"
    and "\<And>c. cg_channel_id (f c) = cg_channel_id c"
  shows "repo_ok r'"
proof (rule change_channel_ok [OF assms(1) _ assms(3)])
  show "change_channel channel_id f r = (fst (change_channel channel_id f r), r')"
    using assms(2) by (auto simp: bind_act_def ret_def split: prod.splits sum.splits)
qed

lemma add_channel_preserves: "preserves config_ok (add_channel ch)"
  unfolding add_channel_def by (rule write_preserves) (auto simp: repo_ok_def split: if_splits)

lemma remove_channel_preserves: "preserves config_ok (remove_channel channel_id)"
  unfolding remove_channel_def by (rule write_preserves) (auto simp: repo_ok_def split: if_splits)

lemma update_channel_preserves:
  "(\<And>c. cg_channel_id (f c) = cg_channel_id c) \<Longrightarrow> preserves config_ok (update_channel channel_id f)"
  unfolding update_channel_def by (rule write_preserves) (rule change_channel_ok)

lemma admin_ops_preserve:
  "preserves config_ok (add_admin channel_id u)"
  "preserves config_ok (remove_admin channel_id u)"
  unfolding add_admin_def remove_admin_def
  by (rule write_preserves, erule (1) change_channel_unit_ok, simp)+

lemma provider_ops_preserve:
  "preserves config_ok (add_provider name cfg)"
  "preserves config_ok (remove_provider name)"
  unfolding add_provider_def remove_provider_def
  by (rule write_preserves; auto simp: repo_ok_def split: if_splits)+

lemma hm_get_reread:
  "hm_get (nr_channels (reread_nexus r)) k =
     map_option (\<lambda>c. c\<lparr>cg_agent_id := deserialize_agent_id (cg_agent_id c)\<rparr>) (hm_get (nr_channels r) k)"
  by (simp add: reread_nexus_def map_of_map)

lemma repo_ok_reread: "repo_ok r \<Longrightarrow> repo_ok (reread_nexus r)"
proof -
  assume ok: "repo_ok r"
  have keys: "map fst (nr_channels (reread_nexus r)) = map fst (nr_channels r)"
    by (auto simp: reread_nexus_def)
  have rest: "nr_providers (reread_nexus r) = nr_providers r" "nr_agent_roles (reread_nexus r) = nr_agent_roles r"
    "nr_memory_sessions (reread_nexus r) = nr_memory_sessions r" "nr_raw_sessions (reread_nexus r) = nr_raw_sessions r"
    by (simp_all add: reread_nexus_def)
  from ok show ?thesis by (auto simp: repo_ok_def keys rest hm_get_reread)
qed

lemma repo_ok_default: "repo_ok default_nexus_repo"
  by (simp add: repo_ok_def default_nexus_repo_def)

text \<open>Loading the files, however it ends.\<close>

lemma config_ok_disk: "preserves config_ok disk_step" "preserves config_ok disk_skip"
  by (auto intro!: preserves_keeps [where f = "\<lambda>s. (cs_nexus s, cs_nexus_file s)"] keeps_disk_step keeps_disk_skip
      simp: config_ok_def)

lemma config_ok_store: "repo_ok r \<Longrightarrow> preserves config_ok (store_nexus r)"
proof (rule preservesI)
  fix s :: "'a config_state_scheme" and x s'
  assume "repo_ok r" and "config_ok s" and run: "store_nexus r s = (x, s')"
  with store_nexus_file(1) [OF run] keepsD [OF keeps_store_nexus(1) run] show "config_ok s'"
    by (auto simp: config_ok_def)
qed

lemma load_nexus_ok:
  assumes "config_ok s" and "load_or_create_nexus s = (x, s')"
  shows "config_ok s' \<and> (\<forall>r. x = Inr r \<longrightarrow> repo_ok r)"
proof (cases "cs_nexus_file s")
  case None
  with assms(2) have run: "bind_act (store_nexus default_nexus_repo) (\<lambda>_. ret default_nexus_repo) s = (x, s')"
    by (simp add: load_or_create_nexus_def bind_read)
  have "preserves config_ok (bind_act (store_nexus default_nexus_repo) (\<lambda>_. ret default_nexus_repo))"
    by (intro preserves_intros config_ok_store repo_ok_default)
  from preservesD [OF this assms(1) run] have "config_ok s'" .
  moreover have "r = default_nexus_repo" if "x = Inr r" for r
    using run that by (auto simp: bind_Inr_conv)
  ultimately show ?thesis by (auto simp: repo_ok_default)
next
  case (Some content)
  with assms(2) have run: "bind_act disk_step (\<lambda>_. case content of
      Json_File r \<Rightarrow> ret (reread_nexus r) | Damaged \<Rightarrow> fail (AE_JsonError ''json'')) s = (x, s')"
    by (simp add: load_or_create_nexus_def bind_read)
  have "preserves config_ok (bind_act disk_step (\<lambda>_. case content of
      Json_File r \<Rightarrow> ret (reread_nexus r) | Damaged \<Rightarrow> fail (AE_JsonError ''json'')))"
    by (cases content) (auto intro: preserves_intros config_ok_disk)
  from preservesD [OF this assms(1) run] have "config_ok s'" .
  moreover have "repo_ok r" if "x = Inr r" for r
    using run that assms(1) Some
    by (cases content) (auto simp: bind_Inr_conv config_ok_def repo_ok_reread)
  ultimately show ?thesis by simp
qed

lemma load_station_ok: "preserves config_ok load_or_create_station"
proof -
  have step: "preserves config_ok disk_step" by (rule config_ok_disk)
  have store: "preserves config_ok (store_station r)" for r
    unfolding store_station_def
    by (intro preserves_intros step preserves_modify_st) (simp_all add: config_ok_def)
  show ?thesis unfolding load_or_create_station_def
    by (intro preserves_intros store step) (auto split: json_file.split intro: preserves_intros)
qed

lemma config_new_preserves: "preserves config_ok config_new"
proof (rule preservesI)
  fix s :: "'a config_state_scheme" and x s' assume ok: "config_ok s" and run: "config_new s = (x, s')"
  have station: "config_ok s2" if "config_ok s1" "repo_ok r"
    "bind_act load_or_create_station (\<lambda>station. modify_st (\<lambda>s. s\<lparr>cs_nexus := r, cs_station := station\<rparr>)) s1 = (y, s2)"
    for s1 :: "'a config_state_scheme" and r y s2
  proof -
    from that(3) obtain q s3 where l: "load_or_create_station s1 = (q, s3)" by (cases "load_or_create_station s1")
    from preservesD [OF load_station_ok that(1) l] have "config_ok s3" .
    with l that(2,3) show ?thesis by (auto simp: bind_act_def modify_st_def config_ok_def split: sum.splits)
  qed
  have nexus: "config_ok s2" if "config_ok s1" "bind_act load_or_create_nexus (\<lambda>nexus.
      bind_act load_or_create_station (\<lambda>station. modify_st (\<lambda>s. s\<lparr>cs_nexus := nexus, cs_station := station\<rparr>))) s1 = (y, s2)"
    for s1 :: "'a config_state_scheme" and y s2
  proof -
    obtain q s3 where l: "load_or_create_nexus s1 = (q, s3)" by (cases "load_or_create_nexus s1")
    from load_nexus_ok [OF that(1) l] have "config_ok s3" "\<And>r. q = Inr r \<Longrightarrow> repo_ok r" by simp_all
    with l that(2) show ?thesis
      by (cases q) (auto simp: bind_act_def [of load_or_create_nexus] intro: station)
  qed
  have "preserves config_ok (bind_act load_or_create_nexus (\<lambda>nexus. bind_act load_or_create_station (\<lambda>station.
      modify_st (\<lambda>s :: 'a config_state_scheme. s\<lparr>cs_nexus := nexus, cs_station := station\<rparr>))))"
    by (rule preservesI) (rule nexus)
  then have "preserves config_ok (config_new :: ('a, unit) config_op)"
    unfolding config_new_def
    by (intro preserves_bind [OF config_ok_disk(1)] preserves_bind [OF config_ok_disk(2)])
  from preservesD [OF this ok run] show "config_ok s'" .
qed

lemma config_step_ok: "config_step s s' \<Longrightarrow> config_ok s \<Longrightarrow> config_ok s'"
proof (induction rule: config_step.induct)
  case (set_out agent_id role out s x s')
  then show ?case unfolding set_out_channel_def by (auto dest: preservesD [OF set_agent_role_preserves])
next
  case (update_channel channel_id f s y s')
  show ?case
    by (rule preservesD [OF update_channel_preserves [OF update_channel(2)] update_channel(3) update_channel(1)])
qed (auto dest: preservesD [OF session_config_preserves] preservesD [OF set_session_config_preserves]
    preservesD [OF add_channel_preserves] preservesD [OF remove_channel_preserves]
    preservesD [OF admin_ops_preserve(1)] preservesD [OF admin_ops_preserve(2)]
    preservesD [OF provider_ops_preserve(1)] preservesD [OF provider_ops_preserve(2)]
    preservesD [OF config_new_preserves])

lemma config_reachable_ok: "config_reachable s \<Longrightarrow> config_ok s"
proof (induction rule: config_reachable.induct)
  case (start faults)
  show ?case by (simp add: fresh_config_def config_ok_def repo_ok_default)
next
  case (step s s')
  then show ?case by (blast intro: config_step_ok)
qed

text \<open>Restarting after a change that was written.\<close>

lemma config_new_rereads:
  assumes "cs_faults s = []" and "cs_nexus_file s = Some (Json_File r)" and "cs_station_file s = Some (Json_File t)"
  shows "config_new s = (Inr (), s\<lparr>cs_nexus := reread_nexus r, cs_station := t\<rparr>)"
  using assms
  by (simp add: config_new_def load_or_create_nexus_def load_or_create_station_def bind_act_def read_st_def
      ret_def modify_st_def)

lemma reread_same:
  "(\<And>k c. (k, c) \<in> set (nr_channels r) \<Longrightarrow> cg_agent_id c \<noteq> []) \<Longrightarrow> reread_nexus r = r"
proof -
  assume "\<And>k c. (k, c) \<in> set (nr_channels r) \<Longrightarrow> cg_agent_id c \<noteq> []"
  then have "map (\<lambda>(k, c). (k, c\<lparr>cg_agent_id := deserialize_agent_id (cg_agent_id c)\<rparr>)) (nr_channels r) =
      map (\<lambda>x. x) (nr_channels r)"
    by (intro map_cong) (auto simp: deserialize_agent_id_def)
  then show ?thesis by (simp add: reread_nexus_def)
qed

end
