(* ===== verification/Batch_Processor.thy ===== *)
theory Batch_Processor
  imports Channel_Types
begin

text \<open>
  \<open>kissbot-agent/src/pipelines/channel_batch_processor.rs\<close>: senders put messages in a queue
  and move a shared deadline forward without a lock; one consumer flushes the queue once the
  deadline has passed. Every access to shared data is a step of its own, and the steps of any
  number of senders and of the consumer interleave freely.

  Instants are nanoseconds since the anchor of the processor. The delay queue is a list of the
  instants in it; it hands out an instant at that instant or later. The truncation of the
  milliseconds to 64 bits is not modelled.
\<close>

section \<open>State\<close>

text \<open>
  Where a call of \<open>send\<close> is: before the message is queued, before the clock is read, before
  the deadline is loaded, in the loop, before the trigger is sent.
\<close>

datatype 'e send_pc =
    S_Push 'e nat
  | S_Time nat
  | S_Load nat nat
  | S_Cas nat nat nat
  | S_Trigger nat

text \<open>
  Where the consumer is: waiting; past loading the deadline, for an instant that expired;
  past the decision; emptying the queue.
\<close>

datatype 'e consumer_pc = C_Wait | C_Loaded nat nat | C_Decided | C_Drain "'e list"

text \<open>\<open>bt_pushed\<close> and \<open>bt_batches\<close> are histories: what was queued, what the processor was handed.\<close>

record 'e batch_state =
  bt_now :: nat
  bt_queue :: "'e list"
  bt_triggers :: "nat list"
  bt_delay :: "nat list"
  bt_deadline :: nat
  bt_senders :: "nat \<Rightarrow> 'e send_pc option"
  bt_consumer :: "'e consumer_pc"
  bt_pushed :: "'e list"
  bt_batches :: "'e list list"

definition channel_batch_processor :: "nat \<Rightarrow> 'e batch_state" where
  "channel_batch_processor now =
     \<lparr>bt_now = now, bt_queue = [], bt_triggers = [], bt_delay = [], bt_deadline = 0,
      bt_senders = (\<lambda>_. None), bt_consumer = C_Wait, bt_pushed = [], bt_batches = []\<rparr>"

definition as_millis :: "nat \<Rightarrow> nat" where
  "as_millis t = t div 1000000"

section \<open>Steps\<close>

text \<open>One step of a call of \<open>send\<close>; a call that is over has no place any more.\<close>

fun send_step :: "'e send_pc \<Rightarrow> 'e batch_state \<Rightarrow> 'e send_pc option \<times> 'e batch_state" where
  "send_step (S_Push e interval) s =
     (Some (S_Time interval), s\<lparr>bt_queue := bt_queue s @ [e], bt_pushed := bt_pushed s @ [e]\<rparr>)"
| "send_step (S_Time interval) s =
     (let at = bt_now s + interval * 1000000000 in (Some (S_Load at (max (as_millis at) 1)), s))"
| "send_step (S_Load at new) s = (Some (S_Cas at new (bt_deadline s)), s)"
| "send_step (S_Cas at new cur) s =
     (if cur \<noteq> 0 \<and> new \<le> cur then (Some (S_Trigger at), s)
      else if bt_deadline s = cur then (Some (S_Trigger at), s\<lparr>bt_deadline := new\<rparr>)
      else (Some (S_Cas at new (bt_deadline s)), s))"
| "send_step (S_Trigger at) s = (None, s\<lparr>bt_triggers := bt_triggers s @ [at]\<rparr>)"

text \<open>The consumer takes a trigger, or an instant that has expired, and works it off.\<close>

definition receive_trigger :: "'e batch_state \<Rightarrow> 'e batch_state option" where
  "receive_trigger s =
     (case (bt_consumer s, bt_triggers s) of
        (C_Wait, at # ats) \<Rightarrow> Some (s\<lparr>bt_triggers := ats, bt_delay := bt_delay s @ [at]\<rparr>)
      | _ \<Rightarrow> None)"

definition expire :: "nat \<Rightarrow> 'e batch_state \<Rightarrow> 'e batch_state option" where
  "expire at s =
     (if bt_consumer s = C_Wait \<and> at \<in> set (bt_delay s) \<and> at \<le> bt_now s
      then Some (s\<lparr>bt_delay := remove1 at (bt_delay s), bt_consumer := C_Loaded at (bt_deadline s)\<rparr>)
      else None)"

definition work_off :: "'e batch_state \<Rightarrow> 'e batch_state option" where
  "work_off s =
     (case bt_consumer s of
        C_Wait \<Rightarrow> None
      | C_Loaded at deadline \<Rightarrow>
          Some (s\<lparr>bt_consumer := (if deadline = 0 \<or> as_millis (bt_now s) < deadline then C_Wait else C_Decided)\<rparr>)
      | C_Decided \<Rightarrow> Some (s\<lparr>bt_deadline := 0, bt_consumer := C_Drain []\<rparr>)
      | C_Drain items \<Rightarrow>
          (case bt_queue s of
             e # es \<Rightarrow> Some (s\<lparr>bt_queue := es, bt_consumer := C_Drain (items @ [e])\<rparr>)
           | [] \<Rightarrow> Some (s\<lparr>bt_consumer := C_Wait,
                            bt_batches := (if items = [] then bt_batches s else bt_batches s @ [items])\<rparr>)))"

datatype 'e batch_action =
    Send nat 'e nat
  | Sender nat
  | Trigger
  | Expire nat
  | Work
  | Pass nat

fun batch_step :: "'e batch_action \<Rightarrow> 'e batch_state \<Rightarrow> 'e batch_state option" where
  "batch_step (Send tid e interval) s =
     (if bt_senders s tid = None
      then Some (s\<lparr>bt_senders := (bt_senders s)(tid \<mapsto> S_Push e interval)\<rparr>) else None)"
| "batch_step (Sender tid) s =
     (case bt_senders s tid of
        None \<Rightarrow> None
      | Some pc \<Rightarrow> (case send_step pc s of (pc', s') \<Rightarrow> Some (s'\<lparr>bt_senders := (bt_senders s')(tid := pc')\<rparr>)))"
| "batch_step Trigger s = receive_trigger s"
| "batch_step (Expire at) s = expire at s"
| "batch_step Work s = work_off s"
| "batch_step (Pass d) s = Some (s\<lparr>bt_now := bt_now s + d\<rparr>)"

text \<open>Actions that are not possible in a state are left out of the schedule.\<close>

fun batch_run :: "'e batch_action list \<Rightarrow> 'e batch_state \<Rightarrow> 'e batch_state" where
  "batch_run [] s = s"
| "batch_run (a # as) s = batch_run as (case batch_step a s of Some s' \<Rightarrow> s' | None \<Rightarrow> s)"

section \<open>The invariant\<close>

text \<open>Intervals are whole seconds, at least one.\<close>

fun action_ok :: "'e batch_action \<Rightarrow> bool" where
  "action_ok (Send tid e interval) \<longleftrightarrow> 1 \<le> interval"
| "action_ok _ \<longleftrightarrow> True"

fun items_of :: "'e consumer_pc \<Rightarrow> 'e list" where
  "items_of (C_Drain items) = items"
| "items_of _ = []"

text \<open>Messages are neither lost nor doubled nor reordered, and no batch is empty.\<close>

definition queue_inv :: "'e batch_state \<Rightarrow> bool" where
  "queue_inv s \<longleftrightarrow>
     concat (bt_batches s) @ items_of (bt_consumer s) @ bt_queue s = bt_pushed s \<and> [] \<notin> set (bt_batches s)"

text \<open>Every instant on the way lies a millisecond or more after the anchor.\<close>

definition good_instant :: "nat \<Rightarrow> bool" where
  "good_instant at \<longleftrightarrow> 1 \<le> as_millis at"

fun sender_ok :: "'e send_pc \<Rightarrow> bool" where
  "sender_ok (S_Push e interval) \<longleftrightarrow> 1 \<le> interval"
| "sender_ok (S_Time interval) \<longleftrightarrow> 1 \<le> interval"
| "sender_ok (S_Load at new) \<longleftrightarrow> good_instant at \<and> new = as_millis at"
| "sender_ok (S_Cas at new cur) \<longleftrightarrow> good_instant at \<and> new = as_millis at"
| "sender_ok (S_Trigger at) \<longleftrightarrow> good_instant at"

fun consumer_ok :: "nat \<Rightarrow> 'e consumer_pc \<Rightarrow> bool" where
  "consumer_ok now (C_Loaded at d) \<longleftrightarrow> good_instant at \<and> at \<le> now"
| "consumer_ok now _ \<longleftrightarrow> True"

definition instants_inv :: "'e batch_state \<Rightarrow> bool" where
  "instants_inv s \<longleftrightarrow>
     (\<forall>at \<in> set (bt_triggers s) \<union> set (bt_delay s). good_instant at) \<and>
     (\<forall>tid pc. bt_senders s tid = Some pc \<longrightarrow> sender_ok pc) \<and> consumer_ok (bt_now s) (bt_consumer s)"

text \<open>A deadline that is set has its trigger on the way, unless the consumer is acting on it.\<close>

definition trigger_pending :: "'e batch_state \<Rightarrow> bool" where
  "trigger_pending s \<longleftrightarrow>
     (\<exists>at. as_millis at = bt_deadline s \<and>
        (at \<in> set (bt_triggers s) \<union> set (bt_delay s) \<or> (\<exists>tid. bt_senders s tid = Some (S_Trigger at))))"

fun acting_on :: "nat \<Rightarrow> 'e consumer_pc \<Rightarrow> bool" where
  "acting_on deadline (C_Loaded at d) \<longleftrightarrow> as_millis at = deadline \<and> d = deadline"
| "acting_on deadline C_Decided \<longleftrightarrow> True"
| "acting_on deadline _ \<longleftrightarrow> False"

definition deadline_inv :: "'e batch_state \<Rightarrow> bool" where
  "deadline_inv s \<longleftrightarrow>
     (bt_deadline s \<noteq> 0 \<longrightarrow> trigger_pending s \<or> acting_on (bt_deadline s) (bt_consumer s))"

text \<open>Messages that wait with no deadline set are about to get one, or about to be drained.\<close>

fun will_raise :: "'e send_pc \<Rightarrow> bool" where
  "will_raise (S_Time interval) \<longleftrightarrow> True"
| "will_raise (S_Load at new) \<longleftrightarrow> True"
| "will_raise (S_Cas at new cur) \<longleftrightarrow> cur = 0"
| "will_raise _ \<longleftrightarrow> False"

fun will_drain :: "'e consumer_pc \<Rightarrow> bool" where
  "will_drain C_Decided \<longleftrightarrow> True"
| "will_drain (C_Drain items) \<longleftrightarrow> True"
| "will_drain _ \<longleftrightarrow> False"

definition waiting_inv :: "'e batch_state \<Rightarrow> bool" where
  "waiting_inv s \<longleftrightarrow>
     (bt_queue s \<noteq> [] \<and> bt_deadline s = 0 \<longrightarrow>
        will_drain (bt_consumer s) \<or> (\<exists>tid pc. bt_senders s tid = Some pc \<and> will_raise pc))"

definition batch_inv :: "'e batch_state \<Rightarrow> bool" where
  "batch_inv s \<longleftrightarrow> queue_inv s \<and> instants_inv s \<and> deadline_inv s \<and> waiting_inv s"

lemmas batch_inv_defs = queue_inv_def instants_inv_def deadline_inv_def waiting_inv_def trigger_pending_def

lemma start_inv: "batch_inv (channel_batch_processor now)"
  by (simp add: batch_inv_def batch_inv_defs channel_batch_processor_def)

lemma good_interval:
  "1 \<le> interval \<Longrightarrow> good_instant (now + interval * 1000000000)"
proof -
  assume "1 \<le> interval"
  then have "1000000 div 1000000 \<le> (now + interval * 1000000000) div (1000000 :: nat)"
    by (intro div_le_mono) simp
  then show ?thesis by (simp add: good_instant_def as_millis_def)
qed

lemma as_millis_mono: "s \<le> t \<Longrightarrow> as_millis s \<le> as_millis t"
  by (simp add: as_millis_def div_le_mono)

lemma instants_sender: "instants_inv s \<Longrightarrow> bt_senders s tid = Some pc \<Longrightarrow> sender_ok pc"
  by (simp add: instants_inv_def)

section \<open>Every step keeps it\<close>

lemma step_queue_inv:
  assumes "queue_inv s" and "batch_step a s = Some s'"
  shows "queue_inv s'"
proof (cases a)
  case (Sender tid)
  with assms obtain pc where pc: "bt_senders s tid = Some pc" by (auto split: option.splits)
  from assms Sender pc show ?thesis
    by (cases pc) (auto simp: queue_inv_def Let_def split: if_splits)
next
  case Trigger
  with assms show ?thesis
    by (auto simp: queue_inv_def receive_trigger_def split: consumer_pc.splits list.splits)
next
  case (Expire at)
  with assms show ?thesis by (auto simp: queue_inv_def expire_def split: if_splits)
next
  case Work
  with assms show ?thesis
    by (auto simp: queue_inv_def work_off_def split: consumer_pc.splits list.splits if_splits)
qed (use assms in \<open>auto simp: queue_inv_def split: if_splits\<close>)

lemma step_instants_inv:
  assumes "instants_inv s" and "batch_step a s = Some s'" and "action_ok a"
  shows "instants_inv s'"
proof (cases a)
  case (Sender tid)
  with assms obtain pc where pc: "bt_senders s tid = Some pc" by (auto split: option.splits)
  with assms have ok: "sender_ok pc" by (simp add: instants_inv_def)
  from assms Sender pc ok show ?thesis
  proof (cases pc)
    case (S_Time interval)
    with ok have "good_instant (bt_now s + interval * 1000000000)" by (simp add: good_interval)
    with assms Sender pc S_Time show ?thesis
      by (auto simp: instants_inv_def Let_def good_instant_def max_def split: if_splits)
  qed (auto simp: instants_inv_def split: if_splits)
next
  case Trigger
  with assms show ?thesis
    by (auto simp: instants_inv_def receive_trigger_def split: consumer_pc.splits list.splits)
next
  case (Expire at)
  with assms show ?thesis
    by (auto simp: instants_inv_def expire_def split: if_splits dest: notin_set_remove1)
next
  case Work
  with assms show ?thesis
    by (auto simp: instants_inv_def work_off_def split: consumer_pc.splits list.splits if_splits)
next
  case (Pass d)
  with assms show ?thesis by (cases "bt_consumer s") (auto simp: instants_inv_def)
qed (use assms in \<open>auto simp: instants_inv_def split: if_splits\<close>)

lemma trigger_pending_mono:
  assumes "trigger_pending s" and "bt_deadline s' = bt_deadline s"
    and "set (bt_triggers s) \<union> set (bt_delay s) \<subseteq> set (bt_triggers s') \<union> set (bt_delay s')"
    and "\<And>tid at. bt_senders s tid = Some (S_Trigger at) \<Longrightarrow>
      bt_senders s' tid = Some (S_Trigger at) \<or> at \<in> set (bt_triggers s')"
  shows "trigger_pending s'"
  using assms unfolding trigger_pending_def by (metis UnI1 subsetD)

lemma step_deadline_inv:
  assumes inv: "deadline_inv s" "instants_inv s" and step: "batch_step a s = Some s'"
  shows "deadline_inv s'"
proof (cases a)
  case (Send tid e interval)
  with step have s': "s' = s\<lparr>bt_senders := (bt_senders s)(tid \<mapsto> S_Push e interval)\<rparr>"
    and free: "bt_senders s tid = None" by (auto split: if_splits)
  have "trigger_pending s \<Longrightarrow> trigger_pending s'"
    by (rule trigger_pending_mono) (use s' free in auto)
  with inv s' show ?thesis by (auto simp: deadline_inv_def)
next
  case (Sender tid)
  with step obtain pc where pc: "bt_senders s tid = Some pc" by (auto split: option.splits)
  show ?thesis
  proof (cases "bt_deadline s' = bt_deadline s")
    case True
    have "trigger_pending s \<Longrightarrow> trigger_pending s'"
      by (rule trigger_pending_mono) (use step Sender pc True in \<open>cases pc; auto simp: Let_def split: if_splits\<close>)+
    moreover have "bt_consumer s' = bt_consumer s"
      using step Sender pc by (cases pc) (auto simp: Let_def split: if_splits)
    ultimately show ?thesis using inv True by (auto simp: deadline_inv_def)
  next
    case False
    then obtain at new cur where cas: "pc = S_Cas at new cur"
      using step Sender pc by (cases pc) (auto simp: Let_def split: if_splits)
    with instants_sender [OF inv(2) pc] have "new = as_millis at" by simp
    with False step Sender pc cas have "as_millis at = bt_deadline s'" and "bt_senders s' tid = Some (S_Trigger at)"
      by (auto split: if_splits)
    then have "trigger_pending s'" unfolding trigger_pending_def by blast
    then show ?thesis by (simp add: deadline_inv_def)
  qed
next
  case Trigger
  with step obtain at ats where s': "s' = s\<lparr>bt_triggers := ats, bt_delay := bt_delay s @ [at]\<rparr>"
    and ts: "bt_triggers s = at # ats" and "bt_consumer s = C_Wait"
    by (auto simp: receive_trigger_def split: consumer_pc.splits list.splits)
  have "trigger_pending s \<Longrightarrow> trigger_pending s'"
    by (rule trigger_pending_mono) (use s' ts in auto)
  with inv s' show ?thesis by (auto simp: deadline_inv_def)
next
  case (Expire at)
  with step have s': "s' = s\<lparr>bt_delay := remove1 at (bt_delay s), bt_consumer := C_Loaded at (bt_deadline s)\<rparr>"
    and "bt_consumer s = C_Wait" by (auto simp: expire_def split: if_splits)
  show ?thesis
  proof (cases "as_millis at = bt_deadline s")
    case True
    with s' show ?thesis by (simp add: deadline_inv_def)
  next
    case False
    have "trigger_pending s'" if pending: "trigger_pending s"
    proof -
      from pending obtain at' where 1: "as_millis at' = bt_deadline s"
        and 2: "at' \<in> set (bt_triggers s) \<union> set (bt_delay s) \<or> (\<exists>tid. bt_senders s tid = Some (S_Trigger at'))"
        by (auto simp: trigger_pending_def)
      from False 1 have "at' \<noteq> at" by auto
      with 2 s' have "at' \<in> set (bt_triggers s') \<union> set (bt_delay s') \<or> (\<exists>tid. bt_senders s' tid = Some (S_Trigger at'))"
        by auto
      with 1 s' show ?thesis by (auto simp: trigger_pending_def)
    qed
    with inv \<open>bt_consumer s = C_Wait\<close> s' show ?thesis by (auto simp: deadline_inv_def)
  qed
next
  case Work
  have same: "trigger_pending s \<Longrightarrow> bt_deadline s' = bt_deadline s \<Longrightarrow> trigger_pending s'"
    by (rule trigger_pending_mono)
      (use step Work in \<open>auto simp: work_off_def split: consumer_pc.splits list.splits if_splits\<close>)
  show ?thesis
  proof (cases "bt_consumer s")
    case (C_Loaded at d)
    with inv(2) have "good_instant at" "at \<le> bt_now s" by (simp_all add: instants_inv_def)
    then have at: "1 \<le> as_millis at" "as_millis at \<le> as_millis (bt_now s)"
      by (simp_all add: good_instant_def as_millis_mono)
    from step Work C_Loaded have s': "s' = s\<lparr>bt_consumer :=
        (if d = 0 \<or> as_millis (bt_now s) < d then C_Wait else C_Decided)\<rparr>"
      by (simp add: work_off_def)
    from inv(1) C_Loaded have "bt_deadline s = 0 \<or> trigger_pending s \<or> (as_millis at = bt_deadline s \<and> d = bt_deadline s)"
      by (auto simp: deadline_inv_def)
    then show ?thesis
    proof (elim disjE)
      assume "as_millis at = bt_deadline s \<and> d = bt_deadline s"
      with at have "\<not> (d = 0 \<or> as_millis (bt_now s) < d)" by auto
      with s' show ?thesis by (simp add: deadline_inv_def)
    qed (use s' same in \<open>simp_all add: deadline_inv_def\<close>)
  next
    case (C_Drain items)
    with inv(1) step Work same show ?thesis
      by (auto simp: deadline_inv_def work_off_def split: list.splits)
  qed (use step Work in \<open>auto simp: work_off_def deadline_inv_def\<close>)
next
  case (Pass d)
  with step have s': "s' = s\<lparr>bt_now := bt_now s + d\<rparr>" by simp
  have "trigger_pending s \<Longrightarrow> trigger_pending s'"
    by (rule trigger_pending_mono) (use s' in auto)
  with inv s' show ?thesis by (auto simp: deadline_inv_def)
qed

lemma step_waiting_inv:
  assumes inv: "waiting_inv s" "instants_inv s" and step: "batch_step a s = Some s'"
  shows "waiting_inv s'"
proof (cases a)
  case (Send tid e interval)
  with step have s': "s' = s\<lparr>bt_senders := (bt_senders s)(tid \<mapsto> S_Push e interval)\<rparr>"
    and free: "bt_senders s tid = None" by (auto split: if_splits)
  have keep: "bt_senders s' tid' = Some pc'" if "bt_senders s tid' = Some pc'" for tid' pc'
    using that free s' by auto
  show ?thesis unfolding waiting_inv_def
  proof (intro impI)
    assume "bt_queue s' \<noteq> [] \<and> bt_deadline s' = 0"
    with s' have "bt_queue s \<noteq> [] \<and> bt_deadline s = 0" by simp
    with inv(1) have "will_drain (bt_consumer s) \<or> (\<exists>tid pc. bt_senders s tid = Some pc \<and> will_raise pc)"
      unfolding waiting_inv_def by blast
    moreover have "bt_consumer s' = bt_consumer s" using s' by simp
    ultimately show "will_drain (bt_consumer s') \<or> (\<exists>tid pc. bt_senders s' tid = Some pc \<and> will_raise pc)"
      using keep by metis
  qed
next
  case (Sender tid)
  with step obtain pc where pc: "bt_senders s tid = Some pc" by (auto split: option.splits)
  have consumer: "bt_consumer s' = bt_consumer s"
    using step Sender pc by (cases pc) (auto simp: Let_def split: if_splits)
  have others: "bt_senders s' tid' = bt_senders s tid'" if "tid' \<noteq> tid" for tid'
    using step Sender pc that by (cases pc) (auto simp: Let_def split: if_splits)
  have own: "\<exists>pc'. bt_senders s' tid = Some pc' \<and> will_raise pc'"
    if "bt_deadline s' = 0" "will_raise pc \<or> (\<exists>e i. pc = S_Push e i)"
  proof (cases pc)
    case (S_Cas at new cur)
    with instants_sender [OF inv(2) pc] have "new \<noteq> 0" by (simp add: good_instant_def)
    with step Sender pc S_Cas that show ?thesis by (auto split: if_splits)
  qed (use step Sender pc that in \<open>auto simp: Let_def\<close>)
  show ?thesis
  proof (cases "will_raise pc \<or> (\<exists>e i. pc = S_Push e i)")
    case True
    with own show ?thesis by (auto simp: waiting_inv_def)
  next
    case False
    then have "bt_queue s' = bt_queue s" and "bt_deadline s' = 0 \<longrightarrow> bt_deadline s = 0"
      using step Sender pc by (cases pc; auto simp: Let_def split: if_splits)+
    with inv(1) False pc others consumer show ?thesis by (metis option.inject waiting_inv_def)
  qed
next
  case Trigger
  with step inv show ?thesis
    by (auto simp: waiting_inv_def receive_trigger_def split: consumer_pc.splits list.splits)
next
  case (Expire at)
  with step inv show ?thesis by (auto simp: waiting_inv_def expire_def split: if_splits)
next
  case Work
  with step inv show ?thesis
    by (auto simp: waiting_inv_def work_off_def split: consumer_pc.splits list.splits if_splits)
next
  case (Pass d)
  with step inv show ?thesis by (auto simp: waiting_inv_def)
qed

lemma step_batch_inv:
  "batch_inv s \<Longrightarrow> action_ok a \<Longrightarrow> batch_step a s = Some s' \<Longrightarrow> batch_inv s'"
  unfolding batch_inv_def
  by (auto intro: step_queue_inv step_instants_inv step_deadline_inv step_waiting_inv)

lemma run_batch_inv: "batch_inv s \<Longrightarrow> \<forall>a \<in> set as. action_ok a \<Longrightarrow> batch_inv (batch_run as s)"
  by (induction as arbitrary: s) (auto split: option.split intro: step_batch_inv)

section \<open>When nothing is left to do\<close>

text \<open>No call of \<open>send\<close> is under way, the consumer waits, and no trigger or instant is left.\<close>

definition at_rest :: "'e batch_state \<Rightarrow> bool" where
  "at_rest s \<longleftrightarrow>
     bt_senders s = (\<lambda>_. None) \<and> bt_consumer s = C_Wait \<and> bt_triggers s = [] \<and> bt_delay s = []"

lemma rest_empty:
  assumes "batch_inv s" and "at_rest s"
  shows "bt_queue s = [] \<and> bt_deadline s = 0 \<and> concat (bt_batches s) = bt_pushed s"
proof -
  have "\<not> trigger_pending s" using assms by (simp add: at_rest_def trigger_pending_def)
  with assms have d: "bt_deadline s = 0"
    by (auto simp: batch_inv_def deadline_inv_def at_rest_def)
  with assms have "bt_queue s = []" by (simp add: batch_inv_def waiting_inv_def at_rest_def)
  with assms d show ?thesis by (simp add: batch_inv_def queue_inv_def at_rest_def)
qed

section \<open>The consumer comes to rest\<close>

text \<open>
  The consumer alone, once no call is under way and the clock has reached every instant: it
  works off what it has begun, then the triggers, then the instants.
\<close>

definition consumer_action :: "'e batch_state \<Rightarrow> 'e batch_action option" where
  "consumer_action s =
     (if bt_consumer s \<noteq> C_Wait then Some Work
      else if bt_triggers s \<noteq> [] then Some Trigger
      else case bt_delay s of at # _ \<Rightarrow> Some (Expire at) | [] \<Rightarrow> None)"

fun pc_weight :: "'e consumer_pc \<Rightarrow> nat" where
  "pc_weight C_Wait = 0"
| "pc_weight (C_Drain items) = 1"
| "pc_weight C_Decided = 2"
| "pc_weight (C_Loaded at d) = 3"

definition work_left :: "'e batch_state \<Rightarrow> nat" where
  "work_left s =
     5 * length (bt_triggers s) + 4 * length (bt_delay s) + length (bt_queue s) + pc_weight (bt_consumer s)"

primrec consumer_run :: "nat \<Rightarrow> 'e batch_state \<Rightarrow> 'e batch_state" where
  "consumer_run 0 s = s"
| "consumer_run (Suc n) s =
     (case consumer_action s of
        None \<Rightarrow> s
      | Some a \<Rightarrow> consumer_run n (case batch_step a s of Some s' \<Rightarrow> s' | None \<Rightarrow> s))"

definition all_due :: "'e batch_state \<Rightarrow> bool" where
  "all_due s \<longleftrightarrow> (\<forall>at \<in> set (bt_triggers s) \<union> set (bt_delay s). at \<le> bt_now s)"

lemma consumer_progress:
  assumes "all_due s" and "bt_senders s = (\<lambda>_. None)" and "consumer_action s = Some a"
  obtains s' where "batch_step a s = Some s'" and "work_left s' < work_left s"
    and "all_due s'" and "bt_senders s' = (\<lambda>_. None)" and "action_ok a" and "bt_pushed s' = bt_pushed s"
proof (cases "bt_consumer s = C_Wait")
  case True
  show thesis
  proof (cases "bt_triggers s")
    case Nil
    with assms(3) True obtain at ats where delay: "bt_delay s = at # ats" and a: "a = Expire at"
      by (auto simp: consumer_action_def split: list.splits)
    from assms(1) delay have "at \<le> bt_now s" by (simp add: all_due_def)
    with assms Nil True delay a that show thesis
      by (simp add: expire_def all_due_def work_left_def)
  next
    case (Cons at ats)
    with assms(3) True have "a = Trigger" by (simp add: consumer_action_def)
    with assms Cons True that show thesis
      by (auto simp: receive_trigger_def all_due_def work_left_def)
  qed
next
  case False
  with assms(3) have a: "a = Work" by (simp add: consumer_action_def)
  have "\<exists>s'. work_off s = Some s' \<and> work_left s' < work_left s \<and> all_due s' \<and> bt_senders s' = (\<lambda>_. None) \<and>
      bt_pushed s' = bt_pushed s"
    using assms(1,2) False
    by (cases "bt_consumer s"; cases "bt_queue s") (simp_all add: work_off_def all_due_def work_left_def)
  with a that show thesis by auto
qed

lemma consumer_run_rests:
  assumes "batch_inv s" and "all_due s" and "bt_senders s = (\<lambda>_. None)" and "work_left s \<le> n"
  shows "at_rest (consumer_run n s) \<and> batch_inv (consumer_run n s) \<and> bt_pushed (consumer_run n s) = bt_pushed s"
  using assms
proof (induction n arbitrary: s)
  case 0
  then have "bt_triggers s = []" "bt_delay s = []" "pc_weight (bt_consumer s) = 0" by (simp_all add: work_left_def)
  with 0 show ?case by (cases "bt_consumer s") (simp_all add: at_rest_def)
next
  case (Suc n)
  show ?case
  proof (cases "consumer_action s")
    case None
    with Suc.prems show ?thesis
      by (auto simp: at_rest_def consumer_action_def split: if_splits list.splits)
  next
    case (Some a)
    obtain s' where step: "batch_step a s = Some s'" "work_left s' < work_left s" "all_due s'"
      "bt_senders s' = (\<lambda>_. None)" "action_ok a" "bt_pushed s' = bt_pushed s"
      by (rule consumer_progress [OF Suc.prems(2,3) Some]) (rule that)
    have "batch_inv s'" by (rule step_batch_inv [OF Suc.prems(1) step(5,1)])
    with Suc.IH [of s'] Suc.prems(4) step Some show ?thesis by simp
  qed
qed

text \<open>The deadline only grows, except when the consumer clears it.\<close>

lemma deadline_grows:
  assumes "batch_step a s = Some s'" and "\<not> (a = Work \<and> bt_consumer s = C_Decided)"
    and "instants_inv s"
  shows "bt_deadline s \<le> bt_deadline s'"
proof (cases a)
  case (Sender tid)
  with assms(1) obtain pc where pc: "bt_senders s tid = Some pc" by (auto split: option.splits)
  with assms Sender show ?thesis by (cases pc) (auto simp: Let_def split: if_splits)
qed (use assms in \<open>auto simp: receive_trigger_def expire_def work_off_def
      split: if_splits consumer_pc.splits list.splits\<close>)

end
