(* ===== verification/Agent_Spec.thy ===== *)
theory Agent_Spec
  imports Agent_Input Agent_Config Batch_Processor
begin

text \<open>
  Properties of the agent: how records become a conversation, how the settings of a session
  are inherited, changed, stored and read back, and that the lock-free batching of incoming
  messages delivers each of them once.
\<close>

section \<open>Samples\<close>

text \<open>A summary memory with one case and two records, and one incoming message.\<close>

definition sample_key :: memory_key where
  "sample_key = MemoryKey ''a'' (RoleEvent ''r'' None)"

definition sample_spoken :: "nat \<Rightarrow> string \<Rightarrow> string \<Rightarrow> nat \<Rightarrow> channel_record" where
  "sample_spoken self t text n = \<lparr>cr_msg_id = t, cr_user_id = ''u'', cr_self_user_id = ''bot'',
     cr_messenger_id = ''web'', cr_group_id = ''g'', cr_is_self = self, cr_messenger_name = ''Web'',
     cr_user_name = ''U'', cr_group_name = ''G'', cr_content = Content_Text text, cr_time = t, cr_sn = n\<rparr>"

definition sample_case :: case_node where
  "sample_case = \<lparr>cn_case_name = ''c'', cn_parent_id = None, cn_children = [], cn_summary = ''tea'',
     cn_record_count = 2, cn_start_time = ''1'', cn_end_time = ''2'', cn_created_at = [], cn_updated_at = []\<rparr>"

definition sample_client :: abstract_client where
  "sample_client = \<lparr>ac_base_url = ''u'', ac_network =
     \<lparr>an_locate = (\<lambda>_ _. Envelope (api_success
        \<lparr>lr_cases = [\<lparr>lc_case_name = ''c'', lc_is_current = False\<rparr>], lr_groups = []\<rparr>)),
      an_case_summary = (\<lambda>_ _. Envelope (api_success sample_case)),
      an_records_tail = (\<lambda>_ _. Envelope (api_success
        [Body_Channel (sample_spoken 1 ''3'' ''yes'' 2), Body_Channel (sample_spoken 0 ''2'' ''tea?'' 1)]))\<rparr>\<rparr>"

definition sample_incoming :: incoming_message_event where
  "sample_incoming = \<lparr>ie_recipient_user_id = ''bot'', ie_incoming_message =
     \<lparr>im_msg_id = ''9'', im_messenger_id = ''web'', im_user_id = ''u'', im_group_id = ''g'',
      im_messenger_name = ''Web'', im_user_name = ''U'', im_group_name = ''G'',
      im_content = Content_Text ''more'', im_time = ''9''\<rparr>\<rparr>"

definition sample_channel_config :: channel_config where
  "sample_channel_config = \<lparr>cg_channel_id = ''ch'', cg_ws_url = ''ws'', cg_admins = {}, cg_bind_users = {},
     cg_agent_id = ''a'', cg_role_name = ''r'', cg_enabled = True\<rparr>"

definition sample_llm :: llm_settings where
  "sample_llm = default_llm\<lparr>ls_model := Some ''m''\<rparr>"

definition sample_config :: config_state where
  "sample_config = \<lparr>cs_nexus = default_nexus_repo
      \<lparr>nr_channels := [(''ch'', sample_channel_config)],
       nr_agent_roles := [(''a'', set_config llm_kind [] sample_llm empty_agent_role_config)]\<rparr>,
     cs_station = default_station_repo, cs_nexus_file = None,
     cs_station_file = Some (Json_File default_station_repo), cs_faults = []\<rparr>"

section \<open>Conversations\<close>

text \<open>C28: \<open>pack_memory_messages\<close> cuts the records with a text, from the first that is not the
  agent's own, into segments of one speaker and makes one message of each; what it returns are
  user and assistant messages in turn, the user first and the assistant last, and nothing is
  returned exactly when no one but the agent spoke.\<close>

theorem packing_is_conversation:
  "pack_memory_messages msgs = conversation msgs \<and>
   turns (pack_memory_messages msgs) \<and>
   (pack_memory_messages msgs = [] \<longleftrightarrow> spoken msgs = [])"
  by (simp add: pack_memory_messages_conversation [symmetric] pack_turns pack_empty_iff)

text \<open>C29: When the summary memory answers, the context that is rebuilt from it recalls of the
  case copies exactly the channel records of the time window that have a text and are not among
  the new messages, in the order of time and number; with any such record of another speaker
  the context is user and assistant in turn, and without one it is the block of summaries.\<close>

theorem rebuilt_context:
  assumes located: "client_locate client (mk_agent_id k) (mk_role_event k) (map locate_message_of events) = Inr found"
    and gathered: "gather_cases client k (er_memory_count cfg) (lr_cases found) [] [] = Inr (summaries, tails)"
    and history: "history = map recall
      (filter (recalled (cutoff (er_memory_time_secs cfg)) (new_keys_of events))
        (sort_key record_order (merge_tail_records tails)))"
  shows "rebuild_context k client cfg cutoff events = Inr (compose_context summaries history) \<and>
    (spoken history \<noteq> [] \<longrightarrow> turns (compose_context summaries history)) \<and>
    (spoken history = [] \<and> summaries \<noteq> [] \<longrightarrow>
      compose_context summaries history = [Msg_User (summary_block summaries)])"
proof (intro conjI impI)
  show "rebuild_context k client cfg cutoff events = Inr (compose_context summaries history)"
    using located gathered by (simp add: rebuild_context_def filter_history_eq history)
  show "turns (compose_context summaries history)" if "spoken history \<noteq> []"
    using that by (intro compose_turns) (simp add: pack_empty_iff)
  show "compose_context summaries history = [Msg_User (summary_block summaries)]"
    if "spoken history = [] \<and> summaries \<noteq> []"
    using that by (intro compose_no_history) (simp_all add: pack_empty_iff)
qed

theorem rebuilt_context_witness:
  "let ms = compose_context [''tea'']
       (map recall [sample_spoken 0 ''2'' ''tea?'' 1, sample_spoken 1 ''3'' ''yes'' 2])
   in rebuild_context sample_key sample_client new_effective_recover (\<lambda>_. ''1'') [sample_incoming] = Inr ms \<and> turns ms"
proof -
  let ?found = "\<lparr>lr_cases = [\<lparr>lc_case_name = ''c'', lc_is_current = False\<rparr>], lr_groups = []\<rparr>"
  let ?tail = "[Body_Channel (sample_spoken 1 ''3'' ''yes'' 2), Body_Channel (sample_spoken 0 ''2'' ''tea?'' 1)]"
  let ?history = "map recall [sample_spoken 0 ''2'' ''tea?'' 1, sample_spoken 1 ''3'' ''yes'' 2]"
  have located: "client_locate sample_client (mk_agent_id sample_key) (mk_role_event sample_key)
      (map locate_message_of [sample_incoming]) = Inr ?found" by code_simp
  have gathered: "gather_cases sample_client sample_key (er_memory_count new_effective_recover)
      (lr_cases ?found) [] [] = Inr ([''tea''], [?tail])" by code_simp
  have history: "?history = map recall (filter (recalled ''1'' (new_keys_of [sample_incoming]))
      (sort_key record_order (merge_tail_records [?tail])))"
    by (simp add: sample_spoken_def merge_tail_records_def record_order_def recalled_def new_keys_of_def
        record_message_key_def message_key_def new_message_key_def sample_incoming_def)
  have "spoken ?history \<noteq> []" by code_simp
  with rebuilt_context [where cutoff = "\<lambda>_. ''1''", OF located gathered history] show ?thesis
    by (simp add: Let_def)
qed

section \<open>Settings\<close>

text \<open>Changing the request parameters of a session overlays the fields that are set on what
  the session runs with, and nothing else: every other session, and every other kind of
  settings asked for later, is as before.\<close>

theorem set_llm_overlays:
  assumes "set_session_config llm_kind key c s = (Inr u, s1)" and "session_config llm_kind key' s1 = (r, s2)"
  shows "r = Inr (if key' = key then merge_effective_llm (settings_of llm_kind key (cs_nexus s)) c
                  else settings_of llm_kind key' (cs_nexus s))"
  using llm.session_config_settings(1) [OF assms(2)] llm.set_session_config_settings [OF assms(1), of key']
  by simp

theorem set_llm_overlays_witness:
  "fst (session_config llm_kind (Raw_Session ''x'')
     (snd (set_session_config llm_kind (Raw_Session ''x'') sample_llm sample_config))) =
   Inr (new_effective_llm\<lparr>el_model := ''m''\<rparr>)"
proof -
  let ?set = "set_session_config llm_kind (Raw_Session ''x'') sample_llm sample_config"
  let ?get = "session_config llm_kind (Raw_Session ''x'') (snd ?set)"
  have "fst ?set = Inr ()" by code_simp
  then have 1: "?set = (Inr (), snd ?set)" by (metis prod.collapse)
  have 2: "?get = (fst ?get, snd ?get)" by simp
  have "merge_effective_llm (settings_of llm_kind (Raw_Session ''x'') (cs_nexus sample_config)) sample_llm =
      new_effective_llm\<lparr>el_model := ''m''\<rparr>" by code_simp
  with set_llm_overlays [OF 1 2] show ?thesis by simp
qed

text \<open>The request parameters that are set for the agent and for the role of a session.\<close>

definition llm_layers :: "memory_key \<Rightarrow> nexus_repo \<Rightarrow> llm_settings list" where
  "llm_layers k r =
     (case hm_get (nr_agent_roles r) (mk_agent_id k) of
        None \<Rightarrow> []
      | Some a \<Rightarrow>
          (case mm_llm (ac_config_map a) of Some c \<Rightarrow> [c] | None \<Rightarrow> []) @
          (case hm_get (ac_roles a) (role_name (mk_role_event k)) of
             Some m \<Rightarrow> (case mm_llm m of Some d \<Rightarrow> [d] | None \<Rightarrow> [])
           | None \<Rightarrow> []))"

text \<open>A session for which nothing is kept runs with the program's defaults, overlaid by the
  settings of its agent and then by those of its role, each when they exist; from then on it
  keeps what it got.\<close>

theorem new_session_inherits:
  assumes "cached_settings llm_kind k (nr_memory_sessions (cs_nexus s)) = None"
    and "session_config llm_kind (Memory_Session k) s = (r, s1)"
  shows "r = Inr (fold (\<lambda>c e. merge_effective_llm e c) (llm_layers k (cs_nexus s)) new_effective_llm) \<and>
    fst (session_config llm_kind (Memory_Session k) s1) = r"
proof
  have "settings_of llm_kind (Memory_Session k) (cs_nexus s) =
      fold (\<lambda>c e. merge_effective_llm e c) (llm_layers k (cs_nexus s)) new_effective_llm"
    using llm.settings_of_new_session [OF assms(1)]
    by (auto simp: llm_layers_def llm.layers_def split: option.splits)
  with llm.session_config_settings(1) [OF assms(2)]
  show r: "r = Inr (fold (\<lambda>c e. merge_effective_llm e c) (llm_layers k (cs_nexus s)) new_effective_llm)" by simp
  obtain q s2 where again: "session_config llm_kind (Memory_Session k) s1 = (q, s2)"
    by (cases "session_config llm_kind (Memory_Session k) s1")
  show "fst (session_config llm_kind (Memory_Session k) s1) = r"
    using llm.session_config_settings(1) [OF again] llm.session_config_settings [OF assms(2)] again by simp
qed

theorem new_session_inherits_witness:
  "fst (session_config llm_kind (Memory_Session sample_key) sample_config) =
   Inr (new_effective_llm\<lparr>el_model := ''m''\<rparr>)"
proof -
  let ?get = "session_config llm_kind (Memory_Session sample_key) sample_config"
  have 1: "cached_settings llm_kind sample_key (nr_memory_sessions (cs_nexus sample_config)) = None" by code_simp
  have 2: "?get = (fst ?get, snd ?get)" by simp
  have "fold (\<lambda>c e. merge_effective_llm e c) (llm_layers sample_key (cs_nexus sample_config)) new_effective_llm =
      new_effective_llm\<lparr>el_model := ''m''\<rparr>" by code_simp
  with new_session_inherits [OF 1 2] show ?thesis by simp
qed

text \<open>C30: In every state the program can reach, through any changes, failures of the disk and
  restarts, the keys of the repository are unique, a channel is filed under its own id, and no
  settings of an agent hide under a role without a name; the file, when it can be read, holds
  such a repository too.\<close>

theorem reachable_config_ok: "config_reachable s \<Longrightarrow> config_ok s"
  by (rule config_reachable_ok)

theorem reachable_config_ok_witness:
  "config_ok (snd (add_channel sample_channel_config (fresh_config [False, True])))"
proof -
  have "config_step (fresh_config [False, True]) (snd (add_channel sample_channel_config (fresh_config [False, True])))"
    by (rule config_step.add_channel [OF prod.collapse [symmetric]])
  from config_reachable.step [OF config_reachable.start this] show ?thesis by (rule reachable_config_ok)
qed



text \<open>A change of a channel that does not exist, a provider that is already there and the
  removal of one that is not are refused and leave memory and files as they were; a change that
  fails on the disk is in force in memory all the same, though it was reported as failed.\<close>

theorem refused_and_failed_changes:
  "(hm_get (nr_channels (cs_nexus s)) channel_id = None \<longrightarrow>
      update_channel channel_id f s = (Inl (no_channel channel_id), s) \<and>
      add_admin channel_id u s = (Inl (no_channel channel_id), s)) \<and>
   (if hm_get (nr_providers (cs_nexus s)) name = None then snd (remove_provider name s) = s
    else snd (add_provider name cfg s) = s) \<and>
   (add_channel ch s = (Inl e, s') \<longrightarrow> e = disk_error \<and> channel (cg_channel_id ch) s' = Some ch)"
proof (intro conjI impI)
  assume "hm_get (nr_channels (cs_nexus s)) channel_id = None"
  then show "update_channel channel_id f s = (Inl (no_channel channel_id), s)"
    "add_admin channel_id u s = (Inl (no_channel channel_id), s)"
    by (simp_all add: update_channel_def add_admin_def write_nexus_config_def change_channel_def
        write_key_value_def bind_act_def)
next
  show "if hm_get (nr_providers (cs_nexus s)) name = None then snd (remove_provider name s) = s
    else snd (add_provider name cfg s) = s"
    by (simp add: add_provider_def remove_provider_def write_nexus_config_def)
next
  assume "add_channel ch s = (Inl e, s')"
  then show "e = disk_error" "channel (cg_channel_id ch) s' = Some ch"
    unfolding add_channel_def
    by (cases rule: write_config_Inl; auto simp: channel_def dest!: sym [of _ "cs_nexus s'"])+
qed

theorem refused_and_failed_changes_witness:
  "let s = fresh_config [True]; r = add_channel sample_channel_config s
   in fst r = Inl disk_error \<and> channel ''ch'' (snd r) = Some sample_channel_config \<and>
      add_admin ''ch'' (ChannelUser ''m'' ''u'') s = (Inl (no_channel ''ch''), s)"
proof -
  let ?s = "fresh_config [True]"
  let ?r = "add_channel sample_channel_config ?s"
  have "fst ?r = Inl disk_error"
    by (simp add: add_channel_def write_nexus_config_def store_nexus_def bind_act_def disk_step_def fresh_config_def)
  note failed = this
  then have "?r = (Inl disk_error, snd ?r)" by (metis prod.collapse)
  moreover have "hm_get (nr_channels (cs_nexus ?s)) ''ch'' = None"
    by (simp add: fresh_config_def default_nexus_repo_def)
  ultimately show ?thesis
    using failed refused_and_failed_changes [where s = ?s and channel_id = "''ch''" and u = "ChannelUser ''m'' ''u''" and
        ch = sample_channel_config and e = disk_error and s' = "snd ?r"]
    by (simp add: Let_def sample_channel_config_def)
qed

section \<open>Batches of incoming messages\<close>

text \<open>C8: However the steps of any number of senders and of the consumer interleave: when no call
  of \<open>send\<close> is under way and the clock has passed the deadlines, the consumer alone comes to rest
  after finitely many steps, and then every message that was ever queued has been handed to the
  processor exactly once, in the order of queueing, in batches that are not empty.\<close>

theorem batches_deliver_everything:
  assumes "\<forall>a \<in> set as. action_ok a" and "s = batch_run as (channel_batch_processor now)"
    and "bt_senders s = (\<lambda>_. None)" and "all_due s" and "work_left s \<le> n"
  shows "at_rest (consumer_run n s) \<and>
    concat (bt_batches (consumer_run n s)) = bt_pushed s \<and> [] \<notin> set (bt_batches (consumer_run n s))"
proof (intro conjI)
  have "batch_inv s" using assms(1,2) by (simp add: run_batch_inv start_inv)
  from consumer_run_rests [OF this assms(4,3,5)]
  have rest: "at_rest (consumer_run n s)" and inv: "batch_inv (consumer_run n s)"
    and pushed: "bt_pushed (consumer_run n s) = bt_pushed s" by simp_all
  show "at_rest (consumer_run n s)" by (rule rest)
  show "concat (bt_batches (consumer_run n s)) = bt_pushed s"
    using rest_empty [OF inv rest] pushed by simp
  show "[] \<notin> set (bt_batches (consumer_run n s))"
    using inv by (simp add: batch_inv_def queue_inv_def)
qed

theorem batches_deliver_everything_witness:
  "let as = [Send 1 ''x'' 2, Sender 1, Send 2 ''y'' 1, Sender 2, Sender 1, Sender 1, Sender 2, Sender 2,
             Sender 1, Sender 2, Sender 1, Sender 2, Sender 2, Pass 9000000000];
       s = batch_run as (channel_batch_processor 0)
   in concat (bt_batches (consumer_run 40 s)) = [''x'', ''y''] \<and> at_rest (consumer_run 40 s)"
proof -
  let ?as = "[Send 1 ''x'' 2, Sender 1, Send 2 ''y'' 1, Sender 2, Sender 1, Sender 1, Sender 2, Sender 2,
             Sender 1, Sender 2, Sender 1, Sender 2, Sender 2, Pass 9000000000]"
  let ?s = "batch_run ?as (channel_batch_processor 0)"
  have ok: "\<forall>a \<in> set ?as. action_ok a" by simp
  have idle: "bt_senders ?s = (\<lambda>_. None)"
    by (rule ext) (simp add: channel_batch_processor_def Let_def as_millis_def)
  have due: "all_due ?s" by (simp add: all_due_def channel_batch_processor_def Let_def as_millis_def)
  have left: "work_left ?s \<le> 40" by (simp add: work_left_def channel_batch_processor_def Let_def as_millis_def)
  have pushed: "bt_pushed ?s = [''x'', ''y'']" by (simp add: channel_batch_processor_def Let_def as_millis_def)
  from batches_deliver_everything [OF ok refl idle due left] pushed
  show ?thesis by (simp only: Let_def simp_thms)
qed

end
