(* ===== verification/Web_Values.thy ===== *)
theory Web_Values
  imports Agent_Types
begin

text \<open>
  What the parts that speak HTTP use of \<open>serde_json::Value\<close> and of strings: reading and taking
  out by key and index, and the end of a base URL. Indexing a value for writing panics when the
  value is no object or no array with that index.
\<close>

section \<open>JSON values\<close>

text \<open>\<open>v["k"]\<close> for reading gives null when there is nothing.\<close>

definition json_at :: "string \<Rightarrow> json \<Rightarrow> json" where
  "json_at k v = (case json_get k v of Some x \<Rightarrow> x | None \<Rightarrow> JNull)"

fun json_index :: "nat \<Rightarrow> json \<Rightarrow> json" where
  "json_index i (JArr xs) = (if i < length xs then xs ! i else JNull)"
| "json_index i _ = JNull"

text \<open>\<open>v["k"].take()\<close> and \<open>v[i].take()\<close>: nothing is a panic.\<close>

fun take_key :: "string \<Rightarrow> json \<Rightarrow> json option" where
  "take_key k (JObj kvs) = Some (json_at k (JObj kvs))"
| "take_key k JNull = Some JNull"
| "take_key k _ = None"

fun take_index :: "nat \<Rightarrow> json \<Rightarrow> json option" where
  "take_index i (JArr xs) = (if i < length xs then Some (xs ! i) else None)"
| "take_index i _ = None"

section \<open>URLs\<close>

text \<open>\<open>trim_end_matches('/')\<close>.\<close>

definition trim_end_slashes :: "string \<Rightarrow> string" where
  "trim_end_slashes s = rev (dropWhile (\<lambda>c. c = CHR ''/'') (rev s))"

end
