(* ===== verification/Station.thy ===== *)
theory Station
  imports Agent_Config Web_Values
begin

text \<open>
  \<open>kissbot-agent/src/station.rs\<close> and \<open>station/native.rs\<close>: the tools of a station, its own and those
  of the stations below it, and the calls that are routed to them. The state is extended by the
  other parts of the agent; \<open>sn_net\<close> is the state of all that is reached over the network.
  A \<open>DashMap\<close> is a list, so its order of iteration is any.
\<close>

section \<open>Tools and errors of the protocol\<close>

text \<open>\<open>kissbot-mcp/src/protocol\<close>.\<close>

datatype tool_meta = ToolMeta (tm_group: "string option")

record mcp_tool =
  mt_name :: string
  mt_title :: "string option"
  mt_description :: string
  mt_input_schema :: json
  mt_output_schema :: "json option"
  mt_annotations :: "json option"
  mt_meta :: "tool_meta option"

definition new_tool :: "string \<Rightarrow> string \<Rightarrow> json \<Rightarrow> mcp_tool" where
  "new_tool name description input_schema =
     \<lparr>mt_name = name, mt_title = None, mt_description = description, mt_input_schema = input_schema,
      mt_output_schema = None, mt_annotations = None, mt_meta = None\<rparr>"

definition tool_group :: "mcp_tool \<Rightarrow> string option" where
  "tool_group t = (case mt_meta t of None \<Rightarrow> None | Some m \<Rightarrow> tm_group m)"

definition set_group :: "string \<Rightarrow> mcp_tool \<Rightarrow> mcp_tool" where
  "set_group g t = t\<lparr>mt_meta := Some (ToolMeta (Some g))\<rparr>"

datatype result_type = Complete | Input_Required | Unknown_Result string

record implementation =
  ip_name :: string
  ip_version :: string

record call_tool_result =
  ct_result_type :: result_type
  ct_content :: "content_block list"
  ct_structured_content :: json
  ct_is_error :: bool
  ct_meta :: "implementation option option"

definition text_result :: "string \<Rightarrow> call_tool_result" where
  "text_result text =
     \<lparr>ct_result_type = Complete, ct_content = [content_block_text text], ct_structured_content = JNull,
      ct_is_error = False, ct_meta = None\<rparr>"

definition error_result :: "string \<Rightarrow> call_tool_result" where
  "error_result msg =
     \<lparr>ct_result_type = Complete, ct_content = [content_block_text msg], ct_structured_content = JNull,
      ct_is_error = True, ct_meta = None\<rparr>"

record mcp_error =
  mx_code :: int
  mx_message :: string
  mx_data :: json

definition station_cycle :: int where
  "station_cycle = - 50001"

definition internal :: "string \<Rightarrow> mcp_error" where
  "internal m = \<lparr>mx_code = - 32603, mx_message = m, mx_data = JNull\<rparr>"

definition invalid_params :: "string \<Rightarrow> mcp_error" where
  "invalid_params m = \<lparr>mx_code = - 32602, mx_message = m, mx_data = JNull\<rparr>"

text \<open>The errors of the client; those of foreign crates carry their text.\<close>

datatype mcp_client_error =
    MC_Transport string
  | MC_Http string string
  | MC_Remote mcp_error
  | MC_Decode string

fun client_error_text :: "mcp_client_error \<Rightarrow> string" where
  "client_error_text (MC_Transport e) = ''MCP '' @ utf8 [228, 188, 160, 232, 190, 147, 229, 164, 177, 232, 180, 165] @ '': '' @ e"
| "client_error_text (MC_Http status m) = ''MCP '' @ utf8 [230, 156, 141, 229, 138, 161, 231, 171, 175] @ '' HTTP '' @ status @ '': '' @ m"
| "client_error_text (MC_Remote e) = ''MCP '' @ utf8 [232, 191, 156, 231, 168, 139, 233, 148, 153, 232, 175, 175] @ '' '' @ mx_message e"
| "client_error_text (MC_Decode e) = ''MCP '' @ utf8 [229, 147, 141, 229, 186, 148, 232, 167, 163, 230, 158, 144, 229, 164, 177, 232, 180, 165] @ '': '' @ e"

text \<open>What the client of another station does: \<open>list_tools\<close> and \<open>call_tool\<close> of \<open>McpClient\<close>.\<close>

record 'w mcp_client =
  mc_list_tools :: "string list \<Rightarrow> ('w, mcp_client_error, mcp_tool list) action"
  mc_call_tool :: "string \<Rightarrow> json \<Rightarrow> string list \<Rightarrow> 'w \<Rightarrow> (json \<times> (mcp_client_error + call_tool_result)) \<times> 'w"

section \<open>The tools of a station\<close>

record 'w native_tool =
  nt_config :: mcp_tool
  nt_implement :: "json \<Rightarrow> 'w \<Rightarrow> (json \<times> call_tool_result) \<times> 'w"

record 'w tool_group_of =
  gr_name :: string
  gr_tools :: "'w native_tool list"

definition new_group :: "string \<Rightarrow> 'w tool_group_of" where
  "new_group name = \<lparr>gr_name = name, gr_tools = []\<rparr>"

definition add_tool :: "mcp_tool \<Rightarrow> (json \<Rightarrow> 'w \<Rightarrow> (json \<times> call_tool_result) \<times> 'w) \<Rightarrow> 'w tool_group_of \<Rightarrow> 'w tool_group_of" where
  "add_tool config implement g =
     g\<lparr>gr_tools := gr_tools g @ [\<lparr>nt_config = set_group (gr_name g) config, nt_implement = implement\<rparr>]\<rparr>"

record 'w sub_station =
  ss_config :: sub_station_config
  ss_client :: "'w mcp_client"

definition default_group :: "sub_station_config \<Rightarrow> string" where
  "default_group sub = ''['' @ sc_station_id sub @ '']''"

definition global_name :: "sub_station_config \<Rightarrow> string \<Rightarrow> string" where
  "global_name sub name = (case sc_prefix sub of Some prefix \<Rightarrow> prefix @ name | None \<Rightarrow> name)"

definition local_name :: "sub_station_config \<Rightarrow> string \<Rightarrow> string" where
  "local_name sub name =
     (case sc_prefix sub of
        Some prefix \<Rightarrow> (case strip_prefix prefix name of Some n \<Rightarrow> n | None \<Rightarrow> name)
      | None \<Rightarrow> name)"

record 'w station_state = config_state +
  sn_station_id :: string
  sn_tools :: "(string, 'w native_tool) hmap"
  sn_sub_stations :: "(string, 'w sub_station) hmap"
  sn_tool_routes :: "(string, string) hmap"
  sn_net :: 'w

type_synonym ('w, 'z, 'e, 'a) station_op = "(('w, 'z) station_state_scheme, 'e, 'a) action"

text \<open>Only tools whose name is not taken are entered.\<close>

definition add_group :: "'w native_tool list \<Rightarrow> (string, 'w native_tool) hmap \<Rightarrow> (string, 'w native_tool) hmap" where
  "add_group ts m = fold (\<lambda>t m.
     let tool_name = mt_name (nt_config t)
     in if hm_get m tool_name \<noteq> None then m else hm_insert tool_name t m) ts m"

text \<open>\<open>native_group\<close> is the registry of built-in groups, \<open>connect\<close> makes the client of an endpoint.\<close>

definition from_repo ::
  "(string \<Rightarrow> 'w tool_group_of option) \<Rightarrow> (string \<Rightarrow> 64 word \<Rightarrow> string option \<Rightarrow> 'w mcp_client) \<Rightarrow> station_repo \<Rightarrow> string \<Rightarrow>
   ('w, 'z) station_state_scheme \<Rightarrow> ('w, 'z) station_state_scheme" where
  "from_repo native_group connect repo api_key s =
     s\<lparr>sn_station_id := sr_station_id repo,
       sn_tools := fold (\<lambda>name m. case native_group name of Some g \<Rightarrow> add_group (gr_tools g) m | None \<Rightarrow> m)
         (sr_groups repo) [],
       sn_sub_stations := map (\<lambda>(i, scfg). (i, \<lparr>ss_config = scfg,
         ss_client = connect (trim_end_slashes (sc_base_url scfg) @ ''/mcp'') (sc_timeout_secs scfg) (Some api_key)\<rparr>))
         (sr_sub_stations repo),
       sn_tool_routes := []\<rparr>"

section \<open>Listing\<close>

definition on_net :: "('w, 'e, 'a) action \<Rightarrow> ('w, 'z) station_state_scheme \<Rightarrow> ('e + 'a) \<times> ('w, 'z) station_state_scheme" where
  "on_net m s = (case m (sn_net s) of (r, w) \<Rightarrow> (r, s\<lparr>sn_net := w\<rparr>))"

definition cycle_error :: "string \<Rightarrow> mcp_error" where
  "cycle_error i = \<lparr>mx_code = station_cycle, mx_message = ''station cycle detected: '' @ i, mx_data = JNull\<rparr>"

text \<open>The name is rewritten, and a tool without a group gets that of the station it is from.\<close>

definition adopt_tool :: "sub_station_config \<Rightarrow> mcp_tool \<Rightarrow> mcp_tool" where
  "adopt_tool sub t =
     (let t' = t\<lparr>mt_name := global_name sub (mt_name t)\<rparr>;
          absent = (case mt_meta t' of Some m \<Rightarrow> tm_group m = None | None \<Rightarrow> True)
      in if absent then set_group (default_group sub) t' else t')"

fun merge_sub ::
  "string set \<Rightarrow> sub_station_config \<Rightarrow> mcp_tool list \<Rightarrow> mcp_tool list \<times> (string, string) hmap \<Rightarrow>
   mcp_tool list \<times> (string, string) hmap" where
  "merge_sub local_names sub [] acc = acc"
| "merge_sub local_names sub (t # ts) (tools, routes) =
     (let name = global_name sub (mt_name t)
      in if name \<notin> local_names \<and> hm_get routes name = None
         then merge_sub local_names sub ts
                (tools @ [adopt_tool sub t], hm_insert name (sc_station_id sub) routes)
         else merge_sub local_names sub ts (tools, routes))"

fun list_subs ::
  "string set \<Rightarrow> string list \<Rightarrow> 'w sub_station list \<Rightarrow> mcp_tool list \<times> (string, string) hmap \<Rightarrow>
   ('w, 'z, mcp_error, mcp_tool list \<times> (string, string) hmap) station_op" where
  "list_subs local_names anc [] acc = ret acc"
| "list_subs local_names anc (sub # subs) acc = (\<lambda>s.
     case on_net (mc_list_tools (ss_client sub) anc) s of
       (Inr ts, s') \<Rightarrow> list_subs local_names anc subs (merge_sub local_names (ss_config sub) ts acc) s'
     | (Inl e, s') \<Rightarrow> list_subs local_names anc subs acc s')"

definition list_tools :: "string list \<Rightarrow> ('w, 'z, mcp_error, mcp_tool list) station_op" where
  "list_tools anc = bind_act (read_st sn_station_id) (\<lambda>self.
     if self \<in> set anc then fail (cycle_error self)
     else
       bind_act (read_st sn_tools) (\<lambda>own.
       bind_act (read_st sn_sub_stations) (\<lambda>subs.
       bind_act (list_subs (fst ` set own) (anc @ [self]) (map snd subs) (map (nt_config \<circ> snd) own, []))
         (\<lambda>(tools, routes).
       bind_act (modify_st (\<lambda>s. s\<lparr>sn_tool_routes := routes\<rparr>)) (\<lambda>_.
       ret (sort_key mt_name tools))))))"

definition list_tools_local :: "string set option \<Rightarrow> ('w, 'z, agent_error, mcp_tool list) station_op" where
  "list_tools_local groups s =
     (case list_tools [] s of
        (Inl e, s') \<Rightarrow> (Inl (AE_McpError (mx_message e)), s')
      | (Inr tools, s') \<Rightarrow>
          (Inr (case groups of
             Some gs \<Rightarrow> filter (\<lambda>t. case tool_group t of Some g \<Rightarrow> g \<in> gs | None \<Rightarrow> False) tools
           | None \<Rightarrow> tools), s'))"

section \<open>Calling\<close>

text \<open>The arguments come back with the result.\<close>

definition call_tool ::
  "string \<Rightarrow> json \<Rightarrow> string list \<Rightarrow> ('w, 'z) station_state_scheme \<Rightarrow>
   (json \<times> (mcp_error + call_tool_result)) \<times> ('w, 'z) station_state_scheme" where
  "call_tool name arguments anc s =
     (if sn_station_id s \<in> set anc then ((arguments, Inl (cycle_error (sn_station_id s))), s)
      else case hm_get (sn_tools s) name of
        Some tool \<Rightarrow>
          (case nt_implement tool arguments (sn_net s) of
             ((back, r), w) \<Rightarrow> ((back, Inr r), s\<lparr>sn_net := w\<rparr>))
      | None \<Rightarrow>
          (case (case hm_get (sn_tool_routes s) name of
                   Some station_id \<Rightarrow> hm_get (sn_sub_stations s) station_id
                 | None \<Rightarrow> None) of
             Some sub \<Rightarrow>
               (case mc_call_tool (ss_client sub) (local_name (ss_config sub) name) arguments (anc @ [sn_station_id s]) (sn_net s) of
                  ((back, r), w) \<Rightarrow>
                    ((back, case r of
                       Inr x \<Rightarrow> Inr x
                     | Inl (MC_Remote e) \<Rightarrow> Inl e
                     | Inl e \<Rightarrow> Inl (internal (client_error_text e))), s\<lparr>sn_net := w\<rparr>))
           | None \<Rightarrow> ((arguments, Inl (invalid_params (utf8 [229, 183, 165, 229, 133, 183, 228, 184, 141, 229, 173, 152, 229, 156, 168] @ '': '' @ name))), s)))"

definition call_tool_local ::
  "string \<Rightarrow> json \<Rightarrow> ('w, 'z) station_state_scheme \<Rightarrow>
   (json \<times> (agent_error + call_tool_result)) \<times> ('w, 'z) station_state_scheme" where
  "call_tool_local name arguments s =
     (case call_tool name arguments [] s of
        ((back, Inr r), s') \<Rightarrow> ((back, Inr r), s')
      | ((back, Inl e), s') \<Rightarrow> ((back, Inl (AE_McpError (mx_message e))), s'))"

definition tool_config_from_mcp :: "mcp_tool \<Rightarrow> tool_config" where
  "tool_config_from_mcp t =
     \<lparr>tg_name = mt_name t, tg_description = mt_description t, tg_parameters = mt_input_schema t\<rparr>"

section \<open>Lemmas\<close>

text \<open>What \<open>list_subs\<close> keeps: names are unique, and those of other stations have a route.\<close>

definition listing_ok :: "string set \<Rightarrow> mcp_tool list \<times> (string, string) hmap \<Rightarrow> bool" where
  "listing_ok own acc \<longleftrightarrow>
     distinct (map mt_name (fst acc)) \<and> mt_name ` set (fst acc) = own \<union> dom (hm_get (snd acc)) \<and>
     own \<inter> dom (hm_get (snd acc)) = {}"

text \<open>A tool that another station answered with.\<close>

definition answered :: "string list \<Rightarrow> 'w sub_station list \<Rightarrow> (string, string) hmap \<Rightarrow> mcp_tool \<Rightarrow> bool" where
  "answered anc subs routes t \<longleftrightarrow>
     (\<exists>sub \<in> set subs. \<exists>w ts. \<exists>t0 \<in> set ts. fst (mc_list_tools (ss_client sub) anc w) = Inr ts \<and>
        t = adopt_tool (ss_config sub) t0 \<and>
        hm_get routes (mt_name t) = Some (sc_station_id (ss_config sub)))"

lemma adopt_tool_name [simp]: "mt_name (adopt_tool sub t) = global_name sub (mt_name t)"
  by (simp add: adopt_tool_def Let_def set_group_def)

lemma adopt_tool_group: "tool_group (adopt_tool sub t) \<noteq> None"
  by (simp add: adopt_tool_def Let_def set_group_def tool_group_def split: option.split)

lemma local_global [simp]: "local_name sub (global_name sub n) = n"
  by (simp add: local_name_def global_name_def strip_prefix_def starts_with_def split: option.split)

lemma merge_sub_ok: "listing_ok own acc \<Longrightarrow> listing_ok own (merge_sub own sub ts acc)"
proof (induction own sub ts acc rule: merge_sub.induct)
  case (2 own sub t ts tools routes)
  let ?name = "global_name sub (mt_name t)"
  show ?case
  proof (cases "?name \<notin> own \<and> hm_get routes ?name = None")
    case True
    with 2(3) have "?name \<notin> mt_name ` set tools" by (auto simp: listing_ok_def)
    with 2(3) True have "listing_ok own (tools @ [adopt_tool sub t], hm_insert ?name (sc_station_id sub) routes)"
      by (auto simp: listing_ok_def image_Un)
    with 2(1) True show ?thesis by (simp add: Let_def)
  next
    case False
    with 2(2,3) show ?thesis by (auto simp: Let_def)
  qed
qed simp

lemma merge_sub_routes: "hm_get (snd acc) n = Some i \<Longrightarrow> hm_get (snd (merge_sub own sub ts acc)) n = Some i"
proof (induction own sub ts acc rule: merge_sub.induct)
  case (2 own sub t ts tools routes)
  then show ?case
    by (cases "n = global_name sub (mt_name t)") (auto simp: Let_def)
qed simp

lemma merge_sub_new:
  "t \<in> set (fst (merge_sub own sub ts acc)) \<Longrightarrow>
   t \<in> set (fst acc) \<or>
   (\<exists>t0 \<in> set ts. t = adopt_tool sub t0 \<and>
      hm_get (snd (merge_sub own sub ts acc)) (mt_name t) = Some (sc_station_id sub))"
proof (induction own sub ts acc rule: merge_sub.induct)
  case (2 own sub t' ts tools routes)
  let ?name = "global_name sub (mt_name t')"
  show ?case
  proof (cases "?name \<notin> own \<and> hm_get routes ?name = None")
    case True
    let ?acc = "(tools @ [adopt_tool sub t'], hm_insert ?name (sc_station_id sub) routes)"
    have "hm_get (snd (merge_sub own sub ts ?acc)) ?name = Some (sc_station_id sub)"
      by (rule merge_sub_routes) simp
    with True 2 show ?thesis by (auto simp: Let_def)
  next
    case False
    with 2(2,3) show ?thesis by (fastforce simp: Let_def)
  qed
qed simp

lemma list_subs_result:
  assumes "list_subs own anc subs acc s = (r, s')" and "listing_ok own acc"
  shows "\<exists>acc'. r = Inr acc' \<and> listing_ok own acc' \<and>
      (\<forall>n i. hm_get (snd acc) n = Some i \<longrightarrow> hm_get (snd acc') n = Some i) \<and>
      (\<forall>t \<in> set (fst acc'). t \<in> set (fst acc) \<or> answered anc subs (snd acc') t) \<and>
      (\<exists>w. s' = s\<lparr>sn_net := w\<rparr>)"
  using assms
proof (induction subs arbitrary: acc s)
  case Nil
  then have "s' = s\<lparr>sn_net := sn_net s\<rparr>" by (simp add: ret_def)
  then have "\<exists>w. s' = s\<lparr>sn_net := w\<rparr>" ..
  with Nil show ?case by (cases acc) (auto simp: ret_def)
next
  case (Cons sub subs)
  obtain q w where ask: "mc_list_tools (ss_client sub) anc (sn_net s) = (q, w)" by force
  let ?acc = "case q of Inr ts \<Rightarrow> merge_sub own (ss_config sub) ts acc | Inl e \<Rightarrow> acc"
  from Cons.prems(1) ask have run: "list_subs own anc subs ?acc (s\<lparr>sn_net := w\<rparr>) = (r, s')"
    by (cases q) (simp_all add: on_net_def)
  have ok: "listing_ok own ?acc" using Cons.prems(2) by (cases q) (simp_all add: merge_sub_ok)
  from Cons.IH [OF run ok] obtain acc' w' where r: "r = Inr acc'" "listing_ok own acc'"
    and routes': "\<forall>n i. hm_get (snd ?acc) n = Some i \<longrightarrow> hm_get (snd acc') n = Some i"
    and tools': "\<forall>t \<in> set (fst acc'). t \<in> set (fst ?acc) \<or> answered anc subs (snd acc') t"
    and s': "s' = (s\<lparr>sn_net := w\<rparr>)\<lparr>sn_net := w'\<rparr>" by (elim exE conjE) (rule that)
  note routes = routes' [rule_format] and tools = tools' [rule_format]
  have "t \<in> set (fst acc) \<or> answered anc (sub # subs) (snd acc') t" if t: "t \<in> set (fst acc')" for t
  proof (cases "answered anc subs (snd acc') t")
    case True
    then show ?thesis by (auto simp: answered_def)
  next
    case False
    with tools [OF t] have in_acc: "t \<in> set (fst ?acc)" by simp
    show ?thesis
    proof (cases q)
      case (Inr ts)
      with in_acc merge_sub_new [of t own "ss_config sub" ts acc] show ?thesis
      proof (simp, elim disjE bexE conjE)
        fix t0 assume "t0 \<in> set ts" "t = adopt_tool (ss_config sub) t0"
          and "hm_get (snd (merge_sub own (ss_config sub) ts acc)) (mt_name t) = Some (sc_station_id (ss_config sub))"
        moreover from this Inr have "hm_get (snd acc') (mt_name t) = Some (sc_station_id (ss_config sub))"
          by (intro routes) simp
        ultimately show ?thesis using ask Inr unfolding answered_def by (metis fst_conv list.set_intros(1))
      qed simp
    qed (use in_acc in simp)
  qed
  moreover have "hm_get (snd acc) n = Some i \<Longrightarrow> hm_get (snd acc') n = Some i" for n i
    by (rule routes) (cases q; simp add: merge_sub_routes)
  ultimately show ?case using r s' by auto
qed

text \<open>
  What \<open>from_repo\<close> sets up: own tools are filed under their name and have a group; other stations
  are filed under their id, when the configuration names them so.
\<close>

definition tools_ok :: "(string, 'w native_tool) hmap \<Rightarrow> bool" where
  "tools_ok m \<longleftrightarrow>
     hm_ok m \<and> (\<forall>n t. hm_get m n = Some t \<longrightarrow> mt_name (nt_config t) = n \<and> tool_group (nt_config t) \<noteq> None)"

definition station_ok :: "('w, 'z) station_state_scheme \<Rightarrow> bool" where
  "station_ok s \<longleftrightarrow>
     hm_ok (sn_sub_stations s) \<and>
     tools_ok (sn_tools s) \<and>
     (\<forall>i sub. hm_get (sn_sub_stations s) i = Some sub \<longrightarrow> sc_station_id (ss_config sub) = i)"

lemma add_group_ok:
  "tools_ok m \<Longrightarrow> \<forall>t \<in> set ts. tool_group (nt_config t) \<noteq> None \<Longrightarrow> tools_ok (add_group ts m)"
proof (induction ts arbitrary: m)
  case (Cons t ts)
  let ?m = "if hm_get m (mt_name (nt_config t)) \<noteq> None then m else hm_insert (mt_name (nt_config t)) t m"
  have "tools_ok ?m" using Cons.prems by (auto simp: tools_ok_def simp del: map_of_eq_Some_iff)
  with Cons.IH [of ?m] Cons.prems(2) show ?case by (simp add: add_group_def Let_def)
qed (simp add: add_group_def)

lemma from_repo_ok:
  assumes groups: "\<And>name g t. native_group name = Some g \<Longrightarrow> t \<in> set (gr_tools g) \<Longrightarrow> tool_group (nt_config t) \<noteq> None"
    and "hm_ok (sr_sub_stations repo)"
    and "\<forall>i scfg. hm_get (sr_sub_stations repo) i = Some scfg \<longrightarrow> sc_station_id scfg = i"
  shows "station_ok (from_repo native_group connect repo api_key s)"
proof -
  have "tools_ok (fold (\<lambda>name m. case native_group name of Some g \<Rightarrow> add_group (gr_tools g) m | None \<Rightarrow> m) names m)"
    if "tools_ok m" for names m
    using that
  proof (induction names arbitrary: m)
    case (Cons name names)
    then show ?case using groups [of name]
      by (cases "native_group name") (simp_all add: add_group_ok)
  qed simp
  moreover have "tools_ok []" by (simp add: tools_ok_def)
  moreover have "map_of (map (\<lambda>(i, scfg). (i, f scfg)) xs) i = map_option f (map_of xs i)" for f xs i
    by (induction xs) auto
  ultimately show ?thesis using assms(2,3)
    by (auto simp: from_repo_def station_ok_def o_def case_prod_beta)
qed

lemma listing_start:
  assumes ok: "tools_ok own"
  shows "listing_ok (fst ` set own) (map (nt_config \<circ> snd) own, [])"
proof -
  have "mt_name (nt_config t) = n" if "(n, t) \<in> set own" for n t
    using that ok by (auto simp: tools_ok_def)
  then have names: "map (mt_name \<circ> (nt_config \<circ> snd)) own = map fst own"
    by (auto simp: map_eq_conv)
  then have "map (\<lambda>x. mt_name (nt_config (snd x))) own = map fst own"
    by (auto simp: map_eq_conv)
  then have "(\<lambda>x. mt_name (nt_config (snd x))) ` set own = fst ` set own" by (metis list.set_map)
  with ok show ?thesis by (simp add: listing_ok_def tools_ok_def image_image o_def names [unfolded o_def])
qed

text \<open>What the listing comes to.\<close>

lemma list_tools_Inr:
  assumes ok: "station_ok s" and run: "list_tools anc s = (Inr tools, s')"
  shows "sn_station_id s \<notin> set anc"
    and "sorted (map mt_name tools)" and "distinct (map mt_name tools)"
    and "\<exists>routes w. s' = s\<lparr>sn_net := w, sn_tool_routes := routes\<rparr> \<and>
      (\<forall>t \<in> set tools.
         (\<exists>nt. hm_get (sn_tools s) (mt_name t) = Some nt \<and> t = nt_config nt) \<or>
         hm_get (sn_tools s) (mt_name t) = None \<and>
         answered (anc @ [sn_station_id s]) (map snd (sn_sub_stations s)) routes t) \<and>
      (\<forall>n nt. hm_get (sn_tools s) n = Some nt \<longrightarrow> nt_config nt \<in> set tools)"
proof -
  let ?own = "sn_tools s" and ?anc = "anc @ [sn_station_id s]"
  let ?subs = "list_subs (fst ` set ?own) ?anc (map snd (sn_sub_stations s)) (map (nt_config \<circ> snd) ?own, [])"
  show fresh: "sn_station_id s \<notin> set anc"
    using run by (auto simp: list_tools_def bind_act_def read_st_def fail_def split: if_splits)
  obtain r s1 where subs: "?subs s = (r, s1)" by force
  have own: "tools_ok ?own" using ok by (simp add: station_ok_def)
  from list_subs_result [OF subs listing_start [OF own]] obtain ts routes w
    where r: "r = Inr (ts, routes)" and listing: "listing_ok (fst ` set ?own) (ts, routes)"
      and origin: "\<And>t. t \<in> set ts \<Longrightarrow> t \<in> set (map (nt_config \<circ> snd) ?own) \<or>
        answered ?anc (map snd (sn_sub_stations s)) routes t"
      and s1: "s1 = s\<lparr>sn_net := w\<rparr>" by (cases r) auto
  from run fresh subs r s1 have tools: "tools = sort_key mt_name ts"
    and s': "s' = s\<lparr>sn_net := w, sn_tool_routes := routes\<rparr>"
    by (simp_all add: list_tools_def bind_act_def read_st_def modify_st_def ret_def)
  show "sorted (map mt_name tools)" by (simp add: tools)
  show "distinct (map mt_name tools)"
    using listing by (simp add: tools listing_ok_def distinct_map)
  have "(\<exists>nt. hm_get ?own (mt_name t) = Some nt \<and> t = nt_config nt) \<or>
      hm_get ?own (mt_name t) = None \<and> answered ?anc (map snd (sn_sub_stations s)) routes t"
    if "t \<in> set ts" for t
    using origin [OF that]
  proof
    assume "t \<in> set (map (nt_config \<circ> snd) ?own)"
    then obtain n nt where "(n, nt) \<in> set ?own" and t: "t = nt_config nt" by auto
    with own have "hm_get ?own n = Some nt" "mt_name t = n" by (auto simp: tools_ok_def)
    with t show ?thesis by auto
  next
    assume answered: "answered ?anc (map snd (sn_sub_stations s)) routes t"
    then have "mt_name t \<in> dom (hm_get routes)" by (auto simp: answered_def)
    with listing have "mt_name t \<notin> fst ` set ?own" by (auto simp: listing_ok_def)
    with answered show ?thesis by (simp add: map_of_eq_None_iff)
  qed
  moreover have "nt_config nt \<in> set ts" if get: "hm_get ?own n = Some nt" for n nt
  proof -
    from get own have n: "mt_name (nt_config nt) = n" by (auto simp: tools_ok_def)
    from get have "n \<in> fst ` set ?own" by (metis map_of_eq_None_iff option.distinct(1))
    with listing obtain t where t: "t \<in> set ts" "mt_name t = n"
      by (metis (no_types, lifting) UnI1 fst_conv imageE listing_ok_def)
    with origin [OF t(1)] have "t \<in> set (map (nt_config \<circ> snd) ?own)"
      using listing \<open>n \<in> fst ` set ?own\<close> by (auto simp: answered_def listing_ok_def)
    then obtain m nt' where m: "(m, nt') \<in> set ?own" "t = nt_config nt'" by auto
    with own have "hm_get ?own m = Some nt'" "mt_name t = m" by (auto simp: tools_ok_def)
    with t get m show ?thesis by simp
  qed
  ultimately show "\<exists>routes w. s' = s\<lparr>sn_net := w, sn_tool_routes := routes\<rparr> \<and>
      (\<forall>t \<in> set tools.
         (\<exists>nt. hm_get (sn_tools s) (mt_name t) = Some nt \<and> t = nt_config nt) \<or>
         hm_get (sn_tools s) (mt_name t) = None \<and>
         answered (anc @ [sn_station_id s]) (map snd (sn_sub_stations s)) routes t) \<and>
      (\<forall>n nt. hm_get (sn_tools s) n = Some nt \<longrightarrow> nt_config nt \<in> set tools)"
    using s' by (intro exI [of _ routes] exI [of _ w]) (simp add: tools)
qed

text \<open>A listed tool of another station is called there, by the name it has there.\<close>

lemma answered_called:
  assumes ok: "station_ok s" and "sn_station_id s \<notin> set anc"
    and none: "hm_get (sn_tools s) (mt_name t) = None"
    and "answered asked (map snd (sn_sub_stations s)) (sn_tool_routes s) t"
  obtains sub w ts t0 where "sub \<in> snd ` set (sn_sub_stations s)"
    and "fst (mc_list_tools (ss_client sub) asked w) = Inr ts" and "t0 \<in> set ts"
    and "t = adopt_tool (ss_config sub) t0"
    and "fst (fst (call_tool (mt_name t) arguments anc s)) =
      fst (fst (mc_call_tool (ss_client sub) (mt_name t0) arguments (anc @ [sn_station_id s]) (sn_net s)))"
    and "\<And>x. snd (fst (call_tool (mt_name t) arguments anc s)) = Inr x \<longleftrightarrow>
      snd (fst (mc_call_tool (ss_client sub) (mt_name t0) arguments (anc @ [sn_station_id s]) (sn_net s))) = Inr x"
proof -
  from assms(4) obtain sub w ts t0 where sub: "sub \<in> snd ` set (sn_sub_stations s)"
    and listed: "fst (mc_list_tools (ss_client sub) asked w) = Inr ts" "t0 \<in> set ts"
    and t: "t = adopt_tool (ss_config sub) t0"
    and route: "hm_get (sn_tool_routes s) (mt_name t) = Some (sc_station_id (ss_config sub))"
    unfolding answered_def by (metis set_map)
  from sub obtain i where i: "hm_get (sn_sub_stations s) i = Some sub"
    using ok by (auto simp: station_ok_def)
  with ok have "sc_station_id (ss_config sub) = i" by (auto simp: station_ok_def)
  with i route have found: "(case hm_get (sn_tool_routes s) (mt_name t) of
      Some station_id \<Rightarrow> hm_get (sn_sub_stations s) station_id | None \<Rightarrow> None) = Some sub" by simp
  show thesis
  proof (rule that [OF sub listed t])
    obtain args r w' where call: "mc_call_tool (ss_client sub) (mt_name t0) arguments
        (anc @ [sn_station_id s]) (sn_net s) = ((args, r), w')" by (metis prod.exhaust)
    have "local_name (ss_config sub) (mt_name t) = mt_name t0" by (simp add: t)
    with found none assms(2) call have run: "call_tool (mt_name t) arguments anc s =
        ((args, case r of Inr x \<Rightarrow> Inr x | Inl (MC_Remote e) \<Rightarrow> Inl e | Inl e \<Rightarrow> Inl (internal (client_error_text e))),
         s\<lparr>sn_net := w'\<rparr>)"
      by (simp add: call_tool_def)
    then show "fst (fst (call_tool (mt_name t) arguments anc s)) =
        fst (fst (mc_call_tool (ss_client sub) (mt_name t0) arguments (anc @ [sn_station_id s]) (sn_net s)))"
      by (simp add: call)
    show "\<And>x. snd (fst (call_tool (mt_name t) arguments anc s)) = Inr x \<longleftrightarrow>
        snd (fst (mc_call_tool (ss_client sub) (mt_name t0) arguments (anc @ [sn_station_id s]) (sn_net s))) = Inr x"
      by (auto simp: run call split: sum.splits mcp_client_error.splits)
  qed
qed

end
