(* ===== verification/Read_Tool.thy ===== *)
theory Read_Tool
  imports Station
begin

text \<open>
  \<open>kissbot-agent/src/station/filesystem.rs\<close>: the built-in group \<open>filesystem\<close> with its one tool,
  which reads a text file of the working directory. What the operating system says of a path is
  a parameter.
\<close>

section \<open>Paths\<close>

text \<open>
  The components of an absolute path, as \<open>std::path\<close> gives them: separators that repeat and \<open>.\<close>
  are left out, \<open>..\<close> stays.
\<close>

type_synonym path = "string list"

fun split_slash :: "string \<Rightarrow> string \<Rightarrow> string list" where
  "split_slash acc [] = [acc]"
| "split_slash acc (c # s) = (if c = CHR ''/'' then acc # split_slash [] s else split_slash (acc @ [c]) s)"

definition components :: "string \<Rightarrow> path" where
  "components raw = filter (\<lambda>c. c \<noteq> [] \<and> c \<noteq> ''.'') (split_slash [] raw)"

definition is_absolute :: "string \<Rightarrow> bool" where
  "is_absolute raw \<longleftrightarrow> take 1 raw = ''/''"

definition path_parent :: "path \<Rightarrow> path option" where
  "path_parent p = (if p = [] then None else Some (butlast p))"

text \<open>\<open>file_name\<close> of a path that ends in \<open>..\<close> is nothing; joining the empty name adds nothing.\<close>

definition file_name :: "path \<Rightarrow> path" where
  "file_name p = (if p = [] \<or> last p = ''..'' then [] else [last p])"

definition path_starts_with :: "path \<Rightarrow> path \<Rightarrow> bool" where
  "path_starts_with p base \<longleftrightarrow> take (length base) p = base"

definition path_display :: "path \<Rightarrow> string" where
  "path_display p = (if p = [] then ''/'' else concat (map (\<lambda>c. ''/'' @ c) p))"

text \<open>\<open>canonicalize\<close> and \<open>read\<close>: nothing, or the text of the error, when the system refuses.\<close>

record os_files =
  of_canonicalize :: "path \<Rightarrow> path option"
  of_read :: "path \<Rightarrow> string + string"

definition canonical_or_self :: "os_files \<Rightarrow> path \<Rightarrow> path" where
  "canonical_or_self fs p = (case of_canonicalize fs p of Some q \<Rightarrow> q | None \<Rightarrow> p)"

definition resolve_safe_path :: "os_files \<Rightarrow> path \<Rightarrow> string \<Rightarrow> agent_error + path" where
  "resolve_safe_path fs cwd raw =
     (let absolute = (if is_absolute raw then components raw else cwd @ components raw);
          canon = (case of_canonicalize fs absolute of
              Some q \<Rightarrow> q
            | None \<Rightarrow>
                (case (case path_parent absolute of Some p \<Rightarrow> of_canonicalize fs p | None \<Rightarrow> None) of
                   Some q \<Rightarrow> q @ file_name absolute
                 | None \<Rightarrow> absolute))
      in if \<not> path_starts_with canon (canonical_or_self fs cwd)
         then Inl (AE_InternalError (utf8 [232, 183, 175, 229, 190, 132, 232, 182, 138, 231, 149, 140] @ '': '' @ raw))
         else Inr canon)"

section \<open>Text of bytes\<close>

text \<open>
  \<open>String::from_utf8_lossy\<close>: the ranges of the bytes that have to follow a first byte; a sequence
  that breaks off is replaced as far as it was in order.
\<close>

definition follow :: "nat \<Rightarrow> (nat \<times> nat) list option" where
  "follow b =
     (if b < 128 then Some []
      else if 194 \<le> b \<and> b \<le> 223 then Some [(128, 191)]
      else if b = 224 then Some [(160, 191), (128, 191)]
      else if b = 237 then Some [(128, 159), (128, 191)]
      else if 225 \<le> b \<and> b \<le> 239 then Some [(128, 191), (128, 191)]
      else if b = 240 then Some [(144, 191), (128, 191), (128, 191)]
      else if 241 \<le> b \<and> b \<le> 243 then Some [(128, 191), (128, 191), (128, 191)]
      else if b = 244 then Some [(128, 143), (128, 191), (128, 191)]
      else None)"

fun in_order :: "(nat \<times> nat) list \<Rightarrow> nat list \<Rightarrow> nat" where
  "in_order ((lo, hi) # rs) (b # bs) = (if lo \<le> b \<and> b \<le> hi then Suc (in_order rs bs) else 0)"
| "in_order _ _ = 0"

definition replacement :: "nat list" where
  "replacement = [239, 191, 189]"

function lossy_bytes :: "nat list \<Rightarrow> nat list" where
  "lossy_bytes [] = []"
| "lossy_bytes (b # bs) =
     (case follow b of
        None \<Rightarrow> replacement @ lossy_bytes bs
      | Some rs \<Rightarrow>
          (let n = in_order rs bs
           in (if n = length rs then b # take n bs else replacement) @ lossy_bytes (drop n bs)))"
  by pat_completeness auto

termination by (relation "measure length") auto

definition from_utf8_lossy :: "string \<Rightarrow> string" where
  "from_utf8_lossy s = utf8 (lossy_bytes (map of_char s))"

section \<open>The tool\<close>

definition read_max_bytes :: nat where
  "read_max_bytes = 64 * 1024"

definition builtin_group_filesystem :: string where
  "builtin_group_filesystem = ''filesystem''"

definition read_tool :: mcp_tool where
  "read_tool = new_tool ''read''
     (utf8 [232, 175, 187, 229, 143, 150, 230, 150, 135, 230, 156, 172, 230, 150, 135, 228, 187, 182, 229, 134, 133, 229, 174, 185, 239, 188, 136, 232, 183, 175, 229, 190, 132, 233, 153, 144, 229, 189, 147, 229, 137, 141, 229, 183, 165, 228, 189, 156, 231, 155, 174, 229, 189, 149, 229, 134, 133, 239, 188, 140, 232, 191, 148, 229, 155, 158, 233, 153, 144, 233, 149, 191] @ '' 64KB'' @ utf8 [239, 188, 137])
     (JObj [(''properties'', JObj [(''path'', JObj
         [(''description'', JStr (utf8 [230, 150, 135, 228, 187, 182, 232, 183, 175, 229, 190, 132, 239, 188, 136, 231, 155, 184, 229, 175, 185, 230, 136, 150, 231, 187, 157, 229, 175, 185, 239, 188, 140, 233, 153, 144, 229, 183, 165, 228, 189, 156, 231, 155, 174, 229, 189, 149, 229, 134, 133, 239, 188, 137])),
          (''type'', JStr ''string'')])]),
       (''required'', JArr [JStr ''path'']), (''type'', JStr ''object'')])"

definition read_call :: "os_files \<Rightarrow> path \<Rightarrow> json \<Rightarrow> json \<times> call_tool_result" where
  "read_call fs cwd arguments =
     (arguments,
      case (case json_get ''path'' arguments of Some v \<Rightarrow> as_str v | None \<Rightarrow> None) of
        None \<Rightarrow> error_result (utf8 [231, 188, 186, 229, 176, 145, 229, 143, 130, 230, 149, 176] @ '' path'')
      | Some raw \<Rightarrow>
          (case resolve_safe_path fs cwd raw of
             Inl e \<Rightarrow> error_result (utf8 [232, 183, 175, 229, 190, 132, 232, 167, 163, 230, 158, 144, 229, 164, 177, 232, 180, 165] @ '': '' @ error_text e)
           | Inr safe \<Rightarrow>
               (case of_read fs safe of
                  Inr content \<Rightarrow> text_result (from_utf8_lossy (take read_max_bytes content))
                | Inl e \<Rightarrow> error_result (utf8 [232, 175, 187, 229, 143, 150, 230, 150, 135, 228, 187, 182, 229, 164, 177, 232, 180, 165] @ '' '' @ path_display safe @ '': '' @ e))))"

text \<open>\<open>files\<close> gives the file system in a state of the world.\<close>

definition filesystem_group :: "('w \<Rightarrow> os_files) \<Rightarrow> path \<Rightarrow> 'w tool_group_of" where
  "filesystem_group files cwd =
     add_tool read_tool (\<lambda>arguments w. (read_call (files w) cwd arguments, w)) (new_group builtin_group_filesystem)"

definition native_group :: "('w \<Rightarrow> os_files) \<Rightarrow> path \<Rightarrow> string \<Rightarrow> 'w tool_group_of option" where
  "native_group files cwd name =
     (if name = builtin_group_filesystem then Some (filesystem_group files cwd) else None)"

section \<open>Lemmas\<close>

lemma native_group_tools:
  "native_group files cwd name = Some g \<Longrightarrow> t \<in> set (gr_tools g) \<Longrightarrow> tool_group (nt_config t) \<noteq> None"
  by (auto simp: native_group_def filesystem_group_def add_tool_def new_group_def tool_group_def set_group_def
      split: if_splits)

text \<open>What is known of an operating system whose files nobody moves.\<close>

definition steady_files :: "os_files \<Rightarrow> bool" where
  "steady_files fs \<longleftrightarrow>
     (\<forall>p content. of_read fs p = Inr content \<longrightarrow> of_canonicalize fs p \<noteq> None) \<and>
     (\<forall>p q. of_canonicalize fs p = Some q \<longrightarrow> of_canonicalize fs q = Some q) \<and>
     (\<forall>p q. p \<noteq> [] \<longrightarrow> of_canonicalize fs (butlast p) = Some q \<longrightarrow> last p \<noteq> ''..'' \<longrightarrow>
        of_canonicalize fs (q @ [last p]) = of_canonicalize fs p)"

lemma resolved_canonical:
  assumes "steady_files fs" and "resolve_safe_path fs cwd raw = Inr p" and "of_read fs p = Inr content"
  shows "of_canonicalize fs p = Some p \<and> path_starts_with p (canonical_or_self fs cwd)"
proof -
  let ?abs = "if is_absolute raw then components raw else cwd @ components raw"
  from assms(2) have base: "path_starts_with p (canonical_or_self fs cwd)"
    by (simp add: resolve_safe_path_def Let_def split: if_splits)
  from assms(1,3) have some: "of_canonicalize fs p \<noteq> None" by (simp add: steady_files_def)
  have "of_canonicalize fs p = Some p"
  proof (cases "of_canonicalize fs ?abs")
    case (Some q)
    with assms(2) have "p = q" by (simp add: resolve_safe_path_def Let_def split: if_splits)
    with Some assms(1) show ?thesis by (simp add: steady_files_def)
  next
    case None
    show ?thesis
    proof (cases "case path_parent ?abs of Some p \<Rightarrow> of_canonicalize fs p | None \<Rightarrow> None")
      case parent: (Some q)
      then have ne: "?abs \<noteq> []" and q: "of_canonicalize fs (butlast ?abs) = Some q"
        by (simp_all add: path_parent_def split: if_splits)
      from assms(2) None parent have p: "p = q @ file_name ?abs"
        by (simp add: resolve_safe_path_def Let_def split: if_splits)
      show ?thesis
      proof (cases "last ?abs = ''..''")
        case True
        with p assms(1) q show ?thesis by (simp add: file_name_def steady_files_def)
      next
        case False
        with assms(1) ne q have "of_canonicalize fs (q @ [last ?abs]) = of_canonicalize fs ?abs"
          by (simp add: steady_files_def)
        with None some p ne False show ?thesis by (simp add: file_name_def)
      qed
    next
      case no_parent: None
      with assms(2) None have "p = ?abs" by (simp add: resolve_safe_path_def Let_def split: if_splits)
      with None some show ?thesis by simp
    qed
  qed
  with base show ?thesis by simp
qed

text \<open>Text that is valid stays as it is, and what comes out is valid.\<close>

inductive valid_utf8 :: "nat list \<Rightarrow> bool" where
  empty: "valid_utf8 []"
| char: "follow b = Some rs \<Longrightarrow> length cs = length rs \<Longrightarrow> in_order rs cs = length rs \<Longrightarrow> valid_utf8 bs \<Longrightarrow>
    valid_utf8 (b # cs @ bs)"

lemma in_order_le: "in_order rs bs \<le> length rs \<and> in_order rs bs \<le> length bs"
  by (induction rs bs rule: in_order.induct) auto

lemma in_order_take: "in_order rs (take (in_order rs bs) bs) = in_order rs bs"
  by (induction rs bs rule: in_order.induct) auto

lemma in_order_append: "length cs = length rs \<Longrightarrow> in_order rs (cs @ bs) = in_order rs cs"
  by (induction rs cs rule: in_order.induct) auto

lemma lossy_valid: "valid_utf8 bs \<Longrightarrow> lossy_bytes bs = bs"
  by (induction rule: valid_utf8.induct) (simp_all add: in_order_append Let_def)

lemma valid_replacement: "valid_utf8 bs \<Longrightarrow> valid_utf8 (replacement @ bs)"
  using valid_utf8.char [of 239 "[(128, 191), (128, 191)]" "[191, 189]" bs]
  by (simp add: follow_def replacement_def)

lemma valid_lossy: "valid_utf8 (lossy_bytes bs)"
proof (induction bs rule: lossy_bytes.induct)
  case (2 b bs)
  show ?case
  proof (cases "follow b")
    case None
    with 2 show ?thesis by (simp add: valid_replacement)
  next
    case (Some rs)
    let ?n = "in_order rs bs"
    have rest: "valid_utf8 (lossy_bytes (drop ?n bs))" using 2(2) [OF Some] by simp
    show ?thesis
    proof (cases "?n = length rs")
      case True
      moreover have "length (take ?n bs) = length rs" using True in_order_le [of rs bs] by simp
      moreover have "in_order rs (take ?n bs) = length rs" using in_order_take [of rs bs] True by simp
      ultimately have "valid_utf8 (b # take ?n bs @ lossy_bytes (drop ?n bs))"
        using Some rest by (intro valid_utf8.char) simp_all
      with Some True show ?thesis by (simp add: Let_def)
    next
      case False
      with Some rest show ?thesis by (simp add: Let_def valid_replacement)
    qed
  qed
qed (simp add: valid_utf8.empty)

end
