(* ===== verification/Llm_Provider.thy ===== *)
theory Llm_Provider
  imports Web_Values Session_Config Llm_Model
begin

text \<open>
  \<open>kissbot-llm/src/provider.rs\<close>: the requests to the two kinds of providers, the reading of their
  answers, and the retries. What comes of an HTTP request is a parameter. Reading an answer may
  panic, which ends the task it happens in.
\<close>

section \<open>Messages as JSON\<close>

definition unless_null :: "string \<Rightarrow> json \<Rightarrow> (string \<times> json) list" where
  "unless_null k v = (if v = JNull then [] else [(k, v)])"

fun message_json :: "chat_message \<Rightarrow> json" where
  "message_json (Msg_System content) = JObj [(''role'', JStr ''system''), (''content'', JStr content)]"
| "message_json (Msg_User content) = JObj [(''role'', JStr ''user''), (''content'', JStr content)]"
| "message_json (Msg_Assistant content reasoning tool_calls) =
     JObj ((''role'', JStr ''assistant'') # unless_null ''content'' content @
       unless_null ''reasoning_content'' reasoning @ unless_null ''tool_calls'' tool_calls)"
| "message_json (Msg_Tool tool_call_id content) =
     JObj [(''role'', JStr ''tool''), (''tool_call_id'', JStr tool_call_id), (''content'', JStr content)]"

definition text_field :: "string \<Rightarrow> json \<Rightarrow> string option" where
  "text_field k v = as_str (json_at k v)"

definition message_of_json :: "json \<Rightarrow> chat_message option" where
  "message_of_json v =
     (case text_field ''role'' v of
        None \<Rightarrow> None
      | Some role \<Rightarrow>
          if role = ''system'' then map_option Msg_System (text_field ''content'' v)
          else if role = ''user'' then map_option Msg_User (text_field ''content'' v)
          else if role = ''assistant'' then
            Some (Msg_Assistant (json_at ''content'' v) (json_at ''reasoning_content'' v) (json_at ''tool_calls'' v))
          else if role = ''tool'' then
            (case (text_field ''tool_call_id'' v, text_field ''content'' v) of
               (Some i, Some c) \<Rightarrow> Some (Msg_Tool i c) | _ \<Rightarrow> None)
          else None)"

section \<open>The tag of a thought\<close>

fun find_text :: "string \<Rightarrow> string \<Rightarrow> (string \<times> string) option" where
  "find_text pat s =
     (case strip_prefix pat s of
        Some rest \<Rightarrow> Some ([], rest)
      | None \<Rightarrow> (case s of
            [] \<Rightarrow> None
          | c # cs \<Rightarrow> map_option (\<lambda>(a, b). (c # a, b)) (find_text pat cs)))"

declare find_text.simps [simp del]

definition strip_think_tag :: "string \<Rightarrow> string option \<times> string option" where
  "strip_think_tag content =
     (case strip_prefix ''<think>'' (trim_start content) of
        Some rest \<Rightarrow>
          (case find_text ''</think>'' rest of
             Some (thinking, stripped) \<Rightarrow> (Some stripped, Some thinking)
           | None \<Rightarrow> (Some content, None))
      | None \<Rightarrow> (Some content, None))"

section \<open>What HTTP answers\<close>

datatype http_answer =
    No_Answer string
  | Bad_Status string string
  | Not_Json string
  | Json_Answer json

record 'w http_net =
  hn_post :: "string \<Rightarrow> 64 word \<Rightarrow> (string \<times> string) list \<Rightarrow> json \<Rightarrow> 'w \<Rightarrow> http_answer \<times> 'w"
  hn_get :: "string \<Rightarrow> 64 word \<Rightarrow> (string \<times> string) list \<Rightarrow> 'w \<Rightarrow> http_answer \<times> 'w"

definition json_answer :: "string \<Rightarrow> http_answer \<times> 'w \<Rightarrow> (llm_failure + json) \<times> 'w" where
  "json_answer api a =
     (case a of
        (No_Answer e, w) \<Rightarrow> (Inl (LF_ReqwestError e), w)
      | (Bad_Status status m, w) \<Rightarrow> (Inl (LF_ModelApiError (api @ '' '' @ status @ '': '' @ m)), w)
      | (Not_Json e, w) \<Rightarrow> (Inl (LF_ReqwestError e), w)
      | (Json_Answer v, w) \<Rightarrow> (Inr v, w))"

fun model_names :: "json list \<Rightarrow> string list" where
  "model_names [] = []"
| "model_names (m # ms) = (case as_str (json_at ''id'' m) of Some i \<Rightarrow> i # model_names ms | None \<Rightarrow> model_names ms)"

definition models_of :: "json \<Rightarrow> string list" where
  "models_of data = (case as_array (json_at ''data'' data) of Some ms \<Rightarrow> model_names ms | None \<Rightarrow> [])"

section \<open>OpenAI\<close>

datatype openai_thinking = Thinking_Enabled | Thinking_Disabled

record openai_request =
  oq_model :: string
  oq_messages :: "chat_message list"
  oq_stream :: bool
  oq_tools :: "tool_config list option"
  oq_max_tokens :: "32 word option"
  oq_temperature :: "32 word option"
  oq_thinking :: "openai_thinking option"
  oq_reasoning_effort :: "string option"

definition openai_build_request :: "effective_llm \<Rightarrow> chat_message list \<Rightarrow> tool_config list \<Rightarrow> openai_request" where
  "openai_build_request cfg messages tools =
     \<lparr>oq_model = el_model cfg, oq_messages = messages, oq_stream = False,
      oq_tools = (if tools = [] then None else Some tools), oq_max_tokens = el_max_tokens cfg,
      oq_temperature = el_temperature cfg,
      oq_thinking = (case el_thinking cfg of
          Some t \<Rightarrow> if t = ''enabled'' then Some Thinking_Enabled
                    else if t = ''disabled'' then Some Thinking_Disabled else None
        | None \<Rightarrow> None),
      oq_reasoning_effort = el_reasoning_effort cfg\<rparr>"

definition when_some :: "string \<Rightarrow> ('a \<Rightarrow> json) \<Rightarrow> 'a option \<Rightarrow> (string \<times> json) list" where
  "when_some k f x = (case x of Some y \<Rightarrow> [(k, f y)] | None \<Rightarrow> [])"

definition tool_json :: "tool_config \<Rightarrow> json" where
  "tool_json t = JObj [(''type'', JStr ''function''),
     (''function'', JObj [(''name'', JStr (tg_name t)), (''description'', JStr (tg_description t)),
        (''parameters'', tg_parameters t)])]"

text \<open>The request as it is sent; \<open>float\<close> gives the JSON number of the bits of an \<open>f32\<close>.\<close>

definition openai_request_json :: "(32 word \<Rightarrow> json) \<Rightarrow> openai_request \<Rightarrow> json" where
  "openai_request_json float q =
     JObj ([(''model'', JStr (oq_model q)), (''messages'', JArr (map message_json (oq_messages q))),
       (''stream'', JBool (oq_stream q))] @
       when_some ''tools'' (\<lambda>ts. JArr (map tool_json ts)) (oq_tools q) @
       when_some ''max_tokens'' (\<lambda>n. JInt (uint n)) (oq_max_tokens q) @
       when_some ''temperature'' float (oq_temperature q) @
       when_some ''thinking'' (\<lambda>t. JObj [(''type'',
         JStr (case t of Thinking_Enabled \<Rightarrow> ''enabled'' | Thinking_Disabled \<Rightarrow> ''disabled''))]) (oq_thinking q) @
       when_some ''reasoning_effort'' JStr (oq_reasoning_effort q))"

definition openai_tool_call :: "json \<Rightarrow> tool_call option" where
  "openai_tool_call v =
     (case (as_str (json_at ''id'' v), as_str (json_at ''name'' (json_at ''function'' v))) of
        (Some i, Some name) \<Rightarrow>
          Some \<lparr>tl_id = i, tl_name = name, tl_arguments = json_at ''arguments'' (json_at ''function'' v),
            tl_result_arguments = None, tl_result = None\<rparr>
      | _ \<Rightarrow> None)"

text \<open>Nothing is a panic.\<close>

definition openai_parse_response :: "json \<Rightarrow> llm_response option" where
  "openai_parse_response data =
     (let total_tokens = (case as_u64 (json_at ''total_tokens'' (json_at ''usage'' data)) of Some n \<Rightarrow> n | None \<Rightarrow> 0)
      in Option.bind (take_key ''choices'' data) (\<lambda>choices.
         Option.bind (take_index 0 choices) (\<lambda>choice.
         Option.bind (take_key ''message'' choice) (\<lambda>message.
         Option.bind (take_key ''content'' message) (\<lambda>raw_content.
         Option.bind (take_key ''reasoning_content'' message) (\<lambda>raw_reasoning.
         Option.bind (take_key ''tool_calls'' message) (\<lambda>raw_tool_calls.
         Option.bind (take_key ''finish_reason'' choice) (\<lambda>finish.
           let (content, thinking) = (case as_str raw_content of Some c \<Rightarrow> strip_think_tag c | None \<Rightarrow> (None, None))
           in Some \<lparr>lr_raw_content = raw_content, lr_content = content, lr_thinking = thinking,
                lr_raw_reasoning_content = raw_reasoning, lr_reasoning_content = as_str raw_reasoning,
                lr_raw_tool_calls = raw_tool_calls,
                lr_tool_calls = map_option (List.map_filter openai_tool_call) (as_array raw_tool_calls),
                lr_finish_reason = as_str finish, lr_total_tokens = of_nat total_tokens\<rparr>))))))))"

definition openai_headers :: "provider_config \<Rightarrow> (string \<times> string) list" where
  "openai_headers p = [(''Authorization'', ''Bearer '' @ pc_api_key p)]"

definition openai_send_request ::
  "'w http_net \<Rightarrow> (32 word \<Rightarrow> json) \<Rightarrow> provider_config \<Rightarrow> 64 word \<Rightarrow> openai_request \<Rightarrow> ('w, llm_failure, json) action" where
  "openai_send_request net float p timeout q w =
     json_answer ''OpenAI API'' (hn_post net (trim_end_slashes (pc_base_url p) @ ''/chat/completions'') timeout
       (openai_headers p) (openai_request_json float q) w)"

definition openai_list_models :: "'w http_net \<Rightarrow> provider_config \<Rightarrow> ('w, llm_failure, string list) action" where
  "openai_list_models net p w =
     (case json_answer ''OpenAI models API'' (hn_get net (trim_end_slashes (pc_base_url p) @ ''/models'') 30 (openai_headers p) w) of
        (Inl e, w') \<Rightarrow> (Inl e, w')
      | (Inr data, w') \<Rightarrow> (Inr (models_of data), w'))"

section \<open>Anthropic\<close>

definition default_anthropic_max_tokens :: "32 word" where
  "default_anthropic_max_tokens = 65535"

fun system_part :: "chat_message \<Rightarrow> string option" where
  "system_part (Msg_System content) = Some content"
| "system_part _ = None"

fun anthropic_message :: "chat_message \<Rightarrow> json option" where
  "anthropic_message (Msg_System content) = None"
| "anthropic_message (Msg_User content) = Some (JObj [(''role'', JStr ''user''), (''content'', JStr content)])"
| "anthropic_message (Msg_Assistant content _ _) = Some (JObj [(''role'', JStr ''assistant''), (''content'', content)])"
| "anthropic_message (Msg_Tool _ _) = None"

definition anthropic_build_request :: "(32 word \<Rightarrow> json) \<Rightarrow> effective_llm \<Rightarrow> chat_message list \<Rightarrow> tool_config list \<Rightarrow> json" where
  "anthropic_build_request float cfg messages tools =
     (let system = join newline (List.map_filter system_part messages) in
      JObj ([(''model'', JStr (el_model cfg)), (''messages'', JArr (List.map_filter anthropic_message messages)),
        (''max_tokens'', JInt (uint (case el_max_tokens cfg of Some n \<Rightarrow> n | None \<Rightarrow> default_anthropic_max_tokens)))] @
        (if system = [] then [] else [(''system'', JStr system)]) @
        when_some ''temperature'' float (el_temperature cfg) @
        when_some ''thinking'' (\<lambda>t. JObj [(''type'', JStr t)]) (el_thinking cfg) @
        when_some ''output_config'' (\<lambda>e. JObj [(''effort'', JStr e)]) (el_reasoning_effort cfg)))"

fun anthropic_blocks :: "json list \<Rightarrow> string option \<times> string option \<Rightarrow> string option \<times> string option" where
  "anthropic_blocks [] acc = acc"
| "anthropic_blocks (b # bs) (reasoning, content) =
     anthropic_blocks bs
       (if as_str (json_at ''type'' b) = Some ''thinking'' \<and> reasoning = None
        then (as_str (json_at ''thinking'' b), content)
        else if as_str (json_at ''type'' b) = Some ''text'' \<and> content = None
        then (reasoning, as_str (json_at ''text'' b))
        else (reasoning, content))"

definition anthropic_parse_response :: "json \<Rightarrow> llm_response option" where
  "anthropic_parse_response data =
     Option.bind (take_key ''content'' data) (\<lambda>raw_content.
       let (reasoning, text) = (case as_array raw_content of Some bs \<Rightarrow> anthropic_blocks bs (None, None) | None \<Rightarrow> (None, None));
           (content, thinking) = (case text of Some c \<Rightarrow> strip_think_tag c | None \<Rightarrow> (None, None))
       in Some \<lparr>lr_raw_content = raw_content, lr_content = content, lr_thinking = thinking,
            lr_raw_reasoning_content = JNull, lr_reasoning_content = reasoning, lr_raw_tool_calls = JNull,
            lr_tool_calls = None, lr_finish_reason = as_str (json_at ''stop_reason'' data), lr_total_tokens = 0\<rparr>)"

definition anthropic_headers :: "provider_config \<Rightarrow> (string \<times> string) list" where
  "anthropic_headers p = [(''x-api-key'', pc_api_key p), (''anthropic-version'', ''2023-06-01'')]"

definition anthropic_send_request :: "'w http_net \<Rightarrow> provider_config \<Rightarrow> 64 word \<Rightarrow> json \<Rightarrow> ('w, llm_failure, json) action" where
  "anthropic_send_request net p timeout q w =
     json_answer ''Anthropic API'' (hn_post net (trim_end_slashes (pc_base_url p) @ ''/v1/messages'') timeout (anthropic_headers p) q w)"

definition anthropic_list_models :: "'w http_net \<Rightarrow> provider_config \<Rightarrow> ('w, llm_failure, string list) action" where
  "anthropic_list_models net p w =
     (case json_answer ''Anthropic models API'' (hn_get net (trim_end_slashes (pc_base_url p) @ ''/v1/models'') 30 (anthropic_headers p) w) of
        (Inl e, w') \<Rightarrow> (Inl e, w')
      | (Inr data, w') \<Rightarrow> (Inr (models_of data), w'))"

section \<open>Retries\<close>

text \<open>An unsupported provider is a permanent error; the pauses between attempts are left out.\<close>

fun permanent :: "llm_failure \<Rightarrow> bool" where
  "permanent (LF_ModelProviderNotSupported m) \<longleftrightarrow> True"
| "permanent _ \<longleftrightarrow> False"

primrec attempts :: "nat \<Rightarrow> ('w, llm_failure, json) action \<Rightarrow> llm_failure \<Rightarrow> ('w, llm_failure, json) action" where
  "attempts 0 send last_error w = (Inl last_error, w)"
| "attempts (Suc n) send last_error w =
     (case send w of
        (Inr v, w') \<Rightarrow> (Inr v, w')
      | (Inl e, w') \<Rightarrow> if permanent e then (Inl e, w') else attempts n send e w')"

text \<open>The answer is read once one has come; reading it may panic, which is nothing.\<close>

definition request_with_retry ::
  "effective_model_config \<Rightarrow> ('w, llm_failure, json) action \<Rightarrow> (json \<Rightarrow> llm_response option) \<Rightarrow>
   ('w, llm_failure, llm_response option) action" where
  "request_with_retry cfg send parse w =
     (case attempts (Suc (unat (em_retry_count cfg))) send (LF_ModelApiError (utf8 [230, 168, 161, 229, 158, 139, 232, 176, 131, 231, 148, 168, 229, 164, 177, 232, 180, 165])) w of
        (Inl e, w') \<Rightarrow> (Inl e, w')
      | (Inr v, w') \<Rightarrow> (Inr (parse v), w'))"

section \<open>Lemmas\<close>

lemma message_roundtrip: "message_of_json (message_json m) = Some m"
  by (cases m) (simp_all add: message_of_json_def text_field_def json_at_def unless_null_def)

text \<open>The thought is what stands between the first two tags, when the first one is at the start.\<close>

lemma find_text_Some:
  "find_text pat s = Some (a, b) \<Longrightarrow> s = a @ pat @ b"
proof (induction s arbitrary: a)
  case Nil
  then show ?case
    by (auto simp: find_text.simps [of pat "[]"] strip_prefix_def starts_with_def split: if_splits)
next
  case (Cons c s)
  show ?case
  proof (cases "strip_prefix pat (c # s)")
    case None
    with Cons.prems obtain a' where "find_text pat s = Some (a', b)" and "a = c # a'"
      by (auto simp: find_text.simps [of pat "c # s"])
    with Cons.IH show ?thesis by simp
  next
    case (Some rest)
    with Cons.prems have "a = []" "b = rest" by (simp_all add: find_text.simps [of pat "c # s"])
    with Some show ?thesis
      by (auto simp: strip_prefix_def starts_with_def split: if_splits) (metis append_take_drop_id)
  qed
qed

lemma find_text_None: "find_text pat s = None \<longleftrightarrow> (\<nexists>a b. s = a @ pat @ b)"
proof
  show "find_text pat s = None \<Longrightarrow> \<nexists>a b. s = a @ pat @ b"
  proof (induction s)
    case Nil
    then show ?case
      by (auto simp: find_text.simps [of pat "[]"] strip_prefix_def starts_with_def split: option.splits if_splits)
  next
    case (Cons c s)
    from Cons.prems have none: "strip_prefix pat (c # s) = None" and rest: "find_text pat s = None"
      by (auto simp: find_text.simps [of pat "c # s"] split: option.splits)
    show ?case
    proof (intro notI, elim exE)
      fix a b assume eq: "c # s = a @ pat @ b"
      with none have "a \<noteq> []"
        by (cases a) (auto simp: strip_prefix_def starts_with_def split: if_splits)
      then obtain a' where "s = a' @ pat @ b" using eq by (cases a) auto
      with Cons.IH [OF rest] show False by blast
    qed
  qed
next
  assume none: "\<nexists>a b. s = a @ pat @ b"
  then show "find_text pat s = None"
    by (cases "find_text pat s") (auto dest: find_text_Some)
qed

lemma find_text_first:
  "find_text pat s = Some (a, b) \<Longrightarrow> s = a' @ pat @ b' \<Longrightarrow> length a \<le> length a'"
proof (induction s arbitrary: a a')
  case Nil
  then show ?case
    by (auto simp: find_text.simps [of pat "[]"] split: option.splits)
next
  case (Cons c s)
  show ?case
  proof (cases "strip_prefix pat (c # s)")
    case None
    with Cons.prems(1) obtain d where d: "find_text pat s = Some (d, b)" "a = c # d"
      by (auto simp: find_text.simps [of pat "c # s"])
    from None Cons.prems(2) have "a' \<noteq> []"
      by (cases a') (auto simp: strip_prefix_def starts_with_def split: if_splits)
    then obtain d' where "a' = c # d'" "s = d' @ pat @ b'" using Cons.prems(2) by (cases a') auto
    with Cons.IH [OF d(1)] d(2) show ?thesis by simp
  next
    case (Some rest)
    with Cons.prems(1) have "a = []" by (simp add: find_text.simps [of pat "c # s"])
    then show ?thesis by simp
  qed
qed

text \<open>A provider that does not answer with an array of choices.\<close>

lemma openai_panics:
  "openai_parse_response data = None" if "take_index 0 (json_at ''choices'' data) = None"
  using that by (cases data) (simp_all add: openai_parse_response_def Let_def json_at_def)

lemma attempts_result:
  "attempts n send e w = (r, w') \<Longrightarrow>
   (\<exists>k \<le> n. \<exists>es ws. length es = k \<and> length ws = Suc k \<and> ws ! 0 = w \<and>
      (\<forall>i < k. send (ws ! i) = (Inl (es ! i), ws ! Suc i) \<and> (\<not> permanent (es ! i) \<or> Suc i = k)) \<and>
      (r = Inl (last (e # es)) \<and> w' = ws ! k \<and> (k = n \<or> permanent (last (e # es))) \<or>
       k < n \<and> (\<exists>v. r = Inr v \<and> send (ws ! k) = (Inr v, w'))))"
proof (induction n arbitrary: e w)
  case 0
  then show ?case by (intro exI [of _ 0]) (auto intro!: exI [of _ "[w]"])
next
  case (Suc n)
  obtain q w1 where send: "send w = (q, w1)" by force
  show ?case
  proof (cases q)
    case (Inr v)
    with Suc.prems send show ?thesis
      by (intro exI [of _ 0]) (auto intro!: exI [of _ "[w]"])
  next
    case (Inl e1)
    show ?thesis
    proof (cases "permanent e1")
      case True
      with Suc.prems send Inl show ?thesis
        by (intro exI [of _ 1]) (auto intro!: exI [of _ "[e1]"] exI [of _ "[w, w1]"])
    next
      case False
      with Suc.prems send Inl have "attempts n send e1 w1 = (r, w')" by simp
      from Suc.IH [OF this] obtain k es ws where k: "k \<le> n" "length es = k" "length ws = Suc k" "ws ! 0 = w1"
        and steps: "\<forall>i < k. send (ws ! i) = (Inl (es ! i), ws ! Suc i) \<and> (\<not> permanent (es ! i) \<or> Suc i = k)"
        and result: "r = Inl (last (e1 # es)) \<and> w' = ws ! k \<and> (k = n \<or> permanent (last (e1 # es))) \<or>
          k < n \<and> (\<exists>v. r = Inr v \<and> send (ws ! k) = (Inr v, w'))" by blast
      have "send ((w # ws) ! i) = (Inl ((e1 # es) ! i), (w # ws) ! Suc i) \<and>
          (\<not> permanent ((e1 # es) ! i) \<or> Suc i = Suc k)" if "i < Suc k" for i
        using that send Inl False k(4) steps by (cases i) auto
      with k result show ?thesis
        by (intro exI [of _ "Suc k"]) (auto intro!: exI [of _ "e1 # es"] exI [of _ "w # ws"])
    qed
  qed
qed

end
