(* ===== verification/Ego_Types.thy ===== *)
theory Ego_Types
  imports Agent_Types
begin

text \<open>
  What is known of an agent itself: the data of \<open>kissbot-api/src/ego.rs\<close>, the text that the agent
  makes of it for the model (\<open>kissbot-agent/src/ego_md.rs\<close>), and the client that asks for it
  (\<open>memory_ego_client.rs\<close>) over a parameter for the network. A \<open>HashMap\<close> or \<open>HashSet\<close> whose order
  shows is a list, in any order.
\<close>

section \<open>Data\<close>

record individual_relation =
  il_relation :: string
  il_description :: string

record individual =
  in_identifiers :: "channel_user list"
  in_relation :: individual_relation
  in_other_relations :: "(string, individual_relation) hmap"

record individual_recognition =
  ir_agent_id :: string
  ir_individual_map :: "(string, individual) hmap"

record agent_metadata =
  am_agent_id :: string
  am_description :: string

record role_relation =
  rr_relation :: string
  rr_full_name :: string
  rr_description :: string

record role =
  ro_agent_id :: string
  ro_role_name :: string
  ro_full_name :: string
  ro_description :: string

record other_role =
  ot_individual_name :: string
  ot_role_relation :: role_relation
  ot_other_role_relations :: "(string, role_relation) hmap"
  ot_description :: string

record role_play =
  rp_role :: role
  rp_other_roles :: "(string, other_role) hmap"

section \<open>Texts for the model\<close>

definition build_ego_identity_md :: "agent_metadata \<Rightarrow> string" where
  "build_ego_identity_md m =
     ''# Agent Identity'' @ newline @ newline @ ''- **Name**'' @ newline @ '' '' @ am_agent_id m @ newline @ ''- **Description**'' @ newline @ '' '' @ am_description m @ newline"

definition identifier_lines :: "channel_user set option \<Rightarrow> channel_user list \<Rightarrow> string" where
  "identifier_lines ids identifiers =
     concat (map (\<lambda>i. ''- '' @ cu_messenger_id i @ '' '' @ cu_user_id i @ newline)
       (filter (\<lambda>i. case ids of Some s \<Rightarrow> i \<in> s | None \<Rightarrow> True) identifiers))"

definition individual_md :: "channel_user set option \<Rightarrow> string \<times> individual \<Rightarrow> string" where
  "individual_md ids entry =
     (case entry of (name, i) \<Rightarrow>
        let identifiers = identifier_lines ids (in_identifiers i)
        in (if identifiers = [] then []
            else ''## '' @ name @ newline @ newline @
              ''- **Relation with Agent**: '' @ il_relation (in_relation i) @ '' - '' @ il_description (in_relation i) @ newline @
              ''### Associated Identifiers'' @ newline @ identifiers @
              ''### Relations with Others'' @ newline @
              concat (map (\<lambda>(rel_name, rel). ''#### '' @ rel_name @ newline @
                ''- **Relation**: '' @ il_relation rel @ newline @
                ''- **Description**: '' @ il_description rel @ newline) (in_other_relations i))) @ newline)"

definition build_ego_individual_recognition_md :: "individual_recognition \<Rightarrow> channel_user set option \<Rightarrow> string" where
  "build_ego_individual_recognition_md r ids =
     ''# Individual Recognition'' @ newline @ newline @ concat (map (individual_md ids) (ir_individual_map r))"

definition other_role_md :: "string \<Rightarrow> string set option \<Rightarrow> string \<times> other_role \<Rightarrow> string" where
  "other_role_md self names entry =
     (case entry of (name, o') \<Rightarrow>
        if (case names of Some ns \<Rightarrow> ot_individual_name o' \<in> ns | None \<Rightarrow> True)
        then ''## Known role: '' @ name @ newline @ newline @
          ''- **Belong to**: '' @ ot_individual_name o' @ newline @
          ''- **Description**: '' @ ot_description o' @ newline @
          ''- **Relation with '' @ self @ ''**: '' @ rr_relation (ot_role_relation o') @ newline @
          ''- **Relation with '' @ self @ '' Description**: '' @ rr_description (ot_role_relation o') @ newline @
          ''### '' @ name @ [CHR 0x27] @ ''s relation with Others'' @ newline @
          concat (map (\<lambda>(rel_name, rel). ''#### With '' @ rel_name @ newline @ newline @
            ''- **Relation**: '' @ rr_relation rel @ newline @
            ''- **Relation Description**: '' @ rr_description rel @ newline) (ot_other_role_relations o'))
        else [])"

definition build_role_play_md :: "role_play \<Rightarrow> string set option \<Rightarrow> string" where
  "build_role_play_md r names =
     ''# Role Play'' @ newline @ newline @ ''- **Self Role**: '' @ ro_role_name (rp_role r) @ newline @ newline @
     ''- **Self Description**: '' @ ro_description (rp_role r) @ newline @
     concat (map (other_role_md (ro_role_name (rp_role r)) names) (rp_other_roles r))"

section \<open>The client\<close>

record 'w ego_net =
  eg_base_url :: string
  eg_agent_get :: "string \<Rightarrow> 'w \<Rightarrow> agent_metadata sent \<times> 'w"
  eg_individual_get_all :: "string \<Rightarrow> 'w \<Rightarrow> individual_recognition sent \<times> 'w"
  eg_role_get :: "string \<times> string \<Rightarrow> 'w \<Rightarrow> role_play sent \<times> 'w"

text \<open>The data of the envelope, if there is any.\<close>

definition ego_answer :: "string \<Rightarrow> 'a sent \<Rightarrow> agent_error + 'a option" where
  "ego_answer path sent =
     (case sent of
        Not_Sent e \<Rightarrow> Inl (AE_MemoryEgoError (path @ '' '' @ utf8 [232, 175, 183, 230, 177, 130, 229, 164, 177, 232, 180, 165] @ '': '' @ e))
      | Not_Parsed e \<Rightarrow> Inl (AE_MemoryEgoError (path @ '' '' @ utf8 [229, 147, 141, 229, 186, 148, 232, 167, 163, 230, 158, 144, 229, 164, 177, 232, 180, 165] @ '': '' @ e))
      | Envelope r \<Rightarrow> Inr (ap_data r))"

definition get_agent :: "'w ego_net \<Rightarrow> string \<Rightarrow> ('w, agent_error, agent_metadata option) action" where
  "get_agent net agent_id w =
     (if eg_base_url net = [] then (Inl (AE_MemoryEgoError (''ego '' @ utf8 [230, 156, 170, 233, 133, 141, 231, 189, 174, 239, 188, 136] @ ''memory_ego_url '' @ utf8 [228, 184, 186, 231, 169, 186, 239, 188, 137])), w)
      else case eg_agent_get net agent_id w of (sent, w') \<Rightarrow> (ego_answer ''agent/get'' sent, w'))"

definition get_individuals :: "'w ego_net \<Rightarrow> string \<Rightarrow> ('w, agent_error, individual_recognition option) action" where
  "get_individuals net agent_id w =
     (case eg_individual_get_all net agent_id w of (sent, w') \<Rightarrow> (ego_answer ''individual/get-all'' sent, w'))"

definition get_role :: "'w ego_net \<Rightarrow> string \<Rightarrow> string \<Rightarrow> ('w, agent_error, role_play option) action" where
  "get_role net agent_id name w =
     (case eg_role_get net (agent_id, name) w of (sent, w') \<Rightarrow> (ego_answer ''role/get'' sent, w'))"

end
