(* ===== verification/Agent_State.thy ===== *)
theory Agent_State
  imports Read_Tool Llm_Provider Ego_Types Agent_Message
begin

text \<open>
  The state of the running agent, and what sits between its pipelines and its channels: sessions
  (\<open>session_manager.rs\<close>), the running state of channels (\<open>channel_manager.rs\<close>), the access to the
  providers (\<open>provider.rs\<close>), all of \<open>kissbot-agent/src\<close>. The singletons of the code are one
  record; sessions and pipelines are objects that several holders share, so the record has a
  store of each and the holders have positions in it. What the agent reaches over the network,
  clocks and random numbers are parameters (\<open>agent_env\<close>) that work on \<open>sn_net\<close>.
\<close>

section \<open>State\<close>

text \<open>An operation ends with an error that the code hands on, or panics, which ends its task.\<close>

datatype failure = Failed agent_error | Panics

text \<open>What the memory store client has been handed, in order.\<close>

datatype pushed =
    Push_Channel channel_request
  | Push_Think think_request
  | Push_Tool_Call tool_call_request
  | Push_Tool_Result tool_result_request

record channel_run =
  cn_pending :: "(string, nat) hmap"
  cn_event :: "string option"
  cn_client :: bool

datatype pipeline_sort = Default_Loop | Memory_Loop bool

text \<open>\<open>pl_inbox\<close> is what was given to the producer of the batches, with the interval.\<close>

record pipeline =
  pl_sort :: pipeline_sort
  pl_session_key :: agent_session
  pl_session :: nat
  pl_last_total_tokens :: "64 word"
  pl_pending_contents :: "content list"
  pl_inbox :: "(incoming_message_event \<times> 64 word) list"

record 'w agent_state = "'w station_state" +
  ag_data_dir :: string
  ag_sessions :: "(agent_session, nat) hmap"
  ag_contexts :: "session_ctx list"
  ag_files :: chat_files
  ag_pipeline_map :: "(agent_session, pipeline_settings \<times> nat) hmap"
  ag_pipelines :: "pipeline list"
  ag_channels :: "(string, channel_run) hmap"
  ag_openai :: "(string, provider_config) hmap"
  ag_anthropic :: "(string, provider_config) hmap"
  ag_pushed :: "pushed list"

type_synonym ('w, 'a) agent_op = "('w agent_state, failure, 'a) action"

section \<open>Parameters\<close>

text \<open>
  The groups of records the memory store answers with; the keys of the groups are not read.
  \<open>nv_window_start\<close> is the text of the time so many seconds ago, if there is one.
\<close>

type_synonym channel_groups = "(string \<times> (nat \<times> channel_record) list) list"

record 'w agent_env =
  nv_http :: "'w http_net"
  nv_float :: "32 word \<Rightarrow> json"
  nv_query_last :: "string \<times> role_event \<times> 32 word \<Rightarrow> 'w \<Rightarrow> (string + channel_groups api_response) \<times> 'w"
  nv_query_recent :: "string \<times> role_event \<times> string \<times> string \<Rightarrow> 'w \<Rightarrow> (string + channel_groups api_response) \<times> 'w"
  nv_send_message :: "string \<Rightarrow> outgoing_message \<Rightarrow> 'w \<Rightarrow> (string + outgoing_message_response) \<times> 'w"
  nv_ego :: "'w ego_net"
  nv_window_start :: "64 word \<Rightarrow> 'w \<Rightarrow> string option \<times> 'w"
  nv_now :: "'w \<Rightarrow> string \<times> 'w"
  nv_uuid :: "'w \<Rightarrow> string \<times> 'w"
  nv_instant :: "'w \<Rightarrow> nat \<times> 'w"

section \<open>Plumbing\<close>

text \<open>An operation of another part, whose error is handed on.\<close>

definition lift_op :: "('s, agent_error, 'a) action \<Rightarrow> ('s, failure, 'a) action" where
  "lift_op m s = (case m s of (Inl e, s') \<Rightarrow> (Inl (Failed e), s') | (Inr x, s') \<Rightarrow> (Inr x, s'))"

text \<open>\<open>let _ = ...\<close>: an error is dropped, a panic is not.\<close>

definition ignoring :: "('s, failure, 'a) action \<Rightarrow> ('s, failure, unit) action" where
  "ignoring m s = (case m s of
      (Inl Panics, s') \<Rightarrow> (Inl Panics, s')
    | (_, s') \<Rightarrow> (Inr (), s'))"

text \<open>\<open>if let Ok(x) = ...\<close> and \<open>match\<close> on a result.\<close>

definition outcome :: "('s, failure, 'a) action \<Rightarrow> ('s, failure, agent_error + 'a) action" where
  "outcome m s = (case m s of
      (Inl Panics, s') \<Rightarrow> (Inl Panics, s')
    | (Inl (Failed e), s') \<Rightarrow> (Inr (Inl e), s')
    | (Inr x, s') \<Rightarrow> (Inr (Inr x), s'))"

definition asking :: "('w \<Rightarrow> 'a \<times> 'w) \<Rightarrow> ('w, 'a) agent_op" where
  "asking f s = (case f (sn_net s) of (x, w) \<Rightarrow> (Inr x, s\<lparr>sn_net := w\<rparr>))"

definition push :: "pushed \<Rightarrow> ('w, unit) agent_op" where
  "push p = modify_st (\<lambda>s. s\<lparr>ag_pushed := ag_pushed s @ [p]\<rparr>)"

text \<open>An operation of the session object \<open>h\<close>; its errors become errors of the agent.\<close>

definition session_op :: "nat \<Rightarrow> 'a chat_op \<Rightarrow> ('w, 'a) agent_op" where
  "session_op h m s =
     (case m \<lparr>ch_ctx = ag_contexts s ! h, ch_files = ag_files s\<rparr> of
        (r, c) \<Rightarrow>
          (case r of Inl e \<Rightarrow> Inl (Failed disk_error) | Inr x \<Rightarrow> Inr x,
           s\<lparr>ag_contexts := (ag_contexts s)[h := ch_ctx c], ag_files := ch_files c\<rparr>))"

definition change_pipeline :: "nat \<Rightarrow> (pipeline \<Rightarrow> pipeline) \<Rightarrow> ('w, unit) agent_op" where
  "change_pipeline p f = modify_st (\<lambda>s. s\<lparr>ag_pipelines := (ag_pipelines s)[p := f (ag_pipelines s ! p)]\<rparr>)"

section \<open>Sessions\<close>

definition session_id_of :: "agent_session \<Rightarrow> string" where
  "session_id_of key = (case key of Memory_Session mk \<Rightarrow> encode mk | Raw_Session i \<Rightarrow> i)"

text \<open>\<open>SessionManager::get_or_create\<close>: the session, and whether it is new.\<close>

definition get_or_create_session :: "agent_session \<Rightarrow> ('w, nat \<times> bool) agent_op" where
  "get_or_create_session key =
     bind_act (read_st (\<lambda>s. hm_get (ag_sessions s) key)) (\<lambda>found.
       case found of
         Some h \<Rightarrow> ret (h, False)
       | None \<Rightarrow>
           bind_act (read_st (\<lambda>s. length (ag_contexts s))) (\<lambda>h.
           bind_act (modify_st (\<lambda>s. s\<lparr>ag_contexts := ag_contexts s @ [new_context (ag_data_dir s) (session_id_of key)]\<rparr>)) (\<lambda>_.
           bind_act (ignoring (session_op h recover_from_cache)) (\<lambda>_.
           bind_act (modify_st (\<lambda>s. s\<lparr>ag_sessions := hm_insert key h (ag_sessions s)\<rparr>)) (\<lambda>_.
           ret (h, True))))))"

definition retain_sessions :: "agent_session set \<Rightarrow> ('w, unit) agent_op" where
  "retain_sessions keys = modify_st (\<lambda>s. s\<lparr>ag_sessions := filter (\<lambda>(k, _). k \<in> keys) (ag_sessions s)\<rparr>)"

section \<open>Channels\<close>

definition channel_context_ttl :: nat where
  "channel_context_ttl = 60 * 1000"

definition new_channel :: channel_run where
  "new_channel = \<lparr>cn_pending = [], cn_event = None, cn_client = False\<rparr>"

text \<open>Entries that are as old as \<open>ttl\<close>, in milliseconds, are taken out.\<close>

definition evict :: "nat \<Rightarrow> nat \<Rightarrow> channel_run \<Rightarrow> channel_run" where
  "evict now ttl c = c\<lparr>cn_pending := filter (\<lambda>(_, at). \<not> ttl \<le> now - at) (cn_pending c)\<rparr>"

definition put_channel :: "string \<Rightarrow> channel_run \<Rightarrow> 'w agent_state \<Rightarrow> 'w agent_state" where
  "put_channel channel_id c s = s\<lparr>ag_channels := hm_insert channel_id c (ag_channels s)\<rparr>"

text \<open>\<open>ChannelManager::get_or_create\<close>.\<close>

definition get_or_create_channel :: "string \<Rightarrow> ('w, channel_run) agent_op" where
  "get_or_create_channel channel_id s =
     (case hm_get (ag_channels s) channel_id of
        Some c \<Rightarrow> (Inr c, s)
      | None \<Rightarrow> (Inr new_channel, put_channel channel_id new_channel s))"

definition memory_key_of :: "string \<Rightarrow> 'w agent_state \<Rightarrow> memory_key option" where
  "memory_key_of channel_id s =
     (case (channel channel_id s, hm_get (ag_channels s) channel_id) of
        (Some ch, Some c) \<Rightarrow> Some (MemoryKey (cg_agent_id ch) (RoleEvent (cg_role_name ch) (cn_event c)))
      | _ \<Rightarrow> None)"

text \<open>\<open>Channel::send\<close> and \<open>ChannelManager::send\<close>: the id of what was sent is remembered.\<close>

definition send_on_channel ::
  "'w agent_env \<Rightarrow> string \<Rightarrow> outgoing_message \<Rightarrow> ('w, string + outgoing_message_response) agent_op" where
  "send_on_channel env channel_id msg =
     bind_act (read_st (\<lambda>s. hm_get (ag_channels s) channel_id)) (\<lambda>found.
       case found of
         None \<Rightarrow> ret (Inl ''Not connected'')
       | Some c \<Rightarrow>
           if \<not> cn_client c then ret (Inl ''Not connected'')
           else
             bind_act (asking (nv_send_message env channel_id msg)) (\<lambda>r.
               case r of
                 Inl e \<Rightarrow> ret (Inl e)
               | Inr response \<Rightarrow>
                   bind_act (asking (nv_instant env)) (\<lambda>now.
                   bind_act (modify_st (\<lambda>s.
                     case hm_get (ag_channels s) channel_id of
                       Some c \<Rightarrow>
                         let c' = evict now channel_context_ttl c
                         in put_channel channel_id (c'\<lparr>cn_pending := hm_insert (or_msg_id response) now (cn_pending c')\<rparr>) s
                     | None \<Rightarrow> s)) (\<lambda>_.
                   ret (Inr response)))))"

text \<open>\<open>Channel::consume_pending\<close>: a message that the agent sent itself is taken off the list.\<close>

definition consume_pending :: "string \<Rightarrow> nat \<Rightarrow> channel_run \<Rightarrow> bool \<times> channel_run" where
  "consume_pending msg_id now c =
     (if hm_get (cn_pending c) msg_id \<noteq> None then (True, c\<lparr>cn_pending := hm_remove msg_id (cn_pending c)\<rparr>)
      else (False, evict now channel_context_ttl c))"

section \<open>Providers\<close>

text \<open>An instance is made once for each name and kept; its configuration is that of the first use.\<close>

definition get_openai_provider :: "string \<Rightarrow> provider_config \<Rightarrow> ('w, provider_config) agent_op" where
  "get_openai_provider name cfg s =
     (case hm_get (ag_openai s) name of
        Some p \<Rightarrow> (Inr p, s)
      | None \<Rightarrow> (Inr cfg, s\<lparr>ag_openai := hm_insert name cfg (ag_openai s)\<rparr>))"

definition get_anthropic_provider :: "string \<Rightarrow> provider_config \<Rightarrow> ('w, provider_config) agent_op" where
  "get_anthropic_provider name cfg s =
     (case hm_get (ag_anthropic s) name of
        Some p \<Rightarrow> (Inr p, s)
      | None \<Rightarrow> (Inr cfg, s\<lparr>ag_anthropic := hm_insert name cfg (ag_anthropic s)\<rparr>))"

definition of_llm :: "('w, llm_failure, 'a) action \<Rightarrow> ('w, 'a) agent_op" where
  "of_llm m s = (case m (sn_net s) of
      (Inl e, w) \<Rightarrow> (Inl (Failed (of_llm_failure e)), s\<lparr>sn_net := w\<rparr>)
    | (Inr x, w) \<Rightarrow> (Inr x, s\<lparr>sn_net := w\<rparr>))"

definition unpanicked :: "'a option \<Rightarrow> ('w, 'a) agent_op" where
  "unpanicked x = (case x of Some y \<Rightarrow> ret y | None \<Rightarrow> fail Panics)"

text \<open>\<open>ProviderManager::call\<close>.\<close>

definition provider_call ::
  "'w agent_env \<Rightarrow> effective_llm \<Rightarrow> chat_message list \<Rightarrow> tool_config list \<Rightarrow> ('w, llm_response) agent_op" where
  "provider_call env llm messages tools =
     bind_act (read_st (effective_provider_model (el_provider llm) (el_model llm))) (\<lambda>found.
       case found of
         None \<Rightarrow> fail (Failed (AE_ModelProviderNotFound (el_provider llm) (el_model llm)))
       | Some pm \<Rightarrow>
           let sort = pc_provider_type (em_provider_config pm)
           in if sort = ''openai'' then
                bind_act (get_openai_provider (el_provider llm) (em_provider_config pm)) (\<lambda>p.
                bind_act (of_llm (request_with_retry pm (openai_send_request (nv_http env) (nv_float env) p (em_timeout_secs pm)
                  (openai_build_request llm messages tools)) openai_parse_response)) unpanicked)
              else if sort = ''anthropic'' then
                bind_act (get_anthropic_provider (el_provider llm) (em_provider_config pm)) (\<lambda>p.
                bind_act (of_llm (request_with_retry pm (anthropic_send_request (nv_http env) p (em_timeout_secs pm)
                  (anthropic_build_request (nv_float env) llm messages tools)) anthropic_parse_response)) unpanicked)
              else fail (Failed (AE_ModelProviderNotSupported (utf8 [230, 156, 170, 231, 159, 165] @ '' provider_type: '' @ sort))))"

text \<open>\<open>ProviderManager::list_models\<close>.\<close>

definition list_models :: "'w agent_env \<Rightarrow> string \<Rightarrow> ('w, string list) agent_op" where
  "list_models env provider =
     bind_act (read_st (provider_config_of provider)) (\<lambda>found.
       case found of
         None \<Rightarrow> fail (Failed (AE_ModelProviderNotFound provider []))
       | Some cfg \<Rightarrow>
           if pc_provider_type cfg = ''openai'' then
             bind_act (get_openai_provider provider cfg) (\<lambda>p. of_llm (openai_list_models (nv_http env) p))
           else if pc_provider_type cfg = ''anthropic'' then
             bind_act (get_anthropic_provider provider cfg) (\<lambda>p. of_llm (anthropic_list_models (nv_http env) p))
           else fail (Failed (AE_ModelProviderNotSupported (utf8 [230, 156, 170, 231, 159, 165] @ '' provider_type: '' @ pc_provider_type cfg))))"

section \<open>Outgoing messages\<close>

definition channel_bound :: "out_channel \<Rightarrow> 'w agent_state \<Rightarrow> bool" where
  "channel_bound out s =
     (case channel (oc_channel_id out) s of Some c \<Rightarrow> oc_user out \<in> cg_bind_users c | None \<Rightarrow> False)"

text \<open>\<open>Nexus::send_outgoing\<close>.\<close>

definition send_outgoing ::
  "'w agent_env \<Rightarrow> string \<Rightarrow> string \<Rightarrow> role_event \<Rightarrow> out_channel \<Rightarrow> content \<Rightarrow> ('w, unit) agent_op" where
  "send_outgoing env agent_id role re out content =
     bind_act (read_st (channel_bound out)) (\<lambda>bound.
       if \<not> bound then ignoring (lift_op (set_out_channel agent_id role None))
       else
         bind_act (send_on_channel env (oc_channel_id out)
           \<lparr>om_messenger_id = cu_messenger_id (oc_user out), om_user_id = cu_user_id (oc_user out),
            om_group_id = oc_group_id out, om_content = content\<rparr>) (\<lambda>r.
           case r of
             Inl e \<Rightarrow> ret ()
           | Inr response \<Rightarrow> push (Push_Channel
               \<lparr>cq_msg_id = or_msg_id response, cq_agent_id = agent_id, cq_role_event = re,
                cq_messenger_id = cu_messenger_id (oc_user out), cq_user_id = cu_user_id (oc_user out),
                cq_self_user_id = cu_user_id (oc_user out), cq_group_id = oc_group_id out, cq_is_self = 1,
                cq_messenger_name = or_messenger_name response, cq_user_name = or_user_name response,
                cq_group_name = or_group_name response, cq_content = or_content response,
                cq_time = or_time response\<rparr>)))"

end
