(* ===== verification/Agent_Pipeline.thy ===== *)
theory Agent_Pipeline
  imports Agent_State
begin

text \<open>
  \<open>kissbot-agent/src/pipelines.rs\<close> with \<open>pipelines/token_reducer.rs\<close>: what happens to a batch of
  messages. The model is asked, its answer kept, the tools it calls are run and their results
  handed back, until it calls none or has been asked ten times. The tool calls of one answer run
  at once in the code and one after the other here; their results come in the order of the calls
  in both.
\<close>

section \<open>The share of the limit of tokens\<close>

text \<open>
  \<open>((n as f64) * threshold) as u64\<close>, on the bits of the threshold: the product is rounded to 53
  bits, ties to even, and cut to an integer, within the bounds of \<open>u64\<close>; what is no number is 0.
\<close>

fun bit_length :: "nat \<Rightarrow> nat" where
  "bit_length n = (if n = 0 then 0 else Suc (bit_length (n div 2)))"

declare bit_length.simps [simp del]

definition round_half_even :: "nat \<Rightarrow> nat \<Rightarrow> nat" where
  "round_half_even p k =
     (let q = p div 2 ^ k; r = p mod 2 ^ k
      in if 2 * r < 2 ^ k \<or> 2 * r = 2 ^ k \<and> even q then q else q + 1)"

definition scale_tokens :: "32 word \<Rightarrow> 64 word \<Rightarrow> 64 word" where
  "scale_tokens n threshold =
     (let t = unat threshold; frac = t mod 2 ^ 52; expo = t div 2 ^ 52 mod 2 ^ 11; negative = 2 ^ 63 \<le> t
      in if expo = 2047 then (if frac = 0 \<and> n \<noteq> 0 \<and> \<not> negative then - 1 else 0)
         else if negative then 0
         else
           let m = (if expo = 0 then frac else frac + 2 ^ 52);
               e = int (max expo 1) - 1075;
               p = m * unat n;
               k = bit_length p - 53;
               q = round_half_even p k;
               d = e + int k;
               v = (if 0 \<le> d then q * 2 ^ nat d else q div 2 ^ nat (- d))
           in if 2 ^ 64 \<le> v then - 1 else of_nat v)"

section \<open>Reading the memory back\<close>

fun parse_records ::
  "(nat \<times> channel_record) list \<Rightarrow> (string \<times> nat, message_content) bmap \<Rightarrow> (string \<times> nat, message_content) bmap" where
  "parse_records [] m = m"
| "parse_records ((_, r) # rs) m =
     (if bm_get m (cr_time r, cr_sn r) \<noteq> None then parse_records rs m
      else parse_records rs (bm_insert (cr_time r, cr_sn r)
        (extract_content (cr_user_name r) (cr_content r) (cr_is_self r)) m))"

definition parse_channel_groups ::
  "channel_groups \<Rightarrow> (string \<times> nat, message_content) bmap \<Rightarrow> (string \<times> nat, message_content) bmap" where
  "parse_channel_groups groups m = fold (\<lambda>(_, records). parse_records records) groups m"

text \<open>\<open>query_last\<close> and \<open>query_recent\<close> of \<open>memory_store_client.rs\<close>.\<close>

definition store_answer :: "string + channel_groups api_response \<Rightarrow> agent_error + channel_groups" where
  "store_answer r =
     (case r of
        Inl e \<Rightarrow> Inl (AE_MemoryStoreError (utf8 [232, 175, 187, 229, 143, 150, 232, 174, 176, 229, 191, 134, 229, 164, 177, 232, 180, 165] @ '': '' @ e))
      | Inr resp \<Rightarrow>
          (case ap_data resp of
             Some groups \<Rightarrow> Inr groups
           | None \<Rightarrow> Inl (AE_InternalError (case ap_error resp of Some e \<Rightarrow> e | None \<Rightarrow> []))))"

definition query_last :: "'w agent_env \<Rightarrow> string \<Rightarrow> role_event \<Rightarrow> 32 word \<Rightarrow> ('w, channel_groups) agent_op" where
  "query_last env agent_id re n =
     bind_act (asking (nv_query_last env (agent_id, re, n))) (\<lambda>r. lift_op (of_result (store_answer r)))"

definition query_recent ::
  "'w agent_env \<Rightarrow> string \<Rightarrow> role_event \<Rightarrow> string \<Rightarrow> string \<Rightarrow> ('w, channel_groups) agent_op" where
  "query_recent env agent_id re start stop =
     bind_act (asking (nv_query_recent env (agent_id, re, start, stop))) (\<lambda>r. lift_op (of_result (store_answer r)))"

text \<open>\<open>chrono::Duration::seconds\<close> panics when its milliseconds do not fit; the seconds are cast to \<open>i64\<close>.\<close>

definition duration_panics :: "64 word \<Rightarrow> bool" where
  "duration_panics secs \<longleftrightarrow> (2 ^ 63 - 1) div 1000 < abs (sint secs)"

definition read_recent_for_context ::
  "'w agent_env \<Rightarrow> memory_key \<Rightarrow> 64 word \<Rightarrow> 64 word \<Rightarrow> ('w, message_content list) agent_op" where
  "read_recent_for_context env k secs wanted =
     (if duration_panics secs then fail Panics
      else
        bind_act (asking (nv_window_start env secs)) (\<lambda>window.
          case window of
            None \<Rightarrow> fail (Failed (AE_MemoryTimeWindow (utf8 [232, 174, 161, 231, 174, 151, 232, 174, 176, 229, 191, 134, 230, 151, 182, 233, 151, 180, 231, 170, 151, 232, 181, 183, 231, 130, 185, 229, 164, 177, 232, 180, 165])))
          | Some start \<Rightarrow>
              bind_act (query_last env (mk_agent_id k) (mk_role_event k) (ucast wanted)) (\<lambda>groups.
              let m = parse_channel_groups groups []
              in case m of
                   [] \<Rightarrow> ret []
                 | ((ln, _), _) # _ \<Rightarrow>
                     if length m < unat wanted then ret (map snd m)
                     else
                       bind_act (query_recent env (mk_agent_id k) (mk_role_event k) (if start < ln then start else ln) ln) (\<lambda>groups.
                       ret (map snd (parse_channel_groups groups m))))))"

definition build_context_from_memory_store :: "'w agent_env \<Rightarrow> memory_key \<Rightarrow> ('w, chat_message list) agent_op" where
  "build_context_from_memory_store env k =
     bind_act (lift_op (memory_session_config recover_kind k)) (\<lambda>cfg.
     bind_act (outcome (read_recent_for_context env k (er_memory_time_secs cfg) (er_memory_count cfg))) (\<lambda>r.
     ret (case r of Inr msgs \<Rightarrow> pack_memory_messages msgs | Inl e \<Rightarrow> [])))"

section \<open>Making room\<close>

definition retrieve_assistant_message :: "llm_response \<Rightarrow> chat_message" where
  "retrieve_assistant_message res =
     Msg_Assistant (lr_raw_content res) (lr_raw_reasoning_content res) (lr_raw_tool_calls res)"

definition compress_reduce ::
  "'w agent_env \<Rightarrow> agent_session \<Rightarrow> nat \<Rightarrow> chat_message list \<Rightarrow> ('w, 64 word \<times> chat_message list) agent_op" where
  "compress_reduce env key h messages =
     bind_act (lift_op (session_config llm_kind key)) (\<lambda>llm.
     bind_act (lift_op (session_config compress_kind key)) (\<lambda>compress.
     let c_msg = Msg_User (ep_compress_prompt compress) in
     bind_act (ignoring (session_op h (context_append [c_msg]))) (\<lambda>_.
     bind_act (session_op h build_context) (\<lambda>context.
     bind_act (outcome (provider_call env llm context [])) (\<lambda>r.
       case r of
         Inl e \<Rightarrow> ret (0, messages)
       | Inr resp \<Rightarrow>
           bind_act (ignoring (session_op h (archive_and_clear_cache_and_reset_messages
             (Some [c_msg, retrieve_assistant_message resp])))) (\<lambda>_.
           ret (lr_total_tokens resp, messages)))))))"

definition memory_recover_reduce ::
  "'w agent_env \<Rightarrow> agent_session \<Rightarrow> nat \<Rightarrow> chat_message list \<Rightarrow> ('w, 64 word \<times> chat_message list) agent_op" where
  "memory_recover_reduce env key h messages =
     (case key of
        Memory_Session mk \<Rightarrow>
          bind_act (build_context_from_memory_store env mk) (\<lambda>ms.
          bind_act (ignoring (session_op h (archive_and_clear_cache_and_reset_messages (Some ms)))) (\<lambda>_.
          ret (0, messages)))
      | Raw_Session _ \<Rightarrow> ret (0, messages))"

type_synonym 'w reducer = "agent_session \<Rightarrow> nat \<Rightarrow> chat_message list \<Rightarrow> ('w, 64 word \<times> chat_message list) agent_op"

section \<open>Asking the model\<close>

definition send_messages ::
  "'w agent_env \<Rightarrow> agent_session \<Rightarrow> nat \<Rightarrow> chat_message list \<Rightarrow> tool_config list \<Rightarrow> ('w, llm_response) agent_op" where
  "send_messages env key h messages tools =
     bind_act (ignoring (session_op h (context_append messages))) (\<lambda>_.
     bind_act (session_op h build_context) (\<lambda>context.
     bind_act (lift_op (session_config llm_kind key)) (\<lambda>llm.
     provider_call env llm context tools)))"

fun is_assistant :: "chat_message \<Rightarrow> bool" where
  "is_assistant (Msg_Assistant _ _ _) \<longleftrightarrow> True"
| "is_assistant _ \<longleftrightarrow> False"

text \<open>What was said after the model's last answer is taken back before room is made.\<close>

definition make_room ::
  "'w reducer \<Rightarrow> agent_session \<Rightarrow> nat \<Rightarrow> chat_message list \<Rightarrow> ('w, chat_message list) agent_op" where
  "make_room reduce key h messages =
     bind_act (session_op h (revert_until (\<lambda>_ m. (is_assistant m, ())) ())) (\<lambda>pending.
     bind_act (reduce key h (pending @ messages)) (\<lambda>(_, messages').
     ret messages'))"

definition send_messages_with_limit ::
  "'w agent_env \<Rightarrow> agent_session \<Rightarrow> nat \<Rightarrow> chat_message list \<Rightarrow> tool_config list \<Rightarrow> 'w reducer \<Rightarrow> 64 word \<Rightarrow>
   ('w, llm_response) agent_op" where
  "send_messages_with_limit env key h messages tools reduce tokens_usage =
     bind_act (lift_op (session_config llm_kind key)) (\<lambda>llm.
     bind_act (lift_op (session_config compress_kind key)) (\<lambda>compress.
     bind_act (read_st (effective_provider_model (el_provider llm) (el_model llm))) (\<lambda>found.
       case found of
         None \<Rightarrow> fail (Failed (AE_ModelProviderNotFound (el_provider llm) (el_model llm)))
       | Some cfg \<Rightarrow>
           bind_act
             (if 0 < em_max_tokens_usage cfg \<and>
                 scale_tokens (em_max_tokens_usage cfg) (ep_compress_threshold compress) < tokens_usage
              then make_room reduce key h messages else ret messages) (\<lambda>messages'.
           bind_act (ignoring (session_op h (context_append messages'))) (\<lambda>_.
           bind_act (session_op h build_context) (\<lambda>context.
           provider_call env llm context tools))))))"

section \<open>Tools\<close>

definition tools_for_session :: "agent_session \<Rightarrow> ('w, tool_config list) agent_op" where
  "tools_for_session key =
     bind_act (lift_op (session_config group_kind key)) (\<lambda>cfg.
       if group_set cfg = {} then ret []
       else
         bind_act (outcome (lift_op (list_tools_local (Some (group_set cfg))))) (\<lambda>r.
         ret (case r of Inr tools \<Rightarrow> map tool_config_from_mcp tools | Inl e \<Rightarrow> [])))"

definition run_tool :: "tool_call \<Rightarrow> ('w, tool_call \<times> agent_error option) agent_op" where
  "run_tool c s =
     (case call_tool_local (tl_name c) (tl_arguments c) s of
        ((arguments, r), s') \<Rightarrow>
          let c' = c\<lparr>tl_arguments := JNull, tl_result_arguments := Some arguments\<rparr>
          in (Inr (case r of
                Inr x \<Rightarrow> (c'\<lparr>tl_result := Some (ct_content x)\<rparr>, None)
              | Inl e \<Rightarrow> (c', Some e)), s'))"

definition call_tool_with_memory ::
  "'w agent_env \<Rightarrow> memory_key \<Rightarrow> tool_call \<Rightarrow> ('w, string \<times> tool_call \<times> agent_error option) agent_op" where
  "call_tool_with_memory env mk c =
     bind_act (asking (nv_uuid env)) (\<lambda>key.
     bind_act (asking (nv_now env)) (\<lambda>time.
     bind_act (push (Push_Tool_Call (build_memory_tool_call time mk key c))) (\<lambda>_.
     bind_act (run_tool c) (\<lambda>(c', e).
     bind_act (if e = None
               then bind_act (asking (nv_now env)) (\<lambda>time. push (Push_Tool_Result (build_memory_tool_result time mk key c')))
               else ret ()) (\<lambda>_.
     ret (key, c', e))))))"

primrec call_tools_dyn ::
  "(tool_call \<Rightarrow> ('w, tool_call \<times> agent_error option) agent_op) \<Rightarrow> tool_call list \<Rightarrow> ('w, tool_call list \<times> agent_error list) agent_op" where
  "call_tools_dyn op [] = ret ([], [])"
| "call_tools_dyn op (c # cs) =
     bind_act (op c) (\<lambda>(c', e).
     bind_act (call_tools_dyn op cs) (\<lambda>(cs', es).
     ret (c' # cs', (case e of Some x \<Rightarrow> x # es | None \<Rightarrow> es))))"

definition call_tools :: "tool_call list \<Rightarrow> ('w, tool_call list \<times> agent_error list) agent_op" where
  "call_tools cs = call_tools_dyn run_tool cs"

fun render_resource :: "resource_contents \<Rightarrow> string" where
  "render_resource (RC_Text uri mime text meta) = text"
| "render_resource (RC_Blob uri mime blob meta) =
     ''[resource '' @ uri @ '' '' @ (case mime of Some m \<Rightarrow> m | None \<Rightarrow> []) @ '']''"

fun render_block :: "content_block \<Rightarrow> string" where
  "render_block (CB_Text text _ _) = text"
| "render_block (CB_Image data mime _ _) = ''[image '' @ mime @ '']''"
| "render_block (CB_Audio data mime _ _) = ''[image '' @ mime @ '']''"
| "render_block (CB_ResourceLink uri name _ _ _ _ _ _) = ''[resource_link '' @ name @ '' '' @ uri @ '']''"
| "render_block (CB_Resource resource _ _) = render_resource resource"

definition render_tool_result :: "content_block list \<Rightarrow> string" where
  "render_tool_result blocks = join newline (map render_block blocks)"

definition retrieve_tool_messages :: "tool_call list \<Rightarrow> chat_message list" where
  "retrieve_tool_messages cs =
     List.map_filter (\<lambda>c. case tl_result c of
         Some blocks \<Rightarrow> Some (Msg_Tool (tl_id c) (join newline (map render_block blocks)))
       | None \<Rightarrow> None) cs"

section \<open>The loop without memory\<close>

definition max_tool_rounds :: nat where
  "max_tool_rounds = 10"

definition run_once ::
  "'w agent_env \<Rightarrow> agent_session \<Rightarrow> nat \<Rightarrow> nat \<Rightarrow> chat_message list \<Rightarrow> tool_config list \<Rightarrow> 64 word option \<Rightarrow>
   ('w, bool \<times> 64 word) agent_op" where
  "run_once env key h round messages tools tokens_usage =
     bind_act (case tokens_usage of
         Some tokens \<Rightarrow> send_messages_with_limit env key h messages tools (compress_reduce env) tokens
       | None \<Rightarrow> send_messages env key h messages tools) (\<lambda>res.
     bind_act (ignoring (session_op h (context_append [retrieve_assistant_message res]))) (\<lambda>_.
     bind_act (case lr_tool_calls res of
         Some cs \<Rightarrow>
           bind_act (call_tools cs) (\<lambda>(cs', es).
             if cs' = [] then ret (False, es)
             else bind_act (session_op h (context_append (retrieve_tool_messages cs'))) (\<lambda>_. ret (True, es)))
       | None \<Rightarrow> ret (False, [])) (\<lambda>(next_round, es).
       if es \<noteq> [] then fail (Failed (AE_MultiError es))
       else ret (if max_tool_rounds \<le> round then False else next_round, lr_total_tokens res))))"

text \<open>The \<open>while\<close> loop, with fuel; nothing when the fuel is used up.\<close>

primrec run_loop ::
  "nat \<Rightarrow> 'w agent_env \<Rightarrow> agent_session \<Rightarrow> nat \<Rightarrow> nat \<Rightarrow> chat_message list \<Rightarrow> tool_config list \<Rightarrow> 64 word option \<Rightarrow>
   ('w, 64 word option) agent_op" where
  "run_loop 0 env key h round messages tools tokens_usage = ret None"
| "run_loop (Suc fuel) env key h round messages tools tokens_usage =
     bind_act (run_once env key h round messages tools tokens_usage) (\<lambda>(next_round, total_tokens).
       if next_round
       then run_loop fuel env key h (round + 1) [] tools (if tokens_usage \<noteq> None then Some total_tokens else None)
       else ret (Some total_tokens))"

definition run ::
  "'w agent_env \<Rightarrow> agent_session \<Rightarrow> nat \<Rightarrow> chat_message \<Rightarrow> tool_config list \<Rightarrow> 64 word option \<Rightarrow>
   ('w, 64 word option) agent_op" where
  "run env key h message tools tokens_usage =
     run_loop max_tool_rounds env key h 1 [message] tools tokens_usage"

section \<open>The loop with memory\<close>

text \<open>\<open>ToolCaller::call_tool\<close> of the pipeline \<open>p\<close>.\<close>

definition memory_call_tool :: "'w agent_env \<Rightarrow> nat \<Rightarrow> tool_call \<Rightarrow> ('w, tool_call \<times> agent_error option) agent_op" where
  "memory_call_tool env p c =
     bind_act (read_st (\<lambda>s. pl_session_key (ag_pipelines s ! p))) (\<lambda>key.
       case key of
         Memory_Session mk \<Rightarrow>
           bind_act (call_tool_with_memory env mk c) (\<lambda>(tool_key, c', e).
           bind_act (change_pipeline p (\<lambda>pl. pl\<lparr>pl_pending_contents := pl_pending_contents pl @
             Content_ToolCall tool_key # (if e = None then [Content_ToolResult tool_key] else [])\<rparr>)) (\<lambda>_.
           ret (c', e)))
       | Raw_Session _ \<Rightarrow> run_tool c)"

definition tool_answer :: "tool_call \<Rightarrow> chat_message" where
  "tool_answer c = Msg_Tool (tl_id c) (render_tool_result (case tl_result c of Some blocks \<Rightarrow> blocks | None \<Rightarrow> []))"

definition push_thinking :: "'w agent_env \<Rightarrow> agent_session \<Rightarrow> llm_response \<Rightarrow> ('w, unit) agent_op" where
  "push_thinking env key res =
     (case key of
        Memory_Session mk \<Rightarrow>
          if lr_reasoning_content res \<noteq> None \<or> lr_thinking res \<noteq> None
          then bind_act (asking (nv_uuid env)) (\<lambda>k.
               bind_act (asking (nv_now env)) (\<lambda>time.
               push (Push_Think (build_memory_think time mk k (lr_reasoning_content res) (lr_thinking res)))))
          else ret ()
      | Raw_Session _ \<Rightarrow> ret ())"

text \<open>The references to what the tools did, and what the model said, go out as one message.\<close>

definition output_content :: "content list \<Rightarrow> string option \<Rightarrow> content option" where
  "output_content contents said =
     (if contents = [] then map_option Content_Text said
      else Some (Content_Multi (contents @ (case said of Some t \<Rightarrow> [Content_Text t] | None \<Rightarrow> []))))"

definition send_output :: "'w agent_env \<Rightarrow> nat \<Rightarrow> agent_session \<Rightarrow> llm_response \<Rightarrow> ('w, unit) agent_op" where
  "send_output env p key res =
     (case key of
        Memory_Session mk \<Rightarrow>
          bind_act (read_st (out_channel_config (mk_agent_id mk) (role_name (mk_role_event mk)))) (\<lambda>found.
            case found of
              None \<Rightarrow> ret ()
            | Some out \<Rightarrow>
                bind_act (read_st (\<lambda>s. pl_pending_contents (ag_pipelines s ! p))) (\<lambda>contents.
                bind_act (change_pipeline p (\<lambda>pl. pl\<lparr>pl_pending_contents := []\<rparr>)) (\<lambda>_.
                  case output_content contents (lr_content res) of
                    Some content \<Rightarrow>
                      send_outgoing env (mk_agent_id mk) (role_name (mk_role_event mk)) (mk_role_event mk) out content
                  | None \<Rightarrow> ret ())))
      | Raw_Session _ \<Rightarrow> ret ())"

definition memory_run_once ::
  "'w agent_env \<Rightarrow> bool \<Rightarrow> nat \<Rightarrow> nat \<Rightarrow> chat_message list \<Rightarrow> tool_config list \<Rightarrow> ('w, bool) agent_op" where
  "memory_run_once env load_memory p round messages tools =
     bind_act (read_st (\<lambda>s. ag_pipelines s ! p)) (\<lambda>pl.
     let key = pl_session_key pl; h = pl_session pl in
     bind_act (send_messages_with_limit env key h messages tools
         (if load_memory then memory_recover_reduce env else compress_reduce env) (pl_last_total_tokens pl)) (\<lambda>res.
     bind_act (change_pipeline p (\<lambda>pl. pl\<lparr>pl_last_total_tokens := lr_total_tokens res\<rparr>)) (\<lambda>_.
     bind_act (push_thinking env key res) (\<lambda>_.
     bind_act (ignoring (session_op h (context_append [retrieve_assistant_message res]))) (\<lambda>_.
     bind_act (case lr_tool_calls res of
         Some cs \<Rightarrow>
           bind_act (call_tools_dyn (memory_call_tool env p) cs) (\<lambda>(cs', es).
           bind_act (session_op h (context_append (map tool_answer cs'))) (\<lambda>_.
           ret (cs' \<noteq> [], es)))
       | None \<Rightarrow> ret (False, [])) (\<lambda>(next_round, es).
     bind_act (send_output env p key res) (\<lambda>_.
       if es \<noteq> [] then fail (Failed (AE_MultiError es))
       else ret (if max_tool_rounds \<le> round then False else next_round))))))))"

primrec memory_run_loop ::
  "nat \<Rightarrow> 'w agent_env \<Rightarrow> bool \<Rightarrow> nat \<Rightarrow> nat \<Rightarrow> chat_message list \<Rightarrow> tool_config list \<Rightarrow> ('w, unit option) agent_op" where
  "memory_run_loop 0 env load_memory p round messages tools = ret None"
| "memory_run_loop (Suc fuel) env load_memory p round messages tools =
     bind_act (memory_run_once env load_memory p round messages tools) (\<lambda>next_round.
       if next_round then memory_run_loop fuel env load_memory p (round + 1) [] tools else ret (Some ()))"

definition memory_run :: "'w agent_env \<Rightarrow> bool \<Rightarrow> nat \<Rightarrow> chat_message \<Rightarrow> tool_config list \<Rightarrow> ('w, unit option) agent_op" where
  "memory_run env load_memory p message tools =
     memory_run_loop max_tool_rounds env load_memory p 1 [message] tools"

section \<open>Batches\<close>

text \<open>\<open>incoming_message\<close>: the message goes to the producer of the batches (\<open>Batch_Processor\<close>).\<close>

definition pipeline_incoming :: "nat \<Rightarrow> incoming_message_event \<Rightarrow> ('w, unit) agent_op" where
  "pipeline_incoming p e =
     bind_act (read_st (\<lambda>s. pl_session_key (ag_pipelines s ! p))) (\<lambda>key.
     bind_act (lift_op (session_config batch_kind key)) (\<lambda>cfg.
     change_pipeline p (\<lambda>pl. pl\<lparr>pl_inbox := pl_inbox pl @ [(e, channel_batch_interval_secs cfg)]\<rparr>)))"

text \<open>\<open>incoming_message_batch\<close> of both pipelines, with the batch the consumer hands over.\<close>

definition incoming_message_batch :: "'w agent_env \<Rightarrow> nat \<Rightarrow> incoming_message_event list \<Rightarrow> ('w, unit) agent_op" where
  "incoming_message_batch env p events =
     bind_act (read_st (\<lambda>s. ag_pipelines s ! p)) (\<lambda>pl.
     let content = pack_batch events in
     bind_act (tools_for_session (pl_session_key pl)) (\<lambda>tools.
       case pl_sort pl of
         Default_Loop \<Rightarrow>
           bind_act (outcome (run env (pl_session_key pl) (pl_session pl) content tools (Some (pl_last_total_tokens pl)))) (\<lambda>r.
             case r of
               Inr (Some tokens) \<Rightarrow> change_pipeline p (\<lambda>pl. pl\<lparr>pl_last_total_tokens := tokens\<rparr>)
             | _ \<Rightarrow> ret ())
       | Memory_Loop load_memory \<Rightarrow> ignoring (memory_run env load_memory p content tools)))"

section \<open>System prompts\<close>

definition default_system_prompt :: string where
  "default_system_prompt = utf8 [228, 189, 160, 230, 152, 175, 228, 184, 128, 228, 184, 170, 233, 128, 154, 231, 148, 168, 230, 153, 186, 232, 131, 189, 228, 189, 147, 227, 128, 130, 228, 189, 191, 231, 148, 168, 229, 183, 165, 229, 133, 183, 229, 174, 140, 230, 136, 144, 231, 148, 168, 230, 136, 183, 228, 187, 187, 229, 138, 161]"

definition ego_part :: "('w, agent_error, 'a option) action \<Rightarrow> ('a \<Rightarrow> string) \<Rightarrow> ('w, string list) agent_op" where
  "ego_part m text s =
     (case m (sn_net s) of
        (Inr (Some x), w) \<Rightarrow> (Inr [text x], s\<lparr>sn_net := w\<rparr>)
      | (_, w) \<Rightarrow> (Inr [], s\<lparr>sn_net := w\<rparr>))"

definition get_ego_system_prompt :: "'w agent_env \<Rightarrow> string \<Rightarrow> string \<Rightarrow> ('w, string option) agent_op" where
  "get_ego_system_prompt env agent_id role =
     (if agent_id = reserved_agent_id then ret None
      else
        bind_act (ego_part (get_agent (nv_ego env) agent_id) build_ego_identity_md) (\<lambda>identity.
        bind_act (ego_part (get_individuals (nv_ego env) agent_id) (\<lambda>r. build_ego_individual_recognition_md r None)) (\<lambda>individuals.
        bind_act (if role = [] then ret []
                  else ego_part (get_role (nv_ego env) agent_id role) (\<lambda>r. build_role_play_md r None)) (\<lambda>play.
        let parts = identity @ individuals @ play
        in ret (if parts = [] then None else Some (join newline parts))))))"

definition reset_system_prompt :: "'w agent_env \<Rightarrow> nat \<Rightarrow> ('w, unit) agent_op" where
  "reset_system_prompt env p =
     bind_act (read_st (\<lambda>s. ag_pipelines s ! p)) (\<lambda>pl.
     bind_act (case (pl_sort pl, pl_session_key pl) of
         (Memory_Loop _, Memory_Session mk) \<Rightarrow>
           get_ego_system_prompt env (mk_agent_id mk) (role_name (mk_role_event mk))
       | _ \<Rightarrow> ret None) (\<lambda>prompt.
     session_op (pl_session pl) (set_system_message (case prompt of Some t \<Rightarrow> t | None \<Rightarrow> default_system_prompt))))"

section \<open>The register of pipelines\<close>

definition new_pipeline :: "pipeline_sort \<Rightarrow> agent_session \<Rightarrow> nat \<Rightarrow> pipeline" where
  "new_pipeline kind key h =
     \<lparr>pl_sort = kind, pl_session_key = key, pl_session = h, pl_last_total_tokens = 0,
      pl_pending_contents = [], pl_inbox = []\<rparr>"

text \<open>The debug form of a session key is not modelled; the error carries its file name.\<close>

definition create_pipeline :: "string \<Rightarrow> agent_session \<Rightarrow> nat \<Rightarrow> ('w, nat) agent_op" where
  "create_pipeline name key h =
     (let create = (\<lambda>kind. bind_act (read_st (\<lambda>s. length (ag_pipelines s))) (\<lambda>p.
            bind_act (modify_st (\<lambda>s. s\<lparr>ag_pipelines := ag_pipelines s @ [new_pipeline kind key h]\<rparr>)) (\<lambda>_. ret p)))
      in if name = ''default'' then create Default_Loop
         else if name = ''default_memory'' then create (Memory_Loop True)
         else fail (Failed (AE_PipelineNotFound name (session_id_of key))))"

definition sync_pipeline :: "agent_session \<Rightarrow> nat \<Rightarrow> ('w, unit) agent_op" where
  "sync_pipeline key h =
     bind_act (lift_op (session_config pipeline_kind key)) (\<lambda>cfg.
     let name = (case pipeline_name cfg of
           Some n \<Rightarrow> n
         | None \<Rightarrow> (case key of Memory_Session _ \<Rightarrow> ''default_memory'' | Raw_Session _ \<Rightarrow> ''default''))
     in bind_act (read_st (\<lambda>s. hm_get (ag_pipeline_map s) key)) (\<lambda>found.
          if (case found of Some (cfg', _) \<Rightarrow> cfg' = cfg | None \<Rightarrow> False) then ret ()
          else bind_act (create_pipeline name key h) (\<lambda>p.
               modify_st (\<lambda>s. s\<lparr>ag_pipeline_map := hm_insert key (cfg, p) (ag_pipeline_map s)\<rparr>))))"

definition retain_pipelines :: "agent_session set \<Rightarrow> ('w, unit) agent_op" where
  "retain_pipelines keys =
     modify_st (\<lambda>s. s\<lparr>ag_pipeline_map := filter (\<lambda>(k, _). k \<in> keys) (ag_pipeline_map s)\<rparr>)"

text \<open>Both operations look the session up in the register.\<close>

definition on_pipeline :: "agent_session \<Rightarrow> (nat \<Rightarrow> ('w, unit) agent_op) \<Rightarrow> ('w, unit) agent_op" where
  "on_pipeline key f =
     bind_act (read_st (\<lambda>s. hm_get (ag_pipeline_map s) key)) (\<lambda>found.
       case found of Some (_, p) \<Rightarrow> f p | None \<Rightarrow> ret ())"


end
