(* ===== verification/Agent_Nexus.thy ===== *)
theory Agent_Nexus
  imports Agent_Pipeline
begin

text \<open>
  \<open>kissbot-agent/src/nexus.rs\<close>, \<open>command_router.rs\<close> and the changes of channels in
  \<open>channel_manager.rs\<close>: the messages that come in, the commands of administrators, and the
  sessions that follow from what channels are bound to. Changes of channels go through a queue
  with one consumer in the code, so one is done when the next begins.
\<close>

section \<open>Sessions that are bound\<close>

text \<open>\<open>Nexus::ensure_session\<close>.\<close>

definition ensure_session :: "'w agent_env \<Rightarrow> agent_session \<Rightarrow> ('w, nat) agent_op" where
  "ensure_session env key =
     bind_act (get_or_create_session key) (\<lambda>(h, new).
     bind_act (if new
               then bind_act (ignoring (sync_pipeline key h)) (\<lambda>_. ignoring (on_pipeline key (reset_system_prompt env)))
               else ret ()) (\<lambda>_.
     ret h))"

definition bound_keys :: "'w agent_state \<Rightarrow> agent_session set" where
  "bound_keys s =
     set (List.map_filter (\<lambda>(_, ch). map_option Memory_Session (memory_key_of (cg_channel_id ch) s)) (channels s))"

definition prune_sessions :: "('w, unit) agent_op" where
  "prune_sessions =
     bind_act (read_st bound_keys) (\<lambda>keys.
     bind_act (retain_sessions keys) (\<lambda>_. retain_pipelines keys))"

section \<open>Changes of channels\<close>

text \<open>
  \<open>apply_channel_key\<close>: what is \<^const>\<open>None\<close> stays. The event is kept with the running state of the
  channel; the sessions that lost their channel are dropped and that of the new key is made.
\<close>

definition apply_channel_key ::
  "'w agent_env \<Rightarrow> string \<Rightarrow> string option \<Rightarrow> string option \<Rightarrow> string option option \<Rightarrow> ('w, unit) agent_op" where
  "apply_channel_key env channel_id agent_id role event =
     bind_act
       (if agent_id \<noteq> None \<or> role \<noteq> None
        then lift_op (update_channel channel_id (\<lambda>c.
          let c1 = (case agent_id of Some a \<Rightarrow> c\<lparr>cg_agent_id := a\<rparr> | None \<Rightarrow> c)
          in case role of Some r \<Rightarrow> c1\<lparr>cg_role_name := r\<rparr> | None \<Rightarrow> c1))
        else bind_act (read_st (channel channel_id)) (\<lambda>found.
          case found of Some c \<Rightarrow> ret c | None \<Rightarrow> fail (Failed (no_channel channel_id)))) (\<lambda>cc.
     bind_act (get_or_create_channel channel_id) (\<lambda>c.
     let c' = (case event of Some e \<Rightarrow> c\<lparr>cn_event := e\<rparr> | None \<Rightarrow> c) in
     bind_act (modify_st (put_channel channel_id c')) (\<lambda>_.
     bind_act prune_sessions (\<lambda>_.
     bind_act (ensure_session env (Memory_Session
       (MemoryKey (cg_agent_id cc) (RoleEvent (cg_role_name cc) (cn_event c'))))) (\<lambda>_.
     ret ())))))"

datatype channel_command = Bind_User string channel_user | Unbind_User string channel_user

definition bind_user :: "string \<Rightarrow> channel_user \<Rightarrow> ('w, unit) agent_op" where
  "bind_user channel_id user =
     bind_act (lift_op (update_channel channel_id (\<lambda>c. c\<lparr>cg_bind_users := insert user (cg_bind_users c)\<rparr>))) (\<lambda>_. ret ())"

definition unbind_user :: "string \<Rightarrow> channel_user \<Rightarrow> ('w, unit) agent_op" where
  "unbind_user channel_id user =
     bind_act (lift_op (update_channel channel_id (\<lambda>c. c\<lparr>cg_bind_users := cg_bind_users c - {user}\<rparr>))) (\<lambda>_. ret ())"

definition user_text :: "channel_user \<Rightarrow> string" where
  "user_text u = cu_messenger_id u @ '' / '' @ cu_user_id u"

fun apply_channel_command :: "channel_command \<Rightarrow> ('w, string) agent_op" where
  "apply_channel_command (Bind_User channel_id user) =
     bind_act (bind_user channel_id user) (\<lambda>_. ret (utf8 [226, 156, 133] @ '' '' @ utf8 [229, 183, 178, 231, 187, 145, 229, 174, 154] @ '' channel '' @ utf8 [231, 148, 168, 230, 136, 183] @ '': '' @ user_text user))"
| "apply_channel_command (Unbind_User channel_id user) =
     bind_act (unbind_user channel_id user) (\<lambda>_. ret (utf8 [226, 156, 133] @ '' '' @ utf8 [229, 183, 178, 231, 167, 187, 233, 153, 164] @ '' channel '' @ utf8 [231, 148, 168, 230, 136, 183] @ '': '' @ user_text user))"

section \<open>Checks\<close>

definition verify_agent_exists :: "'w agent_env \<Rightarrow> string \<Rightarrow> ('w, unit) agent_op" where
  "verify_agent_exists env agent_id s =
     (if agent_id = [] \<or> agent_id = reserved_agent_id then (Inr (), s)
      else case get_agent (nv_ego env) agent_id (sn_net s) of
        (Inl e, w) \<Rightarrow> (Inl (Failed e), s\<lparr>sn_net := w\<rparr>)
      | (Inr (Some _), w) \<Rightarrow> (Inr (), s\<lparr>sn_net := w\<rparr>)
      | (Inr None, w) \<Rightarrow> (Inl (Failed (AE_MemoryEgoError (''agent '' @ utf8 [228, 184, 141, 229, 173, 152, 229, 156, 168] @ '': '' @ agent_id))), s\<lparr>sn_net := w\<rparr>))"

definition verify_role_exists :: "'w agent_env \<Rightarrow> string \<Rightarrow> string \<Rightarrow> ('w, unit) agent_op" where
  "verify_role_exists env agent_id role s =
     (if role = [] then (Inr (), s)
      else case get_role (nv_ego env) agent_id role (sn_net s) of
        (Inl e, w) \<Rightarrow> (Inl (Failed e), s\<lparr>sn_net := w\<rparr>)
      | (Inr (Some _), w) \<Rightarrow> (Inr (), s\<lparr>sn_net := w\<rparr>)
      | (Inr None, w) \<Rightarrow> (Inl (Failed (AE_MemoryEgoError (''role '' @ utf8 [228, 184, 141, 229, 173, 152, 229, 156, 168] @ '': '' @ role))), s\<lparr>sn_net := w\<rparr>))"

definition verify_role_exists_for_channel :: "'w agent_env \<Rightarrow> string \<Rightarrow> string \<Rightarrow> ('w, unit) agent_op" where
  "verify_role_exists_for_channel env channel_id role =
     bind_act (read_st (channel channel_id)) (\<lambda>found.
       case found of
         None \<Rightarrow> fail (Failed (no_channel channel_id))
       | Some ch \<Rightarrow> verify_role_exists env (cg_agent_id ch) role)"

definition verify_model :: "'w agent_env \<Rightarrow> string \<Rightarrow> string \<Rightarrow> ('w, unit) agent_op" where
  "verify_model env provider model =
     bind_act (outcome (list_models env provider)) (\<lambda>r.
       case r of
         Inl e \<Rightarrow> fail (Failed (AE_ModelApiError (utf8 [232, 142, 183, 229, 143, 150, 230, 168, 161, 229, 158, 139, 229, 136, 151, 232, 161, 168, 229, 164, 177, 232, 180, 165] @ '': '' @ error_text e)))
       | Inr models \<Rightarrow>
           if model \<in> set models then ret ()
           else fail (Failed (AE_ModelProviderNotSupported (utf8 [230, 168, 161, 229, 158, 139] @ '' '' @ model @ '' '' @ utf8 [228, 184, 141, 229, 156, 168] @ '' '' @ provider @ '' '' @ utf8 [231, 154, 132] @ '' API '' @ utf8 [230, 168, 161, 229, 158, 139, 229, 136, 151, 232, 161, 168]))))"

definition set_session_model :: "'w agent_env \<Rightarrow> agent_session \<Rightarrow> string \<Rightarrow> string \<Rightarrow> ('w, unit) agent_op" where
  "set_session_model env key provider model =
     bind_act (verify_model env provider model) (\<lambda>_.
     lift_op (set_session_config llm_kind key (default_llm\<lparr>ls_provider_name := Some provider, ls_model := Some model\<rparr>)))"

definition set_channel_session_model :: "'w agent_env \<Rightarrow> string \<Rightarrow> string \<Rightarrow> string \<Rightarrow> ('w, unit) agent_op" where
  "set_channel_session_model env channel_id provider model =
     bind_act (read_st (memory_key_of channel_id)) (\<lambda>found.
       case found of
         None \<Rightarrow> fail (Failed (no_channel channel_id))
       | Some k \<Rightarrow> set_session_model env (Memory_Session k) provider model)"

section \<open>Commands\<close>

text \<open>\<open>split_whitespace\<close>.\<close>

function split_whitespace_from :: "string \<Rightarrow> string \<Rightarrow> string list" where
  "split_whitespace_from word s =
     (let done_word = (if word = [] then [] else [word])
      in case strip_any white_space s of
           Some rest \<Rightarrow> if length rest < length s then done_word @ split_whitespace_from [] rest else done_word
         | None \<Rightarrow> (case s of [] \<Rightarrow> done_word | c # cs \<Rightarrow> split_whitespace_from (word @ [c]) cs))"
  by pat_completeness auto

termination by (relation "measure (\<lambda>(word, s). length s)") auto

declare split_whitespace_from.simps [simp del]

definition split_whitespace :: "string \<Rightarrow> string list" where
  "split_whitespace s = split_whitespace_from [] s"

definition bad_command :: "string \<Rightarrow> ('w, 'a) agent_op" where
  "bad_command m = fail (Failed (AE_InvalidCommand m))"

definition replying :: "('w, unit) agent_op \<Rightarrow> string \<Rightarrow> ('w, string) agent_op" where
  "replying m reply = bind_act m (\<lambda>_. ret reply)"

definition command_agent :: "'w agent_env \<Rightarrow> string \<Rightarrow> string list \<Rightarrow> ('w, string) agent_op" where
  "command_agent env channel_id args =
     (let agent_id = (case args of a # _ \<Rightarrow> if a = [] then reserved_agent_id else a | [] \<Rightarrow> reserved_agent_id);
          role = (case args of _ # r # _ \<Rightarrow> r | _ \<Rightarrow> reserved_role_name)
      in bind_act (verify_agent_exists env agent_id) (\<lambda>_.
         bind_act (if role = [] then ret () else verify_role_exists env agent_id role) (\<lambda>_.
         replying (apply_channel_key env channel_id (Some agent_id) (Some role) None)
           (utf8 [226, 156, 133] @ '' '' @ utf8 [229, 183, 178, 232, 174, 190, 231, 189, 174] @ '' agent: '' @ agent_id @ '' / role: '' @ role))))"

definition command_role :: "'w agent_env \<Rightarrow> string \<Rightarrow> string list \<Rightarrow> ('w, string) agent_op" where
  "command_role env channel_id args =
     (let role = (case args of r # _ \<Rightarrow> r | [] \<Rightarrow> reserved_role_name)
      in bind_act (verify_role_exists_for_channel env channel_id role) (\<lambda>_.
         replying (apply_channel_key env channel_id None (Some role) None) (utf8 [226, 156, 133] @ '' '' @ utf8 [229, 183, 178, 232, 174, 190, 231, 189, 174] @ '' role: '' @ role)))"

definition command_mode :: "'w agent_env \<Rightarrow> string \<Rightarrow> string list \<Rightarrow> ('w, string) agent_op" where
  "command_mode env channel_id args =
     (case args of
        [] \<Rightarrow> bad_command (utf8 [230, 160, 188, 229, 188, 143] @ '': /mode event [event-id] '' @ utf8 [230, 136, 150] @ '' /mode role'')
      | mode # rest \<Rightarrow>
          if mode = ''event'' then
            bind_act (case rest of i # _ \<Rightarrow> ret i | [] \<Rightarrow> asking (nv_uuid env)) (\<lambda>i.
            replying (apply_channel_key env channel_id None None (Some (Some i))) (utf8 [226, 156, 133] @ '' '' @ utf8 [230, 150, 176, 228, 186, 139, 228, 187, 182] @ '' ID: '' @ i))
          else if mode = ''role'' then
            replying (apply_channel_key env channel_id None None (Some None)) (utf8 [226, 156, 133] @ '' '' @ utf8 [229, 183, 178, 229, 136, 135, 230, 141, 162, 228, 184, 186, 232, 167, 146, 232, 137, 178, 230, 168, 161, 229, 188, 143])
          else bad_command (utf8 [230, 156, 170, 231, 159, 165, 230, 168, 161, 229, 188, 143] @ '': '' @ mode))"

definition command_bind_outgoing :: "string \<Rightarrow> string list \<Rightarrow> ('w, string) agent_op" where
  "command_bind_outgoing channel_id args =
     (case args of
        m # u # g # _ \<Rightarrow>
          bind_act (read_st (channel channel_id)) (\<lambda>found.
            case found of
              None \<Rightarrow> fail (Failed (no_channel channel_id))
            | Some ch \<Rightarrow>
                if ChannelUser m u \<notin> cg_bind_users ch
                then bad_command (''ChannelUser '' @ utf8 [230, 156, 170, 231, 187, 145, 229, 174, 154] @ '': '' @ m @ '' / '' @ u)
                else replying (lift_op (set_out_channel (cg_agent_id ch) (cg_role_name ch)
                       (Some \<lparr>oc_channel_id = channel_id, oc_user = ChannelUser m u, oc_group_id = g\<rparr>)))
                     (utf8 [226, 156, 133] @ '' '' @ utf8 [229, 183, 178, 232, 174, 190, 229, 143, 145, 233, 128, 129, 233, 128, 154, 233, 129, 147] @ '': '' @ m @ '' / '' @ u @ '' -> '' @ g))
      | _ \<Rightarrow> bad_command (utf8 [230, 160, 188, 229, 188, 143] @ '': /bind-outgoing <messenger_id> <user_id> <group_id>''))"

definition command_unbind_outgoing :: "string \<Rightarrow> string list \<Rightarrow> ('w, string) agent_op" where
  "command_unbind_outgoing channel_id args =
     (if args \<noteq> [] then bad_command (utf8 [230, 160, 188, 229, 188, 143] @ '': /unbind-outgoing'' @ utf8 [239, 188, 136, 230, 151, 160, 229, 143, 130, 230, 149, 176, 239, 188, 137])
      else
        bind_act (read_st (channel channel_id)) (\<lambda>found.
          case found of
            None \<Rightarrow> fail (Failed (no_channel channel_id))
          | Some ch \<Rightarrow> replying (lift_op (set_out_channel (cg_agent_id ch) (cg_role_name ch) None))
              (utf8 [226, 156, 133] @ '' '' @ utf8 [229, 183, 178, 229, 143, 150, 230, 182, 136, 229, 143, 145, 233, 128, 129, 233, 128, 154, 233, 129, 147, 239, 188, 136, 229, 143, 170, 229, 173, 152, 228, 184, 141, 229, 155, 158, 229, 164, 141, 239, 188, 137])))"

text \<open>\<open>CommandRouter::execute\<close>; \<open>/model\<close> hands its first argument over twice.\<close>

definition execute :: "'w agent_env \<Rightarrow> string \<Rightarrow> string \<Rightarrow> ('w, string) agent_op" where
  "execute env content channel_id =
     (case split_whitespace (trim content) of
        [] \<Rightarrow> bad_command (utf8 [231, 169, 186, 229, 145, 189, 228, 187, 164])
      | cmd # args \<Rightarrow>
          if cmd = ''/bind'' then
            (case args of
               k # m # u # _ \<Rightarrow>
                 if k = ''messenger'' then apply_channel_command (Bind_User channel_id (ChannelUser m u))
                 else bad_command (utf8 [230, 160, 188, 229, 188, 143] @ '': /bind messenger <messenger_id> <user_id>'')
             | _ \<Rightarrow> bad_command (utf8 [230, 160, 188, 229, 188, 143] @ '': /bind messenger <messenger_id> <user_id>''))
          else if cmd = ''/unbind'' then
            (case args of
               k # m # u # _ \<Rightarrow>
                 if k = ''messenger'' then apply_channel_command (Unbind_User channel_id (ChannelUser m u))
                 else bad_command (utf8 [230, 160, 188, 229, 188, 143] @ '': /unbind messenger <messenger_id> <user_id>'')
             | _ \<Rightarrow> bad_command (utf8 [230, 160, 188, 229, 188, 143] @ '': /unbind messenger <messenger_id> <user_id>''))
          else if cmd = ''/admin'' then
            (case args of
               m # u # _ \<Rightarrow> replying (lift_op (add_admin channel_id (ChannelUser m u)))
                 (utf8 [226, 156, 133] @ '' '' @ utf8 [229, 183, 178, 230, 183, 187, 229, 138, 160, 231, 174, 161, 231, 144, 134, 230, 157, 131, 233, 153, 144] @ '': '' @ m @ '' / '' @ u)
             | _ \<Rightarrow> bad_command (utf8 [230, 160, 188, 229, 188, 143] @ '': /admin <messenger_id> <user_id>''))
          else if cmd = ''/unadmin'' then
            (case args of
               m # u # _ \<Rightarrow> replying (lift_op (remove_admin channel_id (ChannelUser m u)))
                 (utf8 [226, 156, 133] @ '' '' @ utf8 [229, 183, 178, 231, 167, 187, 233, 153, 164, 231, 174, 161, 231, 144, 134, 230, 157, 131, 233, 153, 144] @ '': '' @ m @ '' / '' @ u)
             | _ \<Rightarrow> bad_command (utf8 [230, 160, 188, 229, 188, 143] @ '': /unadmin <messenger_id> <user_id>''))
          else if cmd = ''/agent'' then command_agent env channel_id args
          else if cmd = ''/role'' then command_role env channel_id args
          else if cmd = ''/mode'' then command_mode env channel_id args
          else if cmd = ''/bind-outgoing'' then command_bind_outgoing channel_id args
          else if cmd = ''/unbind-outgoing'' then command_unbind_outgoing channel_id args
          else if cmd = ''/model'' then
            (case args of
               [provider, model] \<Rightarrow> replying (set_channel_session_model env channel_id provider provider)
                 (utf8 [226, 156, 133] @ '' '' @ utf8 [229, 183, 178, 229, 136, 135, 230, 141, 162, 230, 168, 161, 229, 158, 139, 228, 184, 186] @ '': '' @ provider @ ''/'' @ model)
             | _ \<Rightarrow> bad_command (utf8 [230, 160, 188, 229, 188, 143] @ '': /model <provider> <model>''))
          else bad_command (utf8 [230, 156, 170, 231, 159, 165, 229, 145, 189, 228, 187, 164] @ '': '' @ cmd))"

section \<open>Incoming messages\<close>

definition send_admin_reply :: "'w agent_env \<Rightarrow> string \<Rightarrow> incoming_message_event \<Rightarrow> string \<Rightarrow> ('w, unit) agent_op" where
  "send_admin_reply env channel_id e content =
     bind_act (send_on_channel env channel_id
       \<lparr>om_messenger_id = im_messenger_id (ie_incoming_message e), om_user_id = ie_recipient_user_id e,
        om_group_id = im_group_id (ie_incoming_message e), om_content = Content_Text content\<rparr>) (\<lambda>_. ret ())"

definition reply_text :: "agent_error + string \<Rightarrow> string" where
  "reply_text r =
     (case r of
        Inr reply \<Rightarrow> reply
      | Inl (AE_InvalidCommand m) \<Rightarrow> utf8 [226, 154, 160, 239, 184, 143] @ '' '' @ m
      | Inl e \<Rightarrow> utf8 [226, 157, 140] @ '' '' @ utf8 [229, 145, 189, 228, 187, 164, 230, 137, 167, 232, 161, 140, 229, 164, 177, 232, 180, 165] @ '': '' @ error_text e)"

fun is_command :: "content \<Rightarrow> bool" where
  "is_command (Content_Text t) \<longleftrightarrow> starts_with t ''/''"
| "is_command _ \<longleftrightarrow> False"

fun command_text :: "content \<Rightarrow> string" where
  "command_text (Content_Text t) = t"
| "command_text _ = []"

fun is_system_event :: "content \<Rightarrow> bool" where
  "is_system_event (Content_GroupJoin _) \<longleftrightarrow> True"
| "is_system_event (Content_GroupLeave _) \<longleftrightarrow> True"
| "is_system_event (Content_UserRemove _) \<longleftrightarrow> True"
| "is_system_event _ \<longleftrightarrow> False"

definition sender_of :: "incoming_message_event \<Rightarrow> channel_user" where
  "sender_of e = ChannelUser (im_messenger_id (ie_incoming_message e)) (im_user_id (ie_incoming_message e))"

definition upstream_record :: "channel_config \<Rightarrow> memory_key \<Rightarrow> incoming_message_event \<Rightarrow> channel_request" where
  "upstream_record ch k e =
     (let m = ie_incoming_message e in
     \<lparr>cq_msg_id = im_msg_id m, cq_agent_id = cg_agent_id ch, cq_role_event = mk_role_event k,
      cq_messenger_id = im_messenger_id m, cq_user_id = im_user_id m, cq_self_user_id = ie_recipient_user_id e,
      cq_group_id = im_group_id m, cq_is_self = 0, cq_messenger_name = im_messenger_name m,
      cq_user_name = im_user_name m, cq_group_name = im_group_name m, cq_content = im_content m,
      cq_time = im_time m\<rparr>)"

text \<open>\<open>Nexus::incoming_message\<close>.\<close>

definition nexus_incoming :: "'w agent_env \<Rightarrow> string \<Rightarrow> incoming_message_event \<Rightarrow> ('w, unit) agent_op" where
  "nexus_incoming env channel_id e =
     bind_act (read_st (channel channel_id)) (\<lambda>found.
       case found of
         None \<Rightarrow> ret ()
       | Some ch \<Rightarrow>
           let content = im_content (ie_incoming_message e) in
           if is_command content then
             (if sender_of e \<in> cg_admins ch then
                bind_act (outcome (execute env (command_text content) channel_id)) (\<lambda>r.
                send_admin_reply env channel_id e (reply_text r))
              else ret ())
           else
             bind_act (read_st (memory_key_of channel_id)) (\<lambda>key.
               case key of
                 None \<Rightarrow> ret ()
               | Some k \<Rightarrow>
                   bind_act (push (Push_Channel (upstream_record ch k e))) (\<lambda>_.
                   if is_system_event content then ret ()
                   else
                     bind_act (ensure_session env (Memory_Session k)) (\<lambda>_.
                     on_pipeline (Memory_Session k) (\<lambda>p. pipeline_incoming p e)))))"

text \<open>\<open>Terminal::incoming_message\<close> of the channel manager: what the agent sent itself is dropped.\<close>

definition terminal_incoming :: "'w agent_env \<Rightarrow> string \<Rightarrow> incoming_message_event \<Rightarrow> ('w, unit) agent_op" where
  "terminal_incoming env channel_id e =
     bind_act (read_st (\<lambda>s. hm_get (ag_channels s) channel_id)) (\<lambda>found.
       case found of
         None \<Rightarrow> nexus_incoming env channel_id e
       | Some c \<Rightarrow>
           bind_act (asking (nv_instant env)) (\<lambda>now.
             case consume_pending (im_msg_id (ie_incoming_message e)) now c of
               (echo, c') \<Rightarrow>
                 bind_act (modify_st (put_channel channel_id c')) (\<lambda>_.
                   if echo then ret () else nexus_incoming env channel_id e)))"

section \<open>Starting\<close>

text \<open>\<open>connect_channel\<close> up to the task that connects: the channel gets its client.\<close>

definition connect_channel :: "string \<Rightarrow> ('w, unit) agent_op" where
  "connect_channel channel_id =
     bind_act (read_st (channel channel_id)) (\<lambda>found.
       case found of
         None \<Rightarrow> ret ()
       | Some ch \<Rightarrow>
           bind_act (get_or_create_channel (cg_channel_id ch)) (\<lambda>c.
           modify_st (put_channel (cg_channel_id ch) (c\<lparr>cn_client := True\<rparr>))))"

text \<open>\<open>Nexus::run\<close> up to its endless loop.\<close>

definition nexus_run :: "'w agent_env \<Rightarrow> ('w, unit) agent_op" where
  "nexus_run env =
     bind_act (read_st channels) (\<lambda>chs.
     bind_act (for_each chs (\<lambda>(_, ch).
       bind_act (read_st (memory_key_of (cg_channel_id ch))) (\<lambda>key.
         case key of
           Some k \<Rightarrow> bind_act (ensure_session env (Memory_Session k)) (\<lambda>_. ret ())
         | None \<Rightarrow> ret ()))) (\<lambda>_.
     bind_act (read_st channels) (\<lambda>chs.
     for_each chs (\<lambda>(_, ch). if cg_enabled ch then connect_channel (cg_channel_id ch) else ret ()))))"


end
