(* ===== verification/Agent_Inv.thy ===== *)
theory Agent_Inv
  imports Agent_Nexus
begin

text \<open>
  Invariants of the running agent. The locale \<open>quiet_law\<close> says what a condition on the state has
  to survive, one assumption for each kind of change that the code makes, and \<open>agent_law\<close> adds
  that something is handed to the memory; inside them every operation of the agent is shown to
  keep the condition. They are interpreted on what makes a state well-formed, on the provider
  instance that was made first, and on what was handed to the memory.
\<close>

section \<open>What the operations of other parts leave alone\<close>

lemma keeps_pointwise: "(\<And>s. f (snd (m s)) = f s) \<Longrightarrow> keeps f m"
  by (simp add: keeps_def)

lemma config_more_update [simp]:
  "config_state.more (s\<lparr>cs_nexus := r\<rparr>) = config_state.more s"
  "config_state.more (s\<lparr>cs_faults := fs\<rparr>) = config_state.more s"
  "config_state.more (s\<lparr>cs_nexus_file := x\<rparr>) = config_state.more s"
  by (cases s; simp)+

lemma keeps_more_store [keeps_intros]: "keeps config_state.more (store_nexus r)"
  unfolding store_nexus_def by (intro keeps_intros keeps_disk_step keeps_modify_st; simp)

lemma keeps_more_write [keeps_intros]: "keeps config_state.more (write_nexus_config f)"
proof (rule keepsI)
  fix s r s' assume run: "write_nexus_config f s = (r, s')"
  show "config_state.more s' = config_state.more s"
  proof (cases "f (cs_nexus s)")
    case (Pair q n)
    show ?thesis
    proof (cases q)
      case (Inr x)
      have "keeps config_state.more (bind_act (store_nexus n) (\<lambda>_. ret x))" by (intro keeps_intros)
      with run Pair Inr show ?thesis by (auto simp: write_nexus_config_def dest: keepsD)
    qed (use run Pair in \<open>auto simp: write_nexus_config_def\<close>)
  qed
qed

lemma keeps_more_session_config [keeps_intros]: "keeps config_state.more (session_config K key)"
  by (rule keepsI)
    (auto simp: session_config_def memory_session_config_def raw_session_config_def Let_def
      split: agent_session.splits option.splits prod.splits)

lemma keeps_more_changes [keeps_intros]:
  "keeps config_state.more (set_session_config K key c)" "keeps config_state.more (update_channel i g)"
  "keeps config_state.more (add_admin i u)" "keeps config_state.more (remove_admin i u)"
  "keeps config_state.more (set_out_channel a r out)" "keeps config_state.more (add_channel ch)"
  "keeps config_state.more (remove_channel i)" "keeps config_state.more (add_provider n p)"
  "keeps config_state.more (remove_provider n)"
  by (auto simp: set_session_config_def set_memory_session_config_def set_raw_session_config_def update_channel_def
      add_admin_def remove_admin_def set_out_channel_def set_agent_role_config_def add_channel_def remove_channel_def
      add_provider_def remove_provider_def split: agent_session.splits intro!: keeps_intros)

text \<open>A session keeps the name of its file.\<close>

abbreviation chat_name :: "chat \<Rightarrow> string \<times> string" where
  "chat_name c \<equiv> cache_key (ch_ctx c)"

lemma keeps_chat [keeps_intros]:
  "keeps chat_name chat_io" "keeps chat_name chat_now" "keeps chat_name (set_cache ls)"
  "keeps chat_name (modify_files g)"
  by (auto simp: keeps_def chat_io_def chat_now_def set_cache_def modify_files_def modify_st_def cache_key_def
      split: list.splits)

lemma keeps_modify_ctx: "(\<And>ctx. cache_key (g ctx) = cache_key ctx) \<Longrightarrow> keeps chat_name (modify_ctx g)"
  by (simp add: keeps_def modify_ctx_def modify_st_def)

lemma keeps_chat_writes [keeps_intros]:
  "keeps chat_name (write_cache_lines ms)" "keeps chat_name open_cache_and_write_system_line"
  "keeps chat_name write_history" "keeps chat_name write_current_cache"
  unfolding write_cache_lines_def write_cache_line_def open_cache_and_write_system_line_def write_history_def
    write_history_line_def write_current_cache_def
  by (intro keeps_intros)+

lemma keeps_context_append [keeps_intros]: "keeps chat_name (context_append ms)"
  unfolding context_append_def by (intro keeps_intros keeps_modify_ctx) (simp add: cache_key_def)

lemma keeps_archive [keeps_intros]: "keeps chat_name (archive_and_clear_cache_and_reset_messages ms)"
  unfolding archive_and_clear_cache_and_reset_messages_def
  by (intro keeps_intros keeps_modify_ctx) (simp add: cache_key_def)

lemma keeps_set_system [keeps_intros]: "keeps chat_name (set_system_message t)"
  unfolding set_system_message_def by (intro keeps_modify_ctx) (simp add: cache_key_def)

lemma keeps_build_context [keeps_intros]: "keeps chat_name build_context"
proof -
  have "keeps chat_name apply_pending_system"
    unfolding apply_pending_system_def by (intro keeps_intros keeps_modify_ctx; simp add: cache_key_def)
  then show ?thesis by (auto simp: keeps_def build_context_def split: prod.splits) (metis snd_conv)
qed

lemma keeps_revert_loop [keeps_intros]: "keeps chat_name (revert_loop condition ms x backup results)"
proof (induction condition ms x backup results rule: revert_loop.induct)
  case (2 condition m ms x backup results)
  obtain stop y where cond: "condition x m = (stop, y)" by (cases "condition x m")
  show ?case
  proof (cases stop)
    case True
    with cond show ?thesis by (simp add: keeps_ret)
  next
    case False
    have "keeps chat_name (modify_ctx (\<lambda>ctx. ctx\<lparr>sc_messages := rev ms\<rparr>))"
      by (rule keeps_modify_ctx) (simp add: cache_key_def)
    moreover have "keeps chat_name (revert_loop condition ms y True (m # results))"
      using 2 [OF cond [symmetric]] False by simp
    ultimately have "keeps chat_name (bind_act (if backup then ret () else archive_and_clear_cache_and_reset_messages None) (\<lambda>_.
        bind_act (modify_ctx (\<lambda>ctx. ctx\<lparr>sc_messages := rev ms\<rparr>)) (\<lambda>_. revert_loop condition ms y True (m # results))))"
      by (intro keeps_intros)
    with cond False show ?thesis by simp
  qed
qed (simp add: keeps_ret)

lemma keeps_revert_until [keeps_intros]: "keeps chat_name (revert_until condition x)"
  unfolding revert_until_def by (intro keeps_intros)

lemma adopt_cache_key: "cache_key (adopt_messages ms ctx) = cache_key ctx"
  by (cases "(ms, ctx)" rule: adopt_messages.cases) (simp_all add: cache_key_def)

lemma keeps_recover [keeps_intros]: "keeps chat_name recover_from_cache"
  unfolding recover_from_cache_def
  by (intro keeps_intros keeps_modify_ctx; simp add: cache_key_def adopt_cache_key [unfolded cache_key_def])

text \<open>A tool call and a listing change the network, and the listing the routes.\<close>

lemma call_tool_local_state: "\<exists>w. snd (call_tool_local n args s) = s\<lparr>sn_net := w\<rparr>"
proof -
  have same: "\<exists>w. s = s\<lparr>sn_net := w\<rparr>" by (rule exI [of _ "sn_net s"]) simp
  have "\<exists>w. snd (call_tool n args [] s) = s\<lparr>sn_net := w\<rparr>"
    using same by (auto simp: call_tool_def split: option.splits prod.splits)
  then show ?thesis by (auto simp: call_tool_local_def split: prod.splits sum.splits)
qed

section \<open>Ends of operations\<close>

lemma preserves_case_sum [preserves_intros]:
  "(\<And>x. preserves I (m x)) \<Longrightarrow> (\<And>y. preserves I (n y)) \<Longrightarrow> preserves I (case r of Inl x \<Rightarrow> m x | Inr y \<Rightarrow> n y)"
  by (cases r) simp_all

lemma preserves_case_session [preserves_intros]:
  "(\<And>k. preserves I (m k)) \<Longrightarrow> (\<And>i. preserves I (n i)) \<Longrightarrow>
   preserves I (case key of Memory_Session k \<Rightarrow> m k | Raw_Session i \<Rightarrow> n i)"
  by (cases key) simp_all

lemma preserves_case_list [preserves_intros]:
  "preserves I m \<Longrightarrow> (\<And>x xs. preserves I (n x xs)) \<Longrightarrow> preserves I (case ys of [] \<Rightarrow> m | x # xs \<Rightarrow> n x xs)"
  by (cases ys) simp_all

lemma preserves_ends [preserves_intros]:
  "preserves I m \<Longrightarrow> preserves I (ignoring m)" "preserves I m \<Longrightarrow> preserves I (outcome m)"
  by (auto simp: preserves_def ignoring_def outcome_def split: prod.splits sum.splits failure.splits)

lemma preserves_lift [preserves_intros]: "preserves I m \<Longrightarrow> preserves I (lift_op m)"
  by (auto simp: preserves_def lift_op_def split: prod.splits sum.splits)

lemma preserves_unpanicked [preserves_intros]: "preserves I (unpanicked x)"
  by (auto simp: unpanicked_def intro: preserves_intros split: option.splits)

lemma set_out_channel_preserves: "preserves config_ok (set_out_channel agent_id role out)"
  unfolding set_out_channel_def by (rule set_agent_role_preserves)

section \<open>What a condition has to survive\<close>

locale quiet_law =
  fixes I :: "'w agent_state \<Rightarrow> bool"
  assumes config_kept: "I s \<Longrightarrow> config_ok s"
    and config: "I s \<Longrightarrow> config_ok s' \<Longrightarrow> config_state.more s' = config_state.more s \<Longrightarrow> I s'"
    and net: "I s \<Longrightarrow> I (s\<lparr>sn_net := w\<rparr>)"
    and routes: "I s \<Longrightarrow> I (s\<lparr>sn_tool_routes := rs\<rparr>)"
    and said: "I s \<Longrightarrow> (h < length (ag_contexts s) \<Longrightarrow> cache_key ctx = cache_key (ag_contexts s ! h)) \<Longrightarrow>
      I (s\<lparr>ag_contexts := (ag_contexts s)[h := ctx], ag_files := fs\<rparr>)"
    and session: "I s \<Longrightarrow> hm_get (ag_sessions s) key = None \<Longrightarrow>
      cache_key ctx = (ag_data_dir s, session_id_of key) \<Longrightarrow>
      I (s\<lparr>ag_contexts := ag_contexts s @ [ctx], ag_files := fs,
           ag_sessions := hm_insert key (length (ag_contexts s)) (ag_sessions s)\<rparr>)"
    and made: "I s \<Longrightarrow> hm_get (ag_sessions s) key = Some h \<Longrightarrow>
      I (s\<lparr>ag_pipelines := ag_pipelines s @ [new_pipeline kind key h],
           ag_pipeline_map := hm_insert key (cfg, length (ag_pipelines s)) (ag_pipeline_map s)\<rparr>)"
    and changed: "I s \<Longrightarrow> pl_session_key pl = pl_session_key (ag_pipelines s ! p) \<Longrightarrow>
      pl_session pl = pl_session (ag_pipelines s ! p) \<Longrightarrow> I (s\<lparr>ag_pipelines := (ag_pipelines s)[p := pl]\<rparr>)"
    and pruned: "I s \<Longrightarrow> I (s\<lparr>ag_sessions := filter (\<lambda>(k, _). k \<in> ks) (ag_sessions s),
      ag_pipeline_map := filter (\<lambda>(k, _). k \<in> ks) (ag_pipeline_map s)\<rparr>)"
    and channel: "I s \<Longrightarrow> I (put_channel i c s)"
    and openai: "I s \<Longrightarrow> hm_get (ag_openai s) n = None \<Longrightarrow> I (s\<lparr>ag_openai := hm_insert n v (ag_openai s)\<rparr>)"
    and anthropic: "I s \<Longrightarrow> hm_get (ag_anthropic s) n = None \<Longrightarrow> I (s\<lparr>ag_anthropic := hm_insert n v (ag_anthropic s)\<rparr>)"
begin

lemma config_kept_by: "preserves config_ok m \<Longrightarrow> keeps config_state.more m \<Longrightarrow> preserves I m"
  by (rule preservesI) (metis config config_kept keepsD preservesD)

lemmas config_preserves [preserves_intros] =
  config_kept_by [OF session_config_preserves keeps_more_session_config]
  config_kept_by [OF set_session_config_preserves keeps_more_changes(1)]
  config_kept_by [OF admin_ops_preserve(1) keeps_more_changes(3)]
  config_kept_by [OF admin_ops_preserve(2) keeps_more_changes(4)]
  config_kept_by [OF set_out_channel_preserves keeps_more_changes(5)]

lemma preserves_asking [preserves_intros]: "preserves I (asking f)"
  by (auto simp: preserves_def asking_def net split: prod.splits)

lemma preserves_of_llm [preserves_intros]: "preserves I (of_llm m)"
  by (auto simp: preserves_def of_llm_def net split: prod.splits sum.splits)

lemma preserves_session_op: "keeps chat_name m \<Longrightarrow> preserves I (session_op h m)"
  by (rule preservesI) (auto simp: session_op_def split: prod.splits intro!: said dest: keepsD)

lemma preserves_chat [preserves_intros]:
  "preserves I (session_op h (context_append ms))" "preserves I (session_op h build_context)"
  "preserves I (session_op h (revert_until condition x))" "preserves I (session_op h (set_system_message t))"
  "preserves I (session_op h (archive_and_clear_cache_and_reset_messages ms'))"
  by (intro preserves_session_op keeps_intros)+

lemma preserves_change [preserves_intros]:
  "(\<And>pl. pl_session_key (f pl) = pl_session_key pl \<and> pl_session (f pl) = pl_session pl) \<Longrightarrow>
   preserves I (change_pipeline p f)"
  by (auto simp: change_pipeline_def intro!: preserves_modify_st changed)

lemma preserves_providers [preserves_intros]:
  "preserves I (get_openai_provider n cfg)" "preserves I (get_anthropic_provider n cfg)"
  by (auto simp: preserves_def get_openai_provider_def get_anthropic_provider_def openai anthropic split: option.splits)

end

section \<open>The operations\<close>

context quiet_law
begin

lemma preserves_provider_call [preserves_intros]: "preserves I (provider_call env llm ms ts)"
  unfolding provider_call_def Let_def by (intro preserves_intros)

lemma preserves_list_models [preserves_intros]: "preserves I (list_models env p)"
  unfolding list_models_def by (intro preserves_intros)

lemma preserves_list_subs [preserves_intros]: "preserves I (list_subs own anc subs acc)"
proof (induction subs arbitrary: acc)
  case (Cons sub subs)
  then show ?case
    by (auto simp: preserves_def on_net_def net split: prod.splits sum.splits)
qed (simp add: preserves_ret)

lemma preserves_list_tools [preserves_intros]: "preserves I (list_tools anc)"
  unfolding list_tools_def by (intro preserves_intros preserves_modify_st routes)

lemma preserves_list_tools_local [preserves_intros]: "preserves I (list_tools_local gs)"
  using preserves_list_tools [of "[]"]
  by (auto simp: preserves_def list_tools_local_def split: prod.splits sum.splits)

lemma preserves_tools_for_session [preserves_intros]: "preserves I (tools_for_session key)"
  unfolding tools_for_session_def by (intro preserves_intros)

lemma preserves_run_tool [preserves_intros]: "preserves I (run_tool c)"
proof (rule preservesI)
  fix s r s' assume "I s" and "run_tool c s = (r, s')"
  then show "I s'" using call_tool_local_state [of "tl_name c" "tl_arguments c" s]
    by (auto simp: run_tool_def Let_def net split: prod.splits)
qed

lemma preserves_call_tools_dyn [preserves_intros]:
  "(\<And>c. preserves I (m c)) \<Longrightarrow> preserves I (call_tools_dyn m cs)"
  by (induction cs) (auto intro!: preserves_intros)

lemma preserves_channel_queries [preserves_intros]:
  "preserves I (query_last env a re n)" "preserves I (query_recent env a re x y)"
  unfolding query_last_def query_recent_def by (intro preserves_intros)+

lemma preserves_read_recent [preserves_intros]: "preserves I (read_recent_for_context env k secs n)"
  unfolding read_recent_for_context_def Let_def by (intro preserves_intros)

lemma preserves_reducers [preserves_intros]:
  "preserves I (compress_reduce env key h ms)" "preserves I (memory_recover_reduce env key h ms)"
  unfolding compress_reduce_def memory_recover_reduce_def build_context_from_memory_store_def
    session_config_def [of recover_kind "Memory_Session k" for k, simplified, symmetric] Let_def
  by (intro preserves_intros)+

lemma preserves_send_messages [preserves_intros]: "preserves I (send_messages env key h ms ts)"
  unfolding send_messages_def by (intro preserves_intros)

lemma preserves_send_with_limit [preserves_intros]:
  "(\<And>ms. preserves I (reduce key h ms)) \<Longrightarrow> preserves I (send_messages_with_limit env key h ms ts reduce n)"
  unfolding send_messages_with_limit_def make_room_def by (intro preserves_intros)

lemma preserves_call_tools [preserves_intros]: "preserves I (call_tools cs)"
  unfolding call_tools_def by (intro preserves_intros)

lemma preserves_run_once [preserves_intros]: "preserves I (run_once env key h round ms ts usage)"
  unfolding run_once_def by (intro preserves_intros)

lemma preserves_run_loop [preserves_intros]: "preserves I (run_loop fuel env key h round ms ts usage)"
  by (induction fuel arbitrary: round ms usage) (simp_all add: preserves_intros)

lemma preserves_update_channel [preserves_intros]:
  "(\<And>c. cg_channel_id (f c) = cg_channel_id c) \<Longrightarrow> preserves I (update_channel i f)"
  by (intro config_kept_by update_channel_preserves keeps_more_changes)

lemma preserves_get_or_create_channel [preserves_intros]: "preserves I (get_or_create_channel i)"
  by (auto simp: preserves_def get_or_create_channel_def channel split: option.splits)

lemma preserves_put_channel [preserves_intros]: "preserves I (modify_st (put_channel i c))"
  by (intro preserves_modify_st channel)

lemma preserves_send_on_channel [preserves_intros]: "preserves I (send_on_channel env i m)"
  unfolding send_on_channel_def
  by (intro preserves_intros preserves_modify_st) (auto simp: Let_def channel split: option.splits)

lemma preserves_pipeline_incoming [preserves_intros]: "preserves I (pipeline_incoming p e)"
  unfolding pipeline_incoming_def by (intro preserves_intros) simp

lemma preserves_ego_part [preserves_intros]: "preserves I (ego_part m f)"
  by (auto simp: preserves_def ego_part_def net split: prod.splits sum.splits option.splits)

lemma preserves_reset [preserves_intros]: "preserves I (reset_system_prompt env p)"
proof -
  have "preserves I (get_ego_system_prompt env a r)" for a r
    unfolding get_ego_system_prompt_def Let_def by (intro preserves_intros)
  then show ?thesis
    unfolding reset_system_prompt_def
    by (intro preserves_intros) (simp split: pipeline_sort.split agent_session.split add: preserves_intros)
qed

lemma preserves_on_pipeline [preserves_intros]: "(\<And>p. preserves I (f p)) \<Longrightarrow> preserves I (on_pipeline key f)"
  unfolding on_pipeline_def by (intro preserves_intros)

lemma get_or_create_session_result:
  assumes ok: "I s" and run: "get_or_create_session key s = (r, s')"
  shows "I s' \<and> (\<exists>h new. r = Inr (h, new) \<and> hm_get (ag_sessions s') key = Some h)"
proof (cases "hm_get (ag_sessions s) key")
  case (Some h)
  with run ok show ?thesis by (auto simp: get_or_create_session_def bind_act_def read_st_def ret_def)
next
  case None
  let ?fresh = "new_context (ag_data_dir s) (session_id_of key)"
  obtain q c where rec: "recover_from_cache \<lparr>ch_ctx = ?fresh, ch_files = ag_files s\<rparr> = (q, c)" by force
  have "cache_key (ch_ctx c) = (ag_data_dir s, session_id_of key)"
    using keepsD [OF keeps_recover rec] by (simp add: new_context_def cache_key_def)
  from session [OF ok None this] have
    "I (s\<lparr>ag_contexts := ag_contexts s @ [ch_ctx c], ag_files := ch_files c,
          ag_sessions := hm_insert key (length (ag_contexts s)) (ag_sessions s)\<rparr>)" .
  with run None rec show ?thesis
    by (cases q) (auto simp: get_or_create_session_def bind_act_def read_st_def ret_def modify_st_def ignoring_def
        session_op_def)
qed

lemma preserves_sync:
  assumes ok: "I s" and found: "hm_get (ag_sessions s) key = Some h" and run: "sync_pipeline key h s = (r, s')"
  shows "I s'"
proof -
  obtain q s1 where cfg: "session_config pipeline_kind key s = (q, s1)" by force
  have more: "config_state.more s1 = config_state.more s"
    by (rule keepsD [OF keeps_more_session_config cfg])
  have ok1: "I s1"
    by (rule preservesD [OF config_kept_by [OF session_config_preserves keeps_more_session_config] ok cfg])
  from more found have found1: "hm_get (ag_sessions s1) key = Some h" by (cases s; cases s1) simp
  show ?thesis
    using run cfg ok1 made [OF ok1 found1]
    by (auto simp: sync_pipeline_def create_pipeline_def lift_op_def bind_act_def read_st_def modify_st_def ret_def
        fail_def Let_def split: sum.splits if_splits option.splits)
qed

lemma preserves_ensure_session [preserves_intros]: "preserves I (ensure_session env key)"
proof (rule preservesI)
  fix s r s' assume ok: "I s" and run: "ensure_session env key s = (r, s')"
  obtain q s1 where get: "get_or_create_session key s = (q, s1)" by force
  from get_or_create_session_result [OF ok get] obtain h new where ok1: "I s1" and q: "q = Inr (h, new)"
    and found: "hm_get (ag_sessions s1) key = Some h" by blast
  have "I s2" if "ignoring (sync_pipeline key h) s1 = (x, s2)" for x s2
    using that preserves_sync [OF ok1 found] by (auto simp: ignoring_def split: prod.splits sum.splits failure.splits)
  moreover have "preserves I (ignoring (on_pipeline key (reset_system_prompt env)))" by (intro preserves_intros)
  ultimately show "I s'"
    using run get q ok1
    by (auto simp: ensure_session_def bind_act_def ret_def split: prod.splits sum.splits if_splits dest: preservesD)
qed

lemma preserves_prune [preserves_intros]: "preserves I prune_sessions"
  by (rule preservesI)
    (auto simp: prune_sessions_def retain_sessions_def retain_pipelines_def bind_act_def read_st_def modify_st_def pruned)

lemma preserves_apply_channel_key [preserves_intros]: "preserves I (apply_channel_key env i a r ev)"
  unfolding apply_channel_key_def Let_def
  by (intro preserves_intros) (auto split: option.splits)

lemma preserves_channel_command [preserves_intros]: "preserves I (apply_channel_command c)"
  by (cases c) (auto simp: bind_user_def unbind_user_def intro!: preserves_intros)

lemma preserves_verify [preserves_intros]:
  "preserves I (verify_agent_exists env a)" "preserves I (verify_role_exists env a r)"
  "preserves I (verify_role_exists_for_channel env i r)" "preserves I (verify_model env p m)"
proof -
  show 1: "preserves I (verify_agent_exists env a)"
    by (auto simp: preserves_def verify_agent_exists_def net split: prod.splits sum.splits option.splits)
  show 2: "preserves I (verify_role_exists env a r)" for a
    by (auto simp: preserves_def verify_role_exists_def net split: prod.splits sum.splits option.splits)
  show "preserves I (verify_role_exists_for_channel env i r)"
    unfolding verify_role_exists_for_channel_def by (intro preserves_intros 2)
  show "preserves I (verify_model env p m)"
    unfolding verify_model_def by (intro preserves_intros)
qed

lemma preserves_commands [preserves_intros]:
  "preserves I (bad_command m)" "preserves I (command_agent env i args)" "preserves I (command_role env i args)"
  "preserves I (command_mode env i args)" "preserves I (command_bind_outgoing i args)"
  "preserves I (command_unbind_outgoing i args)" "preserves I (set_channel_session_model env i p m)"
  unfolding bad_command_def command_agent_def command_role_def command_mode_def command_bind_outgoing_def
    command_unbind_outgoing_def set_channel_session_model_def set_session_model_def replying_def Let_def
  by (intro preserves_intros)+

lemma preserves_replying [preserves_intros]: "preserves I m \<Longrightarrow> preserves I (replying m t)"
  unfolding replying_def by (intro preserves_intros)

lemma preserves_execute [preserves_intros]: "preserves I (execute env t i)"
  unfolding execute_def by (intro preserves_intros)

lemma preserves_connect [preserves_intros]: "preserves I (connect_channel i)"
  unfolding connect_channel_def by (intro preserves_intros)

lemma preserves_nexus_run: "preserves I (nexus_run env)"
  unfolding nexus_run_def by (intro preserves_intros)

end

text \<open>The operations that hand something to the memory.\<close>

locale agent_law = quiet_law +
  assumes pushed: "I s \<Longrightarrow> I (s\<lparr>ag_pushed := ag_pushed s @ [e]\<rparr>)"
begin

lemma preserves_push [preserves_intros]: "preserves I (push e)"
  by (auto simp: push_def pushed intro: preserves_modify_st)

lemma preserves_call_tool_with_memory [preserves_intros]: "preserves I (call_tool_with_memory env mk c)"
  unfolding call_tool_with_memory_def by (intro preserves_intros)

lemma preserves_memory_call_tool [preserves_intros]: "preserves I (memory_call_tool env p c)"
  unfolding memory_call_tool_def by (intro preserves_intros) simp

lemma preserves_send_outgoing [preserves_intros]: "preserves I (send_outgoing env a r re out content)"
  unfolding send_outgoing_def by (intro preserves_intros)

lemma preserves_outputs [preserves_intros]:
  "preserves I (push_thinking env key res)" "preserves I (send_output env p key res)"
  unfolding push_thinking_def send_output_def by (intro preserves_intros; simp)+

lemma preserves_memory_run_once [preserves_intros]: "preserves I (memory_run_once env b p round ms ts)"
  unfolding memory_run_once_def Let_def by (intro preserves_intros; simp add: preserves_intros)

lemma preserves_memory_run [preserves_intros]: "preserves I (memory_run env b p m ts)"
proof -
  have "preserves I (memory_run_loop fuel env b p round ms ts)" for fuel round ms
    by (induction fuel arbitrary: round ms) (simp_all add: preserves_intros)
  then show ?thesis unfolding memory_run_def .
qed

lemma preserves_batch: "preserves I (incoming_message_batch env p es)"
proof -
  have "preserves I (bind_act (outcome (run env key h content tools (Some n))) (\<lambda>r.
      case r of Inr (Some tokens) \<Rightarrow> change_pipeline p (\<lambda>pl. pl\<lparr>pl_last_total_tokens := tokens\<rparr>) | _ \<Rightarrow> ret ()))"
    for key h content tools n unfolding run_def by (intro preserves_intros) simp
  then show ?thesis
    unfolding incoming_message_batch_def Let_def
    by (intro preserves_intros) (simp split: pipeline_sort.split add: preserves_intros)
qed

lemma preserves_nexus_incoming [preserves_intros]: "preserves I (nexus_incoming env i e)"
  unfolding nexus_incoming_def send_admin_reply_def Let_def by (intro preserves_intros)

lemma preserves_terminal: "preserves I (terminal_incoming env i e)"
  unfolding terminal_incoming_def by (intro preserves_intros)

end

section \<open>Steps\<close>

text \<open>
  What happens to a running agent: a message comes in, the batch of a pipeline is due, channels
  are connected, or the management server (\<open>http_server.rs\<close>) changes the configuration.
\<close>

inductive agent_step :: "'w agent_env \<Rightarrow> 'w agent_state \<Rightarrow> 'w agent_state \<Rightarrow> bool" for env where
  message: "terminal_incoming env i e s = (r, s') \<Longrightarrow> agent_step env s s'"
| batch: "incoming_message_batch env p es s = (r, s') \<Longrightarrow> agent_step env s s'"
| start: "nexus_run env s = (r, s') \<Longrightarrow> agent_step env s s'"
| add_channel: "add_channel ch s = (x, s') \<Longrightarrow> agent_step env s s'"
| remove_channel: "remove_channel i s = (x, s') \<Longrightarrow> agent_step env s s'"
| add_admin: "add_admin i u s = (x, s') \<Longrightarrow> agent_step env s s'"
| remove_admin: "remove_admin i u s = (x, s') \<Longrightarrow> agent_step env s s'"
| add_provider: "add_provider n cfg s = (x, s') \<Longrightarrow> agent_step env s s'"
| remove_provider: "remove_provider n s = (x, s') \<Longrightarrow> agent_step env s s'"

text \<open>\<open>Nexus::new\<close> and \<open>Station::new\<close> on a configuration that was read; \<open>w\<close> is the world outside.\<close>

definition nexus_new ::
  "(string \<Rightarrow> 'w tool_group_of option) \<Rightarrow> (string \<Rightarrow> 64 word \<Rightarrow> string option \<Rightarrow> 'w mcp_client) \<Rightarrow> string \<Rightarrow>
   string \<Rightarrow> chat_files \<Rightarrow> 'w \<Rightarrow> config_state \<Rightarrow> 'w agent_state" where
  "nexus_new native connect api_key data_dir files w cfg =
     from_repo native connect (cs_station cfg) api_key
       \<lparr>cs_nexus = cs_nexus cfg, cs_station = cs_station cfg, cs_nexus_file = cs_nexus_file cfg,
        cs_station_file = cs_station_file cfg, cs_faults = cs_faults cfg, sn_station_id = [], sn_tools = [],
        sn_sub_stations = [], sn_tool_routes = [], sn_net = w, ag_data_dir = data_dir, ag_sessions = [],
        ag_contexts = [], ag_files = files, ag_pipeline_map = [], ag_pipelines = [], ag_channels = [],
        ag_openai = [], ag_anthropic = [], ag_pushed = []\<rparr>"

inductive agent_reachable :: "'w agent_env \<Rightarrow> 'w agent_state \<Rightarrow> bool" for env where
  new: "config_reachable cfg \<Longrightarrow> agent_reachable env (nexus_new native connect api_key data_dir files w cfg)"
| step: "agent_reachable env s \<Longrightarrow> agent_step env s s' \<Longrightarrow> agent_reachable env s'"

context agent_law
begin

lemma step_kept: "agent_step env s s' \<Longrightarrow> I s \<Longrightarrow> I s'"
proof (induction rule: agent_step.induct)
  case (message i e s r s')
  then show ?case by (rule preservesD [OF preserves_terminal, rotated])
next
  case (batch p es s r s')
  then show ?case by (rule preservesD [OF preserves_batch, rotated])
next
  case (start s r s')
  then show ?case by (rule preservesD [OF preserves_nexus_run, rotated])
next
  case (add_channel ch s x s')
  then show ?case by (rule preservesD [OF config_kept_by [OF add_channel_preserves keeps_more_changes(6)], rotated])
next
  case (remove_channel i s x s')
  then show ?case by (rule preservesD [OF config_kept_by [OF remove_channel_preserves keeps_more_changes(7)], rotated])
next
  case (add_admin i u s x s')
  then show ?case by (rule preservesD [OF config_preserves(3), rotated])
next
  case (remove_admin i u s x s')
  then show ?case by (rule preservesD [OF config_preserves(4), rotated])
next
  case (add_provider n cfg s x s')
  then show ?case by (rule preservesD [OF config_kept_by [OF provider_ops_preserve(1) keeps_more_changes(8)], rotated])
next
  case (remove_provider n s x s')
  then show ?case by (rule preservesD [OF config_kept_by [OF provider_ops_preserve(2) keeps_more_changes(9)], rotated])
qed

lemma steps_kept: "(agent_step env)\<^sup>*\<^sup>* s s' \<Longrightarrow> I s \<Longrightarrow> I s'"
  by (induction rule: rtranclp_induct) (auto intro: step_kept)

end

section \<open>Well-formed states\<close>

text \<open>
  Every session of the register is an object of its own, with a file of the name its key encodes,
  and every pipeline of the register serves its key on the session registered under it.
\<close>

definition agent_ok :: "'w agent_state \<Rightarrow> bool" where
  "agent_ok s \<longleftrightarrow>
     config_ok s \<and> hm_ok (ag_sessions s) \<and> hm_ok (ag_pipeline_map s) \<and>
     (\<forall>key h. hm_get (ag_sessions s) key = Some h \<longrightarrow>
        h < length (ag_contexts s) \<and> cache_key (ag_contexts s ! h) = (ag_data_dir s, session_id_of key)) \<and>
     (\<forall>key key' h. hm_get (ag_sessions s) key = Some h \<longrightarrow> hm_get (ag_sessions s) key' = Some h \<longrightarrow> key = key') \<and>
     (\<forall>key cfg p. hm_get (ag_pipeline_map s) key = Some (cfg, p) \<longrightarrow>
        p < length (ag_pipelines s) \<and> pl_session_key (ag_pipelines s ! p) = key \<and>
        hm_get (ag_sessions s) key = Some (pl_session (ag_pipelines s ! p)))"

lemma hm_get_retain: "hm_get (filter (\<lambda>(k, _). k \<in> ks) m) k = (if k \<in> ks then hm_get m k else None)"
  by (induction m) auto

lemma hm_ok_retain [simp]: "hm_ok m \<Longrightarrow> hm_ok (filter (\<lambda>(k, _). k \<in> ks) m)"
  by (auto simp: distinct_map inj_on_def)

lemma agent_more:
  fixes s s' :: "'w agent_state"
  assumes "config_state.more s' = config_state.more s"
  shows "ag_sessions s' = ag_sessions s" "ag_contexts s' = ag_contexts s" "ag_data_dir s' = ag_data_dir s"
    "ag_pipeline_map s' = ag_pipeline_map s" "ag_pipelines s' = ag_pipelines s" "ag_openai s' = ag_openai s"
    "ag_pushed s' = ag_pushed s"
  using assms by (cases s; cases s'; simp)+

lemma update_same: "(p < length xs \<Longrightarrow> f y = f (xs ! p)) \<Longrightarrow> f (xs[p := y] ! q) = f (xs ! q)"
  by (cases "p < length xs"; cases "p = q") (simp_all add: list_update_beyond not_less)

lemmas update_keeps = update_same [where f = cache_key] update_same [where f = pl_session_key]
  update_same [where f = pl_session]

interpretation well_formed: agent_law agent_ok
proof
  fix s s' :: "'w agent_state"
  assume "agent_ok s" "config_ok s'" "config_state.more s' = config_state.more s"
  then show "agent_ok s'" by (simp add: agent_ok_def agent_more [of s' s])
qed (auto simp: agent_ok_def config_ok_def nth_append update_keeps new_pipeline_def put_channel_def hm_get_retain
    less_Suc_eq simp del: map_of_eq_Some_iff split: if_splits)

text \<open>A provider of OpenAI's protocol that was made once.\<close>

definition provider_made :: "string \<Rightarrow> provider_config \<Rightarrow> 'w agent_state \<Rightarrow> bool" where
  "provider_made name p s \<longleftrightarrow> config_ok s \<and> hm_get (ag_openai s) name = Some p"

interpretation provider: agent_law "provider_made name p"
proof
  fix s s' :: "'w agent_state"
  assume "provider_made name p s" "config_ok s'" "config_state.more s' = config_state.more s"
  then show "provider_made name p s'" by (simp add: provider_made_def agent_more [of s' s])
qed (auto simp: provider_made_def config_ok_def put_channel_def)

text \<open>What was handed to the memory.\<close>

definition handed :: "pushed list \<Rightarrow> 'w agent_state \<Rightarrow> bool" where
  "handed ps s \<longleftrightarrow> config_ok s \<and> (\<exists>qs. ag_pushed s = ps @ qs)"

interpretation memory: agent_law "handed ps"
proof
  fix s s' :: "'w agent_state"
  assume "handed ps s" "config_ok s'" "config_state.more s' = config_state.more s"
  then show "handed ps s'" by (simp add: handed_def agent_more [of s' s])
qed (auto simp: handed_def config_ok_def put_channel_def)

definition handed_just :: "pushed list \<Rightarrow> 'w agent_state \<Rightarrow> bool" where
  "handed_just ps s \<longleftrightarrow> config_ok s \<and> ag_pushed s = ps"

interpretation idle_memory: quiet_law "handed_just ps"
proof
  fix s s' :: "'w agent_state"
  assume "handed_just ps s" "config_ok s'" "config_state.more s' = config_state.more s"
  then show "handed_just ps s'" by (simp add: handed_just_def agent_more [of s' s])
qed (auto simp: handed_just_def config_ok_def put_channel_def)

section \<open>From the start\<close>

lemma new_agent_ok:
  assumes "config_reachable cfg"
  shows "agent_ok (nexus_new native connect api_key data_dir files w cfg)"
  using config_reachable_ok [OF assms]
  by (simp add: agent_ok_def nexus_new_def from_repo_def config_ok_def)

lemma agent_reachable_ok: "agent_reachable env s \<Longrightarrow> agent_ok s"
  by (induction rule: agent_reachable.induct) (auto intro: new_agent_ok well_formed.step_kept)

end
