(* ===== verification/Agent_Run.thy ===== *)
theory Agent_Run
  imports Agent_Inv
begin

text \<open>
  Lemmas on the loops of the pipelines: that they end, what becomes of the tool calls of an
  answer, what is read back from the memory, and the share of the limit of tokens.
\<close>

section \<open>The loops end\<close>

lemma run_once_next:
  "run_once env key h round ms ts usage s = (Inr (True, n), s') \<Longrightarrow> round < max_tool_rounds"
  by (auto simp: run_once_def run_simps split: if_splits)

lemma memory_run_once_next:
  "memory_run_once env b p round ms ts s = (Inr True, s') \<Longrightarrow> round < max_tool_rounds"
  by (auto simp: memory_run_once_def Let_def run_simps split: if_splits)

lemma run_loop_ends:
  "fuel \<noteq> 0 \<Longrightarrow> round + fuel = Suc max_tool_rounds \<Longrightarrow> run_loop fuel env key h round ms ts usage s = (r, s') \<Longrightarrow>
   r \<noteq> Inr None"
proof (induction fuel arbitrary: round ms usage s)
  case (Suc fuel)
  show ?case
  proof (cases "run_once env key h round ms ts usage s")
    case (Pair q s1)
    show ?thesis
    proof (cases q)
      case (Inr v)
      then obtain next_round n where v: "q = Inr (next_round, n)" by (cases v) auto
      show ?thesis
      proof (cases next_round)
        case True
        with Pair v run_once_next Suc.prems(2) have "fuel \<noteq> 0" by fastforce
        with Suc.IH [of "round + 1"] Suc.prems Pair v True show ?thesis by (auto simp: bind_act_def)
      qed (use Suc.prems Pair v in \<open>auto simp: bind_act_def ret_def\<close>)
    qed (use Suc.prems Pair in \<open>auto simp: bind_act_def\<close>)
  qed
qed simp

lemma memory_run_loop_ends:
  "fuel \<noteq> 0 \<Longrightarrow> round + fuel = Suc max_tool_rounds \<Longrightarrow> memory_run_loop fuel env b p round ms ts s = (r, s') \<Longrightarrow>
   r \<noteq> Inr None"
proof (induction fuel arbitrary: round ms s)
  case (Suc fuel)
  show ?case
  proof (cases "memory_run_once env b p round ms ts s")
    case (Pair q s1)
    show ?thesis
    proof (cases q)
      case (Inr next_round)
      show ?thesis
      proof (cases next_round)
        case True
        with Pair Inr memory_run_once_next Suc.prems(2) have "fuel \<noteq> 0" by fastforce
        with Suc.IH [of "round + 1"] Suc.prems Pair Inr True show ?thesis by (auto simp: bind_act_def)
      qed (use Suc.prems Pair Inr in \<open>auto simp: bind_act_def ret_def\<close>)
    qed (use Suc.prems Pair in \<open>auto simp: bind_act_def\<close>)
  qed
qed simp

section \<open>The share of the limit\<close>

lemma bit_length_bounds: "n < 2 ^ bit_length n \<and> (n \<noteq> 0 \<longrightarrow> 2 ^ (bit_length n - 1) \<le> n)"
proof (induction n rule: bit_length.induct)
  case (1 n)
  show ?case
  proof (cases "n = 0")
    case False
    with 1 have IH: "n div 2 < 2 ^ bit_length (n div 2)"
        "n div 2 \<noteq> 0 \<Longrightarrow> 2 ^ (bit_length (n div 2) - 1) \<le> n div 2" by auto
    have len: "bit_length n = Suc (bit_length (n div 2))" using False by (simp add: bit_length.simps [of n])
    have "n < 2 ^ bit_length n" using IH(1) by (simp add: len)
    moreover have "2 ^ (bit_length n - 1) \<le> n"
    proof (cases "n div 2 = 0")
      case True
      then show ?thesis using False by (simp add: len bit_length.simps [of 0])
    next
      case nz: False
      then obtain m where m: "bit_length (n div 2) = Suc m" by (cases "bit_length (n div 2)") (auto simp: bit_length.simps)
      with IH(2) [OF nz] show ?thesis by (simp add: len m)
    qed
    ultimately show ?thesis by simp
  qed (simp add: bit_length.simps [of 0])
qed

lemma round_half_even_le: "p \<le> N * 2 ^ k \<Longrightarrow> round_half_even p k \<le> N"
proof -
  assume le: "p \<le> N * 2 ^ k"
  show ?thesis
  proof (cases "p mod 2 ^ k = 0")
    case True
    then have "round_half_even p k = p div 2 ^ k" by (simp add: round_half_even_def Let_def)
    moreover have "p div 2 ^ k \<le> N" using div_le_mono [OF le, of "2 ^ k"] by simp
    ultimately show ?thesis by simp
  next
    case False
    then have "p \<noteq> N * 2 ^ k" by auto
    with le have "p div 2 ^ k < N" by (simp add: less_mult_imp_div_less)
    then show ?thesis by (simp add: round_half_even_def Let_def)
  qed
qed

text \<open>A threshold of at most one, given by its bits, leaves at most the limit.\<close>

lemma bit_length_le: "p < 2 ^ b \<Longrightarrow> bit_length p \<le> b"
proof -
  assume "p < 2 ^ b"
  show ?thesis
  proof (cases "p = 0")
    case False
    with bit_length_bounds [of p] \<open>p < 2 ^ b\<close> have "2 ^ (bit_length p - 1) < (2 :: nat) ^ b" by (meson le_less_trans)
    then have "bit_length p - 1 < b" by simp
    then show ?thesis by simp
  qed (simp add: bit_length.simps [of 0])
qed

lemma scaled_le:
  fixes m N j :: nat
  assumes "m \<le> 2 ^ j" "m < 2 ^ 53" "N < 2 ^ 32" "52 \<le> j"
  defines "k \<equiv> bit_length (m * N) - 53"
  shows "k \<le> 32" and "round_half_even (m * N) k div 2 ^ (j - k) \<le> N"
proof -
  have "m * N < 2 ^ 53 * 2 ^ 32" using assms(2,3) by (intro mult_strict_mono) auto
  then have "m * N < 2 ^ 85" by simp
  from bit_length_le [OF this] show k: "k \<le> 32" by (simp add: k_def)
  have "m * N \<le> 2 ^ j * N" using assms(1) by (rule mult_right_mono) simp
  also have "\<dots> = N * 2 ^ (j - k) * 2 ^ k" using k assms(4) by (simp flip: power_add)
  finally have "round_half_even (m * N) k \<le> N * 2 ^ (j - k)" by (rule round_half_even_le)
  then have "round_half_even (m * N) k div 2 ^ (j - k) \<le> N * 2 ^ (j - k) div 2 ^ (j - k)" by (rule div_le_mono)
  then show "round_half_even (m * N) k div 2 ^ (j - k) \<le> N" by simp
qed

text \<open>The exponent and the fraction of a threshold of at most one.\<close>

lemma scale_parts:
  fixes expo frac :: nat and n :: "32 word"
  assumes parts: "unat threshold = expo * 2 ^ 52 + frac" and frac: "frac < 2 ^ 52"
    and expo: "expo \<le> 1023" and one: "expo = 1023 \<Longrightarrow> frac = 0"
  defines "m \<equiv> if expo = 0 then frac else frac + 2 ^ 52"
    and "j \<equiv> 1075 - max expo 1"
  defines "k \<equiv> bit_length (m * unat n) - 53"
  shows "round_half_even (m * unat n) k div 2 ^ (j - k) \<le> unat n"
    and "scale_tokens n threshold = of_nat (round_half_even (m * unat n) k div 2 ^ (j - k))"
proof -
  have "m \<le> 2 ^ j"
  proof -
    consider "expo = 1023" | "expo = 0" | "0 < expo" "expo \<le> 1022" using expo by linarith
    then show "m \<le> 2 ^ j"
    proof cases
      case 3
      then have "(2 :: nat) ^ 53 \<le> 2 ^ j" by (intro power_increasing) (auto simp: j_def)
      moreover have "m < 2 ^ 53" using frac by (simp add: m_def)
      ultimately show ?thesis by simp
    next
      case 2
      have "(2 :: nat) ^ 52 \<le> 2 ^ j" using 2 by (intro power_increasing) (auto simp: j_def)
      with 2 frac show ?thesis by (simp add: m_def)
    qed (use one in \<open>simp add: m_def j_def\<close>)
  qed
  moreover have "m < 2 ^ 53" using frac by (simp add: m_def)
  moreover have "unat n < 2 ^ 32" by (rule order_less_le_trans [OF unsigned_less]) simp
  moreover have j: "52 \<le> j" using expo by (simp add: j_def)
  ultimately have k: "k \<le> 32" and le: "round_half_even (m * unat n) k div 2 ^ (j - k) \<le> unat n"
    unfolding k_def by (rule scaled_le)+
  show "round_half_even (m * unat n) k div 2 ^ (j - k) \<le> unat n" by (rule le)
  have bits: "unat threshold mod 2 ^ 52 = frac" "unat threshold div 2 ^ 52 mod 2 ^ 11 = expo" "(expo = 2047) = False"
    "(2 ^ 63 \<le> unat threshold) = False" "(if expo = 0 then frac else frac + 2 ^ 52) = m" "bit_length (m * unat n) - 53 = k"
    using expo frac by (simp_all add: parts m_def k_def)
  have ints: "int (max expo 1) - 1075 = - int j" "(0 \<le> - int j + int k) = False" "nat (- (- int j + int k)) = j - k"
    using expo j k by (auto simp: j_def)
  have "(2 ^ 64 \<le> round_half_even (m * unat n) k div 2 ^ (j - k)) = False"
    using le \<open>unat n < 2 ^ 32\<close> by simp
  then show "scale_tokens n threshold = of_nat (round_half_even (m * unat n) k div 2 ^ (j - k))"
    by (simp only: scale_tokens_def Let_def bits ints if_False)
qed

lemma unat_of_nat_le: "v \<le> unat (n :: 32 word) \<Longrightarrow> unat (of_nat v :: 64 word) \<le> unat n"
proof -
  assume "v \<le> unat n"
  moreover have "unat n < 2 ^ 64" by (rule order_less_le_trans [OF unsigned_less]) simp
  ultimately show ?thesis by (simp add: unsigned_of_nat take_bit_nat_eq_self)
qed

lemma scale_tokens_le:
  assumes t: "unat threshold \<le> 1023 * 2 ^ 52"
  shows "unat (scale_tokens n threshold) \<le> unat n"
proof -
  let ?e = "unat threshold div 2 ^ 52" and ?f = "unat threshold mod 2 ^ 52"
  have e: "?e \<le> 1023" using div_le_mono [OF t, of "2 ^ 52"] by simp
  have p: "unat threshold = ?e * 2 ^ 52 + ?f" by (rule div_mult_mod_eq [symmetric])
  have f: "?f < 2 ^ 52" by simp
  have one: "?f = 0" if "?e = 1023"
  proof -
    have "1023 * 2 ^ 52 + ?f = unat threshold" using div_mult_mod_eq [of "unat threshold" "2 ^ 52"] by (simp only: that)
    with t show ?thesis by linarith
  qed
  have "\<exists>v \<le> unat n. scale_tokens n threshold = of_nat v"
    by (intro exI conjI) (rule scale_parts(1) [OF p f e one], assumption, rule scale_parts(2) [OF p f e one], assumption)
  then show ?thesis by (auto simp: unat_of_nat_le)
qed

lemma bit_length_eq: "2 ^ b \<le> p \<Longrightarrow> p < 2 ^ Suc b \<Longrightarrow> bit_length p = Suc b"
proof -
  assume low: "2 ^ b \<le> p" and high: "p < 2 ^ Suc b"
  from low have "(2 :: nat) ^ b < 2 ^ bit_length p" using bit_length_bounds [of p] by (meson le_less_trans)
  then have "b < bit_length p" by simp
  with bit_length_le [OF high] show ?thesis by simp
qed

lemma scale_default: "scale_tokens 128000 (ep_compress_threshold new_effective_compress) = 102400"
proof -
  have "bit_length (7205759403792794 * 128000) = Suc 69" by (rule bit_length_eq) simp_all
  moreover have "unat default_compress_threshold = 1022 * 2 ^ 52 + 2702159776422298"
    by (simp add: default_compress_threshold_def)
  ultimately show ?thesis
    using scale_parts(2) [of default_compress_threshold 1022 2702159776422298 128000]
    by (simp add: new_effective_compress_def round_half_even_def Let_def)
qed

section \<open>Taking messages back\<close>

lemma revert_loop_takes:
  "revert_loop (\<lambda>_ m. (P m, ())) ms x backup results c = (Inr (b, out), c') \<Longrightarrow>
   out = rev (takeWhile (\<lambda>m. \<not> P m) ms) @ results"
proof (induction ms arbitrary: x backup results c)
  case (Cons m ms)
  show ?case
  proof (cases "P m")
    case False
    with Cons.prems obtain c2 where "revert_loop (\<lambda>_ m. (P m, ())) ms () True (m # results) c2 = (Inr (b, out), c')"
      by (auto simp: run_simps)
    from Cons.IH [OF this] False show ?thesis by simp
  qed (use Cons.prems in simp)
qed simp

section \<open>What becomes of tool calls\<close>

text \<open>One call with its key, the times it was handed to the memory, and how it ended.\<close>

record tool_trace =
  tt_call :: tool_call
  tt_key :: string
  tt_called :: string
  tt_after :: tool_call
  tt_error :: "agent_error option"
  tt_answered :: string

definition trace_pushed :: "memory_key \<Rightarrow> tool_trace \<Rightarrow> pushed list" where
  "trace_pushed mk t =
     Push_Tool_Call (build_memory_tool_call (tt_called t) mk (tt_key t) (tt_call t)) #
     (if tt_error t = None then [Push_Tool_Result (build_memory_tool_result (tt_answered t) mk (tt_key t) (tt_after t))] else [])"

definition trace_references :: "tool_trace \<Rightarrow> content list" where
  "trace_references t = Content_ToolCall (tt_key t) # (if tt_error t = None then [Content_ToolResult (tt_key t)] else [])"

definition trace_ok :: "tool_trace \<Rightarrow> bool" where
  "trace_ok t \<longleftrightarrow> tl_id (tt_after t) = tl_id (tt_call t) \<and>
     (tl_result (tt_call t) = None \<longrightarrow> (tl_result (tt_after t) = None \<longleftrightarrow> tt_error t \<noteq> None))"

definition errors_of :: "tool_trace list \<Rightarrow> agent_error list" where
  "errors_of ts = List.map_filter tt_error ts"

text \<open>What the pipeline \<open>p\<close> and the memory have after a call, from what they had before.\<close>

definition traced :: "memory_key \<Rightarrow> nat \<Rightarrow> 'w agent_state \<Rightarrow> tool_trace list \<Rightarrow> 'w agent_state \<Rightarrow> bool" where
  "traced mk p s ts s' \<longleftrightarrow>
     (\<forall>t \<in> set ts. trace_ok t) \<and>
     ag_pushed s' = ag_pushed s @ concat (map (trace_pushed mk) ts) \<and>
     length (ag_pipelines s') = length (ag_pipelines s) \<and>
     pl_session_key (ag_pipelines s' ! p) = pl_session_key (ag_pipelines s ! p) \<and>
     pl_pending_contents (ag_pipelines s' ! p) =
       pl_pending_contents (ag_pipelines s ! p) @ concat (map trace_references ts)"

lemma run_tool_result:
  assumes "run_tool c s = (r, s')"
  shows "\<exists>w c' e. r = Inr (c', e) \<and> s' = s\<lparr>sn_net := w\<rparr> \<and> tl_id c' = tl_id c \<and>
    (tl_result c = None \<longrightarrow> (tl_result c' = None \<longleftrightarrow> e \<noteq> None))"
  using assms call_tool_local_state [of "tl_name c" "tl_arguments c" s]
  by (auto simp: run_tool_def Let_def split: prod.splits sum.splits)

lemma memory_call_tool_traced:
  assumes p: "p < length (ag_pipelines s)" and key: "pl_session_key (ag_pipelines s ! p) = Memory_Session mk"
    and run: "memory_call_tool env p c s = (r, s')"
  shows "\<exists>t. tt_call t = c \<and> r = Inr (tt_after t, tt_error t) \<and> traced mk p s [t] s'"
proof -
  obtain k w1 where u: "nv_uuid env (sn_net s) = (k, w1)" by force
  obtain called w2 where n: "nv_now env w1 = (called, w2)" by force
  let ?s2 = "s\<lparr>sn_net := w2, ag_pushed := ag_pushed s @ [Push_Tool_Call (build_memory_tool_call called mk k c)]\<rparr>"
  obtain q s3 where t: "run_tool c ?s2 = (q, s3)" by force
  from run_tool_result [OF t] obtain w c' e where q: "q = Inr (c', e)" and s3: "s3 = ?s2\<lparr>sn_net := w\<rparr>"
    and c': "tl_id c' = tl_id c" "tl_result c = None \<longrightarrow> (tl_result c' = None \<longleftrightarrow> e \<noteq> None)"
    by (elim exE conjE) (rule that)
  obtain answered w4 where n': "nv_now env w = (answered, w4)" by force
  let ?t = "\<lparr>tt_call = c, tt_key = k, tt_called = called, tt_after = c', tt_error = e, tt_answered = answered\<rparr>"
  have "r = Inr (c', e) \<and> traced mk p s [?t] s'"
    using run key u n t q s3 c' n' p
    by (auto simp: memory_call_tool_def call_tool_with_memory_def bind_act_def read_st_def asking_def push_def
        modify_st_def ret_def change_pipeline_def traced_def trace_ok_def trace_pushed_def trace_references_def
        split: if_splits)
  then show ?thesis by (intro exI [of _ ?t]) simp
qed

lemma traced_append:
  assumes "traced mk p s ts s1" and "traced mk p s1 us s2"
  shows "traced mk p s (ts @ us) s2"
  using assms by (auto simp: traced_def)

lemma call_tools_traced:
  assumes "p < length (ag_pipelines s)" and "pl_session_key (ag_pipelines s ! p) = Memory_Session mk"
    and "call_tools_dyn (memory_call_tool env p) cs s = (r, s')"
  shows "\<exists>ts. map tt_call ts = cs \<and> r = Inr (map tt_after ts, errors_of ts) \<and> traced mk p s ts s'"
  using assms
proof (induction cs arbitrary: s r s')
  case Nil
  then show ?case by (auto simp: ret_def traced_def errors_of_def List.map_filter_def)
next
  case (Cons c cs)
  obtain q s1 where one: "memory_call_tool env p c s = (q, s1)" by force
  from memory_call_tool_traced [OF Cons.prems(1,2) one] obtain t where t: "tt_call t = c"
    "q = Inr (tt_after t, tt_error t)" "traced mk p s [t] s1" by blast
  then have s1: "p < length (ag_pipelines s1)" "pl_session_key (ag_pipelines s1 ! p) = Memory_Session mk"
    using Cons.prems by (simp_all add: traced_def)
  obtain q' s2 where rest: "call_tools_dyn (memory_call_tool env p) cs s1 = (q', s2)" by force
  from Cons.IH [OF s1 rest] obtain ts where ts: "map tt_call ts = cs" "q' = Inr (map tt_after ts, errors_of ts)"
    "traced mk p s1 ts s2" by blast
  have "r = Inr (map tt_after (t # ts), errors_of (t # ts)) \<and> s' = s2"
    using Cons.prems(3) one t rest ts
    by (auto simp: bind_act_def ret_def errors_of_def List.map_filter_simps split: option.splits)
  moreover have "traced mk p s (t # ts) s2" using traced_append [OF t(3) ts(3)] by simp
  ultimately show ?case using t(1) ts(1) by (intro exI [of _ "t # ts"]) simp
qed

section \<open>What is read back from the memory\<close>

definition entry_of_record :: "nat \<times> channel_record \<Rightarrow> (string \<times> nat) \<times> message_content" where
  "entry_of_record x = (case x of (_, r) \<Rightarrow>
     ((cr_time r, cr_sn r), extract_content (cr_user_name r) (cr_content r) (cr_is_self r)))"

definition entries_of :: "channel_groups \<Rightarrow> ((string \<times> nat) \<times> message_content) list" where
  "entries_of groups = map entry_of_record (concat (map snd groups))"

lemma parse_records_map:
  "bm_ok m \<Longrightarrow> bm_ok (parse_records rs m) \<and>
   map_of (parse_records rs m) = map_of (map entry_of_record rs) ++ map_of m"
proof (induction rs m rule: parse_records.induct)
  case (2 x r rs m)
  show ?case
  proof (cases "bm_get m (cr_time r, cr_sn r)")
    case None
    let ?e = "extract_content (cr_user_name r) (cr_content r) (cr_is_self r)"
    have "bm_ok (bm_insert (cr_time r, cr_sn r) ?e m)" using 2(3) by (rule bm_ok_insert)
    from 2(2) [OF _ this] None have rest: "bm_ok (parse_records rs (bm_insert (cr_time r, cr_sn r) ?e m)) \<and>
        map_of (parse_records rs (bm_insert (cr_time r, cr_sn r) ?e m)) =
        map_of (map entry_of_record rs) ++ bm_get (bm_insert (cr_time r, cr_sn r) ?e m)" by blast
    have "(cr_time r, cr_sn r) \<notin> dom (map_of m)" using None by auto
    then have "map_of (map entry_of_record rs) ++ bm_get (bm_insert (cr_time r, cr_sn r) ?e m) =
        map_of (map entry_of_record ((x, r) # rs)) ++ map_of m"
      unfolding bm_get_insert by (simp only: map_add_upd map_add_upd_left entry_of_record_def list.map map_of.simps prod.case fst_conv snd_conv)
        (rule map_add_upd_left [symmetric])
    with rest None show ?thesis by (simp add: fun_upd_def)
  next
    case (Some y)
    with 2(1,3) show ?thesis
      by (auto simp: entry_of_record_def fun_eq_iff map_add_def split: option.splits)
  qed
qed simp

lemma parse_groups_map:
  "bm_ok m \<Longrightarrow> bm_ok (parse_channel_groups groups m) \<and>
   map_of (parse_channel_groups groups m) = map_of (entries_of groups) ++ map_of m"
proof (induction groups arbitrary: m)
  case (Cons g groups)
  let ?m = "parse_records (snd g) m"
  have "bm_ok ?m" "map_of ?m = map_of (map entry_of_record (snd g)) ++ map_of m"
    using parse_records_map [OF Cons.prems] by simp_all
  moreover have "parse_channel_groups (g # groups) m = parse_channel_groups groups ?m"
    by (simp add: parse_channel_groups_def case_prod_beta)
  ultimately show ?case using Cons.IH [of ?m] by (simp add: entries_of_def)
qed (simp add: parse_channel_groups_def entries_of_def)

text \<open>Entries by time and number, of each the first one.\<close>

definition in_sequence :: "(('k :: linorder) \<times> 'v) list \<Rightarrow> 'v list" where
  "in_sequence es = map (\<lambda>k. the (map_of es k)) (sorted_list_of_set (fst ` set es))"

lemma in_sequence_eq:
  assumes ok: "bm_ok m" and eq: "map_of m = map_of es"
  shows "fst ` set m = fst ` set es" and "map fst m = sorted_list_of_set (fst ` set es)" and "map snd m = in_sequence es"
proof -
  show keys: "fst ` set m = fst ` set es" by (metis dom_map_of_conv_image_fst eq)
  have "sorted_list_of_set (set (map fst m)) = map fst m"
    using ok by (metis sorted_list_of_set.idem_if_sorted_distinct strict_sorted_iff)
  then show fsts: "map fst m = sorted_list_of_set (fst ` set es)" by (simp add: keys)
  have "the (map_of es k) = v" if "(k, v) \<in> set m" for k v
    using that distinct_bm [OF ok] by (simp flip: eq)
  then have "map snd m = map (\<lambda>k. the (map_of es k)) (map fst m)" by (auto simp: map_eq_conv)
  then show "map snd m = in_sequence es" by (simp add: in_sequence_def fsts)
qed

lemma bm_first_key: "bm_ok ((k, v) # m) \<Longrightarrow> Min (insert k (fst ` set m)) = k"
  by (rule Min_insert2) (auto simp: less_imp_le)

end
