(* ===== verification/Station_Net.thy ===== *)
theory Station_Net
  imports Station
begin

text \<open>
  Stations that are connected in any way, cycles included: what a query comes to when every
  station answers the queries of the others (\<open>McpHandler for Station\<close> in
  \<open>kissbot-agent/src/station.rs\<close>), that it ends, and what it does to the routes of the stations
  on its way.
\<close>

section \<open>The network\<close>

text \<open>A station with the tools of its own and its configuration, found under its endpoint.\<close>

record station_node =
  sd_id :: string
  sd_tools :: "mcp_tool list"
  sd_subs :: "sub_station_config list"

type_synonym station_net = "(string \<times> station_node) list"

definition endpoint_of :: "sub_station_config \<Rightarrow> string" where
  "endpoint_of scfg = trim_end_slashes (sc_base_url scfg) @ ''/mcp''"

definition net_ids :: "station_net \<Rightarrow> string set" where
  "net_ids net = sd_id ` snd ` set net"

definition own_names :: "station_node \<Rightarrow> string set" where
  "own_names n = mt_name ` set (sd_tools n)"

lemma net_id: "map_of (net :: station_net) ep = Some n \<Longrightarrow> sd_id n \<in> net_ids net"
  unfolding net_ids_def by (force dest: map_of_SomeD)

text \<open>The answer to \<open>tools/list\<close>, with the ancestors that come with the query.\<close>

function net_list :: "station_net \<Rightarrow> string \<Rightarrow> string list \<Rightarrow> mcp_client_error + mcp_tool list" where
  "net_list net ep anc =
     (case map_of net ep of
        None \<Rightarrow> Inl (MC_Transport ep)
      | Some n \<Rightarrow>
          if sd_id n \<in> set anc then Inl (MC_Remote (cycle_error (sd_id n)))
          else Inr (sort_key mt_name (fst (fold
            (\<lambda>scfg acc. case net_list net (endpoint_of scfg) (anc @ [sd_id n]) of
               Inr ts \<Rightarrow> merge_sub (own_names n) scfg ts acc
             | Inl e \<Rightarrow> acc) (sd_subs n) (sd_tools n, [])))))"
  by pat_completeness auto

termination
proof (relation "measure (\<lambda>(net, ep, anc). card (net_ids net - set anc))")
  fix net :: station_net and ep anc n and scfg :: sub_station_config
  assume found: "map_of net ep = Some n" and new: "sd_id n \<notin> set anc"
  have "finite (net_ids net - set anc)" by (simp add: net_ids_def)
  moreover have "net_ids net - set (anc @ [sd_id n]) \<subset> net_ids net - set anc"
    using net_id [OF found] new by auto
  ultimately have "card (net_ids net - set (anc @ [sd_id n])) < card (net_ids net - set anc)"
    by (rule psubset_card_mono)
  then show "((net, endpoint_of scfg, anc @ [sd_id n]), net, ep, anc) \<in> measure (\<lambda>(net, ep, anc). card (net_ids net - set anc))"
    by simp
qed simp

declare net_list.simps [simp del]

text \<open>The queries that one query leads to, with their ancestors.\<close>

inductive queried :: "station_net \<Rightarrow> string \<Rightarrow> string \<Rightarrow> string list \<Rightarrow> bool" for net start where
  first: "queried net start start []"
| nested: "queried net start ep anc \<Longrightarrow> map_of net ep = Some n \<Longrightarrow> sd_id n \<notin> set anc \<Longrightarrow>
    scfg \<in> set (sd_subs n) \<Longrightarrow> queried net start (endpoint_of scfg) (anc @ [sd_id n])"

lemma queried_ids: "queried net start ep anc \<Longrightarrow> distinct anc \<and> set anc \<subseteq> net_ids net"
  by (induction rule: queried.induct) (auto dest: net_id)

lemma queried_bounded: "queried net start ep anc \<Longrightarrow> length anc \<le> card (net_ids net)"
proof -
  assume "queried net start ep anc"
  then have "distinct anc" "set anc \<subseteq> net_ids net" by (simp_all add: queried_ids)
  moreover have "finite (net_ids net)" by (simp add: net_ids_def)
  ultimately show ?thesis by (metis card_mono distinct_card)
qed

section \<open>A station in the network\<close>

text \<open>The state of a station whose neighbours are those of the network.\<close>

definition net_client :: "station_net \<Rightarrow> sub_station_config \<Rightarrow> 'w sub_station \<Rightarrow> bool" where
  "net_client net scfg sub \<longleftrightarrow>
     ss_config sub = scfg \<and> (\<forall>anc w. mc_list_tools (ss_client sub) anc w = (net_list net (endpoint_of scfg) anc, w))"

definition in_net :: "station_net \<Rightarrow> station_node \<Rightarrow> ('w, 'z) station_state_scheme \<Rightarrow> bool" where
  "in_net net n s \<longleftrightarrow>
     sn_station_id s = sd_id n \<and> map (nt_config \<circ> snd) (sn_tools s) = sd_tools n \<and>
     fst ` set (sn_tools s) = own_names n \<and>
     list_all2 (net_client net) (sd_subs n) (map snd (sn_sub_stations s))"

lemma list_subs_net:
  assumes "list_all2 (net_client net) cfgs subs"
  shows "list_subs own anc subs acc s =
    (Inr (fold (\<lambda>scfg acc. case net_list net (endpoint_of scfg) anc of
       Inr ts \<Rightarrow> merge_sub own scfg ts acc | Inl e \<Rightarrow> acc) cfgs acc), s)"
  using assms
proof (induction cfgs subs arbitrary: acc rule: list_all2_induct)
  case Nil
  show ?case by (simp add: ret_def)
next
  case (Cons scfg cfgs sub subs)
  then have "on_net (mc_list_tools (ss_client sub) anc) s = (net_list net (endpoint_of scfg) anc, s)"
    and "ss_config sub = scfg" by (simp_all add: net_client_def on_net_def)
  with Cons.IH show ?case by (cases "net_list net (endpoint_of scfg) anc") simp_all
qed

lemma list_tools_net:
  assumes "in_net net n s" and "map_of net ep = Some n"
  shows "net_list net ep anc = (case fst (list_tools anc s) of Inl e \<Rightarrow> Inl (MC_Remote e) | Inr ts \<Rightarrow> Inr ts)"
  using assms
  by (auto simp: net_list.simps [of net ep] in_net_def list_tools_def bind_act_def read_st_def fail_def ret_def
      modify_st_def list_subs_net split: prod.splits)

section \<open>Routes\<close>

text \<open>A query stores the routes it found in place of the old ones, whoever asked.\<close>

lemma list_subs_refused:
  assumes "\<And>sub w. sub \<in> set subs \<Longrightarrow> \<exists>e. fst (mc_list_tools (ss_client sub) anc w) = Inl e"
  shows "\<exists>w. list_subs own anc subs acc s = (Inr acc, s\<lparr>sn_net := w\<rparr>)"
  using assms
proof (induction subs arbitrary: s)
  case Nil
  have "\<exists>w. s = s\<lparr>sn_net := w\<rparr>" by (rule exI [of _ "sn_net s"]) simp
  then show ?case by (simp add: ret_def)
next
  case (Cons sub subs)
  obtain e w where "mc_list_tools (ss_client sub) anc (sn_net s) = (Inl e, w)"
    using Cons.prems [of sub "sn_net s"] by (metis fst_conv list.set_intros(1) prod.exhaust)
  then have "list_subs own anc (sub # subs) acc s = list_subs own anc subs acc (s\<lparr>sn_net := w\<rparr>)"
    by (simp add: on_net_def)
  moreover obtain w' where "list_subs own anc subs acc (s\<lparr>sn_net := w\<rparr>) = (Inr acc, s\<lparr>sn_net := w\<rparr>\<lparr>sn_net := w'\<rparr>)"
    using Cons.IH [of "s\<lparr>sn_net := w\<rparr>"] Cons.prems by auto
  ultimately show ?case by auto
qed

lemma list_tools_refused:
  assumes "sn_station_id s \<notin> set anc"
    and "\<And>sub w. sub \<in> snd ` set (sn_sub_stations s) \<Longrightarrow>
      \<exists>e. fst (mc_list_tools (ss_client sub) (anc @ [sn_station_id s]) w) = Inl e"
    and "list_tools anc s = (r, s')"
  shows "\<exists>w. s' = s\<lparr>sn_net := w, sn_tool_routes := []\<rparr>"
proof -
  have "\<exists>w. list_subs own (anc @ [sn_station_id s]) (map snd (sn_sub_stations s)) acc s = (Inr acc, s\<lparr>sn_net := w\<rparr>)"
    for own acc using assms(2) by (intro list_subs_refused) simp
  then obtain w where "list_subs (fst ` set (sn_tools s)) (anc @ [sn_station_id s]) (map snd (sn_sub_stations s))
      (map (nt_config \<circ> snd) (sn_tools s), []) s = (Inr (map (nt_config \<circ> snd) (sn_tools s), []), s\<lparr>sn_net := w\<rparr>)"
    by blast
  with assms(1,3) show ?thesis
    by (auto simp: list_tools_def bind_act_def read_st_def modify_st_def ret_def)
qed

end
