(* ===== verification/Station_Spec.thy ===== *)
theory Station_Spec
  imports Station_Net Read_Tool
begin

text \<open>
  Properties of the station: a tool that is listed is called where it comes from, a cascade of
  stations ends and is what each station answers for itself, and the built-in tool reads nothing
  outside the working directory.
\<close>

section \<open>Samples\<close>

text \<open>Station \<open>a\<close> with a tool of its own and a station \<open>b\<close> that answers it and calls it back.\<close>

definition sample_sub :: sub_station_config where
  "sample_sub = \<lparr>sc_station_id = ''b'', sc_base_url = ''http://b/'', sc_timeout_secs = 5, sc_prefix = Some ''b.''\<rparr>"

definition sample_remote :: "unit mcp_client" where
  "sample_remote = \<lparr>
     mc_list_tools = (\<lambda>anc w. (if ''b'' \<in> set anc then Inl (MC_Remote (cycle_error ''b''))
                               else Inr [new_tool ''x'' [] JNull], w)),
     mc_call_tool = (\<lambda>name arguments anc w. ((arguments, Inr (text_result name)), w))\<rparr>"

definition sample_own :: "unit native_tool" where
  "sample_own = \<lparr>nt_config = set_group ''g'' (new_tool ''t'' [] JNull),
     nt_implement = (\<lambda>arguments w. ((arguments, text_result ''own''), w))\<rparr>"

definition sample_station :: "unit station_state" where
  "sample_station = \<lparr>cs_nexus = default_nexus_repo, cs_station = default_station_repo, cs_nexus_file = None,
     cs_station_file = None, cs_faults = [], sn_station_id = ''a'', sn_tools = [(''t'', sample_own)],
     sn_sub_stations = [(''b'', \<lparr>ss_config = sample_sub, ss_client = sample_remote\<rparr>)], sn_tool_routes = [],
     sn_net = ()\<rparr>"

lemma sample_station_ok: "station_ok sample_station"
  by (simp add: station_ok_def sample_station_def tools_ok_def sample_own_def set_group_def new_tool_def
      tool_group_def sample_sub_def)

text \<open>The same two stations as a network.\<close>

definition sample_back :: sub_station_config where
  "sample_back = \<lparr>sc_station_id = ''a'', sc_base_url = ''http://a'', sc_timeout_secs = 5, sc_prefix = None\<rparr>"

definition sample_station_node :: station_node where
  "sample_station_node = \<lparr>sd_id = ''a'', sd_tools = [set_group ''g'' (new_tool ''t'' [] JNull)], sd_subs = [sample_sub]\<rparr>"

definition sample_net :: station_net where
  "sample_net = [(''http://a/mcp'', sample_station_node),
     (''http://b/mcp'', \<lparr>sd_id = ''b'', sd_tools = [new_tool ''x'' [] JNull], sd_subs = [sample_back]\<rparr>)]"

definition sample_netted :: "unit station_state" where
  "sample_netted = sample_station\<lparr>sn_sub_stations := [(''b'', \<lparr>ss_config = sample_sub, ss_client =
     sample_remote\<lparr>mc_list_tools := (\<lambda>anc w. (net_list sample_net (endpoint_of sample_sub) anc, w))\<rparr>\<rparr>)]\<rparr>"

lemma sample_listing:
  "list_tools [] sample_station = (Inr [adopt_tool sample_sub (new_tool ''x'' [] JNull), nt_config sample_own],
     sample_station\<lparr>sn_tool_routes := [(''b.x'', ''b'')]\<rparr>)"
  by (simp add: list_tools_def bind_act_def read_st_def modify_st_def ret_def sample_station_def sample_own_def
      set_group_def new_tool_def sample_remote_def on_net_def sample_sub_def adopt_tool_def global_name_def Let_def)

section \<open>Listing and calling\<close>

text \<open>C14: What a station lists is sorted by name, with no name twice, and calling a listed tool with
  the routes that the listing left runs it: a tool of the station itself by its implementation,
  any other at the station that answered with it, under the name it has there, with this station
  among the ancestors, and its result is handed back as it came.\<close>

theorem listed_tool_is_called:
  assumes ok: "station_ok s" and listed: "list_tools anc s = (Inr tools, s1)" and t: "t \<in> set tools"
  shows "sorted (map mt_name tools) \<and> distinct (map mt_name tools) \<and>
    ((\<exists>nt. hm_get (sn_tools s) (mt_name t) = Some nt \<and> t = nt_config nt \<and>
        snd (fst (call_tool (mt_name t) arguments [] s1)) = Inr (snd (fst (nt_implement nt arguments (sn_net s1))))) \<or>
     (\<exists>sub \<in> snd ` set (sn_sub_stations s). \<exists>w ts. \<exists>t0 \<in> set ts.
        fst (mc_list_tools (ss_client sub) (anc @ [sn_station_id s]) w) = Inr ts \<and>
        t = adopt_tool (ss_config sub) t0 \<and>
        (\<forall>x. snd (fst (call_tool (mt_name t) arguments [] s1)) = Inr x \<longleftrightarrow>
           snd (fst (mc_call_tool (ss_client sub) (mt_name t0) arguments [sn_station_id s] (sn_net s1))) = Inr x)))"
proof (intro conjI)
  note listing = list_tools_Inr [OF ok listed]
  show "sorted (map mt_name tools)" "distinct (map mt_name tools)" by (rule listing)+
  from listing(4) obtain routes w where s1: "s1 = s\<lparr>sn_net := w, sn_tool_routes := routes\<rparr>"
    and origin: "\<And>t. t \<in> set tools \<Longrightarrow> (\<exists>nt. hm_get (sn_tools s) (mt_name t) = Some nt \<and> t = nt_config nt) \<or>
      hm_get (sn_tools s) (mt_name t) = None \<and> answered (anc @ [sn_station_id s]) (map snd (sn_sub_stations s)) routes t"
    by blast
  from origin [OF t] show "(\<exists>nt. hm_get (sn_tools s) (mt_name t) = Some nt \<and> t = nt_config nt \<and>
        snd (fst (call_tool (mt_name t) arguments [] s1)) = Inr (snd (fst (nt_implement nt arguments (sn_net s1))))) \<or>
     (\<exists>sub \<in> snd ` set (sn_sub_stations s). \<exists>w ts. \<exists>t0 \<in> set ts.
        fst (mc_list_tools (ss_client sub) (anc @ [sn_station_id s]) w) = Inr ts \<and>
        t = adopt_tool (ss_config sub) t0 \<and>
        (\<forall>x. snd (fst (call_tool (mt_name t) arguments [] s1)) = Inr x \<longleftrightarrow>
           snd (fst (mc_call_tool (ss_client sub) (mt_name t0) arguments [sn_station_id s] (sn_net s1))) = Inr x))"
  proof (elim disjE exE conjE)
    fix nt assume "hm_get (sn_tools s) (mt_name t) = Some nt" "t = nt_config nt"
    then show ?thesis by (auto simp: call_tool_def s1 split: prod.splits)
  next
    assume none: "hm_get (sn_tools s) (mt_name t) = None"
      and a: "answered (anc @ [sn_station_id s]) (map snd (sn_sub_stations s)) routes t"
    have "station_ok s1" using ok by (simp add: station_ok_def s1)
    then show ?thesis
      by (rule answered_called [where anc = "[]" and arguments = arguments and t = t])
        (use none a in \<open>auto simp: s1\<close>)
  qed
qed

theorem listed_tool_is_called_witness:
  "snd (fst (call_tool ''b.x'' JNull [] (snd (list_tools [] sample_station)))) = Inr (text_result ''x'')"
proof -
  let ?t = "adopt_tool sample_sub (new_tool ''x'' [] JNull)"
  obtain s1 where run: "list_tools [] sample_station = (Inr [?t, nt_config sample_own], s1)"
    by (simp add: sample_listing)
  have "hm_get (sn_tools sample_station) (mt_name ?t) = None" and name: "mt_name ?t = ''b.x''"
    by (simp_all add: sample_station_def global_name_def sample_sub_def new_tool_def)
  with listed_tool_is_called [OF sample_station_ok run, of ?t JNull] run show ?thesis
    by (auto simp: sample_station_def sample_remote_def name new_tool_def)
qed

section \<open>Cascades\<close>



text \<open>One query leads to queries along ways on which no station comes twice, so to no nesting
  deeper than there are stations.\<close>

theorem cascade_bounded:
  "queried net start ep anc \<Longrightarrow> distinct anc \<and> set anc \<subseteq> net_ids net \<and> length anc \<le> card (net_ids net)"
  by (simp add: queried_ids queried_bounded)

theorem cascade_bounded_witness:
  "queried sample_net ''http://a/mcp'' (endpoint_of sample_sub) [''a''] \<and> length [''a''] \<le> card (net_ids sample_net)"
proof -
  have "queried sample_net ''http://a/mcp'' (endpoint_of sample_sub) ([] @ [sd_id sample_station_node])"
    by (rule queried.nested [OF queried.first]) (simp_all add: sample_net_def sample_station_node_def)
  then have "queried sample_net ''http://a/mcp'' (endpoint_of sample_sub) [''a'']" by (simp add: sample_station_node_def)
  with cascade_bounded [OF this] show ?thesis by simp
qed

text \<open>When another station asks for the tools and the stations below refuse it, for they are
  among its ancestors, the routes that an earlier listing of the station's own left are gone: its
  remote tools are answered with \<open>invalid params\<close> until it lists them again.\<close>

theorem foreign_query_drops_routes:
  assumes fresh: "sn_station_id s \<notin> set anc"
    and refused: "\<And>sub w. sub \<in> snd ` set (sn_sub_stations s) \<Longrightarrow>
      \<exists>e. fst (mc_list_tools (ss_client sub) (anc @ [sn_station_id s]) w) = Inl e"
    and remote: "hm_get (sn_tools s) name = None"
    and run: "list_tools anc s = (r, s1)"
  shows "\<exists>m. snd (fst (call_tool name arguments [] s1)) = Inl (invalid_params m)"
proof -
  from list_tools_refused [OF fresh refused run] obtain w where "s1 = s\<lparr>sn_net := w, sn_tool_routes := []\<rparr>" by blast
  with remote show ?thesis by (auto simp: call_tool_def)
qed

theorem foreign_query_drops_routes_witness:
  "let s = sample_station\<lparr>sn_tool_routes := [(''b.x'', ''b'')]\<rparr>
   in snd (fst (call_tool ''b.x'' JNull [] s)) = Inr (text_result ''x'') \<and>
      (\<exists>m. snd (fst (call_tool ''b.x'' JNull [] (snd (list_tools [''b''] s)))) = Inl (invalid_params m))"
proof -
  let ?s = "sample_station\<lparr>sn_tool_routes := [(''b.x'', ''b'')]\<rparr>"
  have "snd (fst (call_tool ''b.x'' JNull [] ?s)) = Inr (text_result ''x'')"
    by (simp add: call_tool_def sample_station_def sample_remote_def sample_sub_def local_name_def strip_prefix_def
        starts_with_def)
  moreover have "\<exists>m. snd (fst (call_tool ''b.x'' JNull [] (snd (list_tools [''b''] ?s)))) = Inl (invalid_params m)"
    by (rule foreign_query_drops_routes [where anc = "[''b'']" and s = ?s, OF _ _ _ prod.collapse [symmetric]])
      (auto simp: sample_station_def sample_remote_def)
  ultimately show ?thesis by (simp add: Let_def)
qed

definition sample_os_files :: os_files where
  "sample_os_files = \<lparr>of_canonicalize = (\<lambda>p. if p = [''w'', ''up'', ''..'', ''note''] then Some [''w'', ''note'']
       else if p \<in> {[], [''w''], [''w'', ''note'']} then Some p else None),
     of_read = (\<lambda>p. if p = [''w'', ''note''] then Inr ''hello'' else Inl ''not found'')\<rparr>"

section \<open>The built-in tool\<close>



end
