(* ===== verification/Agent_Samples.thy ===== *)
theory Agent_Samples
  imports Agent_Run Station_Spec Agent_Spec
begin

text \<open>
  A concrete agent, for the witnesses of its properties: its state after it was started with one
  channel and one provider, and after a command of its administrator.
\<close>

section \<open>An agent\<close>

text \<open>
  An agent with one channel and one administrator, on a network where the store of the memory has
  two records of different times and nothing else answers.
\<close>

definition sample_spoken_at :: "string \<Rightarrow> string \<Rightarrow> nat \<times> channel_record" where
  "sample_spoken_at time t = (0, \<lparr>cr_msg_id = time, cr_user_id = ''u'', cr_self_user_id = ''a'', cr_messenger_id = ''m'',
     cr_group_id = ''g'', cr_is_self = 0, cr_messenger_name = ''M'', cr_user_name = ''U'', cr_group_name = ''G'',
     cr_content = Content_Text t, cr_time = time, cr_sn = 1\<rparr>)"

definition sample_env :: "unit agent_env" where
  "sample_env =
     \<lparr>nv_http = \<lparr>hn_post = (\<lambda>_ _ _ _ w. (No_Answer ''down'', w)), hn_get = (\<lambda>_ _ _ w. (No_Answer ''down'', w))\<rparr>,
      nv_float = (\<lambda>_. JNull),
      nv_query_last = (\<lambda>_ w. (Inr (api_success [(''g'', [sample_spoken_at ''2'' ''second''])]), w)),
      nv_query_recent = (\<lambda>_ w. (Inr (api_success [(''g'', [sample_spoken_at ''1'' ''first'', sample_spoken_at ''2'' ''again''])]), w)),
      nv_send_message = (\<lambda>_ _ w. (Inl ''down'', w)),
      nv_ego = \<lparr>eg_base_url = [], eg_agent_get = (\<lambda>_ w. (Not_Sent ''down'', w)),
        eg_individual_get_all = (\<lambda>_ w. (Not_Sent ''down'', w)), eg_role_get = (\<lambda>_ w. (Not_Sent ''down'', w))\<rparr>,
      nv_window_start = (\<lambda>_ w. (Some ''0'', w)), nv_now = (\<lambda>w. (''t'', w)), nv_uuid = (\<lambda>w. (''k'', w)),
      nv_instant = (\<lambda>w. (5, w))\<rparr>"

definition sample_session_files :: chat_files where
  "sample_session_files = \<lparr>cf_cache = (\<lambda>_. None), cf_history = (\<lambda>_. None), cf_faults = [], cf_clock = (\<lambda>_. ''t''), cf_ticks = 0\<rparr>"

definition sample_user :: channel_user where
  "sample_user = ChannelUser ''m'' ''u''"

definition sample_admin_channel :: channel_config where
  "sample_admin_channel = sample_channel_config\<lparr>cg_admins := {sample_user}, cg_bind_users := {sample_user}\<rparr>"

definition sample_provider :: provider_config where
  "sample_provider = \<lparr>pc_provider_type = ''openai'', pc_base_url = ''http://p'', pc_api_key = ''key''\<rparr>"

definition sample_models :: provider_model_config where
  "sample_models = \<lparr>pm_provider_config = sample_provider, pm_default_model_config =
     \<lparr>mc_max_tokens_usage = 0, mc_timeout_secs = None, mc_retry_count = None\<rparr>, pm_model_configs = []\<rparr>"

definition sample_new_agent :: "unit agent_state" where
  "sample_new_agent = nexus_new (\<lambda>_. None) (\<lambda>_ _ _. sample_remote) [] ''d'' sample_session_files () (fresh_config [])"

definition sample_agent :: "unit agent_state" where
  "sample_agent = snd (nexus_run sample_env (snd (add_channel sample_admin_channel (snd (add_provider ''p'' sample_models sample_new_agent)))))"

definition sample_event :: "string \<Rightarrow> incoming_message_event" where
  "sample_event t = \<lparr>ie_recipient_user_id = ''a'', ie_incoming_message = \<lparr>im_msg_id = ''id'', im_messenger_id = ''m'',
     im_user_id = ''u'', im_group_id = ''g'', im_messenger_name = ''M'', im_user_name = ''U'', im_group_name = ''G'',
     im_content = Content_Text t, im_time = ''3''\<rparr>\<rparr>"

lemma sample_agent_reachable: "agent_reachable sample_env sample_agent"
  unfolding sample_agent_def sample_new_agent_def
  by (intro agent_reachable.step [OF _ agent_step.start [OF prod.collapse [symmetric]]]
      agent_reachable.step [OF _ agent_step.add_channel [OF prod.collapse [symmetric]]]
      agent_reachable.step [OF _ agent_step.add_provider [OF prod.collapse [symmetric]]]
      agent_reachable.new config_reachable.start)

section \<open>A command of the administrator\<close>

text \<open>
  The models of the provider are asked for, which makes an instance of it; then the command fails.
\<close>

lemma sample_agent_eq: "sample_agent = sample_new_agent
  \<lparr>cs_nexus := default_nexus_repo\<lparr>nr_providers := [(''p'', sample_models)], nr_channels := [(''ch'', sample_admin_channel)]\<rparr>,
   cs_nexus_file := Some (Json_File (default_nexus_repo\<lparr>nr_providers := [(''p'', sample_models)], nr_channels := [(''ch'', sample_admin_channel)]\<rparr>)),
   ag_channels := [(''ch'', new_channel\<lparr>cn_client := True\<rparr>)]\<rparr>"
  by (simp add: sample_agent_def sample_new_agent_def nexus_new_def from_repo_def fresh_config_def add_provider_def add_channel_def
    write_nexus_config_def store_nexus_def bind_act_def modify_st_def read_st_def ret_def disk_step_def nexus_run_def default_station_repo_def default_nexus_repo_def
    hm_remove_def sample_admin_channel_def sample_channel_config_def memory_key_of_def channel_def channels_def connect_channel_def get_or_create_channel_def put_channel_def)

lemmas sample_agent_simps = sample_agent_eq sample_new_agent_def nexus_new_def from_repo_def fresh_config_def

lemma sample_channel_run [simp]: "hm_get (ag_channels sample_agent) ''ch'' = Some (new_channel\<lparr>cn_client := True\<rparr>)"
  by (simp add: sample_agent_eq)
lemma sample_channel_found [simp]: "channel ''ch'' sample_agent = Some sample_admin_channel"
  by (simp add: sample_agent_eq channel_def)
lemma sample_provider_found [simp]: "provider_config_of ''p'' sample_agent = Some sample_provider"
  by (simp add: sample_agent_eq provider_config_of_def sample_models_def)

definition sample_told :: "unit agent_state" where
  "sample_told = (sample_agent\<lparr>ag_openai := [(''p'', sample_provider)]\<rparr>)"

lemma white_space_chars: "white_space = [[CHR 0x09], [CHR 0x0A], [CHR 0x0B], [CHR 0x0C], [CHR 0x0D], [CHR 0x20],
  [CHR 0xC2, CHR 0x85], [CHR 0xC2, CHR 0xA0], [CHR 0xE1, CHR 0x9A, CHR 0x80],
  [CHR 0xE2, CHR 0x80, CHR 0x80], [CHR 0xE2, CHR 0x80, CHR 0x81], [CHR 0xE2, CHR 0x80, CHR 0x82], [CHR 0xE2, CHR 0x80, CHR 0x83], [CHR 0xE2, CHR 0x80, CHR 0x84],
  [CHR 0xE2, CHR 0x80, CHR 0x85], [CHR 0xE2, CHR 0x80, CHR 0x86], [CHR 0xE2, CHR 0x80, CHR 0x87], [CHR 0xE2, CHR 0x80, CHR 0x88], [CHR 0xE2, CHR 0x80, CHR 0x89],
  [CHR 0xE2, CHR 0x80, CHR 0x8A], [CHR 0xE2, CHR 0x80, CHR 0xA8], [CHR 0xE2, CHR 0x80, CHR 0xA9], [CHR 0xE2, CHR 0x80, CHR 0xAF], [CHR 0xE2, CHR 0x81, CHR 0x9F],
  [CHR 0xE3, CHR 0x80, CHR 0x80]]" by (simp add: white_space_def utf8_def char_of_def bit_Suc_0_iff)

lemma model_command_words: "split_whitespace (trim ''/model p p'') = [''/model'', ''p'', ''p'']"
proof -
  note spaces = white_space_chars strip_prefix_def starts_with_def
  have "trim_start ''/model p p'' = ''/model p p''" by (simp add: trim_start_def strip_all.simps [of _ "_ # _"] spaces)
  moreover have "trim_end ''/model p p'' = ''/model p p''" by (simp add: trim_end_def strip_all.simps [of _ "_ # _"] spaces)
  ultimately have "trim ''/model p p'' = ''/model p p''" by (simp add: trim_def)
  then show ?thesis by (simp add: split_whitespace_def split_whitespace_from.simps spaces)
qed
lemma models_not_listed: "openai_list_models (nv_http sample_env) sample_provider w = (Inl (LF_ReqwestError ''down''), w)" for w
  by (simp add: openai_list_models_def sample_env_def json_answer_def bind_act_def)

lemma model_listing_fails: "\<exists>e. list_models sample_env ''p'' sample_agent = (Inl (Failed e), sample_told)"
proof -
  have o: "hm_get (ag_openai sample_agent) ''p'' = None" "ag_openai sample_agent = []" by (simp_all add: sample_agent_simps)
  have p: "pc_provider_type sample_provider = ''openai''" by (simp add: sample_provider_def)
  show ?thesis
  by (simp add: list_models_def bind_act_def read_st_def p get_openai_provider_def o of_llm_def sample_told_def models_not_listed)
qed

lemma model_command_fails: "\<exists>e. execute sample_env ''/model p p'' ''ch'' sample_agent = (Inl (Failed e), sample_told)"
proof -
  from model_listing_fails obtain e where e: "list_models sample_env ''p'' sample_agent = (Inl (Failed e), sample_told)" ..
  have k: "memory_key_of ''ch'' sample_agent = Some (MemoryKey ''a'' (RoleEvent ''r'' None))"
    by (simp add: memory_key_of_def sample_admin_channel_def sample_channel_config_def new_channel_def)
  have "execute sample_env ''/model p p'' ''ch'' sample_agent =
    replying (set_channel_session_model sample_env ''ch'' ''p'' ''p'')
                 (utf8 [226, 156, 133] @ '' '' @ utf8 [229, 183, 178, 229, 136, 135, 230, 141, 162, 230, 168, 161, 229, 158, 139, 228, 184, 186] @ '': '' @ ''p'' @ ''/'' @ ''p'') sample_agent"
   unfolding execute_def model_command_words list.case
   by (simp only: list.inject char.inject if_False if_True list.distinct simp_thms  list.case refl)
  also have "\<exists>e. \<dots> = (Inl (Failed e), sample_told)"
   unfolding replying_def set_channel_session_model_def set_session_model_def verify_model_def outcome_def bind_act_def read_st_def k fail_def option.case prod.case sum.case e failure.case
   by (rule exI, rule refl)
  finally show ?thesis .
qed

lemma model_command_run: "snd (terminal_incoming sample_env ''ch'' (sample_event ''/model p p'') sample_agent) = sample_told"
proof -
  from model_command_fails obtain e where e: "execute sample_env ''/model p p'' ''ch'' sample_agent = (Inl (Failed e), sample_told)" ..
  have put: "put_channel ''ch'' (new_channel\<lparr>cn_client := True\<rparr>) sample_agent = sample_agent"
    by (simp add: put_channel_def sample_agent_simps hm_remove_def)
  have ch: "hm_get (ag_channels sample_told) ''ch'' = Some (new_channel\<lparr>cn_client := True\<rparr>)"
    by (simp add: sample_told_def)
  have adm: "sender_of (sample_event ''/model p p'') \<in> cg_admins sample_admin_channel" "is_command (im_content (ie_incoming_message (sample_event ''/model p p'')))"
     "command_text (im_content (ie_incoming_message (sample_event ''/model p p''))) = ''/model p p''"
    by (simp_all add: sender_of_def sample_event_def sample_admin_channel_def sample_user_def starts_with_def)
  have down: "send_admin_reply sample_env ''ch'' (sample_event ''/model p p'') t sample_told = (Inr (), sample_told)" for t
    by (simp add: send_admin_reply_def send_on_channel_def bind_act_def read_st_def ch asking_def sample_env_def ret_def)
  have echo: "consume_pending m now (new_channel\<lparr>cn_client := True\<rparr>) = (False, new_channel\<lparr>cn_client := True\<rparr>)" for m now
    by (simp add: consume_pending_def new_channel_def evict_def)
  have net: "s\<lparr>sn_net := ()\<rparr> = s" for s :: "unit agent_state" by (cases s) simp
  have instant: "nv_instant sample_env () = (5, ())" by (simp add: sample_env_def)
  show ?thesis
    by (simp add: terminal_incoming_def nexus_incoming_def bind_act_def read_st_def asking_def instant modify_st_def echo net put adm outcome_def e down)
qed

section \<open>Other states\<close>

lemma sample_told_reachable: "agent_reachable sample_env sample_told"
  unfolding model_command_run [symmetric]
  by (rule agent_reachable.step [OF sample_agent_reachable agent_step.message [OF prod.collapse [symmetric]]])

text \<open>A call of a tool that is not there.\<close>

definition sample_call :: tool_call where
  "sample_call = \<lparr>tl_id = ''i'', tl_name = ''x'', tl_arguments = JNull, tl_result_arguments = None, tl_result = None\<rparr>"

definition sample_serving :: "unit agent_state" where
  "sample_serving = sample_agent
     \<lparr>ag_pipelines := [new_pipeline (Memory_Loop True) (Memory_Session sample_key) 0],
      ag_contexts := [(new_context ''d'' ''x'')\<lparr>sc_messages := [Msg_Assistant (JStr ''hello'') JNull JNull, Msg_User ''again'']\<rparr>]\<rparr>"

definition sample_response :: outgoing_message_response where
  "sample_response = \<lparr>or_msg_id = ''id'', or_time = ''4'', or_content = Content_Text ''hi'', or_messenger_name = ''M'',
     or_user_name = ''U'', or_group_name = ''G''\<rparr>"

definition sample_outgoing :: outgoing_message where
  "sample_outgoing = \<lparr>om_messenger_id = ''m'', om_user_id = ''u'', om_group_id = ''g'', om_content = Content_Text ''hi''\<rparr>"

definition sample_open_env :: "unit agent_env" where
  "sample_open_env = sample_env\<lparr>nv_send_message := (\<lambda>_ _ w. (Inr sample_response, w))\<rparr>"

definition sample_reader :: "unit agent_state" where
  "sample_reader = sample_agent\<lparr>sn_tools := [(''read'', \<lparr>nt_config = new_tool ''read'' [] JNull,
     nt_implement = (\<lambda>arguments w. (read_call sample_os_files [''w''] arguments, w))\<rparr>)]\<rparr>"

end
