(* ===== verification/Agent_Run_Spec.thy ===== *)
theory Agent_Run_Spec
  imports Agent_Samples
begin

text \<open>
  Properties of the running agent: its state stays well-formed, the loops end, every tool call is
  answered and recorded, the memory is read back in order, commands are for administrators, and
  messages go out to bound identities only.
\<close>

section \<open>Reachable states\<close>



text \<open>Once an instance of a provider was made under a name, it is the one that is used under this
  name from then on, whatever happens to the agent and whatever provider the configuration has
  under the name by then.\<close>

theorem provider_stays:
  assumes "agent_reachable env s" and "hm_get (ag_openai s) name = Some p" and "(agent_step env)\<^sup>*\<^sup>* s s'"
  shows "get_openai_provider name cfg s' = (Inr p, s')"
proof -
  have "config_ok s" using agent_reachable_ok [OF assms(1)] by (simp add: agent_ok_def)
  with assms(2) have "provider_made name p s" by (simp add: provider_made_def)
  with provider.steps_kept [OF assms(3)] have "provider_made name p s'" .
  then show ?thesis by (simp add: provider_made_def get_openai_provider_def)
qed

theorem provider_stays_witness:
  "get_openai_provider ''p'' (sample_provider\<lparr>pc_api_key := ''new''\<rparr>) (snd (remove_provider ''p'' sample_told)) =
   (Inr sample_provider, snd (remove_provider ''p'' sample_told))"
proof (rule provider_stays [OF sample_told_reachable])
  show "hm_get (ag_openai sample_told) ''p'' = Some sample_provider" by (simp add: sample_told_def)
  show "(agent_step sample_env)\<^sup>*\<^sup>* sample_told (snd (remove_provider ''p'' sample_told))"
    by (intro r_into_rtranclp agent_step.remove_provider [OF prod.collapse [symmetric]])
qed

section \<open>The loops\<close>

text \<open>C20: Both loops end: after at most ten answers of the model they come to a result or an error,
  however long the model goes on to ask for tools.\<close>

theorem loops_end:
  "fst (run env key h message tools usage s) \<noteq> Inr None \<and> fst (memory_run env b p message tools s) \<noteq> Inr None"
proof -
  obtain r s1 where 1: "run env key h message tools usage s = (r, s1)" by force
  obtain q s2 where 2: "memory_run env b p message tools s = (q, s2)" by force
  have "r \<noteq> Inr None"
    by (rule run_loop_ends [OF _ _ 1 [unfolded run_def]]) (simp_all add: max_tool_rounds_def)
  moreover have "q \<noteq> Inr None"
    by (rule memory_run_loop_ends [OF _ _ 2 [unfolded memory_run_def]]) (simp_all add: max_tool_rounds_def)
  ultimately show ?thesis by (simp add: 1 2)
qed

text \<open>C6: With memory every tool call of an answer is answered, in the order of the calls and under
  the id of each, also when the tool failed; the memory is handed every call, and a result for
  each call that did not fail, and the references that will go out with the next message name
  just these.\<close>

theorem tool_calls_answered:
  assumes p: "p < length (ag_pipelines s)" and key: "pl_session_key (ag_pipelines s ! p) = Memory_Session mk"
    and run: "call_tools_dyn (memory_call_tool env p) cs s = (r, s')"
  shows "\<exists>ts. map tt_call ts = cs \<and> r = Inr (map tt_after ts, errors_of ts) \<and>
    map (\<lambda>c. case tool_answer c of Msg_Tool i text \<Rightarrow> Some i | _ \<Rightarrow> None) (map tt_after ts) = map (\<lambda>c. Some (tl_id c)) cs \<and>
    ag_pushed s' = ag_pushed s @ concat (map (trace_pushed mk) ts) \<and>
    pl_pending_contents (ag_pipelines s' ! p) =
      pl_pending_contents (ag_pipelines s ! p) @ concat (map trace_references ts)"
proof -
  from call_tools_traced [OF p key run] obtain ts where ts: "map tt_call ts = cs"
    "r = Inr (map tt_after ts, errors_of ts)" "traced mk p s ts s'" by blast
  then have "\<forall>t \<in> set ts. tl_id (tt_after t) = tl_id (tt_call t)" by (simp add: traced_def trace_ok_def)
  with ts show ?thesis by (intro exI [of _ ts]) (auto simp: tool_answer_def traced_def)
qed

theorem tool_calls_answered_witness:
  "\<exists>cs' es. fst (call_tools_dyn (memory_call_tool sample_env 0) [sample_call, sample_call] sample_serving) = Inr (cs', es) \<and>
     map (\<lambda>c. case tool_answer c of Msg_Tool i text \<Rightarrow> Some i | _ \<Rightarrow> None) cs' = [Some ''i'', Some ''i'']"
proof -
  have 1: "0 < length (ag_pipelines sample_serving)"
    and 2: "pl_session_key (ag_pipelines sample_serving ! 0) = Memory_Session sample_key"
    by (simp_all add: sample_serving_def new_pipeline_def)
  have "tl_id sample_call = ''i''" by (simp add: sample_call_def)
  with tool_calls_answered [OF 1 2 prod.collapse [symmetric], where env = sample_env and cs = "[sample_call, sample_call]"]
  show ?thesis by fastforce
qed

text \<open>C26: Making room takes back what was said since the last answer of the model, and hands it on in
  front of the new messages, so none of it is lost, whichever way the room is made.\<close>

theorem room_keeps_unanswered:
  assumes "reduce \<in> {compress_reduce env, memory_recover_reduce env}"
    and "make_room reduce key h ms s = (Inr ms', s')"
  shows "ms' = rev (takeWhile (\<lambda>m. \<not> is_assistant m) (rev (sc_messages (ag_contexts s ! h)))) @ ms"
proof -
  have same: "ms'' = ms2" if "reduce key h ms2 s2 = (Inr (n, ms''), s3)" for ms2 ms'' n s2 s3
    using assms(1) that
    by (auto simp: compress_reduce_def memory_recover_reduce_def Let_def run_simps split: agent_session.split_asm sum.split_asm)
      (metis sum.exhaust)
  from assms(2) obtain pending s2 n s3 where
    taken: "session_op h (revert_until (\<lambda>_ m. (is_assistant m, ())) ()) s = (Inr pending, s2)"
    and reduce: "reduce key h (pending @ ms) s2 = (Inr (n, ms'), s3)"
    by (auto simp: make_room_def run_simps)
  from taken obtain b c c' where "revert_loop (\<lambda>_ m. (is_assistant m, ())) (rev (sc_messages (ag_contexts s ! h))) () False [] c =
      (Inr (b, pending), c')"
    by (auto simp: session_op_def revert_until_def run_simps split: prod.splits sum.splits if_splits)
  from revert_loop_takes [OF this] same [OF reduce] show ?thesis by simp
qed

theorem room_keeps_unanswered_witness:
  "fst (make_room (memory_recover_reduce sample_env) (Raw_Session ''x'') 0 [Msg_User ''more''] sample_serving) =
   Inr [Msg_User ''again'', Msg_User ''more'']"
proof -
  let ?run = "make_room (memory_recover_reduce sample_env) (Raw_Session ''x'') 0 [Msg_User ''more''] sample_serving"
  have "\<exists>ms. fst ?run = Inr ms"
    by (simp add: make_room_def memory_recover_reduce_def session_op_def revert_until_def bind_act_def read_st_def ret_def sample_serving_def sample_agent_simps sample_session_files_def
        archive_and_clear_cache_and_reset_messages_def write_history_def chat_io_def chat_now_def modify_files_def modify_st_def
        modify_ctx_def set_cache_def write_current_cache_def open_cache_and_write_system_line_def write_cache_lines_def write_cache_line_def cache_of_def new_context_def cache_key_def history_key_def build_def write_history_line_def system_line_def)
  then obtain ms where ms: "fst ?run = Inr ms" ..
  then have "?run = (Inr ms, snd ?run)" by (metis prod.collapse)
  from room_keeps_unanswered [where env = sample_env, OF _ this] ms show ?thesis by (simp add: sample_serving_def)
qed

text \<open>With a threshold of at most one the limit at which room is made is at most the limit of the
  model, and with the default threshold of 0.8 a model of 128000 tokens has it at 102400.\<close>

theorem limit_scaled:
  assumes "unat threshold \<le> 1023 * 2 ^ 52"
  shows "unat (scale_tokens n threshold) \<le> unat n \<and> scale_tokens 128000 (ep_compress_threshold new_effective_compress) = 102400"
  using scale_tokens_le [OF assms, of n] scale_default by simp

theorem limit_scaled_witness: "unat (scale_tokens 200000 (ep_compress_threshold new_effective_compress)) \<le> 200000"
proof -
  have "unat (ep_compress_threshold new_effective_compress) \<le> 1023 * 2 ^ 52" by (simp add: new_effective_compress_def default_compress_threshold_def)
  from limit_scaled [OF this, of 200000] show ?thesis by simp
qed

section \<open>What is read back\<close>

text \<open>C13: What is read back from the memory for a context is the entries of the first query, the last
  \<open>wanted\<close> records, in the order of time and number and of each the first; when there are as many
  as were wanted, those of a second query are added, which asks for all that lies between the
  start of the window, or the oldest entry if that is older, and the oldest entry.\<close>

theorem recent_is_union:
  assumes window: "\<not> duration_panics secs" "nv_window_start env secs (sn_net s) = (Some start, w1)"
    and first: "nv_query_last env (mk_agent_id k, mk_role_event k, ucast wanted) w1 = (Inr answer1, w2)" "ap_data answer1 = Some g"
    and second: "card (fst ` set (entries_of g)) < unat wanted \<or> entries_of g = [] \<or>
      (\<exists>answer w3. ap_data answer = Some g2 \<and>
         (let oldest = fst (Min (fst ` set (entries_of g)))
          in nv_query_recent env (mk_agent_id k, mk_role_event k, min start oldest, oldest) w2 = (Inr answer, w3)))"
  shows "fst (read_recent_for_context env k secs wanted s) = Inr (in_sequence
    (if card (fst ` set (entries_of g)) < unat wanted \<or> entries_of g = [] then entries_of g
     else entries_of g @ entries_of g2))"
proof -
  let ?m = "parse_channel_groups g []"
  have ok: "bm_ok ?m" and m: "map_of ?m = map_of (entries_of g)"
    using parse_groups_map [of "[]" g] by simp_all
  note seq = in_sequence_eq [OF ok m]
  have len: "length ?m = card (fst ` set (entries_of g))"
    using seq(2) by (metis length_map length_sorted_list_of_set)
  have start: "read_recent_for_context env k secs wanted s =
      (case ?m of
         [] \<Rightarrow> ret []
       | ((ln, _), _) # _ \<Rightarrow>
           if length ?m < unat wanted then ret (map snd ?m)
           else bind_act (query_recent env (mk_agent_id k) (mk_role_event k) (if start < ln then start else ln) ln)
             (\<lambda>groups. ret (map snd (parse_channel_groups groups ?m)))) (s\<lparr>sn_net := w2\<rparr>)"
    using window first
    by (simp add: read_recent_for_context_def bind_act_def asking_def query_last_def lift_op_def of_result_def
        store_answer_def Let_def)
  show ?thesis
  proof (cases ?m)
    case Nil
    then have "entries_of g = []" using seq(1) by simp
    then show ?thesis using start Nil by (simp add: ret_def in_sequence_def)
  next
    case (Cons x rest)
    then obtain ln sn v where x: "x = ((ln, sn), v)" by (metis prod.exhaust)
    have ne: "entries_of g \<noteq> []" using seq(1) Cons by auto
    show ?thesis
    proof (cases "card (fst ` set (entries_of g)) < unat wanted")
      case True
      then show ?thesis using start Cons x len seq(3) ne by (simp add: ret_def)
    next
      case False
      have "Min (fst ` set (entries_of g)) = (ln, sn)"
        using bm_first_key [of "(ln, sn)" v rest] ok Cons x seq(1) by simp
      with second False ne obtain answer w3 where a: "ap_data answer = Some g2"
        "nv_query_recent env (mk_agent_id k, mk_role_event k, min start ln, ln) w2 = (Inr answer, w3)"
        by (auto simp: Let_def)
      moreover have "(if start < ln then start else ln) = min start ln" by (auto simp: min_def)
      ultimately have "fst (read_recent_for_context env k secs wanted s) = Inr (map snd (parse_channel_groups g2 ?m))"
        using start Cons x len False
        by (simp add: query_recent_def bind_act_def asking_def lift_op_def of_result_def store_answer_def ret_def)
      moreover have "map snd (parse_channel_groups g2 ?m) = in_sequence (entries_of g @ entries_of g2)"
        using parse_groups_map [OF ok, of g2] m by (intro in_sequence_eq) simp_all
      ultimately show ?thesis using False ne by simp
    qed
  qed
qed

theorem recent_is_union_witness:
  "fst (read_recent_for_context sample_env sample_key 60 1 sample_agent) =
   Inr [extract_content ''U'' (Content_Text ''first'') 0, extract_content ''U'' (Content_Text ''second'') 0]"
proof -
  let ?g = "[(''g'', [sample_spoken_at ''2'' ''second''])]"
  let ?g2 = "[(''g'', [sample_spoken_at ''1'' ''first'', sample_spoken_at ''2'' ''again''])]"
  have 1: "\<not> duration_panics 60" by (simp add: duration_panics_def)
  have w: "nv_window_start sample_env 60 (sn_net sample_agent) = (Some ''0'', ())" by (simp add: sample_env_def)
  have q: "nv_query_last sample_env (mk_agent_id sample_key, mk_role_event sample_key, ucast (1 :: 64 word)) () = (Inr (api_success ?g), ())"
    "ap_data (api_success ?g) = Some ?g" by (simp_all add: sample_env_def api_success_def)
  have second: "card (fst ` set (entries_of ?g)) < unat (1 :: 64 word) \<or> entries_of ?g = [] \<or>
      (\<exists>answer w3. ap_data answer = Some ?g2 \<and>
         (let oldest = fst (Min (fst ` set (entries_of ?g)))
          in nv_query_recent sample_env (mk_agent_id sample_key, mk_role_event sample_key, min ''0'' oldest, oldest) () = (Inr answer, w3)))"
    by (simp add: sample_env_def api_success_def)
  from recent_is_union [OF 1 w q second] show ?thesis
    by (simp add: entries_of_def entry_of_record_def sample_spoken_at_def in_sequence_def insert_Diff_if)
qed

section \<open>Commands and messages\<close>

lemma send_on_channel_pushed:
  assumes "send_on_channel env i m s = (q, s1)"
  shows "ag_pushed s1 = ag_pushed s \<and>
    (\<forall>response. q = Inr (Inr response) \<longrightarrow> fst (nv_send_message env i m (sn_net s)) = Inr response)"
  using assms
  by (auto simp: send_on_channel_def bind_act_def read_st_def asking_def ret_def modify_st_def put_channel_def Let_def
      split: option.splits if_splits prod.splits sum.splits)

lemma sent_pending:
  assumes "send_on_channel env i m s = (Inr (Inr response), s1)"
  shows "\<exists>c. hm_get (ag_channels s1) i = Some c \<and> hm_get (cn_pending c) (or_msg_id response) \<noteq> None"
  using assms
  by (auto simp: send_on_channel_def bind_act_def read_st_def asking_def ret_def modify_st_def put_channel_def Let_def
      split: option.splits if_splits prod.splits sum.splits)

text \<open>C22: A command never enters the memory, whoever sends it and however it ends; from one who is
  not an administrator of the channel it changes nothing at all and is not answered.\<close>

theorem commands_stay_out:
  assumes ok: "config_ok s" and cmd: "is_command (im_content (ie_incoming_message e))"
  shows "ag_pushed (snd (nexus_incoming env i e s)) = ag_pushed s \<and>
    (channel i s = Some ch \<longrightarrow> sender_of e \<notin> cg_admins ch \<longrightarrow> nexus_incoming env i e s = (Inr (), s))"
proof -
  have "preserves (handed_just ps) (bind_act (outcome (execute env t i)) (\<lambda>r. send_admin_reply env i e (reply_text r)))"
    for ps t unfolding send_admin_reply_def by (intro preserves_intros idle_memory.preserves_execute idle_memory.preserves_send_on_channel)
  then have "ag_pushed (snd (bind_act (outcome (execute env t i)) (\<lambda>r. send_admin_reply env i e (reply_text r)) s)) = ag_pushed s"
    for t using ok unfolding preserves_def handed_just_def by blast
  with cmd show ?thesis
    by (auto simp: nexus_incoming_def bind_read Let_def ret_def split: option.splits)
qed

theorem commands_stay_out_witness:
  "let s = sample_agent\<lparr>cs_nexus := nr_channels_update (\<lambda>_. [(''ch'', sample_channel_config)]) (cs_nexus sample_agent)\<rparr>
   in nexus_incoming sample_env ''ch'' (sample_event ''/agent x'') s = (Inr (), s)"
proof -
  let ?s = "sample_agent\<lparr>cs_nexus := nr_channels_update (\<lambda>_. [(''ch'', sample_channel_config)]) (cs_nexus sample_agent)\<rparr>"
  have ok: "config_ok ?s" by (simp add: config_ok_def repo_ok_def sample_agent_simps default_nexus_repo_def sample_admin_channel_def sample_channel_config_def sample_models_def)
  have "is_command (im_content (ie_incoming_message (sample_event ''/agent x'')))" by (simp add: sample_event_def starts_with_def)
  from commands_stay_out [OF ok this, of sample_env "''ch''" sample_channel_config] show ?thesis
    by (simp add: channel_def sample_channel_config_def Let_def)
qed





text \<open>At its start the agent makes no session for the channels it has: their running state is only
  made when they are connected, and without it a channel has no session key.\<close>

theorem start_makes_no_session:
  assumes "ag_channels s = []" and "nexus_run env s = (r, s')"
  shows "ag_sessions s' = ag_sessions s \<and> ag_contexts s' = ag_contexts s"
proof -
  have "keeps (\<lambda>s. (ag_sessions s, ag_contexts s)) (connect_channel i)" for i
    by (auto simp: connect_channel_def keeps_def bind_act_def read_st_def get_or_create_channel_def modify_st_def ret_def
        put_channel_def split: option.splits prod.splits)
  then have connect: "keeps (\<lambda>s. (ag_sessions s, ag_contexts s))
      (for_each chs (\<lambda>(_, ch). if cg_enabled ch then connect_channel (cg_channel_id ch) else ret ()))" for chs
    by (intro keeps_intros)
  let ?first = "\<lambda>(_ :: string, ch). bind_act (read_st (memory_key_of (cg_channel_id ch))) (\<lambda>key.
      case key of Some k \<Rightarrow> bind_act (ensure_session env (Memory_Session k)) (\<lambda>_. ret ()) | None \<Rightarrow> ret ())"
  have idle: "for_each chs ?first s = (Inr (), s)" for chs
    using assms(1) by (induction chs) (auto simp: ret_def bind_act_def read_st_def memory_key_of_def split: option.splits)
  have "bind_act (for_each (channels s) ?first) f s = f () s" for f :: "unit \<Rightarrow> ('a, unit) agent_op"
    using idle [of "channels s"] by (simp only: bind_act_def [of "for_each _ _"] prod.case sum.case)
  then have "nexus_run env s = for_each (channels s)
      (\<lambda>(_, ch). if cg_enabled ch then connect_channel (cg_channel_id ch) else ret ()) s"
    by (simp add: nexus_run_def bind_read)
  with assms(2) keepsD [OF connect] show ?thesis by auto
qed

theorem start_makes_no_session_witness:
  "let s = sample_agent\<lparr>ag_channels := []\<rparr> in ag_sessions (snd (nexus_run sample_env s)) = [] \<and> channels s \<noteq> []"
proof -
  have "ag_channels (sample_agent\<lparr>ag_channels := []\<rparr>) = []" by simp
  from start_makes_no_session [OF this prod.collapse [symmetric]] show ?thesis
    by (simp add: Let_def sample_agent_simps channels_def)
qed

section \<open>Answers of a provider\<close>

text \<open>What can be opened by a key for writing.\<close>

fun openable :: "json \<Rightarrow> bool" where
  "openable (JObj kvs) \<longleftrightarrow> True"
| "openable JNull \<longleftrightarrow> True"
| "openable _ \<longleftrightarrow> False"

fun first_choice :: "json \<Rightarrow> json option" where
  "first_choice (JArr (c # cs)) = Some c"
| "first_choice _ = None"

definition openai_shape :: "json \<Rightarrow> bool" where
  "openai_shape data \<longleftrightarrow> (\<exists>c. first_choice (json_at ''choices'' data) = Some c \<and> openable c \<and> openable (json_at ''message'' c))"

lemma take_key_openable: "take_key k v = (if openable v then Some (json_at k v) else None)"
  by (cases v) (simp_all add: json_at_def)

lemma take_first: "take_index 0 v = first_choice v"
  by (cases v rule: first_choice.cases) simp_all

lemma first_choice_openable: "first_choice (json_at k data) = Some c \<Longrightarrow> openable data"
  by (cases data) (simp_all add: json_at_def)

text \<open>Reading an answer of OpenAI's protocol panics exactly when it does not have the expected
  shape, an array of choices with an object, or null, first, and in it an object, or null, as
  the message: an answer without choices ends the task of the batch instead of being an error.\<close>

theorem openai_panics_iff:
  "openai_parse_response data = None \<longleftrightarrow> \<not> openai_shape data"
proof -
  have "openai_parse_response data = None \<longleftrightarrow> \<not> (openable data \<and> openai_shape data)"
    by (cases "first_choice (json_at ''choices'' data)")
      (simp_all add: openai_parse_response_def openai_shape_def Let_def take_key_openable take_first case_prod_beta)
  then show ?thesis by (auto simp: openai_shape_def dest: first_choice_openable)
qed

text \<open>What OpenAI's protocol has as the arguments of a call is a text, and the built-in tool looks
  for the path in an object: every call of it as the protocol sends it is answered with the
  missing parameter, whatever the text says, and counts as a call that did not fail.\<close>

theorem wire_arguments_not_read:
  assumes call: "openai_tool_call v = Some c"
    and wire: "json_at ''arguments'' (json_at ''function'' v) = JStr text"
    and tool: "hm_get (sn_tools s) (tl_name c) = Some t" "nt_implement t = (\<lambda>arguments w. (read_call (files w) cwd arguments, w))"
  shows "\<exists>c'. run_tool c s = (Inr (c', None), s) \<and>
    tl_result c' = Some (ct_content (error_result (utf8 [231, 188, 186, 229, 176, 145, 229, 143, 130, 230, 149, 176] @ '' path'')))"
proof -
  from call wire have "tl_arguments c = JStr text" by (auto simp: openai_tool_call_def split: option.splits)
  with tool show ?thesis
    by (auto simp: run_tool_def call_tool_local_def call_tool_def read_call_def Let_def)
qed

theorem wire_arguments_not_read_witness:
  "\<exists>c c'. openai_tool_call (JObj [(''id'', JStr ''i''), (''function'', JObj [(''name'', JStr ''read''),
       (''arguments'', JStr ''{path: note}'')])]) = Some c \<and> run_tool c sample_reader = (Inr (c', None), sample_reader)"
proof -
  let ?v = "JObj [(''id'', JStr ''i''), (''function'', JObj [(''name'', JStr ''read''), (''arguments'', JStr ''{path: note}'')])]"
  let ?c = "sample_call\<lparr>tl_name := ''read'', tl_arguments := JStr ''{path: note}''\<rparr>"
  have 1: "openai_tool_call ?v = Some ?c"
    by (simp add: openai_tool_call_def json_at_def sample_call_def)
  have 2: "json_at ''arguments'' (json_at ''function'' ?v) = JStr ''{path: note}''" by (simp add: json_at_def)
  have 3: "hm_get (sn_tools sample_reader) (tl_name ?c) = Some \<lparr>nt_config = new_tool ''read'' [] JNull,
     nt_implement = (\<lambda>arguments w. (read_call sample_os_files [''w''] arguments, w))\<rparr>"
    by (simp add: sample_reader_def)
  from wire_arguments_not_read [OF 1 2 3, where files = "\<lambda>_. sample_os_files" and cwd = "[''w'']"] 1 show ?thesis
   by (auto)
qed

lemma strip_prefix_iff: "strip_prefix p t = Some r \<longleftrightarrow> t = p @ r"
  by (auto simp: strip_prefix_def starts_with_def) (metis append_take_drop_id)

text \<open>A thought at the start of a text, behind white space only, is taken out up to the first
  closing tag; when there is none the text stays as it is.\<close>

theorem thought_taken_out:
  "case strip_think_tag t of
     (said, Some thought) \<Rightarrow> (\<exists>rest. said = Some rest \<and> trim_start t = ''<think>'' @ thought @ ''</think>'' @ rest \<and>
       (\<forall>a b. trim_start t = ''<think>'' @ a @ ''</think>'' @ b \<longrightarrow> length thought \<le> length a))
   | (said, None) \<Rightarrow> said = Some t \<and> (\<nexists>a b. trim_start t = ''<think>'' @ a @ ''</think>'' @ b)"
proof (cases "strip_prefix ''<think>'' (trim_start t)")
  case None
  then have "\<nexists>a. trim_start t = ''<think>'' @ a" by (metis option.distinct(1) strip_prefix_iff)
  with None show ?thesis by (simp add: strip_think_tag_def)
next
  case (Some rest)
  then have t: "trim_start t = ''<think>'' @ rest" by (simp only: strip_prefix_iff)
  show ?thesis
  proof (cases "find_text ''</think>'' rest")
    case None
    with Some t find_text_None [of "''</think>''" rest] show ?thesis by (simp add: strip_think_tag_def)
  next
    case (Some found)
    obtain thought said where "found = (thought, said)" by force
    with Some \<open>strip_prefix _ _ = Some rest\<close> t find_text_Some [of "''</think>''" rest] find_text_first [of "''</think>''" rest]
    show ?thesis by (auto simp: strip_think_tag_def)
  qed
qed

theorem thought_taken_out_witness:
  "strip_think_tag '' <think>a</think>b'' = (Some ''b'', Some ''a'') \<and>
   trim_start '' <think>a</think>b'' = ''<think>'' @ ''a'' @ ''</think>'' @ ''b''"
proof -
  have s: "strip_think_tag '' <think>a</think>b'' = (Some ''b'', Some ''a'')"
    by (simp add: strip_think_tag_def trim_start_def strip_all.simps [of _ "_ # _"] find_text.simps [of _ "_ # _"]
        white_space_chars strip_prefix_def starts_with_def)
  with thought_taken_out [of "'' <think>a</think>b''"] show ?thesis by (simp add: s)
qed

text \<open>A message reads back from its JSON form as it was, so no two messages have the same form.\<close>

theorem messages_read_back:
  "message_of_json (message_json m) = Some m \<and> (message_json m = message_json m' \<longleftrightarrow> m = m')"
  by (metis message_roundtrip option.inject)

end
