(* ===== verification/Ego_Store.thy ===== *)
theory Ego_Store
  imports Ego_Types Agent_Config Decision_Model
begin

text \<open>
  The service that keeps what agents know of themselves (\<open>kissbot-memory-ego\<close>): its files and
  directories (\<open>kissbot-memory/src/directory.rs\<close>), the objects it keeps of them in memory, and the
  two ways in which its three managers read and change an object (\<open>read_...\<close> and \<open>write_..._ref\<close>
  of \<open>agent.rs\<close>, \<open>individual_recognition.rs\<close> and \<open>role_play.rs\<close>, which have the same text but for
  the file). A change holds the lock of its object from reading to writing, so an operation on an
  object is one step. A file has a key, the id of the agent and the name of the role; ids that
  lead to the same directory are not taken for one. A failing step of the file system is a \<open>True\<close>
  in \<open>es_faults\<close>.
\<close>

section \<open>Errors and codes\<close>

datatype ego_error =
    EE_Io
  | EE_Json
  | EE_PathNotExist string
  | AgentNotFound string
  | AgentAlreadyExists string
  | AgentIndividualNotFound string string
  | AgentIndividualAlreadyExists string string
  | AgentRoleNotFound string string
  | AgentRoleAlreadyExists string string
  | AgentRoleOtherRoleNotFound string string string
  | AgentRoleOtherRoleAlreadyExists string string string
  | InvalidCode string

definition valid_code :: "string \<Rightarrow> bool" where
  "valid_code code \<longleftrightarrow> code \<noteq> [] \<and> list_all (\<lambda>c. is_ascii_alphanumeric c \<or> c = CHR ''_'') code"

definition validate_code :: "string \<Rightarrow> ('s, ego_error, unit) action" where
  "validate_code code = (if valid_code code then ret () else fail (InvalidCode code))"

section \<open>State\<close>

text \<open>An object: what is in memory, and its file.\<close>

record 'a cell =
  ce_cached :: "'a option"
  ce_file :: "'a json_file option"

text \<open>
  \<open>es_root\<close> is whether there is a root directory; the directories of agents are those below it,
  \<open>es_uuids\<close> those among them with the file that marks an agent, \<open>es_egos\<close> those with a directory
  for this service. The dirty marks belong to the search (\<open>Ego_Search\<close>).
\<close>

record ego_state =
  es_root :: bool
  es_dirs :: "string list"
  es_uuids :: "string list"
  es_egos :: "string list"
  es_agents :: "(string, agent_metadata cell) hmap"
  es_individuals :: "(string, individual_recognition cell) hmap"
  es_roles :: "(string \<times> string, role_play cell) hmap"
  es_identity_dirty :: "string list"
  es_role_dirty :: "(string \<times> string) list"
  es_faults :: "bool list"

type_synonym ('z, 'a) ego_op = "('z ego_state_scheme, ego_error, 'a) action"

section \<open>The file system\<close>

text \<open>Whether the next step goes wrong.\<close>

definition next_fault :: "('z, bool) ego_op" where
  "next_fault s = (case es_faults s of
      [] \<Rightarrow> (Inr False, s)
    | f # fs \<Rightarrow> (Inr f, s\<lparr>es_faults := fs\<rparr>))"

definition ego_io :: "('z, unit) ego_op" where
  "ego_io = bind_act next_fault (\<lambda>f. if f then fail EE_Io else ret ())"

text \<open>\<open>ensure_dir_exists\<close>: an error of \<open>create_dir_all\<close> only shows in the directory not being there.\<close>

definition ensure_dir_exists ::
  "('z ego_state_scheme \<Rightarrow> bool) \<Rightarrow> ('z ego_state_scheme \<Rightarrow> 'z ego_state_scheme) \<Rightarrow> string \<Rightarrow> ('z, unit) ego_op" where
  "ensure_dir_exists there create path =
     bind_act (read_st there) (\<lambda>found.
     if found then ret ()
     else bind_act next_fault (\<lambda>f. if f then fail (EE_PathNotExist path) else modify_st create))"

definition with_dir :: "string \<Rightarrow> 'z ego_state_scheme \<Rightarrow> 'z ego_state_scheme" where
  "with_dir agent_id s = s\<lparr>es_root := True, es_dirs := List.insert agent_id (es_dirs s)\<rparr>"

definition ensure_agent_dir :: "string \<Rightarrow> ('z, unit) ego_op" where
  "ensure_agent_dir agent_id =
     bind_act (ensure_dir_exists (\<lambda>s. agent_id \<in> set (es_dirs s)) (with_dir agent_id) agent_id) (\<lambda>_.
     ensure_dir_exists (\<lambda>s. agent_id \<in> set (es_uuids s))
       (\<lambda>s. s\<lparr>es_uuids := List.insert agent_id (es_uuids s)\<rparr>) (''agent-'' @ agent_id))"

definition ensure_agent_ego_dir :: "string \<Rightarrow> ('z, unit) ego_op" where
  "ensure_agent_ego_dir agent_id =
     ensure_dir_exists (\<lambda>s. agent_id \<in> set (es_egos s))
       (\<lambda>s. with_dir agent_id (s\<lparr>es_egos := List.insert agent_id (es_egos s)\<rparr>)) ''memory-ego''"

text \<open>The names of the directories come in any order.\<close>

definition list_agents :: "('z, string list) ego_op" where
  "list_agents =
     bind_act (ensure_dir_exists es_root (\<lambda>s. s\<lparr>es_root := True\<rparr>) ''root'') (\<lambda>_.
     bind_act ego_io (\<lambda>_.
     read_st (\<lambda>s. filter (\<lambda>i. i \<in> set (es_uuids s)) (es_dirs s))))"

section \<open>Objects\<close>

text \<open>How a manager finds and replaces the object of a key in the state.\<close>

record ('z, 'a) place =
  at_get :: "'z ego_state_scheme \<Rightarrow> 'a cell"
  at_put :: "'a cell \<Rightarrow> 'z ego_state_scheme \<Rightarrow> 'z ego_state_scheme"

definition no_cell :: "'a cell" where
  "no_cell = \<lparr>ce_cached = None, ce_file = None\<rparr>"

definition cell_of :: "('k, 'a cell) hmap \<Rightarrow> 'k \<Rightarrow> 'a cell" where
  "cell_of m k = (case hm_get m k of Some c \<Rightarrow> c | None \<Rightarrow> no_cell)"

definition change_cell :: "('z, 'a) place \<Rightarrow> ('a cell \<Rightarrow> 'a cell) \<Rightarrow> ('z, unit) ego_op" where
  "change_cell at f = modify_st (\<lambda>s. at_put at (f (at_get at s)) s)"

text \<open>\<open>read_to_string\<close> and \<open>from_str\<close>.\<close>

definition load_cell :: "('z, 'a) place \<Rightarrow> ('z, unit) ego_op" where
  "load_cell at =
     bind_act ego_io (\<lambda>_.
     bind_act (read_st (\<lambda>s. ce_file (at_get at s))) (\<lambda>file.
       case file of
         None \<Rightarrow> fail EE_Io
       | Some Damaged \<Rightarrow> fail EE_Json
       | Some (Json_File x) \<Rightarrow> change_cell at (\<lambda>c. c\<lparr>ce_cached := Some x\<rparr>)))"

text \<open>\<open>tokio::fs::write\<close> empties the file before it writes.\<close>

definition store_cell :: "('z, 'a) place \<Rightarrow> 'a \<Rightarrow> ('z, unit) ego_op" where
  "store_cell at x =
     bind_act ego_io (\<lambda>_.
     bind_act (change_cell at (\<lambda>c. c\<lparr>ce_file := Some Damaged\<rparr>)) (\<lambda>_.
     bind_act ego_io (\<lambda>_.
     change_cell at (\<lambda>c. c\<lparr>ce_file := Some (Json_File x)\<rparr>))))"

text \<open>
  Reading: \<open>prepare\<close> makes the directories, \<open>missing\<close> is what happens when there is no file.
\<close>

definition read_cell :: "('z, 'a) place \<Rightarrow> ('z, unit) ego_op \<Rightarrow> ('z, unit) ego_op \<Rightarrow> ego_error \<Rightarrow> ('z, 'a) ego_op" where
  "read_cell at prepare missing gone =
     bind_act (read_st (\<lambda>s. ce_cached (at_get at s))) (\<lambda>cached.
       case cached of
         Some x \<Rightarrow> ret x
       | None \<Rightarrow>
           bind_act prepare (\<lambda>_.
           bind_act (read_st (\<lambda>s. ce_file (at_get at s))) (\<lambda>file.
           bind_act (if file = None then missing else ret ()) (\<lambda>_.
           bind_act (load_cell at) (\<lambda>_.
           bind_act (read_st (\<lambda>s. ce_cached (at_get at s))) (\<lambda>cached.
             case cached of Some x \<Rightarrow> ret x | None \<Rightarrow> fail gone))))))"

text \<open>
  Changing: what \<open>op\<close> makes of the object, or of there being none, is in memory before it is
  written; an error of \<open>op\<close> leaves it as it was.
\<close>

definition write_cell :: "('z, 'a) place \<Rightarrow> ('z, unit) ego_op \<Rightarrow> ('a option \<Rightarrow> ego_error + 'a) \<Rightarrow> ('z, unit) ego_op" where
  "write_cell at prepare op =
     bind_act prepare (\<lambda>_.
     bind_act (read_st (at_get at)) (\<lambda>c.
     bind_act (if ce_cached c = None \<and> ce_file c \<noteq> None then load_cell at else ret ()) (\<lambda>_.
     bind_act (read_st (\<lambda>s. ce_cached (at_get at s))) (\<lambda>old.
       case op old of
         Inl e \<Rightarrow> fail e
       | Inr new \<Rightarrow>
           bind_act (change_cell at (\<lambda>c. c\<lparr>ce_cached := Some new\<rparr>)) (\<lambda>_.
           store_cell at new)))))"

end
