(* ===== verification/Ego_Read.thy ===== *)
theory Ego_Read
  imports Ego_Store
begin

text \<open>
  The reading half of the three managers of \<open>kissbot-memory-ego/src\<close>: \<open>AgentManager\<close>,
  \<open>IndividualRecognitionManager\<close> and \<open>RolePlayManager\<close>. The maps of locks are the cells.
\<close>

section \<open>Agents\<close>

definition agent_place :: "string \<Rightarrow> ('z, agent_metadata) place" where
  "agent_place agent_id =
     \<lparr>at_get = (\<lambda>s. cell_of (es_agents s) agent_id),
      at_put = (\<lambda>c s. s\<lparr>es_agents := hm_insert agent_id c (es_agents s)\<rparr>)\<rparr>"

definition read_agent_metadata :: "string \<Rightarrow> ('z, agent_metadata) ego_op" where
  "read_agent_metadata agent_id =
     read_cell (agent_place agent_id) (ensure_agent_dir agent_id) (fail (AgentNotFound agent_id)) (AgentNotFound agent_id)"

definition write_agent_metadata_ref ::
  "string \<Rightarrow> (agent_metadata option \<Rightarrow> ego_error + agent_metadata) \<Rightarrow> ('z, unit) ego_op" where
  "write_agent_metadata_ref agent_id op = write_cell (agent_place agent_id) (ensure_agent_dir agent_id) op"

section \<open>Individuals\<close>

definition individuals_place :: "string \<Rightarrow> ('z, individual_recognition) place" where
  "individuals_place agent_id =
     \<lparr>at_get = (\<lambda>s. cell_of (es_individuals s) agent_id),
      at_put = (\<lambda>c s. s\<lparr>es_individuals := hm_insert agent_id c (es_individuals s)\<rparr>)\<rparr>"

text \<open>Reading makes the file when there is none.\<close>

definition read_individual_recognition :: "string \<Rightarrow> ('z, individual_recognition) ego_op" where
  "read_individual_recognition agent_id =
     read_cell (individuals_place agent_id) (ensure_agent_ego_dir agent_id)
       (store_cell (individuals_place agent_id) \<lparr>ir_agent_id = agent_id, ir_individual_map = []\<rparr>)
       (AgentNotFound agent_id)"

definition write_individual_recognition_ref ::
  "string \<Rightarrow> (individual_recognition option \<Rightarrow> ego_error + individual_recognition) \<Rightarrow> ('z, unit) ego_op" where
  "write_individual_recognition_ref agent_id op =
     write_cell (individuals_place agent_id) (ensure_agent_ego_dir agent_id) op"

definition write_individual_ref :: "string \<Rightarrow> string \<Rightarrow> (individual \<Rightarrow> individual) \<Rightarrow> ('z, unit) ego_op" where
  "write_individual_ref agent_id name op =
     write_individual_recognition_ref agent_id (\<lambda>found.
       case found of
         None \<Rightarrow> Inl (AgentNotFound agent_id)
       | Some r \<Rightarrow>
           (case write_key_value name op (ir_individual_map r) of
              (Some _, m) \<Rightarrow> Inr (r\<lparr>ir_individual_map := m\<rparr>)
            | (None, m) \<Rightarrow> Inl (AgentIndividualNotFound agent_id name)))"

definition individual_of :: "string \<Rightarrow> string \<Rightarrow> ('z, individual) ego_op" where
  "individual_of agent_id name =
     bind_act (read_individual_recognition agent_id) (\<lambda>r.
       case hm_get (ir_individual_map r) name of
         Some i \<Rightarrow> ret i
       | None \<Rightarrow> fail (AgentIndividualNotFound agent_id name))"

section \<open>Roles\<close>

definition role_place :: "string \<Rightarrow> string \<Rightarrow> ('z, role_play) place" where
  "role_place agent_id name =
     \<lparr>at_get = (\<lambda>s. cell_of (es_roles s) (agent_id, name)),
      at_put = (\<lambda>c s. s\<lparr>es_roles := hm_insert (agent_id, name) c (es_roles s)\<rparr>)\<rparr>"

definition read_role_play :: "string \<Rightarrow> string \<Rightarrow> ('z, role_play) ego_op" where
  "read_role_play agent_id name =
     read_cell (role_place agent_id name) (ensure_agent_ego_dir agent_id)
       (fail (AgentRoleNotFound agent_id name)) (AgentRoleNotFound agent_id name)"

definition read_role_play_other_role :: "string \<Rightarrow> string \<Rightarrow> string \<Rightarrow> ('z, other_role) ego_op" where
  "read_role_play_other_role agent_id name other =
     bind_act (read_role_play agent_id name) (\<lambda>r.
       case hm_get (rp_other_roles r) other of
         Some x \<Rightarrow> ret x
       | None \<Rightarrow> fail (AgentRoleNotFound agent_id name))"

definition write_role_play_ref ::
  "string \<Rightarrow> string \<Rightarrow> (role_play option \<Rightarrow> ego_error + role_play) \<Rightarrow> ('z, unit) ego_op" where
  "write_role_play_ref agent_id name op = write_cell (role_place agent_id name) (ensure_agent_ego_dir agent_id) op"

definition write_role_play_other_role_ref ::
  "string \<Rightarrow> string \<Rightarrow> string \<Rightarrow> (other_role \<Rightarrow> other_role) \<Rightarrow> ('z, unit) ego_op" where
  "write_role_play_other_role_ref agent_id name other op =
     write_role_play_ref agent_id name (\<lambda>found.
       case found of
         None \<Rightarrow> Inl (AgentRoleNotFound agent_id name)
       | Some r \<Rightarrow>
           (case write_key_value other op (rp_other_roles r) of
              (Some _, m) \<Rightarrow> Inr (r\<lparr>rp_other_roles := m\<rparr>)
            | (None, m) \<Rightarrow> Inl (AgentRoleOtherRoleNotFound agent_id name other)))"

section \<open>The files of roles\<close>

definition role_play_prefix :: string where
  "role_play_prefix = ''role-play-''"

definition json_suffix :: string where
  "json_suffix = ''.json''"

definition ego_role_play_path :: "string \<Rightarrow> string" where
  "ego_role_play_path name = role_play_prefix @ name @ json_suffix"

definition ego_individual_recognition_path :: string where
  "ego_individual_recognition_path = ''individual-recognition-'' @ json_suffix"

text \<open>The names of the files below the directory of an agent, in any order.\<close>

definition ego_files :: "string \<Rightarrow> 'z ego_state_scheme \<Rightarrow> string list" where
  "ego_files agent_id s =
     (if ce_file (cell_of (es_individuals s) agent_id) = None then [] else [ego_individual_recognition_path]) @
     map (\<lambda>((_, name), _). ego_role_play_path name)
       (filter (\<lambda>((a, _), c). a = agent_id \<and> ce_file c \<noteq> None) (es_roles s))"

definition ends_with :: "string \<Rightarrow> string \<Rightarrow> bool" where
  "ends_with s suffix \<longleftrightarrow> starts_with (rev s) (rev suffix)"

definition role_of_file :: "string \<Rightarrow> string option" where
  "role_of_file file =
     (if starts_with file role_play_prefix \<and> ends_with file json_suffix
      then Some (trim (take (length file - length json_suffix - length role_play_prefix) (drop (length role_play_prefix) file)))
      else None)"

definition list_roles :: "string \<Rightarrow> ('z, string list) ego_op" where
  "list_roles agent_id =
     bind_act (ensure_agent_ego_dir agent_id) (\<lambda>_.
     bind_act ego_io (\<lambda>_.
     read_st (\<lambda>s. List.map_filter role_of_file (ego_files agent_id s))))"

end
