(* ===== verification/Ego_Search.thy ===== *)
theory Ego_Search
  imports Ego_Read
begin

text \<open>
  \<open>kissbot-memory-ego/src/search.rs\<close>: the indexes for the search of agents and roles. Those of the
  library are parameters, operations on states of their own; what was entered for a key is
  remembered, and what was changed is marked dirty and entered anew before the next search.
\<close>

section \<open>Indexes\<close>

text \<open>A full text index has several texts for a key, an index of completions one; \<open>'r\<close> is what comes with a completion.\<close>

record ('k, 'i, 'c, 'r) index_ops =
  ix_insert :: "'k \<Rightarrow> string list \<Rightarrow> 'i \<Rightarrow> 'i"
  ix_remove :: "'k \<Rightarrow> string list \<Rightarrow> 'i \<Rightarrow> 'i"
  ix_find :: "string \<Rightarrow> 'i \<Rightarrow> 'k list"
  ix_empty :: 'i
  cp_insert :: "'k \<Rightarrow> string \<Rightarrow> 'c \<Rightarrow> 'c"
  cp_remove :: "'k \<Rightarrow> string \<Rightarrow> 'c \<Rightarrow> 'c"
  cp_complete :: "string \<Rightarrow> 'c \<Rightarrow> ('k \<times> 'r) list"
  cp_empty :: 'c

record ('i, 'c, 'j, 'd, 'r) search_env =
  se_agents :: "(string, 'i, 'c, 'r) index_ops"
  se_roles :: "(string \<times> string, 'j, 'd, 'r) index_ops"

record ('i, 'c, 'j, 'd) ego_service = ego_state +
  sm_started :: bool
  sm_index :: 'i
  sm_completion :: 'c
  sm_metadata :: "(string, string list) hmap"
  sm_role_index :: 'j
  sm_role_completion :: 'd
  sm_role_metadata :: "(string \<times> string, string list) hmap"

type_synonym ('i, 'c, 'j, 'd, 'a) service_op = "(('i, 'c, 'j, 'd) ego_service, ego_error, 'a) action"

text \<open>\<open>if let Ok(x) = ...\<close>.\<close>

definition if_ok :: "('s, 'e, 'a) action \<Rightarrow> ('s, 'e, 'a option) action" where
  "if_ok m s = (case m s of (Inl e, s') \<Rightarrow> (Inr None, s') | (Inr x, s') \<Rightarrow> (Inr (Some x), s'))"

section \<open>Agents\<close>

definition search_metadata :: "agent_metadata \<Rightarrow> string list" where
  "search_metadata m = [am_agent_id m, am_description m]"

definition force_sync_identity ::
  "('i, 'c, 'j, 'd, 'r) search_env \<Rightarrow> string \<Rightarrow> ('i, 'c, 'j, 'd, unit) service_op" where
  "force_sync_identity env agent_id =
     (let ops = se_agents env in
      bind_act (read_st (\<lambda>s. hm_get (sm_metadata s) agent_id)) (\<lambda>old.
      bind_act (modify_st (\<lambda>s. s\<lparr>sm_metadata := hm_remove agent_id (sm_metadata s)\<rparr>)) (\<lambda>_.
      bind_act (if_ok (read_agent_metadata agent_id)) (\<lambda>found.
        case found of
          Some m \<Rightarrow>
            let new = search_metadata m in
            bind_act (if old = Some new then ret ()
                      else modify_st (\<lambda>s. s\<lparr>sm_index := ix_insert ops agent_id new
                        (case old of Some d \<Rightarrow> ix_remove ops agent_id d (sm_index s) | None \<Rightarrow> sm_index s)\<rparr>)) (\<lambda>_.
            bind_act (if old = None
                      then modify_st (\<lambda>s. s\<lparr>sm_completion := cp_insert ops agent_id (am_agent_id m) (sm_completion s)\<rparr>)
                      else ret ()) (\<lambda>_.
            modify_st (\<lambda>s. s\<lparr>sm_metadata := hm_insert agent_id new (sm_metadata s)\<rparr>)))
        | None \<Rightarrow>
            (case old of
               None \<Rightarrow> ret ()
             | Some d \<Rightarrow> modify_st (\<lambda>s. s\<lparr>sm_index := ix_remove ops agent_id d (sm_index s),
                   sm_completion := cp_remove ops agent_id (d ! 0) (sm_completion s)\<rparr>))))))"

definition sync_identity :: "('i, 'c, 'j, 'd, 'r) search_env \<Rightarrow> string \<Rightarrow> ('i, 'c, 'j, 'd, unit) service_op" where
  "sync_identity env agent_id =
     bind_act (read_st (\<lambda>s. agent_id \<in> set (es_identity_dirty s))) (\<lambda>dirty.
     bind_act (modify_st (\<lambda>s. s\<lparr>es_identity_dirty := removeAll agent_id (es_identity_dirty s)\<rparr>)) (\<lambda>_.
     if dirty then force_sync_identity env agent_id else ret ()))"

text \<open>The loop of \<open>sync_all_...\<close>, with as many rounds as are allowed; it has not ended when they are used up.\<close>

primrec while_dirty :: "nat \<Rightarrow> ('s \<Rightarrow> 'k list) \<Rightarrow> ('k \<Rightarrow> ('s, 'e, unit) action) \<Rightarrow> ('s, 'e, bool) action" where
  "while_dirty 0 dirty sync = ret False"
| "while_dirty (Suc n) dirty sync =
     bind_act (read_st dirty) (\<lambda>ks.
     if ks = [] then ret True
     else bind_act (for_each ks sync) (\<lambda>_. while_dirty n dirty sync))"

definition sync_all_identity :: "('i, 'c, 'j, 'd, 'r) search_env \<Rightarrow> ('i, 'c, 'j, 'd, bool) service_op" where
  "sync_all_identity env = while_dirty 2 es_identity_dirty (sync_identity env)"

text \<open>Those that can be read.\<close>

primrec retrieve_all :: "('k \<Rightarrow> ('s, 'e, 'a) action) \<Rightarrow> 'k list \<Rightarrow> ('s, 'e, 'a list) action" where
  "retrieve_all get [] = ret []"
| "retrieve_all get (k # ks) =
     bind_act (if_ok (get k)) (\<lambda>found.
     bind_act (retrieve_all get ks) (\<lambda>xs.
     ret (case found of Some x \<Rightarrow> x # xs | None \<Rightarrow> xs)))"

definition retrieve_agents :: "string list \<Rightarrow> ('z, agent_metadata list) ego_op" where
  "retrieve_agents ids = retrieve_all read_agent_metadata ids"

definition mark_identity_dirty :: "string \<Rightarrow> ('z, unit) ego_op" where
  "mark_identity_dirty agent_id =
     modify_st (\<lambda>s. s\<lparr>es_identity_dirty := List.insert agent_id (es_identity_dirty s)\<rparr>)"

definition search_by_description ::
  "('i, 'c, 'j, 'd, 'r) search_env \<Rightarrow> string \<Rightarrow> ('i, 'c, 'j, 'd, string list) service_op" where
  "search_by_description env query =
     bind_act (sync_all_identity env) (\<lambda>_. read_st (\<lambda>s. ix_find (se_agents env) query (sm_index s)))"

definition name_completion ::
  "('i, 'c, 'j, 'd, 'r) search_env \<Rightarrow> string \<Rightarrow> ('i, 'c, 'j, 'd, (string \<times> 'r) list) service_op" where
  "name_completion env query =
     bind_act (sync_all_identity env) (\<lambda>_. read_st (\<lambda>s. cp_complete (se_agents env) query (sm_completion s)))"

section \<open>Roles\<close>

definition role_search_metadata :: "role \<Rightarrow> string list" where
  "role_search_metadata r = [ro_role_name r, ro_full_name r, ro_description r]"

definition force_sync_role ::
  "('i, 'c, 'j, 'd, 'r) search_env \<Rightarrow> string \<times> string \<Rightarrow> ('i, 'c, 'j, 'd, unit) service_op" where
  "force_sync_role env key =
     (let ops = se_roles env in
      bind_act (read_st (\<lambda>s. hm_get (sm_role_metadata s) key)) (\<lambda>old.
      bind_act (modify_st (\<lambda>s. s\<lparr>sm_role_metadata := hm_remove key (sm_role_metadata s)\<rparr>)) (\<lambda>_.
      bind_act (if_ok (read_role_play (fst key) (snd key))) (\<lambda>found.
        case found of
          Some play \<Rightarrow>
            let r = rp_role play;
                new = role_search_metadata r;
                name_obsolete = (case old of Some d \<Rightarrow> d ! 0 \<noteq> ro_role_name r | None \<Rightarrow> True);
                full_name_obsolete = (case old of Some d \<Rightarrow> d ! 1 \<noteq> ro_full_name r | None \<Rightarrow> True);
                descr_obsolete = (case old of Some d \<Rightarrow> d ! 2 \<noteq> ro_description r | None \<Rightarrow> True)
            in
            bind_act (if name_obsolete
                      then modify_st (\<lambda>s. s\<lparr>sm_role_completion := cp_insert ops key (ro_role_name r)
                        (case old of Some d \<Rightarrow> cp_remove ops key (d ! 0) (sm_role_completion s) | None \<Rightarrow> sm_role_completion s)\<rparr>)
                      else ret ()) (\<lambda>_.
            bind_act (if name_obsolete \<or> full_name_obsolete \<or> descr_obsolete
                      then modify_st (\<lambda>s. s\<lparr>sm_role_index := ix_insert ops key new
                        (case old of Some d \<Rightarrow> ix_remove ops key d (sm_role_index s) | None \<Rightarrow> sm_role_index s)\<rparr>)
                      else ret ()) (\<lambda>_.
            modify_st (\<lambda>s. s\<lparr>sm_role_metadata := hm_insert key new (sm_role_metadata s)\<rparr>)))
        | None \<Rightarrow>
            (case old of
               None \<Rightarrow> ret ()
             | Some d \<Rightarrow> modify_st (\<lambda>s. s\<lparr>sm_role_completion := cp_remove ops key (d ! 0) (sm_role_completion s),
                   sm_role_index := ix_remove ops key d (sm_role_index s)\<rparr>))))))"

definition sync_role :: "('i, 'c, 'j, 'd, 'r) search_env \<Rightarrow> string \<times> string \<Rightarrow> ('i, 'c, 'j, 'd, unit) service_op" where
  "sync_role env key =
     bind_act (read_st (\<lambda>s. key \<in> set (es_role_dirty s))) (\<lambda>dirty.
     bind_act (modify_st (\<lambda>s. s\<lparr>es_role_dirty := removeAll key (es_role_dirty s)\<rparr>)) (\<lambda>_.
     if dirty then force_sync_role env key else ret ()))"

definition sync_all_roles :: "('i, 'c, 'j, 'd, 'r) search_env \<Rightarrow> ('i, 'c, 'j, 'd, bool) service_op" where
  "sync_all_roles env = while_dirty 2 es_role_dirty (sync_role env)"

definition retrieve_roles :: "(string \<times> string) list \<Rightarrow> ('z, role list) ego_op" where
  "retrieve_roles keys = bind_act (retrieve_all (\<lambda>(a, name). read_role_play a name) keys) (\<lambda>plays. ret (map rp_role plays))"

definition mark_played_role_dirty :: "string \<Rightarrow> string \<Rightarrow> ('z, unit) ego_op" where
  "mark_played_role_dirty agent_id name =
     modify_st (\<lambda>s. s\<lparr>es_role_dirty := List.insert (agent_id, name) (es_role_dirty s)\<rparr>)"

definition filter_results :: "('r \<Rightarrow> string \<times> string) \<Rightarrow> string option \<Rightarrow> 'r list \<Rightarrow> 'r list" where
  "filter_results key agent_id rs = (case agent_id of Some a \<Rightarrow> filter (\<lambda>r. fst (key r) = a) rs | None \<Rightarrow> rs)"

definition search_role_by_description ::
  "('i, 'c, 'j, 'd, 'r) search_env \<Rightarrow> string \<Rightarrow> string option \<Rightarrow> ('i, 'c, 'j, 'd, (string \<times> string) list) service_op" where
  "search_role_by_description env query agent_id =
     bind_act (sync_all_roles env) (\<lambda>_.
     read_st (\<lambda>s. filter_results id agent_id (ix_find (se_roles env) query (sm_role_index s))))"

definition role_name_completion ::
  "('i, 'c, 'j, 'd, 'r) search_env \<Rightarrow> string \<Rightarrow> string option \<Rightarrow>
   ('i, 'c, 'j, 'd, ((string \<times> string) \<times> 'r) list) service_op" where
  "role_name_completion env query agent_id =
     bind_act (sync_all_roles env) (\<lambda>_.
     read_st (\<lambda>s. filter_results fst agent_id (cp_complete (se_roles env) query (sm_role_completion s))))"

section \<open>The first use\<close>

text \<open>\<open>SearchManager::get\<close>: the first call enters all that is found on the disk.\<close>

definition search_manager :: "('i, 'c, 'j, 'd, 'r) search_env \<Rightarrow> ('i, 'c, 'j, 'd, unit) service_op" where
  "search_manager env =
     bind_act (read_st sm_started) (\<lambda>started.
     if started then ret ()
     else
       bind_act (if_ok list_agents) (\<lambda>agents.
       bind_act (for_each (case agents of Some as \<Rightarrow> as | None \<Rightarrow> []) (\<lambda>agent_id.
         bind_act (force_sync_identity env agent_id) (\<lambda>_.
         bind_act (if_ok (list_roles agent_id)) (\<lambda>names.
         for_each (case names of Some ns \<Rightarrow> ns | None \<Rightarrow> []) (\<lambda>name. force_sync_role env (agent_id, name)))))) (\<lambda>_.
       modify_st (\<lambda>s. s\<lparr>sm_started := True\<rparr>))))"

end
