(* ===== verification/Ego_Change.thy ===== *)
theory Ego_Change
  imports Ego_Search
begin

text \<open>
  The changing half of the three managers of \<open>kissbot-memory-ego/src\<close>: what their operations make
  of an object, each as a function on the object, and the operations themselves.
\<close>

section \<open>Agents\<close>

definition create_agent ::
  "('i, 'c, 'j, 'd, 'r) search_env \<Rightarrow> string \<Rightarrow> string \<Rightarrow> ('i, 'c, 'j, 'd, string) service_op" where
  "create_agent env agent_id description =
     bind_act (validate_code agent_id) (\<lambda>_.
     bind_act (ensure_agent_dir agent_id) (\<lambda>_.
     bind_act (read_st (\<lambda>s. ce_file (cell_of (es_agents s) agent_id))) (\<lambda>file.
     if file \<noteq> None then fail (AgentAlreadyExists agent_id)
     else
       bind_act (write_agent_metadata_ref agent_id
         (\<lambda>_. Inr \<lparr>am_agent_id = agent_id, am_description = description\<rparr>)) (\<lambda>_.
       bind_act (search_manager env) (\<lambda>_.
       bind_act (mark_identity_dirty agent_id) (\<lambda>_.
       ret agent_id))))))"

definition copy_agent ::
  "('i, 'c, 'j, 'd, 'r) search_env \<Rightarrow> string \<Rightarrow> string \<Rightarrow> ('i, 'c, 'j, 'd, string) service_op" where
  "copy_agent env agent_id new_agent_id =
     bind_act (read_agent_metadata agent_id) (\<lambda>m. create_agent env new_agent_id (am_description m))"

definition change_agent_description ::
  "string \<Rightarrow> string \<Rightarrow> agent_metadata option \<Rightarrow> ego_error + agent_metadata" where
  "change_agent_description agent_id description found =
     (case found of
        Some m \<Rightarrow> Inr (if description \<noteq> am_description m then m\<lparr>am_description := description\<rparr> else m)
      | None \<Rightarrow> Inl (AgentNotFound agent_id))"

definition update_agent_description ::
  "('i, 'c, 'j, 'd, 'r) search_env \<Rightarrow> string \<Rightarrow> string \<Rightarrow> ('i, 'c, 'j, 'd, unit) service_op" where
  "update_agent_description env agent_id description =
     bind_act (write_agent_metadata_ref agent_id (change_agent_description agent_id description)) (\<lambda>_.
     bind_act (search_manager env) (\<lambda>_.
     mark_identity_dirty agent_id))"

section \<open>Maps\<close>

text \<open>Entries are removed first, then inserted.\<close>

definition replace_entries :: "'k list \<Rightarrow> ('k \<times> 'v) list \<Rightarrow> ('k, 'v) hmap \<Rightarrow> ('k, 'v) hmap" where
  "replace_entries removed inserted m = fold (\<lambda>(k, v). hm_insert k v) inserted (fold hm_remove removed m)"

definition validate_codes :: "string list \<Rightarrow> ('s, ego_error, unit) action" where
  "validate_codes codes = for_each codes validate_code"

section \<open>Individuals\<close>

definition replace_individuals :: "string \<Rightarrow> string list \<Rightarrow> (string \<times> individual) list \<Rightarrow> ('z, unit) ego_op" where
  "replace_individuals agent_id removed inserted =
     bind_act (validate_codes (map fst inserted)) (\<lambda>_.
     write_individual_recognition_ref agent_id (\<lambda>found.
       case found of
         Some r \<Rightarrow> Inr (r\<lparr>ir_individual_map := replace_entries removed inserted (ir_individual_map r)\<rparr>)
       | None \<Rightarrow> Inl (AgentNotFound agent_id)))"

definition change_individual_name ::
  "string \<Rightarrow> string \<Rightarrow> string \<Rightarrow> individual_recognition option \<Rightarrow> ego_error + individual_recognition" where
  "change_individual_name agent_id name new found =
     (case found of
        Some r \<Rightarrow>
          (let m = ir_individual_map r
           in if hm_get m new \<noteq> None then Inl (AgentIndividualAlreadyExists agent_id new)
              else case hm_get m name of
                Some i \<Rightarrow> Inr (r\<lparr>ir_individual_map := hm_insert new i (hm_remove name m)\<rparr>)
              | None \<Rightarrow> Inl (AgentIndividualNotFound agent_id name))
      | None \<Rightarrow> Inl (AgentNotFound agent_id))"

definition rename_individual :: "string \<Rightarrow> string \<Rightarrow> string \<Rightarrow> ('z, unit) ego_op" where
  "rename_individual agent_id name new =
     bind_act (validate_code new) (\<lambda>_.
     write_individual_recognition_ref agent_id (change_individual_name agent_id name new))"

definition replace_individual_identifiers ::
  "string \<Rightarrow> string \<Rightarrow> channel_user list \<Rightarrow> channel_user list \<Rightarrow> ('z, unit) ego_op" where
  "replace_individual_identifiers agent_id name removed inserted =
     write_individual_ref agent_id name (\<lambda>i.
       i\<lparr>in_identifiers := fold List.insert inserted (fold removeAll removed (in_identifiers i))\<rparr>)"

definition replace_individual_other_relations ::
  "string \<Rightarrow> string \<Rightarrow> string list \<Rightarrow> (string \<times> individual_relation) list \<Rightarrow> ('z, unit) ego_op" where
  "replace_individual_other_relations agent_id name removed inserted =
     bind_act (validate_codes (map fst inserted)) (\<lambda>_.
     write_individual_ref agent_id name (\<lambda>i.
       i\<lparr>in_other_relations := replace_entries removed inserted (in_other_relations i)\<rparr>))"

section \<open>Roles\<close>

definition new_role_play :: "string \<Rightarrow> string \<Rightarrow> string \<Rightarrow> role_play option \<Rightarrow> ego_error + role_play" where
  "new_role_play agent_id name description found =
     (case found of
        Some _ \<Rightarrow> Inl (AgentRoleAlreadyExists agent_id name)
      | None \<Rightarrow> Inr \<lparr>rp_role = \<lparr>ro_agent_id = agent_id, ro_role_name = name, ro_full_name = [], ro_description = description\<rparr>,
          rp_other_roles = []\<rparr>)"

definition create_role ::
  "('i, 'c, 'j, 'd, 'r) search_env \<Rightarrow> string \<Rightarrow> string \<Rightarrow> string \<Rightarrow> ('i, 'c, 'j, 'd, unit) service_op" where
  "create_role env agent_id name description =
     bind_act (validate_code name) (\<lambda>_.
     bind_act (write_role_play_ref agent_id name (new_role_play agent_id name description)) (\<lambda>_.
     bind_act (search_manager env) (\<lambda>_.
     mark_played_role_dirty agent_id name)))"

definition create_role_from ::
  "('i, 'c, 'j, 'd, 'r) search_env \<Rightarrow> string \<Rightarrow> string \<Rightarrow> string \<Rightarrow> ('i, 'c, 'j, 'd, unit) service_op" where
  "create_role_from env agent_id name new =
     bind_act (validate_code new) (\<lambda>_.
     bind_act (read_role_play agent_id name) (\<lambda>play.
     bind_act (create_role env agent_id new (ro_description (rp_role play))) (\<lambda>_.
     bind_act (search_manager env) (\<lambda>_.
     mark_played_role_dirty agent_id new))))"

definition change_role :: "string \<Rightarrow> string \<Rightarrow> (role \<Rightarrow> role) \<Rightarrow> role_play option \<Rightarrow> ego_error + role_play" where
  "change_role agent_id name f found =
     (case found of
        Some play \<Rightarrow> Inr (play\<lparr>rp_role := f (rp_role play)\<rparr>)
      | None \<Rightarrow> Inl (AgentRoleNotFound agent_id name))"

definition update_role_description ::
  "('i, 'c, 'j, 'd, 'r) search_env \<Rightarrow> string \<Rightarrow> string \<Rightarrow> string \<Rightarrow> ('i, 'c, 'j, 'd, unit) service_op" where
  "update_role_description env agent_id name description =
     bind_act (write_role_play_ref agent_id name
       (change_role agent_id name (\<lambda>r. r\<lparr>ro_description := description\<rparr>))) (\<lambda>_.
     bind_act (search_manager env) (\<lambda>_.
     mark_played_role_dirty agent_id name))"

definition update_role_full_name ::
  "('i, 'c, 'j, 'd, 'r) search_env \<Rightarrow> string \<Rightarrow> string \<Rightarrow> string \<Rightarrow> ('i, 'c, 'j, 'd, unit) service_op" where
  "update_role_full_name env agent_id name full_name =
     bind_act (write_role_play_ref agent_id name
       (change_role agent_id name (\<lambda>r. r\<lparr>ro_full_name := full_name\<rparr>))) (\<lambda>_.
     bind_act (search_manager env) (\<lambda>_.
     mark_played_role_dirty agent_id name))"

section \<open>What a role knows of others\<close>

definition replace_other_roles ::
  "string \<Rightarrow> string \<Rightarrow> string list \<Rightarrow> (string \<times> other_role) list \<Rightarrow> ('z, unit) ego_op" where
  "replace_other_roles agent_id name removed inserted =
     bind_act (validate_codes (map fst inserted)) (\<lambda>_.
     write_role_play_ref agent_id name (\<lambda>found.
       case found of
         Some play \<Rightarrow> Inr (play\<lparr>rp_other_roles := replace_entries removed inserted (rp_other_roles play)\<rparr>)
       | None \<Rightarrow> Inl (AgentRoleNotFound agent_id name)))"

definition change_other_role_name ::
  "string \<Rightarrow> string \<Rightarrow> string \<Rightarrow> string \<Rightarrow> role_play option \<Rightarrow> ego_error + role_play" where
  "change_other_role_name agent_id name other new found =
     (case found of
        Some play \<Rightarrow>
          (let m = rp_other_roles play
           in if hm_get m new \<noteq> None then Inl (AgentRoleOtherRoleAlreadyExists agent_id name new)
              else case hm_get m other of
                Some x \<Rightarrow> Inr (play\<lparr>rp_other_roles := hm_insert new x (hm_remove other m)\<rparr>)
              | None \<Rightarrow> Inl (AgentRoleOtherRoleNotFound agent_id name other))
      | None \<Rightarrow> Inl (AgentRoleNotFound agent_id name))"

definition rename_other_role :: "string \<Rightarrow> string \<Rightarrow> string \<Rightarrow> string \<Rightarrow> ('z, unit) ego_op" where
  "rename_other_role agent_id name other new =
     bind_act (validate_code new) (\<lambda>_.
     write_role_play_ref agent_id name (change_other_role_name agent_id name other new))"

text \<open>The entry is taken out and put back changed.\<close>

definition change_other_role ::
  "string \<Rightarrow> string \<Rightarrow> string \<Rightarrow> (other_role \<Rightarrow> other_role) \<Rightarrow> role_play option \<Rightarrow> ego_error + role_play" where
  "change_other_role agent_id name other f found =
     (case found of
        Some play \<Rightarrow>
          (case hm_get (rp_other_roles play) other of
             Some old \<Rightarrow> Inr (play\<lparr>rp_other_roles := hm_insert other (f old) (hm_remove other (rp_other_roles play))\<rparr>)
           | None \<Rightarrow> Inl (AgentRoleOtherRoleNotFound agent_id name other))
      | None \<Rightarrow> Inl (AgentRoleNotFound agent_id name))"

definition update_other_role_individual_name ::
  "string \<Rightarrow> string \<Rightarrow> string \<Rightarrow> string \<Rightarrow> ('z, unit) ego_op" where
  "update_other_role_individual_name agent_id name other new =
     bind_act (validate_code new) (\<lambda>_.
     write_role_play_ref agent_id name (change_other_role agent_id name other (\<lambda>x. x\<lparr>ot_individual_name := new\<rparr>)))"

definition update_other_role_description ::
  "string \<Rightarrow> string \<Rightarrow> string \<Rightarrow> string \<Rightarrow> ('z, unit) ego_op" where
  "update_other_role_description agent_id name other new =
     write_role_play_ref agent_id name (change_other_role agent_id name other (\<lambda>x. x\<lparr>ot_description := new\<rparr>))"

definition update_other_role_relation ::
  "string \<Rightarrow> string \<Rightarrow> string \<Rightarrow> role_relation \<Rightarrow> ('z, unit) ego_op" where
  "update_other_role_relation agent_id name other new =
     write_role_play_ref agent_id name (change_other_role agent_id name other (\<lambda>x. x\<lparr>ot_role_relation := new\<rparr>))"

definition replace_other_role_relations ::
  "string \<Rightarrow> string \<Rightarrow> string \<Rightarrow> string list \<Rightarrow> (string \<times> role_relation) list \<Rightarrow> ('z, unit) ego_op" where
  "replace_other_role_relations agent_id name other removed inserted =
     bind_act (validate_codes (map fst inserted)) (\<lambda>_.
     write_role_play_other_role_ref agent_id name other (\<lambda>x.
       x\<lparr>ot_other_role_relations := replace_entries removed inserted (ot_other_role_relations x)\<rparr>))"

end
