(* ===== verification/Ego_Spec.thy ===== *)
theory Ego_Spec
  imports Ego_Change
begin

text \<open>
  What the service promises: without faults of the file system it is a map of agents, of what they
  know of individuals, and of roles, and every request is a short operation on these maps. The
  locale \<open>held_object\<close> says what a manager relies on; it is interpreted for the three managers.
\<close>

section \<open>The maps\<close>

record ego_view =
  vw_agents :: "string \<Rightarrow> agent_metadata option"
  vw_individuals :: "string \<Rightarrow> individual_recognition option"
  vw_roles :: "string \<times> string \<Rightarrow> role_play option"

type_synonym 'a view_op = "(ego_view, ego_error, 'a) action"

definition cell_view :: "'a cell \<Rightarrow> 'a option" where
  "cell_view c =
     (case ce_cached c of
        Some x \<Rightarrow> Some x
      | None \<Rightarrow> (case ce_file c of Some (Json_File x) \<Rightarrow> Some x | _ \<Rightarrow> None))"

definition view :: "'z ego_state_scheme \<Rightarrow> ego_view" where
  "view s = \<lparr>vw_agents = cell_view \<circ> cell_of (es_agents s), vw_individuals = cell_view \<circ> cell_of (es_individuals s),
     vw_roles = cell_view \<circ> cell_of (es_roles s)\<rparr>"

text \<open>No step will fail, and what is in memory is what is in the file.\<close>

definition cell_ok :: "'a cell \<Rightarrow> bool" where
  "cell_ok c \<longleftrightarrow> ce_file c \<noteq> Some Damaged \<and> (\<forall>x. ce_cached c = Some x \<longrightarrow> ce_file c = Some (Json_File x))"

definition ego_calm :: "'z ego_state_scheme \<Rightarrow> bool" where
  "ego_calm s \<longleftrightarrow> True \<notin> set (es_faults s) \<and> (\<forall>k. cell_ok (cell_of (es_agents s) k)) \<and>
     (\<forall>k. cell_ok (cell_of (es_individuals s) k)) \<and> (\<forall>k. cell_ok (cell_of (es_roles s) k))"

section \<open>Simulation\<close>

definition refines :: "('z, 'a) ego_op \<Rightarrow> 'a view_op \<Rightarrow> bool" where
  "refines m n \<longleftrightarrow> (\<forall>s q s'. ego_calm s \<longrightarrow> m s = (q, s') \<longrightarrow> n (view s) = (q, view s') \<and> ego_calm s')"

named_theorems refines_intros \<open>operations that follow an operation on the maps\<close>

lemma refinesI: "(\<And>s q s'. ego_calm s \<Longrightarrow> m s = (q, s') \<Longrightarrow> n (view s) = (q, view s') \<and> ego_calm s') \<Longrightarrow> refines m n"
  by (simp add: refines_def)

lemma refinesD: "refines m n \<Longrightarrow> ego_calm s \<Longrightarrow> m s = (q, s') \<Longrightarrow> n (view s) = (q, view s') \<and> ego_calm s'"
  by (simp add: refines_def)

lemma refines_ret [refines_intros]: "refines (ret x) (ret x)"
  by (simp add: refines_def ret_def)

lemma refines_fail [refines_intros]: "refines (fail e) (fail e)"
  by (simp add: refines_def fail_def)

lemma refines_bind [refines_intros]:
  assumes "refines m n" and "\<And>x. refines (f x) (g x)"
  shows "refines (bind_act m f) (bind_act n g)"
proof (rule refinesI)
  fix s q s' assume calm: "ego_calm s" and run: "bind_act m f s = (q, s')"
  obtain r s1 where m: "m s = (r, s1)" by force
  from refinesD [OF assms(1) calm m] have n: "n (view s) = (r, view s1)" and calm1: "ego_calm s1" by simp_all
  show "bind_act n g (view s) = (q, view s') \<and> ego_calm s'"
  proof (cases r)
    case (Inl e)
    with run m n calm1 show ?thesis by (simp add: bind_act_def)
  next
    case (Inr x)
    with run m have "f x s1 = (q, s')" by (simp add: bind_act_def)
    from refinesD [OF assms(2) calm1 this] Inr n show ?thesis by (simp add: bind_act_def)
  qed
qed

text \<open>A step that the maps do not show.\<close>

lemma refines_skip [refines_intros]:
  assumes "refines m (ret x)" and "refines (f x) n"
  shows "refines (bind_act m f) n"
proof (rule refinesI)
  fix s q s' assume calm: "ego_calm s" and run: "bind_act m f s = (q, s')"
  obtain r s1 where m: "m s = (r, s1)" by force
  from refinesD [OF assms(1) calm m] have "r = Inr x" "view s1 = view s" "ego_calm s1" by auto
  with run m refinesD [OF assms(2), of s1 q s'] show "n (view s) = (q, view s') \<and> ego_calm s'" by (simp add: bind_act_def)
qed

lemma refines_modify: "(\<And>s. view (f s) = view s \<and> (ego_calm s \<longrightarrow> ego_calm (f s))) \<Longrightarrow> refines (modify_st f) (ret ())"
  by (simp add: refines_def modify_st_def ret_def)

lemma refines_read: "(\<And>x. refines (f x) n) \<Longrightarrow> refines (bind_act (read_st g) f) n"
  by (simp add: refines_def bind_read)

lemma refines_if [refines_intros]:
  "(b \<Longrightarrow> refines m n) \<Longrightarrow> (\<not> b \<Longrightarrow> refines m' n) \<Longrightarrow> refines (if b then m else m') n"
  by simp

lemma refines_option [refines_intros]:
  "(x = None \<Longrightarrow> refines m n) \<Longrightarrow> (\<And>y. x = Some y \<Longrightarrow> refines (f y) n) \<Longrightarrow> refines (case x of None \<Rightarrow> m | Some y \<Rightarrow> f y) n"
  by (cases x) simp_all

lemma refines_each [refines_intros]: "(\<And>x. refines (f x) (ret ())) \<Longrightarrow> refines (for_each xs f) (ret ())"
  by (induction xs) (auto intro: refines_intros)

text \<open>An operation whose result does not matter.\<close>

definition unseen :: "('z, 'a) ego_op \<Rightarrow> bool" where
  "unseen m \<longleftrightarrow> (\<forall>s q s'. ego_calm s \<longrightarrow> m s = (q, s') \<longrightarrow> view s' = view s \<and> ego_calm s')"

lemma refines_if_ok:
  assumes "unseen m" and "\<And>x. refines (f x) n"
  shows "refines (bind_act (if_ok m) f) n"
proof (rule refinesI)
  fix s q s' assume calm: "ego_calm s" and run: "bind_act (if_ok m) f s = (q, s')"
  obtain r s1 where m: "m s = (r, s1)" by force
  with assms(1) calm have s1: "view s1 = view s" "ego_calm s1" unfolding unseen_def by blast+
  from run m obtain x where "f x s1 = (q, s')" by (cases r) (auto simp: bind_act_def if_ok_def)
  with refinesD [OF assms(2) s1(2)] s1(1) show "n (view s) = (q, view s') \<and> ego_calm s'" by metis
qed

lemma unseen_skip:
  assumes "refines m (ret x)" and "unseen (f x)"
  shows "unseen (bind_act m f)"
  unfolding unseen_def
proof (intro allI impI)
  fix s q s' assume calm: "ego_calm s" and run: "bind_act m f s = (q, s')"
  obtain r s1 where m: "m s = (r, s1)" by force
  from refinesD [OF assms(1) calm m] have "r = Inr x" "view s1 = view s" "ego_calm s1" by auto
  with run m assms(2) show "view s' = view s \<and> ego_calm s'" by (auto simp: bind_act_def unseen_def)
qed

lemma unseen_read_st: "unseen (read_st g)"
  by (simp add: unseen_def read_st_def)

lemma unseen_refines: "refines m n \<Longrightarrow> (\<And>v. snd (n v) = v) \<Longrightarrow> unseen m"
  unfolding refines_def unseen_def by (metis snd_conv)

section \<open>Files and directories\<close>

lemma calm_fault: "ego_calm s \<Longrightarrow> next_fault s = (Inr False, s\<lparr>es_faults := drop 1 (es_faults s)\<rparr>)"
  by (auto simp: next_fault_def ego_calm_def split: list.splits)

lemma calm_faults: "ego_calm s \<Longrightarrow> True \<notin> set (es_faults s)"
  by (simp add: ego_calm_def)

lemma calm_drop: "ego_calm s \<Longrightarrow> set fs \<subseteq> set (es_faults s) \<Longrightarrow> ego_calm (s\<lparr>es_faults := fs\<rparr>)"
  by (auto simp: ego_calm_def)

lemma io_run: "True \<notin> set (es_faults s) \<Longrightarrow> ego_io s = (Inr (), s\<lparr>es_faults := drop 1 (es_faults s)\<rparr>)"
  by (cases "es_faults s") (simp_all add: ego_io_def next_fault_def bind_act_def ret_def)

lemma view_faults [simp]: "view (s\<lparr>es_faults := fs\<rparr>) = view s"
  by (simp add: view_def)

lemma refines_io [refines_intros]: "refines ego_io (ret ())"
  by (rule refinesI) (simp add: io_run calm_faults calm_drop set_drop_subset)

lemma refines_ensure:
  assumes "\<And>s. view (f s) = view s" and "\<And>s. ego_calm s \<Longrightarrow> ego_calm (f s)"
  shows "refines (ensure_dir_exists there f path) (ret ())"
  unfolding ensure_dir_exists_def
proof (rule refines_read, rule refines_if)
  show "refines (bind_act next_fault (\<lambda>b. if b then fail (EE_PathNotExist path) else modify_st f)) (ret ())"
    by (rule refinesI) (auto simp: bind_act_def calm_fault ret_def modify_st_def assms calm_drop set_drop_subset)
qed (rule refines_intros)

lemma refines_dirs [refines_intros]:
  "refines (ensure_agent_dir agent_id) (ret ())" "refines (ensure_agent_ego_dir agent_id) (ret ())"
  unfolding ensure_agent_dir_def ensure_agent_ego_dir_def with_dir_def
  by (intro refines_intros refines_ensure; simp add: view_def ego_calm_def)+

lemma unseen_list: "unseen list_agents" "unseen (list_roles agent_id)"
proof -
  have "refines (ensure_dir_exists es_root (\<lambda>s. s\<lparr>es_root := True\<rparr>) ''root'') (ret ())"
    by (rule refines_ensure) (simp_all add: view_def ego_calm_def)
  then show "unseen list_agents"
    unfolding list_agents_def by (rule unseen_skip [OF _ unseen_skip [OF refines_io unseen_read_st]])
  show "unseen (list_roles agent_id)"
    unfolding list_roles_def by (rule unseen_skip [OF refines_dirs(2) unseen_skip [OF refines_io unseen_read_st]])
qed

section \<open>Objects\<close>

lemma cell_ok_file: "cell_ok c \<Longrightarrow> ce_file c = map_option Json_File (cell_view c)"
  by (cases "ce_file c") (auto simp: cell_ok_def cell_view_def split: option.splits json_file.splits)

definition get_entry :: "(ego_view \<Rightarrow> 'a option) \<Rightarrow> ego_error \<Rightarrow> 'a view_op" where
  "get_entry get gone v = (case get v of Some x \<Rightarrow> (Inr x, v) | None \<Rightarrow> (Inl gone, v))"

definition change_entry ::
  "(ego_view \<Rightarrow> 'a option) \<Rightarrow> ('a \<Rightarrow> ego_view \<Rightarrow> ego_view) \<Rightarrow> ('a option \<Rightarrow> ego_error + 'a) \<Rightarrow> unit view_op" where
  "change_entry get put op v = (case op (get v) of Inl e \<Rightarrow> (Inl e, v) | Inr x \<Rightarrow> (Inr (), put x v))"

text \<open>What the service relies on for the object at a place, \<open>get\<close> and \<open>put\<close> being its entry in the maps.\<close>

locale held_object =
  fixes at :: "('z, 'a) place" and get :: "ego_view \<Rightarrow> 'a option" and put :: "'a \<Rightarrow> ego_view \<Rightarrow> ego_view"
  assumes get_put: "at_get at (at_put at c s) = c"
    and put_put: "at_put at c (at_put at d s) = at_put at c s"
    and get_faults: "at_get at (s\<lparr>es_faults := fs\<rparr>) = at_get at s"
    and put_faults: "at_put at c (s\<lparr>es_faults := fs\<rparr>) = (at_put at c s)\<lparr>es_faults := fs\<rparr>"
    and faults_put: "es_faults (at_put at c s) = es_faults s"
    and view_get: "cell_view (at_get at s) = get (view s)"
    and view_put: "cell_view c = Some x \<Longrightarrow> view (at_put at c s) = put x (view s)"
    and put_same: "get v = Some x \<Longrightarrow> put x v = v"
    and calm_get: "ego_calm s \<Longrightarrow> cell_ok (at_get at s)"
    and calm_put: "ego_calm s \<Longrightarrow> cell_ok c \<Longrightarrow> ego_calm (at_put at c s)"
begin

lemmas place_simps = get_put put_put get_faults put_faults faults_put

lemma file_at: "ego_calm s \<Longrightarrow> ce_file (at_get at s) = map_option Json_File (get (view s))"
  using cell_ok_file [OF calm_get] by (simp add: view_get)

lemma store_run:
  assumes "True \<notin> set (es_faults s)"
  shows "store_cell at x s =
    (Inr (), (at_put at ((at_get at s)\<lparr>ce_file := Some (Json_File x)\<rparr>) s)\<lparr>es_faults := drop 2 (es_faults s)\<rparr>)"
proof -
  have "True \<notin> set (drop 1 (es_faults s))" using assms by (auto dest: in_set_dropD)
  with assms show ?thesis
    by (simp add: store_cell_def change_cell_def bind_act_def modify_st_def io_run place_simps numeral_2_eq_2)
qed

lemma store_refines:
  assumes calm: "ego_calm s" and cached: "ce_cached (at_get at s) = None \<or> ce_cached (at_get at s) = Some x"
    and run: "store_cell at x s = (q, s')"
  shows "q = Inr () \<and> view s' = put x (view s) \<and> ego_calm s'"
proof -
  let ?c = "(at_get at s)\<lparr>ce_file := Some (Json_File x)\<rparr>"
  have c: "cell_ok ?c" "cell_view ?c = Some x" using cached by (auto simp: cell_ok_def cell_view_def)
  from run store_run [OF calm_faults [OF calm]] have "q = Inr ()" "s' = (at_put at ?c s)\<lparr>es_faults := drop 2 (es_faults (at_put at ?c s))\<rparr>"
    by (auto simp: faults_put)
  then show ?thesis using view_put [OF c(2)] calm_put [OF calm c(1)] by (simp add: calm_drop set_drop_subset)
qed

lemma load_refines:
  assumes calm: "ego_calm s" and found: "get (view s) = Some x" and run: "load_cell at s = (q, s')"
  shows "q = Inr () \<and> view s' = view s \<and> ego_calm s' \<and> ce_cached (at_get at s') = Some x"
proof -
  let ?c = "(at_get at s)\<lparr>ce_cached := Some x\<rparr>"
  have ce: "ce_file (at_get at s) = Some (Json_File x)" using file_at [OF calm] found by simp
  then have c: "cell_ok ?c" "cell_view ?c = Some x" by (auto simp: cell_ok_def cell_view_def)
  have "q = Inr ()" "s' = (at_put at ?c s)\<lparr>es_faults := drop 1 (es_faults (at_put at ?c s))\<rparr>"
    using run ce
    by (auto simp: load_cell_def bind_act_def io_run [OF calm_faults [OF calm]] ret_def read_st_def change_cell_def
        modify_st_def place_simps)
  then show ?thesis
    using view_put [OF c(2), of s] put_same [OF found] calm_put [OF calm c(1)] by (simp add: calm_drop set_drop_subset place_simps)
qed

lemma load_refines_ret:
  assumes "ego_calm s" and "get (view s) \<noteq> None" and "load_cell at s = (q, s')"
  shows "q = Inr () \<and> view s' = view s \<and> ego_calm s' \<and> ce_cached (at_get at s') = get (view s)"
  using load_refines [OF assms(1) _ assms(3)] assms(2) by auto

lemma cached_at: "ego_calm s \<Longrightarrow> ce_cached (at_get at s) = Some x \<Longrightarrow> get (view s) = Some x"
  by (simp add: view_get [symmetric] cell_view_def)

text \<open>Reading, with what happens when there is nothing.\<close>

lemma read_refines:
  assumes prepare: "refines prepare (ret ())"
    and missing: "\<And>s q s'. ego_calm s \<Longrightarrow> get (view s) = None \<Longrightarrow> ce_cached (at_get at s) = None \<Longrightarrow> missing s = (q, s') \<Longrightarrow>
      n (view s) = (q, view s') \<and> ego_calm s' \<and> (\<forall>u. q = Inr u \<longrightarrow> get (view s') \<noteq> None)"
    and present: "\<And>v x. get v = Some x \<Longrightarrow> n v = (Inr (), v)"
  shows "refines (read_cell at prepare missing gone) (bind_act n (\<lambda>_. get_entry get gone))"
proof (rule refinesI)
  fix s q s' assume calm: "ego_calm s" and run: "read_cell at prepare missing gone s = (q, s')"
  show "bind_act n (\<lambda>_. get_entry get gone) (view s) = (q, view s') \<and> ego_calm s'"
  proof (cases "ce_cached (at_get at s)")
    case (Some x)
    with run calm cached_at [OF calm Some] present show ?thesis
      by (simp add: read_cell_def bind_act_def read_st_def ret_def get_entry_def)
  next
    case None
    obtain r s1 where p: "prepare s = (r, s1)" by force
    from refinesD [OF prepare calm p] have s1: "r = Inr ()" "view s1 = view s" "ego_calm s1" by auto
    let ?rest = "\<lambda>s2. bind_act (load_cell at) (\<lambda>_. bind_act (read_st (\<lambda>s. ce_cached (at_get at s))) (\<lambda>cached.
             case cached of Some x \<Rightarrow> ret x | None \<Rightarrow> fail gone)) s2"
    have rest: "get (view s2) = Some x \<Longrightarrow> ego_calm s2 \<Longrightarrow> ?rest s2 = (q, s') \<Longrightarrow> q = Inr x \<and> view s' = view s2 \<and> ego_calm s'"
      for s2 x
    proof -
      assume found: "get (view s2) = Some x" and calm2: "ego_calm s2" and run2: "?rest s2 = (q, s')"
      obtain r3 s3 where l: "load_cell at s2 = (r3, s3)" by force
      from load_refines [OF calm2 found l] run2 l show ?thesis by (auto simp: bind_act_def read_st_def ret_def)
    qed
    from run None p s1(1) have run1: "bind_act (if ce_file (at_get at s1) = None then missing else ret ()) (\<lambda>_. ?rest) s1 = (q, s')"
      by (simp add: read_cell_def bind_read bind_act_def [of prepare])
    show ?thesis
    proof (cases "get (view s)")
      case (Some x)
      then have "?rest s1 = (q, s')" using run1 file_at [OF s1(3)] s1(2) by simp
      from rest [OF _ s1(3) this] s1(2) Some present show ?thesis by (simp add: bind_act_def get_entry_def)
    next
      case gone: None
      obtain r2 s2 where m: "missing s1 = (r2, s2)" by force
      have "ce_cached (at_get at s1) = None" using cached_at [OF s1(3)] gone s1(2) by (cases "ce_cached (at_get at s1)") auto
      from missing [OF s1(3) _ this m] gone s1(2)
      have s2: "n (view s) = (r2, view s2)" "ego_calm s2" "\<And>u. r2 = Inr u \<Longrightarrow> get (view s2) \<noteq> None" by auto
      have run2: "bind_act missing (\<lambda>_. ?rest) s1 = (q, s')" using run1 file_at [OF s1(3)] s1(2) gone by simp
      show ?thesis
      proof (cases r2)
        case (Inl e)
        with run2 m s2 show ?thesis by (simp add: bind_act_def)
      next
        case (Inr u)
        with s2(3) obtain x where x: "get (view s2) = Some x" by blast
        from run2 m Inr have "?rest s2 = (q, s')" by (simp add: bind_act_def)
        from rest [OF x s2(2) this] x s2(1) Inr show ?thesis by (simp add: bind_act_def get_entry_def)
      qed
    qed
  qed
qed

text \<open>Changing.\<close>

lemma write_refines:
  assumes prepare: "refines prepare (ret ())"
  shows "refines (write_cell at prepare op) (change_entry get put op)"
proof (rule refinesI)
  fix s q s' assume calm: "ego_calm s" and run: "write_cell at prepare op s = (q, s')"
  obtain r s1 where p: "prepare s = (r, s1)" by force
  from refinesD [OF prepare calm p] have s1: "r = Inr ()" "view s1 = view s" "ego_calm s1" by auto
  let ?rest = "\<lambda>s2. (case op (ce_cached (at_get at s2)) of Inl e \<Rightarrow> fail e
       | Inr new \<Rightarrow> bind_act (change_cell at (\<lambda>c. c\<lparr>ce_cached := Some new\<rparr>)) (\<lambda>_. store_cell at new)) s2"
  have "\<exists>s2. ego_calm s2 \<and> view s2 = view s \<and> ce_cached (at_get at s2) = get (view s) \<and> ?rest s2 = (q, s')"
  proof (cases "ce_cached (at_get at s1) = None \<and> ce_file (at_get at s1) \<noteq> None")
    case True
    obtain r2 s2 where l: "load_cell at s1 = (r2, s2)" by force
    have "get (view s1) \<noteq> None" using True file_at [OF s1(3)] by auto
    from load_refines_ret [OF s1(3) this l] run p s1 True l show ?thesis
      by (intro exI [of _ s2]) (simp add: write_cell_def bind_act_def read_st_def)
  next
    case False
    then have "ce_cached (at_get at s1) = get (view s1)"
      using file_at [OF s1(3)] cached_at [OF s1(3)] by (cases "ce_cached (at_get at s1)") auto
    with run p s1 False show ?thesis
      by (intro exI [of _ s1]) (auto simp: write_cell_def bind_act_def read_st_def ret_def)
  qed
  then obtain s2 where s2: "ego_calm s2" "view s2 = view s" "ce_cached (at_get at s2) = get (view s)" "?rest s2 = (q, s')"
    by blast
  show "change_entry get put op (view s) = (q, view s') \<and> ego_calm s'"
  proof (cases "op (get (view s))")
    case (Inl e)
    with s2 show ?thesis by (auto simp: change_entry_def fail_def)
  next
    case (Inr new)
    let ?c = "(at_get at s2)\<lparr>ce_cached := Some new, ce_file := Some (Json_File new)\<rparr>"
    have c: "cell_ok ?c" "cell_view ?c = Some new" by (simp_all add: cell_ok_def cell_view_def)
    have "True \<notin> set (es_faults (at_put at ((at_get at s2)\<lparr>ce_cached := Some new\<rparr>) s2))"
      using s2(1) by (simp add: faults_put calm_faults)
    from store_run [OF this, of new] s2 Inr
    have "q = Inr ()" "s' = (at_put at ?c s2)\<lparr>es_faults := drop 2 (es_faults s2)\<rparr>"
      by (simp_all add: bind_act_def change_cell_def modify_st_def place_simps)
    then show ?thesis
      using view_put [OF c(2), of s2] calm_put [OF s2(1) c(1)] s2(2) Inr
      by (simp add: change_entry_def calm_drop set_drop_subset faults_put)
  qed
qed

end

end
