(* ===== verification/Ego_Service.thy ===== *)
theory Ego_Service
  imports Ego_Spec
begin

text \<open>
  The requests to the service and what they do to its maps: \<open>serve\<close> is the code's operation for a
  request, \<open>expected\<close> an operation on the maps alone; the one is shown to follow the other.
\<close>

section \<open>The managers as objects\<close>

lemma hm_insert_twice [simp]: "hm_insert k c (hm_insert k d m) = hm_insert k c m"
  by (induction m) auto

interpretation agents: held_object "agent_place i" "\<lambda>v. vw_agents v i"
    "\<lambda>x v. v\<lparr>vw_agents := (vw_agents v)(i \<mapsto> x)\<rparr>" for i
  by unfold_locales (auto simp: agent_place_def view_def ego_calm_def cell_of_def fun_eq_iff)

interpretation individuals: held_object "individuals_place i" "\<lambda>v. vw_individuals v i"
    "\<lambda>x v. v\<lparr>vw_individuals := (vw_individuals v)(i \<mapsto> x)\<rparr>" for i
  by unfold_locales (auto simp: individuals_place_def view_def ego_calm_def cell_of_def fun_eq_iff)

interpretation roles: held_object "role_place i name" "\<lambda>v. vw_roles v (i, name)"
    "\<lambda>x v. v\<lparr>vw_roles := (vw_roles v)((i, name) \<mapsto> x)\<rparr>" for i name
  by unfold_locales (auto simp: role_place_def view_def ego_calm_def cell_of_def fun_eq_iff)

section \<open>Requests\<close>

datatype ego_request =
    Create_Agent string string
  | Get_Agent string
  | Copy_Agent string string
  | Update_Agent_Description string string
  | Get_Individuals string
  | Get_Individual string string
  | Replace_Individuals string "string list" "(string \<times> individual) list"
  | Rename_Individual string string string
  | Replace_Identifiers string string "channel_user list" "channel_user list"
  | Replace_Relations string string "string list" "(string \<times> individual_relation) list"
  | Get_Role string string
  | Create_Role string string string
  | Create_Role_From string string string
  | Update_Role_Description string string string
  | Update_Role_Full_Name string string string
  | Get_Other_Role string string string
  | Replace_Other_Roles string string "string list" "(string \<times> other_role) list"
  | Rename_Other_Role string string string string
  | Update_Other_Individual_Name string string string string
  | Update_Other_Description string string string string
  | Update_Other_Relation string string string role_relation
  | Replace_Other_Relations string string string "string list" "(string \<times> role_relation) list"

datatype ego_reply =
    Done
  | Made string
  | An_Agent agent_metadata
  | All_Individuals individual_recognition
  | One_Individual individual
  | A_Role role_play
  | One_Other_Role other_role

definition replying_with :: "('a \<Rightarrow> 'b) \<Rightarrow> ('s, 'e, 'a) action \<Rightarrow> ('s, 'e, 'b) action" where
  "replying_with f m = bind_act m (\<lambda>x. ret (f x))"

abbreviation doing :: "('s, 'e, unit) action \<Rightarrow> ('s, 'e, ego_reply) action" where
  "doing \<equiv> replying_with (\<lambda>_. Done)"

fun serve :: "('i, 'c, 'j, 'd, 'r) search_env \<Rightarrow> ego_request \<Rightarrow> ('i, 'c, 'j, 'd, ego_reply) service_op" where
  "serve env (Create_Agent i d) = replying_with Made (create_agent env i d)"
| "serve env (Get_Agent i) = replying_with An_Agent (read_agent_metadata i)"
| "serve env (Copy_Agent i new) = replying_with Made (copy_agent env i new)"
| "serve env (Update_Agent_Description i d) = doing (update_agent_description env i d)"
| "serve env (Get_Individuals i) = replying_with All_Individuals (read_individual_recognition i)"
| "serve env (Get_Individual i n) = replying_with One_Individual (individual_of i n)"
| "serve env (Replace_Individuals i removed inserted) = doing (replace_individuals i removed inserted)"
| "serve env (Rename_Individual i n new) = doing (rename_individual i n new)"
| "serve env (Replace_Identifiers i n removed inserted) = doing (replace_individual_identifiers i n removed inserted)"
| "serve env (Replace_Relations i n removed inserted) = doing (replace_individual_other_relations i n removed inserted)"
| "serve env (Get_Role i r) = replying_with A_Role (read_role_play i r)"
| "serve env (Create_Role i r d) = doing (create_role env i r d)"
| "serve env (Create_Role_From i r new) = doing (create_role_from env i r new)"
| "serve env (Update_Role_Description i r d) = doing (update_role_description env i r d)"
| "serve env (Update_Role_Full_Name i r n) = doing (update_role_full_name env i r n)"
| "serve env (Get_Other_Role i r other) = replying_with One_Other_Role (read_role_play_other_role i r other)"
| "serve env (Replace_Other_Roles i r removed inserted) = doing (replace_other_roles i r removed inserted)"
| "serve env (Rename_Other_Role i r other new) = doing (rename_other_role i r other new)"
| "serve env (Update_Other_Individual_Name i r other new) = doing (update_other_role_individual_name i r other new)"
| "serve env (Update_Other_Description i r other new) = doing (update_other_role_description i r other new)"
| "serve env (Update_Other_Relation i r other new) = doing (update_other_role_relation i r other new)"
| "serve env (Replace_Other_Relations i r other removed inserted) = doing (replace_other_role_relations i r other removed inserted)"

section \<open>What is expected of them\<close>

definition of_agent :: "string \<Rightarrow> agent_metadata view_op" where
  "of_agent i = get_entry (\<lambda>v. vw_agents v i) (AgentNotFound i)"

definition on_agent :: "string \<Rightarrow> (agent_metadata option \<Rightarrow> ego_error + agent_metadata) \<Rightarrow> unit view_op" where
  "on_agent i op = change_entry (\<lambda>v. vw_agents v i) (\<lambda>x v. v\<lparr>vw_agents := (vw_agents v)(i \<mapsto> x)\<rparr>) op"

definition on_individuals ::
  "string \<Rightarrow> (individual_recognition option \<Rightarrow> ego_error + individual_recognition) \<Rightarrow> unit view_op" where
  "on_individuals i op =
     change_entry (\<lambda>v. vw_individuals v i) (\<lambda>x v. v\<lparr>vw_individuals := (vw_individuals v)(i \<mapsto> x)\<rparr>) op"

definition of_role :: "string \<Rightarrow> string \<Rightarrow> role_play view_op" where
  "of_role i r = get_entry (\<lambda>v. vw_roles v (i, r)) (AgentRoleNotFound i r)"

definition on_role :: "string \<Rightarrow> string \<Rightarrow> (role_play option \<Rightarrow> ego_error + role_play) \<Rightarrow> unit view_op" where
  "on_role i r op = change_entry (\<lambda>v. vw_roles v (i, r)) (\<lambda>x v. v\<lparr>vw_roles := (vw_roles v)((i, r) \<mapsto> x)\<rparr>) op"

text \<open>Who is asked for the individuals for the first time knows none.\<close>

definition of_individuals :: "string \<Rightarrow> individual_recognition view_op" where
  "of_individuals i =
     bind_act (on_individuals i (\<lambda>found. Inr (case found of Some r \<Rightarrow> r
         | None \<Rightarrow> \<lparr>ir_agent_id = i, ir_individual_map = []\<rparr>))) (\<lambda>_.
     get_entry (\<lambda>v. vw_individuals v i) (AgentNotFound i))"

definition new_agent :: "string \<Rightarrow> string \<Rightarrow> string view_op" where
  "new_agent i d =
     bind_act (validate_code i) (\<lambda>_.
     bind_act (on_agent i (\<lambda>found. if found = None then Inr \<lparr>am_agent_id = i, am_description = d\<rparr>
         else Inl (AgentAlreadyExists i))) (\<lambda>_.
     ret i))"

definition new_role :: "string \<Rightarrow> string \<Rightarrow> string \<Rightarrow> unit view_op" where
  "new_role i r d = bind_act (validate_code r) (\<lambda>_. on_role i r (new_role_play i r d))"

definition individuals_change ::
  "string \<Rightarrow> ((string, individual) hmap \<Rightarrow> ego_error + (string, individual) hmap) \<Rightarrow>
   individual_recognition option \<Rightarrow> ego_error + individual_recognition" where
  "individuals_change i f found =
     (case found of
        None \<Rightarrow> Inl (AgentNotFound i)
      | Some r \<Rightarrow> (case f (ir_individual_map r) of Inl e \<Rightarrow> Inl e | Inr m \<Rightarrow> Inr (r\<lparr>ir_individual_map := m\<rparr>)))"

definition others_change ::
  "string \<Rightarrow> string \<Rightarrow> ((string, other_role) hmap \<Rightarrow> ego_error + (string, other_role) hmap) \<Rightarrow>
   role_play option \<Rightarrow> ego_error + role_play" where
  "others_change i r f found =
     (case found of
        None \<Rightarrow> Inl (AgentRoleNotFound i r)
      | Some play \<Rightarrow> (case f (rp_other_roles play) of Inl e \<Rightarrow> Inl e | Inr m \<Rightarrow> Inr (play\<lparr>rp_other_roles := m\<rparr>)))"

text \<open>The value of a key is changed; or the value gets another key that is free.\<close>

definition at_key :: "'k \<Rightarrow> 'e \<Rightarrow> ('v \<Rightarrow> 'v) \<Rightarrow> ('k, 'v) hmap \<Rightarrow> 'e + ('k, 'v) hmap" where
  "at_key k gone f m = (case hm_get m k of Some x \<Rightarrow> Inr (hm_insert k (f x) (hm_remove k m)) | None \<Rightarrow> Inl gone)"

definition rekey :: "'k \<Rightarrow> 'k \<Rightarrow> 'e \<Rightarrow> 'e \<Rightarrow> ('k, 'v) hmap \<Rightarrow> 'e + ('k, 'v) hmap" where
  "rekey k new gone taken m =
     (if hm_get m new \<noteq> None then Inl taken
      else case hm_get m k of Some x \<Rightarrow> Inr (hm_insert new x (hm_remove k m)) | None \<Rightarrow> Inl gone)"

fun expected :: "ego_request \<Rightarrow> ego_reply view_op" where
  "expected (Create_Agent i d) = replying_with Made (new_agent i d)"
| "expected (Get_Agent i) = replying_with An_Agent (of_agent i)"
| "expected (Copy_Agent i new) = bind_act (of_agent i) (\<lambda>m. replying_with Made (new_agent new (am_description m)))"
| "expected (Update_Agent_Description i d) = doing (on_agent i (change_agent_description i d))"
| "expected (Get_Individuals i) = replying_with All_Individuals (of_individuals i)"
| "expected (Get_Individual i n) = bind_act (of_individuals i) (\<lambda>r.
     case hm_get (ir_individual_map r) n of Some x \<Rightarrow> ret (One_Individual x) | None \<Rightarrow> fail (AgentIndividualNotFound i n))"
| "expected (Replace_Individuals i removed inserted) = bind_act (validate_codes (map fst inserted)) (\<lambda>_.
     doing (on_individuals i (individuals_change i (\<lambda>m. Inr (replace_entries removed inserted m)))))"
| "expected (Rename_Individual i n new) = bind_act (validate_code new) (\<lambda>_.
     doing (on_individuals i (individuals_change i (rekey n new (AgentIndividualNotFound i n) (AgentIndividualAlreadyExists i new)))))"
| "expected (Replace_Identifiers i n removed inserted) =
     doing (on_individuals i (individuals_change i (at_key n (AgentIndividualNotFound i n)
       (\<lambda>x. x\<lparr>in_identifiers := fold List.insert inserted (fold removeAll removed (in_identifiers x))\<rparr>))))"
| "expected (Replace_Relations i n removed inserted) = bind_act (validate_codes (map fst inserted)) (\<lambda>_.
     doing (on_individuals i (individuals_change i (at_key n (AgentIndividualNotFound i n)
       (\<lambda>x. x\<lparr>in_other_relations := replace_entries removed inserted (in_other_relations x)\<rparr>)))))"
| "expected (Get_Role i r) = replying_with A_Role (of_role i r)"
| "expected (Create_Role i r d) = doing (new_role i r d)"
| "expected (Create_Role_From i r new) = bind_act (validate_code new) (\<lambda>_.
     bind_act (of_role i r) (\<lambda>play. doing (new_role i new (ro_description (rp_role play)))))"
| "expected (Update_Role_Description i r d) = doing (on_role i r (change_role i r (\<lambda>x. x\<lparr>ro_description := d\<rparr>)))"
| "expected (Update_Role_Full_Name i r n) = doing (on_role i r (change_role i r (\<lambda>x. x\<lparr>ro_full_name := n\<rparr>)))"
| "expected (Get_Other_Role i r other) = bind_act (of_role i r) (\<lambda>play.
     case hm_get (rp_other_roles play) other of Some x \<Rightarrow> ret (One_Other_Role x) | None \<Rightarrow> fail (AgentRoleNotFound i r))"
| "expected (Replace_Other_Roles i r removed inserted) = bind_act (validate_codes (map fst inserted)) (\<lambda>_.
     doing (on_role i r (others_change i r (\<lambda>m. Inr (replace_entries removed inserted m)))))"
| "expected (Rename_Other_Role i r other new) = bind_act (validate_code new) (\<lambda>_.
     doing (on_role i r (others_change i r (rekey other new (AgentRoleOtherRoleNotFound i r other) (AgentRoleOtherRoleAlreadyExists i r new)))))"
| "expected (Update_Other_Individual_Name i r other new) = bind_act (validate_code new) (\<lambda>_.
     doing (on_role i r (others_change i r (at_key other (AgentRoleOtherRoleNotFound i r other) (\<lambda>x. x\<lparr>ot_individual_name := new\<rparr>)))))"
| "expected (Update_Other_Description i r other new) =
     doing (on_role i r (others_change i r (at_key other (AgentRoleOtherRoleNotFound i r other) (\<lambda>x. x\<lparr>ot_description := new\<rparr>))))"
| "expected (Update_Other_Relation i r other new) =
     doing (on_role i r (others_change i r (at_key other (AgentRoleOtherRoleNotFound i r other) (\<lambda>x. x\<lparr>ot_role_relation := new\<rparr>))))"
| "expected (Replace_Other_Relations i r other removed inserted) = bind_act (validate_codes (map fst inserted)) (\<lambda>_.
     doing (on_role i r (others_change i r (at_key other (AgentRoleOtherRoleNotFound i r other)
       (\<lambda>x. x\<lparr>ot_other_role_relations := replace_entries removed inserted (ot_other_role_relations x)\<rparr>)))))"

section \<open>The operations follow\<close>

lemma replying_bind: "replying_with f (bind_act m g) = bind_act m (\<lambda>x. replying_with f (g x))"
  by (simp add: replying_with_def bind_assoc)

lemma refines_replying [refines_intros]: "refines m n \<Longrightarrow> refines (replying_with f m) (replying_with f n)"
  unfolding replying_with_def by (intro refines_bind refines_ret)

lemma refines_validate [refines_intros]:
  "refines (validate_code c) (validate_code c)" "refines (validate_codes cs) (validate_codes cs)"
proof -
  show *: "refines (validate_code c) (validate_code c)" for c
    unfolding validate_code_def by (simp add: refines_ret refines_fail)
  have "refines (for_each cs validate_code) (for_each cs validate_code)"
    by (induction cs) (auto intro: refines_bind refines_ret *)
  then show "refines (validate_codes cs) (validate_codes cs)" by (simp add: validate_codes_def)
qed

text \<open>Agents, individuals and roles.\<close>

lemma refines_agent [refines_intros]:
  "refines (read_agent_metadata i) (of_agent i)" "refines (write_agent_metadata_ref i op) (on_agent i op)"
proof -
  let ?n = "\<lambda>v. if vw_agents v i = None then (Inl (AgentNotFound i), v) else (Inr (), v)"
  have "refines (read_agent_metadata i) (bind_act ?n (\<lambda>_. get_entry (\<lambda>v. vw_agents v i) (AgentNotFound i)))"
    unfolding read_agent_metadata_def by (rule agents.read_refines [OF refines_dirs(1)]) (auto simp: fail_def split: if_splits)
  moreover have "bind_act ?n (\<lambda>_. get_entry (\<lambda>v. vw_agents v i) (AgentNotFound i)) = of_agent i"
    by (rule ext) (simp add: bind_act_def of_agent_def get_entry_def)
  ultimately show "refines (read_agent_metadata i) (of_agent i)" by simp
  show "refines (write_agent_metadata_ref i op) (on_agent i op)"
    unfolding write_agent_metadata_ref_def on_agent_def by (rule agents.write_refines [OF refines_dirs(1)])
qed

lemma refines_role [refines_intros]:
  "refines (read_role_play i r) (of_role i r)" "refines (write_role_play_ref i r op) (on_role i r op)"
proof -
  let ?n = "\<lambda>v. if vw_roles v (i, r) = None then (Inl (AgentRoleNotFound i r), v) else (Inr (), v)"
  have "refines (read_role_play i r) (bind_act ?n (\<lambda>_. get_entry (\<lambda>v. vw_roles v (i, r)) (AgentRoleNotFound i r)))"
    unfolding read_role_play_def by (rule roles.read_refines [OF refines_dirs(2)]) (auto simp: fail_def split: if_splits)
  moreover have "bind_act ?n (\<lambda>_. get_entry (\<lambda>v. vw_roles v (i, r)) (AgentRoleNotFound i r)) = of_role i r"
    by (rule ext) (simp add: bind_act_def of_role_def get_entry_def)
  ultimately show "refines (read_role_play i r) (of_role i r)" by simp
  show "refines (write_role_play_ref i r op) (on_role i r op)"
    unfolding write_role_play_ref_def on_role_def by (rule roles.write_refines [OF refines_dirs(2)])
qed

lemma refines_individuals [refines_intros]:
  "refines (read_individual_recognition i) (of_individuals i)"
  "refines (write_individual_recognition_ref i op') (on_individuals i op')"
proof -
  show "refines (read_individual_recognition i) (of_individuals i)"
    unfolding read_individual_recognition_def of_individuals_def
  proof (rule individuals.read_refines [OF refines_dirs(2)])
    fix s q s' assume "ego_calm s" "vw_individuals (view s) i = None" "ce_cached (at_get (individuals_place i) s) = None"
      "store_cell (individuals_place i) \<lparr>ir_agent_id = i, ir_individual_map = []\<rparr> s = (q, s')"
    with individuals.store_refines [of s i "\<lparr>ir_agent_id = i, ir_individual_map = []\<rparr>" q s']
    show "on_individuals i (\<lambda>found. Inr (case found of Some r \<Rightarrow> r | None \<Rightarrow> \<lparr>ir_agent_id = i, ir_individual_map = []\<rparr>)) (view s) =
        (q, view s') \<and> ego_calm s' \<and> (\<forall>u. q = Inr u \<longrightarrow> vw_individuals (view s') i \<noteq> None)"
      by (auto simp: on_individuals_def change_entry_def)
  qed (simp add: on_individuals_def change_entry_def individuals.put_same)
  show "refines (write_individual_recognition_ref i op') (on_individuals i op')"
    unfolding write_individual_recognition_ref_def on_individuals_def by (rule individuals.write_refines [OF refines_dirs(2)])
qed

lemma unseen_reads: "unseen (read_agent_metadata i)" "unseen (read_role_play i r)"
  by (rule unseen_refines [OF refines_agent(1)] unseen_refines [OF refines_role(1)];
      simp add: of_agent_def of_role_def get_entry_def split: option.splits)+

text \<open>The search.\<close>

lemma view_search [simp]:
  "view (s\<lparr>sm_metadata := a\<rparr>) = view s" "view (s\<lparr>sm_index := b\<rparr>) = view s" "view (s\<lparr>sm_completion := c\<rparr>) = view s"
  "view (s\<lparr>sm_role_metadata := d\<rparr>) = view s" "view (s\<lparr>sm_role_index := e\<rparr>) = view s"
  "view (s\<lparr>sm_role_completion := f\<rparr>) = view s" "view (s\<lparr>sm_started := g\<rparr>) = view s"
  by (simp_all add: view_def)

lemma calm_search [simp]:
  "ego_calm (s\<lparr>sm_metadata := a\<rparr>) = ego_calm s" "ego_calm (s\<lparr>sm_index := b\<rparr>) = ego_calm s"
  "ego_calm (s\<lparr>sm_completion := c\<rparr>) = ego_calm s" "ego_calm (s\<lparr>sm_role_metadata := d\<rparr>) = ego_calm s"
  "ego_calm (s\<lparr>sm_role_index := e\<rparr>) = ego_calm s" "ego_calm (s\<lparr>sm_role_completion := f\<rparr>) = ego_calm s"
  "ego_calm (s\<lparr>sm_started := g\<rparr>) = ego_calm s"
  by (simp_all add: ego_calm_def)

lemma refines_sync: "refines (force_sync_identity env i) (ret ())" "refines (force_sync_role env k) (ret ())"
  unfolding force_sync_identity_def force_sync_role_def Let_def
  by (intro refines_read refines_skip [OF refines_modify] refines_if_ok unseen_reads refines_option refines_skip [OF refines_if]
      refines_modify refines_ret; simp)+

lemma refines_search [refines_intros]: "refines (search_manager env) (ret ())"
  unfolding search_manager_def
  by (intro refines_read refines_if refines_ret refines_if_ok unseen_list refines_skip [OF refines_each]
      refines_skip [OF refines_sync(1)] refines_each refines_sync(2) refines_modify; simp)

lemma refines_mark [refines_intros]:
  "refines (mark_identity_dirty i) (ret ())" "refines (mark_played_role_dirty i r) (ret ())"
  by (auto simp: mark_identity_dirty_def mark_played_role_dirty_def view_def ego_calm_def intro!: refines_modify)

text \<open>Changes of agents and roles, which are marked for the search.\<close>

lemma bind_ret_right [simp]: "bind_act n ret = n"
  by (rule ext) (auto simp: bind_act_def ret_def split: prod.splits sum.splits)

lemma refines_marked:
  assumes "refines m n" and "refines k (ret ())"
  shows "refines (bind_act m (\<lambda>_. bind_act (search_manager env) (\<lambda>_. k))) (n :: unit view_op)"
proof -
  have "refines (bind_act m (\<lambda>_. bind_act (search_manager env) (\<lambda>_. k))) (bind_act n (\<lambda>_. ret ()))"
    by (rule refines_bind [OF assms(1) refines_skip [OF refines_search assms(2)]])
  then show ?thesis by simp
qed

lemma refines_create_agent: "refines (create_agent env i d) (new_agent i d)"
proof -
  let ?op = "\<lambda>found. if found = None then Inr \<lparr>am_agent_id = i, am_description = d\<rparr> else Inl (AgentAlreadyExists i)"
  let ?rest = "\<lambda>file :: agent_metadata json_file option. if file \<noteq> None then fail (AgentAlreadyExists i)
       else bind_act (write_agent_metadata_ref i (\<lambda>_. Inr \<lparr>am_agent_id = i, am_description = d\<rparr>)) (\<lambda>_.
       bind_act (search_manager env) (\<lambda>_. bind_act (mark_identity_dirty i) (\<lambda>_. ret i)))"
  have writing: "refines (bind_act (write_agent_metadata_ref i (\<lambda>_. Inr \<lparr>am_agent_id = i, am_description = d\<rparr>)) (\<lambda>_.
       bind_act (search_manager env) (\<lambda>_. bind_act (mark_identity_dirty i) (\<lambda>_. ret i))))
     (bind_act (on_agent i (\<lambda>_. Inr \<lparr>am_agent_id = i, am_description = d\<rparr>)) (\<lambda>_. ret i))"
    by (intro refines_bind refines_agent(2) refines_skip [OF refines_search] refines_skip [OF refines_mark(1)] refines_ret)
  have "refines (bind_act (read_st (\<lambda>s. ce_file (cell_of (es_agents s) i))) ?rest) (bind_act (on_agent i ?op) (\<lambda>_. ret i))"
  proof (rule refinesI)
    fix s q s' assume calm: "ego_calm s" and run: "bind_act (read_st (\<lambda>s. ce_file (cell_of (es_agents s) i))) ?rest s = (q, s')"
    have found: "ce_file (cell_of (es_agents s) i) = map_option Json_File (vw_agents (view s) i)"
      using agents.file_at [OF calm, of i] by (simp add: agent_place_def)
    show "bind_act (on_agent i ?op) (\<lambda>_. ret i) (view s) = (q, view s') \<and> ego_calm s'"
    proof (cases "vw_agents (view s) i")
      case None
      with run found refinesD [OF writing calm, of q s'] show ?thesis
        by (simp add: bind_read on_agent_def change_entry_def bind_act_def [of "change_entry _ _ _"])
    next
      case (Some m)
      with run found have "q = Inl (AgentAlreadyExists i)" "s' = s" by (simp_all add: bind_read)
      with Some calm show ?thesis by (simp add: on_agent_def change_entry_def bind_act_def)
    qed
  qed
  then show ?thesis
    unfolding create_agent_def new_agent_def by (intro refines_bind refines_validate(1) refines_skip [OF refines_dirs(1)])
qed

lemma refines_create_role: "refines (create_role env i r d) (new_role i r d)"
  unfolding create_role_def new_role_def by (intro refines_bind refines_validate(1) refines_marked refines_role(2) refines_mark(2))

lemma refines_updates:
  "refines (update_agent_description env i d) (on_agent i (change_agent_description i d))"
  "refines (update_role_description env i r d) (on_role i r (change_role i r (\<lambda>x. x\<lparr>ro_description := d\<rparr>)))"
  "refines (update_role_full_name env i r d) (on_role i r (change_role i r (\<lambda>x. x\<lparr>ro_full_name := d\<rparr>)))"
  unfolding update_agent_description_def update_role_description_def update_role_full_name_def
  by (intro refines_marked refines_agent refines_role refines_mark)+

text \<open>Changes of maps.\<close>

lemma change_individuals:
  "change_individual_name i n new = individuals_change i (rekey n new (AgentIndividualNotFound i n) (AgentIndividualAlreadyExists i new))"
  "(\<lambda>found. case found of Some r \<Rightarrow> Inr (r\<lparr>ir_individual_map := g (ir_individual_map r)\<rparr>) | None \<Rightarrow> Inl (AgentNotFound i)) =
     individuals_change i (\<lambda>m. Inr (g m))"
  "(\<lambda>found. case found of None \<Rightarrow> Inl (AgentNotFound i)
     | Some r \<Rightarrow> (case write_key_value n f (ir_individual_map r) of
              (Some _, m) \<Rightarrow> Inr (r\<lparr>ir_individual_map := m\<rparr>)
            | (None, m) \<Rightarrow> Inl (AgentIndividualNotFound i n))) =
     individuals_change i (at_key n (AgentIndividualNotFound i n) f)"
  by (rule ext; simp add: change_individual_name_def individuals_change_def rekey_def write_key_value_def at_key_def Let_def
      split: option.splits)+

lemma change_others:
  "change_other_role_name i r other new =
     others_change i r (rekey other new (AgentRoleOtherRoleNotFound i r other) (AgentRoleOtherRoleAlreadyExists i r new))"
  "(\<lambda>found. case found of Some play \<Rightarrow> Inr (play\<lparr>rp_other_roles := g (rp_other_roles play)\<rparr>) | None \<Rightarrow> Inl (AgentRoleNotFound i r)) =
     others_change i r (\<lambda>m. Inr (g m))"
  "change_other_role i r other h = others_change i r (at_key other (AgentRoleOtherRoleNotFound i r other) h)"
  "(\<lambda>found. case found of None \<Rightarrow> Inl (AgentRoleNotFound i r)
     | Some play \<Rightarrow> (case write_key_value other h (rp_other_roles play) of
              (Some _, m) \<Rightarrow> Inr (play\<lparr>rp_other_roles := m\<rparr>)
            | (None, m) \<Rightarrow> Inl (AgentRoleOtherRoleNotFound i r other))) =
     others_change i r (at_key other (AgentRoleOtherRoleNotFound i r other) h)"
  by (rule ext; simp add: change_other_role_name_def others_change_def rekey_def change_other_role_def write_key_value_def
      at_key_def Let_def split: option.splits)+

lemmas serve_defs = write_individual_ref_def write_role_play_other_role_ref_def copy_agent_def individual_of_def replace_individuals_def
  rename_individual_def replace_individual_identifiers_def replace_individual_other_relations_def read_role_play_other_role_def replace_other_roles_def
  rename_other_role_def update_other_role_individual_name_def update_other_role_description_def
  update_other_role_relation_def replace_other_role_relations_def

lemma replying_option: "replying_with f (case x of None \<Rightarrow> fail e | Some y \<Rightarrow> ret (g y)) = (case x of None \<Rightarrow> fail e | Some y \<Rightarrow> ret (f (g y)))"
  by (cases x) (auto simp: replying_with_def bind_act_def fail_def ret_def fun_eq_iff)

lemma refines_found: "refines (case x of None \<Rightarrow> fail e | Some y \<Rightarrow> ret (f y)) (case x of None \<Rightarrow> fail e | Some y \<Rightarrow> ret (f y))"
  by (cases x) (simp_all add: refines_fail refines_ret)

lemma refines_create_role_from:
  "refines (create_role_from env i r new)
     (bind_act (validate_code new) (\<lambda>_. bind_act (of_role i r) (\<lambda>play. new_role i new (ro_description (rp_role play)))))"
  unfolding create_role_from_def
  by (intro refines_bind refines_validate(1) refines_role(1) refines_marked refines_create_role refines_mark(2))

lemma refines_serve: "refines (serve env req) (expected req)"
proof (cases req)
  case (Create_Role_From i r new)
  show ?thesis
    using refines_replying [OF refines_create_role_from, of "\<lambda>_. Done"] by (simp add: Create_Role_From replying_bind)
qed (simp_all add: serve_defs replying_bind change_individuals change_others replying_option,
    (intro refines_bind refines_replying refines_validate refines_create_agent refines_create_role refines_updates
      refines_agent refines_role refines_individuals refines_found)+)

end
