(* ===== verification/Ego_Api.thy ===== *)
theory Ego_Api
  imports Ego_Service
begin

text \<open>
  The HTTP interface of the service (\<open>kissbot-memory-ego/src/api.rs\<close>): an answer is a status and an
  envelope. The texts of the errors of the operating system and of the JSON reader are left out; paths are those below the root directory.
\<close>

section \<open>Answers\<close>

type_synonym ('s, 'a) handler = "'s \<Rightarrow> (nat \<times> 'a api_response) \<times> 's"

fun ego_error_text :: "ego_error \<Rightarrow> string" where
  "ego_error_text EE_Io = ''IO error: ''"
| "ego_error_text EE_Json = ''JSON error: ''"
| "ego_error_text (EE_PathNotExist p) = ''Memory error: Path not exist: '' @ p"
| "ego_error_text (AgentNotFound i) = ''Agent not found: '' @ i"
| "ego_error_text (AgentAlreadyExists i) = ''Agent already exists: '' @ i"
| "ego_error_text (AgentIndividualNotFound i n) = ''Agent individual not found: '' @ i @ '' '' @ n"
| "ego_error_text (AgentIndividualAlreadyExists i n) = ''Agent individual already exists: '' @ i @ '' '' @ n"
| "ego_error_text (AgentRoleNotFound i r) = ''Agent role not found: '' @ i @ '' '' @ r"
| "ego_error_text (AgentRoleAlreadyExists i r) = ''Agent role already exists: '' @ i @ '' '' @ r"
| "ego_error_text (AgentRoleOtherRoleNotFound i r other) = ''Agent role other role not found: '' @ i @ '' '' @ r @ '' '' @ other"
| "ego_error_text (AgentRoleOtherRoleAlreadyExists i r other) = ''Agent role other role already exists: '' @ i @ '' '' @ r @ '' '' @ other"
| "ego_error_text (InvalidCode c) = ''Invalid code (only [A-Za-z0-9_] allowed, non-empty): '' @ c"

text \<open>What is not named has the status of an internal error.\<close>

definition respond ::
  "(ego_error \<Rightarrow> (nat \<times> string) option) \<Rightarrow> ('s, ego_error, 'a) action \<Rightarrow> ('s, 'a) handler" where
  "respond named m s =
     (case m s of
        (Inr x, s') \<Rightarrow> ((200, api_success x), s')
      | (Inl e, s') \<Rightarrow>
          ((case named e of
              Some (status, text) \<Rightarrow> (status, api_failure text)
            | None \<Rightarrow> (500, api_failure (ego_error_text e))), s'))"

section \<open>Handlers\<close>

text \<open>Those of the agents that cannot be read are left out.\<close>

definition api_list_agents :: "('z ego_state_scheme, agent_metadata list) handler" where
  "api_list_agents s =
     (case list_agents s of
        (r, s1) \<Rightarrow>
          (case retrieve_agents (case r of Inr ids \<Rightarrow> ids | Inl _ \<Rightarrow> []) s1 of
             (Inr agents, s2) \<Rightarrow> ((200, api_success agents), s2)
           | (Inl e, s2) \<Rightarrow> ((200, api_success []), s2)))"

definition api_create_agent ::
  "('i, 'c, 'j, 'd, 'r) search_env \<Rightarrow> string \<Rightarrow> string \<Rightarrow> (('i, 'c, 'j, 'd) ego_service, string) handler" where
  "api_create_agent env agent_id description = respond
     (\<lambda>e. case e of
         AgentAlreadyExists _ \<Rightarrow> Some (409, ''Agent '' @ agent_id @ '' already exists'')
       | _ \<Rightarrow> None)
     (create_agent env agent_id description)"

definition api_get_agent ::
  "string \<Rightarrow> ('z ego_state_scheme, agent_metadata) handler" where
  "api_get_agent agent_id = respond
     (\<lambda>e. case e of
         AgentNotFound _ \<Rightarrow> Some (404, ''Agent '' @ agent_id @ '' not found'')
       | _ \<Rightarrow> None)
     (read_agent_metadata agent_id)"

definition api_update_agent_description ::
  "('i, 'c, 'j, 'd, 'r) search_env \<Rightarrow> string \<Rightarrow> string \<Rightarrow> (('i, 'c, 'j, 'd) ego_service, unit) handler" where
  "api_update_agent_description env agent_id description = respond
     (\<lambda>e. case e of
         AgentNotFound _ \<Rightarrow> Some (404, ''Agent '' @ agent_id @ '' not found'')
       | _ \<Rightarrow> None)
     (update_agent_description env agent_id description)"

definition api_copy_agent ::
  "('i, 'c, 'j, 'd, 'r) search_env \<Rightarrow> string \<Rightarrow> string \<Rightarrow> (('i, 'c, 'j, 'd) ego_service, string) handler" where
  "api_copy_agent env agent_id new_agent_id = respond
     (\<lambda>e. case e of
         AgentNotFound _ \<Rightarrow> Some (404, ''Agent '' @ agent_id @ '' not found'')
       | AgentAlreadyExists _ \<Rightarrow> Some (409, ''New agent already exists'')
       | _ \<Rightarrow> None)
     (copy_agent env agent_id new_agent_id)"

definition api_get_individuals ::
  "string \<Rightarrow> ('z ego_state_scheme, individual_recognition) handler" where
  "api_get_individuals agent_id = respond
     (\<lambda>e. case e of
         AgentNotFound _ \<Rightarrow> Some (404, ''Agent '' @ agent_id @ '' not found'')
       | _ \<Rightarrow> None)
     (read_individual_recognition agent_id)"

definition api_get_individual ::
  "string \<Rightarrow> string \<Rightarrow> ('z ego_state_scheme, individual) handler" where
  "api_get_individual agent_id individual_name = respond
     (\<lambda>e. case e of
         AgentIndividualNotFound _ _ \<Rightarrow> Some (404, ''Individual '' @ individual_name @ '' not found'')
       | _ \<Rightarrow> None)
     (individual_of agent_id individual_name)"

definition api_replace_individuals ::
  "string \<Rightarrow> string list \<Rightarrow> (string \<times> individual) list \<Rightarrow> ('z ego_state_scheme, unit) handler" where
  "api_replace_individuals agent_id removed inserted = respond
     (\<lambda>e. case e of
         AgentNotFound _ \<Rightarrow> Some (404, ''Agent '' @ agent_id @ '' not found'')
       | _ \<Rightarrow> None)
     (replace_individuals agent_id removed inserted)"

definition api_rename_individual ::
  "string \<Rightarrow> string \<Rightarrow> string \<Rightarrow> ('z ego_state_scheme, unit) handler" where
  "api_rename_individual agent_id individual_name new_name = respond
     (\<lambda>e. case e of
         AgentIndividualNotFound _ _ \<Rightarrow> Some (404, ''Individual '' @ individual_name @ '' not found'')
       | AgentIndividualAlreadyExists _ _ \<Rightarrow> Some (409, ''Individual '' @ new_name @ '' already exists'')
       | _ \<Rightarrow> None)
     (rename_individual agent_id individual_name new_name)"

definition api_replace_individual_identifiers ::
  "string \<Rightarrow> string \<Rightarrow> channel_user list \<Rightarrow> channel_user list \<Rightarrow> ('z ego_state_scheme, unit) handler" where
  "api_replace_individual_identifiers agent_id individual_name removed inserted = respond
     (\<lambda>e. case e of
         AgentIndividualNotFound _ _ \<Rightarrow> Some (404, ''Individual '' @ individual_name @ '' not found'')
       | _ \<Rightarrow> None)
     (replace_individual_identifiers agent_id individual_name removed inserted)"

definition api_replace_individual_relations ::
  "string \<Rightarrow> string \<Rightarrow> string list \<Rightarrow> (string \<times> individual_relation) list \<Rightarrow> ('z ego_state_scheme, unit) handler" where
  "api_replace_individual_relations agent_id individual_name removed inserted = respond
     (\<lambda>e. case e of
         AgentIndividualNotFound _ _ \<Rightarrow> Some (404, ''Individual '' @ individual_name @ '' not found'')
       | _ \<Rightarrow> None)
     (replace_individual_other_relations agent_id individual_name removed inserted)"

definition api_list_roles ::
  "string \<Rightarrow> ('z ego_state_scheme, string list) handler" where
  "api_list_roles agent_id = respond
     (\<lambda>e. case e of
         AgentNotFound _ \<Rightarrow> Some (404, ''Agent '' @ agent_id @ '' not found'')
       | _ \<Rightarrow> None)
     (list_roles agent_id)"

definition api_get_role ::
  "string \<Rightarrow> string \<Rightarrow> ('z ego_state_scheme, role_play) handler" where
  "api_get_role agent_id name = respond
     (\<lambda>e. case e of
         AgentRoleNotFound _ _ \<Rightarrow> Some (404, ''Role '' @ name @ '' not found'')
       | _ \<Rightarrow> None)
     (read_role_play agent_id name)"

definition api_get_other_role ::
  "string \<Rightarrow> string \<Rightarrow> string \<Rightarrow> ('z ego_state_scheme, other_role) handler" where
  "api_get_other_role agent_id name other = respond
     (\<lambda>e. case e of
         AgentRoleNotFound _ _ \<Rightarrow> Some (404, ''Role '' @ name @ '' not found'')
       | AgentRoleOtherRoleNotFound _ _ _ \<Rightarrow> Some (404, ''Other role '' @ other @ '' not found'')
       | _ \<Rightarrow> None)
     (read_role_play_other_role agent_id name other)"

definition api_create_role ::
  "('i, 'c, 'j, 'd, 'r) search_env \<Rightarrow> string \<Rightarrow> string \<Rightarrow> string \<Rightarrow> (('i, 'c, 'j, 'd) ego_service, unit) handler" where
  "api_create_role env agent_id name description = respond
     (\<lambda>e. case e of
         AgentRoleAlreadyExists _ _ \<Rightarrow> Some (409, ''Role '' @ name @ '' already exists'')
       | _ \<Rightarrow> None)
     (create_role env agent_id name description)"

definition api_create_role_from ::
  "('i, 'c, 'j, 'd, 'r) search_env \<Rightarrow> string \<Rightarrow> string \<Rightarrow> string \<Rightarrow> (('i, 'c, 'j, 'd) ego_service, unit) handler" where
  "api_create_role_from env agent_id name new_name = respond
     (\<lambda>e. case e of
         AgentRoleNotFound _ _ \<Rightarrow> Some (404, ''Role '' @ name @ '' not found'')
       | AgentRoleAlreadyExists _ _ \<Rightarrow> Some (409, ''Role '' @ new_name @ '' already exists'')
       | _ \<Rightarrow> None)
     (create_role_from env agent_id name new_name)"

definition api_update_role_description ::
  "('i, 'c, 'j, 'd, 'r) search_env \<Rightarrow> string \<Rightarrow> string \<Rightarrow> string \<Rightarrow> (('i, 'c, 'j, 'd) ego_service, unit) handler" where
  "api_update_role_description env agent_id name description = respond
     (\<lambda>e. case e of
         AgentRoleNotFound _ _ \<Rightarrow> Some (404, ''Role '' @ name @ '' not found'')
       | _ \<Rightarrow> None)
     (update_role_description env agent_id name description)"

definition api_update_role_full_name ::
  "('i, 'c, 'j, 'd, 'r) search_env \<Rightarrow> string \<Rightarrow> string \<Rightarrow> string \<Rightarrow> (('i, 'c, 'j, 'd) ego_service, unit) handler" where
  "api_update_role_full_name env agent_id name full_name = respond
     (\<lambda>e. case e of
         AgentRoleNotFound _ _ \<Rightarrow> Some (404, ''Role '' @ name @ '' not found'')
       | _ \<Rightarrow> None)
     (update_role_full_name env agent_id name full_name)"

definition api_replace_other_roles ::
  "string \<Rightarrow> string \<Rightarrow> string list \<Rightarrow> (string \<times> other_role) list \<Rightarrow> ('z ego_state_scheme, unit) handler" where
  "api_replace_other_roles agent_id name removed inserted = respond
     (\<lambda>e. case e of
         AgentRoleNotFound _ _ \<Rightarrow> Some (404, ''Role '' @ name @ '' not found'')
       | _ \<Rightarrow> None)
     (replace_other_roles agent_id name removed inserted)"

definition api_rename_other_role ::
  "string \<Rightarrow> string \<Rightarrow> string \<Rightarrow> string \<Rightarrow> ('z ego_state_scheme, unit) handler" where
  "api_rename_other_role agent_id name other new_name = respond
     (\<lambda>e. case e of
         AgentRoleNotFound _ _ \<Rightarrow> Some (404, ''Role '' @ name @ '' not found'')
       | AgentRoleOtherRoleNotFound _ _ _ \<Rightarrow> Some (404, ''Other role '' @ other @ '' not found'')
       | AgentRoleOtherRoleAlreadyExists _ _ _ \<Rightarrow> Some (409, ''Other role '' @ new_name @ '' already exists'')
       | _ \<Rightarrow> None)
     (rename_other_role agent_id name other new_name)"

definition api_update_other_role_individual_name ::
  "string \<Rightarrow> string \<Rightarrow> string \<Rightarrow> string \<Rightarrow> ('z ego_state_scheme, unit) handler" where
  "api_update_other_role_individual_name agent_id name other new_individual_name = respond
     (\<lambda>e. case e of
         AgentRoleNotFound _ _ \<Rightarrow> Some (404, ''Role '' @ name @ '' not found'')
       | AgentRoleOtherRoleNotFound _ _ _ \<Rightarrow> Some (404, ''Other role '' @ other @ '' not found'')
       | _ \<Rightarrow> None)
     (update_other_role_individual_name agent_id name other new_individual_name)"

definition api_update_other_role_description ::
  "string \<Rightarrow> string \<Rightarrow> string \<Rightarrow> string \<Rightarrow> ('z ego_state_scheme, unit) handler" where
  "api_update_other_role_description agent_id name other new_description = respond
     (\<lambda>e. case e of
         AgentRoleNotFound _ _ \<Rightarrow> Some (404, ''Role '' @ name @ '' not found'')
       | AgentRoleOtherRoleNotFound _ _ _ \<Rightarrow> Some (404, ''Other role '' @ other @ '' not found'')
       | _ \<Rightarrow> None)
     (update_other_role_description agent_id name other new_description)"

definition api_update_other_role_relation ::
  "string \<Rightarrow> string \<Rightarrow> string \<Rightarrow> role_relation \<Rightarrow> ('z ego_state_scheme, unit) handler" where
  "api_update_other_role_relation agent_id name other new_relation = respond
     (\<lambda>e. case e of
         AgentRoleNotFound _ _ \<Rightarrow> Some (404, ''Role '' @ name @ '' not found'')
       | AgentRoleOtherRoleNotFound _ _ _ \<Rightarrow> Some (404, ''Other role '' @ other @ '' not found'')
       | _ \<Rightarrow> None)
     (update_other_role_relation agent_id name other new_relation)"

definition api_replace_other_role_relations ::
  "string \<Rightarrow> string \<Rightarrow> string \<Rightarrow> string list \<Rightarrow> (string \<times> role_relation) list \<Rightarrow> ('z ego_state_scheme, unit) handler" where
  "api_replace_other_role_relations agent_id name other removed inserted = respond
     (\<lambda>e. case e of
         AgentRoleNotFound _ _ \<Rightarrow> Some (404, ''Role '' @ name @ '' not found'')
       | AgentRoleOtherRoleNotFound _ _ _ \<Rightarrow> Some (404, ''Other role '' @ other @ '' not found'')
       | _ \<Rightarrow> None)
     (replace_other_role_relations agent_id name other removed inserted)"

section \<open>Searching\<close>

definition api_search_by_description ::
  "('i, 'c, 'j, 'd, 'r) search_env \<Rightarrow> string \<Rightarrow> (('i, 'c, 'j, 'd) ego_service, string list) handler" where
  "api_search_by_description env keyword =
     respond (\<lambda>_. None) (bind_act (search_manager env) (\<lambda>_. search_by_description env keyword))"

definition api_retrieve_agents ::
  "('i, 'c, 'j, 'd, 'r) search_env \<Rightarrow> string list \<Rightarrow> (('i, 'c, 'j, 'd) ego_service, agent_metadata list) handler" where
  "api_retrieve_agents env agent_ids =
     respond (\<lambda>_. None) (bind_act (search_manager env) (\<lambda>_. retrieve_agents agent_ids))"

definition api_agent_name_completion ::
  "('i, 'c, 'j, 'd, 'r) search_env \<Rightarrow> string \<Rightarrow> (('i, 'c, 'j, 'd) ego_service, (string \<times> 'r) list) handler" where
  "api_agent_name_completion env prefix =
     respond (\<lambda>_. None) (bind_act (search_manager env) (\<lambda>_. name_completion env prefix))"

definition api_search_role_by_description ::
  "('i, 'c, 'j, 'd, 'r) search_env \<Rightarrow> string \<Rightarrow> string option \<Rightarrow> (('i, 'c, 'j, 'd) ego_service, (string \<times> string) list) handler" where
  "api_search_role_by_description env keyword agent_id =
     respond (\<lambda>_. None) (bind_act (search_manager env) (\<lambda>_. search_role_by_description env keyword agent_id))"

definition api_retrieve_roles ::
  "('i, 'c, 'j, 'd, 'r) search_env \<Rightarrow> (string \<times> string) list \<Rightarrow> (('i, 'c, 'j, 'd) ego_service, role list) handler" where
  "api_retrieve_roles env role_keys =
     respond (\<lambda>_. None) (bind_act (search_manager env) (\<lambda>_. retrieve_roles role_keys))"

definition api_role_name_completion ::
  "('i, 'c, 'j, 'd, 'r) search_env \<Rightarrow> string \<Rightarrow> string option \<Rightarrow>
   (('i, 'c, 'j, 'd) ego_service, ((string \<times> string) \<times> 'r) list) handler" where
  "api_role_name_completion env prefix agent_id =
     respond (\<lambda>_. None) (bind_act (search_manager env) (\<lambda>_. role_name_completion env prefix agent_id))"

end
