(* ===== verification/Ego_Run.thy ===== *)
theory Ego_Run
  imports Ego_Api Agent_Nexus
begin

text \<open>
  Runs of the service: sequences of requests with restarts between them, from an empty disk and with
  any faults; and the service as an agent sees it over the network.
\<close>

section \<open>Runs\<close>

text \<open>What was in memory is gone, the indexes and the marks of the search with it.\<close>

definition forget :: "('k, 'a cell) hmap \<Rightarrow> ('k, 'a cell) hmap" where
  "forget m = map (\<lambda>(k, c). (k, c\<lparr>ce_cached := None\<rparr>)) m"

definition restart_service ::
  "('i, 'c, 'j, 'd, 'r) search_env \<Rightarrow> ('i, 'c, 'j, 'd) ego_service \<Rightarrow> ('i, 'c, 'j, 'd) ego_service" where
  "restart_service env s = s
     \<lparr>es_agents := forget (es_agents s), es_individuals := forget (es_individuals s), es_roles := forget (es_roles s),
      es_identity_dirty := [], es_role_dirty := [], sm_started := False, sm_index := ix_empty (se_agents env),
      sm_completion := cp_empty (se_agents env), sm_metadata := [], sm_role_index := ix_empty (se_roles env),
      sm_role_completion := cp_empty (se_roles env), sm_role_metadata := []\<rparr>"

definition new_service :: "('i, 'c, 'j, 'd, 'r) search_env \<Rightarrow> bool list \<Rightarrow> ('i, 'c, 'j, 'd) ego_service" where
  "new_service env faults =
     \<lparr>es_root = False, es_dirs = [], es_uuids = [], es_egos = [], es_agents = [], es_individuals = [], es_roles = [],
      es_identity_dirty = [], es_role_dirty = [], es_faults = faults, sm_started = False, sm_index = ix_empty (se_agents env),
      sm_completion = cp_empty (se_agents env), sm_metadata = [], sm_role_index = ix_empty (se_roles env),
      sm_role_completion = cp_empty (se_roles env), sm_role_metadata = []\<rparr>"

text \<open>What the handlers of the searches call.\<close>

definition find_agents :: "('i, 'c, 'j, 'd, 'r) search_env \<Rightarrow> string \<Rightarrow> ('i, 'c, 'j, 'd, string list) service_op" where
  "find_agents env query = bind_act (search_manager env) (\<lambda>_. search_by_description env query)"

definition find_roles ::
  "('i, 'c, 'j, 'd, 'r) search_env \<Rightarrow> string \<Rightarrow> string option \<Rightarrow> ('i, 'c, 'j, 'd, (string \<times> string) list) service_op" where
  "find_roles env query agent_id = bind_act (search_manager env) (\<lambda>_. search_role_by_description env query agent_id)"

text \<open>The answers to searches are not collected here.\<close>

datatype ego_event = Request ego_request | Find_Agents string | Find_Roles string "string option" | Restart

fun serve_all ::
  "('i, 'c, 'j, 'd, 'r) search_env \<Rightarrow> ego_event list \<Rightarrow> ('i, 'c, 'j, 'd) ego_service \<Rightarrow>
   (ego_error + ego_reply) list \<times> ('i, 'c, 'j, 'd) ego_service" where
  "serve_all env [] s = ([], s)"
| "serve_all env (Request req # es) s =
     (case serve env req s of (r, s1) \<Rightarrow> (case serve_all env es s1 of (rs, s2) \<Rightarrow> (r # rs, s2)))"
| "serve_all env (Find_Agents query # es) s = serve_all env es (snd (find_agents env query s))"
| "serve_all env (Find_Roles query agent_id # es) s = serve_all env es (snd (find_roles env query agent_id s))"
| "serve_all env (Restart # es) s = serve_all env es (restart_service env s)"

text \<open>The same requests to the maps, without searches and restarts.\<close>

fun expect_all :: "ego_request list \<Rightarrow> ego_view \<Rightarrow> (ego_error + ego_reply) list \<times> ego_view" where
  "expect_all [] v = ([], v)"
| "expect_all (req # reqs) v =
     (case expected req v of (r, v1) \<Rightarrow> (case expect_all reqs v1 of (rs, v2) \<Rightarrow> (r # rs, v2)))"

fun requests_of :: "ego_event list \<Rightarrow> ego_request list" where
  "requests_of [] = []"
| "requests_of (Request req # es) = req # requests_of es"
| "requests_of (_ # es) = requests_of es"

definition empty_view :: ego_view where
  "empty_view = \<lparr>vw_agents = \<lambda>_. None, vw_individuals = \<lambda>_. None, vw_roles = \<lambda>_. None\<rparr>"

lemma cell_of_forget: "cell_of (forget m) k = (cell_of m k)\<lparr>ce_cached := None\<rparr>"
  by (induction m) (auto simp: cell_of_def forget_def no_cell_def)

lemma forget_view: "cell_ok c \<Longrightarrow> cell_view (c\<lparr>ce_cached := None\<rparr>) = cell_view c \<and> cell_ok (c\<lparr>ce_cached := None\<rparr>)"
  by (cases "ce_cached c") (auto simp: cell_ok_def cell_view_def split: option.splits json_file.splits)

lemma restart_view: "ego_calm s \<Longrightarrow> view (restart_service env s) = view s \<and> ego_calm (restart_service env s)"
  by (auto simp: restart_service_def view_def ego_calm_def cell_of_forget forget_view fun_eq_iff)

lemma refines_while_dirty: "(\<And>k. refines (sync k) (ret ())) \<Longrightarrow> unseen (while_dirty n dirty sync)"
proof (induction n)
  case 0
  show ?case by (simp add: unseen_def ret_def)
next
  case (Suc n)
  have "unseen (if ks = [] then ret True else bind_act (for_each ks sync) (\<lambda>_. while_dirty n dirty sync))" for ks
    using unseen_skip [OF refines_each [of sync ks, OF Suc.prems] Suc.IH [OF Suc.prems]] by (simp add: unseen_def ret_def)
  then show ?case by (simp add: unseen_def bind_read)
qed

lemma refines_sync_dirty: "refines (sync_identity env i) (ret ())" "refines (sync_role env k) (ret ())"
  unfolding sync_identity_def sync_role_def
  by (intro refines_read refines_skip [OF refines_modify] refines_if refines_sync refines_ret;
      simp add: view_def ego_calm_def)+

lemma unseen_bind: "unseen m \<Longrightarrow> (\<And>x. unseen (f x)) \<Longrightarrow> unseen (bind_act m f)"
  unfolding unseen_def
proof (intro allI impI)
  fix s q s'
  assume all: "\<forall>s q s'. ego_calm s \<longrightarrow> m s = (q, s') \<longrightarrow> view s' = view s \<and> ego_calm s'"
    "\<And>x. \<forall>s q s'. ego_calm s \<longrightarrow> f x s = (q, s') \<longrightarrow> view s' = view s \<and> ego_calm s'"
    and calm: "ego_calm s" and run: "bind_act m f s = (q, s')"
  obtain r s1 where m: "m s = (r, s1)" by force
  with all(1) calm have "view s1 = view s" "ego_calm s1" by blast+
  with run m all(2) show "view s' = view s \<and> ego_calm s'" by (cases r) (auto simp: bind_act_def)
qed

lemma unseen_find: "unseen (find_agents env query)" "unseen (find_roles env query agent_id)"
  unfolding find_agents_def find_roles_def search_by_description_def search_role_by_description_def sync_all_identity_def
    sync_all_roles_def
  by (intro unseen_skip [OF refines_search] unseen_bind refines_while_dirty refines_sync_dirty unseen_read_st)+

lemma unseen_snd: "unseen m \<Longrightarrow> ego_calm s \<Longrightarrow> view (snd (m s)) = view s \<and> ego_calm (snd (m s))"
  unfolding unseen_def by (metis prod.collapse)

lemma serve_all_follows:
  "ego_calm s \<Longrightarrow> serve_all env es s = (rs, s') \<Longrightarrow> expect_all (requests_of es) (view s) = (rs, view s') \<and> ego_calm s'"
proof (induction env es s arbitrary: rs rule: serve_all.induct)
  case (2 env req es s)
  obtain r s1 where 1: "serve env req s = (r, s1)" by force
  obtain rs1 s2 where 2: "serve_all env es s1 = (rs1, s2)" by force
  from refinesD [OF refines_serve "2.prems"(1) 1] have "expected req (view s) = (r, view s1)" "ego_calm s1" by simp_all
  with "2.IH" [OF 1 [symmetric], of rs1] 1 2 "2.prems"(2) show ?case by (auto split: prod.splits)
next
  case (3 env query es s)
  from unseen_snd [OF unseen_find(1) "3.prems"(1), of env query] "3.IH" "3.prems"(2) show ?case by simp
next
  case (4 env query agent_id es s)
  from unseen_snd [OF unseen_find(2) "4.prems"(1), of env query agent_id] "4.IH" "4.prems"(2) show ?case by simp
next
  case (5 env es s)
  from restart_view [OF "5.prems"(1), of env] "5.IH" "5.prems"(2) show ?case by simp
qed simp

lemma new_calm: "True \<notin> set faults \<Longrightarrow> ego_calm (new_service env faults)"
  by (simp add: ego_calm_def new_service_def cell_of_def no_cell_def cell_ok_def)

lemma new_view: "view (new_service env faults) = empty_view"
  by (simp add: view_def new_service_def empty_view_def cell_of_def no_cell_def cell_view_def fun_eq_iff)

lemma served_view:
  assumes "True \<notin> set faults"
  shows "view (snd (serve_all env es (new_service env faults))) = snd (expect_all (requests_of es) empty_view)"
    and "ego_calm (snd (serve_all env es (new_service env faults)))"
  using serve_all_follows [where env = env and es = es, OF new_calm [OF assms, of env] prod.collapse [symmetric]]
  by (simp_all add: new_view)

section \<open>The service as an agent sees it\<close>

text \<open>The clients of \<open>kissbot-agent/src/memory_ego_client.rs\<close>, with the service at the end of the line.\<close>

definition over_http :: "('w, 'a) handler \<Rightarrow> 'w \<Rightarrow> 'a sent \<times> 'w" where
  "over_http h w = (case h w of ((status, answer), w') \<Rightarrow> (Envelope answer, w'))"

definition connected :: "string \<Rightarrow> ('z ego_state_scheme) ego_net" where
  "connected url =
     \<lparr>eg_base_url = url, eg_agent_get = (\<lambda>i. over_http (api_get_agent i)),
      eg_individual_get_all = (\<lambda>i. over_http (api_get_individuals i)),
      eg_role_get = (\<lambda>(i, r). over_http (api_get_role i r))\<rparr>"

lemma refines_run: "refines m n \<Longrightarrow> ego_calm s \<Longrightarrow> \<exists>s'. m s = (fst (n (view s)), s') \<and> view s' = snd (n (view s)) \<and> ego_calm s'"
  using refinesD [of m n s "fst (m s)" "snd (m s)"] by (metis prod.collapse fst_conv snd_conv)

lemma agent_over_http:
  assumes "ego_calm s"
  shows "\<exists>s'. eg_agent_get (connected url) i s =
    (Envelope (case vw_agents (view s) i of Some m \<Rightarrow> api_success m | None \<Rightarrow> api_failure (''Agent '' @ i @ '' not found'')), s') \<and>
    view s' = view s \<and> ego_calm s'"
  using refines_run [OF refines_agent(1) assms, of i]
  by (auto simp: connected_def over_http_def api_get_agent_def respond_def of_agent_def get_entry_def split: option.splits)

lemma role_over_http:
  assumes "ego_calm s"
  shows "\<exists>s'. eg_role_get (connected url) (i, r) s =
    (Envelope (case vw_roles (view s) (i, r) of Some m \<Rightarrow> api_success m | None \<Rightarrow> api_failure (''Role '' @ r @ '' not found'')), s') \<and>
    view s' = view s \<and> ego_calm s'"
  using refines_run [OF refines_role(1) assms, of i r]
  by (auto simp: connected_def over_http_def api_get_role_def respond_def of_role_def get_entry_def split: option.splits)

end
