(* ===== verification/Ego_Names.thy ===== *)
theory Ego_Names
  imports Ego_Run
begin

text \<open>
  A condition on all that the service keeps, in memory and in the files, that holds whatever fails:
  the locale \<open>kept_object\<close> says what such a condition has to survive. It is interpreted for the
  names: a file belongs to the agent and the role that its name says, and the names are codes.
\<close>

section \<open>Conditions on what is stored\<close>

text \<open>What is in memory or in the file.\<close>

definition cell_holds :: "('a \<Rightarrow> bool) \<Rightarrow> 'a cell \<Rightarrow> bool" where
  "cell_holds P c \<longleftrightarrow> (\<forall>x. ce_cached c = Some x \<or> ce_file c = Some (Json_File x) \<longrightarrow> P x)"

text \<open>An operation that keeps \<open>I\<close> and whose result satisfies \<open>P\<close>.\<close>

definition gives :: "('s \<Rightarrow> bool) \<Rightarrow> ('a \<Rightarrow> bool) \<Rightarrow> ('s, 'e, 'a) action \<Rightarrow> bool" where
  "gives I P m \<longleftrightarrow> (\<forall>s. I s \<longrightarrow> I (snd (m s)) \<and> (\<forall>x. fst (m s) = Inr x \<longrightarrow> P x))"

lemma preserves_gives: "preserves I m \<longleftrightarrow> gives I (\<lambda>_. True) m"
  by (simp add: preserves_def gives_def)

lemma gives_preserves: "gives I P m \<Longrightarrow> preserves I m"
  by (simp add: preserves_def gives_def)

lemma gives_bind:
  assumes "gives I P m" and "\<And>x. P x \<Longrightarrow> gives I Q (f x)"
  shows "gives I Q (bind_act m f)"
  unfolding gives_def
proof (intro allI impI)
  fix s assume "I s"
  obtain r s1 where m: "m s = (r, s1)" by force
  with assms(1) \<open>I s\<close> have "I s1" "\<And>x. r = Inr x \<Longrightarrow> P x" by (auto simp: gives_def)
  then show "I (snd (bind_act m f s)) \<and> (\<forall>x. fst (bind_act m f s) = Inr x \<longrightarrow> Q x)"
    using assms(2) m by (cases r) (auto simp: bind_act_def gives_def)
qed

lemma preserves_bind_gives: "gives I P m \<Longrightarrow> (\<And>x. P x \<Longrightarrow> preserves I (f x)) \<Longrightarrow> preserves I (bind_act m f)"
  unfolding preserves_gives by (rule gives_bind)

lemma gives_ret: "P x \<Longrightarrow> gives I P (ret x)"
  by (simp add: gives_def ret_def)

lemma gives_fail: "gives I P (fail e)"
  by (simp add: gives_def fail_def)

lemma gives_read: "(\<And>s. I s \<Longrightarrow> P (g s)) \<Longrightarrow> gives I P (read_st g)"
  by (simp add: gives_def read_st_def)

lemma gives_validate: "gives I (\<lambda>_. valid_code c) (validate_code c)"
  by (simp add: validate_code_def gives_def ret_def fail_def)

lemma gives_mono: "gives I P m \<Longrightarrow> (\<And>x. P x \<Longrightarrow> Q x) \<Longrightarrow> gives I Q m"
  by (simp add: gives_def)

lemma gives_validate_codes: "gives I (\<lambda>_. list_all valid_code cs) (validate_codes cs)"
proof (induction cs)
  case (Cons c cs)
  have "gives I (\<lambda>_. list_all valid_code (c # cs)) (bind_act (validate_code c) (\<lambda>_. validate_codes cs))"
    by (rule gives_bind [OF gives_validate gives_mono [OF Cons]]) simp
  then show ?case by (simp add: validate_codes_def)
qed (simp add: validate_codes_def gives_ret)

lemma preserves_if_ok [preserves_intros]: "preserves I m \<Longrightarrow> preserves I (if_ok m)"
  by (auto simp: preserves_def if_ok_def split: prod.splits sum.splits)

locale kept_object =
  fixes at :: "('z, 'a) place" and P :: "'a \<Rightarrow> bool" and I :: "'z ego_state_scheme \<Rightarrow> bool"
  assumes I_get: "I s \<Longrightarrow> cell_holds P (at_get at s)"
    and I_put: "I s \<Longrightarrow> cell_holds P c \<Longrightarrow> I (at_put at c s)"
    and I_faults: "I (s\<lparr>es_faults := fs\<rparr>) = I s"
begin

lemma preserves_io: "preserves I ego_io"
  by (rule preservesI)
    (auto simp: ego_io_def next_fault_def bind_act_def I_faults ret_def fail_def split: list.splits if_splits)

lemma preserves_cell: "(\<And>c. cell_holds P c \<Longrightarrow> cell_holds P (f c)) \<Longrightarrow> preserves I (change_cell at f)"
  unfolding change_cell_def by (rule preserves_modify_st) (simp add: I_put I_get)

lemma preserves_store: "P x \<Longrightarrow> preserves I (store_cell at x)"
  unfolding store_cell_def
  by (intro preserves_bind preserves_io preserves_cell) (auto simp: cell_holds_def)

lemma preserves_load: "preserves I (load_cell at)"
  unfolding load_cell_def
proof (intro preserves_bind_gives [OF preserves_io [unfolded preserves_gives]])
  show "preserves I (bind_act (read_st (\<lambda>s. ce_file (at_get at s))) (\<lambda>file. case file of
         None \<Rightarrow> fail EE_Io
       | Some Damaged \<Rightarrow> fail EE_Json
       | Some (Json_File x) \<Rightarrow> change_cell at (\<lambda>c. c\<lparr>ce_cached := Some x\<rparr>)))"
  proof (rule preserves_bind_gives [where P = "\<lambda>f. \<forall>x. f = Some (Json_File x) \<longrightarrow> P x"])
    show "gives I (\<lambda>f. \<forall>x. f = Some (Json_File x) \<longrightarrow> P x) (read_st (\<lambda>s. ce_file (at_get at s)))"
      using I_get by (intro gives_read) (auto simp: cell_holds_def)
    fix f :: "'a json_file option" assume "\<forall>x. f = Some (Json_File x) \<longrightarrow> P x"
    then show "preserves I (case f of None \<Rightarrow> fail EE_Io | Some Damaged \<Rightarrow> fail EE_Json
       | Some (Json_File x) \<Rightarrow> change_cell at (\<lambda>c. c\<lparr>ce_cached := Some x\<rparr>))"
      by (auto split: option.splits json_file.splits intro!: preserves_fail preserves_cell simp: cell_holds_def)
  qed
qed

lemma gives_cached: "gives I (\<lambda>c. \<forall>x. c = Some x \<longrightarrow> P x) (read_st (\<lambda>s. ce_cached (at_get at s)))"
  using I_get by (intro gives_read) (auto simp: cell_holds_def)

lemma gives_read_cell:
  assumes "preserves I prepare" and "preserves I missing"
  shows "gives I P (read_cell at prepare missing gone)"
  unfolding read_cell_def
proof (rule gives_bind [OF gives_cached])
  fix c :: "'a option" assume "\<forall>x. c = Some x \<longrightarrow> P x"
  moreover have found: "gives I P (case c of Some x \<Rightarrow> ret x | None \<Rightarrow> fail gone)" if "\<forall>x. c = Some x \<longrightarrow> P x" for c
    using that by (cases c) (auto intro: gives_ret gives_fail)
  moreover have "gives I P (bind_act prepare (\<lambda>_.
           bind_act (read_st (\<lambda>s. ce_file (at_get at s))) (\<lambda>f.
           bind_act (if f = None then missing else ret ()) (\<lambda>_.
           bind_act (load_cell at) (\<lambda>_.
           bind_act (read_st (\<lambda>s. ce_cached (at_get at s))) (\<lambda>cached.
             case cached of Some x \<Rightarrow> ret x | None \<Rightarrow> fail gone))))))"
    using assms preserves_load preserves_read_st unfolding preserves_gives
    by (intro gives_bind [of I "\<lambda>_. True"] gives_bind [OF gives_cached found]) (auto intro: gives_ret)
  ultimately show "gives I P (case c of
         Some x \<Rightarrow> ret x
       | None \<Rightarrow>
           bind_act prepare (\<lambda>_.
           bind_act (read_st (\<lambda>s. ce_file (at_get at s))) (\<lambda>file.
           bind_act (if file = None then missing else ret ()) (\<lambda>_.
           bind_act (load_cell at) (\<lambda>_.
           bind_act (read_st (\<lambda>s. ce_cached (at_get at s))) (\<lambda>cached.
             case cached of Some x \<Rightarrow> ret x | None \<Rightarrow> fail gone))))))"
    by (cases c) (simp_all add: gives_ret)
qed

lemma preserves_write:
  assumes "preserves I prepare" and "\<And>old new. (\<And>x. old = Some x \<Longrightarrow> P x) \<Longrightarrow> op old = Inr new \<Longrightarrow> P new"
  shows "preserves I (write_cell at prepare op)"
proof -
  have load: "preserves I (if b then load_cell at else ret ())" for b
    by (simp add: preserves_load preserves_ret)
  have op: "preserves I (case op old of Inl e \<Rightarrow> fail e
       | Inr new \<Rightarrow> bind_act (change_cell at (\<lambda>c. c\<lparr>ce_cached := Some new\<rparr>)) (\<lambda>_. store_cell at new))"
    if old: "\<forall>x. old = Some x \<longrightarrow> P x" for old
  proof (cases "op old")
    case (Inr new)
    have "P new" by (rule assms(2) [OF _ Inr]) (use old in simp)
    with Inr show ?thesis
      by (auto intro!: preserves_bind preserves_cell preserves_store simp: cell_holds_def)
  qed (simp add: preserves_fail)
  show ?thesis
    unfolding write_cell_def
    by (intro preserves_bind assms(1) preserves_read_st load preserves_bind_gives [OF gives_cached] op) simp
qed

end

section \<open>Names\<close>

definition codes_only :: "(string, 'v) hmap \<Rightarrow> bool" where
  "codes_only m \<longleftrightarrow> fst ` set m \<subseteq> {n. valid_code n}"

definition agent_named :: "string \<Rightarrow> agent_metadata \<Rightarrow> bool" where
  "agent_named i m \<longleftrightarrow> valid_code i \<and> am_agent_id m = i"

definition individuals_named :: "string \<Rightarrow> individual_recognition \<Rightarrow> bool" where
  "individuals_named i r \<longleftrightarrow> ir_agent_id r = i \<and> codes_only (ir_individual_map r)"

definition role_named :: "string \<Rightarrow> string \<Rightarrow> role_play \<Rightarrow> bool" where
  "role_named i r play \<longleftrightarrow> valid_code r \<and> ro_agent_id (rp_role play) = i \<and> ro_role_name (rp_role play) = r \<and>
     codes_only (rp_other_roles play)"

definition names_ok :: "'z ego_state_scheme \<Rightarrow> bool" where
  "names_ok s \<longleftrightarrow> (\<forall>i. cell_holds (agent_named i) (cell_of (es_agents s) i)) \<and>
     (\<forall>i. cell_holds (individuals_named i) (cell_of (es_individuals s) i)) \<and>
     (\<forall>i r. cell_holds (role_named i r) (cell_of (es_roles s) (i, r)))"

interpretation named_agents: kept_object "agent_place i" "agent_named i" names_ok for i
  by unfold_locales (auto simp: agent_place_def names_ok_def cell_of_def)

interpretation named_individuals: kept_object "individuals_place i" "individuals_named i" names_ok for i
  by unfold_locales (auto simp: individuals_place_def names_ok_def cell_of_def)

interpretation named_roles: kept_object "role_place i r" "role_named i r" names_ok for i r
  by unfold_locales (auto simp: role_place_def names_ok_def cell_of_def)

lemma names_other [simp]:
  "names_ok (s\<lparr>es_faults := fs\<rparr>) = names_ok s" "names_ok (s\<lparr>es_root := b\<rparr>) = names_ok s"
  "names_ok (s\<lparr>es_dirs := ds\<rparr>) = names_ok s" "names_ok (s\<lparr>es_uuids := us\<rparr>) = names_ok s"
  "names_ok (s\<lparr>es_egos := gs\<rparr>) = names_ok s" "names_ok (s\<lparr>es_identity_dirty := is\<rparr>) = names_ok s"
  "names_ok (s\<lparr>es_role_dirty := rs\<rparr>) = names_ok s"
  by (simp_all add: names_ok_def)

lemma names_search [simp]:
  "names_ok (s\<lparr>sm_metadata := a\<rparr>) = names_ok s" "names_ok (s\<lparr>sm_index := b\<rparr>) = names_ok s"
  "names_ok (s\<lparr>sm_completion := c\<rparr>) = names_ok s" "names_ok (s\<lparr>sm_role_metadata := d\<rparr>) = names_ok s"
  "names_ok (s\<lparr>sm_role_index := e\<rparr>) = names_ok s" "names_ok (s\<lparr>sm_role_completion := f\<rparr>) = names_ok s"
  "names_ok (s\<lparr>sm_started := g\<rparr>) = names_ok s"
  by (simp_all add: names_ok_def)

lemmas names_io [preserves_intros] = named_agents.preserves_io

lemma names_dirs [preserves_intros]:
  "preserves names_ok (ensure_agent_dir i)" "preserves names_ok (ensure_agent_ego_dir i)"
  "preserves names_ok list_agents" "preserves names_ok (list_roles i)"
proof -
  have fault: "preserves names_ok next_fault"
    by (rule preservesI) (auto simp: next_fault_def split: list.splits)
  have dir: "preserves names_ok (ensure_dir_exists there f p)" if "\<And>s. names_ok s \<Longrightarrow> names_ok (f s)" for there f p
    unfolding ensure_dir_exists_def by (intro preserves_intros fault preserves_modify_st that)
  show "preserves names_ok (ensure_agent_dir i)" "preserves names_ok (ensure_agent_ego_dir i)"
    "preserves names_ok list_agents" "preserves names_ok (list_roles i)"
    unfolding ensure_agent_dir_def ensure_agent_ego_dir_def list_agents_def list_roles_def
    by (intro preserves_intros dir; simp add: with_dir_def)+
qed

lemma names_reads:
  "gives names_ok (agent_named i) (read_agent_metadata i)" "gives names_ok (role_named i r) (read_role_play i r)"
  "gives names_ok (individuals_named i) (read_individual_recognition i)"
  unfolding read_agent_metadata_def read_role_play_def read_individual_recognition_def
  by (intro named_agents.gives_read_cell named_roles.gives_read_cell named_individuals.gives_read_cell names_dirs
      preserves_fail named_individuals.preserves_store; simp add: individuals_named_def codes_only_def)+

lemmas names_read [preserves_intros] = names_reads [THEN gives_preserves]

lemma names_sync [preserves_intros]:
  "preserves names_ok (force_sync_identity env i)" "preserves names_ok (force_sync_role env k)"
  unfolding force_sync_identity_def force_sync_role_def Let_def
  by (intro preserves_intros preserves_modify_st; simp)+

lemma names_manager [preserves_intros]: "preserves names_ok (search_manager env)"
  unfolding search_manager_def by (intro preserves_intros preserves_modify_st; simp)

lemma names_mark [preserves_intros]:
  "preserves names_ok (mark_identity_dirty i)" "preserves names_ok (mark_played_role_dirty i r)"
  unfolding mark_identity_dirty_def mark_played_role_dirty_def by (intro preserves_modify_st; simp)+

text \<open>Changes, given what they do to the names.\<close>

lemma fst_set_hm_remove: "fst ` set (hm_remove k m) = fst ` set m - {k}"
  by (auto simp: hm_remove_def image_iff)

lemma fst_set_replace_entries: "fst ` set (replace_entries removed inserted m) \<subseteq> fst ` set m \<union> fst ` set inserted"
proof -
  have removed: "fst ` set (fold hm_remove ks m) \<subseteq> fst ` set m" for ks and m :: "('a, 'b) hmap"
  proof (induction ks arbitrary: m)
    case (Cons k ks)
    from Cons [of "hm_remove k m"] show ?case by (auto simp: fst_set_hm_remove)
  qed simp
  have inserted: "fst ` set (fold (\<lambda>(k, v). hm_insert k v) es m) \<subseteq> fst ` set m \<union> fst ` set es" for es and m :: "('a, 'b) hmap"
  proof (induction es arbitrary: m)
    case (Cons e es)
    obtain k v where e: "e = (k, v)" by force
    from Cons [of "hm_insert k v m"] show ?case by (simp add: e)
  qed simp
  show ?thesis
    unfolding replace_entries_def by (rule order_trans [OF inserted Un_mono [OF removed order_refl]])
qed

lemma codes_only_replace:
  "codes_only m \<Longrightarrow> list_all valid_code (map fst inserted) \<Longrightarrow> codes_only (replace_entries removed inserted m)"
  unfolding codes_only_def by (rule order_trans [OF fst_set_replace_entries]) (auto simp: list_all_iff)

lemma codes_only_insert: "codes_only m \<Longrightarrow> valid_code k \<Longrightarrow> codes_only (hm_insert k v m)"
  by (simp add: codes_only_def)

lemma codes_only_remove: "codes_only m \<Longrightarrow> codes_only (hm_remove k m)"
  by (auto simp: codes_only_def fst_set_hm_remove)

lemma codes_only_get: "codes_only m \<Longrightarrow> hm_get m k = Some x \<Longrightarrow> valid_code k"
  by (auto simp: codes_only_def dest!: map_of_SomeD)

lemma codes_only_at_key: "codes_only m \<Longrightarrow> at_key k gone f m = Inr m' \<Longrightarrow> codes_only m'"
  by (auto simp: at_key_def intro!: codes_only_insert codes_only_remove dest: codes_only_get split: option.splits)

lemma codes_only_rekey: "codes_only m \<Longrightarrow> valid_code new \<Longrightarrow> rekey k new gone taken m = Inr m' \<Longrightarrow> codes_only m'"
  by (auto simp: rekey_def codes_only_insert codes_only_remove split: option.splits if_splits)

text \<open>The changes of objects, for any error they may have.\<close>

lemma individuals_named_change:
  assumes "\<And>m m'. codes_only m \<Longrightarrow> f m = Inr m' \<Longrightarrow> codes_only m'"
  shows "(\<And>x. old = Some x \<Longrightarrow> individuals_named i x) \<Longrightarrow> individuals_change i f old = Inr new \<Longrightarrow> individuals_named i new"
  using assms by (cases old) (auto simp: individuals_change_def individuals_named_def split: sum.splits)

lemma role_named_change:
  assumes "\<And>m m'. codes_only m \<Longrightarrow> f m = Inr m' \<Longrightarrow> codes_only m'"
  shows "(\<And>x. old = Some x \<Longrightarrow> role_named i r x) \<Longrightarrow> others_change i' r' f old = Inr new \<Longrightarrow> role_named i r new"
  using assms by (cases old) (auto simp: others_change_def role_named_def split: sum.splits)

lemma names_individuals:
  assumes "\<And>m m'. codes_only m \<Longrightarrow> f m = Inr m' \<Longrightarrow> codes_only m'"
  shows "preserves names_ok (write_individual_recognition_ref i (individuals_change i f))"
  unfolding write_individual_recognition_ref_def
  by (rule named_individuals.preserves_write [OF names_dirs(2)]) (rule individuals_named_change [OF assms])

lemma names_others:
  assumes "\<And>m m'. codes_only m \<Longrightarrow> f m = Inr m' \<Longrightarrow> codes_only m'"
  shows "preserves names_ok (write_role_play_ref i r (others_change i r f))"
  unfolding write_role_play_ref_def
  by (rule named_roles.preserves_write [OF names_dirs(2)]) (rule role_named_change [OF assms])

lemma names_at_key:
  "preserves names_ok (write_individual_recognition_ref i (individuals_change i (at_key k gone f)))"
  "preserves names_ok (write_role_play_ref i r (others_change i r (at_key k gone' g)))"
  by (rule names_individuals names_others; erule (1) codes_only_at_key)+

lemma names_role:
  assumes "\<And>x. ro_agent_id (f x) = ro_agent_id x \<and> ro_role_name (f x) = ro_role_name x"
  shows "preserves names_ok (write_role_play_ref i r (change_role i r f))"
  unfolding write_role_play_ref_def
  by (rule named_roles.preserves_write [OF names_dirs(2)]) (auto simp: change_role_def role_named_def assms split: option.splits)

lemma names_create_agent: "preserves names_ok (create_agent env i d)"
  unfolding create_agent_def write_agent_metadata_ref_def
  by (intro preserves_bind_gives [OF gives_validate] preserves_intros named_agents.preserves_write)
    (auto simp: agent_named_def)

lemma names_create_role: "preserves names_ok (create_role env i r d)"
  unfolding create_role_def write_role_play_ref_def
  by (intro preserves_bind_gives [OF gives_validate] preserves_intros named_roles.preserves_write)
    (auto simp: new_role_play_def role_named_def codes_only_def split: option.splits)

lemma names_update_agent: "preserves names_ok (update_agent_description env i d)"
  unfolding update_agent_description_def write_agent_metadata_ref_def
  by (intro preserves_intros named_agents.preserves_write)
    (auto simp: change_agent_description_def agent_named_def split: option.splits if_splits)

lemma names_update_role:
  "preserves names_ok (update_role_description env i r d)" "preserves names_ok (update_role_full_name env i r d)"
  unfolding update_role_description_def update_role_full_name_def
  by (intro preserves_intros names_role; simp)+

lemma names_replace:
  "preserves names_ok (replace_individuals i removed individuals)" "preserves names_ok (replace_other_roles i r removed others)"
  "preserves names_ok (rename_individual i n new)" "preserves names_ok (rename_other_role i r n new)"
  unfolding serve_defs change_individuals change_others
  by (intro preserves_bind_gives [OF gives_validate] preserves_bind_gives [OF gives_validate_codes] names_individuals names_others;
      auto intro: codes_only_replace codes_only_rekey)+

lemma names_create_role_from: "preserves names_ok (create_role_from env i r new)"
  unfolding create_role_from_def
  by (intro preserves_bind_gives [OF gives_validate] preserves_intros names_create_role)

lemma names_validate [preserves_intros]: "preserves names_ok (validate_code c)" "preserves names_ok (validate_codes cs)"
  using gives_preserves [OF gives_validate] gives_preserves [OF gives_validate_codes] by blast+

lemmas names_changes = names_create_agent names_create_role names_create_role_from names_update_agent names_update_role
  names_replace names_at_key

lemma names_single:
  "preserves names_ok (replace_individual_identifiers i n us vs)" "preserves names_ok (replace_individual_other_relations i n ks rs)"
  "preserves names_ok (update_other_role_individual_name i r other d)" "preserves names_ok (update_other_role_description i r other d)"
  "preserves names_ok (update_other_role_relation i r other rel)" "preserves names_ok (replace_other_role_relations i r other ks ors)"
  unfolding replace_individual_identifiers_def replace_individual_other_relations_def update_other_role_individual_name_def
    update_other_role_description_def update_other_role_relation_def replace_other_role_relations_def write_individual_ref_def
    write_role_play_other_role_ref_def change_individuals change_others
  by (intro preserves_bind names_validate names_at_key)+

lemma names_singles_read:
  "preserves names_ok (individual_of i n)" "preserves names_ok (read_role_play_other_role i r other)"
  "preserves names_ok (copy_agent env i new)"
  unfolding individual_of_def read_role_play_other_role_def copy_agent_def by (intro preserves_intros names_create_agent)+

lemma names_serve: "preserves names_ok (serve env req)"
  by (cases req; simp add: replying_with_def;
      intro preserves_bind preserves_ret names_changes names_single names_singles_read names_read)

lemma names_sync_dirty: "preserves names_ok (sync_identity env i)" "preserves names_ok (sync_role env k)"
  unfolding sync_identity_def sync_role_def by (intro preserves_intros preserves_modify_st; simp)+

lemma preserves_while_dirty [preserves_intros]: "(\<And>k. preserves I (sync k)) \<Longrightarrow> preserves I (while_dirty n dirty sync)"
  by (induction n) (auto intro!: preserves_intros)

lemma names_find: "preserves names_ok (find_agents env query)" "preserves names_ok (find_roles env query agent_id)"
  unfolding find_agents_def find_roles_def search_by_description_def search_role_by_description_def sync_all_identity_def
    sync_all_roles_def
  by (intro preserves_intros names_sync_dirty)+

lemma names_restart: "names_ok s \<Longrightarrow> names_ok (restart_service env s)"
  by (simp add: names_ok_def restart_service_def cell_of_forget cell_holds_def)

lemma names_serve_all: "names_ok s \<Longrightarrow> names_ok (snd (serve_all env es s))"
proof (induction env es s rule: serve_all.induct)
  case (2 env req es s)
  obtain r s1 where 1: "serve env req s = (r, s1)" by force
  from preservesD [OF names_serve "2.prems" 1] "2.IH" [OF 1 [symmetric]] 1 show ?case by (auto split: prod.splits)
qed (simp_all add: names_restart names_find [unfolded preserves_def])

lemma names_new: "names_ok (new_service env faults)"
  by (simp add: names_ok_def new_service_def cell_of_def no_cell_def cell_holds_def)

end
