(* ===== verification/Ego_Fresh.thy ===== *)
theory Ego_Fresh
  imports Ego_Names
begin

text \<open>
  What the search of agents finds: without faults of the file system, exactly the agents that are
  stored and match, whatever was changed since the last search. The index is a parameter;
  \<open>index_follows\<close> says what is relied on.
\<close>

section \<open>The index\<close>

text \<open>
  \<open>held\<close> is what was entered into an index for a key, \<open>hit\<close> whether a query matches. Nothing is
  said of entering a key twice, or of removing what was not entered.
\<close>

definition index_follows ::
  "('k, 'i, 'c, 'r) index_ops \<Rightarrow> ('i \<Rightarrow> 'k \<Rightarrow> string list option) \<Rightarrow> (string \<Rightarrow> string list \<Rightarrow> bool) \<Rightarrow> bool" where
  "index_follows ops held hit \<longleftrightarrow>
     held (ix_empty ops) = (\<lambda>_. None) \<and>
     (\<forall>k ts i. held i k = None \<longrightarrow> held (ix_insert ops k ts i) = (held i)(k \<mapsto> ts)) \<and>
     (\<forall>k ts i. held i k = Some ts \<longrightarrow> held (ix_remove ops k ts i) = (held i)(k := None)) \<and>
     (\<forall>q i. set (ix_find ops q i) = {k. \<exists>ts. held i k = Some ts \<and> hit q ts})"

lemma index_followsD:
  assumes "index_follows ops held hit"
  shows "held (ix_empty ops) = (\<lambda>_. None)"
    and "held i k = None \<Longrightarrow> held (ix_insert ops k ts i) = (held i)(k \<mapsto> ts)"
    and "held i k = Some ts \<Longrightarrow> held (ix_remove ops k ts i) = (held i)(k := None)"
    and "set (ix_find ops q i) = {k. \<exists>ts. held i k = Some ts \<and> hit q ts}"
  using assms unfolding index_follows_def by blast+

section \<open>Steps aside\<close>

text \<open>What does not touch the search of agents; directories may be made.\<close>

definition same_search :: "('i, 'c, 'j, 'd) ego_service \<Rightarrow> ('i, 'c, 'j, 'd) ego_service \<Rightarrow> bool" where
  "same_search s0 s \<longleftrightarrow> sm_started s = sm_started s0 \<and> sm_index s = sm_index s0 \<and> sm_metadata s = sm_metadata s0 \<and>
     es_identity_dirty s = es_identity_dirty s0 \<and> set (es_dirs s0) \<subseteq> set (es_dirs s) \<and> set (es_uuids s0) \<subseteq> set (es_uuids s)"

lemma same_refl: "same_search s s"
  by (simp add: same_search_def)

lemma same_trans: "same_search s0 s1 \<Longrightarrow> same_search s1 s2 \<Longrightarrow> same_search s0 s2"
  by (auto simp: same_search_def)

interpretation aside_agents: kept_object "agent_place i" "\<lambda>_. True" "same_search s0" for i s0
  by unfold_locales (simp_all add: cell_holds_def same_search_def agent_place_def)

interpretation aside_individuals: kept_object "individuals_place i" "\<lambda>_. True" "same_search s0" for i s0
  by unfold_locales (simp_all add: cell_holds_def same_search_def individuals_place_def)

interpretation aside_roles: kept_object "role_place i r" "\<lambda>_. True" "same_search s0" for i r s0
  by unfold_locales (simp_all add: cell_holds_def same_search_def role_place_def)

lemmas aside_io [preserves_intros] = aside_agents.preserves_io

lemma aside_dirs [preserves_intros]:
  "preserves (same_search s0) (ensure_agent_dir i)" "preserves (same_search s0) (ensure_agent_ego_dir i)"
  "preserves (same_search s0) list_agents" "preserves (same_search s0) (list_roles i)"
proof -
  have fault: "preserves (same_search s0) next_fault"
    by (rule preservesI) (auto simp: next_fault_def same_search_def split: list.splits)
  have dir: "preserves (same_search s0) (ensure_dir_exists there f p)" if "\<And>s. same_search s0 s \<Longrightarrow> same_search s0 (f s)"
    for there f p
    unfolding ensure_dir_exists_def by (intro preserves_intros fault preserves_modify_st that)
  show "preserves (same_search s0) (ensure_agent_dir i)" "preserves (same_search s0) (ensure_agent_ego_dir i)"
    "preserves (same_search s0) list_agents" "preserves (same_search s0) (list_roles i)"
    unfolding ensure_agent_dir_def ensure_agent_ego_dir_def list_agents_def list_roles_def
    by (intro preserves_intros dir; auto simp: with_dir_def same_search_def)+
qed

lemma aside_reads [preserves_intros]:
  "preserves (same_search s0) (read_agent_metadata i)" "preserves (same_search s0) (read_role_play i r)"
  "preserves (same_search s0) (read_individual_recognition i)"
  unfolding read_agent_metadata_def read_role_play_def read_individual_recognition_def
  by (intro gives_preserves [OF aside_agents.gives_read_cell] gives_preserves [OF aside_roles.gives_read_cell]
      gives_preserves [OF aside_individuals.gives_read_cell] aside_dirs preserves_fail aside_individuals.preserves_store TrueI)+

lemma aside_writes [preserves_intros]:
  "preserves (same_search s0) (write_agent_metadata_ref i op)" "preserves (same_search s0) (write_role_play_ref i r op')"
  "preserves (same_search s0) (write_individual_recognition_ref i op'')"
  unfolding write_agent_metadata_ref_def write_role_play_ref_def write_individual_recognition_ref_def
  by (intro aside_agents.preserves_write aside_roles.preserves_write aside_individuals.preserves_write aside_dirs TrueI)+

lemma aside_role_steps [preserves_intros]:
  "preserves (same_search s0) (force_sync_role env k)" "preserves (same_search s0) (mark_played_role_dirty i r)"
  "preserves (same_search s0) (sync_all_roles env)"
proof -
  show sync: "preserves (same_search s0) (force_sync_role env k)" for k
    unfolding force_sync_role_def Let_def by (intro preserves_intros preserves_modify_st; simp add: same_search_def)
  then show "preserves (same_search s0) (sync_all_roles env)"
    unfolding sync_all_roles_def sync_role_def
    by (intro preserves_intros preserves_modify_st; simp add: same_search_def)
  show "preserves (same_search s0) (mark_played_role_dirty i r)"
    unfolding mark_played_role_dirty_def by (rule preserves_modify_st) (simp add: same_search_def)
qed

lemma aside_validate [preserves_intros]:
  "preserves (same_search s0) (validate_code c)" "preserves (same_search s0) (validate_codes cs)"
  unfolding validate_codes_def validate_code_def by (intro preserves_intros)+

section \<open>What is entered\<close>

text \<open>
  Before the first search nothing is entered; after it, what is entered is what is stored, but for
  what is marked dirty and for \<open>X\<close>.
\<close>

definition search_ok ::
  "('i \<Rightarrow> string \<Rightarrow> string list option) \<Rightarrow> string set \<Rightarrow> ('i, 'c, 'j, 'd) ego_service \<Rightarrow> bool" where
  "search_ok held X s \<longleftrightarrow>
     ego_calm s \<and>
     (\<forall>i. vw_agents (view s) i \<noteq> None \<longrightarrow> i \<in> set (es_dirs s) \<and> i \<in> set (es_uuids s)) \<and>
     held (sm_index s) = hm_get (sm_metadata s) \<and>
     (if sm_started s
      then \<forall>i. i \<notin> set (es_identity_dirty s) \<union> X \<longrightarrow>
        hm_get (sm_metadata s) i = map_option search_metadata (vw_agents (view s) i)
      else \<forall>i. hm_get (sm_metadata s) i = None)"

definition leaves_agents :: "('z, 'a) ego_op \<Rightarrow> bool" where
  "leaves_agents m \<longleftrightarrow>
     (\<forall>s. ego_calm s \<longrightarrow> ego_calm (snd (m s)) \<and> vw_agents (view (snd (m s))) = vw_agents (view s))"

lemma refines_leaves:
  fixes m :: "('z, 'a) ego_op"
  assumes "refines m n" and "\<And>A. preserves (\<lambda>v. vw_agents v = A) n"
  shows "leaves_agents m"
  unfolding leaves_agents_def
proof (intro allI impI)
  fix s :: "'z ego_state_scheme" assume "ego_calm s"
  from refines_run [OF assms(1) this] show "ego_calm (snd (m s)) \<and> vw_agents (view (snd (m s))) = vw_agents (view s)"
    using assms(2) [of "vw_agents (view s)"] by (auto simp: preserves_def)
qed

lemma unseen_leaves: "unseen m \<Longrightarrow> leaves_agents m"
  using unseen_snd by (force simp: leaves_agents_def)

lemma aside_ok:
  assumes "leaves_agents m" and "\<And>s0. preserves (same_search s0) m"
  shows "preserves (search_ok held X) m"
proof (rule preservesI)
  fix s r s' assume ok: "search_ok held X s" and run: "m s = (r, s')"
  from preservesD [OF assms(2) same_refl run] have "same_search s s'" .
  moreover from assms(1) ok run have "ego_calm s'" "vw_agents (view s') = vw_agents (view s)"
    by (auto simp: leaves_agents_def search_ok_def)
  ultimately show "search_ok held X s'" using ok unfolding search_ok_def same_search_def by auto
qed

section \<open>Catching up\<close>

text \<open>The agents of \<open>K\<close> are entered as they are stored, the marks of those of \<open>D\<close> are taken off.\<close>

definition caught_up ::
  "('i \<Rightarrow> string \<Rightarrow> string list option) \<Rightarrow> string set \<Rightarrow> string set \<Rightarrow>
   ('i, 'c, 'j, 'd) ego_service \<Rightarrow> ('i, 'c, 'j, 'd) ego_service \<Rightarrow> bool" where
  "caught_up held K D s s' \<longleftrightarrow>
     ego_calm s' \<and> view s' = view s \<and> held (sm_index s') = hm_get (sm_metadata s') \<and> sm_started s' = sm_started s \<and>
     set (es_identity_dirty s') = set (es_identity_dirty s) - D \<and>
     set (es_dirs s) \<subseteq> set (es_dirs s') \<and> set (es_uuids s) \<subseteq> set (es_uuids s') \<and>
     (\<forall>i. hm_get (sm_metadata s') i =
        (if i \<in> K then map_option search_metadata (vw_agents (view s) i) else hm_get (sm_metadata s) i))"

lemma caught_up_trans: "caught_up held K D s s1 \<Longrightarrow> caught_up held L E s1 s2 \<Longrightarrow> caught_up held (K \<union> L) (D \<union> E) s s2"
  unfolding caught_up_def by auto

lemma caught_up_same:
  "ego_calm s' \<Longrightarrow> view s' = view s \<Longrightarrow> held (sm_index s) = hm_get (sm_metadata s) \<Longrightarrow> same_search s s' \<Longrightarrow> caught_up held {} {} s s'"
  unfolding caught_up_def same_search_def by auto

lemma bind_unit: "bind_act (\<lambda>s. (Inr x, s)) g = g x"
  by (simp add: bind_act_def fun_eq_iff)

lemma bind_if_ok: "bind_act (if_ok m) g s = (case m s of (Inl e, s') \<Rightarrow> g None s' | (Inr x, s') \<Rightarrow> g (Some x) s')"
  by (auto simp: bind_act_def if_ok_def split: prod.splits sum.splits)

lemma force_sync_catches_up:
  assumes follows: "index_follows (se_agents env) held hit" and calm: "ego_calm s"
    and entered: "held (sm_index s) = hm_get (sm_metadata s)"
  shows "\<exists>s'. force_sync_identity env i s = (Inr (), s') \<and> caught_up held {i} {} s s'"
proof -
  let ?s1 = "s\<lparr>sm_metadata := hm_remove i (sm_metadata s)\<rparr>"
  obtain q s2 where read: "read_agent_metadata i ?s1 = (q, s2)" by force
  have "ego_calm ?s1" using calm by simp
  from refinesD [OF refines_agent(1) this read]
  have q: "q = (case vw_agents (view s) i of Some m \<Rightarrow> Inr m | None \<Rightarrow> Inl (AgentNotFound i))"
    and s2: "view s2 = view s" "ego_calm s2"
    by (auto simp: of_agent_def get_entry_def split: option.splits)
  from preservesD [OF aside_reads(1) same_refl read]
  have same: "sm_started s2 = sm_started s" "sm_index s2 = sm_index s" "sm_metadata s2 = hm_remove i (sm_metadata s)"
    "es_identity_dirty s2 = es_identity_dirty s" "set (es_dirs s) \<subseteq> set (es_dirs s2)" "set (es_uuids s) \<subseteq> set (es_uuids s2)"
    by (simp_all add: same_search_def)
  note steps = force_sync_identity_def Let_def bind_read bind_modify bind_if_ok modify_st_def ret_def bind_unit
  note laws = index_followsD [OF follows] entered same s2
  show ?thesis
  proof (cases "vw_agents (view s) i")
    case None
    with q read show ?thesis
      by (cases "hm_get (sm_metadata s) i") (auto simp: steps caught_up_def laws fun_eq_iff)
  next
    case (Some m)
    with q read show ?thesis
      by (cases "hm_get (sm_metadata s) i") (auto simp: steps caught_up_def laws fun_eq_iff)
  qed
qed

lemma sync_catches_up:
  assumes follows: "index_follows (se_agents env) held hit" and calm: "ego_calm s"
    and entered: "held (sm_index s) = hm_get (sm_metadata s)"
  shows "\<exists>s'. sync_identity env i s = (Inr (), s') \<and> caught_up held ({i} \<inter> set (es_identity_dirty s)) {i} s s'"
proof -
  let ?s1 = "s\<lparr>es_identity_dirty := removeAll i (es_identity_dirty s)\<rparr>"
  have "ego_calm ?s1" "view ?s1 = view s" using calm by (simp_all add: ego_calm_def view_def)
  moreover from force_sync_catches_up [OF follows this(1), of i] entered
  obtain s' where "force_sync_identity env i ?s1 = (Inr (), s')" "caught_up held {i} {} ?s1 s'" by auto
  ultimately show ?thesis
    using entered by (cases "i \<in> set (es_identity_dirty s)")
      (auto simp: sync_identity_def bind_read bind_modify ret_def caught_up_def)
qed

lemma each_sync_catches_up:
  assumes follows: "index_follows (se_agents env) held hit"
  shows "ego_calm s \<Longrightarrow> held (sm_index s) = hm_get (sm_metadata s) \<Longrightarrow>
    \<exists>s'. for_each ks (sync_identity env) s = (Inr (), s') \<and> caught_up held (set ks \<inter> set (es_identity_dirty s)) (set ks) s s'"
proof (induction ks arbitrary: s)
  case Nil
  then show ?case by (simp add: ret_def caught_up_same same_refl)
next
  case (Cons k ks)
  from sync_catches_up [OF follows Cons.prems, of k] obtain s1 where
    1: "sync_identity env k s = (Inr (), s1)" "caught_up held ({k} \<inter> set (es_identity_dirty s)) {k} s s1" by blast
  then have "ego_calm s1" "held (sm_index s1) = hm_get (sm_metadata s1)" "set (es_identity_dirty s1) = set (es_identity_dirty s) - {k}"
    by (simp_all add: caught_up_def)
  from Cons.IH [OF this(1,2)] this(3) obtain s2 where
    2: "for_each ks (sync_identity env) s1 = (Inr (), s2)"
      "caught_up held (set ks \<inter> (set (es_identity_dirty s) - {k})) (set ks) s1 s2" by auto
  have sets: "{k} \<inter> set (es_identity_dirty s) \<union> set ks \<inter> (set (es_identity_dirty s) - {k}) = set (k # ks) \<inter> set (es_identity_dirty s)"
    "{k} \<union> set ks = set (k # ks)" by auto
  from caught_up_trans [OF 1(2) 2(2)]
  have "caught_up held (set (k # ks) \<inter> set (es_identity_dirty s)) (set (k # ks)) s s2" unfolding sets .
  with 1(1) 2(1) show ?case by (simp add: bind_act_def)
qed

lemma sync_all_catches_up:
  assumes "index_follows (se_agents env) held hit" and "ego_calm s" and "held (sm_index s) = hm_get (sm_metadata s)"
  shows "\<exists>s'. sync_all_identity env s = (Inr True, s') \<and>
    caught_up held (set (es_identity_dirty s)) (set (es_identity_dirty s)) s s'"
proof (cases "es_identity_dirty s = []")
  case True
  with assms(2,3) caught_up_same [of s s held] show ?thesis
    by (simp add: sync_all_identity_def numeral_2_eq_2 bind_read ret_def same_refl)
next
  case False
  from each_sync_catches_up [OF assms, of "es_identity_dirty s"] obtain s1 where
    1: "for_each (es_identity_dirty s) (sync_identity env) s = (Inr (), s1)"
      "caught_up held (set (es_identity_dirty s)) (set (es_identity_dirty s)) s s1" by auto
  then have "es_identity_dirty s1 = []" by (simp add: caught_up_def)
  with False 1 show ?thesis
    by (simp add: sync_all_identity_def numeral_2_eq_2 bind_act_def read_st_def ret_def)
qed

section \<open>The first search\<close>

lemma list_agents_run:
  assumes "ego_calm s"
  shows "\<exists>ids s'. list_agents s = (Inr ids, s') \<and> set (es_dirs s) \<inter> set (es_uuids s) \<subseteq> set ids \<and>
    view s' = view s \<and> ego_calm s' \<and> same_search s s'"
proof -
  have root: "refines (ensure_dir_exists es_root (\<lambda>s. s\<lparr>es_root := True\<rparr>) ''root'') (ret ())"
    by (rule refines_ensure) (simp_all add: view_def ego_calm_def)
  from refines_run [OF refines_bind [OF root refines_io] assms] obtain s1 where
    1: "bind_act (ensure_dir_exists es_root (\<lambda>s. s\<lparr>es_root := True\<rparr>) ''root'') (\<lambda>_. ego_io) s = (Inr (), s1)"
      "view s1 = view s" "ego_calm s1" by (auto simp: ret_def)
  have "list_agents s = bind_act (bind_act (ensure_dir_exists es_root (\<lambda>s. s\<lparr>es_root := True\<rparr>) ''root'') (\<lambda>_. ego_io))
      (\<lambda>_. read_st (\<lambda>s. filter (\<lambda>i. i \<in> set (es_uuids s)) (es_dirs s))) s"
    by (simp add: list_agents_def bind_assoc)
  with 1(1) have run: "list_agents s = (Inr (filter (\<lambda>i. i \<in> set (es_uuids s1)) (es_dirs s1)), s1)"
    by (simp add: bind_act_def [of "bind_act _ _"] read_st_def)
  from preservesD [OF aside_dirs(3) same_refl run] have "same_search s s1" .
  with run 1(2,3) show ?thesis by (auto simp: same_search_def)
qed

lemma each_started_catches_up:
  assumes follows: "index_follows (se_agents env) held hit"
    and aside: "\<And>i. refines (g i) (ret ())" "\<And>i s0. preserves (same_search s0) (g i)"
  shows "ego_calm s \<Longrightarrow> held (sm_index s) = hm_get (sm_metadata s) \<Longrightarrow>
    \<exists>s'. for_each is (\<lambda>i. bind_act (force_sync_identity env i) (\<lambda>_. g i)) s = (Inr (), s') \<and> caught_up held (set is) {} s s'"
proof (induction "is" arbitrary: s)
  case Nil
  then show ?case by (simp add: ret_def caught_up_same same_refl)
next
  case (Cons i "is")
  from force_sync_catches_up [OF follows Cons.prems, of i] obtain s1 where
    1: "force_sync_identity env i s = (Inr (), s1)" "caught_up held {i} {} s s1" by blast
  then have s1: "ego_calm s1" "held (sm_index s1) = hm_get (sm_metadata s1)" by (simp_all add: caught_up_def)
  from refines_run [OF aside(1) s1(1)] obtain s2 where
    2: "g i s1 = (Inr (), s2)" "view s2 = view s1" "ego_calm s2" by (auto simp: ret_def)
  from caught_up_same [where held = held, OF 2(3,2) s1(2) preservesD [OF aside(2) same_refl 2(1)]]
  have c2: "caught_up held {} {} s1 s2" .
  then have "held (sm_index s2) = hm_get (sm_metadata s2)" by (simp add: caught_up_def)
  from Cons.IH [OF 2(3) this] obtain s3 where
    3: "for_each is (\<lambda>i. bind_act (force_sync_identity env i) (\<lambda>_. g i)) s2 = (Inr (), s3)" "caught_up held (set is) {} s2 s3"
    by blast
  from caught_up_trans [OF caught_up_trans [OF 1(2) c2] 3(2)] have "caught_up held (set (i # is)) {} s s3" by simp
  with 1(1) 2(1) 3(1) show ?case by (auto simp: bind_Inr_conv)
qed

lemma manager_catches_up:
  assumes follows: "index_follows (se_agents env) held hit" and ok: "search_ok held X s"
  shows "\<exists>s'. search_manager env s = (Inr (), s') \<and> search_ok held X s' \<and> sm_started s' \<and> view s' = view s"
proof (cases "sm_started s")
  case True
  with ok show ?thesis by (simp add: search_manager_def bind_read ret_def)
next
  case False
  from ok have calm: "ego_calm s" and entered: "held (sm_index s) = hm_get (sm_metadata s)"
    by (simp_all add: search_ok_def)
  from list_agents_run [OF calm] obtain ids s1 where 1: "list_agents s = (Inr ids, s1)"
    "set (es_dirs s) \<inter> set (es_uuids s) \<subseteq> set ids" "view s1 = view s" "ego_calm s1" "same_search s s1" by blast
  let ?g = "\<lambda>agent_id. bind_act (if_ok (list_roles agent_id)) (\<lambda>names.
         for_each (case names of Some ns \<Rightarrow> ns | None \<Rightarrow> []) (\<lambda>name. force_sync_role env (agent_id, name)))"
  have g: "refines (?g i) (ret ())" "preserves (same_search s0) (?g i)" for i s0
    by (intro refines_if_ok unseen_list refines_each refines_sync preserves_intros)+
  have c1: "caught_up held {} {} s s1" by (rule caught_up_same [where held = held, OF 1(4,3) entered 1(5)])
  then have "held (sm_index s1) = hm_get (sm_metadata s1)" by (simp add: caught_up_def)
  from each_started_catches_up [where g = ?g, OF follows g 1(4) this, of ids] obtain s2 where
    2: "for_each ids (\<lambda>i. bind_act (force_sync_identity env i) (\<lambda>_. ?g i)) s1 = (Inr (), s2)" "caught_up held (set ids) {} s1 s2"
    by blast
  have run: "search_manager env s = (Inr (), s2\<lparr>sm_started := True\<rparr>)"
    using False 1(1) 2(1) by (simp add: search_manager_def bind_read bind_if_ok bind_act_def [of "for_each _ _"] modify_st_def)
  from caught_up_trans [OF c1 2(2)] have c: "caught_up held (set ids) {} s s2" by simp
  have "hm_get (sm_metadata s2) i = map_option search_metadata (vw_agents (view s) i)" for i
  proof (cases "i \<in> set ids")
    case False
    with 1(2) ok have "vw_agents (view s) i = None" by (auto simp: search_ok_def)
    with False c ok \<open>\<not> sm_started s\<close> show ?thesis by (simp add: caught_up_def search_ok_def)
  qed (use c in \<open>simp add: caught_up_def\<close>)
  with c ok have "search_ok held X (s2\<lparr>sm_started := True\<rparr>)" unfolding search_ok_def caught_up_def by auto
  with run c show ?thesis by (simp add: caught_up_def)
qed

lemma manager_ok: "index_follows (se_agents env) held hit \<Longrightarrow> preserves (search_ok held X) (search_manager env)"
  unfolding preserves_def using manager_catches_up by fastforce

section \<open>Changes of agents\<close>

lemma mark_ok: "search_ok held {i} s \<Longrightarrow> search_ok held {} (snd (mark_identity_dirty i s))"
  unfolding mark_identity_dirty_def modify_st_def search_ok_def ego_calm_def view_def by simp

lemma agent_dir_made: "ensure_agent_dir i s = (Inr (), s1) \<Longrightarrow> i \<in> set (es_dirs s1) \<and> i \<in> set (es_uuids s1)"
  by (auto simp: ensure_agent_dir_def ensure_dir_exists_def with_dir_def bind_act_def read_st_def ret_def fail_def
      modify_st_def next_fault_def split: prod.splits sum.splits if_splits list.splits)

lemma written_ok:
  assumes ok: "search_ok held {} s" and run: "write_agent_metadata_ref i op s = (q, s')"
  shows "case q of Inl e \<Rightarrow> search_ok held {} s' | Inr u \<Rightarrow> search_ok held {i} s'"
proof -
  from ok have calm: "ego_calm s" by (simp add: search_ok_def)
  from preservesD [OF aside_writes(1) same_refl run] have same: "same_search s s'" .
  from refinesD [OF refines_agent(2) calm run] have calm': "ego_calm s'"
    and v: "on_agent i op (view s) = (q, view s')" by simp_all
  have made: "i \<in> set (es_dirs s') \<and> i \<in> set (es_uuids s')"
  proof -
    obtain r s1 where 1: "ensure_agent_dir i s = (r, s1)" by force
    from refinesD [OF refines_dirs(1) calm 1] have r: "r = Inr ()" by (simp add: ret_def)
    from 1 r have "i \<in> set (es_dirs s1) \<and> i \<in> set (es_uuids s1)" by (simp add: agent_dir_made)
    moreover have "write_cell (agent_place i) (ret ()) op s1 = (q, s')"
      using run 1 r by (simp add: write_agent_metadata_ref_def write_cell_def bind_act_def [of "ensure_agent_dir i"])
    from preservesD [OF aside_agents.preserves_write [OF preserves_ret TrueI] same_refl this] have "same_search s1 s'" .
    ultimately show ?thesis by (auto simp: same_search_def)
  qed
  show ?thesis
  proof (cases q)
    case (Inl e)
    with v have "view s' = view s" by (auto simp: on_agent_def change_entry_def split: sum.splits)
    with Inl same calm' ok show ?thesis unfolding search_ok_def same_search_def by auto
  next
    case (Inr u)
    with v have "\<And>j. j \<noteq> i \<Longrightarrow> vw_agents (view s') j = vw_agents (view s) j"
      by (auto simp: on_agent_def change_entry_def split: sum.splits dest!: sym [of _ "view s'"])
    note others = this
    have "j \<in> set (es_dirs s') \<and> j \<in> set (es_uuids s')" if "vw_agents (view s') j \<noteq> None" for j
    proof (cases "j = i")
      case False
      with others that same ok show ?thesis unfolding search_ok_def same_search_def by auto
    qed (simp add: made)
    with Inr same calm' ok others show ?thesis unfolding search_ok_def same_search_def by auto
  qed
qed

lemma changed_ok:
  assumes follows: "index_follows (se_agents env) held hit"
  shows "preserves (search_ok held {})
    (bind_act (write_agent_metadata_ref i op) (\<lambda>_. bind_act (search_manager env) (\<lambda>_. mark_identity_dirty i)))"
proof (rule preservesI)
  fix s r s' assume ok: "search_ok held {} s"
    and run: "bind_act (write_agent_metadata_ref i op) (\<lambda>_. bind_act (search_manager env) (\<lambda>_. mark_identity_dirty i)) s = (r, s')"
  obtain q s1 where 1: "write_agent_metadata_ref i op s = (q, s1)" by force
  from written_ok [OF ok 1] have s1: "case q of Inl e \<Rightarrow> search_ok held {} s1 | Inr u \<Rightarrow> search_ok held {i} s1" .
  show "search_ok held {} s'"
  proof (cases q)
    case (Inl e)
    with s1 run 1 show ?thesis by (simp add: bind_act_def)
  next
    case (Inr u)
    with s1 manager_catches_up [OF follows] obtain s2 where 2: "search_manager env s1 = (Inr (), s2)" "search_ok held {i} s2"
      by fastforce
    with run 1 Inr have "s' = snd (mark_identity_dirty i s2)" by (simp add: bind_act_def)
    with mark_ok [OF 2(2)] show ?thesis by simp
  qed
qed

section \<open>Requests\<close>

text \<open>What is done to the maps that are not those of the agents.\<close>

lemma agents_left [preserves_intros]:
  "preserves (\<lambda>v. vw_agents v = A) (of_agent i)" "preserves (\<lambda>v. vw_agents v = A) (of_role i r)"
  "preserves (\<lambda>v. vw_agents v = A) (on_role i r op)" "preserves (\<lambda>v. vw_agents v = A) (on_individuals i op')"
  "preserves (\<lambda>v. vw_agents v = A) (get_entry get gone)"
  by (auto simp: preserves_def of_agent_def of_role_def on_role_def on_individuals_def get_entry_def change_entry_def
      split: option.splits sum.splits)

lemma agents_left_codes [preserves_intros]:
  "preserves (\<lambda>v. vw_agents v = A) (validate_code c)" "preserves (\<lambda>v. vw_agents v = A) (validate_codes cs)"
  unfolding validate_codes_def validate_code_def by (intro preserves_intros)+

lemma agents_left_more [preserves_intros]:
  "preserves (\<lambda>v. vw_agents v = A) (of_individuals i)" "preserves (\<lambda>v. vw_agents v = A) (new_role i r d)"
  unfolding of_individuals_def new_role_def by (intro preserves_intros)+

lemma aside_intros:
  "preserves (search_ok held X) (ensure_agent_dir i)" "preserves (search_ok held X) (validate_code c)"
  "preserves (search_ok held X) (read_agent_metadata i)" "preserves (search_ok held X) (read_role_play i r)"
  "preserves (search_ok held X) (write_role_play_ref i r op)" "preserves (search_ok held X) (mark_played_role_dirty i r)"
  by (rule aside_ok, rule refines_leaves, rule refines_dirs refines_validate refines_agent refines_role refines_mark,
      intro preserves_intros, intro preserves_intros)+

lemma aside_read_st: "preserves (search_ok held X) (read_st g)"
  by (rule preserves_read_st)

lemma preserves_marked:
  "preserves I (bind_act w (\<lambda>_. bind_act m (\<lambda>_. k))) \<Longrightarrow> preserves I (bind_act w (\<lambda>_. bind_act m (\<lambda>_. bind_act k (\<lambda>_. ret x))))"
  using preserves_bind [of I "bind_act w (\<lambda>_. bind_act m (\<lambda>_. k))" "\<lambda>_. ret x"] by (simp add: bind_assoc preserves_ret)

lemma create_agent_ok: "index_follows (se_agents env) held hit \<Longrightarrow> preserves (search_ok held {}) (create_agent env i d)"
  unfolding create_agent_def
  by (intro preserves_bind [OF aside_intros(1)] preserves_bind [OF aside_intros(2)] preserves_bind [OF aside_read_st] preserves_if
      preserves_fail preserves_marked changed_ok)

lemma create_role_ok: "index_follows (se_agents env) held hit \<Longrightarrow> preserves (search_ok held {}) (create_role env i r d)"
  unfolding create_role_def by (intro preserves_bind aside_intros manager_ok)

lemma create_role_from_ok:
  "index_follows (se_agents env) held hit \<Longrightarrow> preserves (search_ok held {}) (create_role_from env i r new)"
  unfolding create_role_from_def by (intro preserves_bind aside_intros create_role_ok manager_ok)

lemma updates_ok:
  assumes "index_follows (se_agents env) held hit"
  shows "preserves (search_ok held {}) (update_agent_description env i d)"
    and "preserves (search_ok held {}) (update_role_description env i r d)"
    and "preserves (search_ok held {}) (update_role_full_name env i r d)"
  unfolding update_agent_description_def update_role_description_def update_role_full_name_def
  by (intro changed_ok [OF assms] preserves_bind aside_intros manager_ok [OF assms])+

text \<open>The requests that do not reach the search.\<close>

fun searched :: "ego_request \<Rightarrow> bool" where
  "searched (Create_Agent i d) = True"
| "searched (Copy_Agent i new) = True"
| "searched (Update_Agent_Description i d) = True"
| "searched (Create_Role i r d) = True"
| "searched (Create_Role_From i r new) = True"
| "searched (Update_Role_Description i r d) = True"
| "searched (Update_Role_Full_Name i r d) = True"
| "searched _ = False"

lemma aside_request: "\<not> searched req \<Longrightarrow> preserves (search_ok held {}) (serve env req)"
proof (rule aside_ok)
  assume plain: "\<not> searched req"
  show "leaves_agents (serve env req)"
    by (rule refines_leaves [OF refines_serve])
      (use plain in \<open>cases req; simp add: replying_with_def; intro preserves_intros\<close>)
  show "preserves (same_search s0) (serve env req)" for s0
    using plain by (cases req; simp add: replying_with_def serve_defs; intro preserves_intros)
qed

lemma serve_ok: "index_follows (se_agents env) held hit \<Longrightarrow> preserves (search_ok held {}) (serve env req)"
proof (cases "searched req")
  case True
  assume "index_follows (se_agents env) held hit"
  with True show ?thesis
    by (cases req; simp add: replying_with_def copy_agent_def;
        intro preserves_bind preserves_ret aside_intros create_agent_ok create_role_ok create_role_from_ok updates_ok)
qed (rule aside_request)

section \<open>Searches\<close>

lemma find_agents_run:
  assumes follows: "index_follows (se_agents env) held hit" and ok: "search_ok held {} s"
  shows "\<exists>ids s'. find_agents env query s = (Inr ids, s') \<and> search_ok held {} s' \<and> view s' = view s \<and>
    es_identity_dirty s' = [] \<and>
    set ids = {i. \<exists>m. vw_agents (view s) i = Some m \<and> hit query (search_metadata m)}"
proof -
  from manager_catches_up [OF follows ok] obtain s1 where
    1: "search_manager env s = (Inr (), s1)" "search_ok held {} s1" "sm_started s1" "view s1 = view s" by blast
  then have "ego_calm s1" "held (sm_index s1) = hm_get (sm_metadata s1)" by (simp_all add: search_ok_def)
  from sync_all_catches_up [OF follows this] obtain s2 where
    2: "sync_all_identity env s1 = (Inr True, s2)" "caught_up held (set (es_identity_dirty s1)) (set (es_identity_dirty s1)) s1 s2"
    by blast
  have entered: "hm_get (sm_metadata s2) i = map_option search_metadata (vw_agents (view s) i)" for i
    using 1(2-4) 2(2) by (simp add: search_ok_def caught_up_def)
  have held: "held (sm_index s2) = hm_get (sm_metadata s2)" and s2: "view s2 = view s"
    using 2(2) 1(4) by (simp_all add: caught_up_def)
  have "search_ok held {} s2" using 1(2,3) 2(2) entered s2 unfolding search_ok_def caught_up_def by auto
  moreover have "find_agents env query s = (Inr (ix_find (se_agents env) query (sm_index s2)), s2)"
    using 1(1) 2(1) by (simp add: find_agents_def search_by_description_def bind_act_def read_st_def)
  moreover have "set (ix_find (se_agents env) query (sm_index s2)) =
      {i. \<exists>m. vw_agents (view s) i = Some m \<and> hit query (search_metadata m)}"
    by (auto simp: index_followsD(4) [OF follows] held entered)
  moreover have "es_identity_dirty s2 = []" using 2(2) by (simp add: caught_up_def)
  ultimately show ?thesis using s2 by blast
qed

lemma find_ok:
  assumes "index_follows (se_agents env) held hit"
  shows "preserves (search_ok held {}) (find_agents env query)"
    and "preserves (search_ok held {}) (find_roles env query agent_id)"
proof -
  show "preserves (search_ok held {}) (find_agents env query)"
  proof (rule preservesI)
    fix s r s' assume "search_ok held {} s" and run: "find_agents env query s = (r, s')"
    from find_agents_run [OF assms this(1), of query] run show "search_ok held {} s'" by auto
  qed
  have "leaves_agents (sync_all_roles env)"
    unfolding sync_all_roles_def
    using unseen_snd [OF refines_while_dirty [OF refines_sync_dirty(2)]] by (force simp: leaves_agents_def)
  from aside_ok [OF this aside_role_steps(3)] show "preserves (search_ok held {}) (find_roles env query agent_id)"
    unfolding find_roles_def search_role_by_description_def by (intro preserves_bind manager_ok [OF assms] preserves_read_st)
qed

lemma served_ok:
  assumes follows: "index_follows (se_agents env) held hit"
  shows "search_ok held {} s \<Longrightarrow> search_ok held {} (snd (serve_all env es s))"
proof (induction es arbitrary: s)
  case (Cons e es)
  show ?case
  proof (cases e)
    case (Request req)
    obtain r s1 where 1: "serve env req s = (r, s1)" by force
    from Cons.IH [OF preservesD [OF serve_ok [OF follows] Cons.prems 1]] Request 1 show ?thesis by (auto split: prod.splits)
  next
    case (Find_Agents query)
    with Cons find_ok(1) [OF follows] show ?thesis by (simp add: preserves_def)
  next
    case (Find_Roles query agent_id)
    with Cons find_ok(2) [OF follows] show ?thesis by (simp add: preserves_def)
  next
    case Restart
    from Cons.prems restart_view [of s env] index_followsD(1) [OF follows]
    have "search_ok held {} (restart_service env s)" by (auto simp: search_ok_def restart_service_def)
    with Cons.IH Restart show ?thesis by simp
  qed
qed simp

lemma new_ok:
  assumes "index_follows (se_agents env) held hit" and "True \<notin> set faults"
  shows "search_ok held {} (new_service env faults)"
  using new_calm [OF assms(2), of env] index_followsD(1) [OF assms(1)]
  by (simp add: search_ok_def new_view empty_view_def) (simp add: new_service_def)

section \<open>Catching up ends\<close>

text \<open>Whatever fails: what cannot be read is taken out.\<close>

lemma force_sync_ends: "\<exists>s'. force_sync_identity env i s = (Inr (), s')" "\<exists>s'. force_sync_role env k s = (Inr (), s')"
  unfolding force_sync_identity_def force_sync_role_def Let_def
  by (simp_all add: bind_read bind_modify bind_if_ok ret_def modify_st_def bind_unit split: prod.splits sum.splits option.splits)

lemma identity_dirty_read: "preserves (\<lambda>s :: ('i, 'c, 'j, 'd) ego_service. es_identity_dirty s = D) (read_agent_metadata i)"
proof (rule preservesI)
  fix s s' :: "('i, 'c, 'j, 'd) ego_service" and r assume "es_identity_dirty s = D" "read_agent_metadata i s = (r, s')"
  with preservesD [OF aside_reads(1) same_refl this(2)] show "es_identity_dirty s' = D" by (simp add: same_search_def)
qed

lemma identity_dirty_left: "preserves (\<lambda>s. es_identity_dirty s = D) (force_sync_identity env i)"
  unfolding force_sync_identity_def Let_def
  by (intro preserves_bind preserves_if_ok identity_dirty_read preserves_if preserves_case_option preserves_ret preserves_read_st
      preserves_modify_st; simp)

interpretation marked_roles: kept_object "role_place i r" "\<lambda>_. True" "\<lambda>s. es_role_dirty s = D" for i r D
  by unfold_locales (simp_all add: cell_holds_def role_place_def)

lemma role_dirty_left: "preserves (\<lambda>s. es_role_dirty s = D) (force_sync_role env k)"
proof -
  have "preserves (\<lambda>s. es_role_dirty s = D) (ensure_agent_ego_dir i)" for i
    by (rule preservesI) (auto simp: ensure_agent_ego_dir_def ensure_dir_exists_def with_dir_def bind_act_def read_st_def ret_def
        fail_def modify_st_def next_fault_def split: prod.splits sum.splits if_splits list.splits)
  from gives_preserves [OF marked_roles.gives_read_cell [OF this preserves_fail]]
  have "preserves (\<lambda>s. es_role_dirty s = D) (read_role_play i r)" for i r unfolding read_role_play_def .
  then show ?thesis
    unfolding force_sync_role_def Let_def
    by (intro preserves_bind preserves_if_ok preserves_if preserves_case_option preserves_ret preserves_read_st preserves_modify_st; simp)
qed

lemma while_dirty_ends:
  assumes step: "\<And>k s. \<exists>s'. sync k s = (Inr (), s') \<and> set (dirty s') = set (dirty s) - {k}"
  shows "\<exists>s'. while_dirty (Suc (Suc n)) dirty sync s = (Inr True, s') \<and> dirty s' = []"
proof -
  have each: "\<exists>s'. for_each ks sync s = (Inr (), s') \<and> set (dirty s') = set (dirty s) - set ks" for ks s
  proof (induction ks arbitrary: s)
    case (Cons k ks)
    obtain s1 where 1: "sync k s = (Inr (), s1)" "set (dirty s1) = set (dirty s) - {k}" using step by blast
    from Cons.IH [of s1] obtain s2 where 2: "for_each ks sync s1 = (Inr (), s2)" "set (dirty s2) = set (dirty s1) - set ks" by blast
    from 1 2 show ?case by (auto simp: bind_Inr_conv)
  qed (simp add: ret_def)
  from each [of "dirty s" s] obtain s' where s': "for_each (dirty s) sync s = (Inr (), s')" "dirty s' = []" by auto
  then show ?thesis by (cases "dirty s = []") (auto simp: bind_read ret_def bind_Inr_conv)
qed

lemma sync_identity_ends: "\<exists>s'. sync_identity env i s = (Inr (), s') \<and> set (es_identity_dirty s') = set (es_identity_dirty s) - {i}"
proof -
  let ?s1 = "s\<lparr>es_identity_dirty := removeAll i (es_identity_dirty s)\<rparr>"
  obtain s2 where 2: "force_sync_identity env i ?s1 = (Inr (), s2)" using force_sync_ends(1) by blast
  from preservesD [OF identity_dirty_left refl 2] 2 show ?thesis
    by (cases "i \<in> set (es_identity_dirty s)") (auto simp: sync_identity_def bind_read bind_modify ret_def)
qed

lemma sync_role_ends: "\<exists>s'. sync_role env k s = (Inr (), s') \<and> set (es_role_dirty s') = set (es_role_dirty s) - {k}"
proof -
  let ?s1 = "s\<lparr>es_role_dirty := removeAll k (es_role_dirty s)\<rparr>"
  obtain s2 where 2: "force_sync_role env k ?s1 = (Inr (), s2)" using force_sync_ends(2) by blast
  from preservesD [OF role_dirty_left refl 2] 2 show ?thesis
    by (cases "k \<in> set (es_role_dirty s)") (auto simp: sync_role_def bind_read bind_modify ret_def)
qed

end
