(* ===== verification/Ego_Promises.thy ===== *)
theory Ego_Promises
  imports Ego_Fresh Agent_Samples
begin

text \<open>
  The properties of the service that keeps what agents know of themselves, with their witnesses, and
  of the agent that asks it.
\<close>

section \<open>Samples\<close>

text \<open>An index that keeps the texts in a list and searches them one by one.\<close>

definition contains_text :: "string \<Rightarrow> string list \<Rightarrow> bool" where
  "contains_text q ts \<longleftrightarrow> list_ex (\<lambda>t. list_ex (\<lambda>n. starts_with (drop n t) q) [0..<Suc (length t)]) ts"

definition list_index :: "('k, ('k, string list) hmap, unit, unit) index_ops" where
  "list_index =
     \<lparr>ix_insert = hm_insert, ix_remove = (\<lambda>k _. hm_remove k),
      ix_find = (\<lambda>q m. filter (\<lambda>k. case hm_get m k of Some ts \<Rightarrow> contains_text q ts | None \<Rightarrow> False) (map fst m)),
      ix_empty = [], cp_insert = (\<lambda>_ _ c. c), cp_remove = (\<lambda>_ _ c. c), cp_complete = (\<lambda>_ _. []), cp_empty = ()\<rparr>"

type_synonym sample_service = "((string, string list) hmap, unit, (string \<times> string, string list) hmap, unit) ego_service"

definition sample_search ::
  "((string, string list) hmap, unit, (string \<times> string, string list) hmap, unit, unit) search_env" where
  "sample_search = \<lparr>se_agents = list_index, se_roles = list_index\<rparr>"

lemma list_index_follows: "index_follows (se_agents sample_search) hm_get contains_text"
  by (auto simp: index_follows_def sample_search_def list_index_def dom_def
      simp flip: dom_map_of_conv_image_fst split: option.splits)

text \<open>An agent whose configuration is empty, asking the service.\<close>

definition sample_service :: "ego_event list \<Rightarrow> sample_service" where
  "sample_service es = snd (serve_all sample_search es (new_service sample_search []))"

definition asking_env :: "sample_service agent_env" where
  "asking_env =
     \<lparr>nv_http = \<lparr>hn_post = (\<lambda>_ _ _ _ w. (No_Answer ''down'', w)), hn_get = (\<lambda>_ _ _ w. (No_Answer ''down'', w))\<rparr>,
      nv_float = (\<lambda>_. JNull), nv_query_last = (\<lambda>_ w. (Inl ''down'', w)), nv_query_recent = (\<lambda>_ w. (Inl ''down'', w)),
      nv_send_message = (\<lambda>_ _ w. (Inl ''down'', w)), nv_ego = connected ''http://ego'',
      nv_window_start = (\<lambda>_ w. (Some ''0'', w)), nv_now = (\<lambda>w. (''t'', w)), nv_uuid = (\<lambda>w. (''k'', w)),
      nv_instant = (\<lambda>w. (5, w))\<rparr>"

definition asking_agent :: "ego_event list \<Rightarrow> sample_service agent_state" where
  "asking_agent es = nexus_new (\<lambda>_. None)
     (\<lambda>_ _ _. \<lparr>mc_list_tools = (\<lambda>_ w. (Inr [], w)), mc_call_tool = (\<lambda>name arguments _ w. ((arguments, Inr (text_result name)), w))\<rparr>)
     [] ''d'' sample_session_files (sample_service es) (fresh_config [])"

section \<open>The maps\<close>



text \<open>C9: without faults of the file system, after any requests, searches and restarts, a search for
  agents finds exactly the agents that exist now and whose id or description as it is now is hit,
  provided the index does what is entered into it and taken out of it: no change is missed, nothing
  that was overwritten is found.
\<close>

theorem searches_current:
  assumes follows: "index_follows (se_agents env) held hit" and calm: "True \<notin> set faults"
  shows "\<exists>ids s'. find_agents env query (snd (serve_all env es (new_service env faults))) = (Inr ids, s') \<and>
    set ids = {i. \<exists>m. vw_agents (snd (expect_all (requests_of es) empty_view)) i = Some m \<and>
      hit query [am_agent_id m, am_description m]}"
  using find_agents_run [OF follows served_ok [OF follows new_ok [OF follows calm], of es], of query]
  by (auto simp: served_view(1) [OF calm] search_metadata_def)

theorem searches_current_witness:
  "\<exists>ids s'. find_agents sample_search ''off''
      (sample_service [Request (Create_Agent ''a'' ''tea''), Find_Agents ''off'', Request (Create_Agent ''b'' ''office''), Restart,
        Request (Update_Agent_Description ''a'' ''coffee''), Find_Agents ''tea'', Request (Update_Agent_Description ''b'' ''home'')]) =
     (Inr ids, s') \<and> set ids = {''a''}"
proof -
  let ?es = "[Request (Create_Agent ''a'' ''tea''), Find_Agents ''off'', Request (Create_Agent ''b'' ''office''), Restart,
        Request (Update_Agent_Description ''a'' ''coffee''), Find_Agents ''tea'', Request (Update_Agent_Description ''b'' ''home'')]"
  have agents: "vw_agents (snd (expect_all (requests_of ?es) empty_view)) =
      [''a'' \<mapsto> \<lparr>am_agent_id = ''a'', am_description = ''coffee''\<rparr>, ''b'' \<mapsto> \<lparr>am_agent_id = ''b'', am_description = ''home''\<rparr>]"
    by (simp add: replying_with_def new_agent_def validate_code_def valid_code_def is_ascii_alphanumeric_def bind_act_def ret_def
        on_agent_def change_entry_def empty_view_def change_agent_description_def)
  have hits: "contains_text ''off'' [''a'', ''coffee'']" "\<not> contains_text ''off'' [''b'', ''home'']" by code_simp+
  have "{i. \<exists>m. vw_agents (snd (expect_all (requests_of ?es) empty_view)) i = Some m \<and>
      contains_text ''off'' [am_agent_id m, am_description m]} = {''a''}"
    unfolding agents using hits by (auto split: if_splits)
  with searches_current [OF list_index_follows, of "[]" "''off''" ?es] show ?thesis by (simp only: sample_service_def list.set empty_iff not_False_eq_True simp_thms)
qed




text \<open>To ask for an agent that does not exist makes it exist for the listing: the answer is that it
  is not there, and then it is listed.
\<close>

theorem unknown_agent_listed:
  fixes s :: "('i, 'c, 'j, 'd) ego_service"
  assumes calm: "ego_calm s" and unknown: "vw_agents (view s) i = None"
  shows "\<exists>s1 ids s2. read_agent_metadata i s = (Inl (AgentNotFound i), s1) \<and> list_agents s1 = (Inr ids, s2) \<and> i \<in> set ids"
proof -
  obtain r s1 where 1: "ensure_agent_dir i s = (r, s1)" by force
  from refinesD [OF refines_dirs(1) calm 1] have s1: "r = Inr ()" "view s1 = view s" "ego_calm s1" by (auto simp: ret_def)
  have "ce_file (at_get (agent_place i) s1) = None" using agents.file_at [OF s1(3), of i] unknown s1(2) by simp
  moreover have "ce_cached (at_get (agent_place i) s) = None"
    using agents.cached_at [OF calm, of i] unknown by (cases "ce_cached (at_get (agent_place i) s)") auto
  ultimately have read: "read_agent_metadata i s = (Inl (AgentNotFound i), s1)"
    using 1 s1(1) by (simp add: read_agent_metadata_def read_cell_def bind_read bind_act_def read_st_def fail_def)
  from list_agents_run [OF s1(3)] obtain ids s2 where
    "list_agents s1 = (Inr ids, s2)" "set (es_dirs s1) \<inter> set (es_uuids s1) \<subseteq> set ids" by blast
  with agent_dir_made 1 s1(1) read show ?thesis by blast
qed

theorem unknown_agent_listed_witness:
  "\<exists>s1 ids s2. read_agent_metadata ''x'' (new_service sample_search []) = (Inl (AgentNotFound ''x''), s1) \<and>
     list_agents s1 = (Inr ids, s2) \<and> ''x'' \<in> set ids"
  by (rule unknown_agent_listed) (simp_all add: new_calm new_view empty_view_def)

text \<open>Whatever can be read and whatever fails, catching up before a search comes to its end in two
  rounds, with no marks left.
\<close>

theorem searches_end:
  "\<exists>s1 s2. sync_all_identity env s = (Inr True, s1) \<and> es_identity_dirty s1 = [] \<and>
     sync_all_roles env s = (Inr True, s2) \<and> es_role_dirty s2 = []"
  using while_dirty_ends [where n = 0 and s = s and sync = "sync_identity env", OF sync_identity_ends]
    while_dirty_ends [where n = 0 and s = s and sync = "sync_role env", OF sync_role_ends]
  unfolding sync_all_identity_def sync_all_roles_def numeral_2_eq_2 by blast

section \<open>Asked by an agent\<close>

text \<open>C23: an agent whose configuration names the service accepts the id of an agent exactly when it is
  empty, reserved or one of the agents that the requests to the service have made, and a role
  exactly when it is empty or made.
\<close>

theorem checks_ask_service:
  assumes "nv_ego env = connected url" and "url \<noteq> []" and calm: "True \<notin> set faults"
    and net: "sn_net s = snd (serve_all search_env es (new_service search_env faults))"
  shows "(fst (verify_agent_exists env i s) = Inr () \<longleftrightarrow>
      i = [] \<or> i = reserved_agent_id \<or> vw_agents (snd (expect_all (requests_of es) empty_view)) i \<noteq> None) \<and>
    (fst (verify_role_exists env i r s) = Inr () \<longleftrightarrow>
      r = [] \<or> vw_roles (snd (expect_all (requests_of es) empty_view)) (i, r) \<noteq> None)"
proof -
  have "ego_calm (sn_net s)" and v: "view (sn_net s) = snd (expect_all (requests_of es) empty_view)"
    using served_view [OF calm] by (simp_all add: net)
  from agent_over_http [OF this(1), of url i] role_over_http [OF this(1), of url i r] assms(1,2) show ?thesis
    by (auto simp: verify_agent_exists_def verify_role_exists_def get_agent_def get_role_def ego_answer_def v api_success_def
        api_failure_def connected_def split: option.splits)
qed

theorem checks_ask_service_witness:
  "let s = asking_agent [Request (Create_Agent ''a'' ''d''), Request (Create_Role ''a'' ''r'' ''d''), Restart] in
   fst (verify_agent_exists asking_env ''a'' s) = Inr () \<and> fst (verify_agent_exists asking_env ''b'' s) \<noteq> Inr () \<and>
   fst (verify_role_exists asking_env ''a'' ''r'' s) = Inr () \<and> fst (verify_role_exists asking_env ''a'' ''s'' s) \<noteq> Inr ()"
proof -
  let ?es = "[Request (Create_Agent ''a'' ''d''), Request (Create_Role ''a'' ''r'' ''d''), Restart]"
  have "sn_net (asking_agent ?es) = snd (serve_all sample_search ?es (new_service sample_search []))"
    by (simp only: asking_agent_def nexus_new_def from_repo_def sample_service_def) simp
  note check = checks_ask_service [of asking_env "''http://ego''", OF _ _ _ this]
  have maps: "vw_agents (snd (expect_all (requests_of ?es) empty_view)) = [''a'' \<mapsto> \<lparr>am_agent_id = ''a'', am_description = ''d''\<rparr>]"
    "vw_roles (snd (expect_all (requests_of ?es) empty_view)) (''a'', ''r'') \<noteq> None"
    "vw_roles (snd (expect_all (requests_of ?es) empty_view)) (''a'', ''s'') = None"
    by (simp_all add: replying_with_def new_agent_def new_role_def new_role_play_def validate_code_def valid_code_def is_ascii_alphanumeric_def bind_act_def ret_def
        on_agent_def on_role_def change_entry_def empty_view_def)
  show ?thesis
    using check [of "''a''" "''r''"] check [of "''a''" "''s''"] check [of "''b''" "''s''"]
    by (simp add: Let_def maps reserved_agent_id_def asking_env_def del: expect_all.simps requests_of.simps)
qed

end
