(* ===== verification/Channel_Server.thy ===== *)
theory Channel_Server
  imports Agent_Config Decision_Model
begin

text \<open>
  The channel server (\<open>kissbot-channel/src\<close>): connections of agents, the users of the messengers
  that they are bound to, and the chunks of attachments that pass through. A messenger is a
  parameter, operations on the whole state; so is what the WebSocket library does with a frame. A
  handler is one step; the server itself and its tables outlive all connections, so only the weak
  references to connections can be gone.
\<close>

section \<open>Data\<close>

datatype channel_error =
    CE_ConnectNotFound "32 word"
  | CE_MessengerNotFound string
  | CE_MessengerAlreadyRegistered string
  | CE_GroupNotFound string
  | CE_UserNotFound string
  | CE_UserAlreadyBound string
  | CE_UserNotBound string
  | CE_AttachmentNotFound string
  | CE_AttachmentPositionOutOfOrder string nat nat
  | CE_InvalidMessage string
  | CE_Tungstenite
  | CE_Json
  | CE_Io
  | CE_Ws
  | CE_OneshotRecv
  | CE_TryFromSlice
  | CE_Request string
  | CE_Response string
  | CE_Internal string
  | CE_External string

text \<open>What is printed of an error; the texts of the libraries' errors are left out.\<close>

fun channel_error_text :: "channel_error \<Rightarrow> string" where
  "channel_error_text (CE_ConnectNotFound c) = ''Connect not found: '' @ nat_digits (unat c)"
| "channel_error_text (CE_MessengerNotFound m) = ''Messenger not found: '' @ m"
| "channel_error_text (CE_MessengerAlreadyRegistered m) = ''Messenger already registered: '' @ m"
| "channel_error_text (CE_GroupNotFound g) = ''Group not found: '' @ g"
| "channel_error_text (CE_UserNotFound u) = ''User not found: '' @ u"
| "channel_error_text (CE_UserAlreadyBound c) = ''User already bound to : '' @ c"
| "channel_error_text (CE_UserNotBound u) = ''User not bound: '' @ u"
| "channel_error_text (CE_AttachmentNotFound k) = ''Attachment not found: '' @ k"
| "channel_error_text (CE_AttachmentPositionOutOfOrder k a b) =
     ''Attachment not found: '' @ k @ '' '' @ nat_digits a @ '' '' @ nat_digits b"
| "channel_error_text (CE_InvalidMessage t) = ''Invalid message: '' @ t"
| "channel_error_text CE_Tungstenite = ''Tungstenite error: ''"
| "channel_error_text CE_Json = ''JSON error: ''"
| "channel_error_text CE_Io = ''IO error: ''"
| "channel_error_text CE_Ws = ''WS error: ''"
| "channel_error_text CE_OneshotRecv = ''Oneshot Recv error: ''"
| "channel_error_text CE_TryFromSlice = ''TryFromSliceError: ''"
| "channel_error_text (CE_Request t) = ''Request error: '' @ t"
| "channel_error_text (CE_Response t) = ''Request error: '' @ t"
| "channel_error_text (CE_Internal t) = ''Internal error: '' @ t"
| "channel_error_text (CE_External t) = ''External error: '' @ t"

record group_info =
  gi_group_id :: string
  gi_group_name :: string

record user_info =
  ui_user_id :: string
  ui_user_name :: string
  ui_group_map :: "(string, group_info) hmap"

record messenger_info =
  mi_messenger_id :: string
  mi_messenger_name :: string
  mi_user_map :: "(string, user_info) hmap"

record bind_request =
  br_messenger_id :: string
  br_user_id :: string

record attachment_download_request =
  dr_messenger_id :: string
  dr_user_id :: string
  dr_group_id :: string
  dr_key :: string

record attachment_payload_response =
  pr_current_pos :: nat
  pr_error_code :: nat
  pr_error_msg :: "string option"

definition payload_errcode_ok :: nat where
  "payload_errcode_ok = 0"

definition payload_errcode_position_out_of_order :: nat where
  "payload_errcode_position_out_of_order = 1"

datatype group_change_type = Joined | Left

record group_change_event =
  ge_msg_id :: string
  ge_notification :: group_change_notification
  ge_change_type :: group_change_type
  ge_time :: string

record user_remove_event =
  ue_msg_id :: string
  ue_notification :: user_remove_notification
  ue_time :: string

text \<open>The recipient is who the notification is about.\<close>

definition group_change_to_incoming_message_event :: "group_change_event \<Rightarrow> incoming_message_event" where
  "group_change_to_incoming_message_event e =
     (let n = ge_notification e in
      \<lparr>ie_recipient_user_id = gcn_user_id n,
       ie_incoming_message =
         \<lparr>im_msg_id = ge_msg_id e, im_messenger_id = gcn_messenger_id n, im_user_id = gcn_user_id n,
          im_group_id = gcn_group_id n, im_messenger_name = gcn_messenger_name n, im_user_name = gcn_user_name n,
          im_group_name = gcn_group_name n,
          im_content = (case ge_change_type e of Joined \<Rightarrow> Content_GroupJoin n | Left \<Rightarrow> Content_GroupLeave n),
          im_time = ge_time e\<rparr>\<rparr>)"

section \<open>State\<close>

text \<open>What is sent to a connection; the numbers that the library gives to requests are left out.\<close>

datatype server_reply =
    Reply_Info messenger_info
  | Reply_Sent outgoing_message_response
  | Reply_Chunk attachment_payload_response
  | Reply_Header attachment_info_response

datatype server_frame =
    Answered "32 word" "server_reply option"
  | Refused "32 word"
  | Push_Join group_change_notification
  | Push_Leave group_change_notification
  | Push_Incoming incoming_message_event
  | Push_User_Removed user_remove_notification
  | Push_Chunk bytes

text \<open>
  The tables of \<open>ChannelServer\<close>: connections, per messenger the connections of its bound users,
  and the uploads and downloads under way. \<open>kc_sent\<close> is what was sent, \<open>kc_faults\<close> says which of
  the next frames cannot be sent.
\<close>

record channel_state =
  kc_next_connect :: "32 word"
  kc_connects :: "32 word list"
  kc_bound :: "(string, (string, 32 word) hmap) hmap"
  kc_receivers :: "(32 word, string \<times> attachment_info) hmap"
  kc_senders :: "(32 word, 32 word \<times> attachment_info) hmap"
  kc_sent :: "(32 word \<times> server_frame) list"
  kc_faults :: "bool list"

type_synonym ('z, 'a) channel_op = "('z channel_state_scheme, channel_error, 'a) action"

text \<open>The trait \<open>Messenger\<close>.\<close>

record 'z messenger_ops =
  mo_get_info :: "('z, messenger_info) channel_op"
  mo_send_message :: "outgoing_message \<Rightarrow> ('z, outgoing_message_response) channel_op"
  mo_send_attachment_payload :: "32 word \<Rightarrow> nat \<Rightarrow> nat \<Rightarrow> bytes \<Rightarrow> ('z, attachment_payload_response) channel_op"
  mo_download_attachment_header :: "attachment_download_request \<Rightarrow> ('z, attachment_info_response) channel_op"
  mo_start_send_download :: "32 word \<Rightarrow> ('z, unit) channel_op"

definition new_channel_server :: channel_state where
  "new_channel_server =
     \<lparr>kc_next_connect = 0, kc_connects = [], kc_bound = [], kc_receivers = [], kc_senders = [], kc_sent = [], kc_faults = []\<rparr>"

section \<open>Connections\<close>

definition send_frame :: "32 word \<Rightarrow> server_frame \<Rightarrow> ('z, unit) channel_op" where
  "send_frame c f s =
     (case kc_faults s of
        True # fs \<Rightarrow> (Inl CE_Ws, s\<lparr>kc_faults := fs\<rparr>)
      | fs \<Rightarrow> (Inr (), s\<lparr>kc_faults := drop 1 fs, kc_sent := kc_sent s @ [(c, f)]\<rparr>))"

definition connect_init :: "('z, 32 word) channel_op" where
  "connect_init s =
     (let c = kc_next_connect s
      in (Inr c, s\<lparr>kc_next_connect := c + 1, kc_connects := List.insert c (kc_connects s)\<rparr>))"

definition close_connect :: "32 word \<Rightarrow> ('z, unit) channel_op" where
  "close_connect c =
     bind_act (read_st (\<lambda>s. c \<in> set (kc_connects s))) (\<lambda>found.
     if \<not> found then fail (CE_ConnectNotFound c)
     else modify_st (\<lambda>s. s\<lparr>kc_connects := removeAll c (kc_connects s),
       kc_bound := map (\<lambda>(m, b). (m, filter (\<lambda>(u, d). d \<noteq> c) b)) (kc_bound s)\<rparr>))"

text \<open>That the messenger itself is made is taken to succeed, as it does for the web messenger.\<close>

definition register_messenger :: "string \<Rightarrow> ('z, unit) channel_op" where
  "register_messenger m =
     bind_act (read_st (\<lambda>s. hm_get (kc_bound s) m)) (\<lambda>found.
     if found = None then modify_st (\<lambda>s. s\<lparr>kc_bound := hm_insert m [] (kc_bound s)\<rparr>)
     else fail (CE_MessengerAlreadyRegistered m))"

section \<open>Requests\<close>

text \<open>What comes as the payload of a request.\<close>

datatype 'a request_payload = No_Payload | Bad_Payload | Payload 'a

definition request_of :: "'a request_payload \<Rightarrow> ('z, 'a) channel_op" where
  "request_of p =
     (case p of
        No_Payload \<Rightarrow> fail (CE_InvalidMessage ''payload is None'')
      | Bad_Payload \<Rightarrow> fail CE_Json
      | Payload x \<Rightarrow> ret x)"

text \<open>
  \<open>wrap_process_json\<close> and \<open>wrap_process_bin\<close>: an answer is sent in any case.
\<close>

definition wrap_process :: "32 word \<Rightarrow> 32 word \<Rightarrow> ('z, server_reply option) channel_op \<Rightarrow> ('z, unit) channel_op" where
  "wrap_process c sn m s =
     (case m s of
        (Inr r, s1) \<Rightarrow> send_frame c (Answered sn r) s1
      | (Inl e, s1) \<Rightarrow> bind_act (send_frame c (Refused sn)) (\<lambda>_. fail e) s1)"

definition bound_of :: "string \<Rightarrow> ('z, (string, 32 word) hmap) channel_op" where
  "bound_of m =
     bind_act (read_st (\<lambda>s. hm_get (kc_bound s) m)) (\<lambda>found.
       case found of Some b \<Rightarrow> ret b | None \<Rightarrow> fail (CE_MessengerNotFound m))"

definition connection :: "32 word \<Rightarrow> string \<Rightarrow> ('z, unit) channel_op" where
  "connection c text =
     bind_act (read_st (\<lambda>s. c \<in> set (kc_connects s))) (\<lambda>there. if there then ret () else fail (CE_Internal text))"

definition set_bound :: "string \<Rightarrow> (string, 32 word) hmap \<Rightarrow> ('z, unit) channel_op" where
  "set_bound m b = modify_st (\<lambda>s. s\<lparr>kc_bound := hm_insert m b (kc_bound s)\<rparr>)"

definition messenger_info_request ::
  "(string \<Rightarrow> 'z messenger_ops) \<Rightarrow> string request_payload \<Rightarrow> ('z, server_reply option) channel_op" where
  "messenger_info_request ms p =
     bind_act (request_of p) (\<lambda>m.
     bind_act (bound_of m) (\<lambda>_.
     bind_act (mo_get_info (ms m)) (\<lambda>info.
     ret (Some (Reply_Info info)))))"

definition bind_agent_user ::
  "(string \<Rightarrow> 'z messenger_ops) \<Rightarrow> 32 word \<Rightarrow> bind_request request_payload \<Rightarrow> ('z, server_reply option) channel_op" where
  "bind_agent_user ms c p =
     bind_act (request_of p) (\<lambda>req.
     bind_act (connection c ''connect_context is None'') (\<lambda>_.
     bind_act (bound_of (br_messenger_id req)) (\<lambda>_.
     bind_act (mo_get_info (ms (br_messenger_id req))) (\<lambda>info.
     if hm_get (mi_user_map info) (br_user_id req) = None then fail (CE_UserNotFound (br_user_id req))
     else
       bind_act (bound_of (br_messenger_id req)) (\<lambda>b.
         case hm_get b (br_user_id req) of
           None \<Rightarrow> bind_act (set_bound (br_messenger_id req) (hm_insert (br_user_id req) c b)) (\<lambda>_. ret None)
         | Some d \<Rightarrow> if d \<noteq> c then fail (CE_UserAlreadyBound (nat_digits (unat d))) else ret None)))))"

definition unbind_agent_user :: "32 word \<Rightarrow> bind_request request_payload \<Rightarrow> ('z, server_reply option) channel_op" where
  "unbind_agent_user c p =
     bind_act (request_of p) (\<lambda>req.
     bind_act (connection c ''connect_context is None'') (\<lambda>_.
     bind_act (bound_of (br_messenger_id req)) (\<lambda>b.
       case hm_get b (br_user_id req) of
         None \<Rightarrow> fail (CE_UserNotBound (br_user_id req))
       | Some d \<Rightarrow>
           if d \<noteq> c then fail (CE_UserAlreadyBound (nat_digits (unat d)))
           else bind_act (set_bound (br_messenger_id req) (hm_remove (br_user_id req) b)) (\<lambda>_. ret None))))"

section \<open>Messages of agents\<close>

fun register_attachment_receivers :: "content \<Rightarrow> string \<Rightarrow> 'z channel_state_scheme \<Rightarrow> 'z channel_state_scheme" where
  "register_attachment_receivers (Content_AttachmentInfoResponse r) m s =
     s\<lparr>kc_receivers := hm_insert (transfer_id r) (m, att_info r) (kc_receivers s)\<rparr>"
| "register_attachment_receivers (Content_Multi items) m s =
     fold (\<lambda>item. register_attachment_receivers item m) items s"
| "register_attachment_receivers _ m s = s"

text \<open>The user of a request must be bound to the connection it comes from.\<close>

definition bound_to :: "32 word \<Rightarrow> string \<Rightarrow> (string, 32 word) hmap \<Rightarrow> ('z, unit) channel_op" where
  "bound_to c user b =
     (case hm_get b user of
        None \<Rightarrow> fail (CE_UserNotFound user)
      | Some d \<Rightarrow> if d \<noteq> c then fail (CE_UserNotBound user) else ret ())"

definition outgoing_message_request ::
  "(string \<Rightarrow> 'z messenger_ops) \<Rightarrow> 32 word \<Rightarrow> outgoing_message request_payload \<Rightarrow> ('z, server_reply option) channel_op" where
  "outgoing_message_request ms c p =
     bind_act (request_of p) (\<lambda>msg.
     bind_act (bound_of (om_messenger_id msg)) (\<lambda>b.
     bind_act (bound_to c (om_user_id msg) b) (\<lambda>_.
     bind_act (mo_send_message (ms (om_messenger_id msg)) msg) (\<lambda>r.
     bind_act (modify_st (register_attachment_receivers (or_content r) (om_messenger_id msg))) (\<lambda>_.
     ret (Some (Reply_Sent r)))))))"

section \<open>Attachments\<close>

text \<open>The header of the WebSocket library: number, type and status, four bytes each.\<close>

definition ws_header_len :: nat where
  "ws_header_len = 12"

definition offset_att_data :: nat where
  "offset_att_data = ws_header_len + 4 + 4 + 8"

text \<open>
  A chunk of an upload. After the last chunk, and after any error, the upload is forgotten. Sums of
  positions and sizes are taken to fit in 64 bits.
\<close>

definition attachment_payload ::
  "(string \<Rightarrow> 'z messenger_ops) \<Rightarrow> bytes \<Rightarrow> ('z, server_reply option) channel_op" where
  "attachment_payload ms data =
     (case parse_attachment_payload_header ws_header_len data of
        None \<Rightarrow> fail CE_Ws
      | Some h \<Rightarrow>
          bind_act (read_st (\<lambda>s. hm_get (kc_receivers s) (ah_id h))) (\<lambda>found.
            case found of
              None \<Rightarrow> fail (CE_AttachmentNotFound (nat_digits (unat (ah_id h))))
            | Some (m, info) \<Rightarrow>
                (\<lambda>s. case mo_send_attachment_payload (ms m) (ah_id h) (unat (ah_size h)) (unat (ah_pos h)) (drop offset_att_data data) s of
                   (r, s1) \<Rightarrow>
                     let success = (case r of Inr a \<Rightarrow> pr_error_code a = payload_errcode_ok | Inl _ \<Rightarrow> False);
                         finished = size_bytes info \<le> unat (ah_pos h) + unat (ah_size h) \<or> \<not> success
                     in (case r of Inr a \<Rightarrow> Inr (Some (Reply_Chunk a)) | Inl e \<Rightarrow> Inl e,
                         if finished then s1\<lparr>kc_receivers := hm_remove (ah_id h) (kc_receivers s1)\<rparr> else s1))))"

definition process_download_request_header ::
  "(string \<Rightarrow> 'z messenger_ops) \<Rightarrow> 32 word \<Rightarrow> attachment_download_request request_payload \<Rightarrow>
   ('z, attachment_info_response \<times> string) channel_op" where
  "process_download_request_header ms c p =
     bind_act (request_of p) (\<lambda>req.
     bind_act (connection c ''connect context is None'') (\<lambda>_.
     bind_act (bound_of (dr_messenger_id req)) (\<lambda>b.
     bind_act (bound_to c (dr_user_id req) b) (\<lambda>_.
     bind_act (mo_download_attachment_header (ms (dr_messenger_id req)) req) (\<lambda>r.
     bind_act (modify_st (\<lambda>s. s\<lparr>kc_senders := hm_insert (transfer_id r) (c, att_info r) (kc_senders s)\<rparr>)) (\<lambda>_.
     ret (r, dr_messenger_id req)))))))"

definition stop_download :: "32 word \<Rightarrow> ('z, unit) channel_op" where
  "stop_download t = modify_st (\<lambda>s. s\<lparr>kc_senders := hm_remove t (kc_senders s)\<rparr>)"

text \<open>The header is answered first; the messenger sends the chunks afterwards.\<close>

definition download_request ::
  "(string \<Rightarrow> 'z messenger_ops) \<Rightarrow> 32 word \<Rightarrow> 32 word \<Rightarrow> attachment_download_request request_payload \<Rightarrow>
   'z channel_state_scheme \<Rightarrow> 'z channel_state_scheme" where
  "download_request ms c sn p s =
     (case process_download_request_header ms c p s of
        (Inl e, s1) \<Rightarrow> snd (send_frame c (Refused sn) s1)
      | (Inr (r, m), s1) \<Rightarrow>
          (case bind_act (send_frame c (Answered sn (Some (Reply_Header r)))) (\<lambda>_. mo_start_send_download (ms m) (transfer_id r)) s1 of
             (Inr _, s2) \<Rightarrow> s2
           | (Inl e, s2) \<Rightarrow> snd (stop_download (transfer_id r) s2)))"

text \<open>A chunk of a download: who it goes to, and the frame up to its data.\<close>

definition type_attachment_payload :: "32 word" where
  "type_attachment_payload = 0x20010001"

definition frame_header :: "32 word \<Rightarrow> 32 word \<Rightarrow> 32 word \<Rightarrow> attachment_payload_header \<Rightarrow> bytes" where
  "frame_header sn type status h =
     to_be_nat 4 (unat sn) @ to_be_nat 4 (unat type) @ to_be_nat 4 (unat status) @ header_bytes h"

definition sender_of_transfer :: "32 word \<Rightarrow> ('z, 32 word \<times> attachment_info) channel_op" where
  "sender_of_transfer t =
     bind_act (read_st (\<lambda>s. hm_get (kc_senders s) t)) (\<lambda>found.
       case found of
         None \<Rightarrow> fail (CE_AttachmentNotFound (nat_digits (unat t)))
       | Some (c, info) \<Rightarrow> bind_act (connection c ''connect context is None'') (\<lambda>_. ret (c, info)))"

text \<open>\<open>sn\<close> and \<open>success\<close> are the library's: the next number of the connection and its code for success.\<close>

definition prepare_download_payload ::
  "(32 word \<Rightarrow> 32 word) \<Rightarrow> 32 word \<Rightarrow> 32 word \<Rightarrow> 32 word \<Rightarrow> 64 word \<Rightarrow> ('z, 32 word \<times> bytes) channel_op" where
  "prepare_download_payload next_sn success t n pos =
     bind_act (sender_of_transfer t) (\<lambda>(c, info).
     ret (next_sn c, frame_header (next_sn c) type_attachment_payload success \<lparr>ah_id = t, ah_size = n, ah_pos = pos\<rparr>))"

text \<open>\<open>answer\<close> is what comes back for a frame from the connection, an acknowledgement or an error.\<close>

definition send_download_payload ::
  "(32 word \<Rightarrow> bytes \<Rightarrow> channel_error + attachment_payload_response) \<Rightarrow>
   32 word \<Rightarrow> nat \<Rightarrow> nat \<Rightarrow> bytes \<Rightarrow> ('z, attachment_payload_response) channel_op" where
  "send_download_payload answer t n pos buf =
     bind_act (sender_of_transfer t) (\<lambda>(c, info) s.
       case bind_act (send_frame c (Push_Chunk buf)) (\<lambda>_. of_result (answer c buf)) s of
         (r, s1) \<Rightarrow>
           let is_last = size_bytes info \<le> pos + n;
               is_error = (case r of Inr a \<Rightarrow> pr_error_code a \<noteq> payload_errcode_ok | Inl _ \<Rightarrow> True)
           in (r, if is_error \<or> is_last then snd (stop_download t s1) else s1))"

section \<open>Events of messengers\<close>

definition connection_of_user :: "string \<Rightarrow> string \<Rightarrow> ('z, 32 word) channel_op" where
  "connection_of_user m user =
     bind_act (bound_of m) (\<lambda>b.
       case hm_get b user of
         None \<Rightarrow> fail (CE_UserNotFound user)
       | Some c \<Rightarrow>
           bind_act (read_st (\<lambda>s. c \<in> set (kc_connects s))) (\<lambda>there.
           if there then ret c else fail (CE_ConnectNotFound c)))"

definition process_incoming_message :: "incoming_message_event \<Rightarrow> ('z, unit) channel_op" where
  "process_incoming_message e =
     bind_act (connection_of_user (im_messenger_id (ie_incoming_message e)) (ie_recipient_user_id e)) (\<lambda>c.
     send_frame c (Push_Incoming e))"

text \<open>\<open>handle_...\<close>: an error is only logged.\<close>

definition handle :: "('z, unit) channel_op \<Rightarrow> 'z channel_state_scheme \<Rightarrow> 'z channel_state_scheme" where
  "handle m s = snd (m s)"

definition handle_incoming_message :: "incoming_message_event \<Rightarrow> 'z channel_state_scheme \<Rightarrow> 'z channel_state_scheme" where
  "handle_incoming_message e = handle (process_incoming_message e)"

definition process_group_change :: "group_change_event \<Rightarrow> ('z, unit) channel_op" where
  "process_group_change e =
     (let n = ge_notification e;
          told = modify_st (handle_incoming_message (group_change_to_incoming_message_event e)) in
      bind_act (connection_of_user (gcn_messenger_id n) (gcn_user_id n)) (\<lambda>c.
        case ge_change_type e of
          Joined \<Rightarrow> bind_act (send_frame c (Push_Join n)) (\<lambda>_. told)
        | Left \<Rightarrow> bind_act told (\<lambda>_. send_frame c (Push_Leave n))))"

definition handle_group_change :: "group_change_event \<Rightarrow> 'z channel_state_scheme \<Rightarrow> 'z channel_state_scheme" where
  "handle_group_change e = handle (process_group_change e)"

definition process_user_remove :: "user_remove_event \<Rightarrow> ('z, unit) channel_op" where
  "process_user_remove e =
     (let n = ue_notification e in
      bind_act (bound_of (urn_messenger_id n)) (\<lambda>b.
        case hm_get b (urn_user_id n) of
          None \<Rightarrow> fail (CE_UserNotFound (urn_user_id n))
        | Some c \<Rightarrow>
            bind_act (set_bound (urn_messenger_id n) (hm_remove (urn_user_id n) b)) (\<lambda>_.
            bind_act (read_st (\<lambda>s. c \<in> set (kc_connects s))) (\<lambda>there.
            if there then send_frame c (Push_User_Removed n) else fail (CE_ConnectNotFound c)))))"

definition handle_user_remove :: "user_remove_event \<Rightarrow> 'z channel_state_scheme \<Rightarrow> 'z channel_state_scheme" where
  "handle_user_remove e = handle (process_user_remove e)"

section \<open>Attachments in what an agent sends\<close>

text \<open>
  \<open>process_content\<close> (\<open>attachment.rs\<close>), with the registry as a parameter.
\<close>

fun process_content ::
  "(attachment_info \<Rightarrow> ('s, 'e, attachment_info_response) action) \<Rightarrow> content \<Rightarrow> ('s, 'e, content) action"
and process_contents ::
  "(attachment_info \<Rightarrow> ('s, 'e, attachment_info_response) action) \<Rightarrow> content list \<Rightarrow> ('s, 'e, content list) action" where
  "process_content register (Content_AttachmentInfo info) =
     bind_act (register info) (\<lambda>r. ret (Content_AttachmentInfoResponse r))"
| "process_content register (Content_Multi items) =
     bind_act (process_contents register items) (\<lambda>items'. ret (Content_Multi items'))"
| "process_content register c = ret c"
| "process_contents register [] = ret []"
| "process_contents register (c # cs) =
     bind_act (process_content register c) (\<lambda>c'.
     bind_act (process_contents register cs) (\<lambda>cs'. ret (c' # cs')))"

section \<open>What the server relies on\<close>

lemma keeps_sum [keeps_intros]:
  "(\<And>x. keeps f (m x)) \<Longrightarrow> (\<And>y. keeps f (n y)) \<Longrightarrow> keeps f (case r of Inl x \<Rightarrow> m x | Inr y \<Rightarrow> n y)"
  by (cases r) simp_all

lemma keeps_server_reads [keeps_intros]:
  "keeps f (request_of p)" "keeps f (bound_of m)" "keeps f (connection c x)" "keeps f (bound_to c u b)" "keeps f (sender_of_transfer t)"
proof -
  show "keeps f (request_of p)" unfolding request_of_def by (cases p; simp; intro keeps_intros)
  show "keeps f (bound_of m)" "keeps f (bound_to c u b)" unfolding bound_of_def bound_to_def by (intro keeps_intros)+
  show there: "keeps f (connection c x)" for c x unfolding connection_def by (intro keeps_intros)
  show "keeps f (sender_of_transfer t)" unfolding sender_of_transfer_def by (intro keeps_intros there)
qed

text \<open>
  A part of the state that is neither what was sent nor the transfers, and that no operation of a
  messenger changes, is left alone by every request to the server but those that bind.
\<close>

locale messenger_aside =
  fixes ms :: "string \<Rightarrow> 'z messenger_ops"
    and own :: "'z channel_state_scheme \<Rightarrow> 'o"
  assumes get_info: "keeps own (mo_get_info (ms m))"
    and send_message: "keeps own (mo_send_message (ms m) msg)"
    and send_payload: "keeps own (mo_send_attachment_payload (ms m) t n pos data)"
    and download_header: "keeps own (mo_download_attachment_header (ms m) req)"
    and start_download: "keeps own (mo_start_send_download (ms m) t)"
    and own_sent: "own (s\<lparr>kc_sent := sent\<rparr>) = own s"
    and own_faults: "own (s\<lparr>kc_faults := faults\<rparr>) = own s"
    and own_receivers: "own (s\<lparr>kc_receivers := receivers\<rparr>) = own s"
    and own_senders: "own (s\<lparr>kc_senders := senders\<rparr>) = own s"
begin

lemmas own_aside = own_sent own_faults own_receivers own_senders

lemma own_send_frame: "keeps own (send_frame c f)"
  by (rule keepsI) (auto simp: send_frame_def own_aside split: list.splits bool.splits)

lemma own_stop_download: "keeps own (stop_download t)"
  unfolding stop_download_def by (intro keeps_modify_st) (simp add: own_aside)

lemma own_wrap_process: "keeps own m \<Longrightarrow> keeps own (wrap_process c sn m)"
proof (rule keepsI)
  fix s r s' assume m: "keeps own m" and run: "wrap_process c sn m s = (r, s')"
  obtain a s1 where m1: "m s = (a, s1)" by (cases "m s")
  from keepsD [OF m m1] have s1: "own s1 = own s" .
  have bad: "keeps own (bind_act (send_frame c (Refused sn)) (\<lambda>_. fail e))" for e
    by (intro keeps_intros own_send_frame)
  show "own s' = own s"
  proof (cases a)
    case (Inl e)
    with run m1 have "bind_act (send_frame c (Refused sn)) (\<lambda>_. fail e) s1 = (r, s')" by (simp add: wrap_process_def)
    from keepsD [OF bad this] s1 show ?thesis by simp
  next
    case (Inr x)
    with run m1 have "send_frame c (Answered sn x) s1 = (r, s')" by (simp add: wrap_process_def)
    from keepsD [OF own_send_frame this] s1 show ?thesis by simp
  qed
qed

lemma own_register_receivers: "own (register_attachment_receivers x m s) = own s"
proof (induction x m s rule: register_attachment_receivers.induct)
  case (2 items m s)
  have "own (fold (\<lambda>item. register_attachment_receivers item m) xs s) = own s" if "set xs \<subseteq> set items" for xs s
    using that 2 by (induction xs arbitrary: s) auto
  then show ?case by simp
qed (simp_all add: own_aside)

lemma own_requests:
  "keeps own (messenger_info_request ms p)" "keeps own (outgoing_message_request ms c q)"
  "keeps own (attachment_payload ms data)" "keeps own (process_download_request_header ms c d)"
proof -
  show "keeps own (messenger_info_request ms p)"
    unfolding messenger_info_request_def by (intro keeps_intros get_info)
  show "keeps own (outgoing_message_request ms c q)"
    unfolding outgoing_message_request_def by (intro keeps_intros keeps_modify_st send_message own_register_receivers)
  show "keeps own (process_download_request_header ms c d)"
    unfolding process_download_request_header_def
    by (intro keeps_intros keeps_modify_st download_header) (simp add: own_aside)
  show "keeps own (attachment_payload ms data)"
    by (auto intro!: keepsI simp: attachment_payload_def Let_def bind_act_def read_st_def fail_def own_aside
        dest!: keepsD [OF send_payload] split: option.splits prod.splits if_splits)
qed

lemma own_download_request: "own (download_request ms c sn p s) = own s"
proof -
  have sent: "own (snd (send_frame c f s)) = own s" for c f s using own_send_frame by (simp add: keeps_def)
  have stop: "own (snd (stop_download t s)) = own s" for t s using own_stop_download by (simp add: keeps_def)
  have go: "keeps own (bind_act (send_frame c f) (\<lambda>_. mo_start_send_download (ms m) t))" for c f m t
    by (intro keeps_intros own_send_frame start_download)
  show ?thesis
    by (auto simp: download_request_def sent stop split: prod.splits sum.splits
        dest!: keepsD [OF own_requests(4)] keepsD [OF go])
qed

end

end
