(* ===== verification/Web_Messenger.thy ===== *)
theory Web_Messenger
  imports Channel_Server
begin

text \<open>
  The web messenger (\<open>kissbot-channel-web/src/messenger.rs\<close> and the writer of \<open>message_store.rs\<close>):
  users and groups, who may write where, the files of messages, and who gets a message once it is
  stored. The appender of the library is a queue of which the next entries for a key are written at
  once; what is stored comes to a second queue, from which it is sent out.
\<close>

section \<open>Data\<close>

record user_config =
  uc_user_id :: string
  uc_user_name :: string

text \<open>Sets of members are lists without repetitions, in any order.\<close>

record group_config =
  gc_group_id :: string
  gc_group_name :: string
  gc_members :: "string list"

record web_repo =
  wr_messenger_id :: string
  wr_admin_name :: string
  wr_users :: "(string, user_config) hmap"
  wr_groups :: "(string, group_config) hmap"
  wr_next_user_seq :: "32 word"
  wr_next_group_seq :: "32 word"

record msg_key =
  mk_group_id :: string
  mk_date :: string

record attachment_meta =
  at_key :: string
  at_info :: attachment_info

text \<open>
  \<open>wm_queue\<close> is what was appended and not written, \<open>wm_stored\<close> what was written and not sent out,
  \<open>wm_pushed\<close> what went to the pages of the administrator. The fields from \<open>wm_transfer_seq\<close> on are
  those of the store of attachments: per key the metadata, the file that is uploaded and the file;
  per transfer the key and position of an upload, and the key of a download. \<open>wm_clock\<close> and
  \<open>wm_uuid\<close> are the times and ids that will come, \<open>wm_disk\<close> which steps of the file system fail.
\<close>

record web_state = channel_state +
  wm_messenger_id :: string
  wm_repo :: web_repo
  wm_repo_file :: "web_repo json_file option"
  wm_msg_seq :: "32 word"
  wm_queue :: "(msg_key \<times> incoming_message) list"
  wm_files :: "(msg_key, incoming_message list) hmap"
  wm_dates :: "(string, string list) hmap"
  wm_stored :: "incoming_message list list"
  wm_pushed :: "incoming_message list"
  wm_transfer_seq :: "32 word"
  wm_metas :: "(string, attachment_meta) hmap"
  wm_uploading :: "(string, bytes) hmap"
  wm_complete :: "(string, bytes) hmap"
  wm_uploads :: "(32 word, string \<times> nat) hmap"
  wm_transfers :: "(32 word, string) hmap"
  wm_tasks :: "32 word list"
  wm_clock :: "nat \<Rightarrow> string"
  wm_ticks :: nat
  wm_uuid :: "nat \<Rightarrow> string"
  wm_uuids :: nat
  wm_disk :: "bool list"

type_synonym 'a web_op = "(web_state, channel_error, 'a) action"

definition admin_user_group_prefix :: string where
  "admin_user_group_prefix = ''a_''"

definition web_messenger_name :: string where
  "web_messenger_name = ''Web Chat''"

definition admin_user_id :: string where
  "admin_user_id = ''admin''"

definition user_id_prefix :: string where
  "user_id_prefix = ''u''"

definition group_id_prefix :: string where
  "group_id_prefix = ''g''"

definition admin_user_group_id :: "string \<Rightarrow> string" where
  "admin_user_group_id user_id = admin_user_group_prefix @ user_id"

section \<open>The surroundings\<close>

definition web_io :: "unit web_op" where
  "web_io s = (case wm_disk s of
      True # fs \<Rightarrow> (Inl CE_Io, s\<lparr>wm_disk := fs\<rparr>)
    | fs \<Rightarrow> (Inr (), s\<lparr>wm_disk := drop 1 fs\<rparr>))"

text \<open>The time as \<open>%Y-%m-%d %H:%M:%S\<close>.\<close>

definition web_now :: "string web_op" where
  "web_now s = (Inr (wm_clock s (wm_ticks s)), s\<lparr>wm_ticks := Suc (wm_ticks s)\<rparr>)"

definition web_new_uuid :: "string web_op" where
  "web_new_uuid s = (Inr (wm_uuid s (wm_uuids s)), s\<lparr>wm_uuids := Suc (wm_uuids s)\<rparr>)"

text \<open>\<open>{:06}\<close>.\<close>

definition six_digits :: "nat \<Rightarrow> string" where
  "six_digits n = (let d = nat_digits n in replicate (6 - length d) (CHR ''0'') @ d)"

text \<open>The time in the id has no separators.\<close>

definition next_msg_id :: "string web_op" where
  "next_msg_id =
     bind_act web_now (\<lambda>now.
     bind_act (read_st wm_msg_seq) (\<lambda>seq.
     bind_act (modify_st (\<lambda>s. s\<lparr>wm_msg_seq := seq + 1\<rparr>)) (\<lambda>_.
     ret (filter (\<lambda>c. c \<notin> set ''- :'') now @ six_digits (unat seq mod 1000000)))))"

section \<open>The repository\<close>

text \<open>What \<open>op\<close> changed stays in memory when writing fails.\<close>

definition write_config :: "(web_repo \<Rightarrow> channel_error + ('a \<times> web_repo)) \<Rightarrow> 'a web_op" where
  "write_config op =
     bind_act (read_st wm_repo) (\<lambda>repo.
       case op repo of
         Inl e \<Rightarrow> fail e
       | Inr (x, repo') \<Rightarrow>
           bind_act (modify_st (\<lambda>s. s\<lparr>wm_repo := repo'\<rparr>)) (\<lambda>_.
           bind_act web_io (\<lambda>_.
           bind_act (modify_st (\<lambda>s. s\<lparr>wm_repo_file := Some Damaged\<rparr>)) (\<lambda>_.
           bind_act web_io (\<lambda>_.
           bind_act (modify_st (\<lambda>s. s\<lparr>wm_repo_file := Some (Json_File repo')\<rparr>)) (\<lambda>_.
           ret x))))))"

definition is_admin_user_group_for :: "string \<Rightarrow> string \<Rightarrow> bool" where
  "is_admin_user_group_for user_id group_id \<longleftrightarrow> group_id = admin_user_group_id user_id"

definition parse_admin_user_group_ref :: "web_repo \<Rightarrow> string \<Rightarrow> string option" where
  "parse_admin_user_group_ref cfg group_id =
     (case strip_prefix admin_user_group_prefix group_id of
        None \<Rightarrow> None
      | Some uid \<Rightarrow> if hm_get (wr_users cfg) uid \<noteq> None then Some uid else None)"

definition user_name_of :: "web_repo \<Rightarrow> string \<Rightarrow> string" where
  "user_name_of cfg user_id = (case hm_get (wr_users cfg) user_id of Some u \<Rightarrow> uc_user_name u | None \<Rightarrow> [])"

definition resolve_names :: "web_repo \<Rightarrow> string \<Rightarrow> string \<Rightarrow> string \<times> string \<times> string" where
  "resolve_names cfg user_id group_id =
     (web_messenger_name,
      if user_id = admin_user_id then wr_admin_name cfg else user_name_of cfg user_id,
      if starts_with group_id admin_user_group_prefix
      then (case parse_admin_user_group_ref cfg group_id of Some uid \<Rightarrow> user_name_of cfg uid | None \<Rightarrow> [])
      else (case hm_get (wr_groups cfg) group_id of Some g \<Rightarrow> gc_group_name g | None \<Rightarrow> []))"

definition notify_group_change :: "string \<Rightarrow> string \<Rightarrow> group_change_type \<Rightarrow> string \<Rightarrow> unit web_op" where
  "notify_group_change user_id group_id change time =
     bind_act (read_st (\<lambda>s. (wm_messenger_id s, resolve_names (wm_repo s) user_id group_id))) (\<lambda>(mid, messenger, user, grp).
     bind_act next_msg_id (\<lambda>id.
     modify_st (handle_group_change
       \<lparr>ge_msg_id = id,
        ge_notification = \<lparr>gcn_messenger_id = mid, gcn_group_id = group_id, gcn_user_id = user_id,
          gcn_messenger_name = messenger, gcn_user_name = user, gcn_group_name = grp\<rparr>,
        ge_change_type = change, ge_time = time\<rparr>)))"

definition update_admin_name :: "string \<Rightarrow> unit web_op" where
  "update_admin_name name = write_config (\<lambda>r. Inr ((), r\<lparr>wr_admin_name := name\<rparr>))"

definition rename_user :: "string \<Rightarrow> string \<Rightarrow> unit web_op" where
  "rename_user user_id name =
     write_config (\<lambda>r. case write_key_value user_id (\<lambda>u. u\<lparr>uc_user_name := name\<rparr>) (wr_users r) of
        (Some _, m) \<Rightarrow> Inr ((), r\<lparr>wr_users := m\<rparr>)
      | (None, m) \<Rightarrow> Inl (CE_UserNotFound user_id))"

text \<open>Numbers wrap around in a release build.\<close>

definition add_user :: "string \<Rightarrow> string web_op" where
  "add_user name =
     write_config (\<lambda>r.
       let user_id = user_id_prefix @ nat_digits (unat (wr_next_user_seq r))
       in Inr (user_id, r\<lparr>wr_next_user_seq := wr_next_user_seq r + 1,
            wr_users := hm_insert user_id \<lparr>uc_user_id = user_id, uc_user_name = name\<rparr> (wr_users r)\<rparr>))"

definition without_user :: "string \<Rightarrow> web_repo \<Rightarrow> channel_error + (string \<times> web_repo)" where
  "without_user user_id r =
     (case hm_get (wr_users r) user_id of
        None \<Rightarrow> Inl (CE_UserNotFound user_id)
      | Some u \<Rightarrow> Inr (uc_user_name u, r\<lparr>wr_users := hm_remove user_id (wr_users r),
          wr_groups := map (\<lambda>(g, c). (g, c\<lparr>gc_members := removeAll user_id (gc_members c)\<rparr>)) (wr_groups r)\<rparr>))"

definition remove_user :: "string \<Rightarrow> unit web_op" where
  "remove_user user_id =
     bind_act (write_config (without_user user_id)) (\<lambda>name.
     bind_act next_msg_id (\<lambda>id.
     bind_act (read_st wm_messenger_id) (\<lambda>mid.
     bind_act web_now (\<lambda>now.
     modify_st (handle_user_remove
       \<lparr>ue_msg_id = id,
        ue_notification = \<lparr>urn_messenger_id = mid, urn_user_id = user_id, urn_messenger_name = web_messenger_name,
          urn_user_name = name\<rparr>,
        ue_time = now\<rparr>)))))"

definition add_web_group :: "string \<Rightarrow> string list \<Rightarrow> string web_op" where
  "add_web_group name member_ids =
     bind_act (write_config (\<lambda>r.
       let group_id = group_id_prefix @ nat_digits (unat (wr_next_group_seq r))
       in Inr (group_id, r\<lparr>wr_next_group_seq := wr_next_group_seq r + 1,
            wr_groups := hm_insert group_id \<lparr>gc_group_id = group_id, gc_group_name = name, gc_members = remdups member_ids\<rparr>
              (wr_groups r)\<rparr>))) (\<lambda>group_id.
     bind_act web_now (\<lambda>time.
     bind_act (for_each member_ids (\<lambda>m. if m \<noteq> admin_user_id then notify_group_change m group_id Joined time else ret ())) (\<lambda>_.
     ret group_id)))"

definition change_group :: "string \<Rightarrow> (group_config \<Rightarrow> group_config) \<Rightarrow> unit web_op" where
  "change_group group_id f =
     (if starts_with group_id admin_user_group_prefix then fail (CE_GroupNotFound group_id)
      else write_config (\<lambda>r. case write_key_value group_id f (wr_groups r) of
         (Some _, m) \<Rightarrow> Inr ((), r\<lparr>wr_groups := m\<rparr>)
       | (None, m) \<Rightarrow> Inl (CE_GroupNotFound group_id)))"

definition rename_group :: "string \<Rightarrow> string \<Rightarrow> unit web_op" where
  "rename_group group_id name = change_group group_id (\<lambda>g. g\<lparr>gc_group_name := name\<rparr>)"

definition manage_members :: "string \<Rightarrow> string list \<Rightarrow> string list \<Rightarrow> unit web_op" where
  "manage_members group_id add_ids remove_ids =
     bind_act (change_group group_id (\<lambda>g.
       g\<lparr>gc_members := fold removeAll remove_ids (fold List.insert add_ids (gc_members g))\<rparr>)) (\<lambda>_.
     bind_act web_now (\<lambda>time.
     bind_act (for_each add_ids (\<lambda>i. notify_group_change i group_id Joined time)) (\<lambda>_.
     for_each remove_ids (\<lambda>i. notify_group_change i group_id Left time))))"

definition delete_group :: "string \<Rightarrow> unit web_op" where
  "delete_group group_id =
     (if starts_with group_id admin_user_group_prefix then fail (CE_GroupNotFound group_id)
      else
        bind_act (write_config (\<lambda>r. case hm_get (wr_groups r) group_id of
           Some g \<Rightarrow> Inr (gc_members g, r\<lparr>wr_groups := hm_remove group_id (wr_groups r)\<rparr>)
         | None \<Rightarrow> Inl (CE_GroupNotFound group_id))) (\<lambda>members.
        bind_act web_now (\<lambda>time.
        for_each members (\<lambda>m. if m \<noteq> admin_user_id then notify_group_change m group_id Left time else ret ()))))"

definition user_groups :: "web_repo \<Rightarrow> string \<Rightarrow> user_config \<Rightarrow> (string, group_info) hmap" where
  "user_groups cfg uid user =
     (let own = map (\<lambda>(gid, g). (gid, \<lparr>gi_group_id = gid, gi_group_name = gc_group_name g\<rparr>))
            (filter (\<lambda>(gid, g). uid \<in> set (gc_members g)) (wr_groups cfg));
          gid = admin_user_group_id uid
      in if hm_get (wr_groups cfg) gid = None
         then hm_insert gid \<lparr>gi_group_id = gid, gi_group_name = uc_user_name user\<rparr> own else own)"

definition build_messenger_info :: "messenger_info web_op" where
  "build_messenger_info = read_st (\<lambda>s.
     \<lparr>mi_messenger_id = wm_messenger_id s, mi_messenger_name = web_messenger_name,
      mi_user_map = map (\<lambda>(uid, u). (uid, \<lparr>ui_user_id = uc_user_id u, ui_user_name = uc_user_name u,
        ui_group_map = user_groups (wm_repo s) uid u\<rparr>)) (wr_users (wm_repo s))\<rparr>)"

section \<open>Messages\<close>

text \<open>Who may write to a group.\<close>

definition check_sender :: "web_repo \<Rightarrow> string \<Rightarrow> string \<Rightarrow> channel_error + unit" where
  "check_sender cfg user_id group_id =
     (if starts_with group_id admin_user_group_prefix then
        (if user_id = admin_user_id then
           (if parse_admin_user_group_ref cfg group_id = None then Inl (CE_GroupNotFound group_id) else Inr ())
         else if \<not> is_admin_user_group_for user_id group_id \<or> hm_get (wr_users cfg) user_id = None
         then Inl (CE_GroupNotFound group_id) else Inr ())
      else case hm_get (wr_groups cfg) group_id of
        None \<Rightarrow> Inl (CE_GroupNotFound group_id)
      | Some g \<Rightarrow> if user_id \<in> set (gc_members g) then Inr () else Inl (CE_GroupNotFound group_id))"

text \<open>\<open>as_date\<close> is the date of a time, \<open>register\<close> the store of attachments for the group.\<close>

definition web_send ::
  "(string \<Rightarrow> string) \<Rightarrow> (string \<Rightarrow> attachment_info \<Rightarrow> attachment_info_response web_op) \<Rightarrow>
   outgoing_message \<Rightarrow> outgoing_message_response web_op" where
  "web_send as_date register msg =
     bind_act (read_st wm_messenger_id) (\<lambda>mid.
     if om_messenger_id msg \<noteq> mid then fail (CE_InvalidMessage ''messenger_id mismatch'')
     else
       bind_act (read_st wm_repo) (\<lambda>cfg.
       bind_act (of_result (check_sender cfg (om_user_id msg) (om_group_id msg))) (\<lambda>_.
       case resolve_names cfg (om_user_id msg) (om_group_id msg) of (messenger, user, grp) \<Rightarrow>
       bind_act (\<lambda>s. case process_content (register (om_group_id msg)) (om_content msg) s of
           (Inl e, s1) \<Rightarrow> (Inl (CE_Internal (channel_error_text e)), s1)
         | (Inr c, s1) \<Rightarrow> (Inr c, s1)) (\<lambda>content.
       bind_act next_msg_id (\<lambda>id.
       bind_act web_now (\<lambda>time.
       bind_act (modify_st (\<lambda>s. s\<lparr>wm_queue := wm_queue s @
         [(\<lparr>mk_group_id = om_group_id msg, mk_date = as_date time\<rparr>,
           \<lparr>im_msg_id = id, im_messenger_id = mid, im_user_id = om_user_id msg, im_group_id = om_group_id msg,
            im_messenger_name = messenger, im_user_name = user, im_group_name = grp, im_content = content, im_time = time\<rparr>)]\<rparr>)) (\<lambda>_.
       ret \<lparr>or_msg_id = id, or_time = time, or_content = content, or_messenger_name = messenger, or_user_name = user,
            or_group_name = grp\<rparr>)))))))"

section \<open>Storing and sending out\<close>

definition file_lines :: "msg_key \<Rightarrow> web_state \<Rightarrow> incoming_message list" where
  "file_lines key s = (case hm_get (wm_files s) key of Some ls \<Rightarrow> ls | None \<Rightarrow> [])"

text \<open>\<open>MessageFileWriterContext::write\<close>: messages have the time at which they are written.\<close>

definition write_messages :: "(string \<Rightarrow> string) \<Rightarrow> msg_key \<Rightarrow> incoming_message list \<Rightarrow> unit web_op" where
  "write_messages as_date key msgs =
     bind_act web_now (\<lambda>now.
     let time = (if mk_date key \<noteq> as_date now then mk_date key @ '' 23:59:59'' else now);
         timed = map (\<lambda>m. m\<lparr>im_time := time\<rparr>) msgs in
     bind_act web_io (\<lambda>_.
     bind_act web_io (\<lambda>_.
     bind_act (for_each timed (\<lambda>m. bind_act web_io (\<lambda>_.
       modify_st (\<lambda>s. s\<lparr>wm_files := hm_insert key (file_lines key s @ [m]) (wm_files s)\<rparr>)))) (\<lambda>_.
     bind_act (modify_st (\<lambda>s. s\<lparr>wm_dates :=
       hm_insert (mk_group_id key)
         (case hm_get (wm_dates s) (mk_group_id key) of Some ds \<Rightarrow> sort (List.insert (mk_date key) ds) | None \<Rightarrow> [mk_date key])
         (wm_dates s)\<rparr>)) (\<lambda>_.
     modify_st (\<lambda>s. s\<lparr>wm_stored := wm_stored s @ [timed]\<rparr>))))))"

text \<open>The appender: at most \<open>n\<close> of what waits for a key is written; errors are dropped.\<close>

fun take_for :: "msg_key \<Rightarrow> nat \<Rightarrow> (msg_key \<times> 'm) list \<Rightarrow> 'm list \<times> (msg_key \<times> 'm) list" where
  "take_for key n [] = ([], [])"
| "take_for key 0 q = ([], q)"
| "take_for key (Suc n) ((k, m) # q) =
     (if k = key then (case take_for key n q of (ms, rest) \<Rightarrow> (m # ms, rest))
      else (case take_for key (Suc n) q of (ms, rest) \<Rightarrow> (ms, (k, m) # rest)))"

definition append_step :: "(string \<Rightarrow> string) \<Rightarrow> msg_key \<Rightarrow> nat \<Rightarrow> web_state \<Rightarrow> web_state" where
  "append_step as_date key n s =
     (case take_for key n (wm_queue s) of
        ([], _) \<Rightarrow> s
      | (msgs, rest) \<Rightarrow> snd (write_messages as_date key msgs (s\<lparr>wm_queue := rest\<rparr>)))"

text \<open>To whom a message goes, as users and groups are when it is sent out.\<close>

definition recipients :: "web_repo \<Rightarrow> incoming_message \<Rightarrow> string list" where
  "recipients cfg m =
     (if starts_with (im_group_id m) admin_user_group_prefix then
        (if im_user_id m = admin_user_id then
           (case parse_admin_user_group_ref cfg (im_group_id m) of Some uid \<Rightarrow> [uid] | None \<Rightarrow> [])
         else if is_admin_user_group_for (im_user_id m) (im_group_id m) \<and> hm_get (wr_users cfg) (im_user_id m) \<noteq> None
         then [im_user_id m] else [])
      else case hm_get (wr_groups cfg) (im_group_id m) of
        None \<Rightarrow> []
      | Some g \<Rightarrow> if im_user_id m \<in> set (gc_members g) then filter (\<lambda>u. u \<noteq> admin_user_id) (gc_members g) else [])"

definition events_of :: "web_repo \<Rightarrow> incoming_message list \<Rightarrow> incoming_message_event list" where
  "events_of cfg msgs =
     concat (map (\<lambda>m. map (\<lambda>u. \<lparr>ie_recipient_user_id = u, ie_incoming_message = m\<rparr>) (recipients cfg m)) msgs)"

definition send_stored :: "incoming_message list \<Rightarrow> web_state \<Rightarrow> web_state" where
  "send_stored msgs s =
     fold handle_incoming_message (events_of (wm_repo s) msgs) (s\<lparr>wm_pushed := wm_pushed s @ msgs\<rparr>)"

text \<open>The task that is started with the messenger.\<close>

definition stored_step :: "web_state \<Rightarrow> web_state" where
  "stored_step s = (case wm_stored s of [] \<Rightarrow> s | msgs # rest \<Rightarrow> send_stored msgs (s\<lparr>wm_stored := rest\<rparr>))"

end
