(* ===== verification/Web_Attachments.thy ===== *)
theory Web_Attachments
  imports Web_Messenger
begin

text \<open>
  The store of attachments of the web messenger (\<open>kissbot-channel-web/src/attachment.rs\<close>), the
  upload of a file in chunks and its download by a task, the messenger as the channel server sees it,
  and what the client of an agent does with a chunk (\<open>kissbot-channel-client/src/channel_client.rs\<close>).
  The queue of an upload and its task are one step per chunk. The cache of the metadata and the
  thumbnails are left out. A file has its key.
\<close>

section \<open>Keys and metadata\<close>

text \<open>\<open>splitn(2, '/')\<close>.\<close>

definition parse_att_key :: "string \<Rightarrow> channel_error + (string \<times> string)" where
  "parse_att_key key =
     (let g = takeWhile (\<lambda>c. c \<noteq> CHR ''/'') key;
          rest = dropWhile (\<lambda>c. c \<noteq> CHR ''/'') key
      in if rest = [] \<or> g = [] \<or> tl rest = [] then Inl (CE_AttachmentNotFound key) else Inr (g, tl rest))"

definition get_meta :: "string \<Rightarrow> attachment_meta web_op" where
  "get_meta key =
     bind_act (of_result (parse_att_key key)) (\<lambda>_.
     bind_act (read_st (\<lambda>s. hm_get (wm_metas s) key)) (\<lambda>found.
       case found of
         None \<Rightarrow> fail (CE_AttachmentNotFound key)
       | Some m \<Rightarrow> bind_act web_io (\<lambda>_. ret m)))"

definition next_transfer_id :: "32 word web_op" where
  "next_transfer_id s = (Inr (wm_transfer_seq s), s\<lparr>wm_transfer_seq := wm_transfer_seq s + 1\<rparr>)"

definition next_transfer_id_for :: "string \<Rightarrow> 32 word web_op" where
  "next_transfer_id_for key =
     bind_act next_transfer_id (\<lambda>t.
     bind_act (modify_st (\<lambda>s. s\<lparr>wm_transfers := hm_insert t key (wm_transfers s)\<rparr>)) (\<lambda>_. ret t))"

section \<open>Uploads\<close>

definition register_attachment :: "string \<Rightarrow> attachment_info \<Rightarrow> attachment_info_response web_op" where
  "register_attachment group_id info =
     bind_act web_new_uuid (\<lambda>uuid.
     let key = group_id @ ''/'' @ uuid in
     bind_act next_transfer_id (\<lambda>t.
     bind_act web_io (\<lambda>_.
     bind_act web_io (\<lambda>_.
     bind_act (modify_st (\<lambda>s. s\<lparr>wm_uploading := hm_insert key [] (wm_uploading s)\<rparr>)) (\<lambda>_.
     bind_act web_io (\<lambda>_.
     bind_act (modify_st (\<lambda>s. s\<lparr>wm_metas := hm_insert key \<lparr>at_key = key, at_info = info\<rparr> (wm_metas s),
       wm_uploads := hm_insert t (key, 0) (wm_uploads s)\<rparr>)) (\<lambda>_.
     ret \<lparr>att_key = key, att_info = info, transfer_id = t\<rparr>)))))))"

text \<open>What was written already is not written again; a gap is an error.\<close>

definition process_upload_write_inner :: "string \<Rightarrow> nat \<Rightarrow> nat \<Rightarrow> nat \<Rightarrow> bytes \<Rightarrow> nat web_op" where
  "process_upload_write_inner key current n pos data =
     (if pos < current then ret current
      else if current < pos then fail (CE_AttachmentPositionOutOfOrder key current pos)
      else if length data < n
      then fail (CE_InvalidMessage (''data length = '' @ nat_digits (length data) @ '', size = '' @ nat_digits n))
      else
        bind_act (of_result (parse_att_key key)) (\<lambda>_.
        bind_act web_io (\<lambda>_.
        bind_act web_io (\<lambda>_.
        bind_act (modify_st (\<lambda>s. s\<lparr>wm_uploading :=
          hm_insert key ((case hm_get (wm_uploading s) key of Some d \<Rightarrow> d | None \<Rightarrow> []) @ take n data) (wm_uploading s)\<rparr>)) (\<lambda>_.
        ret (current + n))))))"

text \<open>The end of an upload: when all is there, the file gets its name.\<close>

definition finish_upload :: "32 word \<Rightarrow> string \<Rightarrow> nat \<Rightarrow> nat \<Rightarrow> web_state \<Rightarrow> web_state" where
  "finish_upload t key current n s =
     (let s1 = s\<lparr>wm_uploads := hm_remove t (wm_uploads s)\<rparr>
      in if current < n then s1
         else case web_io s1 of
           (Inl e, s2) \<Rightarrow> s2
         | (Inr _, s2) \<Rightarrow>
             (case hm_get (wm_uploading s2) key of
                None \<Rightarrow> s2
              | Some d \<Rightarrow> s2\<lparr>wm_complete := hm_insert key d (wm_complete s2), wm_uploading := hm_remove key (wm_uploading s2)\<rparr>))"

definition upload_size :: "string \<Rightarrow> web_state \<Rightarrow> nat" where
  "upload_size key s = (case hm_get (wm_metas s) key of Some m \<Rightarrow> size_bytes (at_info m) | None \<Rightarrow> 0)"

definition write_chunk :: "32 word \<Rightarrow> nat \<Rightarrow> nat \<Rightarrow> bytes \<Rightarrow> attachment_payload_response web_op" where
  "write_chunk t pos n data s =
     (case hm_get (wm_uploads s) t of
        None \<Rightarrow> (Inl (CE_AttachmentNotFound (nat_digits (unat t))), s)
      | Some (key, current) \<Rightarrow>
          let total = upload_size key s in
          (case process_upload_write_inner key current n pos data s of
             (Inr p, s1) \<Rightarrow>
               let s2 = s1\<lparr>wm_uploads := hm_insert t (key, p) (wm_uploads s1)\<rparr>
               in (Inr \<lparr>pr_current_pos = p, pr_error_code = payload_errcode_ok, pr_error_msg = None\<rparr>,
                   if total \<le> p then finish_upload t key p total s2 else s2)
           | (Inl (CE_AttachmentPositionOutOfOrder k cur q), s1) \<Rightarrow>
               (Inr \<lparr>pr_current_pos = cur, pr_error_code = payload_errcode_position_out_of_order,
                  pr_error_msg = Some (''Attachment position out of order: '' @ k @ '' '' @ nat_digits cur @ '' '' @ nat_digits q)\<rparr>,
                if total \<le> current then finish_upload t key current total s1 else s1)
           | (Inl e, s1) \<Rightarrow> (Inl e, finish_upload t key current total s1)))"

section \<open>Downloads\<close>

definition read_attachment_range :: "string \<Rightarrow> nat \<Rightarrow> nat \<Rightarrow> bytes web_op" where
  "read_attachment_range key start n =
     bind_act (of_result (parse_att_key key)) (\<lambda>_.
     bind_act web_io (\<lambda>_.
     bind_act (read_st (\<lambda>s. hm_get (wm_complete s) key)) (\<lambda>found.
       case found of
         None \<Rightarrow> fail CE_Io
       | Some d \<Rightarrow> if start + n \<le> length d then ret (take n (drop start d)) else fail CE_Io)))"

definition web_download_header :: "attachment_download_request \<Rightarrow> attachment_info_response web_op" where
  "web_download_header req s =
     (case get_meta (dr_key req) s of
        (Inl e, s1) \<Rightarrow> (Inl (CE_AttachmentNotFound (channel_error_text e)), s1)
      | (Inr m, s1) \<Rightarrow>
          bind_act (next_transfer_id_for (dr_key req)) (\<lambda>t.
          ret \<lparr>att_key = dr_key req, att_info = at_info m, transfer_id = t\<rparr>) s1)"

text \<open>The task is started; it runs as a step of its own.\<close>

definition transfer_meta :: "32 word \<Rightarrow> (string \<times> attachment_meta) web_op" where
  "transfer_meta t =
     bind_act (read_st (\<lambda>s. hm_get (wm_transfers s) t)) (\<lambda>found.
       case found of
         None \<Rightarrow> fail (CE_AttachmentNotFound (nat_digits (unat t)))
       | Some key \<Rightarrow>
           (\<lambda>s. case get_meta key s of
              (Inl e, s1) \<Rightarrow> (Inl (CE_AttachmentNotFound (channel_error_text e)), s1)
            | (Inr m, s1) \<Rightarrow> (Inr (key, m), s1)))"

definition start_send_download_attachment_payload :: "32 word \<Rightarrow> unit web_op" where
  "start_send_download_attachment_payload t =
     bind_act (transfer_meta t) (\<lambda>_. modify_st (\<lambda>s. s\<lparr>wm_tasks := wm_tasks s @ [t]\<rparr>))"

definition chunk_size :: nat where
  "chunk_size = 65536"

text \<open>One round of the loop; \<open>answer\<close>, \<open>next_sn\<close> and \<open>success\<close> are the library's.\<close>

definition send_chunk ::
  "(32 word \<Rightarrow> bytes \<Rightarrow> channel_error + attachment_payload_response) \<Rightarrow> (32 word \<Rightarrow> 32 word) \<Rightarrow> 32 word \<Rightarrow>
   32 word \<Rightarrow> string \<Rightarrow> nat \<Rightarrow> nat \<Rightarrow> attachment_payload_response web_op" where
  "send_chunk answer next_sn success t key pos n =
     bind_act (prepare_download_payload next_sn success t (word_of_nat n) (word_of_nat pos)) (\<lambda>(sn, buf).
     bind_act (read_attachment_range key pos n) (\<lambda>data.
     send_download_payload answer t n pos (buf @ data)))"

function download_loop :: "(nat \<Rightarrow> nat \<Rightarrow> attachment_payload_response web_op) \<Rightarrow> nat \<Rightarrow> nat \<Rightarrow> web_state \<Rightarrow> web_state" where
  "download_loop send file_len pos s =
     (if file_len \<le> pos then s
      else
        let end_pos = min (pos + chunk_size) file_len in
        case send pos (end_pos - pos) s of
          (Inl e, s1) \<Rightarrow> s1
        | (Inr r, s1) \<Rightarrow> if pr_error_code r = payload_errcode_ok then download_loop send file_len end_pos s1 else s1)"
  by pat_completeness auto
termination by (relation "measure (\<lambda>(send, file_len, pos, s). file_len - pos)") (auto simp: chunk_size_def)

declare download_loop.simps [simp del]

definition download_step ::
  "(32 word \<Rightarrow> bytes \<Rightarrow> channel_error + attachment_payload_response) \<Rightarrow> (32 word \<Rightarrow> 32 word) \<Rightarrow> 32 word \<Rightarrow>
   web_state \<Rightarrow> web_state" where
  "download_step answer next_sn success s =
     (case wm_tasks s of
        [] \<Rightarrow> s
      | t # ts \<Rightarrow>
          (case hm_get (wm_transfers s) t of
             None \<Rightarrow> s\<lparr>wm_tasks := ts\<rparr>
           | Some key \<Rightarrow>
               let s1 = download_loop (send_chunk answer next_sn success t key) (upload_size key s) 0 (s\<lparr>wm_tasks := ts\<rparr>)
               in s1\<lparr>wm_transfers := hm_remove t (wm_transfers s1)\<rparr>))"

section \<open>The messenger\<close>

definition web_ops :: "(string \<Rightarrow> string) \<Rightarrow> string \<Rightarrow> _ messenger_ops" where
  "web_ops as_date m =
     \<lparr>mo_get_info = build_messenger_info,
      mo_send_message = web_send as_date register_attachment,
      mo_send_attachment_payload = (\<lambda>t n pos data. write_chunk t pos n data),
      mo_download_attachment_header = web_download_header,
      mo_start_send_download = start_send_download_attachment_payload\<rparr>"

section \<open>The client of an agent\<close>

text \<open>
  \<open>DownloadChunkProcessor\<close>: \<open>known\<close> are the downloads the client has asked for, \<open>take_chunk\<close> is the
  agent's. A frame without number or header is not answered.
\<close>

definition client_chunk ::
  "(32 word \<Rightarrow> attachment_info_response option) \<Rightarrow> (attachment_info_response \<Rightarrow> nat \<Rightarrow> bytes \<Rightarrow> channel_error + unit) \<Rightarrow>
   bytes \<Rightarrow> (attachment_payload_response \<times> bool) option" where
  "client_chunk known take_chunk data =
     (case parse_attachment_payload_header ws_header_len data of
        None \<Rightarrow> None
      | Some h \<Rightarrow>
          let pos = unat (ah_pos h); n = unat (ah_size h);
              result = (case known (ah_id h) of
                 Some info \<Rightarrow> take_chunk info pos (drop offset_att_data data)
               | None \<Rightarrow> Inl (CE_InvalidMessage (''unknown transfer_id '' @ nat_digits (unat (ah_id h)))));
              forget_it = (case known (ah_id h) of
                 None \<Rightarrow> False
               | Some info \<Rightarrow> (case result of Inl _ \<Rightarrow> True | Inr _ \<Rightarrow> size_bytes (att_info info) \<le> pos + n))
          in Some
            (case result of
               Inr _ \<Rightarrow> \<lparr>pr_current_pos = pos + n, pr_error_code = payload_errcode_ok, pr_error_msg = None\<rparr>
             | Inl e \<Rightarrow> \<lparr>pr_current_pos = pos, pr_error_code = 1, pr_error_msg = Some (channel_error_text e)\<rparr>, forget_it))"

text \<open>\<open>send_upload_chunk\<close>: the frame that a client sends.\<close>

definition upload_frame :: "32 word \<Rightarrow> 32 word \<Rightarrow> 32 word \<Rightarrow> 64 word \<Rightarrow> bytes \<Rightarrow> bytes" where
  "upload_frame sn success t pos data =
     frame_header sn type_attachment_payload success \<lparr>ah_id = t, ah_size = word_of_nat (length data), ah_pos = pos\<rparr> @ data"

end
