(* ===== verification/Channel_Run.thy ===== *)
theory Channel_Run
  imports Web_Attachments
begin

text \<open>
  Runs of the channel server with the web messenger: what agents and the administrator do, and the
  steps of the tasks, in any order. What all runs keep: who is bound is connected, and the ids of
  users.
\<close>

section \<open>Runs\<close>

text \<open>\<open>ce_...\<close> is what surrounds the server: the library's answers to frames, numbers and codes, and the date of a time.\<close>

record channel_env =
  ce_as_date :: "string \<Rightarrow> string"
  ce_answer :: "32 word \<Rightarrow> bytes \<Rightarrow> channel_error + attachment_payload_response"
  ce_next_sn :: "32 word \<Rightarrow> 32 word"
  ce_success :: "32 word"

datatype channel_event =
    Opened
  | Closed "32 word"
  | Asked_Info "32 word" "32 word" "string request_payload"
  | Asked_Bind "32 word" "32 word" "bind_request request_payload"
  | Asked_Unbind "32 word" "32 word" "bind_request request_payload"
  | Asked_Send "32 word" "32 word" "outgoing_message request_payload"
  | Asked_Upload "32 word" "32 word" bytes
  | Asked_Download "32 word" "32 word" "attachment_download_request request_payload"
  | Admin_Sends outgoing_message
  | Admin_Uploads "32 word" bytes
  | Admin_Renamed string
  | User_Added string
  | User_Renamed string string
  | User_Removed string
  | Group_Added string "string list"
  | Group_Renamed string string
  | Members_Changed string "string list" "string list"
  | Group_Deleted string
  | Written msg_key nat
  | Sent_Out
  | Download_Run

fun web_event :: "channel_env \<Rightarrow> channel_event \<Rightarrow> web_state \<Rightarrow> web_state" where
  "web_event env Opened s = snd (connect_init s)"
| "web_event env (Closed c) s = snd (close_connect c s)"
| "web_event env (Asked_Info c sn p) s = snd (wrap_process c sn (messenger_info_request (web_ops (ce_as_date env)) p) s)"
| "web_event env (Asked_Bind c sn p) s = snd (wrap_process c sn (bind_agent_user (web_ops (ce_as_date env)) c p) s)"
| "web_event env (Asked_Unbind c sn p) s = snd (wrap_process c sn (unbind_agent_user c p) s)"
| "web_event env (Asked_Send c sn p) s = snd (wrap_process c sn (outgoing_message_request (web_ops (ce_as_date env)) c p) s)"
| "web_event env (Asked_Upload c sn data) s = snd (wrap_process c sn (attachment_payload (web_ops (ce_as_date env)) data) s)"
| "web_event env (Asked_Download c sn p) s = download_request (web_ops (ce_as_date env)) c sn p s"
| "web_event env (Admin_Sends msg) s = snd (web_send (ce_as_date env) register_attachment msg s)"
| "web_event env (Admin_Uploads t data) s = snd (write_chunk t 0 (length data) data s)"
| "web_event env (Admin_Renamed name) s = snd (update_admin_name name s)"
| "web_event env (User_Added name) s = snd (add_user name s)"
| "web_event env (User_Renamed u name) s = snd (rename_user u name s)"
| "web_event env (User_Removed u) s = snd (remove_user u s)"
| "web_event env (Group_Added name members) s = snd (add_web_group name members s)"
| "web_event env (Group_Renamed g name) s = snd (rename_group g name s)"
| "web_event env (Members_Changed g add remove) s = snd (manage_members g add remove s)"
| "web_event env (Group_Deleted g) s = snd (delete_group g s)"
| "web_event env (Written key n) s = append_step (ce_as_date env) key n s"
| "web_event env Sent_Out s = stored_step s"
| "web_event env Download_Run s = download_step (ce_answer env) (ce_next_sn env) (ce_success env) s"

definition web_run :: "channel_env \<Rightarrow> channel_event list \<Rightarrow> web_state \<Rightarrow> web_state" where
  "web_run env es s = fold (web_event env) es s"

text \<open>A server with the messenger registered, with users and groups as they were stored.\<close>

definition new_web :: "web_repo \<Rightarrow> (nat \<Rightarrow> string) \<Rightarrow> (nat \<Rightarrow> string) \<Rightarrow> bool list \<Rightarrow> bool list \<Rightarrow> web_state" where
  "new_web repo clock uuid disk faults =
     \<lparr>kc_next_connect = 0, kc_connects = [], kc_bound = [(wr_messenger_id repo, [])], kc_receivers = [], kc_senders = [],
      kc_sent = [], kc_faults = faults, wm_messenger_id = wr_messenger_id repo, wm_repo = repo, wm_repo_file = Some (Json_File repo),
      wm_msg_seq = 0, wm_queue = [], wm_files = [], wm_dates = [], wm_stored = [], wm_pushed = [], wm_transfer_seq = 0, wm_metas = [],
      wm_uploading = [], wm_complete = [], wm_uploads = [], wm_transfers = [], wm_tasks = [], wm_clock = clock, wm_ticks = 0,
      wm_uuid = uuid, wm_uuids = 0, wm_disk = disk\<rparr>"

definition new_web_repo :: "string \<Rightarrow> string \<Rightarrow> web_repo" where
  "new_web_repo messenger_id admin_name =
     \<lparr>wr_messenger_id = messenger_id, wr_admin_name = admin_name, wr_users = [], wr_groups = [], wr_next_user_seq = 0,
      wr_next_group_seq = 0\<rparr>"

section \<open>What is left alone\<close>

text \<open>Who is connected, who is bound, and the repository.\<close>

definition tables :: "web_state \<Rightarrow> 32 word list \<times> (string, (string, 32 word) hmap) hmap \<times> web_repo" where
  "tables s = (kc_connects s, kc_bound s, wm_repo s)"

lemma tables_aside [simp]:
  "tables (s\<lparr>kc_sent := a\<rparr>) = tables s" "tables (s\<lparr>kc_faults := b\<rparr>) = tables s" "tables (s\<lparr>kc_receivers := c\<rparr>) = tables s"
  "tables (s\<lparr>kc_senders := d\<rparr>) = tables s" "tables (s\<lparr>kc_next_connect := e\<rparr>) = tables s"
  by (simp_all add: tables_def)

lemma tables_web [simp]:
  "tables (s\<lparr>wm_repo_file := a\<rparr>) = tables s" "tables (s\<lparr>wm_msg_seq := b\<rparr>) = tables s" "tables (s\<lparr>wm_queue := c\<rparr>) = tables s"
  "tables (s\<lparr>wm_files := d\<rparr>) = tables s" "tables (s\<lparr>wm_dates := e\<rparr>) = tables s" "tables (s\<lparr>wm_stored := f\<rparr>) = tables s"
  "tables (s\<lparr>wm_pushed := g\<rparr>) = tables s" "tables (s\<lparr>wm_transfer_seq := h\<rparr>) = tables s" "tables (s\<lparr>wm_metas := i\<rparr>) = tables s"
  "tables (s\<lparr>wm_uploading := j\<rparr>) = tables s" "tables (s\<lparr>wm_complete := k\<rparr>) = tables s" "tables (s\<lparr>wm_uploads := l\<rparr>) = tables s"
  "tables (s\<lparr>wm_transfers := m\<rparr>) = tables s" "tables (s\<lparr>wm_tasks := n\<rparr>) = tables s" "tables (s\<lparr>wm_ticks := o'\<rparr>) = tables s"
  "tables (s\<lparr>wm_uuids := q\<rparr>) = tables s" "tables (s\<lparr>wm_disk := r\<rparr>) = tables s"
  by (simp_all add: tables_def)

lemma tables_steps [keeps_intros]:
  "keeps tables (send_frame c f)" "keeps tables web_io" "keeps tables web_now" "keeps tables web_new_uuid"
  "keeps tables next_transfer_id" "keeps tables next_msg_id" "keeps tables build_messenger_info"
proof -
  show now: "keeps tables web_now" by (simp add: keeps_def web_now_def)
  show "keeps tables next_msg_id"
    unfolding next_msg_id_def by (intro keeps_intros keeps_modify_st now) simp
  show "keeps tables (send_frame c f)" "keeps tables web_io" "keeps tables web_new_uuid" "keeps tables next_transfer_id"
    "keeps tables build_messenger_info"
    by (auto simp: keeps_def send_frame_def web_io_def web_new_uuid_def next_transfer_id_def build_messenger_info_def
        read_st_def split: list.splits bool.splits)
qed

lemma tables_register [keeps_intros]: "keeps tables (register_attachment g info)"
  unfolding register_attachment_def Let_def by (intro keeps_intros keeps_modify_st; simp)

lemma keeps_process_content:
  "(\<And>info. keeps f (register info)) \<Longrightarrow> keeps f (process_content register c)"
  "(\<And>info. keeps f (register info)) \<Longrightarrow> keeps f (process_contents register cs)"
  by (induction register c and register cs rule: process_content_process_contents.induct)
    (auto intro!: keeps_intros)

lemma tables_web_send [keeps_intros]: "keeps tables (web_send as_date register_attachment msg)"
proof -
  have "keeps tables (\<lambda>s. case process_content (register_attachment g) c s of
      (Inl e, s1) \<Rightarrow> (Inl (CE_Internal (channel_error_text e)), s1) | (Inr c, s1) \<Rightarrow> (Inr c, s1))" for g c
    using keeps_process_content(1) [of tables "register_attachment g" c, OF tables_register]
    by (auto simp: keeps_def split: prod.splits sum.splits) (metis snd_conv)+
  then show ?thesis
    unfolding web_send_def by (intro keeps_intros keeps_modify_st; simp)
qed

lemma tables_write_chunk [keeps_intros]: "keeps tables (write_chunk t pos n data)"
proof -
  have inner: "tables s1 = tables s" if "process_upload_write_inner key current n pos data s = (r, s1)" for key current s r s1
  proof -
    have "keeps tables (process_upload_write_inner key current n pos data)"
      unfolding process_upload_write_inner_def by (intro keeps_intros keeps_modify_st; simp)
    from keepsD [OF this that] show ?thesis .
  qed
  have io: "tables s1 = tables s" if "web_io s = (r, s1)" for r s s1
    using keepsD [OF tables_steps(2) that] .
  have finish: "tables (finish_upload t key current total s) = tables s" for key current total s
    by (auto simp: finish_upload_def Let_def dest!: io split: prod.splits sum.splits option.splits)
  show ?thesis
    by (rule keepsI) (auto simp: write_chunk_def Let_def finish dest: inner split: option.splits prod.splits sum.splits
        channel_error.splits if_splits)
qed

text \<open>An operation whose result is changed, however it ends.\<close>

lemma keeps_answered: "keeps f m \<Longrightarrow> keeps f (\<lambda>s. case m s of (Inl e, s1) \<Rightarrow> (g e, s1) | (Inr x, s1) \<Rightarrow> (h x, s1))"
  by (auto simp: keeps_def split: prod.splits sum.splits) (metis snd_conv)+

lemma keeps_handle: "keeps f m \<Longrightarrow> f (handle m s) = f s"
  by (simp add: keeps_def handle_def)

lemma tables_downloads [keeps_intros]:
  "keeps tables (get_meta key)" "keeps tables (next_transfer_id_for key)" "keeps tables (web_download_header req)"
  "keeps tables (transfer_meta t)" "keeps tables (start_send_download_attachment_payload t)"
  "keeps tables (read_attachment_range key p n)"
proof -
  show meta: "keeps tables (get_meta key)" for key unfolding get_meta_def by (intro keeps_intros)
  show t: "keeps tables (next_transfer_id_for key)" for key
    unfolding next_transfer_id_for_def by (intro keeps_intros keeps_modify_st) simp
  have found: "keeps tables (bind_act (next_transfer_id_for key) (\<lambda>t. ret (g t)))" for key and g :: "_ \<Rightarrow> attachment_info_response"
    by (intro keeps_intros t)
  show "keeps tables (web_download_header req)"
    using keepsD [OF meta] keepsD [OF found] by (auto intro!: keepsI simp: web_download_header_def split: prod.splits sum.splits)
  show tm: "keeps tables (transfer_meta t)" for t
    unfolding transfer_meta_def by (intro keeps_intros keeps_answered meta)
  show "keeps tables (start_send_download_attachment_payload t)"
    unfolding start_send_download_attachment_payload_def by (intro keeps_intros keeps_modify_st tm) simp
  show "keeps tables (read_attachment_range key p n)" unfolding read_attachment_range_def by (intro keeps_intros)
qed

lemma tables_stop_download [keeps_intros]: "keeps tables (stop_download t)"
  unfolding stop_download_def by (intro keeps_modify_st) simp

lemma tables_send_download_payload [keeps_intros]: "keeps tables (send_download_payload answer t n p buf)"
proof -
  have sent: "keeps tables (bind_act (send_frame c f) (\<lambda>_. of_result r))" for c f and r :: "channel_error + attachment_payload_response"
    by (intro keeps_intros)
  have stop: "tables (snd (stop_download t s)) = tables s" for s using tables_stop_download by (simp add: keeps_def)
  have "keeps tables (\<lambda>s. case bind_act (send_frame c (Push_Chunk buf)) (\<lambda>_. of_result (answer c buf)) s of
       (r, s1) \<Rightarrow>
         let is_last = size_bytes info \<le> p + n;
             is_error = (case r of Inr a \<Rightarrow> pr_error_code a \<noteq> payload_errcode_ok | Inl _ \<Rightarrow> True)
         in (r, if is_error \<or> is_last then snd (stop_download t s1) else s1))" for c info
    by (rule keepsI) (auto simp: Let_def stop split: prod.splits dest!: keepsD [OF sent])
  then show ?thesis unfolding send_download_payload_def by (intro keeps_intros)
qed

lemma tables_send_chunk [keeps_intros]: "keeps tables (send_chunk answer next_sn success t key p n)"
  unfolding send_chunk_def prepare_download_payload_def by (intro keeps_intros)

lemma tables_download_loop: "(\<And>p n. keeps tables (send p n)) \<Longrightarrow> tables (download_loop send len p s) = tables s"
proof (induction send len p s rule: download_loop.induct)
  case (1 send len p s)
  show ?case
  proof (cases "len \<le> p")
    case True
    then show ?thesis by (simp add: download_loop.simps [of send len p s])
  next
    case False
    let ?e = "min (p + chunk_size) len"
    obtain r s1 where r: "send p (?e - p) s = (r, s1)" by (cases "send p (?e - p) s")
    have s1: "tables s1 = tables s" using keepsD [OF "1.prems" r] .
    show ?thesis
    proof (cases r)
      case (Inl e)
      with False r s1 show ?thesis by (simp add: download_loop.simps [of send len p s] Let_def)
    next
      case (Inr a)
      have "tables (download_loop send len ?e s1) = tables s1" if "pr_error_code a = payload_errcode_ok"
        using "1.IH" [OF False refl r [symmetric] Inr that] "1.prems" by simp
      with Inr False r s1 show ?thesis by (simp add: download_loop.simps [of send len p s] Let_def)
    qed
  qed
qed

lemma tables_download_step: "tables (download_step answer next_sn success s) = tables s"
proof -
  have "tables (download_loop (send_chunk answer next_sn success t key) len 0 s) = tables s" for t key len s
    by (rule tables_download_loop) (rule tables_send_chunk)
  then show ?thesis by (simp add: download_step_def Let_def split: list.splits option.splits)
qed

section \<open>Who is bound is connected\<close>

definition bound_ok :: "web_state \<Rightarrow> bool" where
  "bound_ok s \<longleftrightarrow> (\<forall>(m, b) \<in> set (kc_bound s). \<forall>(u, c) \<in> set b. c \<in> set (kc_connects s))"

text \<open>\<open>lines\<close>: what the invariant looks at.\<close>

definition lines :: "web_state \<Rightarrow> 32 word list \<times> (string, (string, 32 word) hmap) hmap" where
  "lines s = (kc_connects s, kc_bound s)"

lemma bound_ok_lines: "lines s' = lines s \<Longrightarrow> bound_ok s \<Longrightarrow> bound_ok s'"
  by (simp add: bound_ok_def lines_def)

lemma lines_of_tables: "tables s' = tables s \<Longrightarrow> lines s' = lines s"
  by (simp add: lines_def tables_def)

lemma bound_keeps_tables: "keeps tables m \<Longrightarrow> preserves bound_ok m"
  by (rule preserves_keeps) (auto dest: lines_of_tables intro: bound_ok_lines)

lemma bound_ok_get: "bound_ok s \<Longrightarrow> hm_get (kc_bound s) m = Some b \<Longrightarrow> hm_get b u = Some c \<Longrightarrow> c \<in> set (kc_connects s)"
  unfolding bound_ok_def by (fastforce dest: map_of_SomeD)

lemma bound_ok_insert:
  assumes "bound_ok s" and "\<And>u c. (u, c) \<in> set b \<Longrightarrow> c \<in> set (kc_connects s)"
  shows "bound_ok (s\<lparr>kc_bound := hm_insert m b (kc_bound s)\<rparr>)"
  using assms set_hm_insert [of m b "kc_bound s"] by (fastforce simp: bound_ok_def)

lemma bound_ok_of: "bound_ok s \<Longrightarrow> hm_get (kc_bound s) m = Some b \<Longrightarrow> (u, c) \<in> set b \<Longrightarrow> c \<in> set (kc_connects s)"
  unfolding bound_ok_def by (fastforce dest: map_of_SomeD)

lemma bound_connect_init: "preserves bound_ok connect_init"
  by (rule preservesI) (fastforce simp: connect_init_def Let_def bound_ok_def)

lemma bound_close_connect: "preserves bound_ok (close_connect c)"
  unfolding close_connect_def
  by (intro preserves_intros preserves_modify_st) (fastforce simp: bound_ok_def)

lemma connection_there: "connection c t s = (Inr x, s') \<Longrightarrow> s' = s \<and> c \<in> set (kc_connects s)"
  by (auto simp: connection_def run_simps split: if_splits)

lemma bound_of_there: "bound_of m s = (Inr b, s') \<Longrightarrow> s' = s \<and> hm_get (kc_bound s) m = Some b"
  by (auto simp: bound_of_def run_simps split: option.splits)

lemmas reads = bind_act_def read_st_def modify_st_def fail_def ret_def of_result_def request_of_def connection_def bound_of_def set_bound_def

lemma set_hm_remove: "set (hm_remove k m) \<subseteq> set m"
  by (auto simp: hm_remove_def)

lemma bound_bind: "preserves bound_ok (bind_agent_user (web_ops as_date) c p)"
proof (rule preservesI)
  fix s r s' assume ok: "bound_ok s" and run: "bind_agent_user (web_ops as_date) c p s = (r, s')"
  have "s' = s \<or> (\<exists>m b u. hm_get (kc_bound s) m = Some b \<and> c \<in> set (kc_connects s) \<and>
      s' = s\<lparr>kc_bound := hm_insert m (hm_insert u c b) (kc_bound s)\<rparr>)"
    using run by (auto simp: bind_agent_user_def web_ops_def build_messenger_info_def reads
        split: request_payload.splits option.splits if_splits)
  then show "bound_ok s'"
  proof (elim disjE exE conjE)
    fix m b u assume b: "hm_get (kc_bound s) m = Some b" and c: "c \<in> set (kc_connects s)"
      and s': "s' = s\<lparr>kc_bound := hm_insert m (hm_insert u c b) (kc_bound s)\<rparr>"
    show ?thesis unfolding s'
      using set_hm_insert [of u c b] c bound_ok_of [OF ok b] by (intro bound_ok_insert [OF ok]) auto
  qed (use ok in simp)
qed

lemma bound_ok_forget:
  "bound_ok s \<Longrightarrow> hm_get (kc_bound s) m = Some b \<Longrightarrow> bound_ok (s\<lparr>kc_bound := hm_insert m (hm_remove u b) (kc_bound s)\<rparr>)"
  using set_hm_remove [of u b] by (intro bound_ok_insert) (auto dest: bound_ok_of)

lemma bound_unbind: "preserves bound_ok (unbind_agent_user c p)"
  by (rule preservesI) (auto simp: unbind_agent_user_def reads bound_ok_forget
      split: request_payload.splits option.splits if_splits)

lemma bound_user_remove: "preserves bound_ok (process_user_remove e)"
proof (rule preservesI)
  fix s r s' assume ok: "bound_ok s" and run: "process_user_remove e s = (r, s')"
  let ?n = "ue_notification e"
  have "lines s' = lines s \<or> (\<exists>b. hm_get (kc_bound s) (urn_messenger_id ?n) = Some b \<and>
      lines s' = lines (s\<lparr>kc_bound := hm_insert (urn_messenger_id ?n) (hm_remove (urn_user_id ?n) b) (kc_bound s)\<rparr>))"
    using run by (auto simp: process_user_remove_def Let_def reads send_frame_def lines_def
        split: option.splits if_splits list.splits bool.splits)
  then show "bound_ok s'" using ok by (auto dest: bound_ok_lines [rotated] bound_ok_forget)
qed

section \<open>Messages and groups leave the tables\<close>

lemma tables_incoming [keeps_intros]:
  "keeps tables (connection_of_user m u)" "keeps tables (process_incoming_message e)"
proof -
  show "keeps tables (connection_of_user m u)" for m u unfolding connection_of_user_def by (intro keeps_intros)
  then show "keeps tables (process_incoming_message e)" unfolding process_incoming_message_def by (intro keeps_intros)
qed

lemma tables_handle [simp]: "tables (handle_incoming_message e s) = tables s" "tables (handle_group_change g s) = tables s"
proof -
  show told: "tables (handle_incoming_message e s) = tables s" for e s
    unfolding handle_incoming_message_def by (intro keeps_handle keeps_intros)
  have "keeps tables (process_group_change g)"
    unfolding process_group_change_def Let_def
    by (cases "ge_change_type g"; simp; intro keeps_intros keeps_modify_st told)
  then show "tables (handle_group_change g s) = tables s"
    unfolding handle_group_change_def by (rule keeps_handle)
qed

lemma tables_notify [keeps_intros]: "keeps tables (notify_group_change u g t time)"
  unfolding notify_group_change_def by (intro keeps_intros keeps_modify_st) simp

lemma tables_write_messages [keeps_intros]: "keeps tables (write_messages as_date key msgs)"
  unfolding write_messages_def Let_def by (intro keeps_intros keeps_modify_st; simp)

lemma tables_append_step: "tables (append_step as_date key n s) = tables s"
  using tables_write_messages [of as_date key] by (simp add: append_step_def keeps_def split: prod.splits list.splits)

lemma tables_stored_step: "tables (stored_step s) = tables s"
proof -
  have "tables (fold handle_incoming_message es s) = tables s" for es s by (induction es arbitrary: s) simp_all
  then show ?thesis by (simp add: stored_step_def send_stored_def split: list.splits)
qed

section \<open>Users and groups\<close>

lemma preserves_lines: "keeps lines m \<Longrightarrow> preserves bound_ok m"
  by (rule preserves_keeps) (auto intro: bound_ok_lines)

lemma keeps_lines: "keeps tables m \<Longrightarrow> keeps lines m"
  by (auto simp: keeps_def intro: lines_of_tables)

lemma lines_web_io [keeps_intros]: "keeps lines web_io"
  by (intro keeps_lines keeps_intros)

lemma lines_write_config: "keeps lines (write_config op)"
  unfolding write_config_def
  by (intro keeps_intros keeps_modify_st; simp add: lines_def)

lemma bound_write_config [preserves_intros]: "preserves bound_ok (write_config op)"
  by (intro preserves_lines lines_write_config)

lemma bound_asks [preserves_intros]:
  "preserves bound_ok web_now" "preserves bound_ok next_msg_id" "preserves bound_ok (notify_group_change u g t time)"
  by (intro bound_keeps_tables keeps_intros)+

lemma bound_handle: "preserves bound_ok m \<Longrightarrow> bound_ok s \<Longrightarrow> bound_ok (handle m s)"
  by (simp add: preserves_def handle_def)

lemma bound_config_ops:
  "preserves bound_ok (update_admin_name name)" "preserves bound_ok (add_user name)" "preserves bound_ok (rename_user u name)"
  "preserves bound_ok (remove_user u)" "preserves bound_ok (add_web_group name members)" "preserves bound_ok (rename_group g name)"
  "preserves bound_ok (manage_members g add remove)" "preserves bound_ok (delete_group g)"
  unfolding update_admin_name_def add_user_def rename_user_def remove_user_def add_web_group_def rename_group_def manage_members_def
    delete_group_def change_group_def handle_user_remove_def
  by (intro preserves_intros preserves_modify_st bound_handle bound_user_remove; simp)+

interpretation web: messenger_aside "web_ops as_date" tables for as_date
proof unfold_locales
  show "keeps tables (mo_send_message (web_ops as_date m) msg)" for m msg unfolding web_ops_def by (simp add: tables_web_send)
  show "keeps tables (mo_send_attachment_payload (web_ops as_date m) t n pos data)" for m t n pos data
    unfolding web_ops_def by (simp add: tables_write_chunk)
qed (simp_all add: web_ops_def keeps_intros)

section \<open>The invariant\<close>

lemma bound_wrap_process:
  assumes m: "preserves bound_ok m"
  shows "preserves bound_ok (wrap_process c sn m)"
proof (rule preservesI)
  fix s r s' assume ok: "bound_ok s" and run: "wrap_process c sn m s = (r, s')"
  obtain a s1 where m1: "m s = (a, s1)" by (cases "m s")
  from preservesD [OF m ok m1] have "bound_ok s1" .
  moreover have "wrap_process c sn (\<lambda>_. (a, s1)) s = (r, s')"
    using run m1 by (simp add: wrap_process_def)
  then have "wrap_process c sn (\<lambda>s. (a, s)) s1 = (r, s')" by (simp add: wrap_process_def)
  then have "tables s' = tables s1"
    by (rule keepsD [OF web.own_wrap_process, rotated]) (simp add: keeps_def)
  ultimately show "bound_ok s'" using bound_ok_lines lines_of_tables by blast
qed

lemma bound_tables_eq: "tables s' = tables s \<Longrightarrow> bound_ok s \<Longrightarrow> bound_ok s'"
  using bound_ok_lines lines_of_tables by blast

lemma preserves_snd: "preserves I m \<Longrightarrow> I s \<Longrightarrow> I (snd (m s))"
  by (simp add: preserves_def)

lemmas bound_steps = bound_connect_init bound_close_connect bound_wrap_process [OF bound_bind] bound_wrap_process [OF bound_unbind]
  bound_wrap_process [OF bound_keeps_tables, OF web.own_requests(1)] bound_wrap_process [OF bound_keeps_tables, OF web.own_requests(2)]
  bound_wrap_process [OF bound_keeps_tables, OF web.own_requests(3)] bound_config_ops
  bound_keeps_tables [OF tables_web_send] bound_keeps_tables [OF tables_write_chunk]

lemma bound_web_event: "bound_ok s \<Longrightarrow> bound_ok (web_event env e s)"
proof (cases e)
  case (Asked_Download c sn p)
  assume "bound_ok s"
  with Asked_Download show ?thesis using bound_tables_eq [OF web.own_download_request] by simp
next
  case (Written key n)
  assume "bound_ok s"
  with Written show ?thesis using bound_tables_eq [OF tables_append_step] by simp
next
  case Sent_Out
  assume "bound_ok s"
  with Sent_Out show ?thesis using bound_tables_eq [OF tables_stored_step] by simp
next
  case Download_Run
  assume "bound_ok s"
  with Download_Run show ?thesis using bound_tables_eq [OF tables_download_step] by simp
qed (simp_all add: preserves_snd [of bound_ok] bound_steps)

lemma bound_web_run: "bound_ok s \<Longrightarrow> bound_ok (web_run env es s)"
  unfolding web_run_def by (induction es arbitrary: s) (auto intro: bound_web_event)

lemma bound_new_web: "bound_ok (new_web repo clock uuid disk faults)"
  by (simp add: bound_ok_def new_web_def)

end
