(* ===== verification/Channel_Edits.thy ===== *)
theory Channel_Edits
  imports Channel_Run Case_Tree_Inv
begin

text \<open>
  What becomes of the repository of the web messenger: in every run it is what the edits of the
  administrator make of it, one after the other, whatever agents do and whatever fails. What that
  says of ids and members.
\<close>

section \<open>Edits\<close>

definition edited_group :: "string \<Rightarrow> (group_config \<Rightarrow> group_config) \<Rightarrow> web_repo \<Rightarrow> web_repo" where
  "edited_group g f r =
     (if starts_with g admin_user_group_prefix then r else r\<lparr>wr_groups := snd (write_key_value g f (wr_groups r))\<rparr>)"

fun repo_edit :: "channel_event \<Rightarrow> web_repo \<Rightarrow> web_repo" where
  "repo_edit (Admin_Renamed name) r = r\<lparr>wr_admin_name := name\<rparr>"
| "repo_edit (User_Added name) r =
     (let u = user_id_prefix @ nat_digits (unat (wr_next_user_seq r))
      in r\<lparr>wr_next_user_seq := wr_next_user_seq r + 1,
           wr_users := hm_insert u \<lparr>uc_user_id = u, uc_user_name = name\<rparr> (wr_users r)\<rparr>)"
| "repo_edit (User_Renamed u name) r = r\<lparr>wr_users := snd (write_key_value u (\<lambda>c. c\<lparr>uc_user_name := name\<rparr>) (wr_users r))\<rparr>"
| "repo_edit (User_Removed u) r = (case without_user u r of Inr (_, r') \<Rightarrow> r' | Inl _ \<Rightarrow> r)"
| "repo_edit (Group_Added name members) r =
     (let g = group_id_prefix @ nat_digits (unat (wr_next_group_seq r))
      in r\<lparr>wr_next_group_seq := wr_next_group_seq r + 1,
           wr_groups := hm_insert g \<lparr>gc_group_id = g, gc_group_name = name, gc_members = remdups members\<rparr> (wr_groups r)\<rparr>)"
| "repo_edit (Group_Renamed g name) r = edited_group g (\<lambda>c. c\<lparr>gc_group_name := name\<rparr>) r"
| "repo_edit (Members_Changed g add remove) r =
     edited_group g (\<lambda>c. c\<lparr>gc_members := fold removeAll remove (fold List.insert add (gc_members c))\<rparr>) r"
| "repo_edit (Group_Deleted g) r =
     (if starts_with g admin_user_group_prefix \<or> hm_get (wr_groups r) g = None then r
      else r\<lparr>wr_groups := hm_remove g (wr_groups r)\<rparr>)"
| "repo_edit _ r = r"

lemma repo_of_tables: "tables s' = tables s \<Longrightarrow> wm_repo s' = wm_repo s"
  by (simp add: tables_def)

lemma repo_keeps_tables: "keeps tables m \<Longrightarrow> wm_repo (snd (m s)) = wm_repo s"
  by (auto simp: keeps_def intro: repo_of_tables)

lemma repo_write_config:
  "wm_repo (snd (write_config op s)) = (case op (wm_repo s) of Inr (x, r) \<Rightarrow> r | Inl e \<Rightarrow> wm_repo s)"
proof (cases "op (wm_repo s)")
  case (Inl e)
  then show ?thesis by (simp add: write_config_def bind_read fail_def)
next
  case (Inr p)
  obtain x r where p: "p = (x, r)" by (cases p)
  let ?stored = "bind_act web_io (\<lambda>_. bind_act (modify_st (\<lambda>s. s\<lparr>wm_repo_file := Some Damaged\<rparr>)) (\<lambda>_.
      bind_act web_io (\<lambda>_. bind_act (modify_st (\<lambda>s. s\<lparr>wm_repo_file := Some (Json_File r)\<rparr>)) (\<lambda>_. ret x))))"
  have "keeps tables ?stored" by (intro keeps_intros keeps_modify_st; simp)
  then have "wm_repo (snd (?stored (s\<lparr>wm_repo := r\<rparr>))) = r" by (simp add: repo_keeps_tables)
  moreover have "write_config op s = ?stored (s\<lparr>wm_repo := r\<rparr>)"
    using Inr p by (simp add: write_config_def bind_read bind_modify)
  ultimately show ?thesis using Inr p by simp
qed

lemma repo_bind:
  assumes "\<And>x. keeps tables (f x)"
  shows "wm_repo (snd (bind_act m f s)) = wm_repo (snd (m s))"
  using repo_keeps_tables [OF assms] by (simp add: bind_act_def split: prod.splits sum.splits)

lemma repo_bind_user_remove:
  "keeps (\<lambda>s. wm_repo s) (process_user_remove e)"
  by (rule keepsI) (auto simp: process_user_remove_def Let_def reads send_frame_def
      split: option.splits if_splits list.splits bool.splits)

lemma repo_bind_keeps:
  assumes "\<And>x. keeps wm_repo (f x)"
  shows "wm_repo (snd (bind_act m f s)) = wm_repo (snd (m s))"
  using assms by (simp add: bind_act_def keeps_def split: prod.splits sum.splits)

lemma keeps_repo: "keeps tables m \<Longrightarrow> keeps wm_repo m"
  by (auto simp: keeps_def intro: repo_of_tables)

lemma repo_change_group:
  "wm_repo (snd (change_group g f s)) = edited_group g f (wm_repo s)"
  by (auto simp: change_group_def edited_group_def repo_write_config write_key_value_def fail_def
      split: option.splits prod.splits sum.splits)

lemma repo_groups:
  "wm_repo (snd (rename_group g name s)) = repo_edit (Group_Renamed g name) (wm_repo s)"
  "wm_repo (snd (manage_members g add remove s)) = repo_edit (Members_Changed g add remove) (wm_repo s)"
proof -
  show "wm_repo (snd (rename_group g name s)) = repo_edit (Group_Renamed g name) (wm_repo s)"
    by (simp add: rename_group_def repo_change_group)
  have "keeps tables (bind_act web_now (\<lambda>time. bind_act (for_each add (\<lambda>i. notify_group_change i g Joined time)) (\<lambda>_.
      for_each remove (\<lambda>i. notify_group_change i g Left time))))"
    by (intro keeps_intros)
  note kept = repo_bind [OF this]
  show "wm_repo (snd (manage_members g add remove s)) = repo_edit (Members_Changed g add remove) (wm_repo s)"
    by (simp add: kept manage_members_def repo_change_group)
qed

lemma repo_add_group: "wm_repo (snd (add_web_group name members s)) = repo_edit (Group_Added name members) (wm_repo s)"
proof -
  have "keeps tables (bind_act web_now (\<lambda>time.
     bind_act (for_each members (\<lambda>m. if m \<noteq> admin_user_id then notify_group_change m g Joined time else ret ())) (\<lambda>_.
     ret g)))" for g
    by (intro keeps_intros)
  note kept = repo_bind [OF this]
  show ?thesis by (simp add: kept add_web_group_def repo_write_config Let_def)
qed

lemma repo_delete_group: "wm_repo (snd (delete_group g s)) = repo_edit (Group_Deleted g) (wm_repo s)"
proof -
  have "keeps tables (bind_act web_now (\<lambda>time.
      for_each members (\<lambda>m. if m \<noteq> admin_user_id then notify_group_change m g Left time else ret ())))" for members
    by (intro keeps_intros)
  note kept = repo_bind [OF this]
  show ?thesis by (simp add: kept delete_group_def repo_write_config fail_def split: option.splits)
qed

lemma repo_remove_user: "wm_repo (snd (remove_user u s)) = repo_edit (User_Removed u) (wm_repo s)"
proof -
  have gone: "wm_repo (handle_user_remove e s) = wm_repo s" for e s
    unfolding handle_user_remove_def by (rule keeps_handle [OF repo_bind_user_remove])
  have "keeps wm_repo (bind_act next_msg_id (\<lambda>id. bind_act (read_st wm_messenger_id) (\<lambda>mid. bind_act web_now (\<lambda>now.
      modify_st (handle_user_remove (e id mid now))))))" for e
    by (intro keeps_intros keeps_modify_st keeps_repo gone)
  note kept = repo_bind_keeps [OF this]
  show ?thesis by (simp add: kept remove_user_def repo_write_config)
qed

lemma repo_users:
  "wm_repo (snd (update_admin_name name s)) = repo_edit (Admin_Renamed name) (wm_repo s)"
  "wm_repo (snd (add_user name s)) = repo_edit (User_Added name) (wm_repo s)"
  "wm_repo (snd (rename_user u name s)) = repo_edit (User_Renamed u name) (wm_repo s)"
  by (auto simp: update_admin_name_def add_user_def rename_user_def repo_write_config Let_def write_key_value_def
      split: option.splits)

section \<open>A run edits the repository\<close>

lemma repo_wrap_process:
  fixes m :: "server_reply option web_op"
  shows "keeps wm_repo m \<Longrightarrow> keeps wm_repo (wrap_process c sn m)"
proof (rule keepsI)
  fix s r s' assume m: "keeps wm_repo m" and run: "wrap_process c sn m s = (r, s')"
  obtain a s1 where m1: "m s = (a, s1)" by (cases "m s")
  have "wrap_process c sn (\<lambda>s. (a, s)) s1 = (r, s')" using run m1 by (simp add: wrap_process_def)
  then have "tables s' = tables s1"
    by (rule keepsD [OF web.own_wrap_process, rotated]) (simp add: keeps_def)
  then have "wm_repo s' = wm_repo s1" by (rule repo_of_tables)
  with keepsD [OF m m1] show "wm_repo s' = wm_repo s" by simp
qed

lemma repo_bindings: "keeps wm_repo (bind_agent_user (web_ops as_date) c p)" "keeps wm_repo (unbind_agent_user c p)"
  by (rule keepsI, auto simp: bind_agent_user_def unbind_agent_user_def web_ops_def build_messenger_info_def reads
      split: request_payload.splits option.splits if_splits)+

lemma repo_connections: "wm_repo (snd (connect_init s)) = wm_repo s" "wm_repo (snd (close_connect c s)) = wm_repo s"
  by (simp_all add: connect_init_def Let_def close_connect_def reads)

lemmas repo_requests = repo_wrap_process [OF repo_bindings(1)] repo_wrap_process [OF repo_bindings(2)]
  repo_wrap_process [OF keeps_repo, OF web.own_requests(1)] repo_wrap_process [OF keeps_repo, OF web.own_requests(2)]
  repo_wrap_process [OF keeps_repo, OF web.own_requests(3)] keeps_repo [OF tables_web_send] keeps_repo [OF tables_write_chunk]

lemma keeps_snd: "keeps f m \<Longrightarrow> f (snd (m s)) = f s"
  by (simp add: keeps_def)

lemmas repo_tasks = repo_of_tables [OF web.own_download_request] repo_of_tables [OF tables_append_step]
  repo_of_tables [OF tables_stored_step] repo_of_tables [OF tables_download_step]

lemma repo_web_event: "wm_repo (web_event env e s) = repo_edit e (wm_repo s)"
  by (cases e; hypsubst; simp only: web_event.simps repo_connections repo_tasks repo_users repo_groups
      repo_add_group repo_delete_group repo_remove_user repo_requests [THEN keeps_snd]; simp)

lemma repo_web_run: "wm_repo (web_run env es s) = fold repo_edit es (wm_repo s)"
  unfolding web_run_def by (induction es arbitrary: s) (simp_all add: repo_web_event)

section \<open>Ids of users\<close>

fun users_added :: "channel_event list \<Rightarrow> nat" where
  "users_added [] = 0"
| "users_added (User_Added name # es) = Suc (users_added es)"
| "users_added (_ # es) = users_added es"

lemma users_added_append: "users_added (es @ fs) = users_added es + users_added fs"
  by (induction es rule: users_added.induct) simp_all

lemma user_seq_edits:
  "wr_next_user_seq (fold repo_edit es r) = wr_next_user_seq r + word_of_nat (users_added es)"
proof (induction es arbitrary: r rule: users_added.induct)
  case (2 name es)
  then show ?case by (simp add: Let_def algebra_simps)
qed (simp_all add: edited_group_def without_user_def Let_def split: option.splits)

lemma user_id_of: "add_user name s = (Inr u, s') \<Longrightarrow> u = user_id_prefix @ nat_digits (unat (wr_next_user_seq (wm_repo s)))"
  by (auto simp: add_user_def write_config_def Let_def run_simps)

definition web_repo_ok :: "web_repo \<Rightarrow> bool" where
  "web_repo_ok r \<longleftrightarrow>
     (\<forall>(u, c) \<in> set (wr_users r). starts_with u user_id_prefix) \<and> (\<forall>(g, c) \<in> set (wr_groups r). distinct (gc_members c))"

lemma distinct_inserts: "distinct ms \<Longrightarrow> distinct (fold List.insert add ms)"
  by (induction add arbitrary: ms) auto

lemma distinct_removes: "distinct ms \<Longrightarrow> distinct (fold removeAll remove ms)"
  by (induction remove arbitrary: ms) (auto simp: distinct_removeAll)

lemma set_write_key_value:
  "set (snd (write_key_value k f m)) \<subseteq> set m \<union> {(k, f v) | v. hm_get m k = Some v}"
  using set_hm_insert [of k _ "hm_remove k m"] set_hm_remove [of k m]
  by (auto simp: write_key_value_def split: option.splits)

lemma web_repo_ok_parts:
  "web_repo_ok r \<longleftrightarrow> (\<forall>p \<in> set (wr_users r). starts_with (fst p) user_id_prefix) \<and> (\<forall>p \<in> set (wr_groups r). distinct (gc_members (snd p)))"
  by (auto simp: web_repo_ok_def)

lemma web_repo_ok_users:
  "web_repo_ok r \<Longrightarrow> (\<And>p. p \<in> set us \<Longrightarrow> starts_with (fst p) user_id_prefix) \<Longrightarrow> web_repo_ok (r\<lparr>wr_users := us\<rparr>)"
  by (simp add: web_repo_ok_parts)

lemma web_repo_ok_edited_group:
  assumes ok: "web_repo_ok r" and f: "\<And>c. distinct (gc_members c) \<Longrightarrow> distinct (gc_members (f c))"
  shows "web_repo_ok (edited_group g f r)"
proof -
  have "distinct (gc_members (snd p))" if "p \<in> set (snd (write_key_value g f (wr_groups r)))" for p
    using that ok f by (auto simp: web_repo_ok_parts dest!: subsetD [OF set_write_key_value] map_of_SomeD)
  with ok show ?thesis by (simp add: edited_group_def web_repo_ok_parts)
qed

lemma web_repo_ok_edit: "web_repo_ok r \<Longrightarrow> web_repo_ok (repo_edit e r)"
proof (induction e r rule: repo_edit.induct)
  case (2 name r)
  then show ?case
    by (auto simp: web_repo_ok_parts Let_def starts_with_def dest!: subsetD [OF set_hm_insert])
next
  case (3 u name r)
  have "starts_with (fst p) user_id_prefix" if "p \<in> set (snd (write_key_value u (uc_user_name_update (\<lambda>_. name)) (wr_users r)))" for p
    using that 3 by (auto simp: web_repo_ok_parts dest!: subsetD [OF set_write_key_value] map_of_SomeD)
  with 3 show ?case by (simp add: web_repo_ok_users)
next
  case (4 u r)
  then show ?case
    using set_hm_remove [of u "wr_users r"]
    by (auto simp: web_repo_ok_parts without_user_def distinct_removeAll split: option.splits)
next
  case (5 name members r)
  then show ?case
    by (auto simp: web_repo_ok_parts Let_def dest!: subsetD [OF set_hm_insert])
next
  case (6 g name r)
  then show ?case by (simp add: web_repo_ok_edited_group)
next
  case (7 g add remove r)
  then show ?case by (simp add: web_repo_ok_edited_group distinct_removes distinct_inserts)
next
  case (8 g r)
  then show ?case using set_hm_remove [of g "wr_groups r"] by (auto simp: web_repo_ok_parts)
qed (simp_all add: web_repo_ok_parts)

lemma web_repo_ok_run: "web_repo_ok (wm_repo s) \<Longrightarrow> web_repo_ok (wm_repo (web_run env es s))"
proof -
  have "web_repo_ok r \<Longrightarrow> web_repo_ok (fold repo_edit es r)" for r
    by (induction es arbitrary: r) (simp_all add: web_repo_ok_edit)
  then show "web_repo_ok (wm_repo s) \<Longrightarrow> web_repo_ok (wm_repo (web_run env es s))" by (simp add: repo_web_run)
qed

lemma web_repo_ok_new: "web_repo_ok (new_web_repo m name)"
  by (simp add: web_repo_ok_parts new_web_repo_def)

text \<open>The administrator is no user.\<close>

lemma admin_no_user: "web_repo_ok r \<Longrightarrow> hm_get (wr_users r) admin_user_id = None"
  by (cases "hm_get (wr_users r) admin_user_id")
    (fastforce simp: web_repo_ok_parts admin_user_id_def user_id_prefix_def starts_with_def dest!: map_of_SomeD)+

end
