(* ===== verification/Channel_Delivery.thy ===== *)
theory Channel_Delivery
  imports Channel_Edits
begin

text \<open>
  A message from its sender to the members of the group: what is sent, stored and sent out when
  nothing fails, and who is among the recipients.
\<close>

section \<open>Who gets a message\<close>

definition may_write :: "web_repo \<Rightarrow> string \<Rightarrow> string \<Rightarrow> bool" where
  "may_write cfg u g \<longleftrightarrow> check_sender cfg u g = Inr ()"

lemma starts_with_iff: "starts_with s p \<longleftrightarrow> (\<exists>r. s = p @ r)"
  by (auto simp: starts_with_def) (metis append_take_drop_id)

lemma admin_ref: "parse_admin_user_group_ref cfg g = Some u \<longleftrightarrow> g = admin_user_group_id u \<and> hm_get (wr_users cfg) u \<noteq> None"
  by (auto simp: parse_admin_user_group_ref_def admin_user_group_id_def strip_prefix_def starts_with_iff
      split: option.splits if_splits)

lemma admin_group: "starts_with (admin_user_group_id u) admin_user_group_prefix"
  by (simp add: admin_user_group_id_def starts_with_iff)

lemma admin_group_inj: "admin_user_group_id u = admin_user_group_id v \<longleftrightarrow> u = v"
  by (simp add: admin_user_group_id_def)

lemma may_write_user: "u \<noteq> admin_user_id \<Longrightarrow> starts_with g admin_user_group_prefix \<Longrightarrow>
    may_write cfg u g \<longleftrightarrow> g = admin_user_group_id u \<and> hm_get (wr_users cfg) u \<noteq> None"
  by (auto simp: may_write_def check_sender_def is_admin_user_group_for_def)

lemma may_write_admin: "starts_with g admin_user_group_prefix \<Longrightarrow>
    may_write cfg admin_user_id g \<longleftrightarrow> (\<exists>u. g = admin_user_group_id u \<and> hm_get (wr_users cfg) u \<noteq> None)"
  using admin_ref [of cfg g] by (auto simp: may_write_def check_sender_def split: option.splits)

text \<open>Whoever else but the administrator may write to the group.\<close>

lemma recipients_may_write:
  assumes ok: "web_repo_ok cfg" and sender: "may_write cfg (im_user_id m) (im_group_id m)"
  shows "set (recipients cfg m) = {u. u \<noteq> admin_user_id \<and> may_write cfg u (im_group_id m)}"
    and "distinct (recipients cfg m)"
proof -
  have admin: "hm_get (wr_users cfg) admin_user_id = None" using admin_no_user [OF ok] .
  have "set (recipients cfg m) = {u. u \<noteq> admin_user_id \<and> may_write cfg u (im_group_id m)} \<and> distinct (recipients cfg m)"
  proof (cases "starts_with (im_group_id m) admin_user_group_prefix")
    case True
    show ?thesis
    proof (cases "im_user_id m = admin_user_id")
      case admin_sends: True
      with sender True obtain u where u: "im_group_id m = admin_user_group_id u" "hm_get (wr_users cfg) u \<noteq> None"
        by (auto simp: may_write_admin)
      then have "parse_admin_user_group_ref cfg (im_group_id m) = Some u" by (simp add: admin_ref)
      with True admin_sends have "recipients cfg m = [u]" by (simp add: recipients_def)
      moreover have "v \<noteq> admin_user_id \<and> may_write cfg v (im_group_id m) \<longleftrightarrow> v = u" for v
        using True u admin by (cases "v = admin_user_id") (auto simp: may_write_user admin_group_inj)
      ultimately show ?thesis by auto
    next
      case False
      with sender True have u: "im_group_id m = admin_user_group_id (im_user_id m)" "hm_get (wr_users cfg) (im_user_id m) \<noteq> None"
        by (auto simp: may_write_user)
      with True False have "recipients cfg m = [im_user_id m]" by (auto simp: recipients_def is_admin_user_group_for_def)
      moreover have "v \<noteq> admin_user_id \<and> may_write cfg v (im_group_id m) \<longleftrightarrow> v = im_user_id m" for v
        using True u admin by (cases "v = admin_user_id") (auto simp: may_write_user admin_group_inj)
      ultimately show ?thesis by auto
    qed
  next
    case False
    with sender obtain c where c: "hm_get (wr_groups cfg) (im_group_id m) = Some c" "im_user_id m \<in> set (gc_members c)"
      by (auto simp: may_write_def check_sender_def split: option.splits if_splits)
    then have "distinct (gc_members c)" using ok by (auto simp: web_repo_ok_def dest!: map_of_SomeD)
    with False c show ?thesis by (auto simp: recipients_def may_write_def check_sender_def split: if_splits)
  qed
  then show "set (recipients cfg m) = {u. u \<noteq> admin_user_id \<and> may_write cfg u (im_group_id m)}"
    and "distinct (recipients cfg m)" by blast+
qed

section \<open>Sending out\<close>

definition pushes :: "(string, 32 word) hmap \<Rightarrow> incoming_message_event list \<Rightarrow> (32 word \<times> server_frame) list" where
  "pushes b es = List.map_filter (\<lambda>e. map_option (\<lambda>c. (c, Push_Incoming e)) (hm_get b (ie_recipient_user_id e))) es"

lemma handle_incoming_calm:
  assumes "bound_ok s" and "kc_faults s = []" and b: "hm_get (kc_bound s) (im_messenger_id (ie_incoming_message e)) = Some b"
  shows "handle_incoming_message e s = s\<lparr>kc_sent := kc_sent s @ pushes b [e]\<rparr>"
  using assms bound_ok_get [OF assms(1) b]
  by (auto simp: handle_incoming_message_def handle_def process_incoming_message_def connection_of_user_def reads
      send_frame_def pushes_def List.map_filter_def split: option.splits)

lemma bound_ok_sent: "bound_ok (s\<lparr>kc_sent := x\<rparr>) = bound_ok s"
  by (simp add: bound_ok_def)

lemma handle_all_calm:
  assumes "bound_ok s" and "kc_faults s = []" and "hm_get (kc_bound s) mid = Some b"
    and "\<forall>e \<in> set es. im_messenger_id (ie_incoming_message e) = mid"
  shows "fold handle_incoming_message es s = s\<lparr>kc_sent := kc_sent s @ pushes b es\<rparr>"
  using assms
proof (induction es arbitrary: s)
  case (Cons e es)
  then have "handle_incoming_message e s = s\<lparr>kc_sent := kc_sent s @ pushes b [e]\<rparr>" by (intro handle_incoming_calm) auto
  with Cons show ?case by (simp add: bound_ok_sent pushes_def List.map_filter_def)
qed (simp add: pushes_def List.map_filter_def)

section \<open>When nothing fails\<close>

text \<open>What the registering of attachments leaves alone, while the disk works.\<close>

definition untouched :: "web_state \<Rightarrow> _" where
  "untouched s = (kc_connects s, kc_bound s, kc_sent s, kc_faults s, wm_messenger_id s, wm_repo s, wm_queue s, wm_stored s,
     wm_clock s, wm_ticks s)"

abbreviation calm :: "web_state \<Rightarrow> web_state \<Rightarrow> bool" where
  "calm s0 s \<equiv> untouched s = untouched s0 \<and> wm_disk s = []"

abbreviation sure :: "('s \<Rightarrow> bool) \<Rightarrow> ('s, 'e, 'a) action \<Rightarrow> bool" where
  "sure P m \<equiv> triple P m (\<lambda>_. P) (\<lambda>_ _. False)"

lemma triple_returns: "triple P m Q (\<lambda>_ _. False) \<Longrightarrow> P s \<Longrightarrow> \<exists>x s'. m s = (Inr x, s') \<and> Q x s'"
proof (cases "m s")
  case (Pair r s')
  assume "triple P m Q (\<lambda>_ _. False)" "P s"
  with Pair show ?thesis by (cases r) (auto dest: triple_Inr triple_Inl)
qed

lemma sure_process_content:
  "(\<And>info. sure P (register info)) \<Longrightarrow> sure P (process_content register c)"
  "(\<And>info. sure P (register info)) \<Longrightarrow> sure P (process_contents register cs)"
  by (induction register c and register cs rule: process_content_process_contents.induct)
    (auto intro!: triple_bind triple_ret)

lemma register_run:
  assumes "wm_disk s = []" and key: "key = g @ ''/'' @ wm_uuid s (wm_uuids s)"
  shows "register_attachment g info s =
    (Inr \<lparr>att_key = key, att_info = info, transfer_id = wm_transfer_seq s\<rparr>,
     s\<lparr>wm_uuids := Suc (wm_uuids s), wm_transfer_seq := wm_transfer_seq s + 1, wm_uploading := hm_insert key [] (wm_uploading s),
       wm_metas := hm_insert key \<lparr>at_key = key, at_info = info\<rparr> (wm_metas s),
       wm_uploads := hm_insert (wm_transfer_seq s) (key, 0) (wm_uploads s), wm_disk := []\<rparr>)"
  using assms(1) by (simp add: key register_attachment_def Let_def reads web_new_uuid_def next_transfer_id_def web_io_def)

lemma register_untouched:
  assumes "wm_disk s = []"
  shows "\<exists>r s'. register_attachment g info s = (Inr r, s') \<and> untouched s' = untouched s \<and> wm_disk s' = []"
  unfolding register_run [OF assms refl] by (simp add: untouched_def)

lemma sure_register: "sure (calm s0) (register_attachment g info)"
proof (rule tripleI)
  fix s x s' assume P: "calm s0 s" and run: "register_attachment g info s = (Inr x, s')"
  from P have "wm_disk s = []" ..
  from register_untouched [OF this, of g info] run P show "calm s0 s'" by simp
next
  fix s e s' assume P: "calm s0 s" and run: "register_attachment g info s = (Inl e, s')"
  from P have "wm_disk s = []" ..
  from register_untouched [OF this, of g info] run show False by simp
qed

lemma process_content_calm:
  assumes "wm_disk s = []"
  obtains x s1 where "process_content (register_attachment g) c s = (Inr x, s1)" and "calm s s1"
proof -
  have "sure (calm s) (process_content (register_attachment g) c)" by (rule sure_process_content) (rule sure_register)
  from triple_returns [OF this, of s] assms that show thesis by blast
qed

text \<open>The message that is stored for what was sent.\<close>

definition message_of :: "outgoing_message \<Rightarrow> outgoing_message_response \<Rightarrow> incoming_message" where
  "message_of msg r =
     \<lparr>im_msg_id = or_msg_id r, im_messenger_id = om_messenger_id msg, im_user_id = om_user_id msg, im_group_id = om_group_id msg,
      im_messenger_name = or_messenger_name r, im_user_name = or_user_name r, im_group_name = or_group_name r,
      im_content = or_content r, im_time = or_time r\<rparr>"

lemma web_send_calm:
  assumes mid: "om_messenger_id msg = wm_messenger_id s" and disk: "wm_disk s = []"
    and may: "may_write (wm_repo s) (om_user_id msg) (om_group_id msg)"
  obtains r s1 where "web_send as_date register_attachment msg s = (Inr r, s1)"
    and "or_time r = wm_clock s (Suc (wm_ticks s))"
    and "untouched s1 = untouched (s\<lparr>wm_ticks := wm_ticks s + 2, wm_queue := wm_queue s @
      [(\<lparr>mk_group_id = om_group_id msg, mk_date = as_date (or_time r)\<rparr>, message_of msg r)]\<rparr>)"
    and "wm_disk s1 = []"
proof -
  obtain x s1 where x: "process_content (register_attachment (om_group_id msg)) (om_content msg) s = (Inr x, s1)" and s1: "calm s s1"
    using process_content_calm [OF disk] .
  obtain ms un gn where names: "resolve_names (wm_repo s) (om_user_id msg) (om_group_id msg) = (ms, un, gn)"
    by (cases "resolve_names (wm_repo s) (om_user_id msg) (om_group_id msg)")
  from s1 have "untouched s1 = untouched s" ..
  then have same: "wm_messenger_id s1 = wm_messenger_id s" "wm_clock s1 = wm_clock s" "wm_ticks s1 = wm_ticks s"
    "wm_queue s1 = wm_queue s" "kc_connects s1 = kc_connects s" "kc_bound s1 = kc_bound s" "kc_sent s1 = kc_sent s"
    "kc_faults s1 = kc_faults s" "wm_repo s1 = wm_repo s" "wm_stored s1 = wm_stored s"
    by (simp_all add: untouched_def)
  have "\<exists>r s2. web_send as_date register_attachment msg s = (Inr r, s2) \<and> or_time r = wm_clock s (Suc (wm_ticks s)) \<and>
    untouched s2 = untouched (s\<lparr>wm_ticks := wm_ticks s + 2, wm_queue := wm_queue s @
      [(\<lparr>mk_group_id = om_group_id msg, mk_date = as_date (or_time r)\<rparr>, message_of msg r)]\<rparr>) \<and> wm_disk s2 = []"
    using mid may s1 by (simp add: web_send_def reads may_write_def x names next_msg_id_def web_now_def same
        untouched_def message_of_def)
  with that show thesis by blast
qed

section \<open>From the request to the members\<close>

lemma untouched_parts:
  assumes "untouched s' = untouched s"
  shows "kc_connects s' = kc_connects s" "kc_bound s' = kc_bound s" "kc_sent s' = kc_sent s" "kc_faults s' = kc_faults s"
    "wm_messenger_id s' = wm_messenger_id s" "wm_repo s' = wm_repo s" "wm_queue s' = wm_queue s" "wm_stored s' = wm_stored s"
    "wm_clock s' = wm_clock s" "wm_ticks s' = wm_ticks s"
  using assms by (simp_all add: untouched_def)

lemma untouched_receivers: "untouched (register_attachment_receivers x m s) = untouched s \<and>
    wm_disk (register_attachment_receivers x m s) = wm_disk s"
proof (induction x m s rule: register_attachment_receivers.induct)
  case (2 items m s)
  have "untouched (fold (\<lambda>item. register_attachment_receivers item m) xs s) = untouched s \<and>
      wm_disk (fold (\<lambda>item. register_attachment_receivers item m) xs s) = wm_disk s" if "set xs \<subseteq> set items" for xs s
    using that 2 by (induction xs arbitrary: s) auto
  then show ?case by simp
qed (simp_all add: untouched_def)

text \<open>A request of a bound user is answered, and the message waits to be written.\<close>

lemma asked_send_calm:
  assumes mid: "om_messenger_id msg = wm_messenger_id s" and calm: "wm_disk s = []" "kc_faults s = []"
    and may: "may_write (wm_repo s) (om_user_id msg) (om_group_id msg)"
    and b: "hm_get (kc_bound s) (om_messenger_id msg) = Some b" "hm_get b (om_user_id msg) = Some c"
  obtains r where "or_time r = wm_clock s (Suc (wm_ticks s))"
    and "untouched (web_event env (Asked_Send c sn (Payload msg)) s) =
      untouched (s\<lparr>wm_ticks := wm_ticks s + 2, wm_queue := wm_queue s @
        [(\<lparr>mk_group_id = om_group_id msg, mk_date = ce_as_date env (or_time r)\<rparr>, message_of msg r)],
        kc_sent := kc_sent s @ [(c, Answered sn (Some (Reply_Sent r)))]\<rparr>)"
    and "wm_disk (web_event env (Asked_Send c sn (Payload msg)) s) = []"
proof -
  obtain r s1 where r: "web_send (ce_as_date env) register_attachment msg s = (Inr r, s1)" and
    time: "or_time r = wm_clock s (Suc (wm_ticks s))" and s1: "untouched s1 = untouched (s\<lparr>wm_ticks := wm_ticks s + 2,
      wm_queue := wm_queue s @ [(\<lparr>mk_group_id = om_group_id msg, mk_date = ce_as_date env (or_time r)\<rparr>, message_of msg r)]\<rparr>)"
    and disk: "wm_disk s1 = []"
    using web_send_calm [OF mid calm(1) may] by blast
  let ?s2 = "register_attachment_receivers (or_content r) (om_messenger_id msg) s1"
  have s2: "untouched ?s2 = untouched s1" "wm_disk ?s2 = []"
    using untouched_receivers [of "or_content r" "om_messenger_id msg" s1] disk by simp_all
  have asked: "outgoing_message_request (web_ops (ce_as_date env)) c (Payload msg) s = (Inr (Some (Reply_Sent r)), ?s2)"
    using b r by (simp add: outgoing_message_request_def bound_to_def reads web_ops_def)
  have quiet: "kc_faults ?s2 = []"
    using untouched_parts(4) [OF s2(1)] untouched_parts(4) [OF s1] calm(2) by simp
  have event: "web_event env (Asked_Send c sn (Payload msg)) s =
      ?s2\<lparr>kc_faults := [], kc_sent := kc_sent ?s2 @ [(c, Answered sn (Some (Reply_Sent r)))]\<rparr>"
    by (simp add: wrap_process_def asked send_frame_def quiet)
  show thesis
    by (rule that [OF time]; unfold event; insert s1 s2 quiet calm; simp add: untouched_def)
qed

lemma take_one: "take_for key 1 [(key, m)] = ([m], [])"
  by (simp add: One_nat_def del: One_nat_def [symmetric])

text \<open>What is written is timed anew and waits to be sent out.\<close>

lemma written_calm:
  assumes "wm_disk s = []" and "wm_queue s = [(key, m)]" and "wm_stored s = []"
  obtains time where "untouched (append_step as_date key 1 s) =
      untouched (s\<lparr>wm_ticks := Suc (wm_ticks s), wm_queue := [], wm_stored := [[m\<lparr>im_time := time\<rparr>]]\<rparr>)"
    and "time = (let now = wm_clock s (wm_ticks s) in if mk_date key \<noteq> as_date now then mk_date key @ '' 23:59:59'' else now)"
  by (rule that [OF _ refl])
    (simp add: append_step_def assms take_one write_messages_def Let_def reads web_now_def web_io_def untouched_def)

end
