(* ===== verification/Channel_Samples.thy ===== *)
theory Channel_Samples
  imports Channel_Delivery
begin

text \<open>
  A small run of the channel server: two connections, two users in a group, each bound to one.
\<close>

definition sample_web_env :: channel_env where
  "sample_web_env = \<lparr>ce_as_date = take 10, ce_answer = (\<lambda>c d. Inr \<lparr>pr_current_pos = 0, pr_error_code = 0, pr_error_msg = None\<rparr>), ce_next_sn = (\<lambda>c. 1), ce_success = 0\<rparr>"

definition sample_web_events :: "channel_event list" where
  "sample_web_events =
     [Opened, Opened, User_Added ''Ann'', User_Added ''Bob'', Group_Added ''Team'' [''u0'', ''u1''],
      Asked_Bind 0 1 (Payload \<lparr>br_messenger_id = ''w'', br_user_id = ''u0''\<rparr>),
      Asked_Bind 1 1 (Payload \<lparr>br_messenger_id = ''w'', br_user_id = ''u1''\<rparr>)]"

definition fresh_web :: web_state where
  "fresh_web = new_web (new_web_repo ''w'' ''Admin'') (\<lambda>n. ''2026-01-01 10:00:00'') (\<lambda>n. ''x'') [] []"

definition sample_web_repo :: web_repo where
  "sample_web_repo = \<lparr>wr_messenger_id = ''w'', wr_admin_name = ''Admin'',
     wr_users = [(''u0'', \<lparr>uc_user_id = ''u0'', uc_user_name = ''Ann''\<rparr>), (''u1'', \<lparr>uc_user_id = ''u1'', uc_user_name = ''Bob''\<rparr>)],
     wr_groups = [(''g0'', \<lparr>gc_group_id = ''g0'', gc_group_name = ''Team'', gc_members = [''u0'', ''u1'']\<rparr>)],
     wr_next_user_seq = 2, wr_next_group_seq = 1\<rparr>"

definition unbound_web :: web_state where
  "unbound_web = fresh_web\<lparr>kc_next_connect := 2, kc_connects := [1, 0], wm_repo := sample_web_repo,
     wm_repo_file := Some (Json_File sample_web_repo), wm_msg_seq := 2, wm_ticks := 3\<rparr>"

definition sample_web :: web_state where
  "sample_web = unbound_web\<lparr>kc_bound := [(''w'', [(''u0'', 0), (''u1'', 1)])], kc_sent := [(0, Answered 1 None), (1, Answered 1 None)]\<rparr>"

lemmas sample_web_steps = connect_init_def add_user_def add_web_group_def write_config_def reads web_io_def web_now_def Let_def
  new_web_def new_web_repo_def user_id_prefix_def group_id_prefix_def notify_group_change_def next_msg_id_def
  handle_group_change_def handle_def process_group_change_def connection_of_user_def wrap_process_def bind_agent_user_def
  web_ops_def build_messenger_info_def send_frame_def nat_digits.simps char_of_def bit_0 resolve_names_def admin_user_id_def
  admin_user_group_prefix_def starts_with_def fresh_web_def unbound_web_def sample_web_repo_def

lemma sample_connects: "web_event env Opened (web_event env Opened fresh_web) = fresh_web\<lparr>kc_next_connect := 2, kc_connects := [1, 0]\<rparr>"
  by (simp add: sample_web_steps)

lemma sample_users:
  "web_event sample_web_env (Group_Added ''Team'' [''u0'', ''u1''])
    (web_event sample_web_env (User_Added ''Bob'') (web_event sample_web_env (User_Added ''Ann'')
      (fresh_web\<lparr>kc_next_connect := 2, kc_connects := [1, 0]\<rparr>))) = unbound_web"
  by (simp add: sample_web_steps)

lemma sample_first_bound:
  "web_event sample_web_env (Asked_Bind 0 1 (Payload \<lparr>br_messenger_id = ''w'', br_user_id = ''u0''\<rparr>)) unbound_web =
    unbound_web\<lparr>kc_bound := [(''w'', [(''u0'', 0)])], kc_sent := [(0, Answered 1 None)]\<rparr>"
  by (simp add: sample_web_steps)

lemma sample_second_bound:
  "web_event sample_web_env (Asked_Bind 1 1 (Payload \<lparr>br_messenger_id = ''w'', br_user_id = ''u1''\<rparr>))
    (unbound_web\<lparr>kc_bound := [(''w'', [(''u0'', 0)])], kc_sent := [(0, Answered 1 None)]\<rparr>) = sample_web"
  by (simp add: sample_web_steps sample_web_def)

lemma sample_web_run: "web_run sample_web_env sample_web_events fresh_web = sample_web"
  by (simp only: web_run_def sample_web_events_def fold_simps id_apply sample_connects sample_users sample_first_bound
      sample_second_bound)

lemma sample_web_state [simp]:
  "wm_disk sample_web = []" "kc_faults sample_web = []" "wm_queue sample_web = []" "wm_stored sample_web = []"
  "wm_messenger_id sample_web = ''w''" "wm_repo sample_web = sample_web_repo"
  "kc_bound sample_web = [(''w'', [(''u0'', 0), (''u1'', 1)])]" "kc_connects sample_web = [1, 0]"
  "wm_tasks sample_web = []" "wm_transfer_seq sample_web = 0" "wm_uuid sample_web n = ''x''"
  "kc_sent sample_web = [(0, Answered 1 None), (1, Answered 1 None)]"
  by (simp_all add: sample_web_def unbound_web_def fresh_web_def new_web_def new_web_repo_def)

lemma sample_members [simp]: "may_write sample_web_repo u ''g0'' \<longleftrightarrow> u \<in> {''u0'', ''u1''}"
  by (auto simp: may_write_def check_sender_def sample_web_repo_def starts_with_def admin_user_group_prefix_def)

end
