(* ===== verification/Channel_Transfer.thy ===== *)
theory Channel_Transfer
  imports Channel_Samples
begin

text \<open>
  An attachment from the agent that uploads it, chunk by chunk, to the agent that downloads it, when
  nothing fails.
\<close>

section \<open>Uploads\<close>

text \<open>What transfers do not change but for their own entries.\<close>

definition steady :: "web_state \<Rightarrow> _" where
  "steady s = (kc_connects s, kc_bound s, wm_messenger_id s, wm_metas s, wm_tasks s)"

text \<open>The bytes that came to a connection in chunks of downloads.\<close>

definition received :: "32 word \<Rightarrow> (32 word \<times> server_frame) list \<Rightarrow> bytes" where
  "received d fs = concat (List.map_filter (\<lambda>(c, f). case f of
     Push_Chunk x \<Rightarrow> if c = d then Some (drop offset_att_data x) else None | _ \<Rightarrow> None) fs)"

lemma received_append [simp]: "received d (xs @ ys) = received d xs @ received d ys"
  by (simp add: received_def map_filter_def)

lemma received_answer [simp]: "received d [(c, Answered sn r)] = []" "received d [] = []"
  by (simp_all add: received_def map_filter_def)

lemma received_chunk [simp]: "received d [(d, Push_Chunk x)] = drop offset_att_data x"
  by (simp add: received_def map_filter_def)

definition uploading :: "32 word \<Rightarrow> attachment_info \<Rightarrow> string \<Rightarrow> bytes \<Rightarrow> web_state \<Rightarrow> bool" where
  "uploading t info key got s \<longleftrightarrow>
     wm_disk s = [] \<and> kc_faults s = [] \<and> (\<exists>m. hm_get (kc_receivers s) t = Some (m, info)) \<and>
     hm_get (wm_uploads s) t = Some (key, length got) \<and> hm_get (wm_uploading s) key = Some got \<and>
     upload_size key s = size_bytes info \<and> (\<exists>p. parse_att_key key = Inr p)"

lemma frame_parts:
  "parse_attachment_payload_header ws_header_len (frame_header n ty ok h @ data) = Some h"
  "drop offset_att_data (frame_header n ty ok h @ data) = data"
  using parse_header_of_bytes [of "to_be_nat 4 (unat n) @ to_be_nat 4 (unat ty) @ to_be_nat 4 (unat ok)" ws_header_len h data]
  by (simp_all add: frame_header_def ws_header_len_def offset_att_data_def header_bytes_def)

lemma length_frame_header: "length (frame_header n ty ok h) = offset_att_data"
  by (simp add: frame_header_def ws_header_len_def offset_att_data_def header_bytes_def)

lemma upload_chunk:
  assumes up: "uploading t info key got s" and data: "length data < 2 ^ 32" "length got < 2 ^ 64"
    and fits: "length got + length data \<le> size_bytes info"
    and event: "s' = web_event env (Asked_Upload c sn (upload_frame n ok t (word_of_nat (length got)) data)) s"
  shows "steady s' = steady s \<and> (\<forall>d. received d (kc_sent s') = received d (kc_sent s)) \<and> wm_disk s' = [] \<and> kc_faults s' = []"
    and "length got + length data < size_bytes info \<Longrightarrow> uploading t info key (got @ data) s'"
    and "length got + length data = size_bytes info \<Longrightarrow> hm_get (wm_complete s') key = Some (got @ data)"
proof -
  have sizes: "unat (word_of_nat (length data) :: 32 word) = length data" "unat (word_of_nat (length got) :: 64 word) = length got"
    using data by (simp_all add: unat_of_nat)
  from up obtain m p where s: "wm_disk s = []" "kc_faults s = []" "hm_get (kc_receivers s) t = Some (m, info)"
    "hm_get (wm_uploads s) t = Some (key, length got)" "hm_get (wm_uploading s) key = Some got" "upload_size key s = size_bytes info"
    "parse_att_key key = Inr p" by (auto simp: uploading_def)
  note chunk = write_chunk_def process_upload_write_inner_def reads web_io_def finish_upload_def Let_def
    wrap_process_def attachment_payload_def upload_frame_def frame_parts length_frame_header web_ops_def send_frame_def payload_errcode_ok_def
  show "steady s' = steady s \<and> (\<forall>d. received d (kc_sent s') = received d (kc_sent s)) \<and> wm_disk s' = [] \<and> kc_faults s' = []"
    using fits unfolding event by (auto simp: chunk s sizes steady_def)
  show "uploading t info key (got @ data) s'" if "length got + length data < size_bytes info"
    using that s(6) unfolding event by (simp add: chunk s sizes uploading_def upload_size_def)
  show "hm_get (wm_complete s') key = Some (got @ data)" if "length got + length data = size_bytes info"
    using that unfolding event by (simp add: chunk s sizes)
qed

text \<open>The events of an upload from position \<open>n\<close> on.\<close>

fun uploads :: "32 word \<Rightarrow> 32 word \<Rightarrow> 32 word \<Rightarrow> nat \<Rightarrow> bytes list \<Rightarrow> channel_event list" where
  "uploads c t sn n [] = []"
| "uploads c t sn n (x # xs) = Asked_Upload c sn (upload_frame sn 0 t (word_of_nat n) x) # uploads c t sn (n + length x) xs"

lemma upload_all:
  assumes "uploading t info key got s" and "xs \<noteq> []" and "[] \<notin> set xs" and "\<forall>x \<in> set xs. length x < 2 ^ 32"
    and "size_bytes info < 2 ^ 64" and "length got + length (concat xs) = size_bytes info"
  shows "steady (web_run env (uploads c t sn (length got) xs) s) = steady s \<and>
    (\<forall>d. received d (kc_sent (web_run env (uploads c t sn (length got) xs) s)) = received d (kc_sent s)) \<and>
    wm_disk (web_run env (uploads c t sn (length got) xs) s) = [] \<and> kc_faults (web_run env (uploads c t sn (length got) xs) s) = [] \<and>
    hm_get (wm_complete (web_run env (uploads c t sn (length got) xs) s)) key = Some (got @ concat xs)"
  using assms
proof (induction xs arbitrary: got s)
  case (Cons x xs)
  let ?s1 = "web_event env (Asked_Upload c sn (upload_frame sn 0 t (word_of_nat (length got)) x)) s"
  have sizes: "length x < 2 ^ 32" "length got < 2 ^ 64" "length got + length x \<le> size_bytes info" using Cons.prems by simp_all
  note chunk = upload_chunk [OF Cons.prems(1) sizes refl, where env = env and c = c and sn = sn and n = sn and ok = 0]
  show ?case
  proof (cases "xs = []")
    case True
    with Cons.prems chunk(1) chunk(3) show ?thesis by (simp add: web_run_def)
  next
    case False
    with Cons.prems have "0 < length (concat xs)" by (cases xs) auto
    moreover have "length got + (length x + length (concat xs)) = size_bytes info" using Cons.prems(6) by simp
    ultimately have more: "length got + length x < size_bytes info" by linarith
    have "steady (web_run env (uploads c t sn (length (got @ x)) xs) ?s1) = steady ?s1 \<and>
      (\<forall>d. received d (kc_sent (web_run env (uploads c t sn (length (got @ x)) xs) ?s1)) = received d (kc_sent ?s1)) \<and>
      wm_disk (web_run env (uploads c t sn (length (got @ x)) xs) ?s1) = [] \<and>
      kc_faults (web_run env (uploads c t sn (length (got @ x)) xs) ?s1) = [] \<and>
      hm_get (wm_complete (web_run env (uploads c t sn (length (got @ x)) xs) ?s1)) key = Some ((got @ x) @ concat xs)"
      by (rule Cons.IH [OF chunk(2) [OF more] False]) (use Cons.prems in simp_all)
    with chunk(1) show ?thesis by (simp add: web_run_def del: web_event.simps)
  qed
qed simp

section \<open>Downloads\<close>

definition downloading :: "32 word \<Rightarrow> 32 word \<Rightarrow> attachment_info \<Rightarrow> string \<Rightarrow> bytes \<Rightarrow> web_state \<Rightarrow> bool" where
  "downloading t d info key data s \<longleftrightarrow>
     wm_disk s = [] \<and> kc_faults s = [] \<and> hm_get (kc_senders s) t = Some (d, info) \<and> d \<in> set (kc_connects s) \<and>
     hm_get (wm_complete s) key = Some data \<and> length data = size_bytes info \<and> (\<exists>p. parse_att_key key = Inr p)"

lemma sent_chunk:
  assumes down: "downloading t d info key data s" and fits: "p + n \<le> length data"
    and ok: "\<forall>x. \<exists>r. answer d x = Inr r \<and> pr_error_code r = payload_errcode_ok"
  obtains r s' where "send_chunk answer next_sn success t key p n s = (Inr r, s')" and "pr_error_code r = payload_errcode_ok"
    and "received d (kc_sent s') = received d (kc_sent s) @ take n (drop p data)"
    and "p + n < length data \<Longrightarrow> downloading t d info key data s'"
proof -
  from down obtain q where s: "wm_disk s = []" "kc_faults s = []" "hm_get (kc_senders s) t = Some (d, info)" "d \<in> set (kc_connects s)"
    "hm_get (wm_complete s) key = Some data" "length data = size_bytes info" "parse_att_key key = Inr q"
    by (auto simp: downloading_def)
  let ?x = "frame_header (next_sn d) type_attachment_payload success \<lparr>ah_id = t, ah_size = word_of_nat n, ah_pos = word_of_nat p\<rparr> @
    take n (drop p data)"
  obtain r where r: "answer d ?x = Inr r" "pr_error_code r = payload_errcode_ok" using ok by blast
  have "\<exists>s'. send_chunk answer next_sn success t key p n s = (Inr r, s') \<and>
      received d (kc_sent s') = received d (kc_sent s) @ take n (drop p data) \<and>
      (p + n < length data \<longrightarrow> downloading t d info key data s')"
    using s fits r by (simp add: send_chunk_def prepare_download_payload_def sender_of_transfer_def reads read_attachment_range_def
        web_io_def send_download_payload_def send_frame_def stop_download_def length_frame_header downloading_def Let_def)
  with r(2) that show thesis by blast
qed

lemma downloaded:
  assumes ok: "\<forall>x. \<exists>r. answer d x = Inr r \<and> pr_error_code r = payload_errcode_ok"
    and "downloading t d info key data s" and "p \<le> length data"
  shows "received d (kc_sent (download_loop (send_chunk answer next_sn success t key) (length data) p s)) =
    received d (kc_sent s) @ drop p data"
  using assms(2,3)
proof (induction "length data - p" arbitrary: p s rule: less_induct)
  case less
  let ?send = "send_chunk answer next_sn success t key"
  show ?case
  proof (cases "length data \<le> p")
    case True
    then show ?thesis by (simp add: download_loop.simps [of ?send])
  next
    case False
    let ?e = "min (p + chunk_size) (length data)"
    have e: "p < ?e" "?e \<le> length data" "p + (?e - p) = ?e" using False by (simp_all add: chunk_size_def)
    obtain r s' where sent: "?send p (?e - p) s = (Inr r, s')" "pr_error_code r = payload_errcode_ok"
      "received d (kc_sent s') = received d (kc_sent s) @ take (?e - p) (drop p data)"
      "?e < length data \<Longrightarrow> downloading t d info key data s'"
      using sent_chunk [where answer = answer and d = d and p = p and n = "?e - p", OF less.prems(1) _ ok] unfolding e(3) using e(2) by blast
    have step: "download_loop ?send (length data) p s = download_loop ?send (length data) ?e s'"
      using False sent by (simp add: download_loop.simps [of ?send _ p] Let_def)
    have parts: "take (?e - p) (drop p data) @ drop ?e data = drop p data"
      using e by (metis append_take_drop_id drop_drop add.commute)
    show ?thesis
    proof (cases "?e < length data")
      case True
      have "length data - ?e < length data - p" using e(1) False by (intro diff_less_mono2) simp_all
      from less.hyps [OF this sent(4) [OF True] e(2)] show ?thesis unfolding step using sent(3) parts by simp
    next
      case at_end: False
      then have "download_loop ?send (length data) ?e s' = s'" by (simp add: download_loop.simps [of ?send])
      then show ?thesis unfolding step using sent(3) parts at_end e by simp
    qed
  qed
qed

section \<open>From one agent to another\<close>

lemma attachment_sent:
  assumes mid: "om_messenger_id msg = wm_messenger_id s" and content: "om_content msg = Content_AttachmentInfo info"
    and calm: "wm_disk s = []" "kc_faults s = []"
    and may: "may_write (wm_repo s) (om_user_id msg) (om_group_id msg)"
    and b: "hm_get (kc_bound s) (om_messenger_id msg) = Some b" "hm_get b (om_user_id msg) = Some c"
    and key: "key = om_group_id msg @ ''/'' @ wm_uuid s (wm_uuids s)" "parse_att_key key = Inr p"
    and event: "s1 = web_event env (Asked_Send c sn (Payload msg)) s"
  shows "uploading (wm_transfer_seq s) info key [] s1"
    and "kc_connects s1 = kc_connects s" and "kc_bound s1 = kc_bound s" and "wm_tasks s1 = wm_tasks s"
    and "hm_get (wm_metas s1) key = Some \<lparr>at_key = key, at_info = info\<rparr>"
    and "\<exists>r. kc_sent s1 = kc_sent s @ [(c, Answered sn (Some (Reply_Sent r)))] \<and>
      or_content r = Content_AttachmentInfoResponse \<lparr>att_key = key, att_info = info, transfer_id = wm_transfer_seq s\<rparr>"
proof -
  obtain ms un gn where names: "resolve_names (wm_repo s) (om_user_id msg) (om_group_id msg) = (ms, un, gn)"
    by (cases "resolve_names (wm_repo s) (om_user_id msg) (om_group_id msg)")
  note run = web_send_def reads content register_run [OF _ key(1)] names next_msg_id_def web_now_def outgoing_message_request_def
    bound_to_def web_ops_def wrap_process_def send_frame_def
  have may': "check_sender (wm_repo s) (om_user_id msg) (om_group_id msg) = Inr ()" using may by (simp add: may_write_def)
  note facts = mid [symmetric] calm may' b
  show "uploading (wm_transfer_seq s) info key [] s1"
    using facts key(2) unfolding event by (simp add: run uploading_def upload_size_def)
  show "kc_connects s1 = kc_connects s" "kc_bound s1 = kc_bound s" "wm_tasks s1 = wm_tasks s"
    "hm_get (wm_metas s1) key = Some \<lparr>at_key = key, at_info = info\<rparr>"
    using facts unfolding event by (simp_all add: run)
  show "\<exists>r. kc_sent s1 = kc_sent s @ [(c, Answered sn (Some (Reply_Sent r)))] \<and>
      or_content r = Content_AttachmentInfoResponse \<lparr>att_key = key, att_info = info, transfer_id = wm_transfer_seq s\<rparr>"
    using facts unfolding event by (simp add: run)
qed

lemma download_run:
  assumes calm: "wm_disk s = []" "kc_faults s = []" "wm_tasks s = []"
    and b: "hm_get (kc_bound s) (dr_messenger_id req) = Some b" "hm_get b (dr_user_id req) = Some d" "d \<in> set (kc_connects s)"
    and meta: "hm_get (wm_metas s) (dr_key req) = Some \<lparr>at_key = dr_key req, at_info = info\<rparr>"
    and stored: "hm_get (wm_complete s) (dr_key req) = Some data" "length data = size_bytes info" "parse_att_key (dr_key req) = Inr p"
    and ok: "\<forall>x. \<exists>r. ce_answer env d x = Inr r \<and> pr_error_code r = payload_errcode_ok"
  shows "received d (kc_sent (web_run env [Asked_Download d sn (Payload req), Download_Run] s)) = received d (kc_sent s) @ data"
proof -
  let ?t = "wm_transfer_seq s"
  let ?s1 = "web_event env (Asked_Download d sn (Payload req)) s"
  have s1: "wm_tasks ?s1 = [?t]" "hm_get (wm_transfers ?s1) ?t = Some (dr_key req)" "upload_size (dr_key req) ?s1 = length data"
    "downloading ?t d info (dr_key req) data (?s1\<lparr>wm_tasks := []\<rparr>)" "received d (kc_sent ?s1) = received d (kc_sent s)"
    using calm b meta stored
    by (simp_all add: download_request_def process_download_request_header_def reads bound_to_def web_ops_def
        web_download_header_def get_meta_def web_io_def next_transfer_id_for_def next_transfer_id_def send_frame_def
        start_send_download_attachment_payload_def transfer_meta_def downloading_def upload_size_def)
  have "received d (kc_sent (download_loop (send_chunk (ce_answer env) (ce_next_sn env) (ce_success env) ?t (dr_key req)) (length data) 0
      (?s1\<lparr>wm_tasks := []\<rparr>))) = received d (kc_sent ?s1) @ drop 0 data"
    using downloaded [where answer = "ce_answer env" and d = d and p = 0, OF ok s1(4)] by simp
  then have "received d (kc_sent (web_event env Download_Run ?s1)) = received d (kc_sent s) @ data"
    using s1 by (simp add: download_step_def Let_def del: web_event.simps(8))
  then show ?thesis by (simp add: web_run_def del: web_event.simps)
qed

end
