(* ===== verification/Web_History.thy ===== *)
theory Web_History
  imports Web_Messenger
begin

text \<open>
  What pages read of the messages of a group (\<open>kissbot-channel-web/src/message_store.rs\<close>): the
  last, those before and those after a line, over the days of the group. The index over the files is
  the library's and is an argument.
\<close>

section \<open>Pages\<close>

record line_message =
  lm_line :: nat
  lm_message :: incoming_message

record grouped_messages =
  gm_key :: msg_key
  gm_messages :: "line_message list"

type_synonym msg_lines = "(nat \<times> incoming_message) list"

text \<open>The queries of the index: the last or first lines of a file, or up to or from a line.\<close>

record msg_index =
  q_last :: "msg_key \<Rightarrow> nat \<Rightarrow> channel_error + msg_lines"
  q_first :: "msg_key \<Rightarrow> nat \<Rightarrow> channel_error + msg_lines"
  q_before :: "msg_key \<Rightarrow> nat \<Rightarrow> nat \<Rightarrow> channel_error + msg_lines"
  q_after :: "msg_key \<Rightarrow> nat \<Rightarrow> nat \<Rightarrow> channel_error + msg_lines"

definition grouped :: "msg_key \<Rightarrow> msg_lines \<Rightarrow> grouped_messages" where
  "grouped key msgs = \<lparr>gm_key = key, gm_messages = map (\<lambda>(l, m). \<lparr>lm_line = l, lm_message = m\<rparr>) msgs\<rparr>"

text \<open>Days without messages are left out.\<close>

definition push_group :: "msg_key \<Rightarrow> msg_lines \<Rightarrow> grouped_messages list \<Rightarrow> grouped_messages list" where
  "push_group key msgs rest = (if msgs = [] then rest else grouped key msgs # rest)"

text \<open>The groups in the order in which they are found.\<close>

fun days_loop :: "(msg_key \<Rightarrow> nat \<Rightarrow> channel_error + msg_lines) \<Rightarrow> string \<Rightarrow> string list \<Rightarrow> nat \<Rightarrow> channel_error + grouped_messages list" where
  "days_loop query g [] remaining = Inr []"
| "days_loop query g (d # ds) remaining =
     (if remaining = 0 then Inr []
      else let key = \<lparr>mk_group_id = g, mk_date = d\<rparr> in
        case query key remaining of
          Inl e \<Rightarrow> Inl e
        | Inr msgs \<Rightarrow>
            (case days_loop query g ds (remaining - length msgs) of
               Inl e \<Rightarrow> Inl e
             | Inr rest \<Rightarrow> Inr (push_group key msgs rest)))"

definition days_of :: "string \<Rightarrow> web_state \<Rightarrow> string list" where
  "days_of g s = (case hm_get (wm_dates s) g of Some ds \<Rightarrow> ds | None \<Rightarrow> [])"

definition get_recent :: "msg_index \<Rightarrow> string list \<Rightarrow> string \<Rightarrow> nat \<Rightarrow> channel_error + grouped_messages list" where
  "get_recent idx days g n =
     (case days_loop (q_last idx) g (rev days) n of Inl e \<Rightarrow> Inl e | Inr rs \<Rightarrow> Inr (rev rs))"

text \<open>\<open>range(..cursor).next_back()\<close> and \<open>range(cursor excluded..).next()\<close>.\<close>

definition day_before :: "string list \<Rightarrow> string \<Rightarrow> string option" where
  "day_before days cursor = (case filter (\<lambda>d. d < cursor) days of [] \<Rightarrow> None | ds \<Rightarrow> Some (last ds))"

definition day_after :: "string list \<Rightarrow> string \<Rightarrow> string option" where
  "day_after days cursor = (case filter (\<lambda>d. cursor < d) days of [] \<Rightarrow> None | d # ds \<Rightarrow> Some d)"

lemma day_before_less: "day_before days cursor = Some d \<Longrightarrow> d < cursor \<and> d \<in> set days"
  unfolding day_before_def by (auto split: list.splits) (metis last_in_set list.distinct(1) mem_Collect_eq set_filter last.simps)+

lemma day_after_less: "day_after days cursor = Some d \<Longrightarrow> cursor < d \<and> d \<in> set days"
  unfolding day_after_def by (auto split: list.splits dest: filter_eq_ConsD)

lemma length_filter_less:
  "(\<And>x. P x \<Longrightarrow> Q x) \<Longrightarrow> y \<in> set xs \<Longrightarrow> Q y \<Longrightarrow> \<not> P y \<Longrightarrow> length (filter P xs) < length (filter Q xs)"
proof (induction xs)
  case (Cons x xs)
  have "length (filter P xs) \<le> length (filter Q xs)" using Cons.prems(1) by (induction xs) auto
  with Cons show ?case by (auto simp: less_Suc_eq_le)
qed simp

function before_loop :: "msg_index \<Rightarrow> string list \<Rightarrow> string \<Rightarrow> string \<Rightarrow> nat \<Rightarrow> channel_error + grouped_messages list" where
  "before_loop idx days g cursor remaining =
     (if remaining = 0 then Inr []
      else case day_before days cursor of
        None \<Rightarrow> Inr []
      | Some d \<Rightarrow>
          let key = \<lparr>mk_group_id = g, mk_date = d\<rparr> in
          (case q_last idx key remaining of
             Inl e \<Rightarrow> Inl e
           | Inr msgs \<Rightarrow>
               (case before_loop idx days g d (remaining - length msgs) of
                  Inl e \<Rightarrow> Inl e
                | Inr rest \<Rightarrow> Inr (push_group key msgs rest))))"
  by pat_completeness auto
termination
proof (relation "measure (\<lambda>(idx, days, g, cursor, remaining). length (filter (\<lambda>d. d < cursor) days))")
  fix idx :: msg_index and days :: "string list" and cursor d :: string and g :: string and remaining n :: nat
  assume "day_before days cursor = Some d"
  then have "length (filter (\<lambda>x. x < d) days) < length (filter (\<lambda>x. x < cursor) days)"
    by (intro length_filter_less [where y = d]) (auto dest: day_before_less intro: less_trans)
  then show "((idx, days, g, d, n), (idx, days, g, cursor, remaining)) \<in>
      measure (\<lambda>(idx, days, g, cursor, remaining). length (filter (\<lambda>d. d < cursor) days))"
    by simp
qed simp

declare before_loop.simps [simp del]

function after_loop :: "msg_index \<Rightarrow> string list \<Rightarrow> string \<Rightarrow> string \<Rightarrow> nat \<Rightarrow> channel_error + grouped_messages list" where
  "after_loop idx days g cursor remaining =
     (if remaining = 0 then Inr []
      else case day_after days cursor of
        None \<Rightarrow> Inr []
      | Some d \<Rightarrow>
          let key = \<lparr>mk_group_id = g, mk_date = d\<rparr> in
          (case q_first idx key remaining of
             Inl e \<Rightarrow> Inl e
           | Inr msgs \<Rightarrow>
               (case after_loop idx days g d (remaining - length msgs) of
                  Inl e \<Rightarrow> Inl e
                | Inr rest \<Rightarrow> Inr (push_group key msgs rest))))"
  by pat_completeness auto
termination
proof (relation "measure (\<lambda>(idx, days, g, cursor, remaining). length (filter (\<lambda>d. cursor < d) days))")
  fix idx :: msg_index and days :: "string list" and cursor d :: string and g :: string and remaining n :: nat
  assume "day_after days cursor = Some d"
  then have "length (filter (\<lambda>x. d < x) days) < length (filter (\<lambda>x. cursor < x) days)"
    by (intro length_filter_less [where y = d]) (auto dest: day_after_less intro: less_trans)
  then show "((idx, days, g, d, n), (idx, days, g, cursor, remaining)) \<in>
      measure (\<lambda>(idx, days, g, cursor, remaining). length (filter (\<lambda>d. cursor < d) days))"
    by simp
qed simp

declare after_loop.simps [simp del]

definition get_before :: "msg_index \<Rightarrow> string list \<Rightarrow> msg_key \<Rightarrow> nat \<Rightarrow> nat \<Rightarrow> channel_error + grouped_messages list" where
  "get_before idx days key line n =
     (case if 0 < line - 1 then q_before idx key (line - 1) n else Inr [] of
        Inl e \<Rightarrow> Inl e
      | Inr msgs \<Rightarrow>
          (case before_loop idx days (mk_group_id key) (mk_date key) (n - length msgs) of
             Inl e \<Rightarrow> Inl e
           | Inr rest \<Rightarrow> Inr (rev (push_group key msgs rest))))"

definition get_after :: "msg_index \<Rightarrow> string list \<Rightarrow> msg_key \<Rightarrow> nat \<Rightarrow> nat \<Rightarrow> channel_error + grouped_messages list" where
  "get_after idx days key line n =
     (case q_after idx key (line + 1) n of
        Inl e \<Rightarrow> Inl e
      | Inr msgs \<Rightarrow>
          (case after_loop idx days (mk_group_id key) (mk_date key) (n - length msgs) of
             Inl e \<Rightarrow> Inl e
           | Inr rest \<Rightarrow> Inr (push_group key msgs rest)))"

text \<open>\<open>messages_in_range\<close>: \<open>query_all\<close> is the library's.\<close>

definition messages_in_range :: "('q \<Rightarrow> channel_error + (msg_key \<times> msg_lines) list) \<Rightarrow> 'q \<Rightarrow> channel_error + grouped_messages list" where
  "messages_in_range query_all query = map_sum id (map (\<lambda>(key, msgs). grouped key msgs)) (query_all query)"

section \<open>Loops over days\<close>

lemma before_loop_days:
  assumes "sorted days" and "distinct days"
  shows "before_loop idx days g cursor n = days_loop (q_last idx) g (rev (filter (\<lambda>d. d < cursor) days)) n"
  using assms
proof (induction idx days g cursor n rule: before_loop.induct)
  case (1 idx days g cursor n)
  show ?case
  proof (cases "day_before days cursor")
    case None
    then have "filter (\<lambda>d. d < cursor) days = []" by (simp add: day_before_def split: list.splits)
    with None show ?thesis by (simp add: before_loop.simps [of idx days])
  next
    case (Some d)
    then have less: "d < cursor" "d \<in> set days" by (auto dest: day_before_less)
    from Some have ne: "filter (\<lambda>d. d < cursor) days \<noteq> []" and last: "last (filter (\<lambda>d. d < cursor) days) = d"
      by (auto simp: day_before_def split: list.splits)
    then obtain xs where xs: "filter (\<lambda>d. d < cursor) days = xs @ [d]" by (metis append_butlast_last_id)
    have "sorted (xs @ [d])" "distinct (xs @ [d])" using "1.prems" by (simp_all flip: xs add: sorted_wrt_filter)
    then have "\<forall>x \<in> set xs. x < d" by (auto simp: sorted_append order.order_iff_strict)
    then have "filter (\<lambda>x. x < d) (xs @ [d]) = xs" by simp
    moreover have "filter (\<lambda>x. x < d) (filter (\<lambda>x. x < cursor) days) = filter (\<lambda>x. x < d) days"
      using less(1) by (simp add: filter_filter) (metis (mono_tags, lifting) less_trans)
    ultimately have "filter (\<lambda>x. x < d) days = xs" by (simp add: xs)
    with "1.IH" [OF _ Some refl] "1.prems" Some xs show ?thesis
      by (simp add: before_loop.simps [of idx days g cursor] Let_def split: sum.splits)
  qed
qed

lemma after_loop_days:
  assumes "sorted days" and "distinct days"
  shows "after_loop idx days g cursor n = days_loop (q_first idx) g (filter (\<lambda>d. cursor < d) days) n"
  using assms
proof (induction idx days g cursor n rule: after_loop.induct)
  case (1 idx days g cursor n)
  show ?case
  proof (cases "day_after days cursor")
    case None
    then have "filter (\<lambda>d. cursor < d) days = []" by (simp add: day_after_def split: list.splits)
    with None show ?thesis by (simp add: after_loop.simps [of idx days])
  next
    case (Some d)
    then have less: "cursor < d" "d \<in> set days" by (auto dest: day_after_less)
    from Some obtain xs where xs: "filter (\<lambda>d. cursor < d) days = d # xs"
      by (auto simp: day_after_def split: list.splits)
    have "sorted (d # xs)" "distinct (d # xs)" using "1.prems" by (simp_all flip: xs add: sorted_wrt_filter)
    then have "\<forall>x \<in> set xs. d < x" by (auto simp: order.order_iff_strict)
    then have "filter (\<lambda>x. d < x) (d # xs) = xs" by simp
    moreover have "filter (\<lambda>x. d < x) (filter (\<lambda>x. cursor < x) days) = filter (\<lambda>x. d < x) days"
      using less(1) by (simp add: filter_filter) (metis (mono_tags, lifting) less_trans)
    ultimately have "filter (\<lambda>x. d < x) days = xs" by (simp add: xs)
    with "1.IH" [OF _ Some refl] "1.prems" Some xs show ?thesis
      by (simp add: after_loop.simps [of idx days g cursor] Let_def split: sum.splits)
  qed
qed

section \<open>The conversation of a group\<close>

definition last_n :: "nat \<Rightarrow> 'a list \<Rightarrow> 'a list" where
  "last_n n xs = drop (length xs - n) xs"

lemma last_n_0 [simp]: "last_n 0 xs = []"
  by (simp add: last_n_def)

lemma length_last_n [simp]: "length (last_n n xs) = min n (length xs)"
  by (simp add: last_n_def)

lemma last_n_append: "last_n n (xs @ ys) = last_n (n - length ys) xs @ last_n n ys"
  by (cases "length ys \<le> n") (simp_all add: last_n_def)

lemma last_n_map: "last_n n (map f xs) = map f (last_n n xs)"
  by (simp add: last_n_def drop_map)

text \<open>The lines of a file, counted from 1, and what the index is to find.\<close>

definition numbered :: "incoming_message list \<Rightarrow> msg_lines" where
  "numbered ms = enumerate 1 ms"

definition index_reads :: "msg_index \<Rightarrow> (msg_key \<Rightarrow> incoming_message list) \<Rightarrow> bool" where
  "index_reads idx files \<longleftrightarrow> (\<forall>key l n.
     q_last idx key n = Inr (last_n n (numbered (files key))) \<and>
     q_first idx key n = Inr (take n (numbered (files key))) \<and>
     q_before idx key l n = Inr (last_n n (filter (\<lambda>p. fst p \<le> l) (numbered (files key)))) \<and>
     q_after idx key l n = Inr (take n (filter (\<lambda>p. l \<le> fst p) (numbered (files key)))))"

definition day_lines :: "(msg_key \<Rightarrow> incoming_message list) \<Rightarrow> string \<Rightarrow> string \<Rightarrow> (string \<times> nat \<times> incoming_message) list" where
  "day_lines files g d = map (Pair d) (numbered (files \<lparr>mk_group_id = g, mk_date = d\<rparr>))"

definition history :: "(msg_key \<Rightarrow> incoming_message list) \<Rightarrow> string \<Rightarrow> string list \<Rightarrow> (string \<times> nat \<times> incoming_message) list" where
  "history files g days = concat (map (day_lines files g) days)"

text \<open>A page line by line.\<close>

definition page_lines :: "grouped_messages list \<Rightarrow> (string \<times> nat \<times> incoming_message) list" where
  "page_lines rs = concat (map (\<lambda>r. map (\<lambda>x. (mk_date (gm_key r), lm_line x, lm_message x)) (gm_messages r)) rs)"

lemma page_lines_append [simp]: "page_lines (rs @ qs) = page_lines rs @ page_lines qs" "page_lines [] = []"
  by (simp_all add: page_lines_def)

lemma page_lines_push:
  "page_lines (push_group key msgs rest) = map (Pair (mk_date key)) msgs @ page_lines rest"
  "page_lines (rev (push_group key msgs rest)) = page_lines (rev rest) @ map (Pair (mk_date key)) msgs"
  by (auto simp: push_group_def page_lines_def grouped_def comp_def case_prod_beta)

lemma days_loop_last:
  assumes "index_reads idx files"
  shows "\<exists>rs. days_loop (q_last idx) g ds n = Inr rs \<and> page_lines (rev rs) = last_n n (history files g (rev ds))"
proof (induction ds arbitrary: n)
  case (Cons d ds)
  let ?key = "\<lparr>mk_group_id = g, mk_date = d\<rparr>"
  let ?msgs = "last_n n (numbered (files ?key))"
  have query: "q_last idx ?key n = Inr ?msgs" using assms by (simp add: index_reads_def)
  obtain rs where rs: "days_loop (q_last idx) g ds (n - length ?msgs) = Inr rs"
    "page_lines (rev rs) = last_n (n - length ?msgs) (history files g (rev ds))" using Cons.IH by blast
  have "n - length ?msgs = n - length (day_lines files g d)" by (simp add: day_lines_def)
  with rs query show ?case
    by (simp add: page_lines_push history_def last_n_append Let_def) (simp add: day_lines_def last_n_map)
qed (simp add: history_def last_n_def)

lemma days_loop_first:
  assumes "index_reads idx files"
  shows "\<exists>rs. days_loop (q_first idx) g ds n = Inr rs \<and> page_lines rs = take n (history files g ds)"
proof (induction ds arbitrary: n)
  case (Cons d ds)
  let ?key = "\<lparr>mk_group_id = g, mk_date = d\<rparr>"
  let ?msgs = "take n (numbered (files ?key))"
  have query: "q_first idx ?key n = Inr ?msgs" using assms by (simp add: index_reads_def)
  obtain rs where rs: "days_loop (q_first idx) g ds (n - length ?msgs) = Inr rs"
    "page_lines rs = take (n - length ?msgs) (history files g ds)" using Cons.IH by blast
  have "n - length ?msgs = n - length (day_lines files g d)" by (simp add: day_lines_def)
  with rs query show ?case
    by (simp add: page_lines_push history_def Let_def) (simp add: day_lines_def take_map)
qed (simp add: history_def)

lemma recent_page:
  assumes "index_reads idx files"
  shows "\<exists>rs. get_recent idx days g n = Inr rs \<and> page_lines rs = last_n n (history files g days)"
  using days_loop_last [OF assms, of g "rev days" n] by (auto simp: get_recent_def)

text \<open>Lines are ordered by day and number.\<close>

definition earlier :: "string \<times> nat \<times> incoming_message \<Rightarrow> string \<times> nat \<times> incoming_message \<Rightarrow> bool" where
  "earlier a b \<longleftrightarrow> fst a < fst b \<or> fst a = fst b \<and> fst (snd a) < fst (snd b)"

lemma history_ordered:
  assumes "sorted days" and "distinct days"
  shows "sorted_wrt earlier (history files g days)"
  using assms
proof (induction days)
  case (Cons d days)
  have "sorted_wrt (\<lambda>a b. fst a < fst b) (numbered ms)" for ms
    using sorted_wrt_upt [of 1 "Suc (length ms)"]
    by (simp add: numbered_def sorted_wrt_map [of _ fst, symmetric] del: upt_Suc)
  then have "sorted_wrt earlier (day_lines files g d)"
    by (simp add: day_lines_def sorted_wrt_map earlier_def)
  moreover have "d < d'" if "d' \<in> set days" for d' using Cons.prems that by (auto simp: order.order_iff_strict)
  then have "earlier a b" if "a \<in> set (day_lines files g d)" "b \<in> set (history files g days)" for a b
    using that by (auto simp: history_def day_lines_def earlier_def)
  ultimately show ?case using Cons by (simp add: history_def sorted_wrt_append)
qed (simp add: history_def)

lemma filter_split:
  assumes "sorted_wrt R (xs @ y # ys)" and "\<And>a b. R a b \<Longrightarrow> \<not> R b a" and "\<And>a. \<not> R a a"
  shows "filter (\<lambda>a. R a y) (xs @ y # ys) = xs" and "filter (\<lambda>a. R y a) (xs @ y # ys) = ys"
  using assms by (auto simp: sorted_wrt_append filter_empty_conv intro!: filter_True)

lemma days_split:
  assumes "sorted days" and "distinct days" and "d \<in> set days"
  obtains ds1 ds2 where "days = ds1 @ d # ds2" and "filter (\<lambda>x. x < d) days = ds1" and "filter (\<lambda>x. d < x) days = ds2"
proof -
  from assms(3) obtain ds1 ds2 where days: "days = ds1 @ d # ds2" by (meson split_list)
  have "\<forall>x \<in> set ds1. x < d" "\<forall>x \<in> set ds2. d < x"
    using assms(1,2) by (auto simp: days sorted_append order.order_iff_strict)
  then have "filter (\<lambda>x. x < d) days = ds1" "filter (\<lambda>x. d < x) days = ds2"
    by (auto simp: days filter_empty_conv intro!: filter_True)
  with days that show thesis by blast
qed

lemma filter_days:
  "\<forall>x \<in> set ds. x < d \<Longrightarrow> filter (\<lambda>a. earlier a (d, l, m)) (history files g ds) = history files g ds"
  "\<forall>x \<in> set ds. d < x \<Longrightarrow> filter (\<lambda>a. earlier a (d, l, m)) (history files g ds) = []"
  "\<forall>x \<in> set ds. x < d \<Longrightarrow> filter (\<lambda>a. earlier (d, l, m) a) (history files g ds) = []"
  "\<forall>x \<in> set ds. d < x \<Longrightarrow> filter (\<lambda>a. earlier (d, l, m) a) (history files g ds) = history files g ds"
  by (fastforce simp: history_def day_lines_def earlier_def filter_empty_conv intro!: filter_True)+

lemma filter_day:
  "filter (\<lambda>a. earlier a (d, l, m)) (day_lines files g d) =
    map (Pair d) (filter (\<lambda>p. fst p < l) (numbered (files \<lparr>mk_group_id = g, mk_date = d\<rparr>)))"
  "filter (\<lambda>a. earlier (d, l, m) a) (day_lines files g d) =
    map (Pair d) (filter (\<lambda>p. l < fst p) (numbered (files \<lparr>mk_group_id = g, mk_date = d\<rparr>)))"
  by (simp_all add: day_lines_def earlier_def filter_map comp_def case_prod_beta)

lemma numbered_before:
  assumes "index_reads idx files"
  shows "(if 0 < l - 1 then q_before idx key (l - 1) n else Inr []) = Inr (last_n n (filter (\<lambda>p. fst p < l) (numbered (files key))))"
proof (cases "0 < l - 1")
  case True
  then have "i \<le> l - 1 \<longleftrightarrow> i < l" for i by linarith
  with True assms show ?thesis by (simp add: index_reads_def)
next
  case False
  then have "filter (\<lambda>p. fst p < l) (numbered (files key)) = []"
    by (auto simp: filter_empty_conv numbered_def in_set_enumerate_eq)
  with False show ?thesis by (simp add: last_n_def)
qed

text \<open>From any line of the conversation on, pages before and after it are what is before and after it.\<close>

lemma page_around:
  assumes idx: "index_reads idx files" and days: "sorted days" "distinct days"
    and line: "history files g days = xs @ (d, l, m) # ys"
  shows "\<exists>rs. get_before idx days \<lparr>mk_group_id = g, mk_date = d\<rparr> l n = Inr rs \<and> page_lines rs = last_n n xs"
    and "\<exists>rs. get_after idx days \<lparr>mk_group_id = g, mk_date = d\<rparr> l n = Inr rs \<and> page_lines rs = take n ys"
proof -
  let ?key = "\<lparr>mk_group_id = g, mk_date = d\<rparr>"
  let ?ms = "numbered (files ?key)"
  have "(d, l, m) \<in> set (history files g days)" by (simp add: line)
  then have "d \<in> set days" by (auto simp: history_def day_lines_def)
  then obtain ds1 ds2 where ds: "days = ds1 @ d # ds2" "filter (\<lambda>x. x < d) days = ds1" "filter (\<lambda>x. d < x) days = ds2"
    using days_split [OF days] by blast
  have order: "\<forall>x \<in> set ds1. x < d" "\<forall>x \<in> set ds2. d < x" using ds(2,3) by auto
  have parts: "history files g days = history files g ds1 @ day_lines files g d @ history files g ds2"
    by (simp add: ds(1) history_def)
  have antisym: "earlier a b \<Longrightarrow> \<not> earlier b a" "\<not> earlier a a" for a b by (auto simp: earlier_def)
  note split = filter_split [OF history_ordered [OF days, of files g, unfolded line] antisym]
  have xs: "xs = history files g ds1 @ map (Pair d) (filter (\<lambda>p. fst p < l) ?ms)"
    using split(1) unfolding line [symmetric] parts by (simp add: filter_days order filter_day)
  have ys: "ys = map (Pair d) (filter (\<lambda>p. l < fst p) ?ms) @ history files g ds2"
    using split(2) unfolding line [symmetric] parts by (simp add: filter_days order filter_day)
  let ?b = "last_n n (filter (\<lambda>p. fst p < l) ?ms)"
  obtain rs where "days_loop (q_last idx) g (rev ds1) (n - length ?b) = Inr rs"
    "page_lines (rev rs) = last_n (n - length ?b) (history files g ds1)"
    using days_loop_last [OF idx, of g "rev ds1"] by auto
  moreover have "n - length ?b = n - length (filter (\<lambda>p. fst p < l) ?ms)" by simp
  ultimately show "\<exists>rs. get_before idx days ?key l n = Inr rs \<and> page_lines rs = last_n n xs"
    unfolding get_before_def numbered_before [OF idx]
    by (simp add: before_loop_days [OF days] ds(2) page_lines_push xs last_n_append last_n_map
        del: length_last_n)
  let ?a = "take n (filter (\<lambda>p. l < fst p) ?ms)"
  have after: "q_after idx ?key (l + 1) n = Inr ?a" using idx by (simp add: index_reads_def Suc_le_eq)
  obtain qs where "days_loop (q_first idx) g ds2 (n - length ?a) = Inr qs"
    "page_lines qs = take (n - length ?a) (history files g ds2)"
    using days_loop_first [OF idx, of g ds2] by auto
  moreover have "n - length ?a = n - length (filter (\<lambda>p. l < fst p) ?ms)" by simp
  ultimately show "\<exists>rs. get_after idx days ?key l n = Inr rs \<and> page_lines rs = take n ys"
    by (simp add: get_after_def after [simplified] after_loop_days [OF days] ds(3) page_lines_push ys take_map del: length_take)
qed

text \<open>An index that reads the files.\<close>

definition lines_index :: "(msg_key \<Rightarrow> incoming_message list) \<Rightarrow> msg_index" where
  "lines_index files =
     \<lparr>q_last = (\<lambda>key n. Inr (last_n n (numbered (files key)))), q_first = (\<lambda>key n. Inr (take n (numbered (files key)))),
      q_before = (\<lambda>key l n. Inr (last_n n (filter (\<lambda>p. fst p \<le> l) (numbered (files key))))),
      q_after = (\<lambda>key l n. Inr (take n (filter (\<lambda>p. l \<le> fst p) (numbered (files key)))))\<rparr>"

lemma lines_index_reads: "index_reads (lines_index files) files"
  by (simp add: index_reads_def lines_index_def)

end
