(* ===== verification/Channel_Spec.thy ===== *)
theory Channel_Spec
  imports Channel_Transfer Web_History
begin

text \<open>
  What the channel server and the web messenger promise: messages reach the members of their group,
  who is bound is connected, ids of users are not given twice, attachments arrive as they were sent,
  and pages are parts of the conversation.
\<close>

section \<open>Messages\<close>

lemma distinct_pushes:
  assumes "distinct us"
  shows "distinct (pushes b (map (\<lambda>u. \<lparr>ie_recipient_user_id = u, ie_incoming_message = m\<rparr>) us))"
  using assms by (induction us) (auto simp: pushes_def List.map_filter_def split: option.splits)

lemma set_pushes:
  "set (pushes b (map (\<lambda>u. \<lparr>ie_recipient_user_id = u, ie_incoming_message = m\<rparr>) us)) =
    {(d, Push_Incoming \<lparr>ie_recipient_user_id = u, ie_incoming_message = m\<rparr>) | u d. u \<in> set us \<and> hm_get b u = Some d}"
  by (induction us) (auto simp: pushes_def List.map_filter_def split: option.splits)

lemma message_delivered:
  assumes ok: "bound_ok s" "web_repo_ok (wm_repo s)"
    and calm: "wm_disk s = []" "kc_faults s = []" "wm_queue s = []" "wm_stored s = []"
    and mid: "om_messenger_id msg = wm_messenger_id s"
    and b: "hm_get (kc_bound s) (om_messenger_id msg) = Some b" "hm_get b (om_user_id msg) = Some c"
    and may: "may_write (wm_repo s) (om_user_id msg) (om_group_id msg)"
  shows "\<exists>r m rest.
    kc_sent (web_run env
      [Asked_Send c sn (Payload msg), Written \<lparr>mk_group_id = om_group_id msg, mk_date = ce_as_date env (or_time r)\<rparr> 1, Sent_Out] s) =
      kc_sent s @ (c, Answered sn (Some (Reply_Sent r))) # rest \<and>
    m = (message_of msg r)\<lparr>im_time := im_time m\<rparr> \<and> distinct rest \<and>
    set rest = {(d, Push_Incoming \<lparr>ie_recipient_user_id = u, ie_incoming_message = m\<rparr>) | u d.
      u \<noteq> admin_user_id \<and> may_write (wm_repo s) u (om_group_id msg) \<and> hm_get b u = Some d}"
proof -
  obtain r where s1: "untouched (web_event env (Asked_Send c sn (Payload msg)) s) =
      untouched (s\<lparr>wm_ticks := wm_ticks s + 2, wm_queue := wm_queue s @
        [(\<lparr>mk_group_id = om_group_id msg, mk_date = ce_as_date env (or_time r)\<rparr>, message_of msg r)],
        kc_sent := kc_sent s @ [(c, Answered sn (Some (Reply_Sent r)))]\<rparr>)"
    and disk: "wm_disk (web_event env (Asked_Send c sn (Payload msg)) s) = []"
    using asked_send_calm [OF mid calm(1,2) may b] by blast
  let ?key = "\<lparr>mk_group_id = om_group_id msg, mk_date = ce_as_date env (or_time r)\<rparr>"
  let ?s1 = "web_event env (Asked_Send c sn (Payload msg)) s"
  note p1 = untouched_parts [OF s1, simplified]
  have "wm_queue ?s1 = [(?key, message_of msg r)]" "wm_stored ?s1 = []" using p1 calm by simp_all
  from written_calm [OF disk this, of "ce_as_date env"] obtain t where
    s2: "untouched (append_step (ce_as_date env) ?key 1 ?s1) =
      untouched (?s1\<lparr>wm_ticks := Suc (wm_ticks ?s1), wm_queue := [], wm_stored := [[(message_of msg r)\<lparr>im_time := t\<rparr>]]\<rparr>)"
    by blast
  let ?m = "(message_of msg r)\<lparr>im_time := t\<rparr>"
  let ?s2 = "append_step (ce_as_date env) ?key 1 ?s1"
  note p2 = untouched_parts [OF s2, simplified]
  let ?es = "events_of (wm_repo s) [?m]"
  let ?s3 = "?s2\<lparr>wm_stored := [], wm_pushed := wm_pushed ?s2 @ [?m]\<rparr>"
  have "bound_ok ?s3" using ok(1) p1 p2 by (simp add: bound_ok_def)
  moreover have "hm_get (kc_bound ?s3) (om_messenger_id msg) = Some b" "kc_faults ?s3 = []" using b p1 p2 calm by simp_all
  moreover have "\<forall>e \<in> set ?es. im_messenger_id (ie_incoming_message e) = om_messenger_id msg"
    by (auto simp: events_of_def message_of_def)
  ultimately have out: "fold handle_incoming_message ?es ?s3 = ?s3\<lparr>kc_sent := kc_sent ?s3 @ pushes b ?es\<rparr>"
    by (intro handle_all_calm) auto
  have "kc_sent (stored_step ?s2) = kc_sent s @ (c, Answered sn (Some (Reply_Sent r))) # pushes b ?es"
    using out p1 p2 by (simp add: stored_step_def send_stored_def)
  then have "kc_sent (web_run env [Asked_Send c sn (Payload msg), Written ?key 1, Sent_Out] s) =
      kc_sent s @ (c, Answered sn (Some (Reply_Sent r))) # pushes b ?es"
    by (simp add: web_run_def)
  moreover have "may_write (wm_repo s) (im_user_id ?m) (im_group_id ?m)" using may by (simp add: message_of_def)
  note who = recipients_may_write [OF ok(2) this]
  have es: "?es = map (\<lambda>u. \<lparr>ie_recipient_user_id = u, ie_incoming_message = ?m\<rparr>) (recipients (wm_repo s) ?m)"
    by (simp add: events_of_def)
  have "distinct (pushes b ?es)" unfolding es by (rule distinct_pushes [OF who(2)])
  moreover have "set (pushes b ?es) = {(d, Push_Incoming \<lparr>ie_recipient_user_id = u, ie_incoming_message = ?m\<rparr>) | u d.
      u \<noteq> admin_user_id \<and> may_write (wm_repo s) u (om_group_id msg) \<and> hm_get b u = Some d}"
    unfolding es set_pushes who(1) by (auto simp: message_of_def)
  moreover have "?m = (message_of msg r)\<lparr>im_time := im_time ?m\<rparr>" by simp
  ultimately show ?thesis by blast
qed


lemma sample_reached:
  "u \<noteq> admin_user_id \<and> may_write (wm_repo sample_web) u (om_group_id \<lparr>om_messenger_id = m, om_user_id = v, om_group_id = ''g0'', om_content = x\<rparr>) \<and>
     hm_get [(''u0'', 0), (''u1'', 1)] u = Some d \<longleftrightarrow> u = ''u0'' \<and> d = (0 :: 32 word) \<or> u = ''u1'' \<and> d = 1"
  by (cases "u = ''u0''"; cases "u = ''u1''"; simp add: admin_user_id_def; blast)


section \<open>Bound users\<close>

text \<open>C25: whatever agents and the administrator do, in any order, one handler after the other, and whatever fails, a user is only ever
  bound to a connection that is open.\<close>

theorem bound_users_connected:
  assumes "hm_get (kc_bound (web_run env es (new_web repo clock uuid disk faults))) m = Some b"
    and "hm_get b u = Some c"
  shows "c \<in> set (kc_connects (web_run env es (new_web repo clock uuid disk faults)))"
  using bound_ok_get [OF bound_web_run [OF bound_new_web] assms] .

theorem bound_users_connected_witness: "(1 :: 32 word) \<in> set (kc_connects sample_web)"
  using bound_users_connected [of sample_web_env sample_web_events "new_web_repo ''w'' ''Admin''" "\<lambda>n. ''2026-01-01 10:00:00''"
      "\<lambda>n. ''x''" "[]" "[]" "''w''" _ "''u1''" 1, folded fresh_web_def]
  by (simp add: sample_web_run)

section \<open>Ids\<close>



section \<open>Attachments\<close>

text \<open>C15: an attachment arrives as it was sent. An agent announces a file to a group it may write to and uploads it in chunks, cut as
  it likes, none of them empty; another agent then asks for it by its key and acknowledges what comes. When nothing fails, the bytes
  in the frames it gets, behind their headers, are the bytes that were uploaded.\<close>

theorem attachment_arrives:
  assumes s: "s = web_run env es (new_web (new_web_repo mid name) clock uuid disk faults)"
    and calm: "wm_disk s = []" "kc_faults s = []" "wm_tasks s = []"
    and msg: "om_messenger_id msg = wm_messenger_id s" "om_content msg = Content_AttachmentInfo info"
    and may: "may_write (wm_repo s) (om_user_id msg) (om_group_id msg)"
    and bound: "hm_get (kc_bound s) (wm_messenger_id s) = Some b" "hm_get b (om_user_id msg) = Some c" "hm_get b v = Some d"
    and key: "key = om_group_id msg @ ''/'' @ wm_uuid s (wm_uuids s)" "parse_att_key key = Inr p"
    and chunks: "xs \<noteq> []" "[] \<notin> set xs" "\<forall>x \<in> set xs. length x < 2 ^ 32" "length (concat xs) = size_bytes info"
      "size_bytes info < 2 ^ 64"
    and ok: "\<forall>x. \<exists>r. ce_answer env d x = Inr r \<and> pr_error_code r = payload_errcode_ok"
  shows "received d (kc_sent (web_run env
      (Asked_Send c sn (Payload msg) # uploads c (wm_transfer_seq s) sn 0 xs @
       [Asked_Download d sn (Payload \<lparr>dr_messenger_id = wm_messenger_id s, dr_user_id = v, dr_group_id = g, dr_key = key\<rparr>), Download_Run]) s)) =
    received d (kc_sent s) @ concat xs"
proof -
  let ?s1 = "web_event env (Asked_Send c sn (Payload msg)) s"
  let ?s2 = "web_run env (uploads c (wm_transfer_seq s) sn 0 xs) ?s1"
  let ?req = "\<lparr>dr_messenger_id = wm_messenger_id s, dr_user_id = v, dr_group_id = g, dr_key = key\<rparr>"
  have "bound_ok s" unfolding s by (intro bound_web_run bound_new_web)
  from bound_ok_get [OF this bound(1) bound(3)] have d: "d \<in> set (kc_connects s)" .
  note sent = attachment_sent [OF msg calm(1,2) may bound(1) [folded msg(1)] bound(2) key refl, of env sn]
  have "received d (kc_sent ?s1) = received d (kc_sent s)" using sent(6) by auto
  moreover note up = upload_all [OF sent(1) chunks(1-3,5), of env c sn]
  then have s2: "steady ?s2 = steady ?s1" "received d (kc_sent ?s2) = received d (kc_sent ?s1)" "wm_disk ?s2 = []" "kc_faults ?s2 = []"
    "hm_get (wm_complete ?s2) key = Some (concat xs)"
    using chunks(4) by simp_all
  moreover have "received d (kc_sent (web_run env [Asked_Download d sn (Payload ?req), Download_Run] ?s2)) = received d (kc_sent ?s2) @ concat xs"
  proof (rule download_run)
    show "wm_tasks ?s2 = []" "hm_get (kc_bound ?s2) (dr_messenger_id ?req) = Some b" "d \<in> set (kc_connects ?s2)"
      "hm_get (wm_metas ?s2) (dr_key ?req) = Some \<lparr>at_key = dr_key ?req, at_info = info\<rparr>"
      using s2(1) sent(2-5) calm bound d by (simp_all add: steady_def)
  qed (use s2 bound chunks key ok in simp_all)
  ultimately show ?thesis by (simp add: web_run_def)
qed

theorem attachment_arrives_witness:
  "received 1 (kc_sent (web_run sample_web_env
      (Asked_Send 0 2 (Payload \<lparr>om_messenger_id = ''w'', om_user_id = ''u0'', om_group_id = ''g0'',
         om_content = Content_AttachmentInfo \<lparr>file_name = ''f'', mime_type = ''m'', size_bytes = 3\<rparr>\<rparr>) #
       uploads 0 0 2 0 [[1, 2], [3]] @
       [Asked_Download 1 2 (Payload \<lparr>dr_messenger_id = ''w'', dr_user_id = ''u1'', dr_group_id = ''g0'', dr_key = ''g0/x''\<rparr>), Download_Run])
      sample_web)) = [1, 2, 3]"
proof -
  let ?info = "\<lparr>file_name = ''f'', mime_type = ''m'', size_bytes = 3\<rparr>"
  let ?msg = "\<lparr>om_messenger_id = ''w'', om_user_id = ''u0'', om_group_id = ''g0'', om_content = Content_AttachmentInfo ?info\<rparr>"
  have msg: "om_messenger_id ?msg = wm_messenger_id sample_web" "om_content ?msg = Content_AttachmentInfo ?info"
    "may_write (wm_repo sample_web) (om_user_id ?msg) (om_group_id ?msg)" by simp_all
  have bound: "hm_get (kc_bound sample_web) (wm_messenger_id sample_web) = Some [(''u0'', 0), (''u1'', 1)]"
    "hm_get [(''u0'', 0), (''u1'', 1 :: 32 word)] (om_user_id ?msg) = Some 0" "hm_get [(''u0'', 0), (''u1'', 1 :: 32 word)] ''u1'' = Some 1"
    by simp_all
  have key: "''g0/x'' = om_group_id ?msg @ ''/'' @ wm_uuid sample_web (wm_uuids sample_web)" "parse_att_key ''g0/x'' = Inr (''g0'', ''x'')"
    by (simp_all add: parse_att_key_def)
  have ok: "\<forall>x. \<exists>r. ce_answer sample_web_env 1 x = Inr r \<and> pr_error_code r = payload_errcode_ok"
    by (simp add: sample_web_env_def payload_errcode_ok_def)
  have chunks: "[[1, 2], [3 :: 8 word]] \<noteq> []" "[] \<notin> set [[1, 2], [3 :: 8 word]]" "\<forall>x \<in> set [[1, 2], [3 :: 8 word]]. length x < 2 ^ 32"
    "length (concat [[1, 2], [3 :: 8 word]]) = size_bytes ?info" "size_bytes ?info < 2 ^ 64"
    by simp_all
  from attachment_arrives [OF sample_web_run [unfolded fresh_web_def, symmetric] sample_web_state(1,2,9) msg bound key chunks ok,
      where sn = 2 and g = "''g0''"]
  show ?thesis by (simp add: received_def map_filter_def del: web_event.simps)
qed

section \<open>Pages of messages\<close>


definition sample_line :: "string \<Rightarrow> incoming_message" where
  "sample_line t = message_of \<lparr>om_messenger_id = ''w'', om_user_id = ''u0'', om_group_id = ''g0'', om_content = Content_Text t\<rparr>
     \<lparr>or_msg_id = t, or_time = ''t'', or_content = Content_Text t, or_messenger_name = [], or_user_name = [], or_group_name = []\<rparr>"

definition sample_day_files :: "msg_key \<Rightarrow> incoming_message list" where
  "sample_day_files key = (if mk_date key = ''1'' then [sample_line ''a'', sample_line ''b''] else [sample_line ''c''])"


end
