(* ===== verification/Spec2Isabelle.thy ===== *)
theory Spec2Isabelle
  imports Store_Spec Tree_Spec Records_Spec Archive_Spec Service_Spec Restart_Spec Session_Spec Sample_Runs Agent_Spec Agent_Run_Spec Ego_Promises Channel_Spec
begin

text \<open>
  Verification library of kissbot: a system of services in Rust around an agent that talks to people
  over channels, asks language models, calls tools and keeps a memory. Paths are those below
  \<open>src/\<close>.

  \<^bold>\<open>The program.\<close> Five processes work together. The \<^emph>\<open>channel server\<close> (\<open>kissbot-channel\<close>, with the web
  messenger \<open>kissbot-channel-web\<close>) passes messages and attachments between people and the agents that
  are bound to users of a messenger. The \<^emph>\<open>agent\<close> (\<open>kissbot-agent\<close>) collects incoming messages into
  batches, runs them through the pipelines of its sessions, where a model of \<open>kissbot-llm\<close> is asked
  and tools of its \<^emph>\<open>station\<close> are called, and sends the answers out. It hands all of it to the
  \<^emph>\<open>memory store\<close> (\<open>kissbot-memory-store\<close>), which appends records to files by day. The \<^emph>\<open>summary memory\<close>
  (\<open>kissbot-memory-struct-abstract\<close>) is notified of them, and files copies of them in a tree of cases
  that it keeps per agent and role, asking a model where they belong; the agent rebuilds the context
  of a session from it. The \<^emph>\<open>ego service\<close> (\<open>kissbot-memory-ego\<close>) keeps what agents, the individuals they
  know and their roles are; the agent asks it whether an agent and a role exist.

  \<^bold>\<open>Conventions.\<close> An operation that may fail is a function from a state to an error or a value and a
  state (theory \<open>Prelude\<close>): the state comes back in both cases, since an early return leaves behind
  what was already done. A file is what a reader makes of it (a list of lines, or one value, missing
  or damaged), and lists of booleans in the state say which of the coming file operations or frames
  fail. Clocks, random ids, networks, models, JSON printers and parsers and the libraries' indexes are
  parameters. Integers have their width where the code can wrap around (ids of connections, transfers,
  users and messages, the deadlines of the batches, the header of an attachment chunk), and are natural
  numbers where they count. What is shared between tasks without a lock is stepped through access by
  access (\<open>Batch_Processor\<close>); elsewhere an operation under a lock, or a handler, is one step, and runs
  are lists of such steps in any order.

  \<^bold>\<open>Shared theories.\<close>
  \<^item> \<open>Prelude\<close>: the operations with their inversion rules, Hoare triples, what operations keep
    (\<open>keeps\<close>, \<open>preserves\<close>) and the collections of facts the other theories fill.
  \<^item> \<open>Containers\<close>: \<open>BTreeMap\<close>, \<open>BTreeSet\<close>, \<open>HashMap\<close>; the locale \<open>key_value\<close> is interpreted on both maps.
  \<^item> \<open>Memory_Types\<close>, \<open>Abstract_Types\<close>, \<open>Channel_Types\<close>, \<open>Ego_Types\<close>, \<open>Agent_Types\<close>, \<open>Web_Values\<close>: the data
    of \<open>kissbot-api\<close> and of the crates, with the orders of \<open>derive(Ord)\<close>.

  \<^bold>\<open>Memory store.\<close> \<open>Record_Writer\<close> models \<open>record.rs\<close> and the parsers of \<open>kissbot-memory/src/data.rs\<close>, with the
  locale \<open>memory_record\<close> for the four kinds of records; \<open>Record_Store\<close> is the step relation of requests,
  flushes and restarts with its invariant. \<open>Store_Spec\<close> shows that files stay numbered without gaps and
  ordered in time, that a write keeps every record, and that a request is queued wholly or not at all.

  \<^bold>\<open>Summary memory.\<close>
  \<^item> \<open>Case_Tree\<close> (\<open>tree.rs\<close>), with its invariant in \<open>Case_Tree_Inv\<close> and its properties in \<open>Tree_Spec\<close>.
  \<^item> \<open>Struct_Records\<close> (\<open>records.rs\<close>), properties in \<open>Records_Spec\<close>: the copies of a case are read back as written.
  \<^item> \<open>Decision_Model\<close> (\<open>model.rs\<close>, \<open>stub_model.rs\<close>): the locale \<open>decision_interface\<close> is what the archiver relies
    on; it is interpreted on the stub and, in \<open>Llm_Model\<close>, on the model that asks a language model.
  \<^item> \<open>Agent_Role\<close> (\<open>agent_role.rs\<close>): state and state files of a role; \<open>Restart_Spec\<close>: a restart loses nothing that was saved.
  \<^item> \<open>Archive\<close> (\<open>archive.rs\<close>), with \<open>Archive_Batch\<close> (the batch is a partition), \<open>Archive_Inv\<close> (invariants, a failing
    chunk leaves no trace in memory), \<open>Archive_Effect\<close> and \<open>Archive_Run\<close> (where every record goes), \<open>Archive_Spec\<close>.
  \<^item> \<open>Abstract_Service\<close> (\<open>service.rs\<close>, \<open>locate.rs\<close>), with \<open>Service_Inv\<close>, \<open>Service_Run\<close>, \<open>Locate_Run\<close> and \<open>Service_Spec\<close>: every
    pending record is filed exactly once, a trigger leaves nothing to do, an answer covers every message.
    \<open>Samples\<close> and \<open>Sample_Runs\<close> hold a small world and the theorems at work in it.

  \<^bold>\<open>Language models.\<close> \<open>Llm_Session\<close> (\<open>session.rs\<close>: context, cache, history), \<open>Llm_Provider\<close> (\<open>provider.rs\<close>: the two
  protocols, retries), \<open>Llm_Model\<close>, \<open>Session_Config\<close> (\<open>config.rs\<close> and the settings of the agent, with the locales
  \<open>mergeable\<close> and \<open>session_kind\<close>). \<open>Session_Spec\<close> shows that a restart between operations cannot be noticed and that a request
  is sent a bounded number of times.

  \<^bold>\<open>Agent.\<close>
  \<^item> \<open>Agent_Config\<close> (\<open>config_manager.rs\<close>, \<open>configs/\<close>): every change of the repositories and their files.
  \<^item> \<open>Agent_Message\<close>, \<open>Agent_Input\<close> (\<open>message.rs\<close>, \<open>abstract_input_processor.rs\<close>): records as a conversation, the context
    rebuilt from the summary memory. \<open>Batch_Processor\<close> (\<open>channel_batch_processor.rs\<close>): the lock-free batching, all
    interleavings.
  \<^item> \<open>Station\<close>, \<open>Station_Net\<close>, \<open>Read_Tool\<close> (\<open>station.rs\<close>, \<open>station/\<close>): tools, cascades of stations, the tool that reads
    files; properties in \<open>Station_Spec\<close>.
  \<^item> \<open>Agent_State\<close>, \<open>Agent_Pipeline\<close>, \<open>Agent_Nexus\<close> (\<open>session_manager.rs\<close>, \<open>channel_manager.rs\<close>, \<open>provider.rs\<close>, \<open>pipelines.rs\<close>,
    \<open>token_reducer.rs\<close>, \<open>nexus.rs\<close>, \<open>command_router.rs\<close>): the running agent as one state. \<open>Agent_Inv\<close> has the locales
    \<open>quiet_law\<close> and \<open>agent_law\<close>, under which every operation is shown once to keep a condition; they are interpreted for
    well-formedness, for the providers and for what was handed to the memory. \<open>Agent_Run\<close> has the loops, \<open>Agent_Samples\<close>
    a started agent, \<open>Agent_Spec\<close> and \<open>Agent_Run_Spec\<close> the properties.

  \<^bold>\<open>Ego service.\<close> \<open>Ego_Store\<close> (cells: an object in memory and its file), \<open>Ego_Read\<close>, \<open>Ego_Change\<close> (\<open>agent.rs\<close>,
  \<open>individual_recognition.rs\<close>, \<open>role_play.rs\<close>), \<open>Ego_Search\<close> (\<open>search.rs\<close>), \<open>Ego_Api\<close> (\<open>api.rs\<close>). \<open>Ego_Spec\<close> and \<open>Ego_Service\<close> hold the
  abstract service, three maps, and the refinement by the code's (locale \<open>held_object\<close>, one interpretation for each manager).
  \<open>Ego_Run\<close> has runs with restarts and faults and connects the service to the agent of \<open>Agent_Nexus\<close>; \<open>Ego_Names\<close> (locale
  \<open>kept_object\<close>), \<open>Ego_Fresh\<close> and \<open>Ego_Promises\<close> what holds of them: restarts are not seen, searches find what is there now.

  \<^bold>\<open>Channels.\<close> \<open>Channel_Server\<close> (\<open>channel_server.rs\<close>, \<open>data.rs\<close>, \<open>attachment.rs\<close>) has the trait \<open>Messenger\<close> as a record of operations;
  the locale \<open>messenger_aside\<close> says what the server's requests leave alone, and is interpreted on the web messenger.
  \<open>Web_Messenger\<close> (\<open>messenger.rs\<close>, the writer of \<open>message_store.rs\<close>), \<open>Web_Attachments\<close> (\<open>attachment.rs\<close>, and the frames of
  \<open>kissbot-channel-client\<close>) and \<open>Web_History\<close> (the queries of \<open>message_store.rs\<close>). \<open>Channel_Run\<close> composes server, messenger and
  tasks to runs; \<open>Channel_Edits\<close> shows that the repository of users and groups is what the edits make of it, \<open>Channel_Delivery\<close>
  and \<open>Channel_Transfer\<close> follow a message and an attachment through; \<open>Channel_Spec\<close> has the properties.

  \<^bold>\<open>Loops and bounds.\<close> Loops are structural or have a measure (downloads: the bytes left; days of a group: the days left).
  Where the code's loop could run for ever, fuel stands for the number of rounds and is shown to suffice: the walk to the root
  takes at most as many steps as the tree has nodes when the links agree; among one more candidate suffix than there are nodes
  one is free; the two loops of the pipelines stop after ten rounds, the limit in the code; a search that catches up with
  changes is done in two rounds, as nothing is marked during the first. A cascade of stations visits no station twice on a way.
  That users get no id twice holds for fewer than 2^32 of them; sums of positions in a file are taken to fit in 64 bits.

  \<^bold>\<open>Not modelled.\<close> The HTTP and WebSocket servers and clients themselves and the handlers that only decode a request
  (\<open>api.rs\<close> of the memory store and of the summary memory, \<open>http.rs\<close> of the web messenger, \<open>http_server.rs\<close> and \<open>station_http.rs\<close> of the agent): I/O without logic
  of their own. Reading configuration files and checking API keys (\<open>kissbot-security\<close>, \<open>config.rs\<close>). The frames of the tool protocol
  (\<open>kissbot-mcp\<close>) but for what station and client read of them. Thumbnails, the caches of metadata, the command lines. The
  libraries \<open>kai_file\<close>, \<open>kai_ws\<close>, \<open>kai_date\<close>, \<open>kai_index\<close> and the HTTP client are not part of the repository: what is
  used of them is a parameter, and where something is relied on (the appender hands over what was queued, an index finds the
  lines of a file or the documents entered, an answer acknowledges a chunk) it is an assumption by name. Two handlers that are
  interrupted in the middle by each other are only modelled where the code is lock-free; where that hides a fault of the code it
  is noted with the findings of the manifest.
\<close>

end
